(* ===== verification/PyFloat.thy ===== *)
theory PyFloat
  imports Complex_Main "HOL-Library.Log_Nat"
begin

text \<open>
  Python's \<open>float\<close>: IEEE-754 binary64 with round-to-nearest, ties to even.

  A value of type \<open>f64\<close> is a rational that binary64 can represent; every arithmetic
  operation is the exact rational operation followed by the rounding \<open>fl\<close>, as the
  standard prescribes. Subnormal numbers are modelled (the exponent of the last place
  never drops below -1074); the exponent is not bounded above, so overflow beyond
  1.8e308 is outside the model. Signed zeros are identified, NaN and the infinities are
  not values of \<open>f64\<close> (where a component tests for them, its theory says how).
  Everything is executable: \<open>code_simp\<close> evaluates closed float expressions.
\<close>

subsection \<open>Rounding a rational to binary64\<close>

text \<open>Round half to even, to an integer; the (base 2) exponent of a rational; the
  exponent of the unit in the last place; the rounding itself.\<close>

definition rhe :: "rat \<Rightarrow> int" where
  "rhe x = (let f = \<lfloor>x\<rfloor>; r = x - of_int f in
     if r < 1 / 2 then f else if 1 / 2 < r then f + 1 else if even f then f else f + 1)"

definition expo :: "rat \<Rightarrow> int" where
  "expo x = (let (p, q) = quotient_of \<bar>x\<bar>;
                 k = bitlen p - bitlen q
             in if 2 powi k \<le> \<bar>x\<bar> then k else k - 1)"

definition ulp_expo :: "rat \<Rightarrow> int" where
  "ulp_expo x = max (expo x - 52) (- 1074)"

definition fl :: "rat \<Rightarrow> rat" where
  "fl x = (if x = 0 then 0
           else let u = 2 powi ulp_expo x in of_int (rhe (x / u)) * u)"

subsection \<open>Rounding is monotone and idempotent\<close>

lemma rhe_of_int [simp]: "rhe (of_int n) = n"
  by (simp add: rhe_def Let_def)

lemma rhe_bounds: "\<lfloor>x\<rfloor> \<le> rhe x" "rhe x \<le> \<lceil>x\<rceil>"
proof -
  show "\<lfloor>x\<rfloor> \<le> rhe x" by (simp add: rhe_def Let_def)
  show "rhe x \<le> \<lceil>x\<rceil>"
  proof (cases "x = of_int \<lfloor>x\<rfloor>")
    case True
    then show ?thesis by (metis ceiling_of_int order_refl rhe_of_int)
  next
    case False
    then have "\<lceil>x\<rceil> = \<lfloor>x\<rfloor> + 1" by (metis ceiling_altdef)
    then show ?thesis by (simp add: rhe_def Let_def)
  qed
qed

lemma rhe_mono: assumes "x \<le> y" shows "rhe x \<le> rhe y"
proof (cases "\<lfloor>x\<rfloor> = \<lfloor>y\<rfloor>")
  case True
  then show ?thesis using assms by (auto simp: rhe_def Let_def)
next
  case False
  then have "\<lfloor>x\<rfloor> + 1 \<le> \<lfloor>y\<rfloor>" using floor_mono[OF assms] by simp
  moreover have "rhe x \<le> \<lfloor>x\<rfloor> + 1" by (simp add: rhe_def Let_def)
  moreover have "\<lfloor>y\<rfloor> \<le> rhe y" by (rule rhe_bounds)
  ultimately show ?thesis by simp
qed

lemma rhe_uminus: "rhe (- x) = - rhe x"
proof (cases "x = of_int \<lfloor>x\<rfloor>")
  case True
  then show ?thesis by (metis of_int_minus rhe_of_int)
next
  case False
  then have c: "\<lfloor>- x\<rfloor> = - \<lfloor>x\<rfloor> - 1" by (metis ceiling_altdef ceiling_def minus_diff_eq diff_minus_eq_add minus_minus add.commute minus_add uminus_add_conv_diff)
  show ?thesis unfolding rhe_def Let_def c by (auto simp: field_simps)
qed

lemma expo_bounds:
  assumes "x \<noteq> 0"
  shows "2 powi expo x \<le> \<bar>x\<bar>" "\<bar>x\<bar> < 2 powi (expo x + 1)"
proof -
  obtain p q where pq: "quotient_of \<bar>x\<bar> = (p, q)" by force
  have q: "0 < q" using pq by (rule quotient_of_denom_pos)
  have x: "\<bar>x\<bar> = of_int p / of_int q" using pq by (rule quotient_of_div)
  with assms q have p: "0 < p"
    by (smt (verit) abs_le_zero_iff divide_nonpos_pos of_int_0_less_iff of_int_le_0_iff)
  define a where "a = nat (bitlen p)"
  define b where "b = nat (bitlen q)"
  have ab: "0 < a" "0 < b" "bitlen p = int a" "bitlen q = int b"
    using p q bitlen_eq_zero_iff[of p] bitlen_eq_zero_iff[of q] bitlen_nonneg[of p] bitlen_nonneg[of q]
    by (auto simp: a_def b_def)
  have ai: "2 ^ (a - 1) \<le> p" "p < 2 ^ a" and bi: "2 ^ (b - 1) \<le> q" "q < 2 ^ b"
    using bitlen_bounds[OF p] bitlen_bounds[OF q] ab by (simp_all add: nat_diff_distrib)
  have a1: "2 ^ (a - 1) \<le> (of_int p :: rat)" and a2: "(of_int p :: rat) < 2 ^ a"
    using ai(1)[THEN of_int_le_iff[where 'a=rat, THEN iffD2]] ai(2)[THEN of_int_less_iff[where 'a=rat, THEN iffD2]]
    by simp_all
  have b1: "2 ^ (b - 1) \<le> (of_int q :: rat)" and b2: "(of_int q :: rat) < 2 ^ b"
    using bi(1)[THEN of_int_le_iff[where 'a=rat, THEN iffD2]] bi(2)[THEN of_int_less_iff[where 'a=rat, THEN iffD2]]
    by simp_all
  define k where "k = int a - int b"
  have q': "0 < (of_int q :: rat)" using q by simp
  have lo: "2 powi (k - 1) \<le> \<bar>x\<bar>"
  proof -
    have "2 powi (k - 1) * of_int q \<le> 2 powi (k - 1) * (2 ^ b :: rat)"
      using b2 by (intro mult_left_mono) auto
    also have "\<dots> = 2 powi (k - 1 + int b)" by (subst power_int_add) auto
    also have "k - 1 + int b = int (a - 1)" using ab by (simp add: k_def of_nat_diff)
    also have "2 powi int (a - 1) \<le> (of_int p :: rat)" using a1 by simp
    finally show ?thesis using q' by (simp add: x field_simps)
  qed
  have hi: "\<bar>x\<bar> < 2 powi (k + 1)"
  proof -
    have "of_int p < (2 ^ a :: rat)" by (rule a2)
    also have "2 ^ a = (2 powi (k + 1 + int (b - 1)) :: rat)" using ab by (simp add: k_def of_nat_diff)
    also have "\<dots> = 2 powi (k + 1) * 2 ^ (b - 1)" by (subst power_int_add) auto
    also have "\<dots> \<le> 2 powi (k + 1) * of_int q" using b1 by (intro mult_left_mono) auto
    finally show ?thesis using q' by (simp add: x field_simps)
  qed
  have e: "expo x = (if 2 powi k \<le> \<bar>x\<bar> then k else k - 1)"
    by (simp add: expo_def pq k_def ab Let_def)
  show "2 powi expo x \<le> \<bar>x\<bar>" "\<bar>x\<bar> < 2 powi (expo x + 1)"
    using lo hi by (auto simp: e)
qed

lemma powi2_less_iff: "(2::rat) powi m < 2 powi n \<longleftrightarrow> m < n"
  by (meson linorder_not_le power_int_increasing power_int_strict_increasing one_le_numeral one_less_numeral_iff semiring_norm(76) leD)

lemma expo_eqI:
  assumes "2 powi k \<le> \<bar>x\<bar>" "\<bar>x\<bar> < 2 powi (k + 1)"
  shows "expo x = k"
proof -
  have "x \<noteq> 0" using assms(1) by (auto simp: power_int_def split: if_splits dest: leD)
  note b = expo_bounds[OF this]
  have "2 powi k < (2::rat) powi (expo x + 1)" "2 powi expo x < (2::rat) powi (k + 1)"
    using assms b by linarith+
  then show ?thesis by (simp add: powi2_less_iff)
qed

lemma expo_mono:
  assumes "x \<noteq> 0" "\<bar>x\<bar> \<le> \<bar>y\<bar>" shows "expo x \<le> expo y"
proof -
  have "y \<noteq> 0" using assms by auto
  have "2 powi expo x < (2::rat) powi (expo y + 1)"
    using expo_bounds[OF \<open>x \<noteq> 0\<close>] expo_bounds[OF \<open>y \<noteq> 0\<close>] assms(2) by linarith
  then show ?thesis by (simp add: powi2_less_iff)
qed

lemma expo_uminus [simp]: "expo (- x) = expo x"
  by (simp add: expo_def)

lemma fl_0 [simp]: "fl 0 = 0"
  by (simp add: fl_def)

lemma fl_uminus: "fl (- x) = - fl x"
  by (simp add: fl_def Let_def ulp_expo_def rhe_uminus)

lemma rhe_nonneg: "0 \<le> x \<Longrightarrow> 0 \<le> rhe x"
  using rhe_mono[of 0 x] rhe_of_int[of 0] by simp

lemma fl_nonneg: "0 \<le> x \<Longrightarrow> 0 \<le> fl x"
  by (auto simp: fl_def Let_def intro!: mult_nonneg_nonneg rhe_nonneg)

lemma fl_mono_pos:
  assumes "0 < x" "x \<le> y" shows "fl x \<le> fl y"
proof -
  define a where "a = ulp_expo x"
  define b where "b = ulp_expo y"
  have xy: "x \<noteq> 0" "y \<noteq> 0" "\<bar>x\<bar> = x" "\<bar>y\<bar> = y" using assms by auto
  have le: "expo x \<le> expo y" using expo_mono[of x y] xy assms by simp
  have fx: "fl x = of_int (rhe (x / 2 powi a)) * 2 powi a"
    and fy: "fl y = of_int (rhe (y / 2 powi b)) * 2 powi b"
    using xy by (simp_all add: fl_def Let_def a_def b_def)
  show ?thesis
  proof (cases "a = b")
    case True
    have "rhe (x / 2 powi a) \<le> rhe (y / 2 powi a)"
      using assms by (intro rhe_mono divide_right_mono) auto
    then show ?thesis unfolding fx fy True by (simp add: True mult_right_mono)
  next
    case False
    with le have ab: "a < b" by (auto simp: a_def b_def ulp_expo_def max_def split: if_splits)
    then have b: "b = expo y - 52" by (auto simp: a_def b_def ulp_expo_def max_def split: if_splits)
    have ex: "expo x < expo y" using ab by (auto simp: a_def b_def ulp_expo_def max_def split: if_splits)
    define m where "m = expo y - a"
    have m: "0 \<le> m" using ab b by (simp add: m_def)
    have "x < 2 powi (expo x + 1)" using expo_bounds(2)[of x] xy by simp
    also have "\<dots> \<le> (2::rat) powi expo y" using ex by (intro power_int_increasing) auto
    finally have "x / 2 powi a \<le> 2 powi expo y / 2 powi a" by (intro divide_right_mono) auto
    also have "\<dots> = of_int (2 ^ nat m)"
      using m by (simp add: m_def power_int_diff power_int_def[of 2 "expo y - a"] flip: power_int_diff)
    finally have "rhe (x / 2 powi a) \<le> 2 ^ nat m" using rhe_mono rhe_of_int by metis
    then have "of_int (rhe (x / 2 powi a)) \<le> (2::rat) ^ nat m"
      by (metis of_int_le_iff of_int_numeral of_int_power)
    also have "\<dots> = 2 powi m" using m by (simp add: power_int_def)
    finally have "fl x \<le> 2 powi m * 2 powi a" unfolding fx by (rule mult_right_mono) auto
    also have "\<dots> = 2 powi expo y" by (simp add: m_def flip: power_int_add)
    finally have 1: "fl x \<le> 2 powi expo y" .
    have "2 powi expo y \<le> y" using expo_bounds(1)[of y] xy by simp
    then have "2 powi expo y / 2 powi b \<le> y / 2 powi b" by (intro divide_right_mono) auto
    moreover have "2 powi expo y / 2 powi b = (of_int (2 ^ 52) :: rat)"
      by (simp add: b flip: power_int_diff)
    ultimately have "2 ^ 52 \<le> rhe (y / 2 powi b)" using rhe_mono rhe_of_int by metis
    then have "(2::rat) ^ 52 \<le> of_int (rhe (y / 2 powi b))"
      by (metis of_int_le_iff of_int_numeral of_int_power)
    then have "2 ^ 52 * 2 powi b \<le> fl y" unfolding fy by (intro mult_right_mono) auto
    moreover have "(2::rat) ^ 52 * 2 powi b = 2 powi expo y"
    proof -
      have "(2::rat) powi 52 * 2 powi b = 2 powi (52 + b)" by (subst power_int_add) auto
      then show ?thesis by (simp add: b)
    qed
    ultimately show ?thesis using 1 by linarith
  qed
qed

lemma fl_mono: assumes "x \<le> y" shows "fl x \<le> fl y"
proof (cases "0 < x")
  case True then show ?thesis using assms by (rule fl_mono_pos)
next
  case False
  show ?thesis
  proof (cases "0 \<le> y")
    case True
    have "fl x \<le> 0" using False fl_nonneg[of "- x"] by (simp add: fl_uminus)
    then show ?thesis using fl_nonneg[OF True] by linarith
  next
    case False
    then have "fl (- y) \<le> fl (- x)" using assms by (intro fl_mono_pos) auto
    then show ?thesis by (simp add: fl_uminus)
  qed
qed


lemma ulp_expo_ge: "- 1074 \<le> ulp_expo x"
  by (simp add: ulp_expo_def)

lemma fl_exact_less:
  assumes x: "x = of_int m * 2 powi e" and m: "\<bar>m\<bar> < 2 ^ 53" and e: "- 1074 \<le> e"
  shows "fl x = x"
proof (cases "m = 0")
  case True then show ?thesis by (simp add: x)
next
  case False
  then have x0: "x \<noteq> 0" by (simp add: x)
  have "\<bar>x\<bar> = of_int \<bar>m\<bar> * 2 powi e" by (simp add: x abs_mult power_int_def)
  also have "\<dots> < of_int (2 ^ 53) * 2 powi e"
    using m by (intro mult_strict_right_mono) (simp_all only: of_int_less_iff, simp)
  also have "(of_int (2 ^ 53) :: rat) * 2 powi e = 2 powi 53 * 2 powi e" by simp
  also have "\<dots> = (2::rat) powi (53 + e)" by (subst power_int_add) auto
  finally have "2 powi expo x < (2::rat) powi (53 + e)"
    using expo_bounds(1)[OF x0] by linarith
  then have le: "ulp_expo x \<le> e" using e by (simp add: powi2_less_iff ulp_expo_def)
  define d where "d = nat (e - ulp_expo x)"
  have "x / 2 powi ulp_expo x = of_int m * 2 powi (e - ulp_expo x)"
    by (simp add: x power_int_diff)
  also have "\<dots> = of_int (m * 2 ^ d)" using le by (simp add: d_def power_int_def)
  finally have q: "x / 2 powi ulp_expo x = of_int (m * 2 ^ d)" .
  then have "rhe (x / 2 powi ulp_expo x) = m * 2 ^ d" by (metis rhe_of_int)
  moreover have "of_int (m * 2 ^ d) * 2 powi ulp_expo x = x"
    using q by (simp add: field_simps)
  ultimately show ?thesis using x0 by (simp add: fl_def Let_def)
qed

lemma fl_exact:
  assumes x: "x = of_int m * 2 powi e" and m: "\<bar>m\<bar> \<le> 2 ^ 53" and e: "- 1074 \<le> e"
  shows "fl x = x"
proof (cases "\<bar>m\<bar> < 2 ^ 53")
  case True then show ?thesis using fl_exact_less[OF x _ e] by simp
next
  case False
  then have "m = 2 * (sgn m * 2 ^ 52)" using m by (auto simp: sgn_if)
  then have "x = of_int (2 * (sgn m * 2 ^ 52)) * 2 powi e" using x by simp
  also have "\<dots> = of_int (sgn m * 2 ^ 52) * (2 * 2 powi e)" by (simp only: of_int_mult of_int_numeral mult_ac)
  also have "2 * 2 powi e = (2::rat) powi (e + 1)" by (simp add: power_int_add)
  finally have "x = of_int (sgn m * 2 ^ 52) * 2 powi (e + 1)" .
  then show ?thesis using e by (intro fl_exact_less[where m = "sgn m * 2 ^ 52" and e = "e + 1"]) (auto simp: abs_mult sgn_if)
qed

lemma fl_of_int: "\<bar>n\<bar> \<le> 2 ^ 53 \<Longrightarrow> fl (of_int n) = of_int n"
  by (rule fl_exact[where m = n and e = 0]) auto

text \<open>A fast path for the evaluation of \<open>fl\<close>: a value that is already a float.\<close>

lemma fl_exact_quotient:
  assumes x: "quotient_of x = (p, 2 ^ k)" and p: "\<bar>p\<bar> \<le> 2 ^ 53" and k: "k \<le> 1074"
  shows "fl x = x"
proof (rule fl_exact)
  have "x = of_int p / of_int (2 ^ k)" using x by (rule quotient_of_div)
  then show "x = of_int p * 2 powi - int k" by (simp add: power_int_minus field_simps)
qed (use p k in auto)

text \<open>Rounding and exponent over the integers, for a quotient \<open>a / b\<close>, \<open>b > 0\<close>.\<close>

definition rhe_div :: "int \<Rightarrow> int \<Rightarrow> int" where
  "rhe_div a b = (let d = a div b; r = a mod b in
     if 2 * r < b then d else if b < 2 * r then d + 1 else if even d then d else d + 1)"

definition expo_div :: "int \<Rightarrow> int \<Rightarrow> int" where
  "expo_div p q = (let k = bitlen p - bitlen q in
     if (if 0 \<le> k then 2 ^ nat k * q \<le> p else q \<le> p * 2 ^ nat (- k)) then k else k - 1)"

lemma rhe_div: "0 < b \<Longrightarrow> rhe (of_int a / of_int b) = rhe_div a b"
proof -
  assume b: "0 < b"
  have fl: "\<lfloor>of_int a / of_int b :: rat\<rfloor> = a div b" by (rule floor_divide_of_int_eq)
  have frac: "of_int a / of_int b - of_int (a div b) = (of_int (a mod b) / of_int b :: rat)"
  proof -
    have "(of_int a :: rat) = of_int b * of_int (a div b) + of_int (a mod b)"
      by (metis mult_div_mod_eq of_int_add of_int_mult)
    then show ?thesis using b by (simp add: divide_simps)
  qed
  have half: "of_int (a mod b) / of_int b < (1 / 2 :: rat) \<longleftrightarrow> 2 * (a mod b) < b"
    "(1 / 2 :: rat) < of_int (a mod b) / of_int b \<longleftrightarrow> b < 2 * (a mod b)"
    using b of_int_less_iff [of "2 * (a mod b)" b, where 'a = rat]
      of_int_less_iff [of b "2 * (a mod b)", where 'a = rat]
    by (simp_all add: divide_simps mult.commute)
  show ?thesis unfolding rhe_def rhe_div_def fl Let_def frac half by (rule refl)
qed

lemma expo_code [code]: "expo x = (let (p, q) = quotient_of \<bar>x\<bar> in expo_div p q)"
proof -
  obtain p q where pq: "quotient_of \<bar>x\<bar> = (p, q)" by force
  have q: "0 < (of_int q :: rat)" using quotient_of_denom_pos [OF pq] by simp
  have x: "\<bar>x\<bar> = of_int p / of_int q" by (rule quotient_of_div [OF pq])
  have "2 powi k \<le> \<bar>x\<bar> \<longleftrightarrow> (if 0 \<le> k then 2 ^ nat k * q \<le> p else q \<le> p * 2 ^ nat (- k))" for k
  proof (cases "0 \<le> k")
    case True
    have "2 powi k \<le> \<bar>x\<bar> \<longleftrightarrow> of_int (2 ^ nat k * q) \<le> (of_int p :: rat)"
      using q True by (simp add: x power_int_def pos_le_divide_eq)
    then show ?thesis unfolding of_int_le_iff using True by simp
  next
    case False
    have "2 powi k \<le> \<bar>x\<bar> \<longleftrightarrow> of_int q \<le> (of_int (p * 2 ^ nat (- k)) :: rat)"
      using q False by (simp add: x power_int_def divide_simps mult.commute)
    then show ?thesis unfolding of_int_le_iff using False by simp
  qed
  then show ?thesis by (simp add: expo_def expo_div_def pq Let_def)
qed

lemma fl_code [code]:
  "fl x = (let (p, q) = quotient_of x in
     if \<bar>p\<bar> \<le> 9007199254740992 \<and> (q = 1 \<or> q = 2 ^ nat (bitlen q - 1) \<and> bitlen q \<le> 1000) then x
     else let e = max (expo_div \<bar>p\<bar> q - 52) (- 1074) in
       if e < 0 then (let u = 2 ^ nat (- e) in of_int (rhe_div (p * u) q) / of_int u)
       else (let u = 2 ^ nat e in of_int (rhe_div p (q * u) * u)))"
proof -
  obtain p q where x: "quotient_of x = (p, q)" by force
  have q: "0 < q" by (rule quotient_of_denom_pos [OF x])
  have xq: "x = of_int p / of_int q" by (rule quotient_of_div [OF x])
  have ax: "quotient_of \<bar>x\<bar> = (\<bar>p\<bar>, q)" using x by (simp add: rat_abs_code)
  have "fl x = x" if "\<bar>p\<bar> \<le> 9007199254740992" "q = 1 \<or> q = 2 ^ nat (bitlen q - 1) \<and> bitlen q \<le> 1000"
  proof (cases "q = 1")
    case True
    then show ?thesis using fl_exact_quotient [of x p 0] x that(1) by simp
  next
    case False
    then show ?thesis
      using fl_exact_quotient [of x p "nat (bitlen q - 1)"] x that by auto
  qed
  moreover have slow: "fl x = (if e < 0 then of_int (rhe_div (p * 2 ^ nat (- e)) q) / of_int (2 ^ nat (- e))
      else of_int (rhe_div p (q * 2 ^ nat e) * 2 ^ nat e))"
    if e: "e = max (expo_div \<bar>p\<bar> q - 52) (- 1074)" and nz: "x \<noteq> 0" for e
  proof -
    have ue: "ulp_expo x = e" by (simp add: e ulp_expo_def expo_code ax)
    show ?thesis
    proof (cases "e < 0")
      case True
      have "x / 2 powi e = of_int (p * 2 ^ nat (- e)) / of_int q"
        using True by (simp add: xq power_int_def field_simps)
      then show ?thesis
        using True nz rhe_div [OF q, of "p * 2 ^ nat (- e)"]
        by (simp add: fl_def ue power_int_def field_simps)
    next
      case False
      have "x / 2 powi e = of_int p / of_int (q * 2 ^ nat e)"
        using False by (simp add: xq power_int_def)
      moreover have "0 < q * 2 ^ nat e" using q by simp
      ultimately show ?thesis
        using False nz rhe_div [of "q * 2 ^ nat e" p] by (simp add: fl_def ue power_int_def)
    qed
  qed
  moreover have "x \<noteq> 0" if "\<not> (\<bar>p\<bar> \<le> 9007199254740992 \<and> (q = 1 \<or> q = 2 ^ nat (bitlen q - 1) \<and> bitlen q \<le> 1000))"
    using x that by auto
  ultimately show ?thesis
    unfolding x Let_def split_conv by (smt (verit, best) of_int_power of_int_mult)
qed

lemma rhe_ulp_bound: "\<bar>rhe (x / 2 powi ulp_expo x)\<bar> \<le> 2 ^ 53"
proof (cases "x = 0")
  case True
  have "rhe 0 = 0" using rhe_of_int[of 0] by simp
  then show ?thesis using True by simp
next
  case False
  have "\<bar>x\<bar> < 2 powi (expo x + 1)" by (rule expo_bounds(2)[OF False])
  also have "\<dots> \<le> (2::rat) powi (53 + ulp_expo x)"
    by (intro power_int_increasing) (auto simp: ulp_expo_def)
  also have "\<dots> = 2 powi 53 * 2 powi ulp_expo x" by (subst power_int_add) auto
  finally have b: "\<bar>x / 2 powi ulp_expo x\<bar> \<le> of_int (2 ^ 53)"
    by (simp add: field_simps abs_mult)
  have "x / 2 powi ulp_expo x \<le> of_int (2 ^ 53)" "of_int (- (2 ^ 53)) \<le> x / 2 powi ulp_expo x"
    using b by (simp_all only: abs_le_iff of_int_minus) linarith+
  then have "rhe (x / 2 powi ulp_expo x) \<le> 2 ^ 53" "- (2 ^ 53) \<le> rhe (x / 2 powi ulp_expo x)"
    using rhe_mono rhe_of_int by metis+
  then show ?thesis by linarith
qed

lemma fl_fl [simp]: "fl (fl x) = fl x"
proof (cases "x = 0")
  case False
  then show ?thesis
    by (intro fl_exact[where m = "rhe (x / 2 powi ulp_expo x)" and e = "ulp_expo x"])
      (use rhe_ulp_bound[of x] in \<open>auto simp: fl_def Let_def ulp_expo_ge\<close>)
qed simp

subsection \<open>The type of floats\<close>

typedef f64 = "{x :: rat. fl x = x}" morphisms fval Abs_f64
  by (rule exI[of _ 0]) simp

definition fl64 :: "rat \<Rightarrow> f64" where
  "fl64 q = Abs_f64 (fl q)"

lemma fval_fl64: "fval (fl64 q) = fl q"
  by (simp add: fl64_def Abs_f64_inverse)

lemma fl_fval [simp]: "fl (fval x) = fval x"
  using fval by simp

lemma fl64_fval [simp]: "fl64 (fval x) = x"
  by (simp add: fl64_def fval_inverse)

text \<open>As a code type, \<open>f64\<close> is the quotient of the rationals by equality after
  rounding, with \<open>fl64\<close> its constructor.\<close>

definition cr_f64 :: "rat \<Rightarrow> f64 \<Rightarrow> bool" where
  "cr_f64 p x \<longleftrightarrow> fl64 p = x"

lemma Quotient_f64: "Quotient (\<lambda>p q. fl p = fl q) fl64 fval cr_f64"
  by (auto simp: Quotient_def cr_f64_def fval_fl64 fval_inject [symmetric] fun_eq_iff)

lemma reflp_f64: "reflp (\<lambda>p q. fl p = fl q)"
  by (simp add: reflp_def)

setup_lifting Quotient_f64 reflp_f64

instantiation f64 :: "{zero, one, plus, minus, uminus, times, inverse, abs, linorder, equal}"
begin
definition zero_f64 :: f64 where "zero_f64 = fl64 0"
definition one_f64 :: f64 where "one_f64 = fl64 1"
definition plus_f64 :: "f64 \<Rightarrow> f64 \<Rightarrow> f64" where "plus_f64 x y = fl64 (fval x + fval y)"
definition minus_f64 :: "f64 \<Rightarrow> f64 \<Rightarrow> f64" where "minus_f64 x y = fl64 (fval x - fval y)"
definition times_f64 :: "f64 \<Rightarrow> f64 \<Rightarrow> f64" where "times_f64 x y = fl64 (fval x * fval y)"
definition divide_f64 :: "f64 \<Rightarrow> f64 \<Rightarrow> f64" where "divide_f64 x y = fl64 (fval x / fval y)"
definition inverse_f64 :: "f64 \<Rightarrow> f64" where "inverse_f64 x = fl64 (1 / fval x)"
definition uminus_f64 :: "f64 \<Rightarrow> f64" where "uminus_f64 x = fl64 (- fval x)"
definition abs_f64 :: "f64 \<Rightarrow> f64" where "abs_f64 x = fl64 \<bar>fval x\<bar>"
definition less_eq_f64 :: "f64 \<Rightarrow> f64 \<Rightarrow> bool" where "less_eq_f64 x y \<longleftrightarrow> fval x \<le> fval y"
definition less_f64 :: "f64 \<Rightarrow> f64 \<Rightarrow> bool" where "less_f64 x y \<longleftrightarrow> fval x < fval y"
definition equal_f64 :: "f64 \<Rightarrow> f64 \<Rightarrow> bool" where "equal_f64 x y \<longleftrightarrow> fval x = fval y"
instance
  by standard (auto simp: less_eq_f64_def less_f64_def equal_f64_def fval_inject)
end

lemma fval_arith:
  "fval 0 = 0" "fval 1 = 1" "fval (x + y) = fl (fval x + fval y)"
  "fval (x - y) = fl (fval x - fval y)" "fval (x * y) = fl (fval x * fval y)"
  "fval (x / y) = fl (fval x / fval y)" "fval (- x) = - fval x" "fval \<bar>x\<bar> = \<bar>fval x\<bar>"
  using fl_of_int [of 1]
  by (simp_all add: zero_f64_def one_f64_def plus_f64_def minus_f64_def times_f64_def
      divide_f64_def uminus_f64_def abs_f64_def fval_fl64 fl_uminus abs_if)

lemma fval_fl64_code [code]: "fval (fl64 q) = fl q"
  by (rule fval_fl64)

subsection \<open>Conversions, rounding to decimals, exact and compensated sums\<close>

text \<open>\<open>float(n)\<close> of an int.\<close>

definition fint :: "int \<Rightarrow> f64" where
  "fint n = fl64 (of_int n)"

text \<open>\<open>round(x, n)\<close> for \<open>n >= 0\<close>: the exact value is rounded to \<open>n\<close> decimals, ties to
  even, and the decimal is converted back to the nearest float.\<close>

definition round_nd :: "nat \<Rightarrow> f64 \<Rightarrow> f64" where
  "round_nd n x = fl64 (of_int (rhe (fval x * 10 ^ n)) / 10 ^ n)"

text \<open>\<open>round(x)\<close> to an int, \<open>int(x)\<close> (truncation), true division of two ints.\<close>

definition round_int :: "f64 \<Rightarrow> int" where
  "round_int x = rhe (fval x)"

definition trunc_int :: "f64 \<Rightarrow> int" where
  "trunc_int x = (if 0 \<le> fval x then \<lfloor>fval x\<rfloor> else \<lceil>fval x\<rceil>)"

definition int_truediv :: "int \<Rightarrow> int \<Rightarrow> f64" where
  "int_truediv a b = fl64 (of_int a / of_int b)"

text \<open>\<open>math.fsum\<close>: the exact sum, rounded once.\<close>

definition fsum :: "f64 list \<Rightarrow> f64" where
  "fsum xs = fl64 (sum_list (map fval xs))"

text \<open>\<open>statistics.fmean\<close> of a non-empty list.\<close>

definition fmean :: "f64 list \<Rightarrow> f64" where
  "fmean xs = fsum xs / fint (int (length xs))"

text \<open>The builtin \<open>sum\<close> over floats, as CPython 3.12 computes it: Neumaier's
  compensated summation, the compensation being added at the end.\<close>

fun py_sum_loop :: "f64 \<Rightarrow> f64 \<Rightarrow> f64 list \<Rightarrow> f64" where
  "py_sum_loop r c [] = (if c \<noteq> 0 then r + c else r)"
| "py_sum_loop r c (x # xs) =
     (let t = r + x;
          c' = (if \<bar>x\<bar> \<le> \<bar>r\<bar> then c + ((r - t) + x) else c + ((x - t) + r))
      in py_sum_loop t c' xs)"

fun py_sum :: "f64 list \<Rightarrow> f64" where
  "py_sum [] = 0"
| "py_sum (x # xs) = py_sum_loop x 0 xs"

subsection \<open>Facts the scores rest on\<close>

lemmas f64_order = less_eq_f64_def less_f64_def
lemmas f64_arith = fval_arith fval_fl64

lemma fl_le: "x \<le> fval y \<Longrightarrow> fl x \<le> fval y"
  using fl_mono [of x "fval y"] by simp

lemma fl_ge: "fval y \<le> x \<Longrightarrow> fval y \<le> fl x"
  using fl_mono [of "fval y" x] by simp

lemma fl_ge_neg: "- fval y \<le> x \<Longrightarrow> - fval y \<le> fl x"
  using fl_ge [of "- y" x] by (simp add: fval_arith)

lemma fl64_mono: "x \<le> y \<Longrightarrow> fl64 x \<le> fl64 y"
  by (simp add: f64_order fval_fl64 fl_mono)

lemma fval_fint: "\<bar>n\<bar> \<le> 2 ^ 53 \<Longrightarrow> fval (fint n) = of_int n"
  by (simp add: fint_def fval_fl64 fl_of_int)

lemma fval_0 [simp]: "fval 0 = 0" by (rule fval_arith)

lemma fval_1 [simp]: "fval 1 = 1" by (rule fval_arith)

lemma fint_0 [simp]: "fint 0 = 0"
  by (simp add: fint_def fval_inject [symmetric] fval_fl64)

lemma fint_1 [simp]: "fint 1 = 1"
  using fl_of_int [of 1] by (simp add: fint_def fval_inject [symmetric] fval_fl64)

lemma fint_mono: "m \<le> n \<Longrightarrow> fint m \<le> fint n"
  by (simp add: fint_def fl64_mono)

lemma f64_mult_nonneg: "0 \<le> a \<Longrightarrow> 0 \<le> b \<Longrightarrow> (0 :: f64) \<le> a * b"
  by (simp add: f64_order f64_arith fl_nonneg)

lemma f64_mult_le: "0 \<le> a \<Longrightarrow> a \<le> 1 \<Longrightarrow> 0 \<le> b \<Longrightarrow> a * b \<le> (b :: f64)"
  by (simp add: f64_order f64_arith fl_le mult_left_le_one_le)

lemma f64_mult_le': "0 \<le> a \<Longrightarrow> b \<le> 1 \<Longrightarrow> 0 \<le> b \<Longrightarrow> a * b \<le> (a :: f64)"
  by (simp add: f64_order f64_arith fl_le mult_right_le_one_le)

lemma f64_mult_mono: "0 \<le> a \<Longrightarrow> a \<le> b \<Longrightarrow> 0 \<le> c \<Longrightarrow> c \<le> d \<Longrightarrow> a * c \<le> b * (d :: f64)"
  by (simp add: f64_order f64_arith fl_mono mult_mono)

lemma f64_add_nonneg: "0 \<le> a \<Longrightarrow> 0 \<le> b \<Longrightarrow> (0 :: f64) \<le> a + b"
  by (simp add: f64_order f64_arith fl_nonneg)

lemma f64_add_mono: "a \<le> b \<Longrightarrow> c \<le> d \<Longrightarrow> a + c \<le> b + (d :: f64)"
  by (simp add: f64_order f64_arith fl_mono)

lemma f64_diff_mono: "a \<le> b \<Longrightarrow> d \<le> c \<Longrightarrow> a - c \<le> b - (d :: f64)"
  by (simp add: f64_order f64_arith fl_mono)

lemma f64_diff_nonneg: "b \<le> a \<Longrightarrow> (0 :: f64) \<le> a - b"
  by (simp add: f64_order f64_arith fl_nonneg)

lemma f64_diff_le: "0 \<le> b \<Longrightarrow> a - b \<le> (a :: f64)"
  by (simp add: f64_order f64_arith fl_le)

lemma f64_div_nonneg: "0 \<le> a \<Longrightarrow> 0 \<le> b \<Longrightarrow> (0 :: f64) \<le> a / b"
  by (simp add: f64_order f64_arith fl_nonneg)

lemma f64_div_mono: "a \<le> b \<Longrightarrow> 0 \<le> c \<Longrightarrow> a / c \<le> b / (c :: f64)"
  by (simp add: f64_order f64_arith fl_mono divide_right_mono)

lemma f64_div_le_1: "0 \<le> a \<Longrightarrow> a \<le> b \<Longrightarrow> a / b \<le> (1 :: f64)"
proof -
  assume ab: "0 \<le> a" "a \<le> b"
  then have "fval a / fval b \<le> fval 1"
    by (cases "fval b = 0") (simp_all add: f64_order divide_le_eq_1)
  then show ?thesis
    using fl_le [of "fval a / fval b" 1] by (simp add: f64_order fval_arith)
qed

lemma fl64_in:
  assumes "fval lo \<le> q" "q \<le> fval hi"
  shows "lo \<le> fl64 q" "fl64 q \<le> hi"
  using assms by (simp_all add: f64_order fval_fl64 fl_le fl_ge)

lemma rhe_scaled_bounds:
  assumes "of_int lo \<le> x" "x \<le> of_int hi"
  shows "of_int lo \<le> (of_int (rhe (x * 10 ^ n)) / 10 ^ n :: rat)"
    "of_int (rhe (x * 10 ^ n)) / 10 ^ n \<le> (of_int hi :: rat)"
proof -
  have a: "of_int (lo * 10 ^ n) \<le> x * 10 ^ n" and b: "x * 10 ^ n \<le> of_int (hi * 10 ^ n)"
    using assms by (simp_all add: mult_right_mono)
  have "lo * 10 ^ n \<le> rhe (x * 10 ^ n)" "rhe (x * 10 ^ n) \<le> hi * 10 ^ n"
    using rhe_mono [OF a] rhe_mono [OF b] by (simp_all del: of_int_mult of_int_power)
  then have "of_int (lo * 10 ^ n) \<le> (of_int (rhe (x * 10 ^ n)) :: rat)"
    "(of_int (rhe (x * 10 ^ n)) :: rat) \<le> of_int (hi * 10 ^ n)"
    unfolding of_int_le_iff .
  then show "of_int lo \<le> (of_int (rhe (x * 10 ^ n)) / 10 ^ n :: rat)"
    "of_int (rhe (x * 10 ^ n)) / 10 ^ n \<le> (of_int hi :: rat)"
    by (simp_all add: field_simps)
qed

text \<open>Rounding to decimals stays between any two ints (of at most 53 bits) that bound
  the argument.\<close>

lemma round_nd_bounds:
  assumes "\<bar>lo\<bar> \<le> 2 ^ 53" "\<bar>hi\<bar> \<le> 2 ^ 53" "fint lo \<le> x" "x \<le> fint hi"
  shows "fint lo \<le> round_nd n x" "round_nd n x \<le> fint hi"
proof -
  let ?q = "of_int (rhe (fval x * 10 ^ n)) / 10 ^ n :: rat"
  have x: "of_int lo \<le> fval x" "fval x \<le> of_int hi"
    using assms by (simp_all add: f64_order fval_fint)
  have "fval (fint lo) \<le> ?q" "?q \<le> fval (fint hi)"
    using rhe_scaled_bounds [OF x] assms(1,2) by (simp_all add: fval_fint)
  then show "fint lo \<le> round_nd n x" "round_nd n x \<le> fint hi"
    unfolding round_nd_def by (rule fl64_in | assumption)+
qed

lemma fsum_nonneg: "\<forall>x\<in>set xs. 0 \<le> x \<Longrightarrow> 0 \<le> fsum xs"
  by (auto simp: fsum_def f64_order fval_fl64 intro!: fl_nonneg sum_list_nonneg)

lemma fsum_ge_member: "x \<in> set xs \<Longrightarrow> \<forall>y\<in>set xs. 0 \<le> y \<Longrightarrow> x \<le> fsum xs"
proof -
  assume x: "x \<in> set xs" and nn: "\<forall>y\<in>set xs. 0 \<le> y"
  have "fval x \<le> sum_list (map fval xs)"
    using x nn by (intro member_le_sum_list) (auto simp: f64_order)
  then show ?thesis by (simp add: fsum_def f64_order fval_fl64 fl_ge)
qed

lemma fint_diff:
  "\<bar>m\<bar> \<le> 2 ^ 53 \<Longrightarrow> \<bar>n\<bar> \<le> 2 ^ 53 \<Longrightarrow> fint m - fint n = fint (m - n)"
  by (simp add: fval_inject [symmetric] fval_arith fval_fint) (simp add: fint_def fval_fl64)

lemma f64_div_le: "0 \<le> a \<Longrightarrow> 1 \<le> b \<Longrightarrow> a / b \<le> (a :: f64)"
proof -
  assume ab: "0 \<le> a" "1 \<le> b"
  then have "fval a / fval b \<le> fval a"
    by (simp add: f64_order divide_le_eq mult_le_cancel_left1)
  then show ?thesis by (simp add: f64_order fval_arith fl_le)
qed

lemma f64_mult_abs_le:
  assumes "- B \<le> a" "a \<le> B" "0 \<le> b" "b \<le> 1" "0 \<le> B"
  shows "- B \<le> a * b" "a * b \<le> (B :: f64)"
proof -
  have a: "- fval B \<le> fval a" "fval a \<le> fval B" and b: "0 \<le> fval b" "fval b \<le> 1" and B: "0 \<le> fval B"
    using assms by (simp_all add: f64_order fval_arith)
  have "\<bar>fval a * fval b\<bar> \<le> fval B * 1"
    unfolding abs_mult by (rule mult_mono) (use a b B in auto)
  then have "fval (- B) \<le> fval a * fval b" "fval a * fval b \<le> fval B"
    by (simp_all add: abs_le_iff fval_arith)
  then show "- B \<le> a * b" "a * b \<le> B"
    by (simp_all add: f64_order fval_arith fl_le fl_ge_neg)
qed

lemma fint_uminus: "fint (- n) = - fint n"
  by (simp add: fint_def fval_inject [symmetric] fval_fl64 fval_arith fl_uminus)

lemma fint_minus_1: "fint (- 1) = - 1"
  by (simp add: fint_uminus)

lemma fl64_of_int: "fl64 (of_int n) = fint n"
  by (simp add: fint_def)

lemma fint_le_iff: "\<bar>m\<bar> \<le> 2 ^ 53 \<Longrightarrow> \<bar>n\<bar> \<le> 2 ^ 53 \<Longrightarrow> fint m \<le> fint n \<longleftrightarrow> m \<le> n"
  by (simp add: f64_order fval_fint)

lemma fint_less_iff: "\<bar>m\<bar> \<le> 2 ^ 53 \<Longrightarrow> \<bar>n\<bar> \<le> 2 ^ 53 \<Longrightarrow> fint m < fint n \<longleftrightarrow> m < n"
  by (simp add: f64_order fval_fint)

lemma f64_abs_nonneg [simp]: "0 \<le> \<bar>x :: f64\<bar>"
  by (simp add: f64_order fval_arith)

lemma f64_minus_self [simp]: "x - x = (0 :: f64)"
  by (simp add: fval_inject [symmetric] fval_arith)

lemma f64_times_0 [simp]: "0 * x = (0 :: f64)" "x * 0 = (0 :: f64)"
  by (simp_all add: fval_inject [symmetric] fval_arith)

lemma f64_div_0 [simp]: "0 / x = (0 :: f64)"
  by (simp add: fval_inject [symmetric] fval_arith)

lemma f64_times_1 [simp]: "1 * x = (x :: f64)" "x * 1 = (x :: f64)"
  by (simp_all add: fval_inject [symmetric] fval_arith)

lemma f64_add_0 [simp]: "0 + x = (x :: f64)" "x + 0 = (x :: f64)" "x - 0 = (x :: f64)"
  by (simp_all add: fval_inject [symmetric] fval_arith fval_arith)

lemma round_nd_mono: "x \<le> y \<Longrightarrow> round_nd n x \<le> round_nd n y"
proof -
  assume "x \<le> y"
  then have "rhe (fval x * 10 ^ n) \<le> rhe (fval y * 10 ^ n)"
    by (intro rhe_mono mult_right_mono) (simp_all add: f64_order)
  then show ?thesis
    unfolding round_nd_def by (intro fl64_mono divide_right_mono) simp_all
qed

end
