(* ===== verification/Prelude.thy ===== *)
theory Prelude
  imports
    PyFloat
    "HOL-Library.List_Lexorder"
    "HOL-Library.Char_ord"
    "HOL-Library.Product_Lexorder"
    "HOL-Library.AList"
begin

text \<open>
  Conventions shared by the component theories.

  Timestamps are timezone-aware UTC instants in microseconds (\<open>instant\<close>), a
  \<open>timedelta\<close> is a number of microseconds, and \<open>total_seconds\<close> is Python's division of
  that number by \<open>10 ** 6\<close>. A dict is an association list in insertion order
  (\<open>AList.update\<close> keeps the position of an existing key, as Python does). A call that may
  raise returns \<open>'e + 'a\<close>, \<open>Inl\<close> being the exception. Digests (\<open>uuid5\<close>, \<open>sha256\<close>) and
  \<open>repr\<close> of a float are fields of the \<open>runtime\<close> record the functions take.
\<close>

named_theorems f64_range \<open>introduction rules bounding float expressions\<close>
named_theorems enum_values \<open>the string values of the StrEnum types\<close>
named_theorems error_simps \<open>evaluation of calls that may raise\<close>

subsection \<open>Time\<close>

type_synonym instant = int
type_synonym timedelta = int

definition seconds_td :: "int \<Rightarrow> timedelta" where
  "seconds_td s = s * 1000000"

definition total_seconds :: "timedelta \<Rightarrow> f64" where
  "total_seconds d = int_truediv d 1000000"

subsection \<open>Errors as values\<close>

definition bindE :: "'e + 'a \<Rightarrow> ('a \<Rightarrow> 'e + 'b) \<Rightarrow> 'e + 'b" where
  "bindE m f = (case m of Inl e \<Rightarrow> Inl e | Inr x \<Rightarrow> f x)"

fun mapE :: "('a \<Rightarrow> 'e + 'b) \<Rightarrow> 'a list \<Rightarrow> 'e + 'b list" where
  "mapE f [] = Inr []"
| "mapE f (x # xs) = bindE (f x) (\<lambda>y. bindE (mapE f xs) (\<lambda>ys. Inr (y # ys)))"

lemma bindE_simps [simp, error_simps]:
  "bindE (Inl e) f = Inl e" "bindE (Inr x) f = f x"
  by (simp_all add: bindE_def)

lemma bindE_eq_Inr: "bindE m f = Inr y \<longleftrightarrow> (\<exists>x. m = Inr x \<and> f x = Inr y)"
  by (simp add: bindE_def split: sum.split)

lemma mapE_Inr_iff:
  "mapE f xs = Inr ys \<longleftrightarrow> length ys = length xs \<and> (\<forall>i < length xs. f (xs ! i) = Inr (ys ! i))"
proof (induction xs arbitrary: ys)
  case Nil
  then show ?case by auto
next
  case (Cons x xs)
  show ?case
  proof (cases ys)
    case Nil
    then show ?thesis by (auto simp: bindE_eq_Inr)
  next
    case (Cons y zs)
    then show ?thesis
      by (auto simp: bindE_eq_Inr Cons.IH nth_Cons less_Suc_eq_0_disj split: nat.splits)
  qed
qed

lemma mapE_total: "(\<And>x. x \<in> set xs \<Longrightarrow> f x = Inr (g x)) \<Longrightarrow> mapE f xs = Inr (map g xs)"
  by (induction xs) auto

lemma mapE_set:
  assumes "mapE f xs = Inr ys" "y \<in> set ys"
  obtains x where "x \<in> set xs" "f x = Inr y"
  using assms by (auto simp: mapE_Inr_iff in_set_conv_nth)

text \<open>A condition on an optional value that is present.\<close>

definition opt_all :: "('a \<Rightarrow> bool) \<Rightarrow> 'a option \<Rightarrow> bool" where
  "opt_all P x = (case x of None \<Rightarrow> True | Some v \<Rightarrow> P v)"

lemma opt_all_iff [simp]: "opt_all P x \<longleftrightarrow> (\<forall>v. x = Some v \<longrightarrow> P v)"
  by (simp add: opt_all_def split: option.split)

subsection \<open>Sequences\<close>

text \<open>\<open>itertools.combinations(xs, 2)\<close> and \<open>sorted(xs, key=f, reverse=True)\<close> (stable).\<close>

fun pairs :: "'a list \<Rightarrow> ('a \<times> 'a) list" where
  "pairs [] = []"
| "pairs (x # xs) = map (Pair x) xs @ pairs xs"

definition sort_desc :: "('a \<Rightarrow> 'k::linorder) \<Rightarrow> 'a list \<Rightarrow> 'a list" where
  "sort_desc f xs = rev (sort_key f (rev xs))"

lemma set_pairs: "(x, y) \<in> set (pairs xs) \<Longrightarrow> x \<in> set xs \<and> y \<in> set xs"
  by (induction xs) auto

lemma set_sort_desc [simp]: "set (sort_desc f xs) = set xs"
  by (simp add: sort_desc_def)

lemma length_sort_desc [simp]: "length (sort_desc f xs) = length xs"
  by (simp add: sort_desc_def)

lemma sort_desc_sorted: "sorted_wrt (\<lambda>x y. f y \<le> f x) (sort_desc f xs)"
proof -
  have "sorted_wrt (\<lambda>x y. f x \<le> f y) (sort_key f (rev xs))"
    using sorted_sort_key [of f "rev xs"] by (simp add: sorted_map)
  then show ?thesis by (simp add: sort_desc_def sorted_wrt_rev)
qed

text \<open>\<open>next((x for x in xs if P(x)), None)\<close> is \<open>find P xs\<close>.\<close>

lemma find_member: "find P xs = Some x \<Longrightarrow> x \<in> set xs \<and> P x"
  by (auto simp: find_Some_iff)

text \<open>\<open>tuple(dict.fromkeys(xs))\<close>: the distinct elements in the order of their first occurrence.\<close>

definition uniq :: "'a list \<Rightarrow> 'a list" where
  "uniq xs = rev (remdups (rev xs))"

lemma set_uniq [simp]: "set (uniq xs) = set xs" "distinct (uniq xs)" "uniq xs = [] \<longleftrightarrow> xs = []"
  by (simp_all add: uniq_def)

text \<open>\<open>len(set(xs))\<close>.\<close>

definition distinct_count :: "'a list \<Rightarrow> nat" where
  "distinct_count xs = length (remdups xs)"

lemma distinct_count_card: "distinct_count xs = card (set xs)"
  by (simp add: distinct_count_def length_remdups_card_conv)

subsection \<open>Text\<close>

fun join :: "string \<Rightarrow> string list \<Rightarrow> string" where
  "join sep [] = []"
| "join sep [x] = x"
| "join sep (x # y # zs) = x @ sep @ join sep (y # zs)"

function digits10 :: "int \<Rightarrow> string" where
  "digits10 n = (if n < 10 then [char_of (48 + n)] else digits10 (n div 10) @ [char_of (48 + n mod 10)])"
  by auto
termination by (relation "measure nat") auto

declare digits10.simps [simp del]

definition str_int :: "int \<Rightarrow> string" where
  "str_int i = (if i < 0 then ''-'' @ digits10 (- i) else digits10 i)"

text \<open>\<open>format(x, ".nf")\<close>: the value rounded to \<open>n\<close> decimals (ties to even), zero padded.\<close>

definition pad_left :: "nat \<Rightarrow> string \<Rightarrow> string" where
  "pad_left n s = replicate (n - length s) (CHR ''0'') @ s"

definition fmt_fixed :: "nat \<Rightarrow> f64 \<Rightarrow> string" where
  "fmt_fixed n x =
     (let m = rhe (\<bar>fval x\<bar> * 10 ^ n); whole = digits10 (m div 10 ^ n)
      in (if fval x < 0 then ''-'' else []) @ whole @
         (if n = 0 then [] else ''.'' @ pad_left n (digits10 (m mod 10 ^ n))))"

definition lower_char :: "char \<Rightarrow> char" where
  "lower_char c = (if CHR ''A'' \<le> c \<and> c \<le> CHR ''Z'' then char_of (of_char c + 32 :: nat) else c)"

definition upper_char :: "char \<Rightarrow> char" where
  "upper_char c = (if CHR ''a'' \<le> c \<and> c \<le> CHR ''z'' then char_of (of_char c - 32 :: nat) else c)"

definition py_upper :: "string \<Rightarrow> string" where
  "py_upper s = map upper_char s"

definition py_lower :: "string \<Rightarrow> string" where
  "py_lower = map lower_char"

text \<open>\<open>needle in haystack\<close> for strings.\<close>

fun contains :: "string \<Rightarrow> string \<Rightarrow> bool" where
  "contains needle [] = (needle = [])"
| "contains needle (c # cs) = (take (length needle) (c # cs) = needle \<or> contains needle cs)"

text \<open>\<open>datetime.isoformat()\<close> of an aware UTC instant: civil date from the day number
  (proleptic Gregorian calendar), microseconds only when they are not zero.\<close>

definition civil_from_days :: "int \<Rightarrow> int \<times> int \<times> int" where
  "civil_from_days z0 =
     (let z = z0 + 719468;
          era = z div 146097;
          doe = z mod 146097;
          yoe = (doe - doe div 1460 + doe div 36524 - doe div 146096) div 365;
          doy = doe - (365 * yoe + yoe div 4 - yoe div 100);
          mp = (5 * doy + 2) div 153;
          d = doy - (153 * mp + 2) div 5 + 1;
          m = (if mp < 10 then mp + 3 else mp - 9);
          y = yoe + era * 400 + (if m \<le> 2 then 1 else 0)
      in (y, m, d))"

definition zpad :: "nat \<Rightarrow> int \<Rightarrow> string" where
  "zpad n i = pad_left n (str_int i)"

definition isoformat :: "instant \<Rightarrow> string" where
  "isoformat t =
     (let us = t mod 1000000; s = t div 1000000; day = s div 86400; r = s mod 86400;
          (y, m, d) = civil_from_days day
      in zpad 4 y @ ''-'' @ zpad 2 m @ ''-'' @ zpad 2 d @ ''T'' @
         zpad 2 (r div 3600) @ '':'' @ zpad 2 (r mod 3600 div 60) @ '':'' @ zpad 2 (r mod 60) @
         (if us = 0 then [] else ''.'' @ zpad 6 us) @ ''+00:00'')"

subsection \<open>Digests and identifiers\<close>

type_synonym uuid = string

record runtime =
  rt_uuid5 :: "string \<Rightarrow> string \<Rightarrow> uuid"
  rt_sha256 :: "string \<Rightarrow> string"
  rt_float_repr :: "f64 \<Rightarrow> string"

definition stable_id :: "runtime \<Rightarrow> string \<Rightarrow> string list \<Rightarrow> uuid" where
  "stable_id rt namespace parts = rt_uuid5 rt namespace (join ''|'' parts)"

text \<open>\<open>uuid5(NAMESPACE_URL, name)\<close>.\<close>

definition url_id :: "runtime \<Rightarrow> string \<Rightarrow> uuid" where
  "url_id rt name = rt_uuid5 rt ''6ba7b811-9dad-11d1-80b4-00c04fd430c8'' name"

subsection \<open>JSON scalars\<close>

datatype json = JNull | JBool bool | JInt int | JFloat f64 | JStr string

subsection \<open>Scores on a percentage scale\<close>

definition in_range :: "f64 \<Rightarrow> f64 \<Rightarrow> f64 \<Rightarrow> bool" where
  "in_range lo hi x \<longleftrightarrow> lo \<le> x \<and> x \<le> hi"

lemma in_rangeI [f64_range]: "lo \<le> x \<Longrightarrow> x \<le> hi \<Longrightarrow> in_range lo hi x"
  by (simp add: in_range_def)

lemma in_rangeD: "in_range lo hi x \<Longrightarrow> lo \<le> x" "in_range lo hi x \<Longrightarrow> x \<le> hi"
  by (simp_all add: in_range_def)

lemma round_nd_in_range [f64_range]:
  "\<bar>lo\<bar> \<le> 2 ^ 53 \<Longrightarrow> \<bar>hi\<bar> \<le> 2 ^ 53 \<Longrightarrow> in_range (fint lo) (fint hi) x \<Longrightarrow>
    in_range (fint lo) (fint hi) (round_nd n x)"
  by (simp add: in_range_def round_nd_bounds)

lemma round_nd_percent: "in_range 0 (fint 100) x \<Longrightarrow> in_range 0 (fint 100) (round_nd n x)"
  using round_nd_in_range [of 0 100 x n] by simp

lemma round_nd_unit: "in_range 0 1 x \<Longrightarrow> in_range 0 1 (round_nd n x)"
  using round_nd_in_range [of 0 1 x n] by simp

lemma round_nd_signed_percent:
  "in_range (fint (- 100)) (fint 100) x \<Longrightarrow> in_range (fint (- 100)) (fint 100) (round_nd n x)"
  by (rule round_nd_in_range) simp_all

lemma fint_nonneg: "0 \<le> n \<Longrightarrow> 0 \<le> fint n"
  using fint_mono [of 0 n] by simp

lemma fraction_nonneg: "0 \<le> q \<Longrightarrow> 0 \<le> fl64 q"
  by (simp add: f64_order fval_fl64 fl_nonneg)

lemmas f64_mono_intros = f64_mult_nonneg f64_mult_mono f64_add_nonneg f64_add_mono
  f64_div_nonneg f64_div_mono f64_div_le_1 f64_diff_mono f64_diff_nonneg

lemma f64_0_le_1 [simp]: "(0 :: f64) \<le> 1" "(0 :: f64) < 1" "(0 :: f64) \<noteq> 1" "(1 :: f64) \<noteq> 0"
  by (simp_all add: f64_order fval_inject [symmetric])

lemma unit_lit: "0 \<le> q \<Longrightarrow> q \<le> 1 \<Longrightarrow> in_range 0 1 (fl64 q)"
  using fl64_in [of 0 q 1] by (simp add: in_range_def)

lemma unit_0_1 [simp]: "in_range 0 1 0" "in_range 0 1 1"
  by (simp_all add: in_range_def)

lemma one_minus_unit: "in_range 0 1 x \<Longrightarrow> in_range 0 1 (1 - x)"
  using f64_diff_nonneg [of x 1] f64_diff_le [of x 1] by (simp add: in_range_def)

lemma unit_mult: "in_range 0 1 a \<Longrightarrow> in_range 0 1 b \<Longrightarrow> in_range 0 1 (a * b)"
  unfolding in_range_def by (metis f64_mult_le f64_mult_nonneg order_trans)

lemma percent_100: "in_range 0 (fint 100) (fint 100)" "in_range 0 (fint 100) 0"
  by (simp_all add: in_range_def f64_order fval_fint)

lemma percent_mult: "in_range 0 (fint 100) a \<Longrightarrow> in_range 0 1 b \<Longrightarrow> in_range 0 (fint 100) (a * b)"
  unfolding in_range_def by (metis f64_mult_le' f64_mult_nonneg order_trans)

lemma percent_div: "in_range 0 (fint 100) a \<Longrightarrow> 1 \<le> b \<Longrightarrow> in_range 0 (fint 100) (a / b)"
  unfolding in_range_def by (metis f64_div_le f64_div_nonneg order_trans f64_0_le_1(1))

lemma ratio_unit: "0 \<le> a \<Longrightarrow> a \<le> b \<Longrightarrow> in_range 0 1 (a / b)"
  unfolding in_range_def by (meson f64_div_le_1 f64_div_nonneg order_trans)

lemma signed_percent_mult:
  assumes "in_range (- 1) 1 d" "in_range 0 1 w"
  shows "in_range (fint (- 100)) (fint 100) (fint 100 * d * w)"
proof -
  have B: "0 \<le> fint 100" "- fint 100 = fint (- 100)"
    by (simp_all add: f64_order fval_fint fint_uminus)
  have "- fint 100 \<le> fint 100 * d" "fint 100 * d \<le> fint 100"
  proof -
    have "- 1 \<le> fval d" "fval d \<le> 1"
      using assms(1) by (simp_all add: in_range_def f64_order fval_arith)
    then have "fval (- fint 100) \<le> fval (fint 100) * fval d" "fval (fint 100) * fval d \<le> fval (fint 100)"
      by (simp_all add: fval_arith fval_fint)
    then show "- fint 100 \<le> fint 100 * d" "fint 100 * d \<le> fint 100"
      by (simp_all add: f64_order fval_arith fl_le fl_ge_neg)
  qed
  then show ?thesis
    using f64_mult_abs_le [of "fint 100" "fint 100 * d" w] assms(2) B
    by (simp add: in_range_def)
qed

end
