(* ===== verification/AI_Scoring.thy ===== *)
theory AI_Scoring
  imports Prelude
begin

text \<open>
  The deterministic AI scoring policy (\<open>backend/app/engines/ai_scoring_engine\<close>): the
  models with their validators, the configuration, and \<open>DeterministicAIScoringEngine\<close>.
  Pydantic rejects a value outside a field's bounds; the constructors of the model do the
  same (\<open>make_component\<close>, \<open>make_conflict\<close>, \<open>make_snapshot\<close> return \<open>Inl\<close>).
\<close>

subsection \<open>Models\<close>

datatype score_mode = SLive | SReplay

datatype score_status = SReady | SDegraded | SInsufficient_Evidence | SStale | SInvalid | SReplayed

datatype directional_label = Strong_Bearish | Bearish | Slightly_Bearish | Neutral
  | Slightly_Bullish | Bullish | Strong_Bullish

datatype freshness_state = Fresh | Aging | Stale | Expired

definition score_mode_value :: "score_mode \<Rightarrow> string" where
  [enum_values]: "score_mode_value m = (case m of SLive \<Rightarrow> ''live'' | SReplay \<Rightarrow> ''replay'')"

definition score_status_value :: "score_status \<Rightarrow> string" where
  [enum_values]: "score_status_value s = (case s of SReady \<Rightarrow> ''ready'' | SDegraded \<Rightarrow> ''degraded''
     | SInsufficient_Evidence \<Rightarrow> ''insufficient_evidence'' | SStale \<Rightarrow> ''stale''
     | SInvalid \<Rightarrow> ''invalid'' | SReplayed \<Rightarrow> ''replay'')"

definition label_value :: "directional_label \<Rightarrow> string" where
  [enum_values]: "label_value l = (case l of Strong_Bearish \<Rightarrow> ''strong_bearish'' | Bearish \<Rightarrow> ''bearish''
     | Slightly_Bearish \<Rightarrow> ''slightly_bearish'' | Neutral \<Rightarrow> ''neutral''
     | Slightly_Bullish \<Rightarrow> ''slightly_bullish'' | Bullish \<Rightarrow> ''bullish''
     | Strong_Bullish \<Rightarrow> ''strong_bullish'')"

record source_evidence =
  ev_source :: string
  ev_source_group :: string
  ev_source_version :: string
  ev_evidence_id :: string
  ev_source_timestamp :: instant
  ev_observation_timestamp :: instant
  ev_publication_timestamp :: instant
  ev_direction :: f64
  ev_confidence :: f64
  ev_quality :: f64
  ev_risk :: f64
  ev_degraded :: bool
  ev_reason_codes :: "string list"

definition valid_evidence :: "source_evidence \<Rightarrow> bool" where
  "valid_evidence e \<longleftrightarrow> in_range (fint (- 1)) 1 (ev_direction e) \<and> in_range 0 1 (ev_confidence e)
     \<and> in_range 0 1 (ev_quality e) \<and> in_range 0 1 (ev_risk e)"

record scoring_input =
  si_instrument :: string
  si_timeframe :: string
  si_as_of :: instant
  si_requested_at :: instant
  si_mode :: score_mode
  si_market_data :: "source_evidence option"
  si_market_regime :: "source_evidence option"
  si_smc :: "source_evidence option"
  si_liquidity :: "source_evidence option"
  si_volume_profile :: "source_evidence option"
  si_institutional_flow :: "source_evidence option"
  si_economic_calendar :: "source_evidence option"

definition sources :: "scoring_input \<Rightarrow> source_evidence list" where
  "sources i = List.map_filter id [si_market_data i, si_market_regime i, si_smc i, si_liquidity i,
     si_volume_profile i, si_institutional_flow i, si_economic_calendar i]"

text \<open>The validator \<open>no_future_evidence\<close> and the field bounds of the sources.\<close>

definition valid_input :: "scoring_input \<Rightarrow> bool" where
  "valid_input i \<longleftrightarrow> (\<forall>e \<in> set (sources i). valid_evidence e
     \<and> \<not> (si_as_of i < ev_publication_timestamp e \<or> si_as_of i < ev_observation_timestamp e))"

record score_component =
  sc_component_name :: string
  sc_source_engine :: string
  sc_source_group :: string
  sc_evidence_id :: string
  sc_normalized_direction :: f64
  sc_directional_contribution :: f64
  sc_confidence_contribution :: f64
  sc_risk_contribution :: f64
  sc_quality_contribution :: f64
  sc_configured_weight :: f64
  sc_effective_weight :: f64
  sc_freshness_factor :: f64
  sc_availability_factor :: f64
  sc_quality_factor :: f64
  sc_freshness_state :: freshness_state
  sc_reason_codes :: "string list"
  sc_source_timestamp :: instant
  sc_observation_timestamp :: instant

definition component_ok :: "score_component \<Rightarrow> bool" where
  "component_ok c \<longleftrightarrow> in_range (fint (- 1)) 1 (sc_normalized_direction c)
     \<and> in_range (fint (- 100)) (fint 100) (sc_directional_contribution c)
     \<and> in_range 0 (fint 100) (sc_confidence_contribution c)
     \<and> in_range 0 (fint 100) (sc_risk_contribution c)
     \<and> in_range 0 (fint 100) (sc_quality_contribution c)
     \<and> in_range 0 1 (sc_configured_weight c) \<and> in_range 0 1 (sc_effective_weight c)
     \<and> in_range 0 1 (sc_freshness_factor c) \<and> in_range 0 1 (sc_availability_factor c)
     \<and> in_range 0 1 (sc_quality_factor c)"

record evidence_conflict =
  ec_conflict_id :: uuid
  ec_conflict_type :: string
  ec_severity :: string
  ec_sources :: "string list"
  ec_directional_gap :: f64
  ec_description_code :: string
  ec_confidence_penalty :: f64

definition conflict_ok :: "evidence_conflict \<Rightarrow> bool" where
  "conflict_ok c \<longleftrightarrow> in_range 0 (fint 2) (ec_directional_gap c)
     \<and> in_range 0 (fint 100) (ec_confidence_penalty c)"

record explanation_contributor =
  xc_source :: string
  xc_reason_code :: string
  xc_contribution :: f64

record score_explanation =
  xp_summary_code :: string
  xp_positive_contributors :: "explanation_contributor list"
  xp_negative_contributors :: "explanation_contributor list"
  xp_risk_contributors :: "explanation_contributor list"
  xp_limitations :: "string list"

record score_metadata =
  sm_engine_version :: string
  sm_schema_version :: string
  sm_configuration_version :: string
  sm_configuration_hash :: string
  sm_input_fingerprint :: string
  sm_independent_group_count :: nat
  sm_available_source_count :: nat

record score_snapshot =
  ss_snapshot_id :: uuid
  ss_instrument :: string
  ss_timeframe :: string
  ss_as_of :: instant
  ss_calculated_at :: instant
  ss_mode :: score_mode
  ss_policy_name :: string
  ss_policy_version :: string
  ss_directional_score :: f64
  ss_directional_label :: directional_label
  ss_confidence_score :: f64
  ss_market_risk_score :: f64
  ss_evidence_alignment_score :: f64
  ss_data_quality_score :: f64
  ss_composite_score :: f64
  ss_components :: "score_component list"
  ss_conflicts :: "evidence_conflict list"
  ss_missing_sources :: "string list"
  ss_degraded_sources :: "string list"
  ss_explanation :: score_explanation
  ss_status :: score_status
  ss_metadata :: score_metadata

definition snapshot_ok :: "score_snapshot \<Rightarrow> bool" where
  "snapshot_ok s \<longleftrightarrow> in_range (fint (- 100)) (fint 100) (ss_directional_score s)
     \<and> in_range 0 (fint 100) (ss_confidence_score s)
     \<and> in_range 0 (fint 100) (ss_market_risk_score s)
     \<and> in_range 0 (fint 100) (ss_evidence_alignment_score s)
     \<and> in_range 0 (fint 100) (ss_data_quality_score s)
     \<and> in_range (fint (- 100)) (fint 100) (ss_composite_score s)"

subsection \<open>Configuration\<close>

record component_config =
  cc_directional_weight :: f64
  cc_confidence_weight :: f64
  cc_risk_weight :: f64
  cc_source_group :: string
  cc_fresh_seconds :: int
  cc_stale_seconds :: int

definition component_config_ok :: "component_config \<Rightarrow> bool" where
  "component_config_ok c \<longleftrightarrow> in_range 0 1 (cc_directional_weight c) \<and> in_range 0 1 (cc_confidence_weight c)
     \<and> in_range 0 1 (cc_risk_weight c)
     \<and> 1 \<le> cc_fresh_seconds c \<and> cc_fresh_seconds c \<le> 604800
     \<and> 2 \<le> cc_stale_seconds c \<and> cc_stale_seconds c \<le> 2592000
     \<and> cc_fresh_seconds c < cc_stale_seconds c
     \<and> cc_source_group c \<in> {''data'', ''structure'', ''participation'', ''context'', ''event_risk''}"

definition cfg_row :: "rat \<Rightarrow> rat \<Rightarrow> rat \<Rightarrow> string \<Rightarrow> int \<Rightarrow> int \<Rightarrow> component_config" where
  "cfg_row dw cw rw g fresh stale = \<lparr>cc_directional_weight = fl64 dw, cc_confidence_weight = fl64 cw,
     cc_risk_weight = fl64 rw, cc_source_group = g, cc_fresh_seconds = fresh, cc_stale_seconds = stale\<rparr>"

definition default_components :: "(string \<times> component_config) list" where
  "default_components =
    [(''market_data'', cfg_row 0 (10/100) (10/100) ''data'' 60 300),
     (''market_regime'', cfg_row (20/100) (15/100) (15/100) ''context'' 300 1800),
     (''smc'', cfg_row (25/100) (20/100) (5/100) ''structure'' 300 1800),
     (''liquidity'', cfg_row (15/100) (15/100) (15/100) ''structure'' 300 1800),
     (''volume_profile'', cfg_row (15/100) (15/100) (10/100) ''participation'' 300 1800),
     (''institutional_flow'', cfg_row (25/100) (20/100) (10/100) ''participation'' 300 1800),
     (''economic_calendar'', cfg_row 0 (5/100) (35/100) ''event_risk'' 300 1800)]"

record evidence_policy =
  ep_minimum_components :: int
  ep_minimum_independent_groups :: int
  ep_single_source_confidence_ceiling :: f64
  ep_degraded_confidence_ceiling :: f64
  ep_stale_confidence_ceiling :: f64
  ep_maximum_missing_directional_weight :: f64

definition evidence_policy_ok :: "evidence_policy \<Rightarrow> bool" where
  "evidence_policy_ok p \<longleftrightarrow> 1 \<le> ep_minimum_components p \<and> ep_minimum_components p \<le> 7
     \<and> 1 \<le> ep_minimum_independent_groups p \<and> ep_minimum_independent_groups p \<le> 5
     \<and> in_range 0 (fint 100) (ep_single_source_confidence_ceiling p)
     \<and> in_range 0 (fint 100) (ep_degraded_confidence_ceiling p)
     \<and> in_range 0 (fint 100) (ep_stale_confidence_ceiling p)
     \<and> in_range 0 1 (ep_maximum_missing_directional_weight p)"

record conflict_policy =
  cp_directional_gap_threshold :: f64
  cp_severe_gap_threshold :: f64
  cp_moderate_penalty :: f64
  cp_severe_penalty :: f64
  cp_maximum_total_penalty :: f64

definition conflict_policy_ok :: "conflict_policy \<Rightarrow> bool" where
  "conflict_policy_ok p \<longleftrightarrow> 0 < cp_directional_gap_threshold p \<and> cp_directional_gap_threshold p \<le> fint 2
     \<and> 0 < cp_severe_gap_threshold p \<and> cp_severe_gap_threshold p \<le> fint 2
     \<and> in_range 0 (fint 100) (cp_moderate_penalty p) \<and> in_range 0 (fint 100) (cp_severe_penalty p)
     \<and> in_range 0 (fint 100) (cp_maximum_total_penalty p)
     \<and> cp_directional_gap_threshold p < cp_severe_gap_threshold p"

record label_thresholds =
  lt_strong_bearish :: f64
  lt_bearish :: f64
  lt_slightly_bearish :: f64
  lt_slightly_bullish :: f64
  lt_bullish :: f64
  lt_strong_bullish :: f64

text \<open>The bounds of the fields and the validator \<open>ordered\<close> (strictly increasing).\<close>

definition label_thresholds_ok :: "label_thresholds \<Rightarrow> bool" where
  "label_thresholds_ok t \<longleftrightarrow>
     (let vs = [lt_strong_bearish t, lt_bearish t, lt_slightly_bearish t, lt_slightly_bullish t,
                lt_bullish t, lt_strong_bullish t]
      in list_all (in_range (fint (- 100)) (fint 100)) vs \<and> sorted vs \<and> distinct vs)"

record scoring_config =
  cf_engine_version :: string
  cf_schema_version :: string
  cf_policy_name :: string
  cf_policy_version :: string
  cf_configuration_version :: string
  cf_components :: "(string \<times> component_config) list"
  cf_evidence :: evidence_policy
  cf_conflicts :: conflict_policy
  cf_labels :: label_thresholds
  cf_future_clock_skew_seconds :: int
  cf_output_precision :: nat
  cf_configuration_hash :: string

text \<open>The keys of the dict are distinct because it is a dict; \<open>validate_components\<close> fixes
  the set of sources and asks for a positive total directional weight.\<close>

definition required_sources :: "string list" where
  "required_sources = [''market_data'', ''market_regime'', ''smc'', ''liquidity'',
     ''volume_profile'', ''institutional_flow'', ''economic_calendar'']"

definition scoring_config_ok :: "scoring_config \<Rightarrow> bool" where
  "scoring_config_ok c \<longleftrightarrow> distinct (map fst (cf_components c))
     \<and> set (map fst (cf_components c)) = set required_sources
     \<and> list_all component_config_ok (map snd (cf_components c))
     \<and> 0 < py_sum (map (cc_directional_weight \<circ> snd) (cf_components c))
     \<and> evidence_policy_ok (cf_evidence c) \<and> conflict_policy_ok (cf_conflicts c)
     \<and> label_thresholds_ok (cf_labels c)
     \<and> 0 \<le> cf_future_clock_skew_seconds c \<and> cf_future_clock_skew_seconds c \<le> 300
     \<and> cf_output_precision c \<le> 8"

definition default_scoring_config :: "string \<Rightarrow> scoring_config" where
  "default_scoring_config hash = \<lparr>cf_engine_version = ''1.0.0'', cf_schema_version = ''1.0'',
     cf_policy_name = ''weighted_intelligence_v1'', cf_policy_version = ''1.0.0'',
     cf_configuration_version = ''ai-scoring-1.0'', cf_components = default_components,
     cf_evidence = \<lparr>ep_minimum_components = 2, ep_minimum_independent_groups = 2,
       ep_single_source_confidence_ceiling = fint 35, ep_degraded_confidence_ceiling = fint 65,
       ep_stale_confidence_ceiling = fint 45, ep_maximum_missing_directional_weight = fl64 (60/100)\<rparr>,
     cf_conflicts = \<lparr>cp_directional_gap_threshold = fl64 (120/100), cp_severe_gap_threshold = fl64 (160/100),
       cp_moderate_penalty = fint 8, cp_severe_penalty = fint 15, cp_maximum_total_penalty = fint 35\<rparr>,
     cf_labels = \<lparr>lt_strong_bearish = fint (- 70), lt_bearish = fint (- 35), lt_slightly_bearish = fint (- 10),
       lt_slightly_bullish = fint 10, lt_bullish = fint 35, lt_strong_bullish = fint 70\<rparr>,
     cf_future_clock_skew_seconds = 5, cf_output_precision = 4, cf_configuration_hash = hash\<rparr>"

subsection \<open>The policy\<close>

datatype score_error = KeyError string | FutureSource string | ValidationError string

definition lookup_component :: "scoring_config \<Rightarrow> string \<Rightarrow> score_error + component_config" where
  "lookup_component c s = (case map_of (cf_components c) s of None \<Rightarrow> Inl (KeyError s) | Some x \<Rightarrow> Inr x)"

definition directional_weight :: "scoring_config \<Rightarrow> string \<Rightarrow> f64" where
  "directional_weight c s = (case map_of (cf_components c) s of None \<Rightarrow> 0 | Some x \<Rightarrow> cc_directional_weight x)"

definition risk_weight :: "scoring_config \<Rightarrow> string \<Rightarrow> f64" where
  "risk_weight c s = (case map_of (cf_components c) s of None \<Rightarrow> 0 | Some x \<Rightarrow> cc_risk_weight x)"

text \<open>\<open>_bounded\<close>: a float of the model is always finite, so only the clamp remains
  (\<open>-0.0\<close> and \<open>0.0\<close> are the same value here).\<close>

definition bounded :: "f64 \<Rightarrow> f64 \<Rightarrow> f64 \<Rightarrow> f64" where
  "bounded x lo hi = min hi (max lo x)"

definition average :: "f64 list \<Rightarrow> f64" where
  "average xs = (if xs = [] then 0 else fsum xs / fint (int (length xs)))"

definition label_of :: "label_thresholds \<Rightarrow> f64 \<Rightarrow> directional_label" where
  "label_of v score =
     (if score < lt_strong_bearish v then Strong_Bearish
      else if score < lt_bearish v then Bearish
      else if score < lt_slightly_bearish v then Slightly_Bearish
      else if score \<le> lt_slightly_bullish v then Neutral
      else if score \<le> lt_bullish v then Slightly_Bullish
      else if score \<le> lt_strong_bullish v then Bullish
      else Strong_Bullish)"

definition freshness :: "scoring_config \<Rightarrow> source_evidence \<Rightarrow> instant \<Rightarrow> int \<Rightarrow> int \<Rightarrow> score_error + (f64 \<times> freshness_state)" where
  "freshness c e as_of fresh stale =
     (let age = as_of - ev_publication_timestamp e in
      if age < - seconds_td (cf_future_clock_skew_seconds c) then Inl (FutureSource (ev_source e))
      else let seconds = max 0 (total_seconds age) in
        if seconds \<le> fint fresh then Inr (1, Fresh)
        else if seconds \<le> fint stale then
          Inr (1 - fl64 (1/2) * ((seconds - fint fresh) / fint (stale - fresh)), Aging)
        else if seconds \<le> fint (stale * 2) then Inr (fl64 (1/4), Stale)
        else Inr (0, Expired))"

definition make_component :: "score_component \<Rightarrow> score_error + score_component" where
  "make_component x = (if component_ok x then Inr x else Inl (ValidationError ''ScoreComponent''))"

definition make_conflict :: "evidence_conflict \<Rightarrow> score_error + evidence_conflict" where
  "make_conflict x = (if conflict_ok x then Inr x else Inl (ValidationError ''EvidenceConflict''))"

definition make_snapshot :: "score_snapshot \<Rightarrow> score_error + score_snapshot" where
  "make_snapshot x = (if snapshot_ok x then Inr x else Inl (ValidationError ''AIScoreSnapshot''))"

definition component_values :: "scoring_config \<Rightarrow> component_config \<Rightarrow> source_evidence \<Rightarrow> f64 \<Rightarrow> freshness_state
    \<Rightarrow> f64 \<Rightarrow> f64 \<Rightarrow> score_component" where
  "component_values c cfg e fresh state dden rden =
     (let numerator = cc_directional_weight cfg * ev_quality e * fresh;
          effective = (if dden \<noteq> 0 then numerator / dden else 0);
          rweight = (if rden \<noteq> 0 then cc_risk_weight cfg / rden else 0);
          p = cf_output_precision c
      in \<lparr>sc_component_name = ev_source e, sc_source_engine = ev_source e,
          sc_source_group = cc_source_group cfg, sc_evidence_id = ev_evidence_id e,
          sc_normalized_direction = ev_direction e,
          sc_directional_contribution = round_nd p (fint 100 * ev_direction e * effective),
          sc_confidence_contribution =
            round_nd p (fint 100 * cc_confidence_weight cfg * ev_confidence e * ev_quality e * fresh),
          sc_risk_contribution = round_nd p (fint 100 * ev_risk e * rweight),
          sc_quality_contribution =
            round_nd p (fint 100 * ev_quality e * fresh / fint (int (length (cf_components c)))),
          sc_configured_weight = cc_directional_weight cfg,
          sc_effective_weight = round_nd p effective,
          sc_freshness_factor = round_nd p fresh,
          sc_availability_factor = 1,
          sc_quality_factor = ev_quality e,
          sc_freshness_state = state,
          sc_reason_codes = sort (remdups (ev_reason_codes e)),
          sc_source_timestamp = ev_source_timestamp e,
          sc_observation_timestamp = ev_observation_timestamp e\<rparr>)"

definition component :: "scoring_config \<Rightarrow> f64 \<Rightarrow> f64 \<Rightarrow> source_evidence \<times> f64 \<times> freshness_state
    \<Rightarrow> score_error + score_component" where
  "component c dden rden r =
     (case r of (e, fresh, state) \<Rightarrow>
        bindE (lookup_component c (ev_source e))
          (\<lambda>cfg. make_component (component_values c cfg e fresh state dden rden)))"

definition conflict_values :: "runtime \<Rightarrow> scoring_config \<Rightarrow> source_evidence \<Rightarrow> source_evidence \<Rightarrow> f64 \<Rightarrow> evidence_conflict" where
  "conflict_values rt c left right gap =
     (let severe = cp_severe_gap_threshold (cf_conflicts c) \<le> gap;
          severity = (if severe then ''severe'' else ''moderate'');
          penalty = (if severe then cp_severe_penalty (cf_conflicts c) else cp_moderate_penalty (cf_conflicts c));
          ctype = (if ev_source_group left \<noteq> ev_source_group right
                   then ''cross_group_directional'' else ''same_group_directional'');
          srcs = sort [ev_source left, ev_source right]
      in \<lparr>ec_conflict_id = stable_id rt ''c2ff62ba-3495-5ab2-b0db-3a63a66d72d4''
              (''conflict'' # srcs @ [rt_float_repr rt (round_nd 6 gap)]),
          ec_conflict_type = ctype, ec_severity = severity, ec_sources = srcs,
          ec_directional_gap = round_nd (cf_output_precision c) gap,
          ec_description_code = ctype @ ''_'' @ severity, ec_confidence_penalty = penalty\<rparr>)"

definition conflict_gap :: "source_evidence \<times> source_evidence \<Rightarrow> f64" where
  "conflict_gap lr = \<bar>ev_direction (fst lr) - ev_direction (snd lr)\<bar>"

definition conflicts_of :: "runtime \<Rightarrow> scoring_config \<Rightarrow> source_evidence list \<Rightarrow> score_error + evidence_conflict list" where
  "conflicts_of rt c evidence =
     bindE (mapE (\<lambda>lr. make_conflict (conflict_values rt c (fst lr) (snd lr) (conflict_gap lr)))
              (filter (\<lambda>lr. \<not> conflict_gap lr < cp_directional_gap_threshold (cf_conflicts c)) (pairs evidence)))
       (\<lambda>xs. Inr (sort_key (\<lambda>x. (- ec_confidence_penalty x, ec_sources x)) xs))"

definition is_directional :: "scoring_config \<Rightarrow> source_evidence \<Rightarrow> bool" where
  "is_directional c e \<longleftrightarrow> 0 < directional_weight c (ev_source e) \<and> fl64 (5/100) \<le> \<bar>ev_direction e\<bar>"

definition alignment_of :: "scoring_config \<Rightarrow> source_evidence list \<Rightarrow> f64" where
  "alignment_of c evidence =
     (let directional = filter (is_directional c) evidence in
      if length directional < 2 then (if directional \<noteq> [] then fint 50 else 0)
      else let total = fsum (map (\<lambda>e. directional_weight c (ev_source e) * \<bar>ev_direction e\<bar>) directional);
               signed = fsum (map (\<lambda>e. directional_weight c (ev_source e) * ev_direction e) directional)
           in bounded (if total \<noteq> 0 then fint 100 * \<bar>signed\<bar> / total else 0) 0 (fint 100))"

definition stale_or_expired :: "score_component \<Rightarrow> bool" where
  "stale_or_expired x \<longleftrightarrow> sc_freshness_state x = Stale \<or> sc_freshness_state x = Expired"

definition status_of :: "scoring_config \<Rightarrow> score_mode \<Rightarrow> score_component list \<Rightarrow> string list \<Rightarrow> string list \<Rightarrow> nat \<Rightarrow> score_status" where
  "status_of c mode components missing degraded groups =
     (let n = length (filter (\<lambda>x. 0 < sc_configured_weight x \<and> sc_freshness_state x \<noteq> Expired) components) in
      if int n < ep_minimum_components (cf_evidence c) \<or> int groups < ep_minimum_independent_groups (cf_evidence c)
      then SInsufficient_Evidence
      else if list_ex stale_or_expired components then SStale
      else if mode = SReplay then SReplayed
      else if degraded \<noteq> [] \<or> missing \<noteq> [] then SDegraded
      else SReady)"

definition contributor :: "score_component \<Rightarrow> explanation_contributor" where
  "contributor x = \<lparr>xc_source = sc_source_engine x,
     xc_reason_code = (case sc_reason_codes x of [] \<Rightarrow> ''normalized_evidence'' | r # _ \<Rightarrow> r),
     xc_contribution = sc_directional_contribution x\<rparr>"

definition explanation_of :: "scoring_config \<Rightarrow> f64 \<Rightarrow> f64 \<Rightarrow> f64 \<Rightarrow> score_component list \<Rightarrow> evidence_conflict list
    \<Rightarrow> string list \<Rightarrow> string list \<Rightarrow> score_explanation" where
  "explanation_of c directional confidence risk components conflicts missing degraded =
     (let contributors = map contributor (filter (\<lambda>x. sc_directional_contribution x \<noteq> 0) components) in
      \<lparr>xp_summary_code = label_value (label_of (cf_labels c) directional) @ ''_'' @
         (if confidence < fint 40 then ''low'' else if confidence < fint 70 then ''moderate'' else ''high'') @
         ''_confidence_'' @ (if fint 70 \<le> risk then ''high'' else ''normal'') @ ''_risk'',
       xp_positive_contributors =
         sort_key (\<lambda>x. (- xc_contribution x, xc_source x)) (filter (\<lambda>x. 0 < xc_contribution x) contributors),
       xp_negative_contributors =
         sort_key (\<lambda>x. (xc_contribution x, xc_source x)) (filter (\<lambda>x. xc_contribution x < 0) contributors),
       xp_risk_contributors =
         sort_key (\<lambda>x. (- xc_contribution x, xc_source x))
           (map (\<lambda>x. \<lparr>xc_source = sc_source_engine x, xc_reason_code = ''contextual_risk'',
                        xc_contribution = sc_risk_contribution x\<rparr>)
              (filter (\<lambda>x. 0 < sc_risk_contribution x) components)),
       xp_limitations = sort (map (\<lambda>n. n @ ''_missing'') missing @ map (\<lambda>n. n @ ''_degraded'') degraded
         @ map ec_description_code conflicts)\<rparr>)"

text \<open>\<open>score\<close> in the order of its statements: freshness of each source, denominators,
  components, conflicts, then the aggregate scores (\<open>aggregate\<close>) and the snapshot.\<close>

definition raw_evidence :: "scoring_config \<Rightarrow> scoring_input \<Rightarrow> source_evidence \<Rightarrow> score_error + (source_evidence \<times> f64 \<times> freshness_state)" where
  "raw_evidence c i e =
     bindE (lookup_component c (ev_source e))
       (\<lambda>cfg. bindE (freshness c e (si_as_of i) (cc_fresh_seconds cfg) (cc_stale_seconds cfg))
         (\<lambda>(factor, state). Inr (e, factor, state)))"

definition directional_denominator :: "scoring_config \<Rightarrow> (source_evidence \<times> f64 \<times> freshness_state) list \<Rightarrow> f64" where
  "directional_denominator c raw =
     fsum (map (\<lambda>(e, fresh, _). directional_weight c (ev_source e) * ev_quality e * fresh)
       (filter (\<lambda>(e, _, _). 0 < directional_weight c (ev_source e)) raw))"

definition risk_denominator :: "scoring_config \<Rightarrow> (source_evidence \<times> f64 \<times> freshness_state) list \<Rightarrow> f64" where
  "risk_denominator c raw = fsum (map (\<lambda>(e, _, _). risk_weight c (ev_source e)) raw)"

definition group_count :: "scoring_config \<Rightarrow> source_evidence list \<Rightarrow> nat" where
  "group_count c ordered = distinct_count (map ev_source_group (filter (is_directional c) ordered))"

record aggregates =
  ag_directional :: f64
  ag_confidence :: f64
  ag_quality :: f64
  ag_risk :: f64
  ag_composite :: f64
  ag_alignment :: f64

definition aggregate :: "scoring_config \<Rightarrow> source_evidence list \<Rightarrow> score_component list \<Rightarrow> evidence_conflict list
    \<Rightarrow> string list \<Rightarrow> nat \<Rightarrow> aggregates" where
  "aggregate c ordered components conflicts degraded groups =
     (let directional = bounded (fsum (map sc_directional_contribution components)) (fint (- 100)) (fint 100);
          alignment = alignment_of c ordered;
          n = fint (int (length (cf_components c)));
          freshness_average = average (map sc_freshness_factor components);
          quality_average = fsum (map sc_quality_factor components) / n;
          availability = int_truediv (int (length components)) (int (length (cf_components c)));
          independence = min 1 (int_truediv (int groups) (ep_minimum_independent_groups (cf_evidence c)));
          conflict_penalty = min (cp_maximum_total_penalty (cf_conflicts c)) (fsum (map ec_confidence_penalty conflicts));
          confidence = fint 100 * availability * freshness_average * quality_average
                         * (fl64 (1/2) + alignment / fint 200) * independence;
          confidence = confidence - conflict_penalty;
          confidence = (if length ordered \<le> 1 then min confidence (ep_single_source_confidence_ceiling (cf_evidence c)) else confidence);
          confidence = (if degraded \<noteq> [] then min confidence (ep_degraded_confidence_ceiling (cf_evidence c)) else confidence);
          confidence = (if list_ex stale_or_expired components then min confidence (ep_stale_confidence_ceiling (cf_evidence c)) else confidence);
          confidence = bounded confidence 0 (fint 100);
          quality = bounded (fint 100 * quality_average * freshness_average) 0 (fint 100);
          base_risk = fsum (map sc_risk_contribution components);
          stale_risk = fint (10 * int (length (filter stale_or_expired components)));
          risk = bounded (base_risk + stale_risk + conflict_penalty * fl64 (1/2)) 0 (fint 100);
          composite = bounded (directional * (confidence / fint 100) * (1 - fl64 (1/4) * risk / fint 100)) (fint (- 100)) (fint 100)
      in \<lparr>ag_directional = directional, ag_confidence = confidence, ag_quality = quality,
          ag_risk = risk, ag_composite = composite, ag_alignment = alignment\<rparr>)"

definition snapshot_values :: "runtime \<Rightarrow> scoring_config \<Rightarrow> string \<Rightarrow> instant \<Rightarrow> scoring_input \<Rightarrow> source_evidence list
    \<Rightarrow> score_component list \<Rightarrow> evidence_conflict list \<Rightarrow> score_snapshot" where
  "snapshot_values rt c fingerprint now i ordered components conflicts =
     (let missing = filter (\<lambda>n. n \<notin> set (map ev_source ordered)) (sort (map fst (cf_components c)));
          degraded = sort (map ev_source (filter ev_degraded ordered));
          groups = group_count c ordered;
          a = aggregate c ordered components conflicts degraded groups;
          p = cf_output_precision c
      in \<lparr>ss_snapshot_id = stable_id rt ''c2ff62ba-3495-5ab2-b0db-3a63a66d72d4''
              [''ai-score'', fingerprint, score_mode_value (si_mode i)],
          ss_instrument = si_instrument i, ss_timeframe = si_timeframe i, ss_as_of = si_as_of i,
          ss_calculated_at = now, ss_mode = si_mode i,
          ss_policy_name = cf_policy_name c, ss_policy_version = cf_policy_version c,
          ss_directional_score = round_nd p (ag_directional a),
          ss_directional_label = label_of (cf_labels c) (ag_directional a),
          ss_confidence_score = round_nd p (ag_confidence a),
          ss_market_risk_score = round_nd p (ag_risk a),
          ss_evidence_alignment_score = round_nd p (ag_alignment a),
          ss_data_quality_score = round_nd p (ag_quality a),
          ss_composite_score = round_nd p (ag_composite a),
          ss_components = components, ss_conflicts = conflicts,
          ss_missing_sources = missing, ss_degraded_sources = degraded,
          ss_explanation = explanation_of c (ag_directional a) (ag_confidence a) (ag_risk a)
              components conflicts missing degraded,
          ss_status = status_of c (si_mode i) components missing degraded groups,
          ss_metadata = \<lparr>sm_engine_version = cf_engine_version c, sm_schema_version = cf_schema_version c,
              sm_configuration_version = cf_configuration_version c,
              sm_configuration_hash = cf_configuration_hash c, sm_input_fingerprint = fingerprint,
              sm_independent_group_count = groups, sm_available_source_count = length components\<rparr>\<rparr>)"

definition score :: "runtime \<Rightarrow> (scoring_input \<Rightarrow> string \<Rightarrow> string \<Rightarrow> string \<Rightarrow> string) \<Rightarrow> scoring_config \<Rightarrow> instant
    \<Rightarrow> scoring_input \<Rightarrow> score_error + score_snapshot" where
  "score rt digest c now i =
     (let ordered = sort_key ev_source (sources i);
          fingerprint = digest i (cf_policy_name c) (cf_policy_version c) (cf_configuration_hash c)
      in bindE (mapE (raw_evidence c i) ordered) (\<lambda>raw.
         bindE (mapE (component c (directional_denominator c raw) (risk_denominator c raw)) raw) (\<lambda>components.
         bindE (conflicts_of rt c ordered) (\<lambda>conflicts.
         make_snapshot (snapshot_values rt c fingerprint now i ordered components conflicts)))))"

subsection \<open>The bounds of every stage\<close>

lemma bounded_range: "lo \<le> hi \<Longrightarrow> in_range lo hi (bounded x lo hi)"
  by (simp add: bounded_def in_range_def)

lemma percent_bounds: "0 \<le> fint 100" "fint (- 100) \<le> fint 100"
  by (simp_all add: f64_order fval_fint)

lemma ageing_range:
  assumes f: "1 \<le> fresh" "fresh < stale" "stale \<le> 2 ^ 40"
    and x: "fint fresh < x" "x \<le> fint stale"
  shows "in_range 0 1 (1 - fl64 (1 / 2) * ((x - fint fresh) / fint (stale - fresh)))"
proof (intro one_minus_unit unit_mult unit_lit ratio_unit)
  show "0 \<le> x - fint fresh" using x by (simp add: f64_diff_nonneg)
  have "x - fint fresh \<le> fint stale - fint fresh" using x by (intro f64_diff_mono) auto
  also have "\<dots> = fint (stale - fresh)" using f by (intro fint_diff) auto
  finally show "x - fint fresh \<le> fint (stale - fresh)" .
qed simp_all

lemma freshness_range:
  assumes "component_config_ok cfg"
    and "freshness c e t (cc_fresh_seconds cfg) (cc_stale_seconds cfg) = Inr (x, st)"
  shows "in_range 0 1 x"
proof -
  have cfg: "1 \<le> cc_fresh_seconds cfg" "cc_fresh_seconds cfg < cc_stale_seconds cfg"
    "cc_stale_seconds cfg \<le> 2 ^ 40"
    using assms(1) by (auto simp: component_config_ok_def)
  define sec where "sec = max 0 (total_seconds (t - ev_publication_timestamp e))"
  show ?thesis
    using assms(2) ageing_range [OF cfg, of sec] unit_lit [of "1 / 4"]
    unfolding freshness_def Let_def sec_def [symmetric]
    by (auto simp: not_le split: if_splits)
qed

lemma component_config_lookup:
  "scoring_config_ok c \<Longrightarrow> map_of (cf_components c) s = Some cfg \<Longrightarrow> component_config_ok cfg"
  by (auto simp: scoring_config_ok_def list_all_iff dest: map_of_SomeD)

lemma weight_unit:
  assumes "scoring_config_ok c"
  shows "in_range 0 1 (directional_weight c s)" "in_range 0 1 (risk_weight c s)"
  using component_config_lookup [OF assms]
  by (auto simp: directional_weight_def risk_weight_def component_config_ok_def split: option.splits)

lemma component_count: "scoring_config_ok c \<Longrightarrow> length (cf_components c) = 7"
proof -
  assume ok: "scoring_config_ok c"
  then have "length (cf_components c) = card (set required_sources)"
    by (metis distinct_card length_map scoring_config_ok_def)
  then show ?thesis by (simp add: required_sources_def)
qed

definition raw_ok :: "scoring_config \<Rightarrow> (source_evidence \<times> f64 \<times> freshness_state) list \<Rightarrow> bool" where
  "raw_ok c raw \<longleftrightarrow> (\<forall>(e, f, st) \<in> set raw. valid_evidence e \<and> in_range 0 1 f
     \<and> map_of (cf_components c) (ev_source e) \<noteq> None)"

lemma directional_share:
  assumes c: "scoring_config_ok c" and raw: "raw_ok c raw" and mem: "(e, f, st) \<in> set raw"
  shows "in_range 0 1 (directional_weight c (ev_source e) * ev_quality e * f / directional_denominator c raw)"
proof (cases "0 < directional_weight c (ev_source e)")
  case True
  let ?n = "\<lambda>(e, f, _). directional_weight c (ev_source e) * ev_quality e * f"
  let ?rs = "filter (\<lambda>(e, _, _). 0 < directional_weight c (ev_source e)) raw"
  have nn: "0 \<le> ?n r" if "r \<in> set raw" for r
    using raw that weight_unit(1) [OF c]
    by (auto simp: raw_ok_def valid_evidence_def in_range_def intro!: f64_mult_nonneg)
  have "?n (e, f, st) \<le> fsum (map ?n ?rs)"
    using mem True nn by (intro fsum_ge_member) force+
  then show ?thesis
    using nn [OF mem] by (simp add: directional_denominator_def ratio_unit)
next
  case False
  then have "directional_weight c (ev_source e) = 0"
    using weight_unit(1) [OF c, of "ev_source e"] by (simp add: in_range_def)
  then show ?thesis by simp
qed

lemma risk_share:
  assumes c: "scoring_config_ok c" and mem: "(e, f, st) \<in> set raw"
  shows "in_range 0 1 (risk_weight c (ev_source e) / risk_denominator c raw)"
proof (rule ratio_unit)
  show "0 \<le> risk_weight c (ev_source e)"
    using weight_unit(2) [OF c] by (simp add: in_range_def)
  show "risk_weight c (ev_source e) \<le> risk_denominator c raw"
    unfolding risk_denominator_def using mem weight_unit(2) [OF c]
    by (intro fsum_ge_member) (force simp: in_range_def)+
qed

lemma component_values_ok:
  assumes c: "scoring_config_ok c" and raw: "raw_ok c raw" and mem: "(e, f, st) \<in> set raw"
    and cfg: "map_of (cf_components c) (ev_source e) = Some cfg"
  shows "component_ok (component_values c cfg e f st (directional_denominator c raw) (risk_denominator c raw))"
proof -
  have e: "in_range (- 1) 1 (ev_direction e)" "in_range 0 1 (ev_confidence e)"
    "in_range 0 1 (ev_quality e)" "in_range 0 1 (ev_risk e)" "in_range 0 1 f"
    using raw mem by (auto simp: raw_ok_def valid_evidence_def fint_minus_1)
  have k: "in_range 0 1 (cc_directional_weight cfg)" "in_range 0 1 (cc_confidence_weight cfg)"
    using component_config_lookup [OF c cfg] by (simp_all add: component_config_ok_def)
  have dw: "directional_weight c (ev_source e) = cc_directional_weight cfg"
    "risk_weight c (ev_source e) = cc_risk_weight cfg"
    using cfg by (simp_all add: directional_weight_def risk_weight_def)
  have eff: "in_range 0 1 (if directional_denominator c raw \<noteq> 0
      then cc_directional_weight cfg * ev_quality e * f / directional_denominator c raw else 0)"
    using directional_share [OF c raw mem] by (simp add: dw)
  have rw: "in_range 0 1 (if risk_denominator c raw \<noteq> 0 then cc_risk_weight cfg / risk_denominator c raw else 0)"
    using risk_share [OF c mem] by (simp add: dw)
  have n7: "1 \<le> fint (int (length (cf_components c)))"
    using component_count [OF c] by (simp add: f64_order fval_fint)
  show ?thesis
    unfolding component_ok_def component_values_def Let_def fint_minus_1 score_component.simps
    by (intro conjI e k unit_0_1 round_nd_percent round_nd_unit round_nd_signed_percent
        signed_percent_mult percent_mult percent_div percent_100 eff rw n7)
qed

lemma gap_range: "valid_evidence l \<Longrightarrow> valid_evidence r \<Longrightarrow> in_range 0 (fint 2) (conflict_gap (l, r))"
proof -
  assume "valid_evidence l" "valid_evidence r"
  then have "- 1 \<le> fval (ev_direction l)" "fval (ev_direction l) \<le> 1"
    "- 1 \<le> fval (ev_direction r)" "fval (ev_direction r) \<le> 1"
    by (simp_all add: valid_evidence_def in_range_def f64_order fint_uminus fval_arith)
  then have "fval (fint (- 2)) \<le> fval (ev_direction l) - fval (ev_direction r)"
    "fval (ev_direction l) - fval (ev_direction r) \<le> fval (fint 2)"
    by (simp_all add: fval_fint)
  then have "fval (fint (- 2)) \<le> fval (ev_direction l - ev_direction r)"
    "fval (ev_direction l - ev_direction r) \<le> fval (fint 2)"
    unfolding fval_arith by (simp_all only: fl_ge fl_le)
  then show ?thesis
    by (simp add: conflict_gap_def in_range_def f64_order fval_arith fval_fint)
qed

lemma conflict_values_ok:
  assumes "scoring_config_ok c" "valid_evidence l" "valid_evidence r"
  shows "conflict_ok (conflict_values rt c l r (conflict_gap (l, r)))"
proof -
  have "in_range 0 (fint 2) (round_nd p (conflict_gap (l, r)))" for p
    using round_nd_in_range [of 0 2] gap_range [OF assms(2,3)] by simp
  then show ?thesis
    using assms(1)
    by (auto simp: conflict_ok_def conflict_values_def Let_def scoring_config_ok_def conflict_policy_ok_def)
qed

lemma alignment_range: "in_range 0 (fint 100) (alignment_of c ev)"
  by (auto simp: alignment_of_def Let_def bounded_range percent_bounds percent_100)
    (simp add: in_range_def f64_order fval_fint)

lemma snapshot_values_ok: "snapshot_ok (snapshot_values rt c fp now i ordered components conflicts)"
  unfolding snapshot_ok_def snapshot_values_def aggregate_def Let_def
  by (auto intro!: round_nd_percent round_nd_signed_percent bounded_range alignment_range percent_bounds)

subsection \<open>Scoring never raises on validated input\<close>

lemma past_is_not_future: "0 \<le> cf_future_clock_skew_seconds c \<Longrightarrow> ev_publication_timestamp e \<le> t \<Longrightarrow>
    \<exists>x st. freshness c e t fresh stale = Inr (x, st)"
  by (auto simp: freshness_def seconds_td_def Let_def)

lemma raw_evidence_total:
  assumes c: "scoring_config_ok c" and i: "valid_input i"
    and src: "\<forall>e \<in> set (sources i). ev_source e \<in> set required_sources"
  shows "\<exists>raw. mapE (raw_evidence c i) (sort_key ev_source (sources i)) = Inr raw \<and> raw_ok c raw"
proof -
  have one: "\<exists>f st. raw_evidence c i e = Inr (e, f, st) \<and> in_range 0 1 f \<and> valid_evidence e
      \<and> map_of (cf_components c) (ev_source e) \<noteq> None" if e: "e \<in> set (sources i)" for e
  proof -
    have "ev_source e \<in> fst ` set (cf_components c)"
      using c src e by (auto simp: scoring_config_ok_def)
    then obtain cfg where cfg: "map_of (cf_components c) (ev_source e) = Some cfg"
      by (metis map_of_eq_None_iff not_None_eq)
    obtain f st where f: "freshness c e (si_as_of i) (cc_fresh_seconds cfg) (cc_stale_seconds cfg) = Inr (f, st)"
      using past_is_not_future [of c e "si_as_of i"] c i e
      by (force simp: scoring_config_ok_def valid_input_def not_less)
    show ?thesis
      using cfg f freshness_range [OF component_config_lookup [OF c cfg] f] i e
      by (auto simp: raw_evidence_def lookup_component_def valid_input_def)
  qed
  define g where "g e = projr (raw_evidence c i e)" for e
  have "mapE (raw_evidence c i) (sort_key ev_source (sources i)) = Inr (map g (sort_key ev_source (sources i)))"
    by (rule mapE_total) (use one in \<open>fastforce simp: g_def\<close>)
  moreover have "raw_ok c (map g (sort_key ev_source (sources i)))"
    using one by (fastforce simp: raw_ok_def g_def)
  ultimately show ?thesis by blast
qed

lemma components_total:
  assumes "scoring_config_ok c" "raw_ok c raw"
  shows "\<exists>xs. mapE (component c (directional_denominator c raw) (risk_denominator c raw)) raw = Inr xs
    \<and> list_all component_ok xs \<and> length xs = length raw"
proof -
  let ?f = "component c (directional_denominator c raw) (risk_denominator c raw)"
  have one: "\<exists>x. ?f r = Inr x \<and> component_ok x" if r: "r \<in> set raw" for r
  proof -
    obtain e f st where r3: "r = (e, f, st)" by (cases r)
    obtain cfg where cfg: "map_of (cf_components c) (ev_source e) = Some cfg"
      using assms(2) r by (auto simp: raw_ok_def r3)
    show ?thesis
      using component_values_ok [OF assms r [unfolded r3] cfg] cfg
      by (simp add: component_def r3 lookup_component_def make_component_def)
  qed
  have "mapE ?f raw = Inr (map (\<lambda>r. projr (?f r)) raw)"
    by (rule mapE_total) (use one in fastforce)
  then show ?thesis using one by (fastforce simp: list_all_iff)
qed

lemma conflicts_total:
  assumes "scoring_config_ok c" "\<forall>e \<in> set ev. valid_evidence e"
  shows "\<exists>xs. conflicts_of rt c ev = Inr xs \<and> list_all conflict_ok xs"
proof -
  let ?ps = "filter (\<lambda>lr. \<not> conflict_gap lr < cp_directional_gap_threshold (cf_conflicts c)) (pairs ev)"
  let ?v = "\<lambda>lr. conflict_values rt c (fst lr) (snd lr) (conflict_gap lr)"
  have ok: "conflict_ok (?v lr)" if "lr \<in> set ?ps" for lr
    using conflict_values_ok [OF assms(1), of "fst lr" "snd lr" rt] assms(2) that set_pairs [of "fst lr" "snd lr" ev] by simp
  have "mapE (\<lambda>lr. make_conflict (?v lr)) ?ps = Inr (map ?v ?ps)"
    by (rule mapE_total) (use ok in \<open>simp add: make_conflict_def\<close>)
  then show ?thesis
    using ok by (auto simp: conflicts_of_def list_all_iff)
qed

lemma score_stages:
  assumes c: "scoring_config_ok c" and i: "valid_input i"
    and src: "\<forall>e \<in> set (sources i). ev_source e \<in> set required_sources"
  obtains components conflicts where
    "score rt digest c now i = Inr (snapshot_values rt c
       (digest i (cf_policy_name c) (cf_policy_version c) (cf_configuration_hash c)) now i
       (sort_key ev_source (sources i)) components conflicts)"
    "list_all component_ok components" "list_all conflict_ok conflicts"
    "length components = length (sources i)"
proof -
  obtain raw where raw: "mapE (raw_evidence c i) (sort_key ev_source (sources i)) = Inr raw" "raw_ok c raw"
    using raw_evidence_total [OF c i src] by blast
  obtain xs where xs: "mapE (component c (directional_denominator c raw) (risk_denominator c raw)) raw = Inr xs"
    "list_all component_ok xs" "length xs = length raw"
    using components_total [OF c raw(2)] by blast
  obtain ys where ys: "conflicts_of rt c (sort_key ev_source (sources i)) = Inr ys" "list_all conflict_ok ys"
    using conflicts_total [OF c, of "sort_key ev_source (sources i)" rt] i by (auto simp: valid_input_def)
  have "length raw = length (sources i)" using raw(1) by (simp add: mapE_Inr_iff)
  then show ?thesis
    using that [of xs ys] raw xs ys by (simp add: score_def Let_def make_snapshot_def snapshot_values_ok)
qed

lemma raw_evidence_unknown:
  assumes "scoring_config_ok c" "valid_input i" "e \<in> set (sources i)" "raw_evidence c i e = Inl x"
  shows "x = KeyError (ev_source e) \<and> ev_source e \<notin> set required_sources"
proof (cases "map_of (cf_components c) (ev_source e)")
  case None
  then have "ev_source e \<notin> fst ` set (cf_components c)" by (simp add: map_of_eq_None_iff)
  then show ?thesis using None assms(1,4) by (simp add: raw_evidence_def lookup_component_def scoring_config_ok_def)
next
  case (Some cfg)
  obtain f st where "freshness c e (si_as_of i) (cc_fresh_seconds cfg) (cc_stale_seconds cfg) = Inr (f, st)"
    using past_is_not_future [of c e "si_as_of i"] assms(1-3) by (force simp: scoring_config_ok_def valid_input_def not_less)
  then show ?thesis using Some assms(4) by (simp add: raw_evidence_def lookup_component_def)
qed

lemma mapE_Inl_member: "mapE f xs = Inl e \<Longrightarrow> \<exists>x \<in> set xs. f x = Inl e"
proof (induction xs)
  case (Cons a xs)
  then show ?case by (cases "f a"; cases "mapE f xs") auto
qed simp

lemma raw_evidence_known: "scoring_config_ok c \<Longrightarrow> raw_evidence c i e = Inr y \<Longrightarrow> ev_source e \<in> set required_sources"
  by (auto simp: raw_evidence_def lookup_component_def scoring_config_ok_def split: option.split_asm dest!: map_of_SomeD)
    (force simp: image_iff)

text \<open>Claim C4: on a validated configuration and a validated input \<open>score\<close> raises exactly when an evidence names a source
  that is not among the approved ones, and then the missing key is such a source: no validator of the input excludes it.
  Otherwise every score, every component and every conflict it publishes is inside the bounds the models declare, with
  one component for every evidence.\<close>

theorem score_total:
  assumes "scoring_config_ok c" and "valid_input i"
  shows "case score rt digest c now i of
      Inl x \<Rightarrow> (\<exists>e \<in> set (sources i). x = KeyError (ev_source e) \<and> ev_source e \<notin> set required_sources)
    | Inr s \<Rightarrow> (\<forall>e \<in> set (sources i). ev_source e \<in> set required_sources) \<and> snapshot_ok s
        \<and> list_all component_ok (ss_components s) \<and> list_all conflict_ok (ss_conflicts s)
        \<and> length (ss_components s) = length (sources i)"
proof (cases "\<forall>e \<in> set (sources i). ev_source e \<in> set required_sources")
  case True
  show ?thesis
    by (rule score_stages [OF assms True, of rt digest now])
      (use True in \<open>simp add: snapshot_values_ok\<close>, simp add: snapshot_values_def Let_def)
next
  case False
  then obtain e where e: "e \<in> set (sources i)" "ev_source e \<notin> set required_sources" by blast
  have "isl (mapE (raw_evidence c i) (sort_key ev_source (sources i)))"
  proof (rule ccontr)
    assume "\<not> isl (mapE (raw_evidence c i) (sort_key ev_source (sources i)))"
    then obtain ys where ys: "mapE (raw_evidence c i) (sort_key ev_source (sources i)) = Inr ys"
      by (cases "mapE (raw_evidence c i) (sort_key ev_source (sources i))") auto
    let ?es = "sort_key ev_source (sources i)"
    have "e \<in> set ?es" using e(1) by simp
    then obtain j where "j < length ?es" "?es ! j = e" unfolding in_set_conv_nth by blast
    then have "raw_evidence c i e = Inr (ys ! j)" using ys unfolding mapE_Inr_iff by blast
    then show False using raw_evidence_known [OF assms(1)] e(2) by blast
  qed
  then obtain x where x: "mapE (raw_evidence c i) (sort_key ev_source (sources i)) = Inl x" by (auto simp: isl_def)
  then obtain e' where "e' \<in> set (sources i)" "raw_evidence c i e' = Inl x" using mapE_Inl_member by fastforce
  then show ?thesis using raw_evidence_unknown [OF assms] x by (auto simp: score_def Let_def)
qed

definition sample_evidence :: "string \<Rightarrow> string \<Rightarrow> f64 \<Rightarrow> source_evidence" where
  "sample_evidence src grp d = \<lparr>ev_source = src, ev_source_group = grp, ev_source_version = ''1.0.0'',
     ev_evidence_id = src, ev_source_timestamp = 0, ev_observation_timestamp = 0,
     ev_publication_timestamp = 0, ev_direction = d, ev_confidence = 1, ev_quality = 1, ev_risk = 0,
     ev_degraded = False, ev_reason_codes = []\<rparr>"

definition sample_input :: scoring_input where
  "sample_input = \<lparr>si_instrument = ''XAUUSD'', si_timeframe = ''M15'', si_as_of = 1000000,
     si_requested_at = 1000000, si_mode = SLive, si_market_data = None, si_market_regime = None,
     si_smc = Some (sample_evidence ''smc'' ''structure'' 1), si_liquidity = None,
     si_volume_profile = None,
     si_institutional_flow = Some (sample_evidence ''institutional_flow'' ''participation'' 1),
     si_economic_calendar = None\<rparr>"

lemma default_config_ok: "scoring_config_ok (default_scoring_config h)"
  unfolding scoring_config_ok_def default_scoring_config_def scoring_config.simps
  by (intro conjI; code_simp)

lemma sample_input_ok: "valid_input sample_input" "\<forall>e \<in> set (sources sample_input). ev_source e \<in> set required_sources"
  by code_simp+

theorem score_total_witness:
  "\<exists>s. score \<lparr>rt_uuid5 = (\<lambda>_ n. n), rt_sha256 = id, rt_float_repr = (\<lambda>_. [])\<rparr> (\<lambda>_ _ _ _. ''f'') (default_scoring_config ''h'') 0 sample_input = Inr s
     \<and> snapshot_ok s"
  using score_total [OF default_config_ok sample_input_ok(1), of "\<lparr>rt_uuid5 = (\<lambda>_ n. n), rt_sha256 = id, rt_float_repr = (\<lambda>_. [])\<rparr>" "\<lambda>_ _ _ _. ''f''" "''h''" 0]
    sample_input_ok(2) by (auto split: sum.split_asm)

text \<open>The snapshot depends on the clock only through \<open>calculated_at\<close>: two runs on
  the same input give the same snapshot up to that field, so a replay reproduces a live
  score exactly (the identifier included).\<close>

theorem score_replay_deterministic:
  "(case score rt digest c now1 i of
      Inl e \<Rightarrow> score rt digest c now2 i = Inl e
    | Inr s \<Rightarrow> score rt digest c now2 i = Inr (s\<lparr>ss_calculated_at := now2\<rparr>))"
  by (auto simp: score_def Let_def bindE_def make_snapshot_def snapshot_ok_def snapshot_values_def split: sum.splits)

subsection \<open>What a published snapshot says\<close>

lemma score_InrD:
  assumes "score rt digest c now i = Inr s"
  obtains components conflicts where
    "s = snapshot_values rt c (digest i (cf_policy_name c) (cf_policy_version c) (cf_configuration_hash c)) now i
       (sort_key ev_source (sources i)) components conflicts"
  using assms by (auto simp: score_def Let_def bindE_eq_Inr make_snapshot_def split: if_splits)

lemma snapshot_lists:
  "set (ss_missing_sources (snapshot_values rt c fp now i ev xs ys)) = fst ` set (cf_components c) - ev_source ` set ev"
  "set (ss_degraded_sources (snapshot_values rt c fp now i ev xs ys)) = ev_source ` {e \<in> set ev. ev_degraded e}"
  "ss_components (snapshot_values rt c fp now i ev xs ys) = xs"
  "ss_mode (snapshot_values rt c fp now i ev xs ys) = si_mode i"
  by (auto simp: snapshot_values_def Let_def)

lemma status_of_snapshot:
  "ss_status (snapshot_values rt c fp now i ev xs ys) =
     status_of c (si_mode i) xs (ss_missing_sources (snapshot_values rt c fp now i ev xs ys))
       (ss_degraded_sources (snapshot_values rt c fp now i ev xs ys)) (group_count c ev)"
  by (simp add: snapshot_values_def Let_def)

text \<open>\<open>READY\<close> is published exactly when the input is live, enough directional
  components from enough independent groups are present, no component is stale or expired,
  every configured source is present and no source is degraded.\<close>

theorem score_ready_iff:
  assumes "score rt digest c now i = Inr s"
  shows "ss_status s = SReady \<longleftrightarrow>
    si_mode i = SLive
    \<and> ep_minimum_components (cf_evidence c) \<le> int (length (filter (\<lambda>x. 0 < sc_configured_weight x \<and> sc_freshness_state x \<noteq> Expired) (ss_components s)))
    \<and> ep_minimum_independent_groups (cf_evidence c) \<le> int (group_count c (sort_key ev_source (sources i)))
    \<and> (\<forall>x \<in> set (ss_components s). \<not> stale_or_expired x)
    \<and> fst ` set (cf_components c) \<subseteq> ev_source ` set (sources i)
    \<and> (\<forall>e \<in> set (sources i). \<not> ev_degraded e)"
proof -
  obtain xs ys where s: "s = snapshot_values rt c (digest i (cf_policy_name c) (cf_policy_version c)
      (cf_configuration_hash c)) now i (sort_key ev_source (sources i)) xs ys"
    using assms by (rule score_InrD)
  have 1: "ss_missing_sources s = [] \<longleftrightarrow> fst ` set (cf_components c) \<subseteq> ev_source ` set (sources i)"
    unfolding s set_empty [symmetric] snapshot_lists by auto
  have 2: "ss_degraded_sources s = [] \<longleftrightarrow> (\<forall>e \<in> set (sources i). \<not> ev_degraded e)"
    unfolding s set_empty [symmetric] snapshot_lists by auto
  have m: "si_mode i \<noteq> SReplay \<longleftrightarrow> si_mode i = SLive" by (cases "si_mode i") auto
  show ?thesis
    unfolding 1 [symmetric] 2 [symmetric]
    by (auto simp: s status_of_snapshot snapshot_lists status_of_def Let_def list_ex_iff m)
qed

definition capped :: "bool \<Rightarrow> f64 \<Rightarrow> f64 \<Rightarrow> f64" where
  "capped p k x = (if p then min x k else x)"

lemma bounded_capped:
  assumes "0 \<le> a" "0 \<le> b" "0 \<le> k"
  shows "p \<Longrightarrow> bounded (capped r k (capped q b (capped p a x))) 0 hi \<le> a"
    and "q \<Longrightarrow> bounded (capped r k (capped q b (capped p a x))) 0 hi \<le> b"
    and "r \<Longrightarrow> bounded (capped r k (capped q b (capped p a x))) 0 hi \<le> k"
  using assms by (auto simp: bounded_def capped_def min_le_iff_disj)

lemma aggregate_confidence:
  "\<exists>x. ag_confidence (aggregate c ev xs ys dg g) =
     bounded (capped (list_ex stale_or_expired xs) (ep_stale_confidence_ceiling (cf_evidence c))
       (capped (dg \<noteq> []) (ep_degraded_confidence_ceiling (cf_evidence c))
         (capped (length ev \<le> 1) (ep_single_source_confidence_ceiling (cf_evidence c)) x))) 0 (fint 100)"
  unfolding aggregate_def Let_def capped_def aggregates.simps by (rule exI) (rule refl)

lemma aggregate_ceilings:
  assumes "evidence_policy_ok (cf_evidence c)"
  shows "length ev \<le> 1 \<Longrightarrow> ag_confidence (aggregate c ev xs ys dg g) \<le> ep_single_source_confidence_ceiling (cf_evidence c)"
    and "dg \<noteq> [] \<Longrightarrow> ag_confidence (aggregate c ev xs ys dg g) \<le> ep_degraded_confidence_ceiling (cf_evidence c)"
    and "list_ex stale_or_expired xs \<Longrightarrow> ag_confidence (aggregate c ev xs ys dg g) \<le> ep_stale_confidence_ceiling (cf_evidence c)"
proof -
  have nn: "0 \<le> ep_single_source_confidence_ceiling (cf_evidence c)"
    "0 \<le> ep_degraded_confidence_ceiling (cf_evidence c)" "0 \<le> ep_stale_confidence_ceiling (cf_evidence c)"
    using assms by (simp_all add: evidence_policy_ok_def in_range_def)
  obtain x where x: "ag_confidence (aggregate c ev xs ys dg g) =
     bounded (capped (list_ex stale_or_expired xs) (ep_stale_confidence_ceiling (cf_evidence c))
       (capped (dg \<noteq> []) (ep_degraded_confidence_ceiling (cf_evidence c))
         (capped (length ev \<le> 1) (ep_single_source_confidence_ceiling (cf_evidence c)) x))) 0 (fint 100)"
    using aggregate_confidence by blast
  show "length ev \<le> 1 \<Longrightarrow> ag_confidence (aggregate c ev xs ys dg g) \<le> ep_single_source_confidence_ceiling (cf_evidence c)"
    "dg \<noteq> [] \<Longrightarrow> ag_confidence (aggregate c ev xs ys dg g) \<le> ep_degraded_confidence_ceiling (cf_evidence c)"
    "list_ex stale_or_expired xs \<Longrightarrow> ag_confidence (aggregate c ev xs ys dg g) \<le> ep_stale_confidence_ceiling (cf_evidence c)"
    unfolding x by (rule bounded_capped [OF nn], assumption)+
qed

lemma snapshot_confidence:
  "ss_confidence_score (snapshot_values rt c fp now i ev xs ys) = round_nd (cf_output_precision c)
     (ag_confidence (aggregate c ev xs ys (ss_degraded_sources (snapshot_values rt c fp now i ev xs ys)) (group_count c ev)))"
  by (simp add: snapshot_values_def Let_def)

text \<open>The confidence ceilings of the evidence policy hold in every published
  snapshot (up to the output rounding, which is monotone): a single source, a degraded
  source, or a stale component caps the confidence whatever the other evidence says.\<close>

theorem score_confidence_ceilings:
  assumes "scoring_config_ok c" and "score rt digest c now i = Inr s"
  shows "(length (sources i) \<le> 1 \<longrightarrow> ss_confidence_score s
      \<le> round_nd (cf_output_precision c) (ep_single_source_confidence_ceiling (cf_evidence c)))
    \<and> ((\<exists>e \<in> set (sources i). ev_degraded e) \<longrightarrow> ss_confidence_score s
      \<le> round_nd (cf_output_precision c) (ep_degraded_confidence_ceiling (cf_evidence c)))
    \<and> ((\<exists>x \<in> set (ss_components s). stale_or_expired x) \<longrightarrow> ss_confidence_score s
      \<le> round_nd (cf_output_precision c) (ep_stale_confidence_ceiling (cf_evidence c)))"
proof -
  obtain xs ys where s: "s = snapshot_values rt c (digest i (cf_policy_name c) (cf_policy_version c)
      (cf_configuration_hash c)) now i (sort_key ev_source (sources i)) xs ys"
    using assms(2) by (rule score_InrD)
  have ok: "evidence_policy_ok (cf_evidence c)" using assms(1) by (simp add: scoring_config_ok_def)
  have 2: "ss_degraded_sources s \<noteq> []" if "e \<in> set (sources i)" "ev_degraded e" for e
  proof -
    have "ev_source e \<in> set (ss_degraded_sources s)" using that unfolding s snapshot_lists by auto
    then show ?thesis by auto
  qed
  have 3: "list_ex stale_or_expired xs" if "x \<in> set (ss_components s)" "stale_or_expired x" for x
    using that by (auto simp: s snapshot_lists list_ex_iff)
  show ?thesis
    using 2 3 unfolding s snapshot_confidence
    by (auto intro!: round_nd_mono aggregate_ceilings [OF ok] simp: snapshot_lists(3))
qed

theorem score_ready_iff_witness:
  "\<exists>s. score \<lparr>rt_uuid5 = (\<lambda>_ n. n), rt_sha256 = id, rt_float_repr = (\<lambda>_. [])\<rparr> (\<lambda>_ _ _ _. ''f'') (default_scoring_config ''h'') 0 sample_input = Inr s
     \<and> ss_status s \<noteq> SReady"
proof -
  obtain s where s: "score \<lparr>rt_uuid5 = (\<lambda>_ n. n), rt_sha256 = id, rt_float_repr = (\<lambda>_. [])\<rparr> (\<lambda>_ _ _ _. ''f'')
      (default_scoring_config ''h'') 0 sample_input = Inr s"
    using score_stages [OF default_config_ok sample_input_ok] by metis
  have "\<not> fst ` set (cf_components (default_scoring_config ''h'')) \<subseteq> ev_source ` set (sources sample_input)"
    by code_simp
  then show ?thesis using score_ready_iff [OF s] s by blast
qed

definition single_input :: scoring_input where
  "single_input = sample_input\<lparr>si_smc := None\<rparr>"

lemma single_input_ok: "valid_input single_input" "\<forall>e \<in> set (sources single_input). ev_source e \<in> set required_sources"
  by code_simp+

theorem score_confidence_ceilings_witness:
  "\<exists>s. score \<lparr>rt_uuid5 = (\<lambda>_ n. n), rt_sha256 = id, rt_float_repr = (\<lambda>_. [])\<rparr> (\<lambda>_ _ _ _. ''f'') (default_scoring_config ''h'') 0 single_input = Inr s
     \<and> ss_confidence_score s \<le> fint 35"
proof -
  obtain s where s: "score \<lparr>rt_uuid5 = (\<lambda>_ n. n), rt_sha256 = id, rt_float_repr = (\<lambda>_. [])\<rparr> (\<lambda>_ _ _ _. ''f'')
      (default_scoring_config ''h'') 0 single_input = Inr s"
    using score_stages [OF default_config_ok single_input_ok] by metis
  have 1: "length (sources single_input) \<le> 1" by code_simp
  have 2: "round_nd (cf_output_precision (default_scoring_config ''h''))
      (ep_single_source_confidence_ceiling (cf_evidence (default_scoring_config ''h''))) = fint 35"
    by code_simp
  show ?thesis using score_confidence_ceilings [OF default_config_ok s] s 1 unfolding 2 by blast
qed

subsection \<open>Labels\<close>

definition label_rank :: "directional_label \<Rightarrow> int" where
  "label_rank l = (case l of Strong_Bearish \<Rightarrow> - 3 | Bearish \<Rightarrow> - 2 | Slightly_Bearish \<Rightarrow> - 1 | Neutral \<Rightarrow> 0
     | Slightly_Bullish \<Rightarrow> 1 | Bullish \<Rightarrow> 2 | Strong_Bullish \<Rightarrow> 3)"

text \<open>The label is monotone in the score, and it is neutral exactly inside the
  closed band between the two innermost thresholds.\<close>

theorem label_of_monotone:
  assumes "label_thresholds_ok t" and "x \<le> y"
  shows "label_rank (label_of t x) \<le> label_rank (label_of t y)
    \<and> (label_of t x = Neutral \<longleftrightarrow> lt_slightly_bearish t \<le> x \<and> x \<le> lt_slightly_bullish t)"
proof -
  have "lt_strong_bearish t < lt_bearish t" "lt_bearish t < lt_slightly_bearish t"
    "lt_slightly_bearish t < lt_slightly_bullish t" "lt_slightly_bullish t < lt_bullish t"
    "lt_bullish t < lt_strong_bullish t"
    using assms(1) by (auto simp: label_thresholds_ok_def Let_def)
  then show ?thesis using assms(2) by (auto simp: label_of_def label_rank_def)
qed

theorem label_of_monotone_witness:
  "label_rank (label_of (cf_labels (default_scoring_config ''h'')) (fint 9))
     \<le> label_rank (label_of (cf_labels (default_scoring_config ''h'')) (fint 40))"
proof -
  have t: "label_thresholds_ok (cf_labels (default_scoring_config ''h''))"
    using default_config_ok [of "''h''"] by (simp add: scoring_config_ok_def)
  have "fint 9 \<le> fint 40" by (rule fint_mono) simp
  then show ?thesis using label_of_monotone [OF t] by blast
qed

end
