(* ===== verification/AI_Normalization.thy ===== *)
theory AI_Normalization
  imports AI_Scoring
begin

text \<open>
  \<open>ai_scoring_engine/normalization.py\<close>: turning a feature mapping of an upstream engine
  into bounded \<open>SourceEvidence\<close>. Feature values are Python objects (\<open>pyval\<close>); the text
  of a float or of a container is the parameter \<open>render\<close>.
\<close>

datatype pyval = PNone | PBool bool | PInt int | PFloat f64 | PStr string
  | PMap "(string \<times> pyval) list" | PList "pyval list"

type_synonym features = "(string \<times> pyval) list"

definition get_default :: "features \<Rightarrow> string \<Rightarrow> pyval \<Rightarrow> pyval" where
  "get_default f k d = (case map_of f k of None \<Rightarrow> d | Some v \<Rightarrow> v)"

definition get :: "features \<Rightarrow> string \<Rightarrow> pyval" where
  "get f k = get_default f k PNone"

fun truthy :: "pyval \<Rightarrow> bool" where
  "truthy PNone = False"
| "truthy (PBool b) = b"
| "truthy (PInt i) = (i \<noteq> 0)"
| "truthy (PFloat x) = (x \<noteq> 0)"
| "truthy (PStr s) = (s \<noteq> [])"
| "truthy (PMap m) = (m \<noteq> [])"
| "truthy (PList l) = (l \<noteq> [])"

fun py_str :: "(pyval \<Rightarrow> string) \<Rightarrow> pyval \<Rightarrow> string" where
  "py_str render (PStr s) = s"
| "py_str render PNone = ''None''"
| "py_str render (PBool b) = (if b then ''True'' else ''False'')"
| "py_str render (PInt i) = str_int i"
| "py_str render v = render v"

text \<open>\<open>_number\<close> (a bool is not a number), \<open>_mapping\<close>, \<open>_direction\<close>.\<close>

fun number :: "pyval \<Rightarrow> f64 \<Rightarrow> f64" where
  "number (PInt i) d = fint i"
| "number (PFloat x) d = x"
| "number _ d = d"

fun mapping :: "pyval \<Rightarrow> features" where
  "mapping (PMap m) = m"
| "mapping _ = []"

definition direction_of :: "(pyval \<Rightarrow> string) \<Rightarrow> pyval \<Rightarrow> f64" where
  "direction_of render v =
     (let text = py_lower (py_str render v) in
      if text \<in> {''bullish'', ''up'', ''uptrend'', ''positive'', ''buy_side'', ''accumulation''} then 1
      else if text \<in> {''bearish'', ''down'', ''downtrend'', ''negative'', ''sell_side'', ''distribution''} then - 1
      else 0)"

record normalized =
  nm_direction :: f64
  nm_confidence :: f64
  nm_quality :: f64
  nm_risk :: f64
  nm_reasons :: "string list"
  nm_degraded :: bool

text \<open>The branches of \<open>normalized_source\<close>, from the defaults it starts with.\<close>

definition normalized_values :: "(pyval \<Rightarrow> string) \<Rightarrow> string \<Rightarrow> features \<Rightarrow> normalized" where
  "normalized_values render source f =
    (let half = fl64 (1/2);
         base = \<lparr>nm_direction = 0, nm_confidence = half, nm_quality = half, nm_risk = 0,
                 nm_reasons = [''normalized_upstream_evidence''], nm_degraded = False\<rparr>
     in if source = ''market_regime'' then
       base\<lparr>nm_direction := number (get f ''net_directional_score'') (direction_of render (get f ''directional_bias'')),
         nm_confidence := number (get f ''confidence'') half,
         nm_quality := number (get f ''quality'') half,
         nm_risk := max (number (get f ''conflict'') 0)
           (if contains ''high'' (py_str render (get_default f ''volatility'' (PStr ''''))) then fl64 (75/100) else 0),
         nm_reasons := [''regime_'' @ py_str render (get_default f ''directional_bias'' (PStr ''neutral''))]\<rparr>
     else if source = ''smc'' then
       base\<lparr>nm_direction := direction_of render (get f ''current_structure_direction''),
         nm_confidence := number (get f ''smc_confidence'') half,
         nm_quality := number (get f ''smc_input_quality'') half,
         nm_reasons := [''structure_'' @ py_str render (get_default f ''current_structure_direction'' (PStr ''neutral''))]\<rparr>
     else if source = ''liquidity'' then
       (let above = number (get f ''liquidity_density_above'') 0; below = number (get f ''liquidity_density_below'') 0 in
        base\<lparr>nm_direction := (if above + below \<noteq> 0 then (above - below) / (above + below) else 0),
          nm_confidence := number (get f ''confidence'') half,
          nm_quality := number (get f ''data_quality'') half,
          nm_risk := (if truthy (get f ''latest_sweep'') \<or> truthy (get f ''latest_raid'') then fl64 (4/10) else fl64 (1/10)),
          nm_reasons := [''liquidity_distribution'']\<rparr>)
     else if source = ''volume_profile'' then
       base\<lparr>nm_direction := direction_of render (get (mapping (get f ''poc_migration'')) ''direction''),
         nm_confidence := number (get f ''confidence'') half,
         nm_quality := number (get (mapping (get f ''data_quality'')) ''overall'') (number (get f ''volume_concentration'') half),
         nm_risk := (if truthy (get f ''active_gaps'') then fl64 (2/10) else fl64 (5/100)),
         nm_reasons := [''profile_context'']\<rparr>
     else if source = ''institutional_flow'' then
       (let pressure = mapping (get f ''directional_pressure''); confidence = number (get pressure ''confidence'') half in
        base\<lparr>nm_direction := number (get pressure ''net_pressure'') 0,
          nm_confidence := confidence,
          nm_quality := number (get (mapping (get f ''quality'')) ''overall'') confidence,
          nm_risk := number (get f ''ambiguity'') (number (get pressure ''conflict'') 0),
          nm_reasons := [''directional_flow_pressure'']\<rparr>)
     else if source = ''economic_calendar'' then
       base\<lparr>nm_risk := number (get f ''risk_score'') 0,
         nm_confidence := number (get f ''relevance_score'') half,
         nm_quality := number (get f ''quality_score'') half,
         nm_reasons := [''event_risk_'' @ py_str render (get_default f ''risk_window_phase'' (PStr ''outside''))],
         nm_degraded := truthy (get f ''unavailable_context'')\<rparr>
     else base)"

definition normalized_source :: "(pyval \<Rightarrow> string) \<Rightarrow> string \<Rightarrow> string \<Rightarrow> features \<Rightarrow> instant \<Rightarrow> string \<Rightarrow> string \<Rightarrow> source_evidence" where
  "normalized_source render source grp f timestamp version evidence_id =
    (let n = normalized_values render source f in
     \<lparr>ev_source = source, ev_source_group = grp, ev_source_version = version, ev_evidence_id = evidence_id,
      ev_source_timestamp = timestamp, ev_observation_timestamp = timestamp, ev_publication_timestamp = timestamp,
      ev_direction = max (- 1) (min 1 (nm_direction n)),
      ev_confidence = max 0 (min 1 (nm_confidence n)),
      ev_quality = max 0 (min 1 (nm_quality n)),
      ev_risk = max 0 (min 1 (nm_risk n)),
      ev_degraded = nm_degraded n, ev_reason_codes = nm_reasons n\<rparr>)"

lemma minus_1_le_1: "(- 1 :: f64) \<le> 1"
  by (simp add: f64_order fval_arith)

text \<open>Whatever an upstream engine reports (missing keys, wrong types, values out of
  scale), normalization yields evidence inside every bound of \<open>SourceEvidence\<close>, stamped
  with the given time, with exactly one reason code, and only the economic calendar can be
  reported as degraded.\<close>

theorem normalized_source_valid:
  "valid_evidence (normalized_source render source grp f t version eid)
   \<and> ev_publication_timestamp (normalized_source render source grp f t version eid) = t
   \<and> ev_observation_timestamp (normalized_source render source grp f t version eid) = t
   \<and> length (ev_reason_codes (normalized_source render source grp f t version eid)) = 1
   \<and> (ev_degraded (normalized_source render source grp f t version eid) \<longleftrightarrow>
        source = ''economic_calendar'' \<and> truthy (get f ''unavailable_context''))"
  by (auto simp: normalized_source_def valid_evidence_def in_range_def fint_minus_1 Let_def minus_1_le_1 max_def)
    (auto simp: normalized_values_def Let_def split: if_splits)

lemma f64_uminus_divide: "(b - a) / c = - ((a - b) / (c :: f64))"
proof -
  have "fl (fval b - fval a) = - fl (fval a - fval b)"
    using fl_uminus [of "fval a - fval b"] by simp
  then show ?thesis by (simp add: fval_inject [symmetric] fval_arith fl_uminus)
qed

lemma f64_add_commute: "a + b = b + (a :: f64)"
  by (simp add: fval_inject [symmetric] fval_arith add.commute)

text \<open>The liquidity direction is antisymmetric, rounding included: exchanging the
  densities above and below the price flips its sign and nothing else it depends on.\<close>

theorem liquidity_direction_antisymmetric:
  "nm_direction (normalized_values render ''liquidity''
      [(''liquidity_density_above'', PFloat b), (''liquidity_density_below'', PFloat a)])
   = - nm_direction (normalized_values render ''liquidity''
      [(''liquidity_density_above'', PFloat a), (''liquidity_density_below'', PFloat b)])"
  using f64_uminus_divide [of b a "a + b"]
  by (simp add: normalized_values_def get_def get_default_def Let_def f64_add_commute [of b a]
      fval_inject [symmetric] fval_arith add.commute [of "fval b" "fval a"])

end
