(* ===== verification/Scenario_Models.thy ===== *)
theory Scenario_Models
  imports Prelude
begin

text \<open>
  The contracts of forward market scenarios (\<open>scenario_forecasting/models.py\<close>): price zones and
  geometry, the scenario of one timeframe, the combined scenario, and the outcome of an expired
  one. A validator of a model is the conjunction of the field bounds and of its
  \<open>model_validator\<close>; building a model that fails it raises.
\<close>

subsection \<open>Enumerations\<close>

datatype scenario_direction = Sc_Bullish | Sc_Bearish | Sc_Range | Sc_Inconclusive
datatype scenario_validity = Sv_Valid | Sv_Degraded | Sv_Invalid
datatype geometry_validity = Gv_Valid | Gv_Unavailable | Gv_Not_Executable
datatype outcome_status = Oc_Pending | Oc_Target_Reached | Oc_Direction_Correct | Oc_Partially_Correct
  | Oc_Range_Correct | Oc_Invalidated | Oc_Entry_Not_Reached | Oc_Expired | Oc_Inconclusive
datatype scenario_agreement = Ag_Aligned | Ag_Pullback_Compatible | Ag_Conflict | Ag_Inconclusive

definition scenario_direction_value :: "scenario_direction \<Rightarrow> string" where
  [enum_values]: "scenario_direction_value d = (case d of Sc_Bullish \<Rightarrow> ''BULLISH'' | Sc_Bearish \<Rightarrow> ''BEARISH''
     | Sc_Range \<Rightarrow> ''RANGE'' | Sc_Inconclusive \<Rightarrow> ''INCONCLUSIVE'')"

definition agreement_value :: "scenario_agreement \<Rightarrow> string" where
  [enum_values]: "agreement_value a = (case a of Ag_Aligned \<Rightarrow> ''ALIGNED'' | Ag_Pullback_Compatible \<Rightarrow> ''PULLBACK_COMPATIBLE''
     | Ag_Conflict \<Rightarrow> ''CONFLICT'' | Ag_Inconclusive \<Rightarrow> ''INCONCLUSIVE'')"

subsection \<open>Zones and geometry\<close>

record price_zone =
  pz_low :: f64
  pz_high :: f64

record scenario_geometry =
  ge_entry_zone :: price_zone
  ge_entry :: f64
  ge_stop_loss :: f64
  ge_take_profit :: f64
  ge_secondary_target :: "f64 option"
  ge_risk_reward_ratio :: f64
  ge_basis_fact_identifiers :: "string list"
  ge_validity :: geometry_validity
  ge_reason :: string

definition price_zone_ok :: "price_zone \<Rightarrow> bool" where
  "price_zone_ok z \<longleftrightarrow> 0 < pz_low z \<and> 0 < pz_high z \<and> pz_low z \<le> pz_high z"

text \<open>\<open>ScenarioGeometry.coherent\<close> and the bounds of the fields: the entry lies in its zone and
  strictly between the stop and the target.\<close>

definition geometry_ok :: "scenario_geometry \<Rightarrow> bool" where
  "geometry_ok g \<longleftrightarrow> price_zone_ok (ge_entry_zone g) \<and> 0 < ge_entry g \<and> 0 < ge_stop_loss g
     \<and> 0 < ge_take_profit g \<and> 0 < ge_risk_reward_ratio g
     \<and> opt_all (\<lambda>t. 0 < t) (ge_secondary_target g)
     \<and> ge_basis_fact_identifiers g \<noteq> [] \<and> ge_validity g = Gv_Valid
     \<and> ((ge_stop_loss g < ge_entry g \<and> ge_entry g < ge_take_profit g)
         \<or> (ge_take_profit g < ge_entry g \<and> ge_entry g < ge_stop_loss g))
     \<and> pz_low (ge_entry_zone g) \<le> ge_entry g \<and> ge_entry g \<le> pz_high (ge_entry_zone g)"

subsection \<open>Scenarios\<close>

record alternative_scenario =
  at_direction :: scenario_direction
  at_scenario_type :: string
  at_expected_path :: string
  at_probability :: f64
  at_invalidation :: string

definition alternative_ok :: "alternative_scenario \<Rightarrow> bool" where
  "alternative_ok a \<longleftrightarrow> in_range 0 1 (at_probability a)"

record forward_scenario =
  fm_scenario_id :: uuid
  fm_cycle_id :: uuid
  fm_market_state_id :: uuid
  fm_synthesis_id :: uuid
  fm_analysis_id :: uuid
  fm_quantitative_forecast_id :: uuid
  fm_instrument :: string
  fm_timeframe :: string
  fm_created_at :: instant
  fm_market_cutoff_time :: instant
  fm_reference_market_price :: f64
  fm_forecast_horizon_seconds :: int
  fm_primary_direction :: scenario_direction
  fm_scenario_type :: string
  fm_expected_price_path :: string
  fm_expected_range :: price_zone
  fm_expected_closing_zone :: price_zone
  fm_expected_move :: f64
  fm_expected_high :: f64
  fm_expected_low :: f64
  fm_entry_zone :: "price_zone option"
  fm_invalidation_level :: "f64 option"
  fm_protective_stop :: "f64 option"
  fm_primary_target :: "f64 option"
  fm_secondary_target :: "f64 option"
  fm_raw_directional_confidence :: f64
  fm_confidence :: f64
  fm_calibrated_probability :: "f64 option"
  fm_calibration_status :: string
  fm_evidence_strength :: f64
  fm_supporting_fact_ids :: "string list"
  fm_contradicting_fact_ids :: "string list"
  fm_narrative :: string
  fm_alternative_scenario :: alternative_scenario
  fm_expiry :: instant
  fm_scenario_validity :: scenario_validity
  fm_scenario_validity_reason :: string
  fm_execution_geometry_validity :: geometry_validity
  fm_geometry_rejection_reason :: "string option"
  fm_geometry :: "scenario_geometry option"
  fm_source_timeframe_cycle_id :: uuid

definition positive_opt :: "f64 option \<Rightarrow> bool" where
  "positive_opt x = opt_all (\<lambda>v. 0 < v) x"

definition no_text :: "string option \<Rightarrow> bool" where
  "no_text x \<longleftrightarrow> x = None \<or> x = Some []"

definition horizon_seconds :: "string \<Rightarrow> int" where
  "horizon_seconds tf = (if tf = ''M5'' then 300 else 900)"

text \<open>The bounds of the fields.\<close>

definition forward_fields_ok :: "forward_scenario \<Rightarrow> bool" where
  "forward_fields_ok s \<longleftrightarrow> fm_timeframe s \<in> {''M5'', ''M15''} \<and> 0 < fm_reference_market_price s
     \<and> 0 < fm_forecast_horizon_seconds s \<and> price_zone_ok (fm_expected_range s) \<and> price_zone_ok (fm_expected_closing_zone s)
     \<and> 0 \<le> fm_expected_move s \<and> 0 < fm_expected_high s \<and> 0 < fm_expected_low s
     \<and> opt_all price_zone_ok (fm_entry_zone s) \<and> positive_opt (fm_invalidation_level s) \<and> positive_opt (fm_protective_stop s)
     \<and> positive_opt (fm_primary_target s) \<and> positive_opt (fm_secondary_target s)
     \<and> in_range 0 1 (fm_raw_directional_confidence s) \<and> in_range 0 (fint 100) (fm_confidence s)
     \<and> opt_all (in_range 0 1) (fm_calibrated_probability s) \<and> in_range 0 (fint 100) (fm_evidence_strength s)
     \<and> alternative_ok (fm_alternative_scenario s) \<and> opt_all geometry_ok (fm_geometry s)"

text \<open>\<open>ForwardMarketScenario.point_in_time_and_geometry\<close>.\<close>

definition forward_coherent :: "forward_scenario \<Rightarrow> bool" where
  "forward_coherent s \<longleftrightarrow> fm_market_cutoff_time s \<le> fm_created_at s \<and> fm_market_cutoff_time s < fm_expiry s
     \<and> fm_forecast_horizon_seconds s = horizon_seconds (fm_timeframe s)
     \<and> pz_low (fm_expected_range s) = fm_expected_low s \<and> pz_high (fm_expected_range s) = fm_expected_high s
     \<and> pz_low (fm_expected_range s) \<le> fm_reference_market_price s \<and> fm_reference_market_price s \<le> pz_high (fm_expected_range s)
     \<and> (if fm_execution_geometry_validity s = Gv_Valid
        then fm_geometry s \<noteq> None \<and> fm_geometry_rejection_reason s = None
        else fm_geometry s = None \<and> \<not> no_text (fm_geometry_rejection_reason s))
     \<and> (fm_primary_direction s \<in> {Sc_Range, Sc_Inconclusive} \<longrightarrow> fm_geometry s = None)"

definition forward_scenario_ok :: "forward_scenario \<Rightarrow> bool" where
  "forward_scenario_ok s \<longleftrightarrow> forward_fields_ok s \<and> forward_coherent s"

record combined_scenario =
  cs_combined_scenario_id :: uuid
  cs_cycle_id :: uuid
  cs_instrument :: string
  cs_market_state_id :: uuid
  cs_m5_scenario_id :: uuid
  cs_m15_scenario_id :: uuid
  cs_created_at :: instant
  cs_market_cutoff_time :: instant
  cs_agreement :: scenario_agreement
  cs_combined_direction :: scenario_direction
  cs_expected_price_path :: string
  cs_confidence :: f64
  cs_scenario_validity :: scenario_validity
  cs_scenario_validity_reason :: string
  cs_execution_geometry_validity :: geometry_validity
  cs_geometry_rejection_reason :: "string option"
  cs_geometry :: "scenario_geometry option"
  cs_expiry :: instant

text \<open>\<open>CombinedForwardScenario.geometry_contract\<close> with the field bounds.\<close>

definition combined_scenario_ok :: "combined_scenario \<Rightarrow> bool" where
  "combined_scenario_ok s \<longleftrightarrow> in_range 0 (fint 100) (cs_confidence s) \<and> opt_all geometry_ok (cs_geometry s)
     \<and> cs_market_cutoff_time s < cs_expiry s
     \<and> (if cs_execution_geometry_validity s = Gv_Valid then cs_geometry s \<noteq> None \<and> cs_agreement s \<noteq> Ag_Conflict
        else cs_geometry s = None \<and> \<not> no_text (cs_geometry_rejection_reason s))"

subsection \<open>Outcomes\<close>

record scenario_outcome =
  so_outcome_id :: uuid
  so_scenario_id :: uuid
  so_evaluated_at :: instant
  so_completed_at :: instant
  so_status :: outcome_status
  so_actual_high :: f64
  so_actual_low :: f64
  so_actual_close :: f64
  so_maximum_favorable_excursion :: f64
  so_maximum_adverse_excursion :: f64
  so_entry_reached :: bool
  so_target_reached :: bool
  so_invalidation_occurred :: bool
  so_directional_accuracy :: f64
  so_target_error :: f64
  so_range_error :: f64
  so_high_prediction_error :: f64
  so_low_prediction_error :: f64
  so_close_prediction_error :: f64
  so_calibration_bucket :: string

definition scenario_outcome_ok :: "scenario_outcome \<Rightarrow> bool" where
  "scenario_outcome_ok x \<longleftrightarrow> 0 < so_actual_high x \<and> 0 < so_actual_low x \<and> 0 < so_actual_close x
     \<and> 0 \<le> so_maximum_favorable_excursion x \<and> 0 \<le> so_maximum_adverse_excursion x
     \<and> in_range 0 1 (so_directional_accuracy x) \<and> 0 \<le> so_target_error x \<and> 0 \<le> so_range_error x
     \<and> 0 \<le> so_high_prediction_error x \<and> 0 \<le> so_low_prediction_error x \<and> 0 \<le> so_close_prediction_error x"

end
