(* ===== verification/Forecast_Models.thy ===== *)
theory Forecast_Models
  imports Prelude
begin

text \<open>
  Contracts of the quantitative forecasts (\<open>quant_forecasting/models.py\<close>) and of the synthesized
  analytical signals (\<open>signal_synthesis/models.py\<close>).
\<close>

subsection \<open>Quantitative forecasts\<close>

datatype forecast_status = Fc_Available | Fc_Unavailable | Fc_Insufficient_History | Fc_Incompatible_Features | Fc_Failed
datatype feature_availability = Ft_Available | Ft_Unavailable | Ft_Degraded | Ft_Stale
datatype forecast_mode = Shadow | Forecast_Replay
datatype calibration_status = Uncalibrated | Calibrated | Cal_Stale | Cal_Unavailable
datatype forecast_unit = Decimal_Return | Percent | Price_Points | Normalized | Unknown_Unit

definition unit_value :: "forecast_unit \<Rightarrow> string" where
  [enum_values]: "unit_value u = (case u of Decimal_Return \<Rightarrow> ''decimal_return'' | Percent \<Rightarrow> ''percent''
     | Price_Points \<Rightarrow> ''price_points'' | Normalized \<Rightarrow> ''normalized'' | Unknown_Unit \<Rightarrow> ''unknown'')"

record forecast_horizon =
  ho_horizon_id :: string
  ho_timeframe :: string
  ho_candle_count :: int
  ho_duration_seconds :: int

definition timeframe_seconds :: "string \<Rightarrow> int option" where
  "timeframe_seconds tf = map_of [(''M5'', 300), (''M15'', 900)] tf"

definition horizon_ok :: "forecast_horizon \<Rightarrow> bool" where
  "horizon_ok h \<longleftrightarrow> 0 < ho_candle_count h \<and> 0 < ho_duration_seconds h
     \<and> (case timeframe_seconds (ho_timeframe h) of None \<Rightarrow> False
        | Some s \<Rightarrow> ho_duration_seconds h = s * ho_candle_count h)"

record quant_feature =
  qf_name :: string
  qf_value :: "json option"
  qf_availability :: feature_availability
  qf_source_evidence_ids :: "uuid list"
  qf_source_paths :: "string list"
  qf_reason_codes :: "string list"

definition quant_feature_ok :: "quant_feature \<Rightarrow> bool" where
  "quant_feature_ok f \<longleftrightarrow> (qf_availability f = Ft_Unavailable \<longrightarrow> qf_value f = None)"

record feature_vector =
  qv_schema_version :: string
  qv_vector_id :: uuid
  qv_market_state_id :: uuid
  qv_instrument :: string
  qv_point_in_time :: instant
  qv_features :: "quant_feature list"
  qv_created_at :: instant

definition feature_vector_ok :: "feature_vector \<Rightarrow> bool" where
  "feature_vector_ok v \<longleftrightarrow> list_all quant_feature_ok (qv_features v) \<and> qv_point_in_time v \<le> qv_created_at v
     \<and> distinct (map qf_name (qv_features v))"

record forecast_request =
  qr_schema_version :: string
  qr_request_id :: uuid
  qr_market_state_id :: uuid
  qr_cycle_id :: uuid
  qr_instrument :: string
  qr_point_in_time :: instant
  qr_requested_horizons :: "forecast_horizon list"
  qr_feature_schema_version :: string
  qr_model_name :: string
  qr_model_version :: string
  qr_mode :: forecast_mode
  qr_data_quality_status :: string
  qr_created_at :: instant

definition forecast_request_ok :: "forecast_request \<Rightarrow> bool" where
  "forecast_request_ok q \<longleftrightarrow> list_all horizon_ok (qr_requested_horizons q)
     \<and> distinct (map ho_horizon_id (qr_requested_horizons q)) \<and> qr_requested_horizons q \<noteq> []"

record uncertainty_interval =
  un_low :: f64
  un_high :: f64
  un_confidence_level :: f64

definition uncertainty_ok :: "uncertainty_interval \<Rightarrow> bool" where
  "uncertainty_ok u \<longleftrightarrow> 0 < un_confidence_level u \<and> un_confidence_level u < 1 \<and> un_low u \<le> un_high u"

record horizon_prediction =
  hp_horizon :: forecast_horizon
  hp_reference_price :: f64
  hp_buy_probability :: f64
  hp_sell_probability :: f64
  hp_neutral_probability :: f64
  hp_expected_return :: f64
  hp_expected_base_movement :: f64
  hp_expected_base_movement_unit :: forecast_unit
  hp_expected_minimum_movement :: f64
  hp_expected_maximum_movement :: f64
  hp_expected_volatility :: f64
  hp_expected_volatility_unit :: forecast_unit
  hp_expected_mfe :: f64
  hp_expected_mae :: f64
  hp_tp1_probability :: f64
  hp_tp2_probability :: f64
  hp_stop_loss_probability :: f64
  hp_sl_before_tp_probability :: f64
  hp_uncertainty_interval :: uncertainty_interval
  hp_transition_probabilities :: "(string \<times> f64) list"

definition prediction_bounds :: "horizon_prediction \<Rightarrow> bool" where
  "prediction_bounds p \<longleftrightarrow> horizon_ok (hp_horizon p) \<and> 0 < hp_reference_price p
     \<and> list_all (in_range 0 1) [hp_buy_probability p, hp_sell_probability p, hp_neutral_probability p,
         hp_tp1_probability p, hp_tp2_probability p, hp_stop_loss_probability p, hp_sl_before_tp_probability p]
     \<and> list_all (\<lambda>x. 0 \<le> x) [hp_expected_base_movement p, hp_expected_minimum_movement p, hp_expected_maximum_movement p,
         hp_expected_volatility p, hp_expected_mfe p, hp_expected_mae p]
     \<and> uncertainty_ok (hp_uncertainty_interval p)"

definition prediction_ok :: "horizon_prediction \<Rightarrow> bool" where
  "prediction_ok p \<longleftrightarrow> prediction_bounds p
     \<and> \<not> fl64 (1 / 10 ^ 8) < \<bar>hp_buy_probability p + hp_sell_probability p + hp_neutral_probability p - 1\<bar>
     \<and> hp_expected_minimum_movement p \<le> hp_expected_base_movement p
     \<and> hp_expected_base_movement p \<le> hp_expected_maximum_movement p
     \<and> (hp_transition_probabilities p = [] \<or>
        \<not> fl64 (1 / 10 ^ 8) < \<bar>py_sum (map snd (hp_transition_probabilities p)) - 1\<bar>)
     \<and> list_all (\<lambda>(_, v). \<not> (v < 0 \<or> 1 < v)) (hp_transition_probabilities p)"

record forecast_result =
  fq_schema_version :: string
  fq_result_id :: uuid
  fq_request_id :: uuid
  fq_market_state_id :: uuid
  fq_cycle_id :: uuid
  fq_instrument :: string
  fq_point_in_time :: instant
  fq_status :: forecast_status
  fq_mode :: forecast_mode
  fq_model_name :: string
  fq_model_version :: string
  fq_training_dataset_version :: string
  fq_feature_schema_version :: string
  fq_calibration_version :: string
  fq_model_kind :: string
  fq_calibration_status :: calibration_status
  fq_shadow_only :: bool
  fq_approved_for_publication :: bool
  fq_predictions :: "horizon_prediction list"
  fq_reason_codes :: "string list"
  fq_generated_at :: instant

definition forecast_result_ok :: "forecast_result \<Rightarrow> bool" where
  "forecast_result_ok q \<longleftrightarrow> list_all prediction_ok (fq_predictions q)
     \<and> fq_shadow_only q \<and> \<not> fq_approved_for_publication q
     \<and> (fq_status q = Fc_Available \<longrightarrow> fq_predictions q \<noteq> [])
     \<and> (fq_status q \<noteq> Fc_Available \<longrightarrow> fq_predictions q = [])"

subsection \<open>Synthesized signals\<close>

datatype analytical_direction = An_Buy | An_Sell
datatype analytical_strength = Very_Weak | Weak | Moderate | Strong | Very_Strong
datatype execution_eligibility = Xe_Eligible | Xe_Ineligible
datatype execution_status = Xs_Ready | Xs_Blocked

record directional_contribution =
  co_evidence_id :: uuid
  co_tool :: string
  co_timeframe :: string
  co_family :: string
  co_correlation_group :: string
  co_directional_contribution :: analytical_direction
  co_raw_value :: json
  co_normalized_score :: f64
  co_weight :: f64
  co_effective_weight :: f64
  co_weighted_score :: f64
  co_quality :: f64
  co_freshness :: f64
  co_correlated_discount :: f64
  co_reason :: string
  co_source_fact_identifiers :: "string list"

definition contribution_ok :: "directional_contribution \<Rightarrow> bool" where
  "contribution_ok c \<longleftrightarrow> in_range (- 1) 1 (co_normalized_score c) \<and> in_range (fint (- 100)) (fint 100) (co_weighted_score c)
     \<and> list_all (in_range 0 1) [co_weight c, co_effective_weight c, co_quality c, co_freshness c, co_correlated_discount c]"

record confidence_decomposition =
  cd_score_separation :: f64
  cd_independent_confluence :: f64
  cd_evidence_quality :: f64
  cd_evidence_freshness :: f64
  cd_evidence_completeness :: f64
  cd_timeframe_alignment :: f64
  cd_quant_ai_alignment :: f64
  cd_contradiction_penalty :: f64
  cd_missing_evidence_penalty :: f64
  cd_regime_suitability_penalty :: f64
  cd_final_confidence :: f64

definition decomposition_ok :: "confidence_decomposition \<Rightarrow> bool" where
  "decomposition_ok d \<longleftrightarrow> list_all (in_range 0 (fint 100)) [cd_score_separation d, cd_independent_confluence d,
     cd_evidence_quality d, cd_evidence_freshness d, cd_evidence_completeness d, cd_timeframe_alignment d,
     cd_quant_ai_alignment d, cd_contradiction_penalty d, cd_missing_evidence_penalty d,
     cd_regime_suitability_penalty d, cd_final_confidence d]"

record signal_geometry =
  sg_entry :: f64
  sg_stop_loss :: f64
  sg_take_profit :: f64
  sg_risk_reward_ratio :: f64
  sg_basis_fact_identifiers :: "string list"
  sg_source_timeframe :: "string option"
  sg_validated_market_price :: "f64 option"
  sg_maximum_entry_distance :: "f64 option"
  sg_validated_at :: "instant option"
  sg_expires_at :: "instant option"

definition signal_geometry_ok :: "signal_geometry \<Rightarrow> bool" where
  "signal_geometry_ok g \<longleftrightarrow> list_all (\<lambda>x. 0 < x) [sg_entry g, sg_stop_loss g, sg_take_profit g, sg_risk_reward_ratio g]
     \<and> 3 \<le> length (sg_basis_fact_identifiers g)
     \<and> opt_all (\<lambda>x. 0 < x) (sg_validated_market_price g) \<and> opt_all (\<lambda>x. 0 < x) (sg_maximum_entry_distance g)
     \<and> distinct [sg_entry g, sg_stop_loss g, sg_take_profit g]
     \<and> \<not> (\<exists>v \<in> set_option (sg_validated_at g). \<exists>e \<in> set_option (sg_expires_at g). e \<le> v)"

record timeframe_signal =
  tg_signal_id :: uuid
  tg_synthesis_id :: uuid
  tg_market_state_id :: uuid
  tg_analysis_id :: uuid
  tg_quantitative_forecast_id :: uuid
  tg_instrument :: string
  tg_timeframe :: string
  tg_analytical_direction :: analytical_direction
  tg_confidence :: f64
  tg_strength :: analytical_strength
  tg_bullish_score :: f64
  tg_bearish_score :: f64
  tg_expected_horizon :: string
  tg_evidence_breakdown :: "directional_contribution list"
  tg_confidence_decomposition :: confidence_decomposition
  tg_directional_thesis :: string
  tg_invalidation_conditions :: "string list"
  tg_execution_eligibility :: execution_eligibility
  tg_execution_status :: execution_status
  tg_blocking_reasons :: "string list"
  tg_geometry :: "signal_geometry option"
  tg_completed_at :: instant

definition timeframe_signal_ok :: "timeframe_signal \<Rightarrow> bool" where
  "timeframe_signal_ok s \<longleftrightarrow> tg_timeframe s \<in> {''M5'', ''M15'', ''COMBINED''} \<and> in_range 0 (fint 100) (tg_confidence s)
     \<and> 0 \<le> tg_bullish_score s \<and> 0 \<le> tg_bearish_score s \<and> tg_evidence_breakdown s \<noteq> []
     \<and> list_all contribution_ok (tg_evidence_breakdown s) \<and> decomposition_ok (tg_confidence_decomposition s)
     \<and> opt_all signal_geometry_ok (tg_geometry s)
     \<and> (if tg_execution_eligibility s = Xe_Eligible
        then tg_execution_status s = Xs_Ready \<and> tg_geometry s \<noteq> None \<and> tg_blocking_reasons s = []
        else tg_execution_status s = Xs_Blocked \<and> tg_blocking_reasons s \<noteq> [])"

record timeframe_contribution =
  tb_timeframe :: string
  tb_direction :: analytical_direction
  tb_confidence :: f64
  tb_structural_importance :: f64
  tb_evidence_quality :: f64
  tb_signed_contribution :: f64
  tb_explanation :: string

definition timeframe_contribution_ok :: "timeframe_contribution \<Rightarrow> bool" where
  "timeframe_contribution_ok c \<longleftrightarrow> tb_timeframe c \<in> {''M5'', ''M15''} \<and> in_range 0 (fint 100) (tb_confidence c)
     \<and> 0 < tb_structural_importance c \<and> tb_structural_importance c \<le> 1 \<and> in_range 0 1 (tb_evidence_quality c)
     \<and> in_range (fint (- 100)) (fint 100) (tb_signed_contribution c)"

record signal_set =
  sy_synthesis_id :: uuid
  sy_cycle_id :: uuid
  sy_market_state_id :: uuid
  sy_analysis_id :: uuid
  sy_quantitative_forecast_id :: uuid
  sy_instrument :: string
  sy_market_timestamp :: instant
  sy_timeframe_signals :: "timeframe_signal list"
  sy_combined_signal :: timeframe_signal
  sy_timeframe_contributions :: "timeframe_contribution list"
  sy_engine_version :: string
  sy_configuration_version :: string
  sy_created_at :: instant

definition signal_set_ok :: "signal_set \<Rightarrow> bool" where
  "signal_set_ok s \<longleftrightarrow> list_all timeframe_signal_ok (sy_timeframe_signals s) \<and> timeframe_signal_ok (sy_combined_signal s)
     \<and> list_all timeframe_contribution_ok (sy_timeframe_contributions s)
     \<and> map tg_timeframe (sy_timeframe_signals s) = [''M5'', ''M15'']
     \<and> tg_timeframe (sy_combined_signal s) = ''COMBINED''
     \<and> map tb_timeframe (sy_timeframe_contributions s) = [''M5'', ''M15'']"

definition strength_for :: "f64 \<Rightarrow> f64 \<Rightarrow> f64 \<Rightarrow> f64 \<Rightarrow> f64 \<Rightarrow> analytical_strength" where
  "strength_for very_weak weak moderate strong c =
     (if c < very_weak then Very_Weak else if c < weak then Weak else if c < moderate then Moderate
      else if c < strong then Strong else Very_Strong)"

end
