(* ===== verification/Market_Data.thy ===== *)
theory Market_Data
  imports Prelude
begin

text \<open>
  Candles and their validation (\<open>engines/market_data_engine/models.py\<close>, \<open>config.py\<close> and
  \<open>validation.py\<close>).

  Timestamps of a candle are its open boundaries, in UTC. A day of the UTC calendar is its number
  since 1970-01-01. Texts are ASCII. \<open>MarketDataValidator.validate\<close> raises
  \<open>MarketDataValidationError\<close> or returns a report; the current time is an argument.
\<close>

subsection \<open>Symbols, timeframes and candles\<close>

datatype bar_timeframe = Tf_M1 | Tf_M5 | Tf_M15 | Tf_M30 | Tf_H1 | Tf_H4 | Tf_D1

definition bar_timeframe_value :: "bar_timeframe \<Rightarrow> string" where
  [enum_values]: "bar_timeframe_value t = (case t of Tf_M1 \<Rightarrow> ''M1'' | Tf_M5 \<Rightarrow> ''M5'' | Tf_M15 \<Rightarrow> ''M15''
     | Tf_M30 \<Rightarrow> ''M30'' | Tf_H1 \<Rightarrow> ''H1'' | Tf_H4 \<Rightarrow> ''H4'' | Tf_D1 \<Rightarrow> ''D1'')"

definition duration :: "bar_timeframe \<Rightarrow> timedelta" where
  "duration t = seconds_td (60 * (case t of Tf_M1 \<Rightarrow> 1 | Tf_M5 \<Rightarrow> 5 | Tf_M15 \<Rightarrow> 15 | Tf_M30 \<Rightarrow> 30
     | Tf_H1 \<Rightarrow> 60 | Tf_H4 \<Rightarrow> 240 | Tf_D1 \<Rightarrow> 1440))"

datatype quality_level = Native | Verified | Recovered | Interpolated | Minor_Anomaly | Major_Anomaly | Corrupted

datatype market_data_error = Symbol_Error | Market_Data_Validation string

definition is_space :: "char \<Rightarrow> bool" where
  "is_space c \<longleftrightarrow> (let n = of_char c :: nat in 9 \<le> n \<and> n \<le> 13 \<or> 28 \<le> n \<and> n \<le> 32)"

definition is_alnum :: "char \<Rightarrow> bool" where
  "is_alnum c \<longleftrightarrow> (let n = of_char c :: nat in 48 \<le> n \<and> n \<le> 57 \<or> 65 \<le> n \<and> n \<le> 90 \<or> 97 \<le> n \<and> n \<le> 122)"

definition strip :: "string \<Rightarrow> string" where
  "strip s = rev (dropWhile is_space (rev (dropWhile is_space s)))"

definition canonical_symbol :: "string \<Rightarrow> market_data_error + string" where
  "canonical_symbol s =
     (let n = filter (\<lambda>c. c \<notin> set ''/-_'') (py_upper (strip s))
      in if n = [] \<or> \<not> list_all is_alnum n then Inl Symbol_Error else Inr n)"

record candle =
  ck_timestamp :: instant
  ck_symbol :: string
  ck_timeframe :: bar_timeframe
  ck_open :: f64
  ck_high :: f64
  ck_low :: f64
  ck_close :: f64
  ck_volume :: f64
  ck_spread :: f64
  ck_provider :: string
  ck_quality_score :: f64
  ck_quality_level :: quality_level
  ck_ingestion_timestamp :: instant

text \<open>The bounds of the fields, \<open>normalize_symbol\<close> and \<open>validate_values\<close>; every \<open>f64\<close> is finite.\<close>

definition candle_ok :: "candle \<Rightarrow> bool" where
  "candle_ok c \<longleftrightarrow> canonical_symbol (ck_symbol c) \<noteq> Inl Symbol_Error \<and> py_upper (ck_symbol c) = ck_symbol c
     \<and> 0 < ck_open c \<and> 0 < ck_high c \<and> 0 < ck_low c \<and> 0 < ck_close c
     \<and> max (ck_open c) (ck_close c) \<le> ck_high c \<and> ck_low c \<le> min (ck_open c) (ck_close c) \<and> ck_low c \<le> ck_high c
     \<and> 0 \<le> ck_volume c \<and> 0 \<le> ck_spread c \<and> in_range 0 (fint 100) (ck_quality_score c)"

definition close_of :: "candle \<Rightarrow> instant" where
  "close_of c = ck_timestamp c + duration (ck_timeframe c)"

subsection \<open>Configuration, anomalies and reports\<close>

record validation_config =
  vc_future_tolerance_seconds :: int
  vc_clock_drift_tolerance_seconds :: int
  vc_clock_drift_recency_window_seconds :: int
  vc_gap_tolerance_multiplier :: f64
  vc_volatility_spike_multiplier :: f64
  vc_minimum_quality_score :: f64
  vc_cross_source_tolerance :: f64
  vc_cross_source_quarantine_tolerance :: f64

definition validation_config_ok :: "validation_config \<Rightarrow> bool" where
  "validation_config_ok c \<longleftrightarrow> 0 \<le> vc_future_tolerance_seconds c \<and> 0 \<le> vc_clock_drift_tolerance_seconds c
     \<and> 1 \<le> vc_clock_drift_recency_window_seconds c \<and> 1 \<le> vc_gap_tolerance_multiplier c
     \<and> 1 < vc_volatility_spike_multiplier c \<and> in_range 0 (fint 100) (vc_minimum_quality_score c)
     \<and> 0 < vc_cross_source_tolerance c \<and> 0 < vc_cross_source_quarantine_tolerance c"

definition default_validation_config :: validation_config where
  "default_validation_config = \<lparr>vc_future_tolerance_seconds = 5, vc_clock_drift_tolerance_seconds = 30,
     vc_clock_drift_recency_window_seconds = 3600, vc_gap_tolerance_multiplier = fl64 (3 / 2),
     vc_volatility_spike_multiplier = fint 8, vc_minimum_quality_score = fint 60,
     vc_cross_source_tolerance = fl64 (1 / 100), vc_cross_source_quarantine_tolerance = fl64 (1 / 20)\<rparr>"

datatype anomaly_type = An_Future_Timestamp | An_Duplicate | An_Non_Monotonic | An_Out_Of_Order | An_Missing_Candle
  | An_Market_Gap | An_Weekend_Gap | An_Holiday_Gap | An_Clock_Drift | An_Volatility_Spike | An_Provider_Inconsistency

record anomaly =
  an_type :: anomaly_type
  an_timestamp :: instant
  an_severity :: int
  an_detail :: string
  an_missing_count :: int

definition anomaly_ok :: "anomaly \<Rightarrow> bool" where
  "anomaly_ok a \<longleftrightarrow> 1 \<le> an_severity a \<and> an_severity a \<le> 3 \<and> 0 \<le> an_missing_count a"

record validation_report =
  vr_candles :: "candle list"
  vr_anomalies :: "anomaly list"
  vr_valid :: bool

subsection \<open>Gaps\<close>

text \<open>\<open>date()\<close> as a day number, \<open>weekday()\<close> with Monday 0 (1970-01-01 was a Thursday).\<close>

definition day_td :: timedelta where "day_td = seconds_td 86400"

definition day_of :: "instant \<Rightarrow> int" where "day_of t = t div day_td"

definition weekday :: "instant \<Rightarrow> int" where "weekday t = (day_of t + 3) mod 7"

lemma day_td_pos [simp]: "0 < day_td"
  by (simp add: day_td_def seconds_td_def)

lemma day_of_next [simp]: "day_of (t + day_td) = day_of t + 1"
  by (simp add: day_of_def day_td_def seconds_td_def)

text \<open>The \<open>while\<close> loop of \<open>_gap_type\<close>: it moves the cursor by one day until a holiday is found or the
  end is passed.\<close>

function holiday_between :: "int list \<Rightarrow> instant \<Rightarrow> instant \<Rightarrow> bool" where
  "holiday_between holidays cursor stop =
     (if day_of cursor \<le> day_of stop then
        (if day_of cursor \<in> set holidays then True else holiday_between holidays (cursor + day_td) stop)
      else False)"
  by auto
termination by (relation "measure (\<lambda>(_, cursor, stop). nat (day_of stop + 1 - day_of cursor))") auto

declare holiday_between.simps [simp del]

definition gap_type :: "int list \<Rightarrow> instant \<Rightarrow> instant \<Rightarrow> anomaly_type" where
  "gap_type holidays start stop =
     (if holiday_between holidays (start + day_td) stop then An_Holiday_Gap
      else if 4 \<le> weekday start \<and> weekday stop \<le> 1 then An_Weekend_Gap else An_Market_Gap)"

definition missing_candles :: "candle \<Rightarrow> candle \<Rightarrow> int" where
  "missing_candles p c =
     max 1 (trunc_int (int_truediv (ck_timestamp c - ck_timestamp p) (duration (ck_timeframe c))) - 1)"

subsection \<open>Validation of a series\<close>

text \<open>\<open>statistics.median\<close> of a non-empty list.\<close>

definition py_median :: "f64 list \<Rightarrow> f64" where
  "py_median xs = (let s = sort xs; n = length xs in
     if n mod 2 = 1 then s ! (n div 2) else (s ! (n div 2 - 1) + s ! (n div 2)) / fint 2)"

definition price_range :: "candle \<Rightarrow> f64" where
  "price_range c = ck_high c - ck_low c"

type_synonym candle_key = "string \<times> bar_timeframe \<times> instant"

definition key_of :: "candle \<Rightarrow> candle_key" where
  "key_of c = (ck_symbol c, ck_timeframe c, ck_timestamp c)"

text \<open>A float is compared with an int exactly.\<close>

definition drift_anomalies :: "validation_config \<Rightarrow> instant \<Rightarrow> candle \<Rightarrow> anomaly list" where
  "drift_anomalies cfg now c =
     (if fval (total_seconds (now - ck_timestamp c)) \<le> of_int (vc_clock_drift_recency_window_seconds cfg) then
        (let drift = \<bar>total_seconds (ck_ingestion_timestamp c - ck_timestamp c)\<bar>
         in if of_int (vc_clock_drift_tolerance_seconds cfg) < fval drift
            then [\<lparr>an_type = An_Clock_Drift, an_timestamp = ck_timestamp c, an_severity = 1,
                   an_detail = ''ingestion clock drift '' @ fmt_fixed 3 drift @ ''s'', an_missing_count = 0\<rparr>]
            else [])
      else [])"

definition gap_anomalies :: "int list \<Rightarrow> candle \<Rightarrow> candle \<Rightarrow> anomaly list" where
  "gap_anomalies holidays p c =
     (let expected = ck_timestamp p + duration (ck_timeframe c)
      in if expected < ck_timestamp c then
           (let n = missing_candles p c; k = gap_type holidays (ck_timestamp p) (ck_timestamp c)
            in [\<lparr>an_type = k, an_timestamp = expected, an_severity = (if k \<in> {An_Weekend_Gap, An_Holiday_Gap} then 1 else 2),
                 an_detail = str_int n @ '' expected candle(s) absent'', an_missing_count = n\<rparr>])
         else [])"

definition spike_anomalies :: "validation_config \<Rightarrow> f64 \<Rightarrow> candle \<Rightarrow> anomaly list" where
  "spike_anomalies cfg typical c =
     (if 0 < typical \<and> typical * vc_volatility_spike_multiplier cfg < price_range c
      then [\<lparr>an_type = An_Volatility_Spike, an_timestamp = ck_timestamp c, an_severity = 2,
             an_detail = ''range exceeded deterministic spike threshold'', an_missing_count = 0\<rparr>]
      else [])"

text \<open>One pass of the loop: the checks that raise, then the anomalies of the candle.\<close>

definition check_candle :: "validation_config \<Rightarrow> int list \<Rightarrow> instant \<Rightarrow> f64 \<Rightarrow> candle_key list \<Rightarrow> candle option
    \<Rightarrow> candle \<Rightarrow> market_data_error + anomaly list" where
  "check_candle cfg holidays now typical seen prev c =
     (if key_of c \<in> set seen then Inl (Market_Data_Validation (''duplicate candle at '' @ isoformat (ck_timestamp c)))
      else if now + seconds_td (vc_future_tolerance_seconds cfg) < ck_timestamp c
      then Inl (Market_Data_Validation (''future candle at '' @ isoformat (ck_timestamp c)))
      else (case prev of
          None \<Rightarrow> Inr (drift_anomalies cfg now c @ spike_anomalies cfg typical c)
        | Some p \<Rightarrow>
            if ck_timestamp c \<le> ck_timestamp p
            then Inl (Market_Data_Validation (''non-monotonic candle at '' @ isoformat (ck_timestamp c)))
            else Inr (drift_anomalies cfg now c @ gap_anomalies holidays p c @ spike_anomalies cfg typical c)))"

fun check_series :: "validation_config \<Rightarrow> int list \<Rightarrow> instant \<Rightarrow> f64 \<Rightarrow> candle_key list \<Rightarrow> candle option
    \<Rightarrow> candle list \<Rightarrow> market_data_error + anomaly list" where
  "check_series cfg holidays now typical seen prev [] = Inr []"
| "check_series cfg holidays now typical seen prev (c # cs) =
     bindE (check_candle cfg holidays now typical seen prev c) (\<lambda>xs.
     bindE (check_series cfg holidays now typical (key_of c # seen) (Some c) cs) (\<lambda>ys. Inr (xs @ ys)))"

definition severity_grade :: "int \<Rightarrow> f64 \<times> quality_level" where
  "severity_grade n = (if n = 1 then (fint 80, Minor_Anomaly) else if n = 2 then (fint 60, Major_Anomaly)
     else (fint 40, Corrupted))"

definition with_quality :: "candle \<Rightarrow> f64 \<times> quality_level \<Rightarrow> candle" where
  "with_quality c g = c\<lparr>ck_quality_score := fst g, ck_quality_level := snd g\<rparr>"

text \<open>\<open>score\<close>, with its three flags.\<close>

definition score_candle :: "candle \<Rightarrow> anomaly list \<Rightarrow> bool \<Rightarrow> bool \<Rightarrow> bool \<Rightarrow> candle" where
  "score_candle c xs recovered interpolated verified =
     (if interpolated then with_quality c (fint 90, Interpolated)
      else if recovered then with_quality c (fint 95, Recovered)
      else if verified then with_quality c (fint 98, Verified)
      else if xs = [] \<and> ck_quality_level c \<noteq> Native then c
      else if xs = [] then with_quality c (fint 100, Native)
      else with_quality c (severity_grade (Max (an_severity ` set xs))))"

definition validate :: "validation_config \<Rightarrow> int list \<Rightarrow> instant \<Rightarrow> candle list \<Rightarrow> market_data_error + validation_report" where
  "validate cfg holidays now cs =
     (if cs = [] then Inr \<lparr>vr_candles = [], vr_anomalies = [], vr_valid = True\<rparr>
      else bindE (check_series cfg holidays now (py_median (map price_range cs)) [] None cs) (\<lambda>xs.
        Inr \<lparr>vr_candles = map (\<lambda>c. score_candle c (filter (\<lambda>a. an_timestamp a = ck_timestamp c) xs) False False False) cs,
             vr_anomalies = xs, vr_valid = \<not> list_ex (\<lambda>a. an_severity a = 3) xs\<rparr>))"

subsection \<open>Comparison of two sources\<close>

text \<open>\<open>format(x, ".4%")\<close> multiplies by 100 in floating point.\<close>

definition fmt_percent :: "f64 \<Rightarrow> string" where
  "fmt_percent x = fmt_fixed 4 (x * fint 100) @ ''%''"

definition deviation :: "candle \<Rightarrow> candle \<Rightarrow> f64" where
  "deviation c p = \<bar>ck_close c - ck_close p\<bar> / max (ck_close c) (ck_close p)"

text \<open>\<open>{item.timestamp: item for item in secondary}\<close>: the last candle of a timestamp.\<close>

definition peer_of :: "candle list \<Rightarrow> candle \<Rightarrow> candle option" where
  "peer_of others c = find (\<lambda>p. ck_timestamp p = ck_timestamp c) (rev others)"

definition compare_candle :: "f64 \<Rightarrow> f64 \<Rightarrow> candle list \<Rightarrow> candle \<Rightarrow> anomaly list \<times> instant list" where
  "compare_candle tol quarantine others c = (case peer_of others c of
     None \<Rightarrow> ([], [])
   | Some p \<Rightarrow>
       let d = deviation c p in
       if quarantine < d then
         ([\<lparr>an_type = An_Provider_Inconsistency, an_timestamp = ck_timestamp c, an_severity = 3,
            an_detail = ''quarantined: '' @ ck_provider c @ '' close deviates '' @ fmt_percent d @ '' from '' @ ck_provider p
              @ '' (exceeds '' @ fmt_percent quarantine @ '')'', an_missing_count = 1\<rparr>], [ck_timestamp c])
       else if tol < d then
         ([\<lparr>an_type = An_Provider_Inconsistency, an_timestamp = ck_timestamp c, an_severity = 2,
            an_detail = ck_provider c @ '' close differs from '' @ ck_provider p @ '' by '' @ fmt_percent d,
            an_missing_count = 0\<rparr>], [])
       else ([], []))"

definition compare_sources :: "validation_config \<Rightarrow> candle list \<Rightarrow> candle list \<Rightarrow> f64 option \<Rightarrow> f64 option
    \<Rightarrow> anomaly list \<times> instant list" where
  "compare_sources cfg primary others tol quarantine =
     (let t = (case tol of Some x \<Rightarrow> x | None \<Rightarrow> vc_cross_source_tolerance cfg);
          q = (case quarantine of Some x \<Rightarrow> x | None \<Rightarrow> vc_cross_source_quarantine_tolerance cfg);
          rs = map (compare_candle t q others) primary
      in (concat (map fst rs), concat (map snd rs)))"

subsection \<open>Gaps and days\<close>

lemma duration_pos [simp]: "0 < duration t"
  by (simp add: duration_def seconds_td_def split: bar_timeframe.split)

lemma holiday_between_iff:
  "holiday_between holidays cursor stop \<longleftrightarrow> (\<exists>d \<in> set holidays. day_of cursor \<le> d \<and> d \<le> day_of stop)"
proof (induction holidays cursor stop rule: holiday_between.induct)
  case (1 holidays cursor stop)
  show ?case
  proof (cases "day_of cursor \<le> day_of stop \<and> day_of cursor \<notin> set holidays")
    case True
    then have "holiday_between holidays cursor stop \<longleftrightarrow> (\<exists>d \<in> set holidays. day_of cursor + 1 \<le> d \<and> d \<le> day_of stop)"
      using 1 by (subst holiday_between.simps) simp
    moreover have "(day_of cursor + 1 \<le> d) = (day_of cursor \<le> d)" if "d \<in> set holidays" for d
      using True that by (metis add1_zle_eq order_le_less)
    ultimately show ?thesis by blast
  next
    case False
    then show ?thesis by (subst holiday_between.simps) auto
  qed
qed

lemma gap_type_range: "gap_type hs a b \<in> {An_Holiday_Gap, An_Weekend_Gap, An_Market_Gap}"
  by (simp add: gap_type_def)

lemma missing_exact:
  assumes k: "ck_timestamp c - ck_timestamp p = k * duration (ck_timeframe c)" "1 < k" "k \<le> 2 ^ 53"
  shows "missing_candles p c = k - 1"
proof -
  have "duration (ck_timeframe c) \<noteq> 0" using duration_pos [of "ck_timeframe c"] by linarith
  then have "int_truediv (k * duration (ck_timeframe c)) (duration (ck_timeframe c)) = fl64 (of_int k)"
    by (simp add: int_truediv_def)
  then have "trunc_int (int_truediv (k * duration (ck_timeframe c)) (duration (ck_timeframe c))) = k"
    using k by (simp add: trunc_int_def fval_fl64 fl_of_int)
  then show ?thesis using k by (simp add: missing_candles_def)
qed

subsection \<open>The loop of \<open>validate\<close>\<close>

text \<open>What the loop collects when it does not raise.\<close>

fun series_anomalies :: "validation_config \<Rightarrow> int list \<Rightarrow> instant \<Rightarrow> f64 \<Rightarrow> candle option \<Rightarrow> candle list \<Rightarrow> anomaly list" where
  "series_anomalies cfg holidays now typical prev [] = []"
| "series_anomalies cfg holidays now typical prev (c # cs) =
     drift_anomalies cfg now c @ (case prev of None \<Rightarrow> [] | Some p \<Rightarrow> gap_anomalies holidays p c)
     @ spike_anomalies cfg typical c @ series_anomalies cfg holidays now typical (Some c) cs"

definition follows :: "candle option \<Rightarrow> candle list \<Rightarrow> bool" where
  "follows prev cs \<longleftrightarrow> (case prev of None \<Rightarrow> True | Some p \<Rightarrow> \<forall>c \<in> set cs. ck_timestamp p < ck_timestamp c)"

definition seen_before :: "candle_key list \<Rightarrow> candle option \<Rightarrow> bool" where
  "seen_before seen prev \<longleftrightarrow> (\<forall>k \<in> set seen. \<exists>p. prev = Some p \<and> snd (snd k) \<le> ck_timestamp p)"

definition timely :: "validation_config \<Rightarrow> instant \<Rightarrow> candle list \<Rightarrow> bool" where
  "timely cfg now cs \<longleftrightarrow> (\<forall>c \<in> set cs. ck_timestamp c \<le> now + seconds_td (vc_future_tolerance_seconds cfg))"

lemma check_series_iff:
  assumes "seen_before seen prev"
  shows "check_series cfg hs now typ seen prev cs = Inr xs \<longleftrightarrow>
    sorted_wrt (<) (map ck_timestamp cs) \<and> timely cfg now cs \<and> follows prev cs
    \<and> xs = series_anomalies cfg hs now typ prev cs"
  using assms
proof (induction cs arbitrary: seen prev xs)
  case Nil
  then show ?case by (auto simp: timely_def follows_def split: option.split)
next
  case (Cons c cs)
  let ?as = "drift_anomalies cfg now c @ (case prev of None \<Rightarrow> [] | Some p \<Rightarrow> gap_anomalies hs p c)
    @ spike_anomalies cfg typ c"
  have key: "key_of c \<notin> set seen" "seen_before (key_of c # seen) (Some c)" if "follows prev [c]"
    using Cons.prems that by (fastforce simp: seen_before_def key_of_def follows_def)+
  have one: "check_candle cfg hs now typ seen prev c = Inr as \<longleftrightarrow> follows prev [c] \<and> timely cfg now [c] \<and> as = ?as" for as
  proof
    assume "check_candle cfg hs now typ seen prev c = Inr as"
    then show "follows prev [c] \<and> timely cfg now [c] \<and> as = ?as"
      by (auto simp: check_candle_def follows_def timely_def split: if_split_asm option.split_asm option.split)
  next
    assume "follows prev [c] \<and> timely cfg now [c] \<and> as = ?as"
    then show "check_candle cfg hs now typ seen prev c = Inr as"
      using key(1) by (auto simp: check_candle_def follows_def timely_def split: option.split)
  qed
  have split: "(sorted_wrt (<) (map ck_timestamp (c # cs)) \<and> timely cfg now (c # cs) \<and> follows prev (c # cs))
      = (follows prev [c] \<and> timely cfg now [c] \<and> sorted_wrt (<) (map ck_timestamp cs) \<and> timely cfg now cs \<and> follows (Some c) cs)"
    by (auto simp: follows_def timely_def split: option.splits)
  show ?case
    using Cons.IH [OF key(2)] unfolding conj_assoc [symmetric] split [unfolded conj_assoc [symmetric]]
    by (auto simp: bindE_eq_Inr one)
qed

lemma validate_iff:
  assumes "cs \<noteq> []"
  shows "validate cfg hs now cs = Inr r \<longleftrightarrow> sorted_wrt (<) (map ck_timestamp cs) \<and> timely cfg now cs
    \<and> (let xs = series_anomalies cfg hs now (py_median (map price_range cs)) None cs
       in r = \<lparr>vr_candles = map (\<lambda>c. score_candle c (filter (\<lambda>a. an_timestamp a = ck_timestamp c) xs) False False False) cs,
             vr_anomalies = xs, vr_valid = \<not> list_ex (\<lambda>a. an_severity a = 3) xs\<rparr>)"
  using assms check_series_iff [of "[]" None cfg hs now _ cs]
  by (auto simp: validate_def Let_def bindE_eq_Inr seen_before_def follows_def)

lemma validate_anomalies: "validate cfg hs now cs = Inr r
   \<Longrightarrow> vr_anomalies r = series_anomalies cfg hs now (py_median (map price_range cs)) None cs"
  by (cases "cs = []") (auto simp: validate_iff Let_def, auto simp: validate_def)

lemma severities:
  "a \<in> set (series_anomalies cfg hs now typ prev cs) \<Longrightarrow> an_severity a \<in> {1, 2} \<and> 0 \<le> an_missing_count a"
  by (induction cs arbitrary: prev)
    (auto simp: drift_anomalies_def gap_anomalies_def spike_anomalies_def missing_candles_def Let_def
      split: if_split_asm option.split_asm)

definition same_data :: "candle \<Rightarrow> candle \<Rightarrow> bool" where
  "same_data c d \<longleftrightarrow> d = with_quality c (ck_quality_score d, ck_quality_level d)"

lemma same_data_score: "same_data c (score_candle c xs a b v)"
  by (auto simp: same_data_def score_candle_def with_quality_def)

lemma same_data_time: "same_data c d \<Longrightarrow> ck_timestamp d = ck_timestamp c"
  unfolding same_data_def with_quality_def by (metis candle.select_convs(1) candle.surjective candle.update_convs(11,12))

text \<open>A series is accepted exactly when its timestamps strictly increase and none is further in
  the future than the tolerance; otherwise the validation error is raised. An accepted series comes back with the same candles in the same
  order, only their quality replaced, and the report is always valid: no anomaly of this pass has
  severity 3.\<close>

theorem validate_succeeds_iff:
  "((\<exists>r. validate cfg hs now cs = Inr r) \<longleftrightarrow> sorted_wrt (<) (map ck_timestamp cs)
      \<and> list_all (\<lambda>c. ck_timestamp c \<le> now + seconds_td (vc_future_tolerance_seconds cfg)) cs)
   \<and> (case validate cfg hs now cs of
        Inl e \<Rightarrow> e \<noteq> Symbol_Error
      | Inr r \<Rightarrow> vr_valid r \<and> list_all2 same_data cs (vr_candles r))"
proof (cases "cs = []")
  case True
  then show ?thesis by (simp add: validate_def)
next
  case False
  have raised: "e \<noteq> Symbol_Error" if "validate cfg hs now cs = Inl e" for e
  proof -
    have "check_series cfg hs now ty seen prev ds = Inl e \<Longrightarrow> e \<noteq> Symbol_Error" for ty seen prev ds
      by (induction ds arbitrary: seen prev)
        (auto simp: bindE_def check_candle_def split: sum.split_asm if_split_asm option.split_asm)
    then show ?thesis using that False by (auto simp: validate_def bindE_def split: sum.split_asm)
  qed
  have "vr_valid r \<and> list_all2 same_data cs (vr_candles r)" if "validate cfg hs now cs = Inr r" for r
    using that severities
    by (fastforce simp: validate_iff [OF False] Let_def list_ex_iff list_all2_map2 same_data_score list_all2_same)
  then show ?thesis
    using raised validate_iff [OF False, of cfg hs now]
    by (auto simp: timely_def list_all_iff Let_def split: sum.split)
qed

text \<open>A gap of an accepted series lies strictly between two neighbours.\<close>

lemma gap_between:
  assumes "sorted_wrt (<) (map ck_timestamp cs)" "follows prev cs"
    "a \<in> set (series_anomalies cfg hs now typ prev cs)"
    "an_type a \<in> {An_Market_Gap, An_Weekend_Gap, An_Holiday_Gap}"
  shows "(\<forall>c \<in> set cs. ck_timestamp c \<noteq> an_timestamp a) \<and> (\<forall>p. prev = Some p \<longrightarrow> ck_timestamp p < an_timestamp a)"
  using assms
proof (induction cs arbitrary: prev)
  case (Cons c cs)
  have later: "ck_timestamp c < ck_timestamp d" if "d \<in> set cs" for d using Cons.prems(1) that by simp
  have "a \<in> set (series_anomalies cfg hs now typ (Some c) cs)
      \<or> (\<exists>p. prev = Some p \<and> a \<in> set (gap_anomalies hs p c))"
    using Cons.prems(3,4)
    by (auto simp: drift_anomalies_def spike_anomalies_def Let_def split: if_split_asm option.split_asm)
  then show ?case
  proof
    assume "a \<in> set (series_anomalies cfg hs now typ (Some c) cs)"
    moreover have "follows (Some c) cs" using later by (simp add: follows_def)
    ultimately have "(\<forall>d \<in> set cs. ck_timestamp d \<noteq> an_timestamp a) \<and> ck_timestamp c < an_timestamp a"
      using Cons.IH [of "Some c"] Cons.prems(1,4) by simp
    then show ?thesis using Cons.prems(2) by (auto simp: follows_def)
  next
    assume "\<exists>p. prev = Some p \<and> a \<in> set (gap_anomalies hs p c)"
    then obtain p where p: "prev = Some p" "a \<in> set (gap_anomalies hs p c)" by blast
    then have "ck_timestamp p < an_timestamp a \<and> an_timestamp a < ck_timestamp c"
      using duration_pos [of "ck_timeframe c"] by (auto simp: gap_anomalies_def Let_def split: if_split_asm)
    then show ?thesis using later p by fastforce
  qed
qed simp

text \<open>The gap anomalies of an accepted series never lower the quality of a candle: they carry
  the timestamp of an absent candle, which no candle of the series has.\<close>

theorem gaps_do_not_score:
  assumes "validate cfg hs now cs = Inr r" "a \<in> set (vr_anomalies r)"
    "an_type a \<in> {An_Market_Gap, An_Weekend_Gap, An_Holiday_Gap}"
  shows "an_timestamp a \<notin> ck_timestamp ` set cs"
proof -
  have "cs \<noteq> []" using assms by (auto simp: validate_def)
  then show ?thesis
    using assms gap_between [of cs None a cfg hs now] by (force simp: validate_iff Let_def follows_def)
qed

text \<open>A gap is put down to a holiday exactly when some configured holiday lies after the day
  of the last candle and not after the day of the next one; otherwise to a weekend exactly when the
  last candle is of a Friday, Saturday or Sunday and the next of a Monday or Tuesday, however many
  weeks lie between them.\<close>

theorem gap_type_classifies:
  "gap_type holidays start stop =
     (if \<exists>d \<in> set holidays. day_of start < d \<and> d \<le> day_of stop then An_Holiday_Gap
      else if weekday start \<in> {4, 5, 6} \<and> weekday stop \<in> {0, 1} then An_Weekend_Gap else An_Market_Gap)"
proof -
  have "weekday t \<in> {0..<7}" for t by (simp add: weekday_def)
  then have w: "4 \<le> weekday start \<longleftrightarrow> weekday start \<in> {4, 5, 6}" "weekday stop \<le> 1 \<longleftrightarrow> weekday stop \<in> {0, 1}"
    using atLeastLessThan_iff by (smt (verit) insert_iff empty_iff)+
  have "holiday_between holidays (start + day_td) stop \<longleftrightarrow> (\<exists>d \<in> set holidays. day_of start < d \<and> d \<le> day_of stop)"
    unfolding holiday_between_iff by (simp add: zless_iff_Suc_zadd add1_zle_eq)
  then show ?thesis unfolding gap_type_def w by simp
qed

subsection \<open>Accounting of missing candles\<close>

abbreviation missing_total :: "anomaly list \<Rightarrow> int" where
  "missing_total xs \<equiv> sum_list (map an_missing_count xs)"

text \<open>A series of one timeframe on the grid of its open boundaries, within the years of \<open>datetime\<close>.\<close>

definition on_boundaries :: "bar_timeframe \<Rightarrow> candle \<Rightarrow> bool" where
  "on_boundaries tf c \<longleftrightarrow> ck_timeframe c = tf \<and> duration tf dvd ck_timestamp c
     \<and> 0 \<le> ck_timestamp c \<and> ck_timestamp c < 253402300800000000"

lemma no_missing [simp]:
  "missing_total (drift_anomalies cfg now c) = 0" "missing_total (spike_anomalies cfg ty c) = 0"
  by (simp_all add: drift_anomalies_def spike_anomalies_def Let_def)

lemma gap_missing:
  assumes "on_boundaries tf p" "on_boundaries tf c" "ck_timestamp p < ck_timestamp c"
  shows "missing_total (gap_anomalies hs p c) = (ck_timestamp c - ck_timestamp p) div duration tf - 1"
proof -
  have D: "0 < duration tf" "60000000 \<le> duration tf" by (simp_all add: duration_def seconds_td_def split: bar_timeframe.split)
  obtain i j where ij: "ck_timestamp p = duration tf * i" "ck_timestamp c = duration tf * j"
    using assms(1,2) unfolding on_boundaries_def by (meson dvdE)
  define k where "k = j - i"
  have k: "ck_timestamp c - ck_timestamp p = k * duration tf" by (simp add: k_def ij algebra_simps)
  have "0 < k * duration tf" "k * duration tf < 253402300800000000"
    using assms by (simp_all add: k [symmetric] on_boundaries_def)
  then have pos: "0 < k" using D(1) zero_less_mult_pos2 by blast
  have "k * 60000000 \<le> k * duration tf" using D(2) pos by (intro mult_left_mono) simp_all
  then have "k * 60000000 < 253402300800000000" using \<open>k * duration tf < 253402300800000000\<close> by linarith
  then have bound: "k \<le> 2 ^ 53" by simp
  have tf: "ck_timeframe c = tf" using assms by (simp add: on_boundaries_def)
  have "ck_timestamp p + duration tf < ck_timestamp c \<longleftrightarrow> duration tf < k * duration tf"
    using k by linarith
  also have "\<dots> \<longleftrightarrow> 1 < k" using D by (simp add: mult_less_cancel_right1 less_le_not_le) 
  finally have gap: "ck_timestamp p + duration tf < ck_timestamp c \<longleftrightarrow> 1 < k" .
  have "(ck_timestamp c - ck_timestamp p) div duration tf = k" using D k by simp
  then show ?thesis
    using gap pos missing_exact [of c p k] k bound tf by (auto simp: gap_anomalies_def Let_def)
qed

lemma missing_total_step:
  assumes "sorted_wrt (<) (map ck_timestamp (p # cs))" "list_all (on_boundaries tf) (p # cs)"
  shows "int (length cs) + missing_total (series_anomalies cfg hs now ty (Some p) cs)
    = (ck_timestamp (last (p # cs)) - ck_timestamp p) div duration tf"
  using assms
proof (induction cs arbitrary: p)
  case (Cons c cs)
  have g: "missing_total (gap_anomalies hs p c) = (ck_timestamp c - ck_timestamp p) div duration tf - 1"
    using Cons.prems by (intro gap_missing) auto
  have rest: "int (length cs) + missing_total (series_anomalies cfg hs now ty (Some c) cs)
      = (ck_timestamp (last (c # cs)) - ck_timestamp c) div duration tf"
    using Cons.prems by (intro Cons.IH) auto
  have dv: "duration tf dvd ck_timestamp c - ck_timestamp p"
    using Cons.prems by (simp add: on_boundaries_def)
  have "(ck_timestamp (last (c # cs)) - ck_timestamp p) div duration tf
      = (ck_timestamp (last (c # cs)) - ck_timestamp c) div duration tf + (ck_timestamp c - ck_timestamp p) div duration tf"
    using div_plus_div_distrib_dvd_right [OF dv, of "ck_timestamp (last (c # cs)) - ck_timestamp c"] by simp
  then show ?case using g rest by simp
qed simp

text \<open>On a series of one timeframe whose candles lie on the grid of open boundaries, the candles
  present and the candles reported missing add up to the number of slots from the first to the last
  candle.\<close>

theorem gap_accounting:
  assumes "validate cfg hs now cs = Inr r" "cs \<noteq> []" "list_all (on_boundaries tf) cs"
  shows "int (length (vr_candles r)) + missing_total (vr_anomalies r)
    = (ck_timestamp (last cs) - ck_timestamp (hd cs)) div duration tf + 1"
proof -
  obtain c ds where cs: "cs = c # ds" using assms(2) by (cases cs) auto
  have "sorted_wrt (<) (map ck_timestamp cs)" "length (vr_candles r) = length cs"
    using assms(1,2) by (auto simp: validate_iff Let_def)
  then show ?thesis
    using missing_total_step [of c ds tf cfg hs now] assms validate_anomalies [OF assms(1)] by (simp add: cs)
qed

subsection \<open>Clock drift\<close>

lemma total_seconds_ge: "seconds_td n \<le> d \<Longrightarrow> \<bar>n\<bar> \<le> 2 ^ 53 \<Longrightarrow> fint n \<le> total_seconds d"
  and total_seconds_le: "d \<le> seconds_td n \<Longrightarrow> \<bar>n\<bar> \<le> 2 ^ 53 \<Longrightarrow> total_seconds d \<le> fint n"
proof -
  have q: "(of_int n :: rat) = of_int (seconds_td n) / of_int 1000000" by (simp add: seconds_td_def)
  assume n: "\<bar>n\<bar> \<le> 2 ^ 53"
  then have f: "fint n = fl64 (of_int (seconds_td n) / of_int 1000000)"
    unfolding q [symmetric] by (simp add: fint_def)
  show "seconds_td n \<le> d \<Longrightarrow> fint n \<le> total_seconds d" "d \<le> seconds_td n \<Longrightarrow> total_seconds d \<le> fint n"
    unfolding f total_seconds_def int_truediv_def by (intro fl64_mono divide_right_mono; simp)+
qed

lemma total_seconds_nonneg: "0 \<le> d \<Longrightarrow> 0 \<le> total_seconds d"
  using total_seconds_ge [of 0 d] by (simp add: seconds_td_def)

lemma Max_severity:
  assumes "b \<in> set xs" "\<forall>x \<in> set xs. an_severity x \<in> {1, 2}"
  shows "Max (an_severity ` set xs) \<in> {1, 2}"
proof -
  have "Max (an_severity ` set xs) \<in> an_severity ` set xs" using assms(1) by (intro Max_in) auto
  then show ?thesis using assms(2) by auto
qed

lemma drift_listed: "c \<in> set cs \<Longrightarrow> b \<in> set (drift_anomalies cfg now c) \<Longrightarrow> b \<in> set (series_anomalies cfg hs now ty prev cs)"
  by (induction cs arbitrary: prev) auto

text \<open>Under the default configuration every candle fetched after its close and at most an hour
  after its open boundary is reported with a clock drift and graded a minor or major anomaly: the
  drift is measured from the open boundary, so it contains the duration of the candle, and no
  duration is below the tolerance of thirty seconds.\<close>

theorem closed_candles_drift:
  assumes "validate default_validation_config hs now cs = Inr r" "c \<in> set cs"
    "close_of c \<le> ck_ingestion_timestamp c" "now - ck_timestamp c \<le> seconds_td 3600"
  shows "(\<exists>a \<in> set (vr_anomalies r). an_type a = An_Clock_Drift \<and> an_timestamp a = ck_timestamp c)
    \<and> (\<exists>d \<in> set (vr_candles r). same_data c d \<and> ck_quality_level d \<in> {Minor_Anomaly, Major_Anomaly})"
proof -
  let ?xs = "series_anomalies default_validation_config hs now (py_median (map price_range cs)) None cs"
  have "60000000 \<le> duration (ck_timeframe c)" by (simp add: duration_def seconds_td_def split: bar_timeframe.split)
  then have d: "60000000 \<le> ck_ingestion_timestamp c - ck_timestamp c" using assms(3) by (simp add: close_of_def)
  have "fint 60 \<le> total_seconds (ck_ingestion_timestamp c - ck_timestamp c)"
    using d by (intro total_seconds_ge) (simp_all add: seconds_td_def)
  then have "60 \<le> fval \<bar>total_seconds (ck_ingestion_timestamp c - ck_timestamp c)\<bar>"
    by (simp add: f64_order fval_fint fval_arith)
  moreover have "fval (total_seconds (now - ck_timestamp c)) \<le> 3600"
    using total_seconds_le [OF assms(4)] by (simp add: f64_order fval_fint)
  ultimately have "drift_anomalies default_validation_config now c \<noteq> []"
    by (simp add: drift_anomalies_def default_validation_config_def Let_def)
  then obtain b where b: "b \<in> set (drift_anomalies default_validation_config now c)" by (cases "drift_anomalies default_validation_config now c") auto
  then have bt: "an_type b = An_Clock_Drift" "an_timestamp b = ck_timestamp c"
    by (auto simp: drift_anomalies_def Let_def split: if_split_asm)
  have bx: "b \<in> set ?xs" using drift_listed [OF assms(2) b] .
  let ?at = "filter (\<lambda>a. an_timestamp a = ck_timestamp c) ?xs"
  have m: "Max (an_severity ` set ?at) \<in> {1, 2}"
    using bx bt severities by (intro Max_severity [of b]) fastforce+
  have "?at \<noteq> []" using bx bt by (auto simp: filter_empty_conv)
  then have "ck_quality_level (score_candle c ?at False False False) \<in> {Minor_Anomaly, Major_Anomaly}"
    using m by (auto simp: score_candle_def with_quality_def severity_grade_def)
  moreover have "score_candle c ?at False False False \<in> set (vr_candles r)" "vr_anomalies r = ?xs"
  proof -
    have "cs \<noteq> []" using assms(2) by auto
    then show "score_candle c ?at False False False \<in> set (vr_candles r)" "vr_anomalies r = ?xs"
      using assms(1,2) by (auto simp: validate_iff Let_def)
  qed
  ultimately show ?thesis using bx bt same_data_score by metis
qed

subsection \<open>Cross-source comparison\<close>

definition quarantine_limit :: "validation_config \<Rightarrow> f64 option \<Rightarrow> f64" where
  "quarantine_limit cfg q = (case q of Some x \<Rightarrow> x | None \<Rightarrow> vc_cross_source_quarantine_tolerance cfg)"

lemma compare_candle_cases:
  "snd (compare_candle t q others c) = (case peer_of others c of
      Some p \<Rightarrow> (if q < deviation c p then [ck_timestamp c] else []) | None \<Rightarrow> [])"
  "a \<in> set (fst (compare_candle t q others c)) \<Longrightarrow> an_timestamp a = ck_timestamp c
     \<and> (an_severity a = 3 \<longleftrightarrow> ck_timestamp c \<in> set (snd (compare_candle t q others c)))"
  by (auto simp: compare_candle_def Let_def split: option.splits if_split_asm)

lemma quarantine_facts:
  assumes "compare_sources cfg primary others tol quarantine = (as, qs)"
  shows "t \<in> set qs \<longleftrightarrow> (\<exists>c \<in> set primary. \<exists>p. ck_timestamp c = t \<and> peer_of others c = Some p
      \<and> quarantine_limit cfg quarantine < deviation c p)"
    and "list_all (\<lambda>a. an_severity a = 3 \<longrightarrow> an_timestamp a \<in> set qs) as"
    and "list_all (\<lambda>c. \<forall>p. peer_of others c = Some p \<longrightarrow> deviation c p \<le> quarantine_limit cfg quarantine)
      (filter (\<lambda>c. ck_timestamp c \<notin> set qs) primary)"
proof -
  define T where "T = (case tol of Some x \<Rightarrow> x | None \<Rightarrow> vc_cross_source_tolerance cfg)"
  define Q where "Q = quarantine_limit cfg quarantine"
  have e: "as = concat (map (\<lambda>c. fst (compare_candle T Q others c)) primary)"
    "qs = concat (map (\<lambda>c. snd (compare_candle T Q others c)) primary)"
    using assms by (auto simp: compare_sources_def Let_def T_def Q_def quarantine_limit_def comp_def)
  show q: "t \<in> set qs \<longleftrightarrow> (\<exists>c \<in> set primary. \<exists>p. ck_timestamp c = t \<and> peer_of others c = Some p
      \<and> quarantine_limit cfg quarantine < deviation c p)" for t
    by (auto simp: e(2) compare_candle_cases(1) Q_def [symmetric] split: option.splits if_split_asm) metis+
  have "an_timestamp a \<in> set qs" if "a \<in> set as" "an_severity a = 3" for a
  proof -
    obtain c where c: "c \<in> set primary" "a \<in> set (fst (compare_candle T Q others c))" using \<open>a \<in> set as\<close> unfolding e(1) by auto
    then have "an_timestamp a \<in> set (snd (compare_candle T Q others c))"
      using compare_candle_cases(2) [OF c(2)] that(2) by simp
    then show ?thesis using c(1) e(2) by auto
  qed
  then show "list_all (\<lambda>a. an_severity a = 3 \<longrightarrow> an_timestamp a \<in> set qs) as" by (simp add: list_all_iff)
  show "list_all (\<lambda>c. \<forall>p. peer_of others c = Some p \<longrightarrow> deviation c p \<le> quarantine_limit cfg quarantine)
      (filter (\<lambda>c. ck_timestamp c \<notin> set qs) primary)"
    using q by (force simp: list_all_iff not_less)
qed

text \<open>A timestamp is quarantined exactly when a primary candle of it has a peer in the other source
  whose close deviates by more than the quarantine tolerance; the anomalies of severity 3 are those
  of the quarantined timestamps, and after dropping them the two sources agree within the tolerance
  on every timestamp they share.\<close>

theorem quarantine_spec:
  assumes "compare_sources cfg primary others tol quarantine = (as, qs)"
  shows "(\<forall>t. t \<in> set qs \<longleftrightarrow> (\<exists>c \<in> set primary. \<exists>p. ck_timestamp c = t \<and> peer_of others c = Some p
      \<and> quarantine_limit cfg quarantine < deviation c p))
    \<and> list_all (\<lambda>a. an_severity a = 3 \<longrightarrow> an_timestamp a \<in> set qs) as
    \<and> list_all (\<lambda>c. \<forall>p. peer_of others c = Some p \<longrightarrow> deviation c p \<le> quarantine_limit cfg quarantine)
      (filter (\<lambda>c. ck_timestamp c \<notin> set qs) primary)"
  using quarantine_facts [OF assms] by blast

subsection \<open>Symbols\<close>

lemma upper_char_idem: "upper_char (upper_char c) = upper_char c"
proof -
  have "(97 :: nat) \<le> of_char c \<Longrightarrow> of_char c \<le> (122 :: nat) \<Longrightarrow> \<not> CHR ''a'' \<le> char_of (of_char c - 32 :: nat)"
    by (simp add: less_eq_char_def)
  then show ?thesis by (auto simp: upper_char_def less_eq_char_def)
qed

lemma strip_id: "list_all is_alnum s \<Longrightarrow> strip s = s"
proof -
  have sp: "is_alnum c \<Longrightarrow> \<not> is_space c" for c by (auto simp: is_alnum_def is_space_def Let_def)
  have d: "list_all is_alnum s \<Longrightarrow> dropWhile is_space s = s" for s using sp by (cases s) auto
  assume "list_all is_alnum s"
  then show ?thesis using d [of s] d [of "rev s"] by (simp add: strip_def)
qed

text \<open>Canonical symbols are fixed points of the canonicalization, and the separators and the
  letter case of a symbol do not matter.\<close>

theorem canonical_symbol_idempotent:
  assumes "canonical_symbol s = Inr t"
  shows "canonical_symbol t = Inr t \<and> canonical_symbol (py_upper s) = canonical_symbol s"
proof -
  let ?n = "filter (\<lambda>c. c \<notin> set ''/-_'') (py_upper (strip s))"
  have t: "t = ?n" "t \<noteq> []" "list_all is_alnum t"
    using assms by (auto simp: canonical_symbol_def Let_def split: if_split_asm)
  have "py_upper t = t"
    using upper_char_idem by (auto simp: t(1) py_upper_def map_idI filter_map)
  moreover have "filter (\<lambda>c. c \<notin> set ''/-_'') t = t" by (simp add: t(1))
  ultimately have idem: "canonical_symbol t = Inr t"
    using t(2,3) by (simp add: canonical_symbol_def strip_id Let_def)
  have "is_space (upper_char c) \<longleftrightarrow> is_space c" for c
    by (auto simp: upper_char_def is_space_def less_eq_char_def Let_def)
  then have "dropWhile is_space (py_upper s) = py_upper (dropWhile is_space s)" for s
    by (simp add: py_upper_def dropWhile_map comp_def)
  then have "strip (py_upper s) = py_upper (strip s)"
    by (simp add: strip_def py_upper_def rev_map)
  then have "canonical_symbol (py_upper s) = canonical_symbol s"
    unfolding canonical_symbol_def py_upper_def by (simp add: upper_char_idem comp_def)
  with idem show ?thesis ..
qed

subsection \<open>The hypotheses can hold\<close>

definition sample_candle :: "int \<Rightarrow> int \<Rightarrow> candle" where
  "sample_candle minute price = \<lparr>ck_timestamp = seconds_td (60 * minute), ck_symbol = ''XAU/USD'', ck_timeframe = Tf_M5,
     ck_open = fint price, ck_high = fint (price + 2), ck_low = fint (price - 2), ck_close = fint price,
     ck_volume = 0, ck_spread = 0, ck_provider = ''p'', ck_quality_score = fint 100, ck_quality_level = Native,
     ck_ingestion_timestamp = seconds_td (60 * minute + 301)\<rparr>"

abbreviation sample_series :: "candle list" where
  "sample_series \<equiv> [sample_candle 0 2000, sample_candle 5 2001, sample_candle 20 2002]"

definition sample_report :: validation_report where
  "sample_report = (case validate default_validation_config [] (seconds_td 1501) sample_series of
     Inr r \<Rightarrow> r | Inl _ \<Rightarrow> \<lparr>vr_candles = [], vr_anomalies = [], vr_valid = False\<rparr>)"

lemma sample_validate: "validate default_validation_config [] (seconds_td 1501) sample_series = Inr sample_report"
proof -
  have "isl (validate default_validation_config [] (seconds_td 1501) sample_series) = False"
    "list_all candle_ok sample_series" by code_simp+
  then show ?thesis by (auto simp: sample_report_def isl_def split: sum.split)
qed

theorem validate_succeeds_iff_witness:
  "vr_valid sample_report \<and> list_all2 same_data sample_series (vr_candles sample_report)"
  using validate_succeeds_iff [of default_validation_config "[]" "seconds_td 1501" sample_series] sample_validate by simp

theorem gaps_do_not_score_witness:
  "\<exists>a. a \<in> set (vr_anomalies sample_report) \<and> an_type a = An_Market_Gap
     \<and> an_timestamp a \<notin> ck_timestamp ` set sample_series"
proof -
  have "list_ex (\<lambda>a. an_type a = An_Market_Gap) (vr_anomalies sample_report)" by code_simp
  then obtain a where "a \<in> set (vr_anomalies sample_report)" "an_type a = An_Market_Gap" by (auto simp: list_ex_iff)
  then show ?thesis using gaps_do_not_score [OF sample_validate, of a] by auto
qed

theorem gap_accounting_witness:
  "int (length (vr_candles sample_report)) + missing_total (vr_anomalies sample_report) = 5"
proof -
  have "list_all (on_boundaries Tf_M5) sample_series"
    by (simp add: on_boundaries_def sample_candle_def duration_def seconds_td_def)
  then show ?thesis
    using gap_accounting [OF sample_validate, of Tf_M5] by (simp add: sample_candle_def duration_def seconds_td_def)
qed

theorem closed_candles_drift_witness:
  "\<exists>d \<in> set (vr_candles sample_report). ck_timestamp d = seconds_td 1200 \<and> ck_quality_level d \<in> {Minor_Anomaly, Major_Anomaly}"
proof -
  have "close_of (sample_candle 20 2002) \<le> ck_ingestion_timestamp (sample_candle 20 2002)"
    "seconds_td 1501 - ck_timestamp (sample_candle 20 2002) \<le> seconds_td 3600"
    by (simp_all add: close_of_def sample_candle_def duration_def seconds_td_def)
  then obtain d where "d \<in> set (vr_candles sample_report)" "same_data (sample_candle 20 2002) d"
    "ck_quality_level d \<in> {Minor_Anomaly, Major_Anomaly}"
    using closed_candles_drift [OF sample_validate, of "sample_candle 20 2002"] by auto
  then show ?thesis using same_data_time by (fastforce simp: sample_candle_def)
qed

theorem quarantine_spec_witness:
  "\<exists>as qs. compare_sources default_validation_config sample_series [sample_candle 5 2500] None None = (as, qs)
     \<and> seconds_td 300 \<in> set qs"
proof -
  obtain as qs where c: "compare_sources default_validation_config sample_series [sample_candle 5 2500] None None = (as, qs)"
    by (cases "compare_sources default_validation_config sample_series [sample_candle 5 2500] None None")
  have "peer_of [sample_candle 5 2500] (sample_candle 5 2001) = Some (sample_candle 5 2500)"
    "quarantine_limit default_validation_config None < deviation (sample_candle 5 2001) (sample_candle 5 2500)"
    "ck_timestamp (sample_candle 5 2001) = seconds_td 300" by code_simp+
  then show ?thesis using quarantine_spec [OF c] c by auto
qed

theorem canonical_symbol_idempotent_witness: "canonical_symbol ''XAUUSD'' = Inr ''XAUUSD''"
proof -
  have "canonical_symbol '' xau/usd '' = Inr ''XAUUSD''" by code_simp
  then show ?thesis using canonical_symbol_idempotent by blast
qed

end
