(* ===== verification/Signal_Outcomes.thy ===== *)
theory Signal_Outcomes
  imports Scenario_Models Forecast_Models Market_Data
begin

text \<open>
  Three evaluators of what became of a signal: the lifecycle of an analysis signal candle by candle
  (\<open>ai_reasoning/signal_outcomes.py\<close> with the contracts of \<open>analysis.py\<close>), the evaluation of an expired
  scenario (\<open>scenario_forecasting/outcome_evaluation.py\<close>, \<open>calibration.py\<close>) and the detailed outcome of a
  published signal (\<open>final_decision/outcomes.py\<close>).

  Only the fields that the evaluators and the validators read are kept.
\<close>

subsection \<open>Analysis signals\<close>

datatype outcome_error = Assertion_Failed | Index_Out_Of_Range

datatype analysis_action = Act_Buy | Act_Sell | Act_Hold

datatype signal_lifecycle = Lc_Active | Lc_Completed | Lc_Stale | Lc_Expired | Lc_Stopped | Lc_Target_Hit | Lc_Stop_Hit | Lc_Superseded

record analysis_signal =
  as_signal_id :: uuid
  as_signal :: analysis_action
  as_confidence :: int
  as_strength :: analytical_strength
  as_entry :: "f64 option"
  as_stop_loss :: "f64 option"
  as_take_profit :: "f64 option"
  as_risk_reward_ratio :: "f64 option"
  as_valid_from :: "instant option"
  as_valid_until :: "instant option"
  as_execution_eligibility :: execution_eligibility
  as_execution_status :: execution_status
  as_blocking_reasons :: "string list"
  as_generated_at :: instant

definition signal_strength_of :: "int \<Rightarrow> analytical_strength" where
  "signal_strength_of confidence =
     (if confidence < 40 then Very_Weak else if confidence < 55 then Weak else if confidence < 70 then Moderate
      else if confidence < 85 then Strong else Very_Strong)"

text \<open>\<open>geometry_and_strength_are_consistent\<close>.\<close>

definition ordered_levels :: "analysis_action \<Rightarrow> f64 \<Rightarrow> f64 \<Rightarrow> f64 \<Rightarrow> bool" where
  "ordered_levels a e s t \<longleftrightarrow> (a = Act_Buy \<longrightarrow> s < e \<and> e < t) \<and> (a = Act_Sell \<longrightarrow> t < e \<and> e < s)"

definition analysis_signal_ok :: "analysis_signal \<Rightarrow> bool" where
  "analysis_signal_ok s \<longleftrightarrow>
     (let geometry = [as_entry s, as_stop_loss s, as_take_profit s, as_risk_reward_ratio s]
      in as_strength s = signal_strength_of (as_confidence s)
         \<and> (case (as_valid_from s, as_valid_until s) of (Some a, Some b) \<Rightarrow> a < b | _ \<Rightarrow> True)
         \<and> (if as_signal s = Act_Hold then list_all (\<lambda>x. x = None) geometry
            else (if as_execution_eligibility s = Xe_Eligible
                  then as_execution_status s = Xs_Ready \<and> as_blocking_reasons s = [] \<and> list_all (\<lambda>x. x \<noteq> None) geometry
                  else as_execution_status s = Xs_Blocked \<and> as_blocking_reasons s \<noteq> []
                       \<and> (list_all (\<lambda>x. x = None) geometry \<or> list_all (\<lambda>x. x \<noteq> None) geometry))
              \<and> (case (as_entry s, as_stop_loss s, as_take_profit s) of
                   (Some e, Some l, Some t) \<Rightarrow> ordered_levels (as_signal s) e l t | _ \<Rightarrow> True)))"

record analysis_outcome =
  ao_outcome_id :: uuid
  ao_signal_id :: uuid
  ao_status :: signal_lifecycle
  ao_entry_reached :: bool
  ao_entry_reached_at :: "instant option"
  ao_stop_hit :: bool
  ao_target_hit :: bool
  ao_expired :: bool
  ao_maximum_favorable_excursion :: f64
  ao_maximum_adverse_excursion :: f64
  ao_holding_time_seconds :: "f64 option"
  ao_actual_risk_reward :: "f64 option"
  ao_profit_loss :: "f64 option"
  ao_evaluated_at :: instant
  ao_completed_at :: "instant option"
  ao_reason_codes :: "string list"

text \<open>The bounds of the fields.\<close>

definition analysis_outcome_ok :: "analysis_outcome \<Rightarrow> bool" where
  "analysis_outcome_ok x \<longleftrightarrow> 0 \<le> ao_maximum_favorable_excursion x \<and> 0 \<le> ao_maximum_adverse_excursion x
     \<and> opt_all (\<lambda>h. 0 \<le> h) (ao_holding_time_seconds x)"

subsection \<open>The lifecycle of an analysis signal\<close>

definition terminal_without_execution :: "analysis_signal \<Rightarrow> bool" where
  "terminal_without_execution s \<longleftrightarrow> as_signal s = Act_Hold \<or> as_execution_eligibility s = Xe_Ineligible"

definition initial_outcome :: "runtime \<Rightarrow> analysis_signal \<Rightarrow> analysis_outcome" where
  "initial_outcome rt s =
     \<lparr>ao_outcome_id = url_id rt (''ten:analysis-signal-outcome:'' @ as_signal_id s), ao_signal_id = as_signal_id s,
      ao_status = (if terminal_without_execution s then Lc_Completed else Lc_Active), ao_entry_reached = False,
      ao_entry_reached_at = None, ao_stop_hit = False, ao_target_hit = False, ao_expired = False,
      ao_maximum_favorable_excursion = 0, ao_maximum_adverse_excursion = 0, ao_holding_time_seconds = None,
      ao_actual_risk_reward = None, ao_profit_loss = None, ao_evaluated_at = as_generated_at s,
      ao_completed_at = (if terminal_without_execution s then Some (as_generated_at s) else None),
      ao_reason_codes = (if as_signal s = Act_Hold then [''hold_cycle_completed'']
        else if terminal_without_execution s then [''execution_blocked''] else [])\<rparr>"

text \<open>One candle, with the time of the evaluation and whether a newer cycle has replaced the signal.\<close>

record observation =
  ob_high :: f64
  ob_low :: f64
  ob_close :: f64
  ob_at :: instant
  ob_superseded :: bool

record levels =
  lv_buy :: bool
  lv_entry :: f64
  lv_stop :: f64
  lv_target :: f64

definition touches_entry :: "levels \<Rightarrow> observation \<Rightarrow> bool" where
  "touches_entry l x \<longleftrightarrow> ob_low x \<le> lv_entry l \<and> lv_entry l \<le> ob_high x"

definition touches_target :: "levels \<Rightarrow> observation \<Rightarrow> bool" where
  "touches_target l x \<longleftrightarrow> (if lv_buy l then lv_target l \<le> ob_high x else ob_low x \<le> lv_target l)"

definition touches_stop :: "levels \<Rightarrow> observation \<Rightarrow> bool" where
  "touches_stop l x \<longleftrightarrow> (if lv_buy l then ob_low x \<le> lv_stop l else lv_stop l \<le> ob_high x)"

definition favorable_of :: "levels \<Rightarrow> observation \<Rightarrow> f64" where
  "favorable_of l x = max 0 (if lv_buy l then ob_high x - lv_entry l else lv_entry l - ob_low x)"

definition adverse_of :: "levels \<Rightarrow> observation \<Rightarrow> f64" where
  "adverse_of l x = max 0 (if lv_buy l then lv_entry l - ob_low x else ob_high x - lv_entry l)"

definition open_result :: "levels \<Rightarrow> bool \<Rightarrow> observation \<Rightarrow> f64" where
  "open_result l entered x =
     (if lv_buy l \<and> entered then ob_close x - lv_entry l else if entered then lv_entry l - ob_close x else 0)"

text \<open>The chain that decides the status: the status, the profit, the reason and whether the target counts as hit.\<close>

definition settle_status :: "levels \<Rightarrow> instant option \<Rightarrow> bool \<Rightarrow> bool \<Rightarrow> bool \<Rightarrow> bool \<Rightarrow> observation
    \<Rightarrow> signal_lifecycle \<times> f64 option \<times> string list \<times> bool" where
  "settle_status l until entered target stop deferred x =
     (if target \<and> stop
      then (Lc_Stop_Hit, Some (- \<bar>lv_entry l - lv_stop l\<bar>), [''same_candle_target_and_stop_conservative_stop''], False)
      else if target then (Lc_Target_Hit, Some \<bar>lv_target l - lv_entry l\<bar>, [], True)
      else if stop then (Lc_Stop_Hit, Some (- \<bar>lv_entry l - lv_stop l\<bar>), [], False)
      else if (case until of None \<Rightarrow> False | Some t \<Rightarrow> t \<le> ob_at x)
      then (Lc_Expired, Some (open_result l entered x), [''validity_horizon_elapsed''], False)
      else if ob_superseded x then (Lc_Superseded, Some (open_result l entered x), [''newer_analytical_cycle_completed''], False)
      else (Lc_Active, None, if deferred then [''entry_target_intrabar_order_unresolved''] else [], False))"

definition open_status :: "signal_lifecycle \<Rightarrow> bool" where
  "open_status s \<longleftrightarrow> s \<in> {Lc_Active, Lc_Stale}"

definition observe :: "levels \<Rightarrow> instant option \<Rightarrow> analysis_outcome \<Rightarrow> observation \<Rightarrow> analysis_outcome" where
  "observe l until previous x =
     (let newly = \<not> ao_entry_reached previous \<and> touches_entry l x;
          entered = ao_entry_reached previous \<or> newly;
          entered_at = (case ao_entry_reached_at previous of Some t \<Rightarrow> Some t | None \<Rightarrow> if entered then Some (ob_at x) else None);
          touched = entered \<and> touches_target l x;
          stop = entered \<and> touches_stop l x;
          deferred = newly \<and> touched \<and> \<not> stop;
          (status, pnl, reasons, target) = settle_status l until entered (touched \<and> \<not> deferred) stop deferred x;
          completed = (if open_status status then None else Some (ob_at x));
          risk = \<bar>lv_entry l - lv_stop l\<bar>
      in previous\<lparr>ao_status := status, ao_entry_reached := entered, ao_entry_reached_at := entered_at, ao_stop_hit := stop,
           ao_target_hit := target, ao_expired := (status = Lc_Expired),
           ao_maximum_favorable_excursion := max (ao_maximum_favorable_excursion previous) (if entered then favorable_of l x else 0),
           ao_maximum_adverse_excursion := max (ao_maximum_adverse_excursion previous) (if entered then adverse_of l x else 0),
           ao_holding_time_seconds := (case (completed, entered_at) of (Some c, Some e) \<Rightarrow> Some (total_seconds (c - e)) | _ \<Rightarrow> None),
           ao_actual_risk_reward := (case pnl of Some p \<Rightarrow> if 0 < risk then Some (p / risk) else None | None \<Rightarrow> None),
           ao_profit_loss := pnl, ao_evaluated_at := ob_at x, ao_completed_at := completed, ao_reason_codes := reasons\<rparr>)"

definition evaluate_outcome :: "analysis_signal \<Rightarrow> analysis_outcome \<Rightarrow> observation \<Rightarrow> outcome_error + analysis_outcome" where
  "evaluate_outcome s previous x =
     (if \<not> open_status (ao_status previous) then Inr previous
      else case (as_entry s, as_stop_loss s, as_take_profit s) of
        (Some e, Some l, Some t) \<Rightarrow>
          Inr (observe \<lparr>lv_buy = (as_signal s = Act_Buy), lv_entry = e, lv_stop = l, lv_target = t\<rparr> (as_valid_until s) previous x)
      | _ \<Rightarrow> Inl Assertion_Failed)"

text \<open>The outcome after a sequence of candles.\<close>

fun follow_outcome :: "analysis_signal \<Rightarrow> analysis_outcome \<Rightarrow> observation list \<Rightarrow> outcome_error + analysis_outcome" where
  "follow_outcome s previous [] = Inr previous"
| "follow_outcome s previous (x # xs) = bindE (evaluate_outcome s previous x) (\<lambda>out. follow_outcome s out xs)"

subsection \<open>Expired scenarios\<close>

definition usable_candles :: "forward_scenario \<Rightarrow> candle list \<Rightarrow> candle list" where
  "usable_candles s cs = filter (\<lambda>c. bar_timeframe_value (ck_timeframe c) = fm_timeframe s
     \<and> fm_market_cutoff_time s \<le> ck_timestamp c \<and> close_of c \<le> fm_expiry s) cs"

text \<open>\<open>calibration_bucket\<close>: the tenth of the confidence, two digits at least.\<close>

definition calibration_bucket :: "f64 \<Rightarrow> string" where
  "calibration_bucket confidence = zpad 2 (trunc_int (confidence * fint 10) * 10)"

definition scenario_status :: "bool \<Rightarrow> bool \<Rightarrow> bool \<Rightarrow> bool \<Rightarrow> bool \<Rightarrow> bool \<Rightarrow> bool \<Rightarrow> outcome_status" where
  "scenario_status target invalidated has_geometry entry direction ranged inconclusive =
     (if target then Oc_Target_Reached else if invalidated then Oc_Invalidated
      else if has_geometry \<and> \<not> entry then Oc_Entry_Not_Reached else if direction then Oc_Direction_Correct
      else if ranged then Oc_Range_Correct else if inconclusive then Oc_Inconclusive else Oc_Expired)"

text \<open>The extremes of the usable candles, and the outcome built from them.\<close>

definition actual_high :: "candle list \<Rightarrow> f64" where
  "actual_high cs = Max (set (map ck_high cs))"

definition actual_low :: "candle list \<Rightarrow> f64" where
  "actual_low cs = Min (set (map ck_low cs))"

definition zone_reached :: "forward_scenario \<Rightarrow> candle list \<Rightarrow> bool" where
  "zone_reached s cs = (case fm_geometry s of None \<Rightarrow> False
     | Some g \<Rightarrow> actual_low cs \<le> pz_high (ge_entry_zone g) \<and> pz_low (ge_entry_zone g) \<le> actual_high cs)"

definition target_reached :: "forward_scenario \<Rightarrow> candle list \<Rightarrow> bool" where
  "target_reached s cs = (case fm_geometry s of None \<Rightarrow> False
     | Some g \<Rightarrow> fm_primary_direction s = Sc_Bullish \<and> ge_take_profit g \<le> actual_high cs
         \<or> fm_primary_direction s = Sc_Bearish \<and> actual_low cs \<le> ge_take_profit g)"

definition level_invalidated :: "forward_scenario \<Rightarrow> candle list \<Rightarrow> bool" where
  "level_invalidated s cs = (case fm_invalidation_level s of None \<Rightarrow> False
     | Some v \<Rightarrow> v \<noteq> 0 \<and> (fm_primary_direction s = Sc_Bullish \<and> actual_low cs \<le> v
         \<or> fm_primary_direction s = Sc_Bearish \<and> v \<le> actual_high cs))"

definition direction_correct :: "forward_scenario \<Rightarrow> candle list \<Rightarrow> bool" where
  "direction_correct s cs \<longleftrightarrow> fm_primary_direction s = Sc_Bullish \<and> fm_reference_market_price s < ck_close (last cs)
     \<or> fm_primary_direction s = Sc_Bearish \<and> ck_close (last cs) < fm_reference_market_price s"

definition excursions :: "scenario_direction \<Rightarrow> f64 \<Rightarrow> f64 \<Rightarrow> f64 \<Rightarrow> f64 \<times> f64" where
  "excursions d reference high low =
     (if d = Sc_Bullish then (max 0 (high - reference), max 0 (reference - low))
      else if d = Sc_Bearish then (max 0 (reference - low), max 0 (high - reference))
      else (max (high - reference) (reference - low), 0))"

definition expired_outcome :: "runtime \<Rightarrow> forward_scenario \<Rightarrow> candle list \<Rightarrow> instant \<Rightarrow> scenario_outcome" where
  "expired_outcome rt s usable evaluated_at =
     (let high = actual_high usable;
          low = actual_low usable;
          close = ck_close (last usable);
          reference = fm_reference_market_price s;
          (mfe, mae) = excursions (fm_primary_direction s) reference high low;
          zone = fm_expected_closing_zone s;
          ranged = (pz_low (fm_expected_range s) \<le> low \<and> high \<le> pz_high (fm_expected_range s));
          aim = (case fm_primary_target s of Some t \<Rightarrow> if t \<noteq> 0 then t else reference | None \<Rightarrow> reference)
      in \<lparr>so_outcome_id = url_id rt (''ten:scenario-outcome:'' @ fm_scenario_id s), so_scenario_id = fm_scenario_id s,
           so_evaluated_at = evaluated_at, so_completed_at = fm_expiry s,
           so_status = scenario_status (target_reached s usable) (level_invalidated s usable) (fm_geometry s \<noteq> None)
             (zone_reached s usable) (direction_correct s usable) ranged (fm_primary_direction s = Sc_Inconclusive),
           so_actual_high = high, so_actual_low = low, so_actual_close = close,
           so_maximum_favorable_excursion = mfe, so_maximum_adverse_excursion = mae,
           so_entry_reached = zone_reached s usable, so_target_reached = target_reached s usable,
           so_invalidation_occurred = level_invalidated s usable,
           so_directional_accuracy = (if direction_correct s usable then 1 else 0), so_target_error = \<bar>close - aim\<bar>,
           so_range_error = \<bar>low - fm_expected_low s\<bar> + \<bar>high - fm_expected_high s\<bar>,
           so_high_prediction_error = \<bar>high - fm_expected_high s\<bar>, so_low_prediction_error = \<bar>low - fm_expected_low s\<bar>,
           so_close_prediction_error = (if pz_low zone \<le> close \<and> close \<le> pz_high zone then 0
             else min \<bar>close - pz_low zone\<bar> \<bar>close - pz_high zone\<bar>),
           so_calibration_bucket = calibration_bucket (fm_raw_directional_confidence s)\<rparr>)"

definition evaluate_expired_scenario :: "runtime \<Rightarrow> forward_scenario \<Rightarrow> candle list \<Rightarrow> instant \<Rightarrow> scenario_outcome option" where
  "evaluate_expired_scenario rt s candles evaluated_at =
     (if evaluated_at < fm_expiry s then None
      else if usable_candles s candles = [] then None
      else Some (expired_outcome rt s (usable_candles s candles) evaluated_at))"

definition calibration_reliability :: "(forward_scenario \<times> scenario_outcome) list \<Rightarrow> string \<Rightarrow> nat
    \<Rightarrow> outcome_error + string \<times> f64 option" where
  "calibration_reliability completed tf minimum =
     (let samples = filter (\<lambda>(s, x). fm_timeframe s = tf \<and> fm_expiry s \<le> so_completed_at x) completed
      in if length samples < minimum then Inr (''calibration_pending'', None)
         else if samples = [] then Inl Index_Out_Of_Range
         else (let bucket = calibration_bucket (fm_raw_directional_confidence (fst (last samples)));
                   relevant = map (so_directional_accuracy \<circ> snd) (filter (\<lambda>(_, x). so_calibration_bucket x = bucket) samples);
                   values = (if relevant \<noteq> [] then relevant else map (so_directional_accuracy \<circ> snd) samples)
               in Inr (''calibrated'', Some (py_sum values / fint (int (length values))))))"

subsection \<open>Published signals\<close>

datatype published_direction = Pd_Buy | Pd_Sell | Pd_Neutral

record published_signal =
  pb_signal_id :: uuid
  pb_direction :: published_direction
  pb_entry_zone :: price_zone
  pb_stop_loss :: f64
  pb_take_profit_levels :: "f64 list"
  pb_published_at :: instant

record evaluation_candle =
  vn_timestamp :: instant
  vn_open :: f64
  vn_high :: f64
  vn_low :: f64
  vn_close :: f64

record detailed_outcome =
  dt_outcome_id :: uuid
  dt_signal_id :: uuid
  dt_status :: string
  dt_evaluation_horizon_complete :: bool
  dt_realized_direction :: "published_direction option"
  dt_realized_return :: "f64 option"
  dt_maximum_favorable_excursion :: "f64 option"
  dt_maximum_adverse_excursion :: "f64 option"
  dt_tp1_result :: "string option"
  dt_tp2_result :: "string option"
  dt_stop_loss_result :: "string option"
  dt_tp_sl_ordering :: "string option"
  dt_time_to_entry_seconds :: "f64 option"
  dt_time_to_tp_seconds :: "f64 option"
  dt_time_to_sl_seconds :: "f64 option"
  dt_expiry_outcome :: "string option"
  dt_spread_adjusted_result :: "f64 option"
  dt_slippage_adjusted_result :: "f64 option"
  dt_realized_risk_to_reward :: "f64 option"
  dt_signal_lifetime_seconds :: "f64 option"
  dt_evaluated_at :: instant
  dt_reason_codes :: "string list"

text \<open>\<open>unresolved_has_no_result\<close>.\<close>

definition detailed_outcome_ok :: "detailed_outcome \<Rightarrow> bool" where
  "detailed_outcome_ok d \<longleftrightarrow> dt_evaluation_horizon_complete d
     \<or> dt_realized_direction d = None \<and> dt_realized_return d = None \<and> dt_tp1_result d = None
       \<and> dt_stop_loss_result d = None \<and> dt_realized_risk_to_reward d = None"

definition unresolved_outcome :: "runtime \<Rightarrow> published_signal \<Rightarrow> instant \<Rightarrow> detailed_outcome" where
  "unresolved_outcome rt s evaluated_at =
     \<lparr>dt_outcome_id = url_id rt (''ten:detailed-outcome:'' @ pb_signal_id s), dt_signal_id = pb_signal_id s, dt_status = ''pending'',
      dt_evaluation_horizon_complete = False, dt_realized_direction = None, dt_realized_return = None,
      dt_maximum_favorable_excursion = None, dt_maximum_adverse_excursion = None, dt_tp1_result = None, dt_tp2_result = None,
      dt_stop_loss_result = None, dt_tp_sl_ordering = None, dt_time_to_entry_seconds = None, dt_time_to_tp_seconds = None,
      dt_time_to_sl_seconds = None, dt_expiry_outcome = None, dt_spread_adjusted_result = None, dt_slippage_adjusted_result = None,
      dt_realized_risk_to_reward = None, dt_signal_lifetime_seconds = None, dt_evaluated_at = evaluated_at,
      dt_reason_codes = [''insufficient_future_candles'']\<rparr>"

definition not_entered_outcome :: "runtime \<Rightarrow> published_signal \<Rightarrow> instant \<Rightarrow> instant \<Rightarrow> detailed_outcome" where
  "not_entered_outcome rt s horizon evaluated_at = (unresolved_outcome rt s evaluated_at)
     \<lparr>dt_status := ''resolved'', dt_evaluation_horizon_complete := True, dt_realized_direction := Some Pd_Neutral,
      dt_realized_return := Some 0, dt_maximum_favorable_excursion := Some 0, dt_maximum_adverse_excursion := Some 0,
      dt_expiry_outcome := Some ''expired_without_entry'', dt_spread_adjusted_result := Some 0, dt_slippage_adjusted_result := Some 0,
      dt_signal_lifetime_seconds := Some (total_seconds (horizon - pb_published_at s)), dt_reason_codes := []\<rparr>"

definition reaches_profit :: "bool \<Rightarrow> f64 \<Rightarrow> evaluation_candle \<Rightarrow> bool" where
  "reaches_profit buy t c \<longleftrightarrow> (if buy then t \<le> vn_high c else vn_low c \<le> t)"

definition reaches_stop :: "bool \<Rightarrow> f64 \<Rightarrow> evaluation_candle \<Rightarrow> bool" where
  "reaches_stop buy t c \<longleftrightarrow> (if buy then vn_low c \<le> t else t \<le> vn_high c)"

definition in_zone :: "price_zone \<Rightarrow> evaluation_candle \<Rightarrow> bool" where
  "in_zone z c \<longleftrightarrow> vn_low c \<le> pz_high z \<and> pz_low z \<le> vn_high c"

definition tp_sl_ordering :: "evaluation_candle option \<Rightarrow> evaluation_candle option \<Rightarrow> string" where
  "tp_sl_ordering tp sl = (case (tp, sl) of
       (Some t, Some x) \<Rightarrow> if vn_timestamp t < vn_timestamp x then ''tp_before_sl'' else ''sl_before_tp''
     | (Some _, None) \<Rightarrow> ''tp_only'' | (None, Some _) \<Rightarrow> ''sl_only'' | (None, None) \<Rightarrow> ''none'')"

definition hit_text :: "bool \<Rightarrow> string" where
  "hit_text b = (if b then ''hit'' else ''not_hit'')"

definition entered_outcome :: "runtime \<Rightarrow> f64 \<Rightarrow> published_signal \<Rightarrow> evaluation_candle list \<Rightarrow> evaluation_candle \<Rightarrow> f64 \<Rightarrow> f64 list
    \<Rightarrow> instant \<Rightarrow> f64 \<Rightarrow> instant \<Rightarrow> detailed_outcome" where
  "entered_outcome rt slippage s active entered first_tp further horizon spread evaluated_at =
     (let entry = (pz_low (pb_entry_zone s) + pz_high (pb_entry_zone s)) / fint 2;
          buy = (pb_direction s = Pd_Buy);
          tp = find (reaches_profit buy first_tp) active;
          sl = find (reaches_stop buy (pb_stop_loss s)) active;
          ordering = tp_sl_ordering tp sl;
          exit_price = (if ordering \<in> {''tp_before_sl'', ''tp_only''} then first_tp
            else if ordering \<in> {''sl_before_tp'', ''sl_only''} then pb_stop_loss s else vn_close (last active));
          gross = (if buy then exit_price - entry else entry - exit_price);
          net = gross - spread;
          adjusted = net - slippage;
          risk = \<bar>entry - pb_stop_loss s\<bar>
      in (unresolved_outcome rt s evaluated_at)\<lparr>dt_status := ''resolved'', dt_evaluation_horizon_complete := True,
           dt_realized_direction := Some (if 0 < gross then Pd_Buy else if gross < 0 then Pd_Sell else Pd_Neutral),
           dt_realized_return := Some gross,
           dt_maximum_favorable_excursion := Some (Max (set (map (\<lambda>c. if buy then vn_high c - entry else entry - vn_low c) active))),
           dt_maximum_adverse_excursion := Some (Max (set (map (\<lambda>c. if buy then entry - vn_low c else vn_high c - entry) active))),
           dt_tp1_result := Some (hit_text (tp \<noteq> None)),
           dt_tp2_result := Some (hit_text (case further of [] \<Rightarrow> False | t # _ \<Rightarrow> list_ex (reaches_profit buy t) active)),
           dt_stop_loss_result := Some (hit_text (sl \<noteq> None)), dt_tp_sl_ordering := Some ordering,
           dt_time_to_entry_seconds := Some (total_seconds (vn_timestamp entered - pb_published_at s)),
           dt_time_to_tp_seconds := map_option (\<lambda>c. total_seconds (vn_timestamp c - vn_timestamp entered)) tp,
           dt_time_to_sl_seconds := map_option (\<lambda>c. total_seconds (vn_timestamp c - vn_timestamp entered)) sl,
           dt_expiry_outcome := Some ''resolved_at_horizon'', dt_spread_adjusted_result := Some net,
           dt_slippage_adjusted_result := Some adjusted,
           dt_realized_risk_to_reward := (if risk \<noteq> 0 then Some (adjusted / risk) else None),
           dt_signal_lifetime_seconds := Some (total_seconds (horizon - pb_published_at s)), dt_reason_codes := []\<rparr>)"

definition future_candles :: "published_signal \<Rightarrow> instant \<Rightarrow> evaluation_candle list \<Rightarrow> evaluation_candle list" where
  "future_candles s horizon cs = filter (\<lambda>c. pb_published_at s \<le> vn_timestamp c \<and> vn_timestamp c \<le> horizon) (sort_key vn_timestamp cs)"

definition evaluate_published :: "runtime \<Rightarrow> f64 \<Rightarrow> published_signal \<Rightarrow> evaluation_candle list \<Rightarrow> instant \<Rightarrow> f64 \<Rightarrow> instant
    \<Rightarrow> outcome_error + detailed_outcome" where
  "evaluate_published rt slippage s candles horizon spread evaluated_at =
     (let ordered = sort_key vn_timestamp candles; future = future_candles s horizon candles
      in if ordered = [] \<or> vn_timestamp (last ordered) < horizon then Inr (unresolved_outcome rt s evaluated_at)
         else case find (in_zone (pb_entry_zone s)) future of
           None \<Rightarrow> Inr (not_entered_outcome rt s horizon evaluated_at)
         | Some entered \<Rightarrow>
             (case pb_take_profit_levels s of
                [] \<Rightarrow> Inl Index_Out_Of_Range
              | t # ts \<Rightarrow> Inr (entered_outcome rt slippage s (filter (\<lambda>c. vn_timestamp entered \<le> vn_timestamp c) future) entered t ts
                  horizon spread evaluated_at)))"


subsection \<open>The lifecycle is coherent\<close>

definition outcome_coherent :: "analysis_outcome \<Rightarrow> bool" where
  "outcome_coherent x \<longleftrightarrow> analysis_outcome_ok x
     \<and> (ao_target_hit x \<longleftrightarrow> ao_status x = Lc_Target_Hit) \<and> (ao_stop_hit x \<longleftrightarrow> ao_status x = Lc_Stop_Hit)
     \<and> (ao_expired x \<longleftrightarrow> ao_status x = Lc_Expired)
     \<and> (ao_entry_reached x \<longleftrightarrow> ao_entry_reached_at x \<noteq> None) \<and> (ao_target_hit x \<or> ao_stop_hit x \<longrightarrow> ao_entry_reached x)
     \<and> (open_status (ao_status x) \<longleftrightarrow> ao_completed_at x = None)
     \<and> (open_status (ao_status x) \<longrightarrow> ao_profit_loss x = None)
     \<and> (ao_target_hit x \<longrightarrow> opt_all (\<lambda>p. 0 \<le> p) (ao_profit_loss x))
     \<and> (ao_stop_hit x \<longrightarrow> opt_all (\<lambda>p. p \<le> 0) (ao_profit_loss x) \<and> opt_all (\<lambda>r. r = - 1) (ao_actual_risk_reward x))"

lemma stop_ratio: "0 < r \<Longrightarrow> (- r) / r = (- 1 :: f64)"
  using fl_of_int [of 1] by (simp add: fval_inject [symmetric] fval_arith f64_order fl_uminus)

lemma settle_cases:
  assumes "settle_status l until entered target stop deferred x = (status, pnl, reasons, hit)"
  shows "(hit \<longleftrightarrow> status = Lc_Target_Hit) \<and> (status = Lc_Stop_Hit \<longleftrightarrow> stop) \<and> (hit \<longrightarrow> target)
     \<and> (open_status status \<longleftrightarrow> pnl = None) \<and> (hit \<longrightarrow> pnl = Some \<bar>lv_target l - lv_entry l\<bar>)
     \<and> (stop \<longrightarrow> pnl = Some (- \<bar>lv_entry l - lv_stop l\<bar>)) \<and> (hit \<longrightarrow> \<not> stop)"
  using assms by (auto simp: settle_status_def open_status_def split: if_split_asm)

lemma observe_coherent:
  assumes "outcome_coherent p" "open_status (ao_status p)" "opt_all (\<lambda>t. t \<le> ob_at x) (ao_entry_reached_at p)"
  shows "outcome_coherent (observe l until p x)"
proof -
  define newly where "newly = (\<not> ao_entry_reached p \<and> touches_entry l x)"
  define entered where "entered = (ao_entry_reached p \<or> newly)"
  define touched where "touched = (entered \<and> touches_target l x)"
  define stop where "stop = (entered \<and> touches_stop l x)"
  obtain status pnl reasons hit where st: "settle_status l until entered (touched \<and> \<not> (newly \<and> touched \<and> \<not> stop)) stop (newly \<and> touched \<and> \<not> stop) x
      = (status, pnl, reasons, hit)" by (metis prod_cases4)
  note c = settle_cases [OF st]
  let ?at = "case ao_entry_reached_at p of Some t \<Rightarrow> Some t | None \<Rightarrow> if entered then Some (ob_at x) else None"
  let ?done = "if open_status status then None else Some (ob_at x)"
  have fields: "ao_status (observe l until p x) = status" "ao_entry_reached (observe l until p x) = entered" "ao_entry_reached_at (observe l until p x) = ?at"
    "ao_stop_hit (observe l until p x) = stop" "ao_target_hit (observe l until p x) = hit" "ao_expired (observe l until p x) = (status = Lc_Expired)"
    "ao_profit_loss (observe l until p x) = pnl" "ao_completed_at (observe l until p x) = ?done"
    "ao_actual_risk_reward (observe l until p x) = (case pnl of Some q \<Rightarrow> if 0 < \<bar>lv_entry l - lv_stop l\<bar> then Some (q / \<bar>lv_entry l - lv_stop l\<bar>) else None | None \<Rightarrow> None)"
    "ao_holding_time_seconds (observe l until p x) = (case (?done, ?at) of (Some c, Some e) \<Rightarrow> Some (total_seconds (c - e)) | _ \<Rightarrow> None)"
    "ao_maximum_favorable_excursion (observe l until p x) = max (ao_maximum_favorable_excursion p) (if entered then favorable_of l x else 0)"
    "ao_maximum_adverse_excursion (observe l until p x) = max (ao_maximum_adverse_excursion p) (if entered then adverse_of l x else 0)"
    unfolding observe_def Let_def newly_def [symmetric] entered_def [symmetric] touched_def [symmetric] stop_def [symmetric] st prod.case
    by simp_all
  have at_time: "opt_all (\<lambda>t. t \<le> ob_at x) ?at" using assms(3) by (auto split: option.split)
  have nonneg: "0 \<le> total_seconds (ob_at x - t)" if "t \<le> ob_at x" for t using that total_seconds_nonneg by simp
  have p: "0 \<le> ao_maximum_favorable_excursion p" "0 \<le> ao_maximum_adverse_excursion p"
    using assms(1) by (simp_all add: outcome_coherent_def analysis_outcome_ok_def)
  have held: "opt_all (\<lambda>h. 0 \<le> h) (case (?done, ?at) of (Some c, Some e) \<Rightarrow> Some (total_seconds (c - e)) | _ \<Rightarrow> None)"
  proof (cases ?at)
    case (Some e)
    then have "e \<le> ob_at x" using at_time by simp
    then show ?thesis using nonneg unfolding Some by simp
  qed (auto split: option.split)
  have ok: "analysis_outcome_ok (observe l until p x)"
    unfolding analysis_outcome_ok_def fields using p held by (simp add: le_max_iff_disj del: opt_all_iff)
  have reach: "entered \<longleftrightarrow> ?at \<noteq> None" using assms(1) by (auto simp: outcome_coherent_def entered_def split: option.split)
  have hits: "hit \<or> stop \<longrightarrow> entered" using c by (auto simp: touched_def stop_def)
  have rr: "stop \<longrightarrow> opt_all (\<lambda>r. r = - 1) (ao_actual_risk_reward (observe l until p x))"
    using c stop_ratio unfolding fields by auto
  have sign: "hit \<longrightarrow> opt_all (\<lambda>q. 0 \<le> q) pnl" "stop \<longrightarrow> opt_all (\<lambda>q. q \<le> 0) pnl" using c by (auto simp: f64_order fval_arith)
  show ?thesis using ok reach hits rr sign c unfolding outcome_coherent_def fields by simp
qed


text \<open>A signal with levels; an open one always has them.\<close>

definition levels_of :: "analysis_signal \<Rightarrow> levels option" where
  "levels_of s = (case (as_entry s, as_stop_loss s, as_take_profit s) of
     (Some e, Some l, Some t) \<Rightarrow> Some \<lparr>lv_buy = (as_signal s = Act_Buy), lv_entry = e, lv_stop = l, lv_target = t\<rparr> | _ \<Rightarrow> None)"

lemma evaluate_open:
  "open_status (ao_status p) \<Longrightarrow> evaluate_outcome s p x = (case levels_of s of None \<Rightarrow> Inl Assertion_Failed | Some l \<Rightarrow> Inr (observe l (as_valid_until s) p x))"
  by (auto simp: evaluate_outcome_def levels_of_def split: option.split)

lemma follow_closed: "\<not> open_status (ao_status p) \<Longrightarrow> follow_outcome s p xs = Inr p"
  by (induction xs) (simp_all add: evaluate_outcome_def)

lemma initial_levels: "analysis_signal_ok s \<Longrightarrow> open_status (ao_status (initial_outcome rt s)) \<Longrightarrow> levels_of s \<noteq> None"
  by (cases "as_execution_eligibility s")
    (auto simp: analysis_signal_ok_def initial_outcome_def terminal_without_execution_def open_status_def levels_of_def Let_def split: if_split_asm)

lemma initial_coherent: "outcome_coherent (initial_outcome rt s)"
  by (simp add: outcome_coherent_def analysis_outcome_ok_def initial_outcome_def open_status_def)

lemma observe_times: "ao_entry_reached_at (observe l until p x) \<in> {ao_entry_reached_at p, Some (ob_at x)}"
  by (auto simp: observe_def Let_def split: option.split prod.split)

lemma observe_ids: "ao_signal_id (observe l until p x) = ao_signal_id p"
  by (simp add: observe_def Let_def split: prod.split)

lemma follow_coherent:
  assumes "open_status (ao_status p) \<longrightarrow> levels_of s \<noteq> None" "outcome_coherent p" "sorted (map ob_at xs)"
    and "\<forall>x \<in> set xs. opt_all (\<lambda>t. t \<le> ob_at x) (ao_entry_reached_at p)"
  shows "\<exists>q. follow_outcome s p xs = Inr q \<and> outcome_coherent q \<and> ao_signal_id q = ao_signal_id p"
  using assms
proof (induction xs arbitrary: p)
  case Nil
  then show ?case by simp
next
  case (Cons x xs)
  show ?case
  proof (cases "open_status (ao_status p)")
    case False
    then show ?thesis using Cons.prems(2) by (simp add: follow_closed del: follow_outcome.simps)
  next
    case True
    then obtain l where l: "levels_of s = Some l" using Cons.prems(1) by blast
    let ?q = "observe l (as_valid_until s) p x"
    have q: "outcome_coherent ?q" using observe_coherent [OF Cons.prems(2) True] Cons.prems(4) by simp
    have "\<forall>y \<in> set xs. opt_all (\<lambda>t. t \<le> ob_at y) (ao_entry_reached_at ?q)"
      using observe_times [of l "as_valid_until s" p x] Cons.prems(3,4) by auto
    then obtain r where "follow_outcome s ?q xs = Inr r" "outcome_coherent r" "ao_signal_id r = ao_signal_id ?q"
      using Cons.IH [of ?q] l q Cons.prems(3) by auto
    then show ?thesis using True l by (simp add: evaluate_open observe_ids)
  qed
qed

text \<open>Claim C15: following a valid signal through candles in order of time never fails an assertion, and the outcome is
  coherent at every point: the flags agree with the status, target and stop exclude each other and need an entry, an
  outcome has a completion and a result exactly when it is closed, a target never loses, a stop is exactly minus one
  unit of risk, and all bounds of the fields hold.\<close>

theorem analysis_outcome_sound:
  assumes "analysis_signal_ok s" "sorted (map ob_at xs)"
  shows "\<exists>out. follow_outcome s (initial_outcome rt s) xs = Inr out \<and> outcome_coherent out \<and> ao_signal_id out = as_signal_id s"
  using follow_coherent [of "initial_outcome rt s" s xs] initial_levels [OF assms(1), of rt] initial_coherent [of rt s] assms(2)
  by (auto simp: initial_outcome_def)

subsection \<open>A target needs an earlier entry\<close>

lemma observe_target:
  assumes "ao_status (observe l until p x) = Lc_Target_Hit"
  shows "ao_entry_reached p \<and> touches_target l x \<and> \<not> touches_stop l x"
  using assms by (auto simp: observe_def Let_def settle_status_def split: prod.split_asm if_split_asm)

lemma observe_open:
  assumes "open_status (ao_status (observe l until p x))"
  shows "(ao_entry_reached (observe l until p x) \<longrightarrow> \<not> touches_stop l x)
     \<and> (ao_entry_reached (observe l until p x) \<longleftrightarrow> ao_entry_reached p \<or> touches_entry l x)"
  using assms by (auto simp: observe_def Let_def settle_status_def open_status_def split: prod.split_asm if_split_asm)

definition profitable_path :: "levels \<Rightarrow> bool \<Rightarrow> observation list \<Rightarrow> bool" where
  "profitable_path l entered xs \<longleftrightarrow> (\<exists>j < length xs. touches_target l (xs ! j)
     \<and> (entered \<and> (\<forall>k \<le> j. \<not> touches_stop l (xs ! k))
        \<or> (\<exists>i < j. touches_entry l (xs ! i) \<and> (\<forall>k. i \<le> k \<and> k \<le> j \<longrightarrow> \<not> touches_stop l (xs ! k)))))"

lemma profitable_Cons:
  assumes "profitable_path l e' xs" "e' \<longrightarrow> \<not> touches_stop l x \<and> (entered \<or> touches_entry l x)"
  shows "profitable_path l entered (x # xs)"
proof -
  obtain j where j: "j < length xs" "touches_target l (xs ! j)" and
    path: "e' \<and> (\<forall>k \<le> j. \<not> touches_stop l (xs ! k))
      \<or> (\<exists>i < j. touches_entry l (xs ! i) \<and> (\<forall>k. i \<le> k \<and> k \<le> j \<longrightarrow> \<not> touches_stop l (xs ! k)))"
    using assms(1) by (auto simp: profitable_path_def)
  have shift: "(\<forall>k \<le> j. \<not> touches_stop l (xs ! k)) \<Longrightarrow> \<not> touches_stop l x \<Longrightarrow> \<forall>k \<le> Suc j. \<not> touches_stop l ((x # xs) ! k)"
    by (auto simp: nth_Cons split: nat.split)
  have later: "\<exists>i < j. touches_entry l (xs ! i) \<and> (\<forall>k. i \<le> k \<and> k \<le> j \<longrightarrow> \<not> touches_stop l (xs ! k)) \<Longrightarrow>
     \<exists>i < Suc j. touches_entry l ((x # xs) ! i) \<and> (\<forall>k. i \<le> k \<and> k \<le> Suc j \<longrightarrow> \<not> touches_stop l ((x # xs) ! k))"
  proof -
    assume "\<exists>i < j. touches_entry l (xs ! i) \<and> (\<forall>k. i \<le> k \<and> k \<le> j \<longrightarrow> \<not> touches_stop l (xs ! k))"
    then obtain i where "i < j" "touches_entry l (xs ! i)" "\<forall>k. i \<le> k \<and> k \<le> j \<longrightarrow> \<not> touches_stop l (xs ! k)" by blast
    then show ?thesis by (intro exI [of _ "Suc i"]) (auto simp: nth_Cons split: nat.split)
  qed
  have now: "touches_entry l ((x # xs) ! 0)" if "touches_entry l x" using that by simp
  show ?thesis unfolding profitable_path_def
  proof (intro exI [of _ "Suc j"] conjI)
    show "Suc j < length (x # xs)" "touches_target l ((x # xs) ! Suc j)" using j by simp_all
    show "entered \<and> (\<forall>k \<le> Suc j. \<not> touches_stop l ((x # xs) ! k))
        \<or> (\<exists>i < Suc j. touches_entry l ((x # xs) ! i) \<and> (\<forall>k. i \<le> k \<and> k \<le> Suc j \<longrightarrow> \<not> touches_stop l ((x # xs) ! k)))"
      using path assms(2) shift later now by (metis zero_less_Suc)
  qed
qed

lemma follow_target:
  assumes "levels_of s = Some l" "open_status (ao_status p)"
  shows "follow_outcome s p xs = Inr q \<Longrightarrow> ao_status q = Lc_Target_Hit \<Longrightarrow> profitable_path l (ao_entry_reached p) xs"
  using assms(2)
proof (induction xs arbitrary: p)
  case Nil
  then show ?case by (auto simp: open_status_def)
next
  case (Cons x xs)
  let ?p = "observe l (as_valid_until s) p x"
  have f: "follow_outcome s ?p xs = Inr q" using Cons.prems(1,3) assms(1) by (simp add: evaluate_open)
  show ?case
  proof (cases "open_status (ao_status ?p)")
    case True
    have "profitable_path l (ao_entry_reached ?p) xs" using Cons.IH [OF f Cons.prems(2) True] .
    then show ?thesis using profitable_Cons observe_open [OF True] by blast
  next
    case False
    then have "q = ?p" using f follow_closed by simp
    then have "ao_entry_reached p \<and> touches_target l x \<and> \<not> touches_stop l x" using observe_target Cons.prems(2) by blast
    then show ?thesis unfolding profitable_path_def by (intro exI [of _ 0]) simp
  qed
qed

text \<open>Claim C14: a signal is only counted as a target hit when some candle touched its entry, a strictly later one touched
  its target, and no candle from the entry to the target, both included, touched its stop: within a candle the
  evaluator never assumes the favourable order.\<close>

theorem target_hit_is_conservative:
  assumes "analysis_signal_ok s" "follow_outcome s (initial_outcome rt s) xs = Inr out" "ao_status out = Lc_Target_Hit"
  shows "\<exists>l i j. levels_of s = Some l \<and> i < j \<and> j < length xs \<and> touches_entry l (xs ! i) \<and> touches_target l (xs ! j)
     \<and> (\<forall>k. i \<le> k \<and> k \<le> j \<longrightarrow> \<not> touches_stop l (xs ! k))"
proof -
  have "open_status (ao_status (initial_outcome rt s))"
  proof (rule ccontr)
    assume "\<not> open_status (ao_status (initial_outcome rt s))"
    then have "out = initial_outcome rt s" using follow_closed assms(2) by simp
    then show False using assms(3) by (simp add: initial_outcome_def split: if_split_asm)
  qed
  moreover then obtain l where l: "levels_of s = Some l" using initial_levels [OF assms(1)] by blast
  ultimately have "profitable_path l (ao_entry_reached (initial_outcome rt s)) xs" using follow_target assms(2,3) by blast
  then show ?thesis using l by (auto simp: profitable_path_def initial_outcome_def)
qed


subsection \<open>Expired scenarios\<close>

lemma usable_idem: "usable_candles s (usable_candles s cs) = usable_candles s cs"
  by (simp add: usable_candles_def)

lemma excursion_nonneg: "l \<le> h \<Longrightarrow> 0 \<le> max (h - r) (r - l :: f64)"
proof (cases "r \<le> h")
  case False
  assume "l \<le> h"
  then have "l \<le> r" using False by simp
  then show ?thesis using f64_diff_nonneg [of l r] by (simp add: le_max_iff_disj)
qed (simp add: le_max_iff_disj f64_diff_nonneg)

lemma excursions_nonneg: "l \<le> h \<Longrightarrow> 0 \<le> fst (excursions d r h l) \<and> 0 \<le> snd (excursions d r h l)"
  using excursion_nonneg [of l h r] by (simp add: excursions_def)

lemma actual_extremes:
  assumes "cs \<noteq> []" "\<forall>c \<in> set cs. candle_ok c"
  shows "0 < actual_low cs \<and> actual_low cs \<le> actual_high cs"
proof -
  obtain c where c: "c \<in> set cs" using assms(1) by (cases cs) auto
  have "actual_low cs \<in> ck_low ` set cs" unfolding actual_low_def set_map using assms(1) by (intro Min_in) simp_all
  then obtain d where d: "d \<in> set cs" "actual_low cs = ck_low d" by blast
  have "0 < ck_low d" using assms(2) d(1) by (simp add: candle_ok_def)
  moreover have "actual_low cs \<le> ck_low c" "ck_high c \<le> actual_high cs"
    using c by (simp_all add: actual_low_def actual_high_def)
  moreover have "ck_low c \<le> ck_high c" using assms(2) c by (simp add: candle_ok_def)
  ultimately show ?thesis using d(2) by (metis order.trans)
qed

lemma expired_fields:
  "so_actual_high (expired_outcome rt s us t) = actual_high us" "so_actual_low (expired_outcome rt s us t) = actual_low us"
  "so_actual_close (expired_outcome rt s us t) = ck_close (last us)"
  "so_maximum_favorable_excursion (expired_outcome rt s us t)
     = fst (excursions (fm_primary_direction s) (fm_reference_market_price s) (actual_high us) (actual_low us))"
  "so_maximum_adverse_excursion (expired_outcome rt s us t)
     = snd (excursions (fm_primary_direction s) (fm_reference_market_price s) (actual_high us) (actual_low us))"
  "so_directional_accuracy (expired_outcome rt s us t) = (if direction_correct s us then 1 else 0)"
  "0 \<le> so_target_error (expired_outcome rt s us t)" "0 \<le> so_range_error (expired_outcome rt s us t)"
  "0 \<le> so_high_prediction_error (expired_outcome rt s us t)" "0 \<le> so_low_prediction_error (expired_outcome rt s us t)"
  "0 \<le> so_close_prediction_error (expired_outcome rt s us t)"
  by (simp_all add: expired_outcome_def Let_def case_prod_beta f64_abs_nonneg f64_add_nonneg)

lemma expired_status: "so_status (expired_outcome rt s us t) = Oc_Target_Reached \<longleftrightarrow> target_reached s us"
  by (simp add: expired_outcome_def Let_def case_prod_beta scenario_status_def)

definition touches_take_profit :: "forward_scenario \<Rightarrow> candle \<Rightarrow> bool" where
  "touches_take_profit s c \<longleftrightarrow> (case fm_geometry s of None \<Rightarrow> False
     | Some g \<Rightarrow> fm_primary_direction s = Sc_Bullish \<and> ge_take_profit g \<le> ck_high c
         \<or> fm_primary_direction s = Sc_Bearish \<and> ck_low c \<le> ge_take_profit g)"

lemma target_reached_ex: "cs \<noteq> [] \<Longrightarrow> target_reached s cs \<longleftrightarrow> (\<exists>c \<in> set cs. touches_take_profit s c)"
  by (auto simp: target_reached_def touches_take_profit_def actual_high_def actual_low_def Max_ge_iff Min_le_iff split: option.split)

lemma expired_ok:
  assumes "cs \<noteq> []" "\<forall>c \<in> set cs. candle_ok c"
  shows "scenario_outcome_ok (expired_outcome rt s cs t)"
proof -
  have e: "0 < actual_low cs" "actual_low cs \<le> actual_high cs" using actual_extremes [OF assms] by simp_all
  have "0 < ck_close (last cs)" using assms last_in_set [of cs] by (simp add: candle_ok_def)
  then show ?thesis using e excursions_nonneg [OF e(2)] unfolding scenario_outcome_ok_def expired_fields(1-6)
    by (auto simp: expired_fields in_range_def)
qed

text \<open>Claim C39: on valid candles, evaluating a scenario gives an outcome exactly when the scenario has expired and some
  candle lies between its cutoff and its expiry; the outcome then satisfies every bound of its contract, and it says
  target reached exactly when one of those candles touches the take profit, whether or not the entry zone was ever
  touched and even when the invalidation level was touched first.\<close>

theorem expired_scenario_evaluated:
  assumes "\<forall>c \<in> set cs. candle_ok c"
  shows "(evaluate_expired_scenario rt s cs t = None \<longleftrightarrow> t < fm_expiry s \<or> usable_candles s cs = [])
     \<and> (\<forall>out. evaluate_expired_scenario rt s cs t = Some out \<longrightarrow> scenario_outcome_ok out
          \<and> (so_status out = Oc_Target_Reached \<longleftrightarrow> (\<exists>c \<in> set (usable_candles s cs). touches_take_profit s c)))"
proof -
  have "\<forall>c \<in> set (usable_candles s cs). candle_ok c" using assms by (simp add: usable_candles_def)
  then have "usable_candles s cs \<noteq> [] \<Longrightarrow> scenario_outcome_ok (expired_outcome rt s (usable_candles s cs) t)"
    by (rule expired_ok [rotated])
  then show ?thesis by (auto simp: evaluate_expired_scenario_def expired_status target_reached_ex)
qed

subsection \<open>Published signals\<close>

lemma find_Some_split: "find P xs = Some x \<Longrightarrow> \<exists>ys zs. xs = ys @ x # zs \<and> P x \<and> (\<forall>y \<in> set ys. \<not> P y)"
proof (induction xs)
  case (Cons a xs)
  show ?case
  proof (cases "P a")
    case True
    then have "a # xs = [] @ x # xs \<and> P x \<and> (\<forall>y \<in> set []. \<not> P y)" using Cons.prems by simp
    then show ?thesis by blast
  next
    case False
    then obtain ys zs where "xs = ys @ x # zs \<and> P x \<and> (\<forall>y \<in> set ys. \<not> P y)" using Cons by auto
    then have "a # xs = (a # ys) @ x # zs \<and> P x \<and> (\<forall>y \<in> set (a # ys). \<not> P y)" using False by simp
    then show ?thesis by blast
  qed
qed simp

lemma find_first_time:
  assumes "sorted (map vn_timestamp xs)" "find P xs = Some x" "y \<in> set xs" "P y"
  shows "vn_timestamp x \<le> vn_timestamp y"
proof -
  obtain ys zs where "xs = ys @ x # zs" "\<forall>z \<in> set ys. \<not> P z" using find_Some_split [OF assms(2)] by blast
  then show ?thesis using assms(1,3,4) by (auto simp: sorted_append)
qed

lemma future_sorted: "sorted (map vn_timestamp (future_candles s horizon cs))"
  unfolding future_candles_def by (intro sorted_filter) simp

lemma future_mem: "c \<in> set (future_candles s horizon cs) \<longleftrightarrow> c \<in> set cs \<and> pb_published_at s \<le> vn_timestamp c \<and> vn_timestamp c \<le> horizon"
  by (auto simp: future_candles_def)

lemma last_sorted_ge:
  assumes "xs \<noteq> []"
  shows "vn_timestamp (last (sort_key vn_timestamp xs)) < h \<longleftrightarrow> (\<forall>c \<in> set xs. vn_timestamp c < h)"
proof -
  let ?ys = "sort_key vn_timestamp xs"
  have ys: "?ys \<noteq> []" using assms by (metis length_sort length_0_conv)
  then have l: "last ?ys \<in> set xs" using last_in_set [OF ys] by simp
  have "vn_timestamp c \<le> vn_timestamp (last ?ys)" if "c \<in> set ?ys" for c
  proof -
    have sorted: "sorted (map vn_timestamp (butlast ?ys @ [last ?ys]))" using ys by simp
    have "c \<in> set (butlast ?ys @ [last ?ys])" using that ys by simp
    then show ?thesis using sorted unfolding map_append sorted_append by auto
  qed
  then show ?thesis using l by (auto intro: le_less_trans)
qed


lemma find_Some_mem: "find P xs = Some x \<Longrightarrow> x \<in> set xs \<and> P x"
  using find_Some_split by fastforce

text \<open>What happened to a published signal, read off the unordered candles: the candles of its window, the first
  one that touches the entry zone, and the price of the exit. The target counts when a candle from the entry on
  reaches it and no candle up to that one reaches the stop; else the stop counts when a candle from the
  entry on reaches it; else the position is closed at a last candle of the window.\<close>

definition within_evaluation :: "published_signal \<Rightarrow> instant \<Rightarrow> evaluation_candle \<Rightarrow> bool" where
  "within_evaluation s horizon c \<longleftrightarrow> pb_published_at s \<le> vn_timestamp c \<and> vn_timestamp c \<le> horizon"

definition entry_candle :: "published_signal \<Rightarrow> instant \<Rightarrow> evaluation_candle list \<Rightarrow> evaluation_candle \<Rightarrow> bool" where
  "entry_candle s horizon cs e \<longleftrightarrow> e \<in> set cs \<and> within_evaluation s horizon e \<and> in_zone (pb_entry_zone s) e
     \<and> (\<forall>x \<in> set cs. within_evaluation s horizon x \<and> in_zone (pb_entry_zone s) x \<longrightarrow> vn_timestamp e \<le> vn_timestamp x)"

definition candles_from :: "published_signal \<Rightarrow> instant \<Rightarrow> evaluation_candle list \<Rightarrow> evaluation_candle \<Rightarrow> evaluation_candle set" where
  "candles_from s horizon cs e = {c \<in> set cs. within_evaluation s horizon c \<and> vn_timestamp e \<le> vn_timestamp c}"

definition target_first :: "published_signal \<Rightarrow> f64 \<Rightarrow> evaluation_candle set \<Rightarrow> bool" where
  "target_first s t cs \<longleftrightarrow> (\<exists>c \<in> cs. reaches_profit (pb_direction s = Pd_Buy) t c
     \<and> (\<forall>x \<in> cs. vn_timestamp x \<le> vn_timestamp c \<longrightarrow> \<not> reaches_stop (pb_direction s = Pd_Buy) (pb_stop_loss s) x))"

definition exits_at :: "published_signal \<Rightarrow> f64 \<Rightarrow> evaluation_candle set \<Rightarrow> f64 \<Rightarrow> bool" where
  "exits_at s t cs p \<longleftrightarrow>
     (if target_first s t cs then p = t
      else if \<exists>x \<in> cs. reaches_stop (pb_direction s = Pd_Buy) (pb_stop_loss s) x then p = pb_stop_loss s
      else \<exists>l \<in> cs. (\<forall>x \<in> cs. vn_timestamp x \<le> vn_timestamp l) \<and> p = vn_close l)"

text \<open>The result that belongs to an entry with the candle \<open>e\<close>, the first target \<open>a\<close> and the candles from the entry on.\<close>

definition settled_as :: "published_signal \<Rightarrow> f64 \<Rightarrow> f64 \<Rightarrow> f64 \<Rightarrow> evaluation_candle \<Rightarrow> evaluation_candle set \<Rightarrow> detailed_outcome \<Rightarrow> bool" where
  "settled_as s a slippage spread e cs d \<longleftrightarrow>
     (\<exists>p. exits_at s a cs p
       \<and> (let entry = (pz_low (pb_entry_zone s) + pz_high (pb_entry_zone s)) / fint 2;
              gross = (if pb_direction s = Pd_Buy then p - entry else entry - p)
          in dt_realized_return d = Some gross \<and> dt_spread_adjusted_result d = Some (gross - spread)
             \<and> dt_slippage_adjusted_result d = Some (gross - spread - slippage)
             \<and> dt_realized_direction d = Some (if 0 < gross then Pd_Buy else if gross < 0 then Pd_Sell else Pd_Neutral)))
     \<and> dt_tp1_result d = Some (hit_text (\<exists>c \<in> cs. reaches_profit (pb_direction s = Pd_Buy) a c))
     \<and> dt_stop_loss_result d = Some (hit_text (\<exists>c \<in> cs. reaches_stop (pb_direction s = Pd_Buy) (pb_stop_loss s) c))
     \<and> dt_time_to_entry_seconds d = Some (total_seconds (vn_timestamp e - pb_published_at s))"

lemma find_any: "(find P xs \<noteq> None) \<longleftrightarrow> (\<exists>x \<in> set xs. P x)"
  by (auto simp: find_None_iff)

lemma entered_exit:
  fixes s cs horizon e
  defines "active \<equiv> filter (\<lambda>c. vn_timestamp e \<le> vn_timestamp c) (future_candles s horizon cs)"
  assumes "find (in_zone (pb_entry_zone s)) (future_candles s horizon cs) = Some e"
  shows "entry_candle s horizon cs e" "set active = candles_from s horizon cs e" "sorted (map vn_timestamp active)" "active \<noteq> []"
proof -
  have e: "e \<in> set (future_candles s horizon cs)" "in_zone (pb_entry_zone s) e" using find_Some_mem [OF assms(2)] by simp_all
  show "entry_candle s horizon cs e"
    using e find_first_time [OF future_sorted assms(2)] by (simp add: entry_candle_def within_evaluation_def future_mem)
  show "set active = candles_from s horizon cs e"
    by (auto simp: active_def candles_from_def within_evaluation_def future_mem)
  show "sorted (map vn_timestamp active)" unfolding active_def by (rule sorted_filter [OF future_sorted])
  have "e \<in> set active" using e(1) by (simp add: active_def)
  then show "active \<noteq> []" by (metis empty_iff empty_set)
qed

lemma target_first_find:
  assumes "sorted (map vn_timestamp active)"
  shows "target_first s t (set active) \<longleftrightarrow> tp_sl_ordering (find (reaches_profit (pb_direction s = Pd_Buy) t) active)
      (find (reaches_stop (pb_direction s = Pd_Buy) (pb_stop_loss s)) active) \<in> {''tp_before_sl'', ''tp_only''}"
    (is "_ \<longleftrightarrow> tp_sl_ordering (find ?P active) (find ?S active) \<in> _")
proof (cases "find ?P active")
  case None
  then have "\<not> target_first s t (set active)" by (auto simp: target_first_def find_None_iff)
  then show ?thesis using None by (simp add: tp_sl_ordering_def split: option.split)
next
  case (Some c)
  note c = find_Some_mem [OF Some] and first = find_first_time [OF assms Some]
  show ?thesis
  proof (cases "find ?S active")
    case None
    then have "target_first s t (set active)" using c by (auto simp: target_first_def find_None_iff)
    then show ?thesis using Some None by (simp add: tp_sl_ordering_def)
  next
    case stop: (Some x)
    note x = find_Some_mem [OF stop] and least = find_first_time [OF assms stop]
    have "target_first s t (set active) \<longleftrightarrow> vn_timestamp c < vn_timestamp x"
    proof
      assume "target_first s t (set active)"
      then obtain d where d: "d \<in> set active" "?P d" "\<not> vn_timestamp x \<le> vn_timestamp d" using x by (auto simp: target_first_def)
      then show "vn_timestamp c < vn_timestamp x" using first [OF d(1,2)] by simp
    next
      assume "vn_timestamp c < vn_timestamp x"
      then show "target_first s t (set active)" using c least by (fastforce simp: target_first_def)
    qed
    then show ?thesis using Some stop by (simp add: tp_sl_ordering_def)
  qed
qed

lemma entered_fields:
  "dt_status (entered_outcome rt k s active e t ts horizon spread at_time) = ''resolved''"
  "dt_evaluation_horizon_complete (entered_outcome rt k s active e t ts horizon spread at_time)"
  by (simp_all add: entered_outcome_def Let_def)

lemma last_of_sorted: "sorted (map vn_timestamp xs) \<Longrightarrow> x \<in> set xs \<Longrightarrow> vn_timestamp x \<le> vn_timestamp (last xs)"
  by (induction xs) (auto split: if_split_asm)

lemma entered_result:
  assumes "sorted (map vn_timestamp active)" "active \<noteq> []"
  shows "settled_as s a k spread e (set active) (entered_outcome rt k s active e a as horizon spread t)"
proof -
  let ?d = "entered_outcome rt k s active e a as horizon spread t"
  let ?tp = "find (reaches_profit (pb_direction s = Pd_Buy) a) active"
  let ?sl = "find (reaches_stop (pb_direction s = Pd_Buy) (pb_stop_loss s)) active"
  define entry where "entry = (pz_low (pb_entry_zone s) + pz_high (pb_entry_zone s)) / fint 2"
  define p where "p = (if tp_sl_ordering ?tp ?sl \<in> {''tp_before_sl'', ''tp_only''} then a
    else if tp_sl_ordering ?tp ?sl \<in> {''sl_before_tp'', ''sl_only''} then pb_stop_loss s else vn_close (last active))"
  define gross where "gross = (if pb_direction s = Pd_Buy then p - entry else entry - p)"
  have stopped: "tp_sl_ordering ?tp ?sl \<in> {''sl_before_tp'', ''sl_only''} \<longleftrightarrow> ?sl \<noteq> None"
    if "tp_sl_ordering ?tp ?sl \<notin> {''tp_before_sl'', ''tp_only''}"
    using that by (auto simp: tp_sl_ordering_def split: option.split_asm if_split_asm)
  have close: "\<exists>l \<in> set active. (\<forall>x \<in> set active. vn_timestamp x \<le> vn_timestamp l) \<and> vn_close (last active) = vn_close l"
    using last_of_sorted [OF assms(1)] last_in_set [OF assms(2)] by blast
  have stop: "(\<exists>x \<in> set active. reaches_stop (pb_direction s = Pd_Buy) (pb_stop_loss s) x) \<longleftrightarrow> ?sl \<noteq> None" by (rule find_any [symmetric])
  have exit: "exits_at s a (set active) p"
    unfolding exits_at_def target_first_find [OF assms(1)] stop p_def using stopped close by presburger
  have "dt_realized_return ?d = Some gross" "dt_spread_adjusted_result ?d = Some (gross - spread)"
    "dt_slippage_adjusted_result ?d = Some (gross - spread - k)"
    "dt_realized_direction ?d = Some (if 0 < gross then Pd_Buy else if gross < 0 then Pd_Sell else Pd_Neutral)"
    "dt_tp1_result ?d = Some (hit_text (?tp \<noteq> None))" "dt_stop_loss_result ?d = Some (hit_text (?sl \<noteq> None))"
    "dt_time_to_entry_seconds ?d = Some (total_seconds (vn_timestamp e - pb_published_at s))"
    unfolding entered_outcome_def Let_def gross_def p_def entry_def
    by (simp_all split del: if_split)
  then show ?thesis using exit unfolding settled_as_def Let_def gross_def entry_def find_any by blast
qed

text \<open>Claim C16: the evaluator of published signals fails only on a signal without take profit levels. Its outcome passes
  the validator, is pending and without a result exactly while no candle has reached the horizon, and is a zero result
  when no candle of the window touches the entry zone. Otherwise the result is that of entering at the middle of
  the zone with the first candle that touches it and leaving at the first target when a candle from then on
  reaches it and none up to it reaches the stop, else at the stop when a candle from then on reaches it,
  else at the close of a last candle of the window; spread and slippage are taken off, and the hits reported
  are those of any candle from the entry on.\<close>

theorem published_result_is_earned:
  "case evaluate_published rt k s cs horizon spread t of
     Inl e \<Rightarrow> pb_take_profit_levels s = []
   | Inr d \<Rightarrow> detailed_outcome_ok d \<and>
       (if \<forall>c \<in> set cs. vn_timestamp c < horizon then dt_status d = ''pending'' \<and> dt_realized_return d = None
        else dt_status d = ''resolved'' \<and>
          (if \<forall>c \<in> set cs. within_evaluation s horizon c \<longrightarrow> \<not> in_zone (pb_entry_zone s) c
           then dt_realized_return d = Some 0 \<and> dt_expiry_outcome d = Some ''expired_without_entry''
           else (\<exists>e a as. entry_candle s horizon cs e \<and> pb_take_profit_levels s = a # as
             \<and> settled_as s a k spread e (candles_from s horizon cs e) d)))"
proof -
  have pending: "(sort_key vn_timestamp cs = [] \<or> vn_timestamp (last (sort_key vn_timestamp cs)) < horizon) \<longleftrightarrow> (\<forall>c \<in> set cs. vn_timestamp c < horizon)"
  proof (cases "cs = []")
    case False
    then have "sort_key vn_timestamp cs \<noteq> []" by (metis length_sort length_0_conv)
    then show ?thesis using last_sorted_ge [OF False, of horizon] by blast
  qed simp
  show ?thesis
  proof (cases "\<forall>c \<in> set cs. vn_timestamp c < horizon")
    case True
    then show ?thesis unfolding evaluate_published_def Let_def if_P [OF pending [THEN iffD2, OF True]]
      by (simp add: detailed_outcome_ok_def unresolved_outcome_def)
  next
    case late: False
    note step = evaluate_published_def Let_def if_not_P [OF late [folded pending]]
    show ?thesis
    proof (cases "find (in_zone (pb_entry_zone s)) (future_candles s horizon cs)")
      case None
      then have "\<forall>c \<in> set cs. within_evaluation s horizon c \<longrightarrow> \<not> in_zone (pb_entry_zone s) c"
        by (auto simp: find_None_iff future_mem within_evaluation_def)
      then show ?thesis unfolding step None using late by (simp add: detailed_outcome_ok_def not_entered_outcome_def unresolved_outcome_def)
    next
      case (Some e)
      note entered = entered_exit [OF Some]
      have touched: "\<not> (\<forall>c \<in> set cs. within_evaluation s horizon c \<longrightarrow> \<not> in_zone (pb_entry_zone s) c)"
        using entered(1) by (auto simp: entry_candle_def)
      show ?thesis
      proof (cases "pb_take_profit_levels s")
        case Nil
        then show ?thesis unfolding step Some by simp
      next
        case (Cons a as)
        let ?d = "entered_outcome rt k s (filter (\<lambda>c. vn_timestamp e \<le> vn_timestamp c) (future_candles s horizon cs)) e a as horizon spread t"
        have "settled_as s a k spread e (candles_from s horizon cs e) ?d"
          using entered_result [OF entered(3,4), where a = a and s = s] unfolding entered(2) .
        then have "\<exists>e a as. entry_candle s horizon cs e \<and> pb_take_profit_levels s = a # as
            \<and> settled_as s a k spread e (candles_from s horizon cs e) ?d"
          using entered(1) Cons by blast
        moreover have "evaluate_published rt k s cs horizon spread t = Inr ?d" unfolding step Some Cons by simp
        moreover have "detailed_outcome_ok ?d" by (simp add: detailed_outcome_ok_def entered_fields)
        ultimately show ?thesis using late touched by (simp only: sum.case if_False entered_fields simp_thms)
      qed
    qed
  qed
qed


subsection \<open>The hypotheses can hold\<close>

definition outcome_rt :: runtime where
  "outcome_rt = \<lparr>rt_uuid5 = (\<lambda>_ n. n), rt_sha256 = (\<lambda>_. replicate 64 (CHR ''0'')), rt_float_repr = (\<lambda>_. [])\<rparr>"

definition sample_buy :: analysis_signal where
  "sample_buy = \<lparr>as_signal_id = ''s1'', as_signal = Act_Buy, as_confidence = 60, as_strength = Moderate, as_entry = Some (fint 2000),
     as_stop_loss = Some (fint 1990), as_take_profit = Some (fint 2020), as_risk_reward_ratio = Some (fint 2),
     as_valid_from = Some 0, as_valid_until = Some (seconds_td 3600), as_execution_eligibility = Xe_Eligible,
     as_execution_status = Xs_Ready, as_blocking_reasons = [], as_generated_at = 0\<rparr>"

definition bar_at :: "int \<Rightarrow> int \<Rightarrow> int \<Rightarrow> observation" where
  "bar_at second low high = \<lparr>ob_high = fint high, ob_low = fint low, ob_close = fint low, ob_at = seconds_td second, ob_superseded = False\<rparr>"

text \<open>The first candle touches the entry and the target; the target of that candle does not count.\<close>

abbreviation sample_bars :: "observation list" where
  "sample_bars \<equiv> [bar_at 300 1999 2021, bar_at 600 2000 2010, bar_at 900 2005 2020]"

definition sample_followed :: analysis_outcome where
  "sample_followed = (case follow_outcome sample_buy (initial_outcome outcome_rt sample_buy) sample_bars of
     Inr out \<Rightarrow> out | Inl _ \<Rightarrow> initial_outcome outcome_rt sample_buy)"

lemma sample_buy_ok: "analysis_signal_ok sample_buy" by code_simp

lemma sample_bars_sorted: "sorted (map ob_at sample_bars)" by (simp add: bar_at_def seconds_td_def)

theorem analysis_outcome_sound_witness:
  "\<exists>out. follow_outcome sample_buy (initial_outcome outcome_rt sample_buy) sample_bars = Inr out \<and> outcome_coherent out
     \<and> ao_signal_id out = ''s1''"
  using analysis_outcome_sound [OF sample_buy_ok sample_bars_sorted, of outcome_rt] by (simp add: sample_buy_def)

theorem target_hit_is_conservative_witness:
  "\<exists>l i j. levels_of sample_buy = Some l \<and> i < j \<and> j < 3 \<and> touches_entry l (sample_bars ! i) \<and> touches_target l (sample_bars ! j)"
proof -
  have "isl (follow_outcome sample_buy (initial_outcome outcome_rt sample_buy) sample_bars) = False" by code_simp
  then have run: "follow_outcome sample_buy (initial_outcome outcome_rt sample_buy) sample_bars = Inr sample_followed"
    by (auto simp: sample_followed_def isl_def split: sum.split)
  have hit: "ao_status sample_followed = Lc_Target_Hit" by code_simp
  obtain l i j where "levels_of sample_buy = Some l" "i < j" "j < length sample_bars"
      "touches_entry l (sample_bars ! i)" "touches_target l (sample_bars ! j)"
    using target_hit_is_conservative [OF sample_buy_ok run hit] by blast
  then show ?thesis by (intro exI [of _ l] exI [of _ i] exI [of _ j]) simp
qed

text \<open>The entry zone is far below the market, the first candle touches the invalidation level, the second the target.\<close>

definition sample_scenario :: forward_scenario where
  "sample_scenario = \<lparr>fm_scenario_id = ''x'', fm_cycle_id = [], fm_market_state_id = [], fm_synthesis_id = [], fm_analysis_id = [],
     fm_quantitative_forecast_id = [], fm_instrument = ''XAU/USD'', fm_timeframe = ''M5'', fm_created_at = 0, fm_market_cutoff_time = 0,
     fm_reference_market_price = fint 2000, fm_forecast_horizon_seconds = 300, fm_primary_direction = Sc_Bullish, fm_scenario_type = [],
     fm_expected_price_path = [], fm_expected_range = \<lparr>pz_low = fint 1990, pz_high = fint 2010\<rparr>,
     fm_expected_closing_zone = \<lparr>pz_low = fint 2000, pz_high = fint 2005\<rparr>, fm_expected_move = fint 3, fm_expected_high = fint 2010,
     fm_expected_low = fint 1990, fm_entry_zone = None, fm_invalidation_level = Some (fint 1998), fm_protective_stop = None,
     fm_primary_target = Some (fint 2003), fm_secondary_target = None, fm_raw_directional_confidence = fl64 (3/4), fm_confidence = fint 75,
     fm_calibrated_probability = None, fm_calibration_status = [], fm_evidence_strength = fint 50, fm_supporting_fact_ids = [],
     fm_contradicting_fact_ids = [], fm_narrative = [],
     fm_alternative_scenario = \<lparr>at_direction = Sc_Range, at_scenario_type = [], at_expected_path = [], at_probability = 0, at_invalidation = []\<rparr>,
     fm_expiry = seconds_td 900, fm_scenario_validity = Sv_Valid, fm_scenario_validity_reason = [], fm_execution_geometry_validity = Gv_Valid,
     fm_geometry_rejection_reason = None,
     fm_geometry = Some \<lparr>ge_entry_zone = \<lparr>pz_low = fint 1900, pz_high = fint 1901\<rparr>, ge_entry = fint 1900, ge_stop_loss = fint 1890,
       ge_take_profit = fint 2003, ge_secondary_target = None, ge_risk_reward_ratio = fint 10, ge_basis_fact_identifiers = [''f''],
       ge_validity = Gv_Valid, ge_reason = []\<rparr>, fm_source_timeframe_cycle_id = []\<rparr>"

lemma sample_scenario_ok: "forward_scenario_ok sample_scenario" by code_simp

theorem expired_scenario_evaluated_witness:
  "\<exists>out. evaluate_expired_scenario outcome_rt sample_scenario sample_series (seconds_td 900) = Some out \<and> scenario_outcome_ok out
     \<and> so_status out = Oc_Target_Reached \<and> \<not> so_entry_reached out \<and> so_invalidation_occurred out"
proof -
  have ok: "\<forall>c \<in> set sample_series. candle_ok c"
  proof -
    have "list_all candle_ok sample_series" by code_simp
    then show ?thesis by (simp only: list_all_iff)
  qed
  have us: "usable_candles sample_scenario sample_series = [sample_candle 0 2000, sample_candle 5 2001]" by code_simp
  have touch: "touches_take_profit sample_scenario (sample_candle 5 2001)" by code_simp
  have flags: "\<not> so_entry_reached (expired_outcome outcome_rt sample_scenario [sample_candle 0 2000, sample_candle 5 2001] (seconds_td 900))"
    "so_invalidation_occurred (expired_outcome outcome_rt sample_scenario [sample_candle 0 2000, sample_candle 5 2001] (seconds_td 900))"
    by code_simp+
  have e: "evaluate_expired_scenario outcome_rt sample_scenario sample_series (seconds_td 900)
      = Some (expired_outcome outcome_rt sample_scenario [sample_candle 0 2000, sample_candle 5 2001] (seconds_td 900))"
    unfolding evaluate_expired_scenario_def us by (simp add: sample_scenario_def)
  show ?thesis
    using expired_scenario_evaluated [OF ok, of outcome_rt sample_scenario "seconds_td 900"] touch flags
    unfolding us e by (intro exI) auto
qed

definition sample_published :: published_signal where
  "sample_published = \<lparr>pb_signal_id = ''p1'', pb_direction = Pd_Buy, pb_entry_zone = \<lparr>pz_low = fint 1999, pz_high = fint 2001\<rparr>,
     pb_stop_loss = fint 1990, pb_take_profit_levels = [fint 2010], pb_published_at = 0\<rparr>"

definition print_at :: "int \<Rightarrow> int \<Rightarrow> int \<Rightarrow> evaluation_candle" where
  "print_at second low high = \<lparr>vn_timestamp = seconds_td second, vn_open = fint low, vn_high = fint high, vn_low = fint low, vn_close = fint low\<rparr>"

text \<open>Entry and target lie in the same candle, and the profit is credited.\<close>

abbreviation sample_prints :: "evaluation_candle list" where
  "sample_prints \<equiv> [print_at 300 2005 2006, print_at 600 1998 2011, print_at 900 2000 2005]"

definition sample_detailed :: detailed_outcome where
  "sample_detailed = (case evaluate_published outcome_rt 0 sample_published sample_prints (seconds_td 900) 0 (seconds_td 900) of
     Inr d \<Rightarrow> d | Inl _ \<Rightarrow> unresolved_outcome outcome_rt sample_published 0)"

text \<open>The outcome leaves at the target, and the return is the ten dollars between the middle of the zone and the target.\<close>

theorem published_result_is_earned_witness:
  "\<exists>e p. entry_candle sample_published (seconds_td 900) sample_prints e
     \<and> exits_at sample_published (fint 2010) (candles_from sample_published (seconds_td 900) sample_prints e) p
     \<and> dt_realized_return sample_detailed = Some (p - (fint 1999 + fint 2001) / fint 2)"
proof -
  have "isl (evaluate_published outcome_rt 0 sample_published sample_prints (seconds_td 900) 0 (seconds_td 900)) = False" by code_simp
  then have run: "evaluate_published outcome_rt 0 sample_published sample_prints (seconds_td 900) 0 (seconds_td 900) = Inr sample_detailed"
    by (auto simp: sample_detailed_def isl_def split: sum.split)
  have late: "\<not> (\<forall>c \<in> set sample_prints. vn_timestamp c < seconds_td 900)" by (simp add: print_at_def seconds_td_def)
  have "within_evaluation sample_published (seconds_td 900) (print_at 600 1998 2011) \<and> in_zone (pb_entry_zone sample_published) (print_at 600 1998 2011)"
    by code_simp
  then have touched: "\<not> (\<forall>c \<in> set sample_prints. within_evaluation sample_published (seconds_td 900) c \<longrightarrow> \<not> in_zone (pb_entry_zone sample_published) c)"
    by auto
  show ?thesis
    using published_result_is_earned [where rt = outcome_rt and k = 0 and s = sample_published and cs = sample_prints and horizon = "seconds_td 900" and spread = 0 and t = "seconds_td 900"]
    unfolding run sum.case if_not_P [OF late] if_not_P [OF touched] settled_as_def Let_def by (auto simp: sample_published_def)
qed

end
