(* ===== verification/SMC_Structure.thy ===== *)
theory SMC_Structure
  imports Market_Data
begin

text \<open>
  Swing points and market structure of the smart money concepts engine
  (\<open>engines/smc_engine/context.py\<close>, \<open>swing.py\<close>, \<open>structure.py\<close>, the contracts of \<open>models.py\<close> they
  build, and the structural part of \<open>analyzer.py\<close>).

  Positions of candles are naturals; \<open>slice xs a b\<close> is the Python slice \<open>xs[a:b]\<close> for \<open>0 <= a\<close>. The
  version of a configuration, a digest of its JSON text, is a field of the configuration. The contracts
  are built without their validators; \<open>structure_objects_valid\<close> shows that these never fail on valid candles.
\<close>

subsection \<open>Contracts\<close>

datatype structure_direction = Sd_Bullish | Sd_Bearish | Sd_Neutral | Sd_Transitional

datatype structure_scope = Sp_Internal | Sp_External | Sp_Swing | Sp_Nested

datatype structure_event_type = Et_Bos | Et_Choch | Et_Mss | Et_Continuation | Et_Invalidated

datatype swing_type = Sw_Swing_High | Sw_Swing_Low | Sw_Internal_High | Sw_Internal_Low | Sw_External_High | Sw_External_Low

datatype confirmation_state = Cf_Unconfirmed | Cf_Provisional | Cf_Confirmed | Cf_Invalidated

datatype confirmation_method = By_Close | By_Wick | By_Hybrid

definition swing_type_value :: "swing_type \<Rightarrow> string" where
  [enum_values]: "swing_type_value t = (case t of Sw_Swing_High \<Rightarrow> ''swing_high'' | Sw_Swing_Low \<Rightarrow> ''swing_low''
     | Sw_Internal_High \<Rightarrow> ''internal_high'' | Sw_Internal_Low \<Rightarrow> ''internal_low''
     | Sw_External_High \<Rightarrow> ''external_high'' | Sw_External_Low \<Rightarrow> ''external_low'')"

definition event_type_value :: "structure_event_type \<Rightarrow> string" where
  [enum_values]: "event_type_value t = (case t of Et_Bos \<Rightarrow> ''bos'' | Et_Choch \<Rightarrow> ''choch'' | Et_Mss \<Rightarrow> ''mss''
     | Et_Continuation \<Rightarrow> ''structure_continuation'' | Et_Invalidated \<Rightarrow> ''structure_invalidated'')"

record smc_evidence =
  sme_code :: string
  sme_description :: string
  sme_value :: f64
  sme_threshold :: f64
  sme_passed :: bool

record swing_point =
  sp_id :: uuid
  sp_symbol :: string
  sp_timeframe :: bar_timeframe
  sp_timestamp :: instant
  sp_candle_index :: nat
  sp_price :: f64
  sp_swing_type :: swing_type
  sp_scope :: structure_scope
  sp_confirmation_state :: confirmation_state
  sp_left_window :: nat
  sp_right_window :: nat
  sp_strength :: f64
  sp_confidence_score :: f64
  sp_quality_score :: f64
  sp_source_candle_ids :: "string list"
  sp_detected_at :: instant
  sp_confirmed_at :: "instant option"

record structure_leg =
  lg_id :: uuid
  lg_symbol :: string
  lg_timeframe :: bar_timeframe
  lg_start_swing_id :: uuid
  lg_end_swing_id :: uuid
  lg_direction :: structure_direction
  lg_scope :: structure_scope
  lg_high :: f64
  lg_low :: f64
  lg_magnitude :: f64
  lg_duration_seconds :: f64
  lg_displacement_score :: f64
  lg_confirmation_state :: confirmation_state
  lg_confidence_score :: f64

record structure_event =
  ve_id :: uuid
  ve_event_type :: structure_event_type
  ve_symbol :: string
  ve_timeframe :: bar_timeframe
  ve_scope :: structure_scope
  ve_direction :: structure_direction
  ve_timestamp :: instant
  ve_broken_level :: f64
  ve_broken_swing_id :: uuid
  ve_confirmation_candle_id :: string
  ve_confirmation_method :: confirmation_method
  ve_close_confirmed :: bool
  ve_wick_confirmed :: bool
  ve_previous_direction :: structure_direction
  ve_resulting_direction :: structure_direction
  ve_break_distance :: f64
  ve_displacement_score :: f64
  ve_confidence_score :: f64
  ve_quality_score :: f64
  ve_evidence :: "smc_evidence list"
  ve_invalidation_rule :: string
  ve_algorithm_version :: string
  ve_created_at :: instant

record market_structure =
  mk_symbol :: string
  mk_timeframe :: bar_timeframe
  mk_current_direction :: structure_direction
  mk_previous_direction :: structure_direction
  mk_internal_direction :: structure_direction
  mk_external_direction :: structure_direction
  mk_active_swing_high_id :: "uuid option"
  mk_active_swing_low_id :: "uuid option"
  mk_protected_high_id :: "uuid option"
  mk_protected_low_id :: "uuid option"
  mk_last_bos_id :: "uuid option"
  mk_last_choch_id :: "uuid option"
  mk_last_mss_id :: "uuid option"
  mk_state_version :: nat
  mk_last_processed_candle :: instant
  mk_updated_at :: instant

text \<open>The bounds of the fields, and \<open>StructureLeg.valid_range\<close>.\<close>

definition percent :: "f64 \<Rightarrow> bool" where
  "percent x \<longleftrightarrow> in_range 0 (fint 100) x"

definition swing_ok :: "swing_point \<Rightarrow> bool" where
  "swing_ok s \<longleftrightarrow> 0 < sp_price s \<and> 1 \<le> sp_left_window s \<and> 1 \<le> sp_right_window s
     \<and> percent (sp_strength s) \<and> percent (sp_confidence_score s) \<and> percent (sp_quality_score s)"

definition leg_ok :: "structure_leg \<Rightarrow> bool" where
  "leg_ok l \<longleftrightarrow> 0 < lg_high l \<and> 0 < lg_low l \<and> 0 \<le> lg_magnitude l \<and> 0 \<le> lg_duration_seconds l
     \<and> percent (lg_displacement_score l) \<and> percent (lg_confidence_score l) \<and> lg_low l \<le> lg_high l"

definition structure_event_ok :: "structure_event \<Rightarrow> bool" where
  "structure_event_ok e \<longleftrightarrow> 0 < ve_broken_level e \<and> 0 \<le> ve_break_distance e \<and> percent (ve_displacement_score e)
     \<and> percent (ve_confidence_score e) \<and> percent (ve_quality_score e)"

text \<open>\<open>stable_id\<close> of this engine.\<close>

definition smc_id :: "runtime \<Rightarrow> string \<Rightarrow> string \<Rightarrow> bar_timeframe \<Rightarrow> string list \<Rightarrow> uuid" where
  "smc_id rt kind symbol tf parts = url_id rt (join '':'' (kind # symbol # bar_timeframe_value tf # parts))"

subsection \<open>Configuration\<close>

record swing_config =
  swc_left_window :: nat
  swc_right_window :: nat
  swc_minimum_separation :: nat
  swc_minimum_excursion :: f64
  swc_atr_excursion_multiplier :: f64
  swc_internal_sensitivity :: f64
  swc_external_min_strength :: f64
  swc_equal_level_tolerance :: f64

record structure_config =
  stc_confirmation_method :: confirmation_method
  stc_minimum_break_distance :: f64
  stc_atr_break_multiplier :: f64
  stc_displacement_body_ratio :: f64
  stc_mss_displacement_score :: f64
  stc_require_protected_level_for_mss :: bool

record processing_config =
  prc_minimum_history :: nat
  prc_minimum_input_quality :: f64

record smc_config =
  smc_swing :: swing_config
  smc_structure :: structure_config
  smc_processing :: processing_config
  smc_algorithm_version :: string
  smc_version :: string

definition smc_config_ok :: "smc_config \<Rightarrow> bool" where
  "smc_config_ok c \<longleftrightarrow>
     (let w = smc_swing c; s = smc_structure c; p = smc_processing c
      in 1 \<le> swc_left_window w \<and> swc_left_window w \<le> 50 \<and> 1 \<le> swc_right_window w \<and> swc_right_window w \<le> 50
         \<and> 1 \<le> swc_minimum_separation w \<and> 0 \<le> swc_minimum_excursion w \<and> 0 \<le> swc_atr_excursion_multiplier w
         \<and> 0 < swc_internal_sensitivity w \<and> swc_internal_sensitivity w \<le> 1 \<and> percent (swc_external_min_strength w)
         \<and> 0 < swc_equal_level_tolerance w \<and> swc_equal_level_tolerance w \<le> fl64 (1 / 10)
         \<and> 0 \<le> stc_minimum_break_distance s \<and> 0 \<le> stc_atr_break_multiplier s \<and> in_range 0 1 (stc_displacement_body_ratio s)
         \<and> percent (stc_mss_displacement_score s) \<and> 3 \<le> prc_minimum_history p \<and> percent (prc_minimum_input_quality p)
         \<and> swc_left_window w + swc_right_window w + 1 \<le> prc_minimum_history p)"

definition default_smc_config :: "string \<Rightarrow> smc_config" where
  "default_smc_config version = \<lparr>
     smc_swing = \<lparr>swc_left_window = 2, swc_right_window = 2, swc_minimum_separation = 2, swc_minimum_excursion = 0,
       swc_atr_excursion_multiplier = fl64 (1 / 4), swc_internal_sensitivity = fl64 (1 / 2), swc_external_min_strength = fint 65,
       swc_equal_level_tolerance = fl64 (5 / 10000)\<rparr>,
     smc_structure = \<lparr>stc_confirmation_method = By_Close, stc_minimum_break_distance = 0, stc_atr_break_multiplier = fl64 (5 / 100),
       stc_displacement_body_ratio = fl64 (6 / 10), stc_mss_displacement_score = fint 65, stc_require_protected_level_for_mss = True\<rparr>,
     smc_processing = \<lparr>prc_minimum_history = 5, prc_minimum_input_quality = fint 60\<rparr>,
     smc_algorithm_version = ''3.0.0'', smc_version = version\<rparr>"

subsection \<open>The candle context\<close>

datatype smc_error = Invalid_SMC_Input string | Symbol_Refused

record candle_context =
  kx_candles :: "candle list"
  kx_symbol :: string
  kx_timeframe :: bar_timeframe
  kx_true_ranges :: "f64 list"
  kx_average_true_range :: f64
  kx_minimum_quality :: f64
  kx_average_quality :: f64
  kx_degraded :: bool
  kx_boundary :: string

definition smc_symbol :: "candle \<Rightarrow> smc_error + string" where
  "smc_symbol c = (case canonical_symbol (ck_symbol c) of Inl _ \<Rightarrow> Inl Symbol_Refused | Inr s \<Rightarrow> Inr s)"

definition true_range :: "candle option \<Rightarrow> candle \<Rightarrow> f64" where
  "true_range previous c =
     (let preceding = (case previous of Some p \<Rightarrow> ck_close p | None \<Rightarrow> ck_open c)
      in max (max (ck_high c - ck_low c) \<bar>ck_high c - preceding\<bar>) \<bar>ck_low c - preceding\<bar>)"

text \<open>The loop of \<open>build\<close>, with the previous candle and the timestamps seen; it gives the true ranges.\<close>

fun build_loop :: "string \<Rightarrow> bar_timeframe \<Rightarrow> candle option \<Rightarrow> instant list \<Rightarrow> candle list \<Rightarrow> smc_error + f64 list" where
  "build_loop symbol tf previous seen [] = Inr []"
| "build_loop symbol tf previous seen (c # cs) =
     bindE (smc_symbol c) (\<lambda>s.
       if s \<noteq> symbol \<or> ck_timeframe c \<noteq> tf then Inl (Invalid_SMC_Input ''all candles must share symbol and timeframe'')
       else if ck_timestamp c \<in> set seen then Inl (Invalid_SMC_Input (''duplicate candle at '' @ isoformat (ck_timestamp c)))
       else if (case previous of Some p \<Rightarrow> ck_timestamp c \<le> ck_timestamp p | None \<Rightarrow> False)
       then Inl (Invalid_SMC_Input ''candles must be strictly chronological'')
       else bindE (build_loop symbol tf (Some c) (ck_timestamp c # seen) cs) (\<lambda>rs. Inr (true_range previous c # rs)))"

definition build_context :: "candle list \<Rightarrow> smc_config \<Rightarrow> smc_error + candle_context" where
  "build_context cs config =
     (case cs of
        [] \<Rightarrow> Inl (Invalid_SMC_Input ''SMC analysis requires normalized candles'')
      | c # _ \<Rightarrow> bindE (smc_symbol c) (\<lambda>symbol.
          bindE (build_loop symbol (ck_timeframe c) None [] cs) (\<lambda>ranges.
            let qualities = map ck_quality_score cs; minimum = Min (set qualities)
            in Inr \<lparr>kx_candles = cs, kx_symbol = symbol, kx_timeframe = ck_timeframe c, kx_true_ranges = ranges,
                 kx_average_true_range = fmean ranges, kx_minimum_quality = minimum, kx_average_quality = fmean qualities,
                 kx_degraded = (minimum < prc_minimum_input_quality (smc_processing config)),
                 kx_boundary = symbol @ '':'' @ bar_timeframe_value (ck_timeframe c) @ '':'' @ isoformat (ck_timestamp (last cs))
                   @ '':'' @ str_int (int (length cs))\<rparr>)))"

definition slice :: "'a list \<Rightarrow> nat \<Rightarrow> nat \<Rightarrow> 'a list" where
  "slice xs a b = take (b - a) (drop a xs)"

text \<open>\<open>atr_at\<close> with its default period of 14.\<close>

definition atr_at :: "candle_context \<Rightarrow> nat \<Rightarrow> f64" where
  "atr_at cx i = (let values = slice (kx_true_ranges cx) (i + 1 - 14) (i + 1) in if values \<noteq> [] then fmean values else 0)"

definition candle_id :: "candle_context \<Rightarrow> nat \<Rightarrow> string" where
  "candle_id cx i = kx_symbol cx @ '':'' @ bar_timeframe_value (kx_timeframe cx) @ '':'' @ isoformat (ck_timestamp (kx_candles cx ! i))"

subsection \<open>Swing points\<close>

definition tiny :: f64 where
  "tiny = fl64 (1 / 10 ^ 12)"

definition is_high :: "swing_type \<Rightarrow> bool" where
  "is_high t = contains ''high'' (swing_type_value t)"

definition swing_type_of :: "bool \<Rightarrow> structure_scope \<Rightarrow> swing_type" where
  "swing_type_of high scope =
     (if high \<and> scope = Sp_External then Sw_External_High else if high then Sw_Internal_High
      else if scope = Sp_External then Sw_External_Low else Sw_Internal_Low)"

text \<open>\<open>_point\<close>.\<close>

definition swing_at :: "runtime \<Rightarrow> smc_config \<Rightarrow> candle_context \<Rightarrow> bool \<Rightarrow> nat \<Rightarrow> swing_point" where
  "swing_at rt config cx high i =
     (let c = kx_candles cx ! i;
          left = swc_left_window (smc_swing config);
          right = swc_right_window (smc_swing config);
          near = slice (kx_candles cx) (i - left) (i + right + 1);
          price = (if high then ck_high c else ck_low c);
          opposite = (if high then Min (set (map ck_low near)) else Max (set (map ck_high near)));
          excursion = \<bar>price - opposite\<bar>;
          atr = max (atr_at cx i) tiny;
          strength = min (fint 100) (fint 40 + excursion / atr * fint 20 + fint (int (left + right)) * fl64 (5 / 2));
          scope = (if swc_external_min_strength (smc_swing config) \<le> strength then Sp_External else Sp_Internal);
          typ_of = swing_type_of high scope;
          quality = Min (set (map ck_quality_score near))
      in \<lparr>sp_id = smc_id rt ''swing'' (kx_symbol cx) (kx_timeframe cx) [isoformat (ck_timestamp c), swing_type_value typ_of, smc_version config],
           sp_symbol = kx_symbol cx, sp_timeframe = kx_timeframe cx, sp_timestamp = ck_timestamp c, sp_candle_index = i, sp_price = price,
           sp_swing_type = typ_of, sp_scope = scope, sp_confirmation_state = Cf_Confirmed, sp_left_window = left, sp_right_window = right,
           sp_strength = strength, sp_confidence_score = min (fint 100) (strength * fl64 (7 / 10) + quality * fl64 (3 / 10)),
           sp_quality_score = quality, sp_source_candle_ids = map (candle_id cx) [i - left..<i + right + 1],
           sp_detected_at = ck_timestamp c, sp_confirmed_at = Some (ck_timestamp (kx_candles cx ! (i + right)))\<rparr>)"

definition significant :: "smc_config \<Rightarrow> candle_context \<Rightarrow> swing_point \<Rightarrow> nat option \<Rightarrow> bool" where
  "significant config cx p previous =
     (case previous of None \<Rightarrow> True
      | Some j \<Rightarrow>
          (if int (sp_candle_index p) - int j < int (swc_minimum_separation (smc_swing config)) then False
           else (let c = kx_candles cx ! j;
                     excursion = \<bar>sp_price p - (if is_high (sp_swing_type p) then ck_high c else ck_low c)\<bar>;
                     required = max (swc_minimum_excursion (smc_swing config))
                       (atr_at cx (sp_candle_index p) * swc_atr_excursion_multiplier (smc_swing config))
                 in required \<le> excursion)))"

definition pivot :: "smc_config \<Rightarrow> candle_context \<Rightarrow> bool \<Rightarrow> nat \<Rightarrow> bool" where
  "pivot config cx high i =
     (let c = kx_candles cx ! i;
          preceding = slice (kx_candles cx) (i - swc_left_window (smc_swing config)) i;
          following = slice (kx_candles cx) (i + 1) (i + swc_right_window (smc_swing config) + 1)
      in if high then list_all (\<lambda>x. ck_high x < ck_high c) preceding \<and> list_all (\<lambda>x. ck_high x \<le> ck_high c) following
         else list_all (\<lambda>x. ck_low c < ck_low x) preceding \<and> list_all (\<lambda>x. ck_low c \<le> ck_low x) following)"

text \<open>One side of one candle: the new point, if any, and the last confirmed index of that side.\<close>

definition consider_side :: "runtime \<Rightarrow> smc_config \<Rightarrow> candle_context \<Rightarrow> bool \<Rightarrow> nat option \<Rightarrow> nat \<Rightarrow> swing_point list \<times> nat option" where
  "consider_side rt config cx high previous i =
     (if pivot config cx high i \<and> significant config cx (swing_at rt config cx high i) previous
      then ([swing_at rt config cx high i], Some i) else ([], previous))"

fun detect_loop :: "runtime \<Rightarrow> smc_config \<Rightarrow> candle_context \<Rightarrow> nat option \<Rightarrow> nat option \<Rightarrow> nat list \<Rightarrow> swing_point list" where
  "detect_loop rt config cx h l [] = []"
| "detect_loop rt config cx h l (i # is) =
     (let (hs, h') = consider_side rt config cx True h i; (ls, l') = consider_side rt config cx False l i
      in hs @ ls @ detect_loop rt config cx h' l' is)"

definition swing_key :: "swing_point \<Rightarrow> instant \<times> instant \<times> string" where
  "swing_key s = ((case sp_confirmed_at s of Some t \<Rightarrow> t | None \<Rightarrow> sp_timestamp s), sp_timestamp s, swing_type_value (sp_swing_type s))"

definition detect_swings :: "runtime \<Rightarrow> smc_config \<Rightarrow> candle_context \<Rightarrow> swing_point list" where
  "detect_swings rt config cx = sort_key swing_key (detect_loop rt config cx None None
     [swc_left_window (smc_swing config)..<length (kx_candles cx) - swc_right_window (smc_swing config)])"

subsection \<open>Structure\<close>

text \<open>The state of the loop of \<open>analyze\<close>: the last swing of each scope, the directions, the events and the broken swings.\<close>

record structure_track =
  kt_high :: "structure_scope \<Rightarrow> swing_point option"
  kt_low :: "structure_scope \<Rightarrow> swing_point option"
  kt_directions :: "structure_scope \<Rightarrow> structure_direction"
  kt_events :: "structure_event list"
  kt_broken :: "uuid list"

definition initial_track :: structure_track where
  "initial_track = \<lparr>kt_high = (\<lambda>_. None), kt_low = (\<lambda>_. None), kt_directions = (\<lambda>_. Sd_Neutral), kt_events = [], kt_broken = []\<rparr>"

definition apply_swing :: "swing_point \<Rightarrow> structure_track \<Rightarrow> structure_track" where
  "apply_swing s k = (if is_high (sp_swing_type s) then k\<lparr>kt_high := (kt_high k)(sp_scope s := Some s)\<rparr>
     else k\<lparr>kt_low := (kt_low k)(sp_scope s := Some s)\<rparr>)"

text \<open>\<open>_break\<close>: confirmed, by the close, by the wick, the distance.\<close>

definition level_break :: "smc_config \<Rightarrow> candle \<Rightarrow> f64 \<Rightarrow> structure_direction \<Rightarrow> f64 \<Rightarrow> bool \<times> bool \<times> bool \<times> f64" where
  "level_break config c level dir atr =
     (let close_distance = (if dir = Sd_Bullish then ck_close c - level else level - ck_close c);
          wick_distance = (if dir = Sd_Bullish then ck_high c - level else level - ck_low c);
          required = max (stc_minimum_break_distance (smc_structure config)) (atr * stc_atr_break_multiplier (smc_structure config));
          by_close = (required \<le> close_distance);
          by_wick = (required \<le> wick_distance);
          confirmed = (case stc_confirmation_method (smc_structure config) of
            By_Close \<Rightarrow> by_close | By_Wick \<Rightarrow> by_wick | By_Hybrid \<Rightarrow> by_close \<and> by_wick)
      in (confirmed, by_close, by_wick, max 0 (if by_close then close_distance else wick_distance)))"

definition displacement :: "candle \<Rightarrow> f64 \<Rightarrow> f64" where
  "displacement c atr =
     (let extent = max (ck_high c - ck_low c) tiny;
          body_ratio = \<bar>ck_close c - ck_open c\<bar> / extent;
          range_ratio = extent / max atr tiny
      in min (fint 100) (body_ratio * fint 60 + min (fint 2) range_ratio / fint 2 * fint 40))"

text \<open>\<open>_transition\<close>.\<close>

definition structure_transition :: "smc_config \<Rightarrow> structure_direction \<Rightarrow> structure_direction \<Rightarrow> f64 \<Rightarrow> structure_scope
    \<Rightarrow> structure_event_type \<times> structure_direction" where
  "structure_transition config previous dir moved scope =
     (if previous \<in> {Sd_Neutral, dir} then (Et_Bos, dir)
      else if stc_mss_displacement_score (smc_structure config) \<le> moved
           \<and> (scope = Sp_External \<or> \<not> stc_require_protected_level_for_mss (smc_structure config))
      then (Et_Mss, dir) else (Et_Choch, Sd_Transitional))"

text \<open>\<open>_event\<close>.\<close>

definition structure_event_of :: "runtime \<Rightarrow> smc_config \<Rightarrow> candle_context \<Rightarrow> candle \<Rightarrow> swing_point \<Rightarrow> structure_scope
    \<Rightarrow> structure_direction \<Rightarrow> structure_direction \<Rightarrow> structure_direction \<Rightarrow> structure_event_type \<Rightarrow> f64 \<Rightarrow> f64 \<Rightarrow> bool \<Rightarrow> bool
    \<Rightarrow> structure_event" where
  "structure_event_of rt config cx c level scope dir previous resulting kind distance moved by_close by_wick =
     \<lparr>ve_id = smc_id rt ''structure-event'' (kx_symbol cx) (kx_timeframe cx)
        [event_type_value kind, sp_id level, isoformat (ck_timestamp c), smc_version config],
      ve_event_type = kind, ve_symbol = kx_symbol cx, ve_timeframe = kx_timeframe cx, ve_scope = scope, ve_direction = dir,
      ve_timestamp = ck_timestamp c, ve_broken_level = sp_price level, ve_broken_swing_id = sp_id level,
      ve_confirmation_candle_id = kx_symbol cx @ '':'' @ bar_timeframe_value (kx_timeframe cx) @ '':'' @ isoformat (ck_timestamp c),
      ve_confirmation_method = stc_confirmation_method (smc_structure config), ve_close_confirmed = by_close, ve_wick_confirmed = by_wick,
      ve_previous_direction = previous, ve_resulting_direction = resulting, ve_break_distance = distance, ve_displacement_score = moved,
      ve_confidence_score = min (fint 100) (sp_confidence_score level * fl64 (35 / 100) + moved * fl64 (35 / 100)
        + sp_quality_score level * fl64 (3 / 10)),
      ve_quality_score = sp_quality_score level,
      ve_evidence = [
        \<lparr>sme_code = ''level_break'', sme_description = ''configured structural level was broken'', sme_value = distance,
          sme_threshold = stc_minimum_break_distance (smc_structure config), sme_passed = True\<rparr>,
        \<lparr>sme_code = ''displacement'', sme_description = ''confirmation candle displacement score'', sme_value = moved,
          sme_threshold = stc_mss_displacement_score (smc_structure config),
          sme_passed = (stc_mss_displacement_score (smc_structure config) \<le> moved)\<rparr>,
        \<lparr>sme_code = ''source_quality'', sme_description = ''minimum source candle quality'', sme_value = sp_quality_score level,
          sme_threshold = prc_minimum_input_quality (smc_processing config),
          sme_passed = (prc_minimum_input_quality (smc_processing config) \<le> sp_quality_score level)\<rparr>],
      ve_invalidation_rule = ''opposing confirmed break of protected structural level'',
      ve_algorithm_version = smc_algorithm_version config, ve_created_at = ck_timestamp c\<rparr>"

text \<open>One level of one scope at one candle.\<close>

definition break_level :: "runtime \<Rightarrow> smc_config \<Rightarrow> candle_context \<Rightarrow> nat \<Rightarrow> structure_scope \<Rightarrow> structure_direction \<Rightarrow> swing_point
    \<Rightarrow> structure_track \<Rightarrow> structure_track" where
  "break_level rt config cx i scope dir level k =
     (let c = kx_candles cx ! i
      in if sp_id level \<in> set (kt_broken k) \<or> ck_timestamp c \<le> (case sp_confirmed_at level of Some t \<Rightarrow> t | None \<Rightarrow> sp_timestamp level) then k
         else (case level_break config c (sp_price level) dir (atr_at cx i) of
           (confirmed, by_close, by_wick, distance) \<Rightarrow>
             if \<not> confirmed then k
             else (let previous = kt_directions k scope;
                       moved = displacement c (atr_at cx i);
                       (kind, resulting) = structure_transition config previous dir moved scope;
                       e = structure_event_of rt config cx c level scope dir previous resulting kind distance moved by_close by_wick
                   in k\<lparr>kt_events := kt_events k @ [e], kt_broken := sp_id level # kt_broken k,
                        kt_directions := (kt_directions k)(scope := resulting)\<rparr>)))"

definition try_break :: "runtime \<Rightarrow> smc_config \<Rightarrow> candle_context \<Rightarrow> nat \<Rightarrow> structure_scope \<times> structure_direction
    \<Rightarrow> structure_track \<Rightarrow> structure_track" where
  "try_break rt config cx i sd k =
     (case (if snd sd = Sd_Bullish then kt_high k (fst sd) else kt_low k (fst sd)) of
        None \<Rightarrow> k | Some level \<Rightarrow> break_level rt config cx i (fst sd) (snd sd) level k)"

definition break_order :: "(structure_scope \<times> structure_direction) list" where
  "break_order = [(Sp_Internal, Sd_Bullish), (Sp_Internal, Sd_Bearish), (Sp_External, Sd_Bullish), (Sp_External, Sd_Bearish)]"

definition available_at :: "swing_point list \<Rightarrow> instant \<Rightarrow> swing_point list" where
  "available_at swings t = filter (\<lambda>s. sp_confirmed_at s = Some t) swings"

definition structure_candle :: "runtime \<Rightarrow> smc_config \<Rightarrow> candle_context \<Rightarrow> swing_point list \<Rightarrow> structure_track \<Rightarrow> nat \<Rightarrow> structure_track" where
  "structure_candle rt config cx swings k i =
     fold (try_break rt config cx i) break_order
       (fold apply_swing (available_at swings (ck_timestamp (kx_candles cx ! i))) k)"

definition track_structure :: "runtime \<Rightarrow> smc_config \<Rightarrow> candle_context \<Rightarrow> swing_point list \<Rightarrow> structure_track" where
  "track_structure rt config cx swings =
     foldl (structure_candle rt config cx swings) initial_track [0..<length (kx_candles cx)]"

text \<open>\<open>_legs\<close>.\<close>

definition leg_between :: "runtime \<Rightarrow> candle_context \<Rightarrow> swing_point \<Rightarrow> swing_point \<Rightarrow> structure_leg" where
  "leg_between rt cx a b =
     (let magnitude = \<bar>sp_price b - sp_price a\<bar>;
          atr = max (kx_average_true_range cx) tiny
      in \<lparr>lg_id = smc_id rt ''leg'' (kx_symbol cx) (kx_timeframe cx) [sp_id a, sp_id b], lg_symbol = kx_symbol cx, lg_timeframe = kx_timeframe cx,
          lg_start_swing_id = sp_id a, lg_end_swing_id = sp_id b,
          lg_direction = (if sp_price a < sp_price b then Sd_Bullish else Sd_Bearish), lg_scope = sp_scope b,
          lg_high = max (sp_price a) (sp_price b), lg_low = min (sp_price a) (sp_price b), lg_magnitude = magnitude,
          lg_duration_seconds = total_seconds (sp_timestamp b - sp_timestamp a),
          lg_displacement_score = min (fint 100) (magnitude / atr * fint 25), lg_confirmation_state = Cf_Confirmed,
          lg_confidence_score = min (sp_confidence_score a) (sp_confidence_score b)\<rparr>)"

definition structure_legs :: "runtime \<Rightarrow> candle_context \<Rightarrow> swing_point list \<Rightarrow> structure_leg list" where
  "structure_legs rt cx swings =
     (let ordered = sort_key sp_timestamp swings
      in map (\<lambda>(a, b). leg_between rt cx a b)
           (filter (\<lambda>(a, b). is_high (sp_swing_type a) \<noteq> is_high (sp_swing_type b)) (zip ordered (tl ordered))))"

definition or_else :: "'a option \<Rightarrow> 'a option \<Rightarrow> 'a option" where
  "or_else a b = (case a of Some x \<Rightarrow> Some x | None \<Rightarrow> b)"

definition last_of_type :: "structure_event_type \<Rightarrow> structure_event list \<Rightarrow> uuid option" where
  "last_of_type t es = map_option ve_id (find (\<lambda>e. ve_event_type e = t) (rev es))"

definition structure_state_of :: "candle_context \<Rightarrow> structure_track \<Rightarrow> market_structure" where
  "structure_state_of cx k =
     (let events = kt_events k;
          current = (if kt_directions k Sp_External \<noteq> Sd_Neutral then kt_directions k Sp_External else kt_directions k Sp_Internal);
          high = map_option sp_id (or_else (kt_high k Sp_External) (kt_high k Sp_Internal));
          low = map_option sp_id (or_else (kt_low k Sp_External) (kt_low k Sp_Internal));
          newest = ck_timestamp (last (kx_candles cx))
      in \<lparr>mk_symbol = kx_symbol cx, mk_timeframe = kx_timeframe cx, mk_current_direction = current,
          mk_previous_direction = (if events = [] then Sd_Neutral else ve_previous_direction (last events)),
          mk_internal_direction = kt_directions k Sp_Internal, mk_external_direction = kt_directions k Sp_External,
          mk_active_swing_high_id = high, mk_active_swing_low_id = low,
          mk_protected_high_id = (if current = Sd_Bearish then high else None),
          mk_protected_low_id = (if current = Sd_Bullish then low else None),
          mk_last_bos_id = last_of_type Et_Bos events, mk_last_choch_id = last_of_type Et_Choch events,
          mk_last_mss_id = last_of_type Et_Mss events, mk_state_version = length events,
          mk_last_processed_candle = newest, mk_updated_at = newest\<rparr>)"

subsection \<open>The structural part of a snapshot\<close>

text \<open>\<open>_bootstrap_break\<close> of \<open>analyzer.py\<close>.\<close>

definition bootstrap_break :: "runtime \<Rightarrow> smc_config \<Rightarrow> candle_context \<Rightarrow> structure_event option" where
  "bootstrap_break rt config cx =
     (let c = last (kx_candles cx);
          prior = butlast (kx_candles cx);
          n = length (kx_candles cx) - 1;
          high = Max (set (map ck_high prior));
          low = Min (set (map ck_low prior));
          make = (\<lambda>dir level.
            let distance = \<bar>ck_close c - level\<bar>; quality = Min (set (map ck_quality_score (kx_candles cx)))
            in \<lparr>ve_id = smc_id rt ''structure-event'' (kx_symbol cx) (kx_timeframe cx)
                  [''bootstrap'', isoformat (ck_timestamp c), smc_version config],
                ve_event_type = Et_Bos, ve_symbol = kx_symbol cx, ve_timeframe = kx_timeframe cx, ve_scope = Sp_External, ve_direction = dir,
                ve_timestamp = ck_timestamp c, ve_broken_level = level,
                ve_broken_swing_id = smc_id rt ''bootstrap-level'' (kx_symbol cx) (kx_timeframe cx) [rt_float_repr rt level],
                ve_confirmation_candle_id = candle_id cx n, ve_confirmation_method = By_Close, ve_close_confirmed = True,
                ve_wick_confirmed = True, ve_previous_direction = Sd_Neutral, ve_resulting_direction = dir, ve_break_distance = distance,
                ve_displacement_score = displacement c (atr_at cx n),
                ve_confidence_score = min (fint 100) (fint 70 * quality / fint 100), ve_quality_score = quality,
                ve_evidence = [\<lparr>sme_code = ''initial_range_break'',
                  sme_description = ''close broke the range established before the analysis boundary'', sme_value = distance,
                  sme_threshold = 0, sme_passed = True\<rparr>],
                ve_invalidation_rule = ''opposing confirmed break of the initial range'', ve_algorithm_version = smc_algorithm_version config,
                ve_created_at = ck_timestamp c\<rparr>)
      in if high < ck_close c then Some (make Sd_Bullish high)
         else if ck_close c < low then Some (make Sd_Bearish low) else None)"

text \<open>What \<open>analyze_snapshot\<close> publishes of the structure: nothing before the minimum history, then swings, state, legs and events.\<close>

definition structural_snapshot :: "runtime \<Rightarrow> smc_config \<Rightarrow> candle list
    \<Rightarrow> smc_error + (swing_point list \<times> market_structure \<times> structure_leg list \<times> structure_event list) option" where
  "structural_snapshot rt config data =
     (if length data < prc_minimum_history (smc_processing config) then Inr None
      else bindE (build_context data config) (\<lambda>cx.
        let swings = detect_swings rt config cx;
            k = track_structure rt config cx swings;
            state = structure_state_of cx k;
            legs = structure_legs rt cx swings
        in case (kt_events k, bootstrap_break rt config cx) of
             ([], Some e) \<Rightarrow> Inr (Some (swings, state\<lparr>mk_current_direction := ve_direction e, mk_external_direction := ve_direction e,
               mk_last_bos_id := Some (ve_id e), mk_state_version := 1\<rparr>, legs, [e]))
           | (events, _) \<Rightarrow> Inr (Some (swings, state, legs, events))))"

subsection \<open>The context of a prefix\<close>

lemma build_loop_take:
  "build_loop symbol tf p seen cs = Inr rs \<Longrightarrow> build_loop symbol tf p seen (take m cs) = Inr (take m rs) \<and> length rs = length cs"
proof (induction cs arbitrary: p seen rs m)
  case (Cons c cs)
  then show ?case by (cases m) (auto simp: bindE_eq_Inr split: if_split_asm)
qed simp

lemma build_loop_sorted:
  "build_loop symbol tf p seen cs = Inr rs \<Longrightarrow> sorted_wrt (<) (map ck_timestamp cs)
     \<and> (\<forall>q. p = Some q \<longrightarrow> (\<forall>c \<in> set cs. ck_timestamp q < ck_timestamp c))"
proof (induction cs arbitrary: p seen rs)
  case (Cons c cs)
  then obtain rs' where rest: "build_loop symbol tf (Some c) (ck_timestamp c # seen) cs = Inr rs'"
    and now: "\<forall>q. p = Some q \<longrightarrow> ck_timestamp q < ck_timestamp c"
    by (auto simp: bindE_eq_Inr split: if_split_asm option.split_asm)
  show ?case using Cons.IH [OF rest] now by fastforce
qed simp

text \<open>The context of the first \<open>m\<close> candles as seen from the full one: only the averages, the qualities and the boundary differ.\<close>

definition context_prefix :: "nat \<Rightarrow> candle_context \<Rightarrow> candle_context \<Rightarrow> bool" where
  "context_prefix m cx' cx \<longleftrightarrow> kx_candles cx' = take m (kx_candles cx) \<and> kx_true_ranges cx' = take m (kx_true_ranges cx)
     \<and> kx_symbol cx' = kx_symbol cx \<and> kx_timeframe cx' = kx_timeframe cx \<and> m \<le> length (kx_candles cx)
     \<and> length (kx_true_ranges cx) = length (kx_candles cx) \<and> sorted_wrt (<) (map ck_timestamp (kx_candles cx))"

lemma build_context_fields:
  assumes "build_context cs config = Inr cx"
  shows "kx_candles cx = cs" "cs \<noteq> []" "length (kx_true_ranges cx) = length cs" "sorted_wrt (<) (map ck_timestamp cs)"
  using assms build_loop_take build_loop_sorted
  by (fastforce simp: build_context_def Let_def bindE_eq_Inr split: list.split_asm)+

lemma build_context_take:
  assumes "build_context cs config = Inr cx" "0 < m" "m \<le> length cs"
  obtains cx' where "build_context (take m cs) config = Inr cx'" "context_prefix m cx' cx"
proof -
  obtain c ds where cs: "cs = c # ds" using build_context_fields(2) [OF assms(1)] by (cases cs) auto
  obtain j where m: "m = Suc j" using assms(2) by (cases m) auto
  obtain symbol rs where s: "smc_symbol c = Inr symbol" and rs: "build_loop symbol (ck_timeframe c) None [] cs = Inr rs"
    and cx: "kx_true_ranges cx = rs" "kx_symbol cx = symbol" "kx_timeframe cx = ck_timeframe c"
    using assms(1) by (auto simp: build_context_def cs Let_def bindE_eq_Inr)
  have "build_loop symbol (ck_timeframe c) None [] (take m cs) = Inr (take m rs)" using build_loop_take [OF rs] by blast
  then obtain cx' where "build_context (take m cs) config = Inr cx'" "kx_true_ranges cx' = take m rs" "kx_symbol cx' = symbol"
      "kx_timeframe cx' = ck_timeframe c" "kx_candles cx' = take m cs"
    using s by (simp add: build_context_def cs m Let_def del: build_loop.simps)
  then show ?thesis using that build_context_fields [OF assms(1)] assms(3) cx by (simp add: context_prefix_def)
qed

lemma slice_take: "b \<le> m \<Longrightarrow> slice (take m xs) a b = slice xs a b"
proof (cases "a \<le> b")
  case True
  assume "b \<le> m"
  then show ?thesis using True by (simp add: slice_def take_drop min_def)
qed (simp add: slice_def)

lemma prefix_nth: "context_prefix m cx' cx \<Longrightarrow> i < m \<Longrightarrow> kx_candles cx' ! i = kx_candles cx ! i"
  by (simp add: context_prefix_def)

lemma prefix_atr: "context_prefix m cx' cx \<Longrightarrow> i < m \<Longrightarrow> atr_at cx' i = atr_at cx i"
  by (simp add: atr_at_def context_prefix_def slice_take)

lemma prefix_slice: "context_prefix m cx' cx \<Longrightarrow> b \<le> m \<Longrightarrow> slice (kx_candles cx') a b = slice (kx_candles cx) a b"
  by (simp add: context_prefix_def slice_take)

lemma prefix_names: "context_prefix m cx' cx \<Longrightarrow> kx_symbol cx' = kx_symbol cx" "context_prefix m cx' cx \<Longrightarrow> kx_timeframe cx' = kx_timeframe cx"
  by (simp_all add: context_prefix_def)

lemma prefix_candle_id: "context_prefix m cx' cx \<Longrightarrow> i < m \<Longrightarrow> candle_id cx' i = candle_id cx i"
  by (simp add: candle_id_def prefix_nth prefix_names)

lemma prefix_length: "context_prefix m cx' cx \<Longrightarrow> length (kx_candles cx') = m"
  by (simp add: context_prefix_def)

lemmas prefix_simps = prefix_nth prefix_atr prefix_slice prefix_names prefix_candle_id prefix_length

subsection \<open>Swings do not look ahead\<close>

abbreviation left_of :: "smc_config \<Rightarrow> nat" where
  "left_of config \<equiv> swc_left_window (smc_swing config)"

abbreviation right_of :: "smc_config \<Rightarrow> nat" where
  "right_of config \<equiv> swc_right_window (smc_swing config)"

lemma prefix_swing_at:
  assumes "context_prefix m cx' cx" "i + right_of config < m"
  shows "swing_at rt config cx' high i = swing_at rt config cx high i"
proof -
  have ids: "map (candle_id cx') [i - left_of config..<i + right_of config + 1] = map (candle_id cx) [i - left_of config..<i + right_of config + 1]"
    using assms by (intro map_cong refl prefix_candle_id) auto
  show ?thesis unfolding swing_at_def Let_def ids using assms by (simp add: prefix_simps)
qed

lemma prefix_pivot: "context_prefix m cx' cx \<Longrightarrow> i + right_of config < m \<Longrightarrow> pivot config cx' high i = pivot config cx high i"
  by (simp add: pivot_def Let_def prefix_simps)

lemma swing_at_index: "sp_candle_index (swing_at rt config cx high i) = i"
  by (simp add: swing_at_def Let_def)

lemma prefix_consider:
  assumes "context_prefix m cx' cx" "i + right_of config < m" "\<forall>j. previous = Some j \<longrightarrow> j < m"
  shows "consider_side rt config cx' high previous i = consider_side rt config cx high previous i"
proof -
  have "significant config cx' p previous = significant config cx p previous" if "sp_candle_index p = i" for p
    using assms that by (cases previous) (simp_all add: significant_def Let_def prefix_simps)
  then show ?thesis using assms by (simp add: consider_side_def prefix_swing_at prefix_pivot swing_at_index)
qed

lemma consider_last: "snd (consider_side rt config cx high previous i) \<in> {previous, Some i}"
  by (simp add: consider_side_def)

lemma prefix_detect_loop:
  assumes "context_prefix m cx' cx" "\<forall>i \<in> set is. i + right_of config < m"
    and "\<forall>j. h = Some j \<longrightarrow> j < m" "\<forall>j. l = Some j \<longrightarrow> j < m"
  shows "detect_loop rt config cx' h l is = detect_loop rt config cx h l is"
  using assms(2-4)
proof (induction "is" arbitrary: h l)
  case (Cons i "is")
  have i: "i + right_of config < m" "i < m" using Cons.prems(1) by auto
  obtain hs h' where h: "consider_side rt config cx True h i = (hs, h')" by fastforce
  obtain ls l' where l: "consider_side rt config cx False l i = (ls, l')" by fastforce
  have "h' \<in> {h, Some i}" "l' \<in> {l, Some i}" using consider_last [of rt config cx True h i] consider_last [of rt config cx False l i] h l by simp_all
  then have "\<forall>j. h' = Some j \<longrightarrow> j < m" "\<forall>j. l' = Some j \<longrightarrow> j < m" using Cons.prems(2,3) i(2) by auto
  then have "detect_loop rt config cx' h' l' is = detect_loop rt config cx h' l' is" using Cons.IH Cons.prems(1) by simp
  then show ?case
    using prefix_consider [OF assms(1) i(1) Cons.prems(2)] prefix_consider [OF assms(1) i(1) Cons.prems(3)] h l by simp
qed simp

lemma detect_loop_index: "s \<in> set (detect_loop rt config cx h l is) \<Longrightarrow> \<exists>high. \<exists>i \<in> set is. s = swing_at rt config cx high i"
proof (induction "is" arbitrary: h l)
  case (Cons i "is")
  then show ?case by (fastforce simp: consider_side_def split: prod.splits if_split_asm)
qed simp

lemma detect_loop_append: "\<exists>h' l'. detect_loop rt config cx h l (is @ js) = detect_loop rt config cx h l is @ detect_loop rt config cx h' l' js"
proof (induction "is" arbitrary: h l)
  case Nil
  then show ?case by auto
next
  case (Cons i "is")
  show ?case using Cons.IH by (simp split: prod.split)
qed

lemma detect_swings_prefix:
  assumes "context_prefix m cx' cx"
  shows "detect_swings rt config cx' = filter (\<lambda>s. sp_candle_index s + right_of config < m) (detect_swings rt config cx)"
proof -
  let ?n = "length (kx_candles cx)" and ?P = "\<lambda>s. sp_candle_index s + right_of config < m"
  let ?all = "detect_loop rt config cx None None [left_of config..<?n - right_of config]"
  define mid where "mid = max (left_of config) (m - right_of config)"
  have m: "m \<le> ?n" using assms by (simp add: context_prefix_def)
  have split: "[left_of config..<?n - right_of config] = [left_of config..<m - right_of config] @ [mid..<?n - right_of config]"
  proof (cases "left_of config \<le> m - right_of config")
    case True
    have "m - right_of config + (?n - right_of config - (m - right_of config)) = ?n - right_of config" using m by arith
    then show ?thesis using True upt_add_eq_append [of "left_of config" "m - right_of config" "?n - right_of config - (m - right_of config)"]
      by (simp add: mid_def del: diff_diff_left)
  qed (simp add: mid_def)
  have same: "detect_loop rt config cx' None None [left_of config..<m - right_of config] = detect_loop rt config cx None None [left_of config..<m - right_of config]"
    by (rule prefix_detect_loop [OF assms]) auto
  obtain h l where all: "?all = detect_loop rt config cx None None [left_of config..<m - right_of config] @ detect_loop rt config cx h l [mid..<?n - right_of config]"
    unfolding split using detect_loop_append by blast
  have early: "filter ?P (detect_loop rt config cx None None [left_of config..<m - right_of config]) = detect_loop rt config cx None None [left_of config..<m - right_of config]"
    by (rule filter_True) (auto dest!: detect_loop_index simp: swing_at_index)
  have late: "filter ?P (detect_loop rt config cx h l [mid..<?n - right_of config]) = []"
    by (rule filter_False) (auto dest!: detect_loop_index simp: swing_at_index mid_def)
  have "filter ?P ?all = detect_loop rt config cx' None None [left_of config..<length (kx_candles cx') - right_of config]"
    unfolding all filter_append early late using same prefix_length [OF assms] by simp
  then show ?thesis by (simp add: detect_swings_def filter_sort)
qed

subsection \<open>The loop over the candles\<close>

lemma fold_invariant: "P k \<Longrightarrow> (\<And>x k. x \<in> set xs \<Longrightarrow> P k \<Longrightarrow> P (f x k)) \<Longrightarrow> P (fold f xs k)"
  by (induction xs arbitrary: k) auto

lemma foldl_invariant: "P k \<Longrightarrow> (\<And>x k. x \<in> set xs \<Longrightarrow> P k \<Longrightarrow> P (f k x)) \<Longrightarrow> P (foldl f k xs)"
  by (induction xs arbitrary: k) auto

lemma structure_candle_invariant:
  assumes "P k" "\<And>s k. s \<in> set (available_at swings (ck_timestamp (kx_candles cx ! i))) \<Longrightarrow> P k \<Longrightarrow> P (apply_swing s k)"
    and "\<And>sd k. sd \<in> set break_order \<Longrightarrow> P k \<Longrightarrow> P (try_break rt config cx i sd k)"
  shows "P (structure_candle rt config cx swings k i)"
  unfolding structure_candle_def
proof (rule fold_invariant [where P = P])
  show "P (fold apply_swing (available_at swings (ck_timestamp (kx_candles cx ! i))) k)"
    by (rule fold_invariant [where P = P]) (fact assms(1), fact assms(2))
qed (fact assms(3))

lemma track_invariant:
  assumes "P initial_track" "\<And>s k. s \<in> set swings \<Longrightarrow> P k \<Longrightarrow> P (apply_swing s k)"
    and "\<And>i sd k. i < length (kx_candles cx) \<Longrightarrow> sd \<in> set break_order \<Longrightarrow> P k \<Longrightarrow> P (try_break rt config cx i sd k)"
  shows "P (track_structure rt config cx swings)"
  unfolding track_structure_def
proof (rule foldl_invariant [where P = P])
  fix i k assume i: "i \<in> set [0..<length (kx_candles cx)]" and k: "P k"
  show "P (structure_candle rt config cx swings k i)"
  proof (rule structure_candle_invariant [where P = P, OF k])
    fix s k assume "s \<in> set (available_at swings (ck_timestamp (kx_candles cx ! i)))" "P k"
    then show "P (apply_swing s k)" by (intro assms(2)) (simp_all add: available_at_def)
  next
    fix sd k assume "sd \<in> set break_order" "P k"
    then show "P (try_break rt config cx i sd k)" using i by (intro assms(3)) simp_all
  qed
qed (fact assms(1))

text \<open>What a step does when a level breaks.\<close>

definition level_of :: "structure_scope \<times> structure_direction \<Rightarrow> structure_track \<Rightarrow> swing_point option" where
  "level_of sd k = (if snd sd = Sd_Bullish then kt_high k (fst sd) else kt_low k (fst sd))"

definition confirmed_time :: "swing_point \<Rightarrow> instant" where
  "confirmed_time s = (case sp_confirmed_at s of Some t \<Rightarrow> t | None \<Rightarrow> sp_timestamp s)"

definition break_event :: "runtime \<Rightarrow> smc_config \<Rightarrow> candle_context \<Rightarrow> nat \<Rightarrow> structure_scope \<times> structure_direction \<Rightarrow> swing_point
    \<Rightarrow> structure_direction \<Rightarrow> structure_event" where
  "break_event rt config cx i sd level previous =
     (let c = kx_candles cx ! i; atr = atr_at cx i; moved = displacement c atr;
          (kind, resulting) = structure_transition config previous (snd sd) moved (fst sd);
          (confirmed, by_close, by_wick, distance) = level_break config c (sp_price level) (snd sd) atr
      in structure_event_of rt config cx c level (fst sd) (snd sd) previous resulting kind distance moved by_close by_wick)"

lemma try_break_step:
  "try_break rt config cx i sd k = k
   \<or> (\<exists>level e. level_of sd k = Some level \<and> sp_id level \<notin> set (kt_broken k)
        \<and> confirmed_time level < ck_timestamp (kx_candles cx ! i)
        \<and> e = break_event rt config cx i sd level (kt_directions k (fst sd))
        \<and> try_break rt config cx i sd k = k\<lparr>kt_events := kt_events k @ [e], kt_broken := sp_id level # kt_broken k,
             kt_directions := (kt_directions k)(fst sd := ve_resulting_direction e)\<rparr>)"
proof (cases "level_of sd k")
  case None
  then show ?thesis by (simp add: try_break_def level_of_def)
next
  case (Some level)
  have t: "try_break rt config cx i sd k = break_level rt config cx i (fst sd) (snd sd) level k"
    using Some by (simp add: try_break_def level_of_def)
  obtain confirmed by_close by_wick distance where b: "level_break config (kx_candles cx ! i) (sp_price level) (snd sd) (atr_at cx i)
      = (confirmed, by_close, by_wick, distance)" by (metis prod_cases4)
  show ?thesis
  proof (cases "sp_id level \<in> set (kt_broken k) \<or> ck_timestamp (kx_candles cx ! i) \<le> confirmed_time level \<or> \<not> confirmed")
    case True
    then show ?thesis unfolding t break_level_def Let_def b confirmed_time_def by auto
  next
    case False
    obtain kind resulting where r: "structure_transition config (kt_directions k (fst sd)) (snd sd) (displacement (kx_candles cx ! i) (atr_at cx i)) (fst sd)
        = (kind, resulting)" by fastforce
    have e: "structure_event_of rt config cx (kx_candles cx ! i) level (fst sd) (snd sd) (kt_directions k (fst sd)) resulting kind distance
        (displacement (kx_candles cx ! i) (atr_at cx i)) by_close by_wick = break_event rt config cx i sd level (kt_directions k (fst sd))"
      unfolding break_event_def Let_def b r prod.case ..
    have resulting: "ve_resulting_direction (break_event rt config cx i sd level (kt_directions k (fst sd))) = resulting"
      unfolding e [symmetric] by (simp add: structure_event_of_def)
    have new: "\<not> (sp_id level \<in> set (kt_broken k) \<or> ck_timestamp (kx_candles cx ! i) \<le> confirmed_time level)" and confirmed using False by auto
    have "try_break rt config cx i sd k = k\<lparr>kt_events := kt_events k @ [break_event rt config cx i sd level (kt_directions k (fst sd))],
        kt_broken := sp_id level # kt_broken k, kt_directions := (kt_directions k)(fst sd := resulting)\<rparr>"
      using \<open>confirmed\<close> unfolding t break_level_def Let_def if_not_P [OF new [unfolded confirmed_time_def]] b prod.case r e by simp
    then show ?thesis using Some new resulting by (intro disjI2 exI [of _ level] exI conjI refl) auto
  qed
qed

lemma break_event_fields:
  "ve_scope (break_event rt config cx i sd level d) = fst sd" "ve_direction (break_event rt config cx i sd level d) = snd sd"
  "ve_previous_direction (break_event rt config cx i sd level d) = d" "ve_broken_swing_id (break_event rt config cx i sd level d) = sp_id level"
  "ve_timestamp (break_event rt config cx i sd level d) = ck_timestamp (kx_candles cx ! i)"
  "ve_broken_level (break_event rt config cx i sd level d) = sp_price level"
  "sme_code (hd (ve_evidence (break_event rt config cx i sd level d))) = ''level_break''"
  "(ve_event_type (break_event rt config cx i sd level d), ve_resulting_direction (break_event rt config cx i sd level d))
     = structure_transition config d (snd sd) (ve_displacement_score (break_event rt config cx i sd level d)) (fst sd)"
  by (simp_all add: break_event_def Let_def structure_event_of_def split: prod.split)

lemma apply_swing_fields [simp]:
  "kt_events (apply_swing s k) = kt_events k" "kt_broken (apply_swing s k) = kt_broken k" "kt_directions (apply_swing s k) = kt_directions k"
  by (simp_all add: apply_swing_def)

subsection \<open>Structure does not look ahead\<close>

lemma prefix_break_level:
  assumes "context_prefix m cx' cx" "i < m"
  shows "break_level rt config cx' i scope dir level k = break_level rt config cx i scope dir level k"
  unfolding break_level_def structure_event_of_def prefix_nth [OF assms] prefix_atr [OF assms] prefix_names [OF assms(1)] ..

lemma prefix_try_break:
  assumes "context_prefix m cx' cx" "i < m"
  shows "try_break rt config cx' i = try_break rt config cx i"
  by (intro ext) (simp add: try_break_def prefix_break_level [OF assms] split: option.split)

lemma detected_confirmed:
  assumes "s \<in> set (detect_swings rt config cx)"
  shows "sp_confirmed_at s = Some (ck_timestamp (kx_candles cx ! (sp_candle_index s + right_of config)))
     \<and> left_of config \<le> sp_candle_index s \<and> sp_candle_index s + right_of config < length (kx_candles cx)"
proof -
  obtain high i where "i \<in> set [left_of config..<length (kx_candles cx) - right_of config]" "s = swing_at rt config cx high i"
    using assms detect_loop_index by (fastforce simp: detect_swings_def)
  then show ?thesis by (auto simp: swing_at_def Let_def)
qed

lemma timestamps_inject:
  assumes "context_prefix m cx' cx" "i < length (kx_candles cx)" "j < length (kx_candles cx)"
    "ck_timestamp (kx_candles cx ! i) = ck_timestamp (kx_candles cx ! j)"
  shows "i = j"
proof -
  have "distinct (map ck_timestamp (kx_candles cx))"
    using assms(1) strict_sorted_iff by (auto simp: context_prefix_def)
  then show ?thesis using assms(2-4) nth_eq_iff_index_eq [of "map ck_timestamp (kx_candles cx)" i j] by simp
qed

lemma prefix_available:
  assumes "context_prefix m cx' cx" "i < m"
  shows "available_at (detect_swings rt config cx') (ck_timestamp (kx_candles cx ! i))
    = available_at (detect_swings rt config cx) (ck_timestamp (kx_candles cx ! i))"
proof -
  have "sp_candle_index s + right_of config < m"
    if "s \<in> set (detect_swings rt config cx)" "sp_confirmed_at s = Some (ck_timestamp (kx_candles cx ! i))" for s
    using detected_confirmed [OF that(1)] that(2) assms timestamps_inject [OF assms(1), of "sp_candle_index s + right_of config" i]
    by (simp add: context_prefix_def)
  then show ?thesis unfolding available_at_def detect_swings_prefix [OF assms(1)] filter_filter
    by (intro filter_cong refl) blast
qed

lemma structure_candle_events:
  "\<exists>es. kt_events (structure_candle rt config cx swings k i) = kt_events k @ es
     \<and> (\<forall>e \<in> set es. ve_timestamp e = ck_timestamp (kx_candles cx ! i))"
proof (rule structure_candle_invariant)
  fix sd and k' :: structure_track
  assume "\<exists>es. kt_events k' = kt_events k @ es \<and> (\<forall>e \<in> set es. ve_timestamp e = ck_timestamp (kx_candles cx ! i))"
  then obtain es where es: "kt_events k' = kt_events k @ es" "\<forall>e \<in> set es. ve_timestamp e = ck_timestamp (kx_candles cx ! i)" by blast
  show "\<exists>es. kt_events (try_break rt config cx i sd k') = kt_events k @ es \<and> (\<forall>e \<in> set es. ve_timestamp e = ck_timestamp (kx_candles cx ! i))"
    using try_break_step [of rt config cx i sd k']
  proof (elim disjE exE conjE)
    fix level e assume "e = break_event rt config cx i sd level (kt_directions k' (fst sd))"
      "try_break rt config cx i sd k' = k'\<lparr>kt_events := kt_events k' @ [e], kt_broken := sp_id level # kt_broken k',
             kt_directions := (kt_directions k')(fst sd := ve_resulting_direction e)\<rparr>"
    then show ?thesis using es by (intro exI [of _ "es @ [e]"]) (auto simp: break_event_fields)
  qed (use es in auto)
qed simp_all

lemma later_candles_events:
  "\<exists>es. kt_events (foldl (structure_candle rt config cx swings) k is) = kt_events k @ es
     \<and> (\<forall>e \<in> set es. \<exists>i \<in> set is. ve_timestamp e = ck_timestamp (kx_candles cx ! i))"
proof (induction "is" arbitrary: k)
  case (Cons i "is")
  obtain es where es: "kt_events (structure_candle rt config cx swings k i) = kt_events k @ es"
    "\<forall>e \<in> set es. ve_timestamp e = ck_timestamp (kx_candles cx ! i)" using structure_candle_events by blast
  obtain fs where fs: "kt_events (foldl (structure_candle rt config cx swings) (structure_candle rt config cx swings k i) is)
      = kt_events (structure_candle rt config cx swings k i) @ fs"
    "\<forall>e \<in> set fs. \<exists>i \<in> set is. ve_timestamp e = ck_timestamp (kx_candles cx ! i)" using Cons by blast
  show ?case using es fs by (intro exI [of _ "es @ fs"]) auto
qed simp

lemma track_prefix:
  assumes "context_prefix m cx' cx"
  shows "track_structure rt config cx (detect_swings rt config cx) = foldl (structure_candle rt config cx (detect_swings rt config cx))
     (track_structure rt config cx' (detect_swings rt config cx')) [m..<length (kx_candles cx)]"
proof -
  have same: "structure_candle rt config cx' (detect_swings rt config cx') k i = structure_candle rt config cx (detect_swings rt config cx) k i"
    if "i < m" for k i
    using assms that by (simp add: structure_candle_def prefix_try_break prefix_nth prefix_available)
  have "foldl (structure_candle rt config cx' (detect_swings rt config cx')) initial_track [0..<m]
      = foldl (structure_candle rt config cx (detect_swings rt config cx)) initial_track [0..<m]"
    using same by (intro foldl_cong) auto
  moreover have "[0..<length (kx_candles cx)] = [0..<m] @ [m..<length (kx_candles cx)]"
    using assms upt_add_eq_append [of 0 m "length (kx_candles cx) - m"] by (simp add: context_prefix_def)
  ultimately show ?thesis unfolding track_structure_def prefix_length [OF assms] by simp
qed

lemma last_take_nth: "0 < m \<Longrightarrow> m \<le> length xs \<Longrightarrow> last (take m xs) = xs ! (m - 1)"
  by (subst last_conv_nth) auto

lemma events_prefix:
  assumes "context_prefix m cx' cx" "0 < m"
  shows "\<exists>later. kt_events (track_structure rt config cx (detect_swings rt config cx))
      = kt_events (track_structure rt config cx' (detect_swings rt config cx')) @ later
     \<and> (\<forall>e \<in> set later. ck_timestamp (last (kx_candles cx')) < ve_timestamp e)"
proof -
  obtain later where later: "kt_events (track_structure rt config cx (detect_swings rt config cx))
      = kt_events (track_structure rt config cx' (detect_swings rt config cx')) @ later"
    "\<forall>e \<in> set later. \<exists>i \<in> set [m..<length (kx_candles cx)]. ve_timestamp e = ck_timestamp (kx_candles cx ! i)"
    unfolding track_prefix [OF assms(1)] using later_candles_events by blast
  have "ck_timestamp (last (kx_candles cx')) < ck_timestamp (kx_candles cx ! i)" if "i \<in> set [m..<length (kx_candles cx)]" for i
  proof -
    have len: "m \<le> length (kx_candles cx)" and sorted: "sorted_wrt (<) (map ck_timestamp (kx_candles cx))"
      using assms(1) by (simp_all add: context_prefix_def)
    have "last (kx_candles cx') = kx_candles cx ! (m - 1)"
      using assms len by (simp add: context_prefix_def last_take_nth)
    moreover have i: "m - 1 < i" "i < length (map ck_timestamp (kx_candles cx))" "m - 1 < length (kx_candles cx)" using that assms(2) by auto
    ultimately show ?thesis using sorted_wrt_nth_less [OF sorted i(1,2)] by simp
  qed
  then show ?thesis using later by fastforce
qed

text \<open>Claim C10: neither swings nor structure events look ahead or repaint. The swings found in the first candles of a series
  are exactly the swings of the whole series whose confirmation window lies within those candles, and the events found
  there are an initial segment of the events of the whole series, all later events being newer than the last of those
  candles.\<close>

theorem structure_never_repaints:
  assumes "build_context cs config = Inr cx" "0 < m" "m \<le> length cs"
  shows "\<exists>cx'. build_context (take m cs) config = Inr cx'
     \<and> detect_swings rt config cx' = filter (\<lambda>s. sp_candle_index s + right_of config < m) (detect_swings rt config cx)
     \<and> (\<exists>later. kt_events (track_structure rt config cx (detect_swings rt config cx))
           = kt_events (track_structure rt config cx' (detect_swings rt config cx')) @ later
         \<and> (\<forall>e \<in> set later. ck_timestamp (cs ! (m - 1)) < ve_timestamp e))"
proof -
  obtain cx' where cx': "build_context (take m cs) config = Inr cx'" "context_prefix m cx' cx" using build_context_take [OF assms] .
  have "last (take m cs) = cs ! (m - 1)" using assms(2,3) by (simp add: last_take_nth)
  then have "last (kx_candles cx') = cs ! (m - 1)"
    using cx'(2) build_context_fields(1) [OF assms(1)] by (simp add: context_prefix_def)
  then show ?thesis using cx' detect_swings_prefix [OF cx'(2)] events_prefix [OF cx'(2) assms(2)] by metis
qed

subsection \<open>Events are runs of the transition function\<close>

fun scope_run :: "smc_config \<Rightarrow> structure_scope \<Rightarrow> structure_direction \<Rightarrow> structure_event list \<Rightarrow> bool" where
  "scope_run config scope d [] \<longleftrightarrow> True"
| "scope_run config scope d (e # es) \<longleftrightarrow> ve_previous_direction e = d \<and> ve_direction e \<in> {Sd_Bullish, Sd_Bearish}
     \<and> (ve_event_type e, ve_resulting_direction e) = structure_transition config d (ve_direction e) (ve_displacement_score e) scope
     \<and> scope_run config scope (ve_resulting_direction e) es"

fun run_end :: "structure_direction \<Rightarrow> structure_event list \<Rightarrow> structure_direction" where
  "run_end d [] = d"
| "run_end d (e # es) = run_end (ve_resulting_direction e) es"

lemma scope_run_append: "scope_run config scope d (es @ fs) \<longleftrightarrow> scope_run config scope d es \<and> scope_run config scope (run_end d es) fs"
  by (induction es arbitrary: d) auto

lemma run_end_append: "run_end d (es @ fs) = run_end (run_end d es) fs"
  by (induction es arbitrary: d) auto

definition of_scope :: "structure_scope \<Rightarrow> structure_event list \<Rightarrow> structure_event list" where
  "of_scope scope es = filter (\<lambda>e. ve_scope e = scope) es"

text \<open>An event breaks a swing of its own scope and side, found and confirmed before.\<close>

definition breaks_known_swing :: "swing_point list \<Rightarrow> structure_event \<Rightarrow> bool" where
  "breaks_known_swing swings e \<longleftrightarrow> (\<exists>s \<in> set swings. sp_id s = ve_broken_swing_id e \<and> sp_price s = ve_broken_level e
     \<and> sp_scope s = ve_scope e \<and> (is_high (sp_swing_type s) \<longleftrightarrow> ve_direction e = Sd_Bullish) \<and> confirmed_time s < ve_timestamp e)"

definition track_ok :: "smc_config \<Rightarrow> swing_point list \<Rightarrow> structure_track \<Rightarrow> bool" where
  "track_ok config swings k \<longleftrightarrow>
     (\<forall>scope. scope_run config scope Sd_Neutral (of_scope scope (kt_events k))
        \<and> kt_directions k scope = run_end Sd_Neutral (of_scope scope (kt_events k))
        \<and> (\<forall>s. kt_high k scope = Some s \<longrightarrow> s \<in> set swings \<and> sp_scope s = scope \<and> is_high (sp_swing_type s))
        \<and> (\<forall>s. kt_low k scope = Some s \<longrightarrow> s \<in> set swings \<and> sp_scope s = scope \<and> \<not> is_high (sp_swing_type s)))
     \<and> kt_broken k = rev (map ve_broken_swing_id (kt_events k)) \<and> distinct (kt_broken k)
     \<and> (\<forall>e \<in> set (kt_events k). breaks_known_swing swings e)"

lemma apply_swing_ok: "track_ok config swings k \<Longrightarrow> s \<in> set swings \<Longrightarrow> track_ok config swings (apply_swing s k)"
  by (auto simp: track_ok_def apply_swing_def)

lemma track_ok_level:
  assumes "track_ok config swings k" "level_of sd k = Some s" "snd sd \<in> {Sd_Bullish, Sd_Bearish}"
  shows "s \<in> set swings \<and> sp_scope s = fst sd \<and> (is_high (sp_swing_type s) \<longleftrightarrow> snd sd = Sd_Bullish)"
  using assms by (auto simp: track_ok_def level_of_def split: if_split_asm)

lemma track_ok_extend:
  assumes ok: "track_ok config swings k" and sd: "snd sd \<in> {Sd_Bullish, Sd_Bearish}"
    and level: "level_of sd k = Some level" "sp_id level \<notin> set (kt_broken k)" "confirmed_time level < ck_timestamp (kx_candles cx ! i)"
    and e: "e = break_event rt config cx i sd level (kt_directions k (fst sd))"
  shows "track_ok config swings (k\<lparr>kt_events := kt_events k @ [e], kt_broken := sp_id level # kt_broken k,
     kt_directions := (kt_directions k)(fst sd := ve_resulting_direction e)\<rparr>)"
proof -
  note l = track_ok_level [OF ok level(1) sd]
  have dir: "kt_directions k (fst sd) = run_end Sd_Neutral (of_scope (fst sd) (kt_events k))" using ok by (simp add: track_ok_def)
  have known: "breaks_known_swing swings e"
    unfolding breaks_known_swing_def using l level(3) by (intro bexI [of _ level]) (simp_all add: e break_event_fields)
  have step: "scope_run config (fst sd) (run_end Sd_Neutral (of_scope (fst sd) (kt_events k))) [e]"
    using sd dir by (simp add: e break_event_fields)
  have scope: "scope_run config scope Sd_Neutral (of_scope scope (kt_events k @ [e]))
      \<and> (if scope = fst sd then ve_resulting_direction e else kt_directions k scope) = run_end Sd_Neutral (of_scope scope (kt_events k @ [e]))" for scope
  proof (cases "scope = fst sd")
    case True
    then have "of_scope scope (kt_events k @ [e]) = of_scope (fst sd) (kt_events k) @ [e]" by (simp add: of_scope_def e break_event_fields)
    then show ?thesis using True step ok unfolding track_ok_def by (simp add: scope_run_append run_end_append)
  next
    case False
    then have "of_scope scope (kt_events k @ [e]) = of_scope scope (kt_events k)" by (simp add: of_scope_def e break_event_fields)
    then show ?thesis using False ok unfolding track_ok_def by simp
  qed
  let ?k = "k\<lparr>kt_events := kt_events k @ [e], kt_broken := sp_id level # kt_broken k,
     kt_directions := (kt_directions k)(fst sd := ve_resulting_direction e)\<rparr>"
  have distinct_broken: "distinct (map ve_broken_swing_id (kt_events k))" using ok unfolding track_ok_def by (metis distinct_rev)
  have broken: "kt_broken ?k = rev (map ve_broken_swing_id (kt_events ?k))" "distinct (kt_broken ?k)"
    using ok level(2) distinct_broken by (simp_all add: track_ok_def e break_event_fields)
  have events: "\<forall>x \<in> set (kt_events ?k). breaks_known_swing swings x" using ok known by (simp add: track_ok_def)
  have levels: "kt_high ?k = kt_high k" "kt_low ?k = kt_low k" by simp_all
  have runs: "scope_run config scope Sd_Neutral (of_scope scope (kt_events ?k)) \<and> kt_directions ?k scope = run_end Sd_Neutral (of_scope scope (kt_events ?k))" for scope
    using scope [of scope] by (simp add: fun_upd_apply)
  show ?thesis using runs broken events ok unfolding track_ok_def levels by blast
qed

lemma break_order_directions: "sd \<in> set break_order \<Longrightarrow> snd sd \<in> {Sd_Bullish, Sd_Bearish}"
  by (auto simp: break_order_def)

lemma track_structure_ok: "track_ok config swings (track_structure rt config cx swings)"
proof (rule track_invariant [where P = "track_ok config swings"])
  show "track_ok config swings initial_track" by (simp add: track_ok_def initial_track_def of_scope_def)
next
  fix i sd k assume sd: "sd \<in> set break_order" and ok: "track_ok config swings k"
  show "track_ok config swings (try_break rt config cx i sd k)"
    using try_break_step [of rt config cx i sd k]
  proof (elim disjE exE conjE)
    fix level e assume "level_of sd k = Some level" "sp_id level \<notin> set (kt_broken k)" "confirmed_time level < ck_timestamp (kx_candles cx ! i)"
      "e = break_event rt config cx i sd level (kt_directions k (fst sd))"
      and t: "try_break rt config cx i sd k = k\<lparr>kt_events := kt_events k @ [e], kt_broken := sp_id level # kt_broken k,
             kt_directions := (kt_directions k)(fst sd := ve_resulting_direction e)\<rparr>"
    then show ?thesis unfolding t by (intro track_ok_extend ok break_order_directions [OF sd])
  qed (simp add: ok)
qed (rule apply_swing_ok)

text \<open>Claim C11: the structure is a state machine. The events of each scope form a run of the transition function that
  starts neutral and ends in the direction the published state reports; every event breaks a swing of its own scope and
  side that was confirmed strictly before, and no swing is broken twice.\<close>

theorem structure_is_a_run:
  "scope_run config scope Sd_Neutral (of_scope scope (kt_events (track_structure rt config cx swings)))
   \<and> kt_directions (track_structure rt config cx swings) scope
       = run_end Sd_Neutral (of_scope scope (kt_events (track_structure rt config cx swings)))
   \<and> list_all (breaks_known_swing swings) (kt_events (track_structure rt config cx swings))
   \<and> distinct (map ve_broken_swing_id (kt_events (track_structure rt config cx swings)))"
proof -
  note ok = track_structure_ok [of config swings rt cx, unfolded track_ok_def]
  have "distinct (rev (map ve_broken_swing_id (kt_events (track_structure rt config cx swings))))" using ok by metis
  then show ?thesis using ok unfolding distinct_rev list_all_iff by blast
qed

lemma frozen_run:
  assumes "stc_require_protected_level_for_mss (smc_structure config)"
  shows "scope_run config Sp_Internal Sd_Transitional es \<Longrightarrow>
     (\<forall>e \<in> set es. ve_event_type e = Et_Choch \<and> ve_resulting_direction e = Sd_Transitional) \<and> run_end Sd_Transitional es = Sd_Transitional"
proof (induction es)
  case (Cons e es)
  then have "ve_event_type e = Et_Choch \<and> ve_resulting_direction e = Sd_Transitional"
    using assms by (auto simp: structure_transition_def split: if_split_asm)
  then show ?case using Cons by auto
qed simp

text \<open>Claim C23: while the configuration requires a protected level for a market structure shift, which is its default, a change
  of character of the internal structure is final: every later internal event is again a change of character, and the
  internal direction of the published state stays transitional, whatever breaks follow.\<close>

theorem internal_structure_freezes:
  assumes "stc_require_protected_level_for_mss (smc_structure config)"
    and "kt_events (track_structure rt config cx swings) = es @ e # later" "ve_scope e = Sp_Internal" "ve_event_type e = Et_Choch"
  shows "(\<forall>x \<in> set later. ve_scope x = Sp_Internal \<longrightarrow> ve_event_type x = Et_Choch \<and> ve_resulting_direction x = Sd_Transitional)
     \<and> mk_internal_direction (structure_state_of cx (track_structure rt config cx swings)) = Sd_Transitional"
proof -
  let ?k = "track_structure rt config cx swings"
  have ok: "scope_run config Sp_Internal Sd_Neutral (of_scope Sp_Internal (kt_events ?k))"
    "kt_directions ?k Sp_Internal = run_end Sd_Neutral (of_scope Sp_Internal (kt_events ?k))"
    using track_structure_ok [of config swings rt cx] unfolding track_ok_def by blast+
  have split: "of_scope Sp_Internal (kt_events ?k) = of_scope Sp_Internal es @ e # of_scope Sp_Internal later"
    using assms(2,3) by (simp add: of_scope_def)
  have run: "scope_run config Sp_Internal (run_end Sd_Neutral (of_scope Sp_Internal es)) (e # of_scope Sp_Internal later)"
    using ok(1) unfolding split scope_run_append by blast
  then have e: "ve_resulting_direction e = Sd_Transitional"
    using assms(4) by (auto simp: structure_transition_def split: if_split_asm)
  then have "scope_run config Sp_Internal Sd_Transitional (of_scope Sp_Internal later)" using run by simp
  note frozen = frozen_run [OF assms(1) this]
  have "kt_directions ?k Sp_Internal = Sd_Transitional" using ok(2) frozen e unfolding split run_end_append by simp
  then show ?thesis using frozen by (auto simp: of_scope_def structure_state_of_def Let_def)
qed

subsection \<open>The published objects satisfy their contracts\<close>

lemma percentD: "percent x \<Longrightarrow> 0 \<le> x"
  by (simp add: percent_def in_range_def)

lemma percent_cap: "0 \<le> x \<Longrightarrow> percent (min (fint 100) x)"
  using fint_nonneg [of 100] by (simp add: percent_def in_range_def)

lemma tiny_nonneg: "0 \<le> tiny" by (simp add: tiny_def fraction_nonneg)

lemma max_tiny_nonneg: "0 \<le> max x tiny" using tiny_nonneg by (simp add: le_max_iff_disj)

lemmas score_intros = f64_add_nonneg f64_mult_nonneg f64_div_nonneg f64_abs_nonneg fint_nonneg fraction_nonneg max_tiny_nonneg

lemma displacement_percent: "percent (displacement c atr)"
proof -
  have "0 \<le> min (fint 2) (max (ck_high c - ck_low c) tiny / max atr tiny)" by (simp add: score_intros)
  then show ?thesis unfolding displacement_def Let_def by (intro percent_cap score_intros) simp_all
qed

lemma slice_subset: "set (slice xs a b) \<subseteq> set xs"
  unfolding slice_def by (meson order_trans set_drop_subset set_take_subset)

lemma slice_nonempty: "a < b \<Longrightarrow> a < length xs \<Longrightarrow> slice xs a b \<noteq> []"
  by (simp add: slice_def)

lemma swing_at_ok:
  assumes cs: "\<forall>c \<in> set (kx_candles cx). candle_ok c" and config: "smc_config_ok config"
    and i: "left_of config \<le> i" "i + right_of config < length (kx_candles cx)"
  shows "swing_ok (swing_at rt config cx high i)"
proof -
  let ?near = "slice (kx_candles cx) (i - left_of config) (i + right_of config + 1)"
  have near: "?near \<noteq> []" using i by (intro slice_nonempty) simp_all
  then have "Min (set (map ck_quality_score ?near)) \<in> set (map ck_quality_score ?near)" by (intro Min_in) simp_all
  then obtain c where "c \<in> set ?near" "Min (set (map ck_quality_score ?near)) = ck_quality_score c" unfolding set_map by blast
  then have q: "percent (Min (set (map ck_quality_score ?near)))" using cs slice_subset [of "kx_candles cx"] by (auto simp: candle_ok_def percent_def)
  have windows: "1 \<le> left_of config" "1 \<le> right_of config" using config by (simp_all add: smc_config_ok_def Let_def)
  have price: "0 < ck_high (kx_candles cx ! i)" "0 < ck_low (kx_candles cx ! i)" using cs i(2) by (simp_all add: candle_ok_def)
  have strength: "percent (sp_strength (swing_at rt config cx high i))"
    unfolding swing_at_def Let_def swing_point.select_convs by (intro percent_cap score_intros) simp_all
  have "percent (sp_confidence_score (swing_at rt config cx high i))"
    using percentD [OF strength] percentD [OF q] unfolding swing_at_def Let_def swing_point.select_convs
    by (intro percent_cap score_intros) simp_all
  then show ?thesis unfolding swing_ok_def using strength q price windows by (simp add: swing_at_def Let_def)
qed

lemma detected_ok:
  assumes "\<forall>c \<in> set (kx_candles cx). candle_ok c" "smc_config_ok config" "s \<in> set (detect_swings rt config cx)"
  shows "swing_ok s"
proof -
  obtain high i where "i \<in> set [left_of config..<length (kx_candles cx) - right_of config]" "s = swing_at rt config cx high i"
    using assms(3) detect_loop_index by (fastforce simp: detect_swings_def)
  then show ?thesis using swing_at_ok [OF assms(1,2)] by auto
qed

lemma break_event_ok:
  assumes "swing_ok level"
  shows "structure_event_ok (break_event rt config cx i sd level d)"
proof -
  obtain confirmed by_close by_wick distance where b: "level_break config (kx_candles cx ! i) (sp_price level) (snd sd) (atr_at cx i)
      = (confirmed, by_close, by_wick, distance)" by (metis prod_cases4)
  then have "0 \<le> distance" by (auto simp: level_break_def Let_def)
  moreover have "percent (displacement (kx_candles cx ! i) (atr_at cx i))" by (rule displacement_percent)
  moreover have "percent (min (fint 100) (sp_confidence_score level * fl64 (35 / 100)
      + displacement (kx_candles cx ! i) (atr_at cx i) * fl64 (35 / 100) + sp_quality_score level * fl64 (3 / 10)))"
    using assms percentD displacement_percent unfolding swing_ok_def by (intro percent_cap score_intros) auto
  ultimately show ?thesis using assms unfolding break_event_def Let_def b
    by (simp add: structure_event_ok_def structure_event_of_def swing_ok_def split: prod.split)
qed

lemma track_events_ok:
  assumes "\<forall>s \<in> set swings. swing_ok s"
  shows "\<forall>e \<in> set (kt_events (track_structure rt config cx swings)). structure_event_ok e"
proof -
  let ?P = "\<lambda>k. track_ok config swings k \<and> (\<forall>e \<in> set (kt_events k). structure_event_ok e)"
  have "?P (track_structure rt config cx swings)"
  proof (rule track_invariant [where P = ?P])
    show "?P initial_track" by (simp add: track_ok_def initial_track_def of_scope_def)
  next
    fix s k assume "s \<in> set swings" "?P k"
    then show "?P (apply_swing s k)" using apply_swing_ok by simp
  next
    fix i sd k assume sd: "sd \<in> set break_order" and ok: "?P k"
    show "?P (try_break rt config cx i sd k)"
      using try_break_step [of rt config cx i sd k]
    proof (elim disjE exE conjE)
      fix level e assume l: "level_of sd k = Some level" "sp_id level \<notin> set (kt_broken k)" "confirmed_time level < ck_timestamp (kx_candles cx ! i)"
        "e = break_event rt config cx i sd level (kt_directions k (fst sd))"
        and t: "try_break rt config cx i sd k = k\<lparr>kt_events := kt_events k @ [e], kt_broken := sp_id level # kt_broken k,
             kt_directions := (kt_directions k)(fst sd := ve_resulting_direction e)\<rparr>"
      have "swing_ok level" using track_ok_level [OF conjunct1 [OF ok] l(1) break_order_directions [OF sd]] assms by blast
      then have "structure_event_ok e" unfolding l(4) by (rule break_event_ok)
      then show ?thesis unfolding t using track_ok_extend [OF conjunct1 [OF ok] break_order_directions [OF sd] l] ok by simp
    qed (simp add: ok)
  qed
  then show ?thesis by blast
qed

lemma zip_tl_sorted:
  "sorted (map f xs) \<Longrightarrow> (a, b) \<in> set (zip xs (tl xs)) \<Longrightarrow> a \<in> set xs \<and> b \<in> set xs \<and> f a \<le> (f b :: 'a :: linorder)"
proof (induction xs rule: induct_list012)
  case (3 x y zs)
  then show ?case by auto
qed simp_all

lemma legs_ok:
  assumes "\<forall>s \<in> set swings. swing_ok s" "l \<in> set (structure_legs rt cx swings)"
  shows "leg_ok l"
proof -
  obtain a b where ab: "(a, b) \<in> set (zip (sort_key sp_timestamp swings) (tl (sort_key sp_timestamp swings)))" "l = leg_between rt cx a b"
    using assms(2) by (auto simp: structure_legs_def Let_def)
  then have "swing_ok a" "swing_ok b" and le: "sp_timestamp a \<le> sp_timestamp b"
    using zip_tl_sorted [OF _ ab(1), of sp_timestamp] assms(1) by auto
  moreover have "0 \<le> total_seconds (sp_timestamp b - sp_timestamp a)"
    using total_seconds_nonneg le by simp
  moreover have "percent (min (fint 100) (\<bar>sp_price b - sp_price a\<bar> / max (kx_average_true_range cx) tiny * fint 25))"
    by (intro percent_cap score_intros) simp
  ultimately show ?thesis unfolding ab(2)
    by (simp add: leg_ok_def leg_between_def Let_def swing_ok_def percent_def in_range_def less_max_iff_disj min_le_iff_disj f64_abs_nonneg)
qed

lemma bootstrap_ok:
  assumes cs: "\<forall>c \<in> set (kx_candles cx). candle_ok c" and n: "2 \<le> length (kx_candles cx)" and e: "bootstrap_break rt config cx = Some e"
  shows "structure_event_ok e"
proof -
  let ?prior = "butlast (kx_candles cx)"
  have prior: "?prior \<noteq> []" using n by (cases "kx_candles cx" rule: rev_cases) auto
  have sub: "c \<in> set ?prior \<Longrightarrow> candle_ok c" for c using cs in_set_butlastD by fast
  have "Max (set (map ck_high ?prior)) \<in> set (map ck_high ?prior)" "Min (set (map ck_low ?prior)) \<in> set (map ck_low ?prior)"
    using prior by (intro Max_in Min_in; simp)+
  then have levels: "0 < Max (set (map ck_high ?prior))" "0 < Min (set (map ck_low ?prior))" using sub unfolding set_map by (auto simp: candle_ok_def)
  have "kx_candles cx \<noteq> []" using n by auto
  then have "Min (set (map ck_quality_score (kx_candles cx))) \<in> set (map ck_quality_score (kx_candles cx))" by (intro Min_in) simp_all
  then have q: "percent (Min (set (map ck_quality_score (kx_candles cx))))" using cs unfolding set_map by (auto simp: candle_ok_def percent_def)
  have "percent (min (fint 100) (fint 70 * Min (set (map ck_quality_score (kx_candles cx))) / fint 100))"
    using percentD [OF q] by (intro percent_cap score_intros) simp_all
  then show ?thesis using e levels q displacement_percent
    by (auto simp: bootstrap_break_def Let_def structure_event_ok_def split: if_split_asm)
qed

lemma snapshot_parts:
  assumes "structural_snapshot rt config data = Inr (Some (swings, state, legs, events))"
  obtains cx where "build_context data config = Inr cx" "prc_minimum_history (smc_processing config) \<le> length data"
    "swings = detect_swings rt config cx" "legs = structure_legs rt cx swings"
    "events = kt_events (track_structure rt config cx swings) \<and> state = structure_state_of cx (track_structure rt config cx swings)
       \<or> kt_events (track_structure rt config cx swings) = [] \<and> (\<exists>e. bootstrap_break rt config cx = Some e \<and> events = [e])"
proof -
  have n: "\<not> length data < prc_minimum_history (smc_processing config)"
    using assms by (auto simp: structural_snapshot_def split: if_split_asm)
  then obtain cx where cx: "build_context data config = Inr cx"
    using assms by (auto simp: structural_snapshot_def bindE_eq_Inr split: if_split_asm)
  note step = assms [unfolded structural_snapshot_def if_not_P [OF n] cx bindE_simps Let_def]
  show ?thesis
  proof (cases "kt_events (track_structure rt config cx (detect_swings rt config cx))")
    case Nil
    show ?thesis
    proof (cases "bootstrap_break rt config cx")
      case None
      show ?thesis using cx n step Nil None by (intro that [of cx]) auto
    next
      case (Some e)
      show ?thesis using cx n step Nil Some by (intro that [of cx]) auto
    qed
  next
    case (Cons e es)
    show ?thesis using cx n step Cons by (intro that [of cx]) auto
  qed
qed

text \<open>Claim C22: on valid candles the structural analysis never violates a contract: every swing, leg and event it publishes,
  the bootstrap event included, satisfies the bounds and the validator of its model, so building it never raises.\<close>

theorem structure_objects_valid:
  assumes "\<forall>c \<in> set data. candle_ok c" "smc_config_ok config"
    and "structural_snapshot rt config data = Inr (Some (swings, state, legs, events))"
  shows "list_all swing_ok swings \<and> list_all leg_ok legs \<and> list_all structure_event_ok events"
proof -
  obtain cx where cx: "build_context data config = Inr cx" and n: "prc_minimum_history (smc_processing config) \<le> length data"
    and swings: "swings = detect_swings rt config cx" and legs: "legs = structure_legs rt cx swings"
    and events: "events = kt_events (track_structure rt config cx swings) \<and> state = structure_state_of cx (track_structure rt config cx swings)
       \<or> kt_events (track_structure rt config cx swings) = [] \<and> (\<exists>e. bootstrap_break rt config cx = Some e \<and> events = [e])"
    using snapshot_parts [OF assms(3)] .
  have cs: "\<forall>c \<in> set (kx_candles cx). candle_ok c" using assms(1) build_context_fields(1) [OF cx] by simp
  have "2 \<le> length (kx_candles cx)" using n assms(2) build_context_fields(1) [OF cx] by (simp add: smc_config_ok_def Let_def)
  note bootstrap = bootstrap_ok [OF cs this]
  have ok: "\<forall>s \<in> set swings. swing_ok s" using detected_ok [OF cs assms(2)] swings by blast
  have "\<forall>e \<in> set events. structure_event_ok e" using events track_events_ok [OF ok] bootstrap by auto
  then show ?thesis using ok legs_ok [OF ok] legs by (simp add: list_all_iff)
qed

lemma track_codes: "\<forall>x \<in> set (kt_events (track_structure rt config cx swings)). sme_code (hd (ve_evidence x)) = ''level_break''"
proof (rule track_invariant [where P = "\<lambda>k. \<forall>x \<in> set (kt_events k). sme_code (hd (ve_evidence x)) = ''level_break''"])
  fix i sd and k :: structure_track
  assume k: "\<forall>x \<in> set (kt_events k). sme_code (hd (ve_evidence x)) = ''level_break''"
  show "\<forall>x \<in> set (kt_events (try_break rt config cx i sd k)). sme_code (hd (ve_evidence x)) = ''level_break''"
    using try_break_step [of rt config cx i sd k] k by (auto simp: break_event_fields)
qed (simp_all add: initial_track_def)

text \<open>The bootstrap event is repainted. When the analysis of the first candles of a series publishes a bootstrap
  break, no analysis of a longer part of the series publishes that event, whatever the later candles are.\<close>

theorem bootstrap_event_vanishes:
  assumes "build_context cs config = Inr cx" "0 < m" "m < n" "n \<le> length cs"
    and "structural_snapshot rt config (take m cs) = Inr (Some (swings, state, legs, [e]))" "sme_code (hd (ve_evidence e)) = ''initial_range_break''"
    and "structural_snapshot rt config (take n cs) = Inr (Some (swings', state', legs', events'))"
  shows "e \<notin> set events'"
proof -
  have nm: "0 < n" "m \<le> length cs" using assms(2-4) by simp_all
  obtain cm where cm: "build_context (take m cs) config = Inr cm" "context_prefix m cm cx" using build_context_take [OF assms(1,2) nm(2)] .
  obtain cn where cn: "build_context (take n cs) config = Inr cn" "context_prefix n cn cx" using build_context_take [OF assms(1) nm(1) assms(4)] .
  have real: "sme_code (hd (ve_evidence x)) = ''level_break''" if "x \<in> set (kt_events (track_structure rt config c swings))" for x c swings
    using track_codes that by blast
  have time: "ve_timestamp x = ck_timestamp (last (kx_candles c))" if "bootstrap_break rt config c = Some x" for x c
    using that by (auto simp: bootstrap_break_def Let_def split: if_split_asm)
  have "ve_timestamp e = ck_timestamp (cs ! (m - 1))"
  proof (rule snapshot_parts [OF assms(5)])
    fix c assume c: "build_context (take m cs) config = Inr c"
      and "[e] = kt_events (track_structure rt config c swings) \<and> state = structure_state_of c (track_structure rt config c swings)
       \<or> kt_events (track_structure rt config c swings) = [] \<and> (\<exists>x. bootstrap_break rt config c = Some x \<and> [e] = [x])"
    moreover have "e \<notin> set (kt_events (track_structure rt config c swings))" using real assms(6) by fastforce
    ultimately have "bootstrap_break rt config c = Some e" by (metis list.set_intros(1) list.inject)
    then show ?thesis using time build_context_fields(1) [OF c] last_take_nth [OF assms(2) nm(2)] by simp
  qed
  moreover have "ck_timestamp (cs ! (m - 1)) < ck_timestamp (cs ! (n - 1))"
    using sorted_wrt_nth_less [OF build_context_fields(4) [OF assms(1)], of "m - 1" "n - 1"] assms(2-4) by simp
  moreover have "e \<in> set events' \<Longrightarrow> ve_timestamp e = ck_timestamp (cs ! (n - 1))"
  proof (rule snapshot_parts [OF assms(7)])
    fix c assume "e \<in> set events'" and c: "build_context (take n cs) config = Inr c"
      and "events' = kt_events (track_structure rt config c swings') \<and> state' = structure_state_of c (track_structure rt config c swings')
       \<or> kt_events (track_structure rt config c swings') = [] \<and> (\<exists>x. bootstrap_break rt config c = Some x \<and> events' = [x])"
    moreover have "e \<notin> set (kt_events (track_structure rt config c swings'))" using real assms(6) by fastforce
    ultimately have "bootstrap_break rt config c = Some e" by auto
    then show ?thesis using time build_context_fields(1) [OF c] last_take_nth [OF nm(1) assms(4)] by simp
  qed
  ultimately show ?thesis by auto
qed

subsection \<open>The hypotheses can hold\<close>

definition smc_rt :: runtime where
  "smc_rt = \<lparr>rt_uuid5 = (\<lambda>_ n. n), rt_sha256 = (\<lambda>_. []), rt_float_repr = (\<lambda>_. [])\<rparr>"

definition narrow_smc_config :: smc_config where
  "narrow_smc_config = (default_smc_config ''v'')\<lparr>
     smc_swing := (smc_swing (default_smc_config ''v''))\<lparr>swc_left_window := 1, swc_right_window := 1, swc_minimum_separation := 1,
       swc_atr_excursion_multiplier := 0, swc_external_min_strength := fint 100\<rparr>,
     smc_processing := \<lparr>prc_minimum_history = 3, prc_minimum_input_quality = fint 60\<rparr>\<rparr>"

text \<open>A series that breaks up, down and up again, and one that only rises before it falls.\<close>

definition swinging_candles :: "candle list" where
  "swinging_candles = [sample_candle 0 2000, sample_candle 5 2005, sample_candle 10 2000, sample_candle 15 2004, sample_candle 20 2008,
     sample_candle 25 1996, sample_candle 30 2000, sample_candle 35 2012]"

definition rising_candles :: "candle list" where
  "rising_candles = [sample_candle 0 2000, sample_candle 5 2001, sample_candle 10 2002, sample_candle 15 2003, sample_candle 20 2010, sample_candle 25 2005]"

definition context_of :: "candle list \<Rightarrow> smc_config \<Rightarrow> candle_context" where
  "context_of cs config = (case build_context cs config of Inr cx \<Rightarrow> cx | Inl _ \<Rightarrow>
     \<lparr>kx_candles = [], kx_symbol = [], kx_timeframe = Tf_M1, kx_true_ranges = [], kx_average_true_range = 0, kx_minimum_quality = 0,
      kx_average_quality = 0, kx_degraded = False, kx_boundary = []\<rparr>)"

lemma narrow_ok: "smc_config_ok narrow_smc_config" by code_simp

abbreviation swinging_context :: candle_context where
  "swinging_context \<equiv> context_of swinging_candles narrow_smc_config"

lemma swinging_build: "build_context swinging_candles narrow_smc_config = Inr swinging_context"
proof -
  have "isl (build_context swinging_candles narrow_smc_config) = False" by code_simp
  then show ?thesis by (auto simp: context_of_def isl_def split: sum.split)
qed

lemma swinging_events:
  "map (\<lambda>e. (ve_event_type e, ve_scope e)) (kt_events (track_structure smc_rt narrow_smc_config swinging_context
     (detect_swings smc_rt narrow_smc_config swinging_context))) = [(Et_Bos, Sp_Internal), (Et_Choch, Sp_Internal), (Et_Choch, Sp_Internal)]"
  by code_simp

theorem structure_never_repaints_witness:
  "\<exists>cx'. build_context (take 6 swinging_candles) narrow_smc_config = Inr cx'
     \<and> (\<exists>later. kt_events (track_structure smc_rt narrow_smc_config swinging_context (detect_swings smc_rt narrow_smc_config swinging_context))
       = kt_events (track_structure smc_rt narrow_smc_config cx' (detect_swings smc_rt narrow_smc_config cx')) @ later)"
  using structure_never_repaints [OF swinging_build, of 6 smc_rt] by (fastforce simp: swinging_candles_def)

theorem internal_structure_freezes_witness:
  "mk_internal_direction (structure_state_of swinging_context (track_structure smc_rt narrow_smc_config swinging_context
     (detect_swings smc_rt narrow_smc_config swinging_context))) = Sd_Transitional"
proof -
  obtain a b c where events: "kt_events (track_structure smc_rt narrow_smc_config swinging_context (detect_swings smc_rt narrow_smc_config swinging_context))
      = [a] @ b # [c]" and b: "ve_scope b = Sp_Internal" "ve_event_type b = Et_Choch"
    using swinging_events by (auto simp: map_eq_Cons_conv)
  have "stc_require_protected_level_for_mss (smc_structure narrow_smc_config)" by code_simp
  then show ?thesis using internal_structure_freezes [OF _ events b] by blast
qed

theorem structure_objects_valid_witness:
  "\<exists>swings state legs events. structural_snapshot smc_rt narrow_smc_config swinging_candles = Inr (Some (swings, state, legs, events))
     \<and> list_all swing_ok swings \<and> list_all leg_ok legs \<and> list_all structure_event_ok events"
proof -
  have "list_all candle_ok swinging_candles" by code_simp
  then have ok: "\<forall>c \<in> set swinging_candles. candle_ok c" by (simp only: list_all_iff)
  obtain e es where "kt_events (track_structure smc_rt narrow_smc_config swinging_context (detect_swings smc_rt narrow_smc_config swinging_context)) = e # es"
    using swinging_events by (auto simp: map_eq_Cons_conv)
  then have "structural_snapshot smc_rt narrow_smc_config swinging_candles
      = Inr (Some (detect_swings smc_rt narrow_smc_config swinging_context, structure_state_of swinging_context (track_structure smc_rt narrow_smc_config
          swinging_context (detect_swings smc_rt narrow_smc_config swinging_context)),
          structure_legs smc_rt swinging_context (detect_swings smc_rt narrow_smc_config swinging_context), e # es))"
    unfolding structural_snapshot_def swinging_build Let_def by (simp add: swinging_candles_def narrow_smc_config_def)
  then show ?thesis using structure_objects_valid [OF ok narrow_ok] by blast
qed

lemma rising_build: "build_context rising_candles (default_smc_config ''v'') = Inr (context_of rising_candles (default_smc_config ''v''))"
proof -
  have "isl (build_context rising_candles (default_smc_config ''v'')) = False" by code_simp
  then show ?thesis by (auto simp: context_of_def isl_def split: sum.split)
qed

definition published_events :: "candle list \<Rightarrow> structure_event list" where
  "published_events cs = (case structural_snapshot smc_rt (default_smc_config ''v'') cs of Inr (Some (_, _, _, es)) \<Rightarrow> es | _ \<Rightarrow> [])"

lemma published_snapshot:
  assumes "published_events cs \<noteq> []"
  shows "\<exists>swings state legs. structural_snapshot smc_rt (default_smc_config ''v'') cs = Inr (Some (swings, state, legs, published_events cs))"
  using assms by (auto simp: published_events_def split: sum.splits option.splits)

theorem bootstrap_event_vanishes_witness:
  "\<exists>e. published_events (take 5 rising_candles) = [e] \<and> e \<notin> set (published_events (take 6 rising_candles))"
proof -
  have codes: "map (\<lambda>e. sme_code (hd (ve_evidence e))) (published_events (take 5 rising_candles)) = [''initial_range_break'']" by code_simp
  then obtain e where e: "published_events (take 5 rising_candles) = [e]" "sme_code (hd (ve_evidence e)) = ''initial_range_break''" by auto
  then obtain swings state legs where early: "structural_snapshot smc_rt (default_smc_config ''v'') (take 5 rising_candles) = Inr (Some (swings, state, legs, [e]))"
    using published_snapshot [of "take 5 rising_candles"] by auto
  have "\<not> isl (structural_snapshot smc_rt (default_smc_config ''v'') (take 6 rising_candles))"
    "map_sum (\<lambda>_. ()) (\<lambda>x. x = None) (structural_snapshot smc_rt (default_smc_config ''v'') (take 6 rising_candles)) = Inr False" by code_simp+
  then obtain swings' state' legs' events' where late:
    "structural_snapshot smc_rt (default_smc_config ''v'') (take 6 rising_candles) = Inr (Some (swings', state', legs', events'))"
    by (cases "structural_snapshot smc_rt (default_smc_config ''v'') (take 6 rising_candles)") auto
  then have "published_events (take 6 rising_candles) = events'" by (simp add: published_events_def)
  moreover have "e \<notin> set events'"
    by (rule bootstrap_event_vanishes [OF rising_build _ _ _ early e(2) late]) (simp_all add: rising_candles_def)
  ultimately show ?thesis using e by blast
qed

end
