(* ===== verification/SMC_Zones.thy ===== *)
theory SMC_Zones
  imports SMC_Structure "HOL-Library.AList"
begin

text \<open>
  Displacements, zones, liquidity references and dealing ranges of the smart money concepts engine
  (\<open>engines/smc_engine/advanced.py\<close> with its contracts in \<open>models.py\<close> and its part of \<open>config.py\<close>).

  The explanatory evidence of displacements, zones and references is left out; no operation reads it.
  The dicts \<open>active\<close> and \<open>generated\<close> of \<open>zones\<close> are an association list in insertion order and a list. Copies of a zone
  (\<open>model_copy\<close>) run no validator; \<open>zones_stay_valid\<close> shows that they would pass.
\<close>

subsection \<open>Contracts\<close>

datatype lifecycle_state = Ls_Created | Ls_Candidate | Ls_Confirmed | Ls_Active | Ls_Touched | Ls_Partially_Mitigated
  | Ls_Mitigated | Ls_Broken | Ls_Invalidated | Ls_Archived | Ls_Expired | Ls_Superseded

datatype displacement_strength = Ds_Weak | Ds_Strong

datatype zone_type = Zt_Bullish_Fvg | Zt_Bearish_Fvg | Zt_Bullish_Inversion_Fvg | Zt_Bearish_Inversion_Fvg | Zt_Liquidity_Void
  | Zt_Bullish_Order_Block | Zt_Bearish_Order_Block | Zt_Bullish_Breaker | Zt_Bearish_Breaker
  | Zt_Bullish_Mitigation_Block | Zt_Bearish_Mitigation_Block

definition zone_type_value :: "zone_type \<Rightarrow> string" where
  [enum_values]: "zone_type_value t = (case t of Zt_Bullish_Fvg \<Rightarrow> ''bullish_fvg'' | Zt_Bearish_Fvg \<Rightarrow> ''bearish_fvg''
     | Zt_Bullish_Inversion_Fvg \<Rightarrow> ''bullish_inversion_fvg'' | Zt_Bearish_Inversion_Fvg \<Rightarrow> ''bearish_inversion_fvg''
     | Zt_Liquidity_Void \<Rightarrow> ''liquidity_void'' | Zt_Bullish_Order_Block \<Rightarrow> ''bullish_order_block''
     | Zt_Bearish_Order_Block \<Rightarrow> ''bearish_order_block'' | Zt_Bullish_Breaker \<Rightarrow> ''bullish_breaker''
     | Zt_Bearish_Breaker \<Rightarrow> ''bearish_breaker'' | Zt_Bullish_Mitigation_Block \<Rightarrow> ''bullish_mitigation_block''
     | Zt_Bearish_Mitigation_Block \<Rightarrow> ''bearish_mitigation_block'')"

datatype reference_type = Lr_Swing_High | Lr_Swing_Low | Lr_Inducement | Lr_External_Sweep

record impulse =
  dj_id :: uuid
  dj_symbol :: string
  dj_timeframe :: bar_timeframe
  dj_direction :: structure_direction
  dj_strength :: displacement_strength
  dj_start_timestamp :: instant
  dj_end_timestamp :: instant
  dj_source_candle_ids :: "string list"
  dj_atr_normalized_impulse :: f64
  dj_body_ratio :: f64
  dj_directional_efficiency :: f64
  dj_volume_ratio :: "f64 option"
  dj_lifecycle_state :: lifecycle_state
  dj_invalidated_at :: "instant option"
  dj_confidence_score :: f64
  dj_quality_score :: f64
  dj_version :: nat

record smc_zone =
  zn_id :: uuid
  zn_zone_type :: zone_type
  zn_symbol :: string
  zn_timeframe :: bar_timeframe
  zn_direction :: structure_direction
  zn_scope :: structure_scope
  zn_origin_timestamp :: instant
  zn_confirmation_timestamp :: instant
  zn_upper_price :: f64
  zn_lower_price :: f64
  zn_midpoint :: f64
  zn_source_candle_ids :: "string list"
  zn_trigger_event_id :: "uuid option"
  zn_parent_zone_id :: "uuid option"
  zn_lifecycle_state :: lifecycle_state
  zn_fill_percentage :: f64
  zn_mitigation_percentage :: f64
  zn_first_touch_timestamp :: "instant option"
  zn_mitigation_timestamp :: "instant option"
  zn_invalidation_timestamp :: "instant option"
  zn_expiration_timestamp :: "instant option"
  zn_invalidation_reason :: "string option"
  zn_confidence_score :: f64
  zn_quality_score :: f64
  zn_version :: nat

record liquidity_reference =
  lr_id :: uuid
  lr_symbol :: string
  lr_timeframe :: bar_timeframe
  lr_reference_type :: reference_type
  lr_direction :: structure_direction
  lr_price :: f64
  lr_timestamp :: instant
  lr_available_at :: instant
  lr_source_swing_id :: "uuid option"
  lr_source_object_id :: "uuid option"
  lr_confidence_score :: f64

record dealing_range =
  dg_id :: uuid
  dg_symbol :: string
  dg_timeframe :: bar_timeframe
  dg_direction :: structure_direction
  dg_scope :: structure_scope
  dg_range_high :: f64
  dg_range_low :: f64
  dg_equilibrium :: f64
  dg_premium_boundary :: f64
  dg_discount_boundary :: f64
  dg_ote_low :: f64
  dg_ote_high :: f64
  dg_golden_zone_low :: f64
  dg_golden_zone_high :: f64
  dg_source_swing_high_id :: uuid
  dg_source_swing_low_id :: uuid
  dg_start_timestamp :: instant
  dg_end_timestamp :: instant
  dg_lifecycle_state :: lifecycle_state
  dg_confidence_score :: f64

text \<open>The bounds of a zone and \<open>SMCZone.valid_zone\<close>.\<close>

definition zone_ok :: "smc_zone \<Rightarrow> bool" where
  "zone_ok z \<longleftrightarrow> 0 < zn_upper_price z \<and> 0 < zn_lower_price z \<and> 0 < zn_midpoint z
     \<and> percent (zn_fill_percentage z) \<and> percent (zn_mitigation_percentage z) \<and> percent (zn_confidence_score z)
     \<and> percent (zn_quality_score z) \<and> 1 \<le> zn_version z
     \<and> zn_lower_price z \<le> zn_upper_price z \<and> zn_lower_price z \<le> zn_midpoint z \<and> zn_midpoint z \<le> zn_upper_price z"

subsection \<open>Configuration\<close>

record displacement_config =
  dsc_minimum_atr_impulse :: f64
  dsc_strong_atr_impulse :: f64
  dsc_minimum_body_ratio :: f64
  dsc_minimum_efficiency :: f64
  dsc_volume_confirmation_ratio :: f64
  dsc_volume_lookback :: nat
  dsc_invalidation_candles :: nat

record imbalance_config =
  ibc_minimum_size :: f64
  ibc_minimum_atr_size :: f64
  ibc_merge_tolerance_atr :: f64
  ibc_mitigation_threshold :: f64
  ibc_expiration_candles :: nat
  ibc_time_decay_per_candle :: f64
  ibc_void_minimum_candles :: nat

record order_block_config =
  obc_lookback :: nat
  obc_minimum_displacement_score :: f64
  obc_minimum_body_ratio :: f64
  obc_require_volume_confirmation :: bool
  obc_mitigation_threshold :: f64
  obc_expiration_candles :: nat
  obc_refine_to_body :: bool

record dealing_range_config =
  drc_premium_ratio :: f64
  drc_discount_ratio :: f64
  drc_ote_low_ratio :: f64
  drc_ote_high_ratio :: f64
  drc_golden_low_ratio :: f64
  drc_golden_high_ratio :: f64
  drc_maximum_ranges :: nat

record zone_config =
  zcf_smc :: smc_config
  zcf_displacement :: displacement_config
  zcf_imbalance :: imbalance_config
  zcf_order_block :: order_block_config
  zcf_dealing_range :: dealing_range_config
  zcf_maximum_active_objects :: nat
  zcf_evidence_retention_candles :: nat

text \<open>The bounds that the zones rest on.\<close>

definition zone_config_ok :: "zone_config \<Rightarrow> bool" where
  "zone_config_ok c \<longleftrightarrow> 0 \<le> ibc_minimum_size (zcf_imbalance c) \<and> 0 \<le> ibc_minimum_atr_size (zcf_imbalance c)
     \<and> 0 \<le> ibc_merge_tolerance_atr (zcf_imbalance c) \<and> 0 < ibc_mitigation_threshold (zcf_imbalance c)
     \<and> 0 \<le> ibc_time_decay_per_candle (zcf_imbalance c) \<and> 0 < obc_mitigation_threshold (zcf_order_block c)
     \<and> 100 \<le> zcf_maximum_active_objects c \<and> 1 \<le> zcf_evidence_retention_candles c"

definition default_zone_config :: "smc_config \<Rightarrow> zone_config" where
  "default_zone_config base = \<lparr>zcf_smc = base,
     zcf_displacement = \<lparr>dsc_minimum_atr_impulse = fl64 (8 / 10), dsc_strong_atr_impulse = fl64 (15 / 10), dsc_minimum_body_ratio = fl64 (55 / 100),
       dsc_minimum_efficiency = fl64 (6 / 10), dsc_volume_confirmation_ratio = fl64 (12 / 10), dsc_volume_lookback = 20, dsc_invalidation_candles = 10\<rparr>,
     zcf_imbalance = \<lparr>ibc_minimum_size = 0, ibc_minimum_atr_size = fl64 (1 / 10), ibc_merge_tolerance_atr = fl64 (5 / 100),
       ibc_mitigation_threshold = fint 100, ibc_expiration_candles = 200, ibc_time_decay_per_candle = fl64 (1 / 10), ibc_void_minimum_candles = 2\<rparr>,
     zcf_order_block = \<lparr>obc_lookback = 12, obc_minimum_displacement_score = fint 60, obc_minimum_body_ratio = fl64 (25 / 100),
       obc_require_volume_confirmation = False, obc_mitigation_threshold = fint 100, obc_expiration_candles = 500, obc_refine_to_body = True\<rparr>,
     zcf_dealing_range = \<lparr>drc_premium_ratio = fl64 (5 / 10), drc_discount_ratio = fl64 (5 / 10), drc_ote_low_ratio = fl64 (62 / 100),
       drc_ote_high_ratio = fl64 (79 / 100), drc_golden_low_ratio = fl64 (618 / 1000), drc_golden_high_ratio = fl64 (65 / 100), drc_maximum_ranges = 1000\<rparr>,
     zcf_maximum_active_objects = 5000, zcf_evidence_retention_candles = 50\<rparr>"

subsection \<open>Displacements\<close>

text \<open>The displacement of one candle, if it is large enough; \<open>volumes\<close> are those of the candles before, newest last.\<close>

definition single_impulse :: "runtime \<Rightarrow> zone_config \<Rightarrow> candle_context \<Rightarrow> f64 list \<Rightarrow> nat \<Rightarrow> impulse option" where
  "single_impulse rt config cx volumes i =
     (let c = kx_candles cx ! i;
          cfg = zcf_displacement config;
          extent = max (ck_high c - ck_low c) tiny;
          body = \<bar>ck_close c - ck_open c\<bar>;
          body_ratio = body / extent;
          atr_ratio = extent / max (atr_at cx i) tiny;
          efficiency = body / extent;
          average_volume = (if volumes \<noteq> [] \<and> list_ex (\<lambda>v. v \<noteq> 0) volumes then fmean volumes else 0);
          volume_ratio = (if 0 < average_volume then Some (ck_volume c / average_volume) else None)
      in if atr_ratio < dsc_minimum_atr_impulse cfg \<or> body_ratio < dsc_minimum_body_ratio cfg \<or> efficiency < dsc_minimum_efficiency cfg then None
         else (let strong = (dsc_strong_atr_impulse cfg \<le> atr_ratio
                     \<and> (case volume_ratio of None \<Rightarrow> True | Some v \<Rightarrow> dsc_volume_confirmation_ratio cfg \<le> v));
                   volume_score = (case volume_ratio of None \<Rightarrow> fint 70
                     | Some v \<Rightarrow> min (fint 100) (v / dsc_volume_confirmation_ratio cfg * fint 100));
                   confidence = min (fint 100) (atr_ratio / dsc_strong_atr_impulse cfg * fint 35 + body_ratio * fint 30
                     + efficiency * fint 20 + volume_score * fl64 (15 / 100))
               in Some \<lparr>dj_id = smc_id rt ''displacement'' (kx_symbol cx) (kx_timeframe cx) [isoformat (ck_timestamp c), smc_version (zcf_smc config)],
                    dj_symbol = kx_symbol cx, dj_timeframe = kx_timeframe cx,
                    dj_direction = (if ck_open c < ck_close c then Sd_Bullish else Sd_Bearish),
                    dj_strength = (if strong then Ds_Strong else Ds_Weak), dj_start_timestamp = ck_timestamp c, dj_end_timestamp = ck_timestamp c,
                    dj_source_candle_ids = [candle_id cx i], dj_atr_normalized_impulse = atr_ratio, dj_body_ratio = body_ratio,
                    dj_directional_efficiency = efficiency, dj_volume_ratio = volume_ratio, dj_lifecycle_state = Ls_Confirmed,
                    dj_invalidated_at = None, dj_confidence_score = confidence, dj_quality_score = ck_quality_score c, dj_version = 1\<rparr>))"

text \<open>A displacement that continues the previous one absorbs it.\<close>

definition continue_impulse :: "runtime \<Rightarrow> zone_config \<Rightarrow> candle_context \<Rightarrow> nat \<Rightarrow> impulse \<Rightarrow> impulse \<Rightarrow> impulse" where
  "continue_impulse rt config cx i p d =
     (let count = length (dj_source_candle_ids p) + 1; n = fint (int count); m = fint (int count - 1)
      in d\<lparr>dj_id := smc_id rt ''displacement-impulse'' (kx_symbol cx) (kx_timeframe cx)
             [isoformat (dj_start_timestamp p), isoformat (ck_timestamp (kx_candles cx ! i)), smc_version (zcf_smc config)],
           dj_start_timestamp := dj_start_timestamp p, dj_source_candle_ids := dj_source_candle_ids p @ [candle_id cx i],
           dj_atr_normalized_impulse := dj_atr_normalized_impulse p + dj_atr_normalized_impulse d,
           dj_body_ratio := (dj_body_ratio p * m + dj_body_ratio d) / n,
           dj_directional_efficiency := (dj_directional_efficiency p * m + dj_directional_efficiency d) / n,
           dj_strength := (if dj_strength p = Ds_Strong \<or> dj_strength d = Ds_Strong then Ds_Strong else Ds_Weak),
           dj_confidence_score := min (fint 100) (max (dj_confidence_score p) (dj_confidence_score d) + n * fint 2),
           dj_quality_score := min (dj_quality_score p) (dj_quality_score d), dj_version := dj_version p + 1\<rparr>)"

definition continues :: "candle_context \<Rightarrow> nat \<Rightarrow> impulse list \<Rightarrow> impulse \<Rightarrow> bool" where
  "continues cx i found d \<longleftrightarrow> found \<noteq> [] \<and> 0 < i \<and> dj_end_timestamp (last found) = ck_timestamp (kx_candles cx ! (i - 1))
     \<and> dj_direction (last found) = dj_direction d"

text \<open>\<open>deque.append\<close> with \<open>maxlen\<close>.\<close>

definition push_volume :: "nat \<Rightarrow> f64 \<Rightarrow> f64 list \<Rightarrow> f64 list" where
  "push_volume n v vs = drop (length vs + 1 - n) (vs @ [v])"

definition impulse_step :: "runtime \<Rightarrow> zone_config \<Rightarrow> candle_context \<Rightarrow> f64 list \<times> impulse list \<Rightarrow> nat \<Rightarrow> f64 list \<times> impulse list" where
  "impulse_step rt config cx st i =
     (case st of (volumes, found) \<Rightarrow>
        (push_volume (dsc_volume_lookback (zcf_displacement config)) (ck_volume (kx_candles cx ! i)) volumes,
         case single_impulse rt config cx volumes i of
           None \<Rightarrow> found
         | Some d \<Rightarrow> if continues cx i found d then butlast found @ [continue_impulse rt config cx i (last found) d] else found @ [d]))"

definition found_impulses :: "runtime \<Rightarrow> zone_config \<Rightarrow> candle_context \<Rightarrow> impulse list" where
  "found_impulses rt config cx = snd (foldl (impulse_step rt config cx) ([], []) [0..<length (kx_candles cx)])"

definition index_at :: "candle_context \<Rightarrow> instant \<Rightarrow> nat" where
  "index_at cx t = length (takeWhile (\<lambda>c. ck_timestamp c \<noteq> t) (kx_candles cx))"

text \<open>The first candle after the impulse that closes beyond its origin, within the configured number of candles.\<close>

definition invalidate_impulse :: "zone_config \<Rightarrow> candle_context \<Rightarrow> impulse \<Rightarrow> impulse" where
  "invalidate_impulse config cx d =
     (let c = kx_candles cx ! index_at cx (dj_start_timestamp d);
          j = index_at cx (dj_end_timestamp d);
          following = slice (kx_candles cx) (j + 1) (min (length (kx_candles cx)) (j + dsc_invalidation_candles (zcf_displacement config) + 1))
      in case find (\<lambda>x. if dj_direction d = Sd_Bullish then ck_close x < ck_low c else ck_high c < ck_close x) following of
           None \<Rightarrow> d
         | Some x \<Rightarrow> d\<lparr>dj_lifecycle_state := Ls_Invalidated, dj_invalidated_at := Some (ck_timestamp x), dj_version := dj_version d + 1\<rparr>)"

definition impulses :: "runtime \<Rightarrow> zone_config \<Rightarrow> candle_context \<Rightarrow> impulse list" where
  "impulses rt config cx = map (invalidate_impulse config cx) (found_impulses rt config cx)"

subsection \<open>Zones\<close>

text \<open>\<open>_TERMINAL_ZONE_STATES\<close>, and the shorter list that \<open>zones\<close> tests after a step.\<close>

definition terminal_state :: "lifecycle_state \<Rightarrow> bool" where
  "terminal_state s \<longleftrightarrow> s \<in> {Ls_Mitigated, Ls_Invalidated, Ls_Expired, Ls_Broken, Ls_Superseded, Ls_Archived}"

definition retired_state :: "lifecycle_state \<Rightarrow> bool" where
  "retired_state s \<longleftrightarrow> s \<in> {Ls_Mitigated, Ls_Invalidated, Ls_Expired, Ls_Broken, Ls_Superseded}"

definition fvg_type :: "zone_type \<Rightarrow> bool" where
  "fvg_type t \<longleftrightarrow> t \<in> {Zt_Bullish_Fvg, Zt_Bearish_Fvg, Zt_Bullish_Inversion_Fvg, Zt_Bearish_Inversion_Fvg}"

definition block_type :: "zone_type \<Rightarrow> bool" where
  "block_type t \<longleftrightarrow> contains ''block'' (zone_type_value t) \<or> contains ''breaker'' (zone_type_value t)"

definition inversion_of :: "zone_type \<Rightarrow> zone_type option" where
  "inversion_of t = (case t of Zt_Bullish_Fvg \<Rightarrow> Some Zt_Bearish_Inversion_Fvg | Zt_Bearish_Fvg \<Rightarrow> Some Zt_Bullish_Inversion_Fvg
     | Zt_Bullish_Order_Block \<Rightarrow> Some Zt_Bearish_Breaker | Zt_Bearish_Order_Block \<Rightarrow> Some Zt_Bullish_Breaker | _ \<Rightarrow> None)"

text \<open>A zone derived from another one: its counters start afresh.\<close>

definition derived_zone :: "uuid \<Rightarrow> instant \<Rightarrow> smc_zone \<Rightarrow> smc_zone" where
  "derived_zone new_id t z = z\<lparr>zn_id := new_id, zn_origin_timestamp := t, zn_confirmation_timestamp := t, zn_parent_zone_id := Some (zn_id z),
     zn_fill_percentage := 0, zn_mitigation_percentage := 0, zn_first_touch_timestamp := None, zn_version := 1\<rparr>"

definition expire_zone :: "instant \<Rightarrow> smc_zone \<Rightarrow> smc_zone" where
  "expire_zone t z = z\<lparr>zn_lifecycle_state := Ls_Expired, zn_expiration_timestamp := Some t, zn_version := zn_version z + 1\<rparr>"

text \<open>A close beyond the distal boundary.\<close>

definition invalidate_zone :: "runtime \<Rightarrow> candle_context \<Rightarrow> candle \<Rightarrow> smc_zone \<Rightarrow> smc_zone \<times> smc_zone list" where
  "invalidate_zone rt cx c z =
     (z\<lparr>zn_lifecycle_state := Ls_Invalidated, zn_invalidation_timestamp := Some (ck_timestamp c),
        zn_invalidation_reason := Some ''close beyond distal boundary'', zn_version := zn_version z + 1\<rparr>,
      case inversion_of (zn_zone_type z) of
        None \<Rightarrow> []
      | Some t \<Rightarrow> [(derived_zone (smc_id rt ''zone-conversion'' (kx_symbol cx) (kx_timeframe cx) [zn_id z, zone_type_value t, isoformat (ck_timestamp c)])
            (ck_timestamp c) z)
          \<lparr>zn_zone_type := t, zn_direction := (if zn_direction z = Sd_Bullish then Sd_Bearish else Sd_Bullish), zn_lifecycle_state := Ls_Active,
           zn_mitigation_timestamp := None, zn_invalidation_timestamp := None, zn_invalidation_reason := None\<rparr>])"

text \<open>A touch: the zone with its fill, and the zones it splits off.\<close>

definition fill_of :: "candle \<Rightarrow> smc_zone \<Rightarrow> f64" where
  "fill_of c z =
     (let penetration = (if zn_direction z = Sd_Bullish then zn_upper_price z - ck_low c else ck_high c - zn_lower_price z)
      in min (fint 100) (max (zn_fill_percentage z) (penetration / max (zn_upper_price z - zn_lower_price z) tiny * fint 100)))"

definition filled_zone :: "zone_config \<Rightarrow> candle \<Rightarrow> smc_zone \<Rightarrow> smc_zone" where
  "filled_zone config c z =
     (let fill = fill_of c z;
          threshold = (if block_type (zn_zone_type z) then obc_mitigation_threshold (zcf_order_block config)
            else ibc_mitigation_threshold (zcf_imbalance config));
          state = (if threshold \<le> fill then Ls_Mitigated else Ls_Partially_Mitigated)
      in z\<lparr>zn_lifecycle_state := state, zn_fill_percentage := fill, zn_mitigation_percentage := fill,
           zn_first_touch_timestamp := (case zn_first_touch_timestamp z of Some t \<Rightarrow> Some t | None \<Rightarrow> Some (ck_timestamp c)),
           zn_mitigation_timestamp := (if state = Ls_Mitigated then Some (ck_timestamp c) else None), zn_version := zn_version z + 1\<rparr>)"

definition gap_remainder :: "candle \<Rightarrow> smc_zone \<Rightarrow> f64 \<times> f64" where
  "gap_remainder c z = (if zn_direction z = Sd_Bullish then (zn_lower_price z, min (zn_upper_price z) (ck_low c))
     else (max (zn_lower_price z) (ck_high c), zn_upper_price z))"

definition touch_zone :: "runtime \<Rightarrow> zone_config \<Rightarrow> candle_context \<Rightarrow> candle \<Rightarrow> smc_zone \<Rightarrow> smc_zone \<times> smc_zone list" where
  "touch_zone rt config cx c z =
     (let updated = filled_zone config c z;
          (low, high) = gap_remainder c z
      in if zn_lifecycle_state updated = Ls_Partially_Mitigated \<and> fvg_type (zn_zone_type z) then
           (if low < high then
              (updated\<lparr>zn_lifecycle_state := Ls_Superseded\<rparr>,
               [(derived_zone (smc_id rt ''gap-split'' (kx_symbol cx) (kx_timeframe cx)
                   [zn_id z, isoformat (ck_timestamp c), rt_float_repr rt low, rt_float_repr rt high]) (ck_timestamp c) updated)
                 \<lparr>zn_lower_price := low, zn_upper_price := high, zn_midpoint := (low + high) / fint 2, zn_lifecycle_state := Ls_Active\<rparr>])
            else (updated, []))
         else if zn_lifecycle_state updated = Ls_Partially_Mitigated \<and> zn_zone_type z \<in> {Zt_Bullish_Order_Block, Zt_Bearish_Order_Block} then
           (updated, [(derived_zone (smc_id rt ''mitigation-block'' (kx_symbol cx) (kx_timeframe cx) [zn_id z, isoformat (ck_timestamp c)])
                (ck_timestamp c) updated)
              \<lparr>zn_zone_type := (if zn_direction z = Sd_Bullish then Zt_Bullish_Mitigation_Block else Zt_Bearish_Mitigation_Block)\<rparr>])
         else (updated, []))"

text \<open>\<open>_advance_zone\<close>.\<close>

definition advance_zone :: "runtime \<Rightarrow> zone_config \<Rightarrow> candle_context \<Rightarrow> nat \<Rightarrow> nat \<Rightarrow> smc_zone \<Rightarrow> smc_zone \<times> smc_zone list" where
  "advance_zone rt config cx i origin z =
     (let c = kx_candles cx ! i;
          expiration = (if block_type (zn_zone_type z) then obc_expiration_candles (zcf_order_block config)
            else ibc_expiration_candles (zcf_imbalance config));
          bullish = (zn_direction z = Sd_Bullish)
      in if i \<le> origin then (z, [])
         else if expiration < i - origin then (expire_zone (ck_timestamp c) z, [])
         else if (if bullish then ck_close c < zn_lower_price z else zn_upper_price z < ck_close c) then invalidate_zone rt cx c z
         else if \<not> (ck_low c \<le> zn_upper_price z \<and> zn_lower_price z \<le> ck_high c)
         then (z\<lparr>zn_confidence_score := max 0 (zn_confidence_score z - ibc_time_decay_per_candle (zcf_imbalance config)),
                zn_version := zn_version z + 1\<rparr>, [])
         else touch_zone rt config cx c z)"

record zone_board =
  zb_zones :: "smc_zone list"
  zb_active :: "(uuid \<times> nat \<times> nat) list"
  zb_generated :: "uuid list"

text \<open>A new zone takes a new slot and becomes active.\<close>

definition append_zone :: "nat \<Rightarrow> smc_zone \<Rightarrow> zone_board \<Rightarrow> zone_board" where
  "append_zone i z b = b\<lparr>zb_zones := zb_zones b @ [z], zb_generated := zn_id z # zb_generated b,
     zb_active := AList.update (zn_id z) (i, length (zb_zones b)) (zb_active b)\<rparr>"

definition add_derivative :: "nat \<Rightarrow> smc_zone \<Rightarrow> zone_board \<Rightarrow> zone_board" where
  "add_derivative i d b = (if zn_id d \<in> set (zb_generated b) then b else append_zone i d b)"

definition advance_entry :: "runtime \<Rightarrow> zone_config \<Rightarrow> candle_context \<Rightarrow> nat \<Rightarrow> uuid \<times> nat \<times> nat \<Rightarrow> zone_board \<Rightarrow> zone_board" where
  "advance_entry rt config cx i entry b =
     (case entry of (k, origin, p) \<Rightarrow>
        (case advance_zone rt config cx i origin (zb_zones b ! p) of
           (updated, derivatives) \<Rightarrow>
             fold (add_derivative i) derivatives
               (b\<lparr>zb_zones := (zb_zones b)[p := updated],
                  zb_active := (if retired_state (zn_lifecycle_state updated) then AList.delete k (zb_active b)
                    else AList.update k (origin, p) (zb_active b))\<rparr>)))"

text \<open>\<open>_add_zone\<close>: the first active gap of the type that overlaps is merged; when the board is full the oldest zone expires.\<close>

definition overlapping_gap :: "zone_type \<Rightarrow> f64 \<Rightarrow> f64 \<Rightarrow> f64 \<Rightarrow> zone_board \<Rightarrow> (uuid \<times> nat \<times> nat) option" where
  "overlapping_gap t low high tolerance b = find (\<lambda>(_, _, p). let z = zb_zones b ! p
     in zn_zone_type z = t \<and> low \<le> zn_upper_price z + tolerance \<and> zn_lower_price z - tolerance \<le> high) (zb_active b)"

definition merge_gap :: "zone_type \<Rightarrow> f64 \<Rightarrow> f64 \<Rightarrow> f64 \<Rightarrow> zone_board \<Rightarrow> f64 \<times> f64 \<times> uuid option \<times> zone_board" where
  "merge_gap t low high tolerance b =
     (case (if fvg_type t then overlapping_gap t low high tolerance b else None) of
        None \<Rightarrow> (low, high, None, b)
      | Some (k, _, p) \<Rightarrow>
          (let z = zb_zones b ! p
           in (min low (zn_lower_price z), max high (zn_upper_price z), Some (zn_id z),
               b\<lparr>zb_zones := (zb_zones b)[p := z\<lparr>zn_lifecycle_state := Ls_Superseded, zn_version := zn_version z + 1\<rparr>],
                 zb_active := AList.delete k (zb_active b)\<rparr>)))"

definition make_room :: "zone_config \<Rightarrow> instant \<Rightarrow> zone_board \<Rightarrow> zone_board" where
  "make_room config t b =
     (if zcf_maximum_active_objects config \<le> length (zb_active b) then
        (case hd (sort_key (\<lambda>(_, origin, _). origin) (zb_active b)) of (k, _, p) \<Rightarrow>
           b\<lparr>zb_zones := (zb_zones b)[p := expire_zone t (zb_zones b ! p)], zb_active := AList.delete k (zb_active b)\<rparr>)
      else b)"

definition py_text :: "uuid option \<Rightarrow> string" where
  "py_text x = (case x of None \<Rightarrow> ''None'' | Some s \<Rightarrow> s)"

text \<open>\<open>height\<close> is that before a merge.\<close>

definition new_zone :: "candle_context \<Rightarrow> nat \<Rightarrow> uuid \<Rightarrow> zone_type \<Rightarrow> structure_direction \<Rightarrow> f64 \<Rightarrow> f64 \<Rightarrow> f64 \<Rightarrow> nat \<times> nat
    \<Rightarrow> uuid option \<Rightarrow> uuid option \<Rightarrow> smc_zone" where
  "new_zone cx i new_id t dir height low high source trigger parent =
     (let atr = atr_at cx i;
          quality = min (ck_quality_score (kx_candles cx ! fst source)) (ck_quality_score (kx_candles cx ! snd source))
      in \<lparr>zn_id = new_id, zn_zone_type = t, zn_symbol = kx_symbol cx, zn_timeframe = kx_timeframe cx, zn_direction = dir,
           zn_scope = (if atr \<le> height then Sp_External else Sp_Internal), zn_origin_timestamp = ck_timestamp (kx_candles cx ! fst source),
           zn_confirmation_timestamp = ck_timestamp (kx_candles cx ! i), zn_upper_price = high, zn_lower_price = low,
           zn_midpoint = (high + low) / fint 2, zn_source_candle_ids = [candle_id cx (fst source), candle_id cx (snd source)],
           zn_trigger_event_id = trigger, zn_parent_zone_id = parent, zn_lifecycle_state = Ls_Active, zn_fill_percentage = 0,
           zn_mitigation_percentage = 0, zn_first_touch_timestamp = None, zn_mitigation_timestamp = None, zn_invalidation_timestamp = None,
           zn_expiration_timestamp = None, zn_invalidation_reason = None,
           zn_confidence_score = min (fint 100) (fint 45 + height / max atr tiny * fint 25 + quality * fl64 (3 / 10)),
           zn_quality_score = quality, zn_version = 1\<rparr>)"

definition add_zone :: "runtime \<Rightarrow> zone_config \<Rightarrow> candle_context \<Rightarrow> nat \<Rightarrow> zone_type \<Rightarrow> structure_direction \<Rightarrow> f64 \<Rightarrow> f64 \<Rightarrow> nat \<times> nat
    \<Rightarrow> uuid option \<Rightarrow> zone_board \<Rightarrow> zone_board" where
  "add_zone rt config cx i t dir low0 high0 source trigger b0 =
     (let size = high0 - low0; atr = atr_at cx i; now = ck_timestamp (kx_candles cx ! i)
      in if size \<le> 0 \<or> size < max (ibc_minimum_size (zcf_imbalance config)) (atr * ibc_minimum_atr_size (zcf_imbalance config)) then b0
         else (case merge_gap t low0 high0 (atr * ibc_merge_tolerance_atr (zcf_imbalance config)) b0 of
           (low, high, parent, b) \<Rightarrow>
             (let new_id = smc_id rt ''zone'' (kx_symbol cx) (kx_timeframe cx) [zone_type_value t, isoformat now, rt_float_repr rt low,
                    rt_float_repr rt high, py_text trigger, py_text parent]
              in if new_id \<in> set (zb_generated b) then b
                 else append_zone i (new_zone cx i new_id t dir size low high source trigger parent) (make_room config now b))))"

text \<open>\<open>_order_block\<close>.\<close>

definition block_origin :: "zone_config \<Rightarrow> candle_context \<Rightarrow> nat \<Rightarrow> bool \<Rightarrow> nat option" where
  "block_origin config cx i bullish =
     find (\<lambda>j. (ck_close (kx_candles cx ! j) < ck_open (kx_candles cx ! j)) = bullish)
       (rev [i - obc_lookback (zcf_order_block config)..<i])"

definition order_block :: "runtime \<Rightarrow> zone_config \<Rightarrow> candle_context \<Rightarrow> nat \<Rightarrow> structure_event \<Rightarrow> impulse option \<Rightarrow> zone_board \<Rightarrow> zone_board" where
  "order_block rt config cx i e moved b =
     (case moved of None \<Rightarrow> b
      | Some d \<Rightarrow>
          if dj_confidence_score d < obc_minimum_displacement_score (zcf_order_block config) then b
          else (let bullish = (ve_direction e = Sd_Bullish)
                in case block_origin config cx i bullish of None \<Rightarrow> b
                   | Some j \<Rightarrow>
                       (let c = kx_candles cx ! j;
                            body_ratio = \<bar>ck_close c - ck_open c\<bar> / max (ck_high c - ck_low c) tiny
                        in if body_ratio < obc_minimum_body_ratio (zcf_order_block config) then b
                           else if obc_require_volume_confirmation (zcf_order_block config)
                                \<and> (dj_volume_ratio d = None \<or> dj_volume_ratio d = Some 0) then b
                           else (let (low, high) = (if obc_refine_to_body (zcf_order_block config)
                                   then (min (ck_open c) (ck_close c), max (ck_open c) (ck_close c)) else (ck_low c, ck_high c))
                                 in add_zone rt config cx i (if bullish then Zt_Bullish_Order_Block else Zt_Bearish_Order_Block)
                                      (ve_direction e) low high (j, i) (Some (ve_id e)) b))))"

definition impulse_ending :: "impulse list \<Rightarrow> instant \<Rightarrow> impulse option" where
  "impulse_ending ds t = find (\<lambda>d. dj_end_timestamp d = t) (rev ds)"

definition add_gap :: "runtime \<Rightarrow> zone_config \<Rightarrow> candle_context \<Rightarrow> nat \<Rightarrow> zone_board \<Rightarrow> zone_board" where
  "add_gap rt config cx i b =
     (if i < 2 then b
      else (let c = kx_candles cx ! i; left = kx_candles cx ! (i - 2)
            in if ck_high left < ck_low c then add_zone rt config cx i Zt_Bullish_Fvg Sd_Bullish (ck_high left) (ck_low c) (i - 2, i) None b
               else if ck_high c < ck_low left then add_zone rt config cx i Zt_Bearish_Fvg Sd_Bearish (ck_high c) (ck_low left) (i - 2, i) None b
               else b))"

definition add_void :: "runtime \<Rightarrow> zone_config \<Rightarrow> candle_context \<Rightarrow> nat \<Rightarrow> impulse option \<Rightarrow> zone_board \<Rightarrow> zone_board" where
  "add_void rt config cx i moved b =
     (case moved of None \<Rightarrow> b
      | Some d \<Rightarrow>
          if dj_strength d = Ds_Strong \<and> ibc_void_minimum_candles (zcf_imbalance config) \<le> length (dj_source_candle_ids d) \<and> 0 < i
          then (let p = ck_close (kx_candles cx ! (i - 1)); q = ck_open (kx_candles cx ! i)
                in if min p q < max p q
                   then add_zone rt config cx i Zt_Liquidity_Void (dj_direction d) (min p q) (max p q) (i - 1, i) (Some (dj_id d)) b else b)
          else b)"

definition zone_candle :: "runtime \<Rightarrow> zone_config \<Rightarrow> candle_context \<Rightarrow> structure_event list \<Rightarrow> impulse list \<Rightarrow> zone_board \<Rightarrow> nat \<Rightarrow> zone_board" where
  "zone_candle rt config cx events ds b i =
     (let now = ck_timestamp (kx_candles cx ! i);
          moved = impulse_ending ds now;
          b1 = fold (advance_entry rt config cx i) (zb_active b) b;
          b2 = add_gap rt config cx i b1;
          b3 = add_void rt config cx i moved b2
      in fold (\<lambda>e. order_block rt config cx i e moved) (filter (\<lambda>e. ve_timestamp e = now) events) b3)"

definition empty_board :: zone_board where
  "empty_board = \<lparr>zb_zones = [], zb_active = [], zb_generated = []\<rparr>"

definition zone_history :: "runtime \<Rightarrow> zone_config \<Rightarrow> candle_context \<Rightarrow> structure_event list \<Rightarrow> impulse list \<Rightarrow> nat \<Rightarrow> zone_board" where
  "zone_history rt config cx events ds n = foldl (zone_candle rt config cx events ds) empty_board [0..<n]"

text \<open>\<open>_prune_zones\<close>.\<close>

definition ended_at :: "smc_zone \<Rightarrow> instant" where
  "ended_at z = (case zn_invalidation_timestamp z of Some t \<Rightarrow> t | None \<Rightarrow>
     (case zn_expiration_timestamp z of Some t \<Rightarrow> t | None \<Rightarrow>
     (case zn_mitigation_timestamp z of Some t \<Rightarrow> t | None \<Rightarrow> zn_confirmation_timestamp z)))"

definition last_items :: "nat \<Rightarrow> 'a list \<Rightarrow> 'a list" where
  "last_items n xs = drop (length xs - n) xs"

definition prune_zones :: "zone_config \<Rightarrow> candle_context \<Rightarrow> smc_zone list \<Rightarrow> smc_zone list" where
  "prune_zones config cx zs =
     (let cutoff = ck_timestamp (kx_candles cx ! (length (kx_candles cx) - zcf_evidence_retention_candles config))
      in last_items (zcf_maximum_active_objects config)
           (filter (\<lambda>z. \<not> terminal_state (zn_lifecycle_state z) \<or> cutoff \<le> ended_at z) zs))"

definition zones_of :: "runtime \<Rightarrow> zone_config \<Rightarrow> candle_context \<Rightarrow> structure_event list \<Rightarrow> impulse list \<Rightarrow> smc_zone list" where
  "zones_of rt config cx events ds =
     prune_zones config cx (zb_zones (zone_history rt config cx events ds (length (kx_candles cx))))"

subsection \<open>Liquidity references and dealing ranges\<close>

definition swing_reference :: "runtime \<Rightarrow> candle_context \<Rightarrow> swing_point \<Rightarrow> liquidity_reference" where
  "swing_reference rt cx s = \<lparr>lr_id = smc_id rt ''local-liquidity'' (kx_symbol cx) (kx_timeframe cx) [sp_id s], lr_symbol = kx_symbol cx,
     lr_timeframe = kx_timeframe cx, lr_reference_type = (if is_high (sp_swing_type s) then Lr_Swing_High else Lr_Swing_Low),
     lr_direction = (if is_high (sp_swing_type s) then Sd_Bearish else Sd_Bullish), lr_price = sp_price s, lr_timestamp = sp_timestamp s,
     lr_available_at = confirmed_time s, lr_source_swing_id = Some (sp_id s), lr_source_object_id = None,
     lr_confidence_score = sp_confidence_score s\<rparr>"

definition inducement_reference :: "runtime \<Rightarrow> candle_context \<Rightarrow> structure_event \<Rightarrow> swing_point \<Rightarrow> liquidity_reference" where
  "inducement_reference rt cx e s = \<lparr>lr_id = smc_id rt ''inducement'' (kx_symbol cx) (kx_timeframe cx) [ve_id e, sp_id s], lr_symbol = kx_symbol cx,
     lr_timeframe = kx_timeframe cx, lr_reference_type = Lr_Inducement, lr_direction = ve_direction e, lr_price = sp_price s,
     lr_timestamp = sp_timestamp s, lr_available_at = ve_timestamp e, lr_source_swing_id = Some (sp_id s), lr_source_object_id = Some (ve_id e),
     lr_confidence_score = min (ve_confidence_score e) (sp_confidence_score s)\<rparr>"

definition liquidity_references :: "runtime \<Rightarrow> zone_config \<Rightarrow> candle_context \<Rightarrow> swing_point list \<Rightarrow> structure_event list \<Rightarrow> liquidity_reference list" where
  "liquidity_references rt config cx swings events =
     last_items (zcf_maximum_active_objects config)
       (map (swing_reference rt cx) swings
        @ concat (map (\<lambda>e. case find (\<lambda>s. sp_id s = ve_broken_swing_id e) (rev swings) of
            None \<Rightarrow> [] | Some s \<Rightarrow> [inducement_reference rt cx e s]) events))"

definition dealing_range_of :: "runtime \<Rightarrow> zone_config \<Rightarrow> candle_context \<Rightarrow> swing_point \<Rightarrow> swing_point \<Rightarrow> dealing_range option" where
  "dealing_range_of rt config cx a b =
     (let (top, bottom) = (if is_high (sp_swing_type a) then (a, b) else (b, a));
          high = sp_price top; low = sp_price bottom; span = high - low; cfg = zcf_dealing_range config;
          dir = (if sp_price a < sp_price b then Sd_Bullish else Sd_Bearish);
          band = (\<lambda>lo hi. if dir = Sd_Bullish then (low + span * lo, low + span * hi) else (high - span * hi, high - span * lo));
          ote = band (drc_ote_low_ratio cfg) (drc_ote_high_ratio cfg);
          golden = band (drc_golden_low_ratio cfg) (drc_golden_high_ratio cfg)
      in if is_high (sp_swing_type a) = is_high (sp_swing_type b) \<or> high \<le> low then None
         else Some \<lparr>dg_id = smc_id rt ''dealing-range'' (kx_symbol cx) (kx_timeframe cx) [sp_id a, sp_id b], dg_symbol = kx_symbol cx,
           dg_timeframe = kx_timeframe cx, dg_direction = dir, dg_scope = (if sp_scope a \<noteq> sp_scope b then Sp_Nested else sp_scope b),
           dg_range_high = high, dg_range_low = low, dg_equilibrium = low + span * fl64 (5 / 10),
           dg_premium_boundary = low + span * drc_premium_ratio cfg, dg_discount_boundary = low + span * drc_discount_ratio cfg,
           dg_ote_low = fst ote, dg_ote_high = snd ote, dg_golden_zone_low = fst golden, dg_golden_zone_high = snd golden,
           dg_source_swing_high_id = sp_id top, dg_source_swing_low_id = sp_id bottom, dg_start_timestamp = sp_timestamp a,
           dg_end_timestamp = sp_timestamp b, dg_lifecycle_state = Ls_Active,
           dg_confidence_score = min (sp_confidence_score a) (sp_confidence_score b)\<rparr>)"

definition dealing_ranges :: "runtime \<Rightarrow> zone_config \<Rightarrow> candle_context \<Rightarrow> swing_point list \<Rightarrow> dealing_range list" where
  "dealing_ranges rt config cx swings =
     (let ordered = sort_key sp_timestamp swings
      in last_items (drc_maximum_ranges (zcf_dealing_range config))
           (concat (map (\<lambda>(a, b). case dealing_range_of rt config cx a b of None \<Rightarrow> [] | Some r \<Rightarrow> [r]) (zip ordered (tl ordered)))))"

subsection \<open>Zones stay valid\<close>

lemma f64_pos_diff: "0 < h - l \<Longrightarrow> l < (h :: f64)"
proof (rule ccontr)
  assume "0 < h - l" "\<not> l < h"
  then have "h - l \<le> l - l" by (intro f64_diff_mono) simp_all
  then show False using \<open>0 < h - l\<close> by simp
qed

lemma fl_double: "fl (2 * fval x) = 2 * fval x"
proof (cases "fval x = 0")
  case False
  let ?e = "ulp_expo (fval x)" and ?m = "rhe (fval x / 2 powi ulp_expo (fval x))"
  have "fl (fval x) = of_int ?m * 2 powi ?e" using False by (simp only: fl_def Let_def if_False)
  then have "fval x = of_int ?m * 2 powi ?e" by simp
  then have "2 * fval x = of_int ?m * 2 powi (?e + 1)" by (simp add: power_int_add)
  moreover have "\<bar>?m\<bar> \<le> 2 ^ 53" by (rule rhe_ulp_bound)
  moreover have "- 1074 \<le> ?e + 1" by (simp add: ulp_expo_def)
  ultimately show ?thesis by (rule fl_exact)
qed simp

lemma midpoint_bounds:
  assumes "l \<le> (h :: f64)"
  shows "l \<le> (h + l) / fint 2 \<and> (h + l) / fint 2 \<le> h"
proof -
  have "fl (2 * fval l) \<le> fl (fval h + fval l)" "fl (fval h + fval l) \<le> fl (2 * fval h)"
    using assms by (auto intro!: fl_mono simp: f64_order)
  then have "2 * fval l \<le> fval (h + l)" "fval (h + l) \<le> 2 * fval h" unfolding fl_double by (simp_all add: fval_arith)
  then have "fval l \<le> fval (h + l) / 2" "fval (h + l) / 2 \<le> fval h" by simp_all
  then have "fl (fval l) \<le> fl (fval (h + l) / 2)" "fl (fval (h + l) / 2) \<le> fl (fval h)" by (simp_all only: fl_mono)
  then show ?thesis by (simp add: f64_order fval_arith fval_fint)
qed

lemma midpoint_ok: "0 < l \<Longrightarrow> l \<le> h \<Longrightarrow> 0 < (h + l) / fint 2 \<and> l \<le> (h + l) / fint 2 \<and> (h + l) / fint 2 \<le> h"
  using midpoint_bounds [of l h] by (meson less_le_trans)

lemma f64_add_commute_mid: "(l + h) / fint 2 = (h + l) / (fint 2 :: f64)"
  by (simp add: fval_inject [symmetric] fval_arith add.commute)

lemma expire_zone_ok: "zone_ok z \<Longrightarrow> zone_ok (expire_zone t z)"
  by (simp add: zone_ok_def expire_zone_def)

lemma percent_0: "percent 0" using fint_nonneg [of 100] by (simp add: percent_def in_range_def)

lemma derived_zone_ok: "zone_ok z \<Longrightarrow> zone_ok (derived_zone u t z)"
  by (simp add: zone_ok_def derived_zone_def percent_0)

lemma invalidate_zone_ok: "zone_ok z \<Longrightarrow> zone_ok (fst (invalidate_zone rt cx c z)) \<and> (\<forall>d \<in> set (snd (invalidate_zone rt cx c z)). zone_ok d)"
  using derived_zone_ok [of z] by (auto simp: invalidate_zone_def zone_ok_def split: option.split)

lemma filled_zone_ok: assumes "zone_ok z" shows "zone_ok (filled_zone config c z)"
proof -
  have "0 \<le> zn_fill_percentage z" using assms percentD by (simp add: zone_ok_def)
  then have "percent (fill_of c z)" unfolding fill_of_def Let_def by (intro percent_cap) (simp add: le_max_iff_disj)
  then show ?thesis using assms by (simp add: zone_ok_def filled_zone_def Let_def)
qed

lemma touch_zone_ok:
  assumes "zone_ok z" "candle_ok c"
  shows "zone_ok (fst (touch_zone rt config cx c z)) \<and> (\<forall>d \<in> set (snd (touch_zone rt config cx c z)). zone_ok d)"
proof -
  let ?u = "filled_zone config c z"
  obtain low high where g: "gap_remainder c z = (low, high)" by fastforce
  have low: "0 < low" using g assms by (auto simp: gap_remainder_def zone_ok_def less_max_iff_disj split: if_split_asm)
  have u: "zone_ok ?u" by (rule filled_zone_ok [OF assms(1)])
  have split: "zone_ok ((derived_zone k t ?u)\<lparr>zn_lower_price := low, zn_upper_price := high, zn_midpoint := (low + high) / fint 2, zn_lifecycle_state := Ls_Active\<rparr>)"
    if "low < high" for k t
  proof -
    have "0 < (low + high) / fint 2 \<and> low \<le> (low + high) / fint 2 \<and> (low + high) / fint 2 \<le> high" "0 < high"
      using midpoint_ok [OF low, of high] that low unfolding f64_add_commute_mid [of low] by auto
    then show ?thesis using derived_zone_ok [OF u, of k t] low that by (simp add: zone_ok_def)
  qed
  have block: "zone_ok ((derived_zone k t ?u)\<lparr>zn_zone_type := y\<rparr>)" for k t y
    using derived_zone_ok [OF u, of k t] by (simp add: zone_ok_def)
  have super: "zone_ok (?u\<lparr>zn_lifecycle_state := s\<rparr>)" for s using u by (simp add: zone_ok_def)
  show ?thesis unfolding touch_zone_def Let_def g prod.case using u split block super by simp
qed

lemma advance_zone_ok:
  assumes "zone_ok z" "candle_ok (kx_candles cx ! i)" "zone_config_ok config"
  shows "zone_ok (fst (advance_zone rt config cx i origin z)) \<and> (\<forall>d \<in> set (snd (advance_zone rt config cx i origin z)). zone_ok d)"
proof -
  have "zn_confidence_score z - ibc_time_decay_per_candle (zcf_imbalance config) \<le> zn_confidence_score z"
    using assms(3) by (intro f64_diff_le) (simp add: zone_config_ok_def)
  then have "percent (max 0 (zn_confidence_score z - ibc_time_decay_per_candle (zcf_imbalance config)))"
    using assms(1) fint_nonneg [of 100] by (auto simp: zone_ok_def percent_def in_range_def)
  then have decayed: "zone_ok (z\<lparr>zn_confidence_score := max 0 (zn_confidence_score z - ibc_time_decay_per_candle (zcf_imbalance config)),
      zn_version := zn_version z + 1\<rparr>)" using assms(1) by (simp add: zone_ok_def)
  show ?thesis unfolding advance_zone_def Let_def
    using assms(1) expire_zone_ok invalidate_zone_ok touch_zone_ok [OF assms(1,2)] decayed by (simp split: if_split)
qed

text \<open>The board: valid zones, and a dict of active zones whose entries are not terminal and share neither keys nor positions.\<close>

definition board_ok :: "zone_board \<Rightarrow> bool" where
  "board_ok b \<longleftrightarrow> (\<forall>z \<in> set (zb_zones b). zone_ok z) \<and> distinct (map fst (zb_active b)) \<and> distinct (map (snd \<circ> snd) (zb_active b))
     \<and> (\<forall>(k, origin, p) \<in> set (zb_active b). k \<in> set (zb_generated b) \<and> p < length (zb_zones b)
          \<and> \<not> terminal_state (zn_lifecycle_state (zb_zones b ! p)))"

text \<open>A later board: no slot disappears and terminal zones are as they were.\<close>

definition board_extends :: "zone_board \<Rightarrow> zone_board \<Rightarrow> bool" where
  "board_extends b b' \<longleftrightarrow> length (zb_zones b) \<le> length (zb_zones b')
     \<and> (\<forall>p < length (zb_zones b). terminal_state (zn_lifecycle_state (zb_zones b ! p)) \<longrightarrow> zb_zones b' ! p = zb_zones b ! p)"

lemma board_extends_refl [simp]: "board_extends b b" by (simp add: board_extends_def)

lemma board_extends_trans: "board_extends a b \<Longrightarrow> board_extends b c \<Longrightarrow> board_extends a c"
  unfolding board_extends_def by (metis le_trans less_le_trans)

lemma update_fresh: "k \<notin> fst ` set al \<Longrightarrow> AList.update k v al = al @ [(k, v)]"
  by (induction al) auto

lemma update_same: "(k, v) \<in> set al \<Longrightarrow> distinct (map fst al) \<Longrightarrow> AList.update k v al = al"
  by (induction al) (auto simp: image_iff)

lemma delete_filter: "AList.delete k al = filter (\<lambda>e. fst e \<noteq> k) al"
  by (auto simp: AList.delete_eq intro!: filter_cong)

lemma append_zone_ok:
  assumes "board_ok b" "zone_ok z" "\<not> terminal_state (zn_lifecycle_state z)" "zn_id z \<notin> set (zb_generated b)"
  shows "board_ok (append_zone i z b) \<and> board_extends b (append_zone i z b) \<and> set (zb_active b) \<subseteq> set (zb_active (append_zone i z b))"
proof -
  have fresh: "zn_id z \<notin> fst ` set (zb_active b)" using assms(1,4) by (auto simp: board_ok_def)
  have positions: "length (zb_zones b) \<notin> (snd \<circ> snd) ` set (zb_active b)" using assms(1) by (auto simp: board_ok_def)
  have old: "k \<in> set (zb_generated b) \<and> p < length (zb_zones b) \<and> \<not> terminal_state (zn_lifecycle_state (zb_zones b ! p))"
    if "(k, o', p) \<in> set (zb_active b)" for k o' p using assms(1) that by (auto simp: board_ok_def)
  have "board_ok (append_zone i z b)"
    using assms fresh positions old unfolding board_ok_def append_zone_def update_fresh [OF fresh]
    by (auto simp: nth_append)
  moreover have "board_extends b (append_zone i z b)" by (simp add: board_extends_def append_zone_def nth_append)
  ultimately show ?thesis by (auto simp: append_zone_def update_fresh [OF fresh])
qed

text \<open>Retiring an active zone: its slot changes and its entry goes.\<close>

definition retire_zone :: "uuid \<Rightarrow> nat \<Rightarrow> smc_zone \<Rightarrow> zone_board \<Rightarrow> zone_board" where
  "retire_zone k p z b = b\<lparr>zb_zones := (zb_zones b)[p := z], zb_active := AList.delete k (zb_active b)\<rparr>"

lemma active_entry:
  assumes "board_ok b" "(k, origin, p) \<in> set (zb_active b)"
  shows "p < length (zb_zones b)" "\<not> terminal_state (zn_lifecycle_state (zb_zones b ! p))" "zone_ok (zb_zones b ! p)"
    and "\<forall>(j, o', q) \<in> set (zb_active b). j \<noteq> k \<longrightarrow> q \<noteq> p"
proof -
  show "p < length (zb_zones b)" "\<not> terminal_state (zn_lifecycle_state (zb_zones b ! p))" using assms by (auto simp: board_ok_def)
  then show "zone_ok (zb_zones b ! p)" using assms(1) by (auto simp: board_ok_def)
  have "distinct (map (snd \<circ> snd) (zb_active b))" using assms(1) by (simp add: board_ok_def)
  then have "inj_on (snd \<circ> snd) (set (zb_active b))" by (simp only: distinct_map)
  then show "\<forall>(j, o', q) \<in> set (zb_active b). j \<noteq> k \<longrightarrow> q \<noteq> p" using assms(2) unfolding inj_on_def by fastforce
qed

lemma extends_update: "\<not> terminal_state (zn_lifecycle_state (zb_zones b ! p)) \<Longrightarrow> zb_zones b' = (zb_zones b)[p := z] \<Longrightarrow> board_extends b b'"
  unfolding board_extends_def by (metis length_list_update nth_list_update_neq order_refl)

lemma retire_zone_ok:
  assumes "board_ok b" "(k, origin, p) \<in> set (zb_active b)" "zone_ok z"
  shows "board_ok (retire_zone k p z b) \<and> board_extends b (retire_zone k p z b)"
proof -
  note e = active_entry [OF assms(1,2)]
  have "\<forall>x \<in> set ((zb_zones b)[p := z]). zone_ok x"
    using assms(1,3) set_update_subset_insert [of "zb_zones b" p z] by (auto simp: board_ok_def)
  moreover have "distinct (map fst (filter (\<lambda>e. fst e \<noteq> k) (zb_active b)))" "distinct (map (snd \<circ> snd) (filter (\<lambda>e. fst e \<noteq> k) (zb_active b)))"
    using assms(1) by (auto simp: board_ok_def intro: distinct_map_filter)
  ultimately have "board_ok (retire_zone k p z b)"
    using assms(1) e(4) unfolding board_ok_def retire_zone_def delete_filter by (fastforce simp: nth_list_update)
  then show ?thesis using extends_update [OF e(2)] by (simp add: retire_zone_def)
qed

lemma keep_zone_ok:
  assumes "board_ok b" "(k, origin, p) \<in> set (zb_active b)" "zone_ok z" "\<not> terminal_state (zn_lifecycle_state z)"
  shows "board_ok (b\<lparr>zb_zones := (zb_zones b)[p := z]\<rparr>) \<and> board_extends b (b\<lparr>zb_zones := (zb_zones b)[p := z]\<rparr>)"
proof -
  note e = active_entry [OF assms(1,2)]
  have "\<forall>x \<in> set ((zb_zones b)[p := z]). zone_ok x"
    using assms(1,3) set_update_subset_insert [of "zb_zones b" p z] by (auto simp: board_ok_def)
  moreover have "\<not> terminal_state (zn_lifecycle_state ((zb_zones b)[p := z] ! q))" if "(j, o', q) \<in> set (zb_active b)" for j o' q
    using active_entry(1,2) [OF assms(1) that] assms(4) by (cases "q = p") simp_all
  ultimately have "board_ok (b\<lparr>zb_zones := (zb_zones b)[p := z]\<rparr>)"
    using assms(1) unfolding board_ok_def by fastforce
  then show ?thesis using extends_update [OF e(2)] by simp
qed


text \<open>One step for an active zone, and the loop over all of them.\<close>

lemma advance_zone_derivatives:
  assumes "d \<in> set (snd (advance_zone rt config cx i origin z))"
  shows "\<not> terminal_state (zn_lifecycle_state d)"
  using assms unfolding advance_zone_def Let_def
  by (auto simp: invalidate_zone_def touch_zone_def Let_def derived_zone_def terminal_state_def split: if_split_asm option.split_asm prod.split_asm)

lemma advance_zone_state:
  "\<not> terminal_state (zn_lifecycle_state z) \<Longrightarrow> terminal_state (zn_lifecycle_state (fst (advance_zone rt config cx i origin z)))
     \<longleftrightarrow> retired_state (zn_lifecycle_state (fst (advance_zone rt config cx i origin z)))"
  unfolding advance_zone_def Let_def
  by (auto simp: invalidate_zone_def touch_zone_def filled_zone_def expire_zone_def Let_def terminal_state_def retired_state_def split: prod.split)

lemma add_derivatives_ok:
  assumes "board_ok b" "\<forall>d \<in> set ds. zone_ok d \<and> \<not> terminal_state (zn_lifecycle_state d)"
  shows "board_ok (fold (add_derivative i) ds b) \<and> board_extends b (fold (add_derivative i) ds b)
     \<and> set (zb_active b) \<subseteq> set (zb_active (fold (add_derivative i) ds b))"
  using assms
proof (induction ds arbitrary: b)
  case (Cons d ds)
  have step: "board_ok (add_derivative i d b) \<and> board_extends b (add_derivative i d b) \<and> set (zb_active b) \<subseteq> set (zb_active (add_derivative i d b))"
    using append_zone_ok [OF Cons.prems(1), of d i] Cons.prems by (auto simp: add_derivative_def append_zone_def)
  then show ?case using Cons.IH [of "add_derivative i d b"] Cons.prems(2) board_extends_trans by fastforce
qed simp

lemma advance_entry_ok:
  assumes "board_ok b" "(k, origin, p) \<in> set (zb_active b)" "candle_ok (kx_candles cx ! i)" "zone_config_ok config"
  shows "board_ok (advance_entry rt config cx i (k, origin, p) b) \<and> board_extends b (advance_entry rt config cx i (k, origin, p) b)
     \<and> {e \<in> set (zb_active b). fst e \<noteq> k} \<subseteq> set (zb_active (advance_entry rt config cx i (k, origin, p) b))"
proof -
  obtain u ds where a: "advance_zone rt config cx i origin (zb_zones b ! p) = (u, ds)" by fastforce
  note e = active_entry [OF assms(1,2)]
  have ok: "zone_ok u" "\<forall>d \<in> set ds. zone_ok d \<and> \<not> terminal_state (zn_lifecycle_state d)"
    using advance_zone_ok [OF e(3) assms(3,4), of rt origin] advance_zone_derivatives [of _ rt config cx i origin "zb_zones b ! p"] a by auto
  have state: "terminal_state (zn_lifecycle_state u) \<longleftrightarrow> retired_state (zn_lifecycle_state u)"
    using advance_zone_state [OF e(2), of rt config cx i origin] a by simp
  define b' where "b' = b\<lparr>zb_zones := (zb_zones b)[p := u], zb_active := (if retired_state (zn_lifecycle_state u) then AList.delete k (zb_active b)
      else AList.update k (origin, p) (zb_active b))\<rparr>"
  have b': "board_ok b' \<and> board_extends b b' \<and> {e \<in> set (zb_active b). fst e \<noteq> k} \<subseteq> set (zb_active b')"
  proof (cases "retired_state (zn_lifecycle_state u)")
    case True
    then show ?thesis using retire_zone_ok [OF assms(1,2) ok(1)] by (auto simp: b'_def retire_zone_def delete_filter)
  next
    case False
    have "AList.update k (origin, p) (zb_active b) = zb_active b" using assms(1,2) by (intro update_same) (simp_all add: board_ok_def)
    then have "b' = b\<lparr>zb_zones := (zb_zones b)[p := u]\<rparr>" using False by (simp add: b'_def)
    then show ?thesis using keep_zone_ok [OF assms(1,2) ok(1)] False state by auto
  qed
  have "advance_entry rt config cx i (k, origin, p) b = fold (add_derivative i) ds b'"
    unfolding advance_entry_def prod.case a b'_def ..
  then show ?thesis using add_derivatives_ok [OF conjunct1 [OF b'] ok(2), of i] b' board_extends_trans by (metis (no_types, lifting) order_trans)
qed

lemma advance_all_ok:
  assumes "candle_ok (kx_candles cx ! i)" "zone_config_ok config"
  shows "board_ok b \<Longrightarrow> set es \<subseteq> set (zb_active b) \<Longrightarrow> distinct (map fst es) \<Longrightarrow>
     board_ok (fold (advance_entry rt config cx i) es b) \<and> board_extends b (fold (advance_entry rt config cx i) es b)"
proof (induction es arbitrary: b)
  case (Cons e es)
  obtain k origin p where e: "e = (k, origin, p)" by (cases e)
  let ?b = "advance_entry rt config cx i e b"
  have step: "board_ok ?b" "board_extends b ?b" "{e \<in> set (zb_active b). fst e \<noteq> k} \<subseteq> set (zb_active ?b)"
    using advance_entry_ok [OF Cons.prems(1) _ assms, of k origin p rt] Cons.prems(2) unfolding e by simp_all
  have "set es \<subseteq> set (zb_active ?b)" using Cons.prems(2,3) step(3) unfolding e by force
  then have "board_ok (fold (advance_entry rt config cx i) es ?b) \<and> board_extends ?b (fold (advance_entry rt config cx i) es ?b)"
    using Cons.IH [of ?b] step(1) Cons.prems(3) by simp
  then show ?case using step(2) board_extends_trans by fastforce
qed simp

lemma merge_gap_ok:
  assumes "board_ok b" "0 < low" "low < high" "merge_gap t low high tolerance b = (low', high', parent, b')"
  shows "board_ok b' \<and> board_extends b b' \<and> 0 < low' \<and> low' < high'"
proof (cases "if fvg_type t then overlapping_gap t low high tolerance b else None")
  case None
  then show ?thesis using assms by (simp add: merge_gap_def)
next
  case (Some e)
  obtain k origin p where e: "e = (k, origin, p)" by (cases e)
  have "overlapping_gap t low high tolerance b = Some e" using Some by (simp split: if_split_asm)
  then have mem: "(k, origin, p) \<in> set (zb_active b)"
    unfolding overlapping_gap_def e by (metis (no_types, lifting) find_Some_iff nth_mem)
  let ?z = "(zb_zones b ! p)\<lparr>zn_lifecycle_state := Ls_Superseded, zn_version := zn_version (zb_zones b ! p) + 1\<rparr>"
  have z: "zone_ok (zb_zones b ! p)" by (rule active_entry(3) [OF assms(1) mem])
  then have "zone_ok ?z" by (simp add: zone_ok_def)
  then have "board_ok (retire_zone k p ?z b) \<and> board_extends b (retire_zone k p ?z b)" by (rule retire_zone_ok [OF assms(1) mem])
  moreover have "b' = retire_zone k p ?z b" "low' = min low (zn_lower_price (zb_zones b ! p))" "high' = max high (zn_upper_price (zb_zones b ! p))"
    using assms(4) Some unfolding e merge_gap_def Let_def by (simp_all add: retire_zone_def)
  ultimately show ?thesis using assms(2,3) z by (simp add: zone_ok_def min_less_iff_disj less_max_iff_disj)
qed

lemma make_room_ok:
  assumes "board_ok b" "zone_config_ok config"
  shows "board_ok (make_room config t b) \<and> board_extends b (make_room config t b)"
proof (cases "zcf_maximum_active_objects config \<le> length (zb_active b)")
  case True
  then have "zb_active b \<noteq> []" using assms(2) by (auto simp: zone_config_ok_def)
  then have "sort_key (\<lambda>(_, origin, _). origin) (zb_active b) \<noteq> []" by (metis length_sort length_0_conv)
  from hd_in_set [OF this] have mem: "hd (sort_key (\<lambda>(_, origin, _). origin) (zb_active b)) \<in> set (zb_active b)" by (simp only: set_sort)
  obtain k origin p where eq: "hd (sort_key (\<lambda>(_, origin, _). origin) (zb_active b)) = (k, origin, p)" by (rule prod_cases3)
  note h = eq mem [unfolded eq]
  have "zone_ok (expire_zone t (zb_zones b ! p))" by (intro expire_zone_ok active_entry(3) [OF assms(1) h(2)])
  then have "board_ok (retire_zone k p (expire_zone t (zb_zones b ! p)) b) \<and> board_extends b (retire_zone k p (expire_zone t (zb_zones b ! p)) b)"
    by (rule retire_zone_ok [OF assms(1) h(2)])
  then show ?thesis using True h(1) by (simp add: make_room_def retire_zone_def)
qed (simp add: make_room_def assms(1))

lemma add_zone_ok:
  assumes ok: "board_ok b" and config: "zone_config_ok config" and low: "0 < low"
    and quality: "percent (ck_quality_score (kx_candles cx ! fst source))" "percent (ck_quality_score (kx_candles cx ! snd source))"
  shows "board_ok (add_zone rt config cx i t dir low high source trigger b) \<and> board_extends b (add_zone rt config cx i t dir low high source trigger b)"
proof -
  let ?size = "high - low" and ?atr = "atr_at cx i" and ?now = "ck_timestamp (kx_candles cx ! i)"
  obtain low' high' parent b' where m: "merge_gap t low high (?atr * ibc_merge_tolerance_atr (zcf_imbalance config)) b = (low', high', parent, b')"
    by (metis prod_cases4)
  let ?id = "smc_id rt ''zone'' (kx_symbol cx) (kx_timeframe cx) [zone_type_value t, isoformat ?now, rt_float_repr rt low', rt_float_repr rt high', py_text trigger, py_text parent]"
  show ?thesis
  proof (cases "?size \<le> 0 \<or> ?size < max (ibc_minimum_size (zcf_imbalance config)) (?atr * ibc_minimum_atr_size (zcf_imbalance config))")
    case True
    then show ?thesis using ok unfolding add_zone_def Let_def by simp
  next
    case large: False
    then have "low < high" using f64_pos_diff [of high low] by (simp add: not_le)
    note b' = merge_gap_ok [OF ok low this m]
    show ?thesis
    proof (cases "?id \<in> set (zb_generated b')")
      case True
      then show ?thesis using b' unfolding add_zone_def Let_def if_not_P [OF large] m prod.case by simp
    next
      case False
      let ?q = "min (ck_quality_score (kx_candles cx ! fst source)) (ck_quality_score (kx_candles cx ! snd source))"
      let ?score = "min (fint 100) (fint 45 + ?size / max ?atr tiny * fint 25 + ?q * fl64 (3 / 10))"
      note room = make_room_ok [OF conjunct1 [OF b'] config, of ?now]
      have q: "percent ?q" using quality by (auto simp: min_def)
      have "0 < ?size" using large by (simp add: not_le)
      then have "0 \<le> ?size" by (rule less_imp_le)
      then have s: "percent ?score" using percentD [OF q] by (intro percent_cap score_intros) simp_all
      have mid: "0 < (high' + low') / fint 2 \<and> low' \<le> (high' + low') / fint 2 \<and> (high' + low') / fint 2 \<le> high'" "0 < high'"
        using midpoint_ok [of low' high'] b' by (auto intro: less_trans)
      let ?z = "new_zone cx i ?id t dir ?size low' high' source trigger parent"
      have z: "zone_ok ?z" "zn_id ?z = ?id" "\<not> terminal_state (zn_lifecycle_state ?z)"
        unfolding new_zone_def Let_def using b' q s mid
        by (simp_all add: zone_ok_def percent_0 less_imp_le terminal_state_def)
      have generated: "zb_generated (make_room config ?now b') = zb_generated b'" by (simp add: make_room_def split: prod.split)
      have added: "add_zone rt config cx i t dir low high source trigger b = append_zone i ?z (make_room config ?now b')"
        unfolding add_zone_def Let_def if_not_P [OF large] m prod.case if_not_P [OF False] ..
      have "zn_id ?z \<notin> set (zb_generated (make_room config ?now b'))" unfolding z(2) generated by (rule False)
      from append_zone_ok [OF conjunct1 [OF room] z(1,3) this]
      have "board_ok (append_zone i ?z (make_room config ?now b')) \<and> board_extends (make_room config ?now b') (append_zone i ?z (make_room config ?now b'))"
        by blast
      then show ?thesis unfolding added using room b' board_extends_trans by blast
    qed
  qed
qed


lemma candle_quality: "candle_ok c \<Longrightarrow> percent (ck_quality_score c)"
  by (simp add: candle_ok_def percent_def)

lemma board_step: "board_ok b' \<and> board_extends b b' \<Longrightarrow> board_ok b'' \<and> board_extends b' b'' \<Longrightarrow> board_ok b'' \<and> board_extends b b''"
  using board_extends_trans by blast

lemma zone_candle_ok:
  assumes cs: "\<forall>c \<in> set (kx_candles cx). candle_ok c" and config: "zone_config_ok config" and i: "i < length (kx_candles cx)" and b: "board_ok b"
  shows "board_ok (zone_candle rt config cx events ds b i) \<and> board_extends b (zone_candle rt config cx events ds b i)"
proof -
  have c: "candle_ok (kx_candles cx ! j)" if "j \<le> i" for j using cs i that by simp
  note q = candle_quality [OF c]
  have pos: "0 < ck_high (kx_candles cx ! j)" "0 < ck_low (kx_candles cx ! j)" "0 < ck_open (kx_candles cx ! j)" "0 < ck_close (kx_candles cx ! j)"
    if "j \<le> i" for j using c [OF that] by (simp_all add: candle_ok_def)
  let ?moved = "impulse_ending ds (ck_timestamp (kx_candles cx ! i))"
  define b1 where "b1 = fold (advance_entry rt config cx i) (zb_active b) b"
  define b2 where "b2 = add_gap rt config cx i b1"
  define b3 where "b3 = add_void rt config cx i ?moved b2"
  have s1: "board_ok b1 \<and> board_extends b b1"
    unfolding b1_def using b by (intro advance_all_ok c config) (simp_all add: board_ok_def)
  have add: "board_ok (add_zone rt config cx i t dir low high source trigger x) \<and> board_extends x (add_zone rt config cx i t dir low high source trigger x)"
    if "board_ok x" "0 < low" "fst source \<le> i" "snd source \<le> i" for t dir low high source trigger x
    by (rule add_zone_ok [OF that(1) config that(2) q [OF that(3)] q [OF that(4)]])
  have s2: "board_ok b2 \<and> board_extends b1 b2"
    unfolding b2_def add_gap_def Let_def using s1 pos by (simp add: add)
  have s3: "board_ok b3 \<and> board_extends b2 b3"
    unfolding b3_def add_void_def Let_def using s2 pos by (simp add: add split: option.split)
  have block: "board_ok (order_block rt config cx i e ?moved x) \<and> board_extends x (order_block rt config cx i e ?moved x)" if x: "board_ok x" for e x
  proof -
    have "j \<le> i" if "block_origin config cx i up = Some j" for j up
    proof -
      have "j \<in> set (rev [i - obc_lookback (zcf_order_block config)..<i])"
        using that unfolding block_origin_def by (metis (no_types, lifting) find_Some_iff nth_mem)
      then show ?thesis by simp
    qed
    then show ?thesis unfolding order_block_def Let_def using x pos
      by (simp add: add split: option.split)
  qed
  have "board_ok (fold (\<lambda>e. order_block rt config cx i e ?moved) es x) \<and> board_extends x (fold (\<lambda>e. order_block rt config cx i e ?moved) es x)"
    if "board_ok x" for es x using that
  proof (induction es arbitrary: x)
    case (Cons e es)
    show ?case using board_step [OF block [OF Cons.prems, of e] Cons.IH] block [OF Cons.prems, of e] by simp
  qed simp
  then show ?thesis
    unfolding zone_candle_def Let_def b1_def [symmetric] b2_def [symmetric] b3_def [symmetric]
    using s1 s2 s3 board_step by meson
qed


lemma zone_history_ok:
  assumes "\<forall>c \<in> set (kx_candles cx). candle_ok c" "zone_config_ok config" "n \<le> length (kx_candles cx)"
  shows "board_ok (zone_history rt config cx events ds n)"
  using assms(3)
proof (induction n)
  case 0
  then show ?case by (simp add: zone_history_def empty_board_def board_ok_def)
next
  case (Suc n)
  then show ?case using zone_candle_ok [OF assms(1,2), of n "zone_history rt config cx events ds n" rt events ds] by (simp add: zone_history_def)
qed

lemma zone_history_extends:
  assumes "\<forall>c \<in> set (kx_candles cx). candle_ok c" "zone_config_ok config" "n \<le> length (kx_candles cx)" "m \<le> n"
  shows "board_extends (zone_history rt config cx events ds m) (zone_history rt config cx events ds n)"
  using assms(4,3)
proof (induction n rule: dec_induct)
  case (step n)
  have "zone_history rt config cx events ds (Suc n) = zone_candle rt config cx events ds (zone_history rt config cx events ds n) n"
    by (simp add: zone_history_def)
  then have "board_extends (zone_history rt config cx events ds n) (zone_history rt config cx events ds (Suc n))"
    using zone_candle_ok [OF assms(1,2) _ zone_history_ok [OF assms(1,2)]] step.prems by simp
  then show ?case using step.IH step.prems board_extends_trans by simp
qed simp

text \<open>Claim C13: on valid candles every zone a snapshot publishes satisfies its contract, although the copies that advance,
  split, merge and convert zones run no validator: positive prices in order with the midpoint between them, and
  percentages in range.\<close>

theorem zones_stay_valid:
  assumes "\<forall>c \<in> set (kx_candles cx). candle_ok c" "zone_config_ok config"
  shows "list_all zone_ok (zones_of rt config cx events ds)"
proof -
  have "set (zones_of rt config cx events ds) \<subseteq> set (zb_zones (zone_history rt config cx events ds (length (kx_candles cx))))"
    using set_drop_subset by (fastforce simp: zones_of_def prune_zones_def Let_def last_items_def)
  then show ?thesis using zone_history_ok [OF assms order_refl, of rt events ds] by (auto simp: list_all_iff board_ok_def)
qed

text \<open>Claim C12: the lifecycle of a zone ends once. Whatever the candles bring, a zone that is mitigated, invalidated, expired or
  superseded keeps its slot and never changes again, and the zones that may still change are exactly the entries
  of the active dict, whose keys and slots are distinct.\<close>

theorem zone_lifecycle_ends:
  assumes "\<forall>c \<in> set (kx_candles cx). candle_ok c" "zone_config_ok config" "m \<le> n" "n \<le> length (kx_candles cx)"
    and "p < length (zb_zones (zone_history rt config cx events ds m))"
    and "terminal_state (zn_lifecycle_state (zb_zones (zone_history rt config cx events ds m) ! p))"
  shows "p < length (zb_zones (zone_history rt config cx events ds n))
     \<and> zb_zones (zone_history rt config cx events ds n) ! p = zb_zones (zone_history rt config cx events ds m) ! p
     \<and> p \<notin> (snd \<circ> snd) ` set (zb_active (zone_history rt config cx events ds n))
     \<and> distinct (map fst (zb_active (zone_history rt config cx events ds n)))
     \<and> distinct (map (snd \<circ> snd) (zb_active (zone_history rt config cx events ds n)))"
proof -
  have kept: "p < length (zb_zones (zone_history rt config cx events ds n))"
    "zb_zones (zone_history rt config cx events ds n) ! p = zb_zones (zone_history rt config cx events ds m) ! p"
    using zone_history_extends [OF assms(1,2,4,3), of rt events ds] assms(5,6) by (auto simp: board_extends_def)
  have ok: "board_ok (zone_history rt config cx events ds n)" by (rule zone_history_ok [OF assms(1,2,4)])
  have "q \<noteq> p" if "(k, origin, q) \<in> set (zb_active (zone_history rt config cx events ds n))" for k origin q
    using active_entry(2) [OF ok that] kept(2) assms(6) by auto
  then have "p \<notin> (snd \<circ> snd) ` set (zb_active (zone_history rt config cx events ds n))" by force
  then show ?thesis using kept ok unfolding board_ok_def by blast
qed

subsection \<open>Displacements are regrouped after the fact\<close>

lemma single_impulse_end: "single_impulse rt config cx vs i = Some d \<Longrightarrow> dj_end_timestamp d = ck_timestamp (kx_candles cx ! i)"
  by (auto simp: single_impulse_def Let_def split: if_split_asm)

lemma continue_impulse_end: "dj_end_timestamp (continue_impulse rt config cx i p d) = dj_end_timestamp d"
  by (simp add: continue_impulse_def Let_def)

lemma invalidate_impulse_end: "dj_end_timestamp (invalidate_impulse config cx d) = dj_end_timestamp d"
  by (simp add: invalidate_impulse_def Let_def split: option.split)

lemma impulse_step_shape:
  "snd (impulse_step rt config cx (vs, found) i) = found
   \<or> (\<exists>d. dj_end_timestamp d = ck_timestamp (kx_candles cx ! i) \<and> (snd (impulse_step rt config cx (vs, found) i) = found @ [d]
        \<or> snd (impulse_step rt config cx (vs, found) i) = butlast found @ [d]))"
proof (cases "single_impulse rt config cx vs i")
  case None
  then show ?thesis by (simp add: impulse_step_def)
next
  case (Some d)
  have ends: "dj_end_timestamp d = ck_timestamp (kx_candles cx ! i)" by (rule single_impulse_end [OF Some])
  show ?thesis
  proof (cases "continues cx i found d")
    case True
    then have "snd (impulse_step rt config cx (vs, found) i) = butlast found @ [continue_impulse rt config cx i (last found) d]"
      using Some by (simp add: impulse_step_def)
    then show ?thesis using ends continue_impulse_end by metis
  next
    case False
    then have "snd (impulse_step rt config cx (vs, found) i) = found @ [d]" using Some by (simp add: impulse_step_def)
    then show ?thesis using ends by blast
  qed
qed

definition impulses_upto :: "runtime \<Rightarrow> zone_config \<Rightarrow> candle_context \<Rightarrow> nat \<Rightarrow> f64 list \<times> impulse list" where
  "impulses_upto rt config cx n = foldl (impulse_step rt config cx) ([], []) [0..<n]"

lemma impulses_upto_Suc: "impulses_upto rt config cx (Suc n) = impulse_step rt config cx (impulses_upto rt config cx n) n"
  by (simp add: impulses_upto_def)

lemma impulses_upto_prefix:
  assumes "context_prefix m cx' cx" "n \<le> m"
  shows "impulses_upto rt config cx' n = impulses_upto rt config cx n"
  using assms(2)
proof (induction n)
  case (Suc n)
  then have n: "n < m" "n - 1 < m" by simp_all
  have "impulse_step rt config cx' st n = impulse_step rt config cx st n" for st
    unfolding impulse_step_def single_impulse_def continues_def continue_impulse_def
      prefix_nth [OF assms(1) n(1)] prefix_nth [OF assms(1) n(2)] prefix_atr [OF assms(1) n(1)] prefix_candle_id [OF assms(1) n(1)] prefix_names [OF assms(1)] ..
  then show ?case using Suc by (simp add: impulses_upto_Suc)
qed (simp add: impulses_upto_def)

text \<open>Once the displacement that ended at a candle has been absorbed, no later one ends there.\<close>

lemma absorbed_stays:
  assumes "sorted_wrt (<) (map ck_timestamp (kx_candles cx))" "j < length (kx_candles cx)"
    and "\<forall>d \<in> set (snd (impulses_upto rt config cx n)). dj_end_timestamp d \<noteq> ck_timestamp (kx_candles cx ! j)" "j < n"
  shows "n \<le> k \<Longrightarrow> k \<le> length (kx_candles cx) \<Longrightarrow> \<forall>d \<in> set (snd (impulses_upto rt config cx k)). dj_end_timestamp d \<noteq> ck_timestamp (kx_candles cx ! j)"
proof (induction k rule: dec_induct)
  case base
  then show ?case using assms(3) by simp
next
  case (step k)
  obtain vs found where st: "impulses_upto rt config cx k = (vs, found)" by fastforce
  have old: "\<forall>d \<in> set found. dj_end_timestamp d \<noteq> ck_timestamp (kx_candles cx ! j)" using step st by simp
  have "map ck_timestamp (kx_candles cx) ! j < map ck_timestamp (kx_candles cx) ! k"
    using sorted_wrt_nth_less [OF assms(1), of j k] step.hyps step.prems assms(4) by simp
  then have "ck_timestamp (kx_candles cx ! k) \<noteq> ck_timestamp (kx_candles cx ! j)" using step.prems assms(2) by simp
  moreover have "\<forall>d \<in> set (butlast found). dj_end_timestamp d \<noteq> ck_timestamp (kx_candles cx ! j)" using old in_set_butlastD by fast
  ultimately show ?case using impulse_step_shape [of rt config cx vs found k] old unfolding impulses_upto_Suc st by auto
qed

lemma impulse_ends_before:
  assumes "sorted_wrt (<) (map ck_timestamp (kx_candles cx))"
  shows "n \<le> length (kx_candles cx) \<Longrightarrow> sorted_wrt (<) (map dj_end_timestamp (snd (impulses_upto rt config cx n)))
     \<and> (\<forall>d \<in> set (snd (impulses_upto rt config cx n)). \<exists>j < n. dj_end_timestamp d = ck_timestamp (kx_candles cx ! j))"
proof (induction n)
  case (Suc n)
  obtain vs found where st: "impulses_upto rt config cx n = (vs, found)" by fastforce
  have IH: "sorted_wrt (<) (map dj_end_timestamp found)" "\<forall>d \<in> set found. \<exists>j < n. dj_end_timestamp d = ck_timestamp (kx_candles cx ! j)"
    using Suc st by simp_all
  have older: "dj_end_timestamp d < ck_timestamp (kx_candles cx ! n)" if "d \<in> set found" for d
  proof -
    obtain j where j: "j < n" "dj_end_timestamp d = ck_timestamp (kx_candles cx ! j)" using IH(2) \<open>d \<in> set found\<close> by blast
    then show ?thesis using sorted_wrt_nth_less [OF assms, of j n] Suc.prems by simp
  qed
  have butlast: "sorted_wrt (<) (map dj_end_timestamp (butlast found))" using IH(1) by (cases found rule: rev_cases) (simp_all add: sorted_wrt_append)
  have grown: "sorted_wrt (<) (map dj_end_timestamp (xs @ [d])) \<and> (\<forall>x \<in> set (xs @ [d]). \<exists>j < Suc n. dj_end_timestamp x = ck_timestamp (kx_candles cx ! j))"
    if "set xs \<subseteq> set found" "sorted_wrt (<) (map dj_end_timestamp xs)" "dj_end_timestamp d = ck_timestamp (kx_candles cx ! n)" for xs d
  proof -
    have "\<exists>j < Suc n. dj_end_timestamp x = ck_timestamp (kx_candles cx ! j)" if "x \<in> set found" for x using IH(2) that less_SucI by blast
    moreover have "\<exists>j < Suc n. dj_end_timestamp d = ck_timestamp (kx_candles cx ! j)" using that(3) by blast
    ultimately show ?thesis using that older by (auto simp: sorted_wrt_append)
  qed
  have kept: "\<forall>x \<in> set found. \<exists>j < Suc n. dj_end_timestamp x = ck_timestamp (kx_candles cx ! j)" using IH(2) less_SucI by blast
  have sub: "set (butlast found) \<subseteq> set found" using in_set_butlastD by fast
  let ?out = "snd (impulse_step rt config cx (vs, found) n)"
  have "sorted_wrt (<) (map dj_end_timestamp ?out) \<and> (\<forall>x \<in> set ?out. \<exists>j < Suc n. dj_end_timestamp x = ck_timestamp (kx_candles cx ! j))"
    using impulse_step_shape [of rt config cx vs found n]
  proof (elim disjE exE conjE)
    assume same: "?out = found"
    show ?thesis unfolding same using IH(1) kept by simp
  next
    fix d assume d: "dj_end_timestamp d = ck_timestamp (kx_candles cx ! n)" and new: "?out = found @ [d]"
    show ?thesis unfolding new by (rule grown [OF subset_refl IH(1) d])
  next
    fix d assume d: "dj_end_timestamp d = ck_timestamp (kx_candles cx ! n)" and new: "?out = butlast found @ [d]"
    show ?thesis unfolding new by (rule grown [OF sub butlast d])
  qed
  then show ?case unfolding impulses_upto_Suc st .
qed (simp add: impulses_upto_def)

lemma impulse_ending_None: "impulse_ending ds t = None \<longleftrightarrow> (\<forall>d \<in> set ds. dj_end_timestamp d \<noteq> t)"
  by (auto simp: impulse_ending_def find_None_iff)

lemma impulses_ends: "dj_end_timestamp ` set (impulses rt config cx) = dj_end_timestamp ` set (snd (impulses_upto rt config cx (length (kx_candles cx))))"
  by (simp add: impulses_def found_impulses_def impulses_upto_def image_image invalidate_impulse_end)

text \<open>Claim C24: displacements are regrouped after the fact. When the candle after a prefix of the series continues the
  displacement that ends the prefix, the analysis of the prefix has a displacement ending at its last candle, which
  that candle needs to found an order block, and the analysis of the whole series has none.\<close>

theorem displacement_regrouped:
  assumes "build_context cs base = Inr cx" "build_context (take m cs) base = Inr cx'" "0 < m" "m < length cs"
    and "single_impulse rt config cx (fst (impulses_upto rt config cx m)) m = Some d" "continues cx m (snd (impulses_upto rt config cx m)) d"
  shows "impulse_ending (impulses rt config cx') (ck_timestamp (cs ! (m - 1))) \<noteq> None
     \<and> impulse_ending (impulses rt config cx) (ck_timestamp (cs ! (m - 1))) = None"
proof -
  obtain cx'' where "build_context (take m cs) base = Inr cx''" and "context_prefix m cx'' cx" using build_context_take [OF assms(1,3)] assms(4) by auto
  then have pre: "context_prefix m cx' cx" using assms(2) by simp
  note cs = build_context_fields(1) [OF assms(1)] and sorted = build_context_fields(4) [OF assms(1)]
  let ?t = "ck_timestamp (cs ! (m - 1))"
  obtain vs found where st: "impulses_upto rt config cx m = (vs, found)" by fastforce
  have len: "length (kx_candles cx') = m" by (rule prefix_length [OF pre])
  have last: "found \<noteq> []" "dj_end_timestamp (last found) = ?t" using assms(6) st cs by (simp_all add: continues_def)
  have "impulses_upto rt config cx' (length (kx_candles cx')) = (vs, found)"
    using impulses_upto_prefix [OF pre order_refl, of rt config] st len by simp
  then have "dj_end_timestamp ` set (impulses rt config cx') = dj_end_timestamp ` set found" using impulses_ends [of rt config cx'] by simp
  then have "?t \<in> dj_end_timestamp ` set (impulses rt config cx')" using imageI [OF last_in_set [OF last(1)], of dj_end_timestamp] last(2) by simp
  then have early: "impulse_ending (impulses rt config cx') ?t \<noteq> None" unfolding impulse_ending_None image_iff by metis
  have "sorted_wrt (<) (map dj_end_timestamp found)"
    using impulse_ends_before [of cx m rt config] sorted cs st assms(4) by simp
  then have "sorted_wrt (<) (map dj_end_timestamp (butlast found @ [last found]))" using last(1) by simp
  then have before: "\<forall>x \<in> set (butlast found). dj_end_timestamp x \<noteq> ?t" using last(2) by (auto simp: sorted_wrt_append)
  have step: "snd (impulses_upto rt config cx (Suc m)) = butlast found @ [continue_impulse rt config cx m (last found) d]"
    using assms(5,6) unfolding impulses_upto_Suc st by (simp add: impulse_step_def)
  have "dj_end_timestamp d \<noteq> ?t"
    using single_impulse_end [OF assms(5)] sorted_wrt_nth_less [OF sorted, of "m - 1" m] assms(3,4) cs by simp
  then have fresh: "\<forall>x \<in> set (butlast found @ [continue_impulse rt config cx m (last found) d]). dj_end_timestamp x \<noteq> ?t"
    using before by (simp add: continue_impulse_end)
  have inside: "m - 1 < length cs" "m - 1 < Suc m" "Suc m \<le> length cs" using assms(4) by simp_all
  have later: "\<forall>x \<in> set (snd (impulses_upto rt config cx (length cs))). dj_end_timestamp x \<noteq> ?t"
    using absorbed_stays [of cx "m - 1" rt config "Suc m" "length cs"] inside fresh sorted unfolding cs step by blast
  have "?t \<notin> dj_end_timestamp ` set (impulses rt config cx)"
    unfolding impulses_ends cs image_iff using later by metis
  then have "impulse_ending (impulses rt config cx) ?t = None" unfolding impulse_ending_None image_iff by metis
  with early show ?thesis ..
qed

subsection \<open>The hypotheses can hold\<close>

definition bar_candle :: "int \<Rightarrow> int \<Rightarrow> int \<Rightarrow> candle" where
  "bar_candle k a b = (sample_candle k b)\<lparr>ck_open := fint a, ck_high := fint (max a b + 1), ck_low := fint (min a b - 1), ck_close := fint b\<rparr>"

text \<open>A break of structure and a candle that carries its displacement on; a gap that the next candle falls through.\<close>

definition surging_candles :: "candle list" where
  "surging_candles = [bar_candle 0 1996 2002, bar_candle 5 2000 2006, bar_candle 10 2005 1999, bar_candle 15 2004 2010, bar_candle 20 2010 2016]"

definition gapping_candles :: "candle list" where
  "gapping_candles = [bar_candle 0 2000 2001, bar_candle 5 2001 2010, bar_candle 10 2010 2015, bar_candle 15 2015 1995, bar_candle 20 1995 1996]"

definition zone_sample_config :: zone_config where
  "zone_sample_config = default_zone_config narrow_smc_config"

definition sample_context :: "candle list \<Rightarrow> candle_context" where
  "sample_context cs = context_of cs narrow_smc_config"

definition sample_events :: "candle_context \<Rightarrow> structure_event list" where
  "sample_events cx = kt_events (track_structure smc_rt narrow_smc_config cx (detect_swings smc_rt narrow_smc_config cx))"

definition sample_impulses :: "candle_context \<Rightarrow> impulse list" where
  "sample_impulses cx = impulses smc_rt zone_sample_config cx"

definition sample_zones :: "candle_context \<Rightarrow> smc_zone list" where
  "sample_zones cx = (let ds = sample_impulses cx in zones_of smc_rt zone_sample_config cx (sample_events cx) ds)"

definition sample_board :: "candle_context \<Rightarrow> nat \<Rightarrow> zone_board" where
  "sample_board cx n = zone_history smc_rt zone_sample_config cx [] [] n"

definition gapping_view :: "(zone_type \<times> lifecycle_state) list \<times> lifecycle_state list \<times> bool \<times> nat" where
  "gapping_view = (let cx = sample_context gapping_candles
     in (map (\<lambda>z. (zn_zone_type z, zn_lifecycle_state z)) (zones_of smc_rt zone_sample_config cx [] []), map zn_lifecycle_state (zb_zones (sample_board cx 4)),
         list_all candle_ok (kx_candles cx), length (kx_candles cx)))"

lemma gapping_view_value: "gapping_view
    = ([(Zt_Bullish_Fvg, Ls_Invalidated), (Zt_Bearish_Inversion_Fvg, Ls_Active), (Zt_Bearish_Fvg, Ls_Active)], [Ls_Invalidated, Ls_Active], True, 5)"
  by code_simp

abbreviation gapping_context :: candle_context where
  "gapping_context \<equiv> sample_context gapping_candles"

lemmas gapping_facts = gapping_view_value [unfolded gapping_view_def Let_def prod.inject]

lemma zone_sample_ok: "zone_config_ok zone_sample_config" by code_simp

lemma gapping_candles_ok: "\<forall>c \<in> set (kx_candles gapping_context). candle_ok c"
  using gapping_facts by (simp add: list_all_iff)

theorem zones_stay_valid_witness:
  "list_all zone_ok (zones_of smc_rt zone_sample_config gapping_context [] [])
     \<and> map (\<lambda>z. (zn_zone_type z, zn_lifecycle_state z)) (zones_of smc_rt zone_sample_config gapping_context [] [])
       = [(Zt_Bullish_Fvg, Ls_Invalidated), (Zt_Bearish_Inversion_Fvg, Ls_Active), (Zt_Bearish_Fvg, Ls_Active)]"
proof
  show "list_all zone_ok (zones_of smc_rt zone_sample_config gapping_context [] [])"
    by (rule zones_stay_valid [OF gapping_candles_ok zone_sample_ok])
  show "map (\<lambda>z. (zn_zone_type z, zn_lifecycle_state z)) (zones_of smc_rt zone_sample_config gapping_context [] [])
       = [(Zt_Bullish_Fvg, Ls_Invalidated), (Zt_Bearish_Inversion_Fvg, Ls_Active), (Zt_Bearish_Fvg, Ls_Active)]" using gapping_facts by simp
qed

theorem zone_lifecycle_ends_witness:
  "zn_lifecycle_state (zb_zones (sample_board gapping_context 4) ! 0) = Ls_Invalidated
     \<and> zb_zones (sample_board gapping_context 5) ! 0 = zb_zones (sample_board gapping_context 4) ! 0"
proof -
  have states: "map zn_lifecycle_state (zb_zones (sample_board gapping_context 4)) = [Ls_Invalidated, Ls_Active]" using gapping_facts by simp
  then obtain z zs where zones: "zb_zones (sample_board gapping_context 4) = z # zs" "zn_lifecycle_state z = Ls_Invalidated"
    by (auto simp: map_eq_Cons_conv)
  have five: "length (kx_candles gapping_context) = 5" using gapping_facts by simp
  have "zb_zones (sample_board gapping_context 5) ! 0 = zb_zones (sample_board gapping_context 4) ! 0"
    using zone_lifecycle_ends [OF gapping_candles_ok zone_sample_ok, of 4 5 0 smc_rt "[]" "[]"]
      zones five unfolding sample_board_def by (simp add: terminal_state_def)
  then show ?thesis using zones by simp
qed

lemma sample_build:
  assumes "\<not> isl (build_context cs narrow_smc_config)"
  shows "build_context cs narrow_smc_config = Inr (sample_context cs)"
  using assms by (auto simp: sample_context_def context_of_def isl_def split: sum.split)

lemma surging_early_zones: "map zn_zone_type (sample_zones (sample_context (take 4 surging_candles))) = [Zt_Bullish_Order_Block]"
  by code_simp

lemma surging_late_zones: "map zn_zone_type (sample_zones (sample_context surging_candles)) = [Zt_Bullish_Fvg]"
  by code_simp

definition carried_on :: "candle_context \<Rightarrow> f64 list \<times> impulse list \<Rightarrow> nat \<Rightarrow> bool option" where
  "carried_on cx st i = map_option (continues cx i (snd st)) (single_impulse smc_rt zone_sample_config cx (fst st) i)"

lemma surging_carried_on:
  "carried_on (sample_context surging_candles) (impulses_upto smc_rt zone_sample_config (sample_context surging_candles) 4) 4 = Some True"
  by code_simp

text \<open>The candle that founds an order block founds none once the next candle has carried its displacement on.\<close>

theorem displacement_regrouped_witness:
  "impulse_ending (sample_impulses (sample_context (take 4 surging_candles))) (ck_timestamp (surging_candles ! 3)) \<noteq> None
     \<and> impulse_ending (sample_impulses (sample_context surging_candles)) (ck_timestamp (surging_candles ! 3)) = None
     \<and> map zn_zone_type (sample_zones (sample_context (take 4 surging_candles))) = [Zt_Bullish_Order_Block]
     \<and> map zn_zone_type (sample_zones (sample_context surging_candles)) = [Zt_Bullish_Fvg]"
proof -
  let ?cx = "sample_context surging_candles" and ?cx' = "sample_context (take 4 surging_candles)"
  have whole: "build_context surging_candles narrow_smc_config = Inr ?cx" by (rule sample_build) code_simp
  have early: "build_context (take 4 surging_candles) narrow_smc_config = Inr ?cx'" by (rule sample_build) code_simp
  obtain d where d: "single_impulse smc_rt zone_sample_config ?cx (fst (impulses_upto smc_rt zone_sample_config ?cx 4)) 4 = Some d"
    "continues ?cx 4 (snd (impulses_upto smc_rt zone_sample_config ?cx 4)) d" 
    using surging_carried_on by (auto simp: carried_on_def map_option_eq_Some)
  have inside: "(4::nat) < length surging_candles" by (simp add: surging_candles_def)
  show ?thesis using displacement_regrouped [OF whole early _ inside d] surging_early_zones surging_late_zones unfolding sample_impulses_def by simp
qed

end
