(* ===== verification/Registry.thy ===== *)
theory Registry
  imports Prelude
begin

text \<open>
  Catalogues keyed by name, shared by several components: registering a key twice raises,
  an unknown key raises, the first registration stays. \<open>catalog\<close> states the contract; the
  rule registry and the policy registry of the signal decision engine
  (\<open>rules.py\<close>, \<open>policies.py\<close>) and the engine factory (\<open>services/engine_factory.py\<close>)
  provide it.
\<close>

locale catalog =
  fixes empty :: 'r
    and register :: "'r \<Rightarrow> 'v \<Rightarrow> 'e + 'r"
    and lookup :: "'r \<Rightarrow> 'k \<Rightarrow> 'v option"
    and key :: "'v \<Rightarrow> 'k"
  assumes lookup_empty: "lookup empty k = None"
    and register_new: "lookup r (key v) = None \<Longrightarrow>
      \<exists>r'. register r v = Inr r' \<and> lookup r' = (lookup r)(key v \<mapsto> v)"
    and register_dup: "lookup r (key v) \<noteq> None \<Longrightarrow> \<exists>e. register r v = Inl e"
begin

primrec register_all :: "'r \<Rightarrow> 'v list \<Rightarrow> 'e + 'r" where
  "register_all r [] = Inr r"
| "register_all r (v # vs) = bindE (register r v) (\<lambda>r'. register_all r' vs)"

lemma register_InrD:
  "register r v = Inr r' \<Longrightarrow> lookup r (key v) = None \<and> lookup r' = (lookup r)(key v \<mapsto> v)"
  by (metis Inl_Inr_False Inr_inject register_dup register_new)

lemma register_keeps: "register r v = Inr r' \<Longrightarrow> lookup r k = Some w \<Longrightarrow> lookup r' k = Some w"
  using register_InrD by force

lemma register_all_keeps:
  "register_all r vs = Inr r' \<Longrightarrow> lookup r k = Some w \<Longrightarrow> lookup r' k = Some w"
  by (induction vs arbitrary: r) (auto simp: bindE_eq_Inr dest: register_keeps)

lemma register_all_Inr_iff:
  "(\<exists>r'. register_all r vs = Inr r') \<longleftrightarrow> distinct (map key vs) \<and> (\<forall>v \<in> set vs. lookup r (key v) = None)"
proof (induction vs arbitrary: r)
  case (Cons v vs)
  show ?case
  proof (cases "lookup r (key v)")
    case None
    then obtain r' where "register r v = Inr r'" "lookup r' = (lookup r)(key v \<mapsto> v)"
      using register_new by blast
    then have "(\<exists>q. register_all r (v # vs) = Inr q) \<longleftrightarrow>
        distinct (map key vs) \<and> (\<forall>w \<in> set vs. key w \<noteq> key v \<and> lookup r (key w) = None)"
      using Cons.IH [of r'] by (simp add: fun_upd_def) blast
    then show ?thesis using None by (auto simp: image_iff)
  next
    case (Some w)
    then show ?thesis using register_dup [of r v] by auto
  qed
qed simp

lemma register_all_lookup:
  assumes "register_all r vs = Inr r'" "v \<in> set vs"
  shows "lookup r' (key v) = Some v"
  using assms
proof (induction vs arbitrary: r)
  case (Cons w vs)
  from Cons.prems(1) obtain r1 where r1: "register r w = Inr r1" "register_all r1 vs = Inr r'"
    by (auto simp: bindE_eq_Inr)
  have "lookup r' (key w) = Some w"
    using register_all_keeps [OF r1(2)] register_InrD [OF r1(1)] by simp
  then show ?case using Cons r1(2) by auto
qed simp

lemma register_all_dom:
  assumes "register_all r vs = Inr r'"
  shows "dom (lookup r') = dom (lookup r) \<union> key ` set vs"
  using assms
proof (induction vs arbitrary: r)
  case (Cons w vs)
  from Cons.prems obtain r1 where r1: "register r w = Inr r1" "register_all r1 vs = Inr r'"
    by (auto simp: bindE_eq_Inr)
  show ?case
    using Cons.IH [OF r1(2)] register_InrD [OF r1(1)] by auto
qed simp

end

subsection \<open>A dict behind a duplicate check\<close>

definition dict_register :: "'e \<Rightarrow> ('k \<times> 'v) list \<Rightarrow> 'k \<Rightarrow> 'v \<Rightarrow> 'e + ('k \<times> 'v) list" where
  "dict_register err d k v = (if map_of d k \<noteq> None then Inl err else Inr (AList.update k v d))"

lemma dict_register_new: "map_of d k = None \<Longrightarrow> dict_register err d k v = Inr (AList.update k v d)"
  by (simp add: dict_register_def)

lemma dict_catalog: "catalog [] (\<lambda>d v. dict_register (err v) d (key v) v) map_of key"
  by unfold_locales (auto simp: dict_register_def update_conv')

end
