(* ===== verification/Infrastructure.thy ===== *)
theory Infrastructure
  imports Registry
begin

text \<open>
  The process-local plumbing shared by the engines: \<open>InMemoryEventBus\<close> (\<open>events/bus.py\<close>) and
  \<open>InMemoryFeatureStore\<close> (\<open>features/store.py\<close>). Both keep a bounded sequence that forgets its
  oldest element and counts what it forgot; the locale \<open>bounded_store\<close> is that contract.
  A method body runs under the lock of its object, so it is one step here; whether a handler
  completes in time is a parameter.
\<close>

subsection \<open>Bounded sequences\<close>

text \<open>\<open>deque(maxlen=n).append\<close>.\<close>

definition push_bounded :: "nat \<Rightarrow> 'a list \<Rightarrow> 'a \<Rightarrow> 'a list" where
  "push_bounded n xs x = drop (Suc (length xs) - n) (xs @ [x])"

lemma length_push_bounded: "length xs \<le> n \<Longrightarrow> length (push_bounded n xs x) = min n (Suc (length xs))"
  by (auto simp: push_bounded_def)

lemma set_push_bounded: "set (push_bounded n xs x) \<subseteq> insert x (set xs)"
  by (auto simp: push_bounded_def dest!: in_set_dropD)

lemma push_bounded_suffix:
  assumes "1 \<le> n"
  shows "push_bounded n (drop (length ys - n) ys) x = drop (length (ys @ [x]) - n) (ys @ [x])"
proof (cases "length ys \<le> n")
  case False
  then have "Suc (length (drop (length ys - n) ys)) - n = 1" "Suc (length ys) - n = Suc (length ys - n)"
    by simp_all
  then show ?thesis using False assms by (simp add: push_bounded_def drop_Suc drop_tl)
qed (simp add: push_bounded_def)

locale bounded_store =
  fixes items :: "'s \<Rightarrow> 'x list"
    and cap :: "'s \<Rightarrow> nat"
    and evicted :: "'s \<Rightarrow> nat"
    and put :: "'s \<Rightarrow> 'x \<Rightarrow> 's"
    and admits :: "'s \<Rightarrow> 'x \<Rightarrow> bool"
  assumes put_refused: "\<not> admits s x \<Longrightarrow> put s x = s"
    and put_items: "length (items s) \<le> cap s \<Longrightarrow> 1 \<le> cap s \<Longrightarrow> admits s x \<Longrightarrow>
      items (put s x) = push_bounded (cap s) (items s) x"
    and put_cap: "cap (put s x) = cap s"
    and put_evicted: "length (items s) \<le> cap s \<Longrightarrow> 1 \<le> cap s \<Longrightarrow> admits s x \<Longrightarrow>
      evicted (put s x) = evicted s + (Suc (length (items s)) - cap s)"
begin

definition capped :: "'s \<Rightarrow> bool" where
  "capped s \<longleftrightarrow> 1 \<le> cap s \<and> length (items s) \<le> cap s"

lemma put_capped: "capped s \<Longrightarrow> capped (put s x)"
  using put_refused [of s x] put_items [of s x] put_cap [of s x]
  by (cases "admits s x") (auto simp: capped_def length_push_bounded)

lemma put_conserves:
  "capped s \<Longrightarrow> length (items (put s x)) + evicted (put s x)
     = length (items s) + evicted s + (if admits s x then 1 else 0)"
  using put_refused [of s x] put_items [of s x] put_evicted [of s x]
  by (cases "admits s x") (auto simp: capped_def length_push_bounded)

lemma put_newest: "capped s \<Longrightarrow> admits s x \<Longrightarrow> items (put s x) \<noteq> [] \<and> last (items (put s x)) = x"
  using put_items [of s x] by (auto simp: capped_def push_bounded_def last_drop)

lemma put_all_capped: "capped s \<Longrightarrow> capped (foldl put s xs)"
  by (induction xs arbitrary: s) (simp_all add: put_capped)

lemma put_all_cap: "cap (foldl put s xs) = cap s"
  by (induction xs arbitrary: s) (simp_all add: put_cap)

text \<open>When everything is admitted the store holds the most recent \<open>cap\<close> elements.\<close>

lemma put_all_suffix:
  assumes "capped s" "\<And>s x. admits s x"
  shows "items (foldl put s xs) = drop (length (items s @ xs) - cap s) (items s @ xs)"
  using assms(1)
proof (induction xs rule: rev_induct)
  case (snoc x xs)
  let ?s = "foldl put s xs"
  have w: "capped ?s" using snoc.prems by (rule put_all_capped)
  then have "items (put ?s x) = push_bounded (cap s) (items ?s) x"
    using put_items [of ?s x] assms(2) by (simp add: capped_def put_all_cap)
  also have "\<dots> = push_bounded (cap s) (drop (length (items s @ xs) - cap s) (items s @ xs)) x"
    using snoc by simp
  also have "\<dots> = drop (length ((items s @ xs) @ [x]) - cap s) ((items s @ xs) @ [x])"
    using snoc.prems by (intro push_bounded_suffix) (simp add: capped_def)
  finally show ?case by simp
qed (simp add: capped_def)

end

subsection \<open>The event bus\<close>

text \<open>An event type is the name of its class. Handlers are opaque and identified by a number; the
  dict of handlers keeps insertion order.\<close>

type_synonym event_type = string
type_synonym handler = nat

record event =
  ev_type :: event_type
  ev_event_id :: uuid
  ev_correlation_id :: uuid
  ev_occurred_at :: instant
  ev_origin :: string
  ev_payload :: "(string \<times> json) list"

record bus =
  bu_handlers :: "(event_type \<times> handler list) list"
  bu_history :: "event list"
  bu_history_capacity :: nat
  bu_closed :: bool
  bu_published_total :: nat
  bu_failed_total :: nat
  bu_history_evictions :: nat

datatype bus_error = Bus_Value_Error | Bus_Closed | Handler_Failed

definition new_bus :: "int \<Rightarrow> f64 \<Rightarrow> int \<Rightarrow> bus_error + bus" where
  "new_bus capacity timeout history_capacity =
     (if capacity < 1 \<or> history_capacity < 1 \<or> timeout \<le> 0 then Inl Bus_Value_Error
      else Inr \<lparr>bu_handlers = [], bu_history = [], bu_history_capacity = nat history_capacity, bu_closed = False,
        bu_published_total = 0, bu_failed_total = 0, bu_history_evictions = 0\<rparr>)"

definition handlers_for :: "bus \<Rightarrow> event_type \<Rightarrow> handler list" where
  "handlers_for b t = (case map_of (bu_handlers b) t of None \<Rightarrow> [] | Some hs \<Rightarrow> hs)"

definition subscribe :: "bus \<Rightarrow> event_type \<Rightarrow> handler \<Rightarrow> bus" where
  "subscribe b t h = b\<lparr>bu_handlers := AList.update t (handlers_for b t @ [h]) (bu_handlers b)\<rparr>"

definition unsubscribe :: "bus \<Rightarrow> event_type \<Rightarrow> handler \<Rightarrow> bus" where
  "unsubscribe b t h = (if h \<in> set (handlers_for b t)
     then b\<lparr>bu_handlers := AList.update t (remove1 h (handlers_for b t)) (bu_handlers b)\<rparr> else b)"

text \<open>The part of \<open>publish\<close> under the lock: history and counters.\<close>

definition record_event :: "bus \<Rightarrow> event \<Rightarrow> bus" where
  "record_event b e = (if bu_closed b then b else
     b\<lparr>bu_history := push_bounded (bu_history_capacity b) (bu_history b) e,
       bu_history_evictions := bu_history_evictions b + (if length (bu_history b) = bu_history_capacity b then 1 else 0),
       bu_published_total := bu_published_total b + 1\<rparr>)"

text \<open>\<open>isinstance(event, event_type)\<close> is the parameter \<open>isinst\<close>.\<close>

definition recipients :: "(event_type \<Rightarrow> event_type \<Rightarrow> bool) \<Rightarrow> bus \<Rightarrow> event \<Rightarrow> handler list" where
  "recipients isinst b e = concat (map snd (filter (\<lambda>(t, _). isinst (ev_type e) t) (bu_handlers b)))"

definition publish :: "(event_type \<Rightarrow> event_type \<Rightarrow> bool) \<Rightarrow> (handler \<Rightarrow> event \<Rightarrow> bool) \<Rightarrow> bus \<Rightarrow> event
    \<Rightarrow> bus \<times> handler list \<times> (bus_error + unit)" where
  "publish isinst completes b e =
     (if bu_closed b then (b, [], Inl Bus_Closed)
      else let b' = record_event b e; hs = recipients isinst b e in
        if list_all (\<lambda>h. completes h e) hs then (b', hs, Inr ())
        else (b'\<lparr>bu_failed_total := bu_failed_total b' + 1\<rparr>, hs, Inl Handler_Failed))"

definition close_bus :: "bus \<Rightarrow> bus" where
  "close_bus b = b\<lparr>bu_closed := True\<rparr>"

interpretation bus_log: bounded_store bu_history bu_history_capacity bu_history_evictions record_event
    "\<lambda>b _. \<not> bu_closed b"
  by unfold_locales (auto simp: record_event_def)

text \<open>The life of a bus: any interleaving of its operations.\<close>

inductive bus_step :: "(event_type \<Rightarrow> event_type \<Rightarrow> bool) \<Rightarrow> bus \<Rightarrow> bus \<Rightarrow> bool" for isinst where
  step_subscribe: "bus_step isinst b (subscribe b t h)"
| step_unsubscribe: "bus_step isinst b (unsubscribe b t h)"
| step_publish: "bus_step isinst b (fst (publish isinst completes b e))"
| step_close: "bus_step isinst b (close_bus b)"

inductive bus_reachable :: "(event_type \<Rightarrow> event_type \<Rightarrow> bool) \<Rightarrow> bus \<Rightarrow> bool" for isinst where
  reach_new: "new_bus c t n = Inr b \<Longrightarrow> bus_reachable isinst b"
| reach_step: "bus_reachable isinst b \<Longrightarrow> bus_step isinst b b' \<Longrightarrow> bus_reachable isinst b'"

inductive_cases bus_stepE: "bus_step isinst b b'"

lemma publish_state:
  "fst (publish isinst completes b e) = (if bu_closed b then b
     else if list_all (\<lambda>h. completes h e) (recipients isinst b e) then record_event b e
     else (record_event b e)\<lparr>bu_failed_total := bu_failed_total b + 1\<rparr>)"
  by (simp add: publish_def Let_def record_event_def)

definition bus_ok :: "bus \<Rightarrow> bool" where
  "bus_ok b \<longleftrightarrow> bus_log.capped b \<and> bu_published_total b = length (bu_history b) + bu_history_evictions b
     \<and> bu_failed_total b \<le> bu_published_total b"

lemma bus_ok_record: "bus_ok b \<Longrightarrow> bus_ok (record_event b e)"
  using bus_log.put_capped [of b e] bus_log.put_conserves [of b e]
  by (auto simp: bus_ok_def record_event_def)

lemma bus_ok_step: "bus_step isinst b b' \<Longrightarrow> bus_ok b \<Longrightarrow> bus_ok b'"
proof (erule bus_stepE)
  fix completes e assume "b' = fst (publish isinst completes b e)" and ok: "bus_ok b"
  moreover have "bu_failed_total b \<le> bu_published_total b" "\<not> bu_closed b \<Longrightarrow>
      bu_published_total (record_event b e) = Suc (bu_published_total b)"
    using ok by (simp_all add: bus_ok_def record_event_def)
  ultimately show "bus_ok b'"
    using bus_ok_record [OF ok, of e] by (auto simp: publish_state bus_ok_def bus_log.capped_def)
qed (auto simp: bus_ok_def bus_log.capped_def subscribe_def unsubscribe_def close_bus_def)

text \<open>Claim C31: in every reachable state of the bus the history holds at most its capacity, and no
  publication is lost from the count: the events published are those retained plus those
  evicted, and at most that many failed.\<close>

theorem bus_accounting:
  assumes "bus_reachable isinst b"
  shows "length (bu_history b) \<le> bu_history_capacity b \<and> 1 \<le> bu_history_capacity b
    \<and> bu_published_total b = length (bu_history b) + bu_history_evictions b
    \<and> bu_failed_total b \<le> bu_published_total b"
proof -
  have "bus_ok b" using assms
  proof (induction rule: bus_reachable.induct)
    case (reach_new c t n b)
    then show ?case by (auto simp: bus_ok_def bus_log.capped_def new_bus_def split: if_splits)
  qed (rule bus_ok_step)
  then show ?thesis by (simp add: bus_ok_def bus_log.capped_def)
qed

definition sample_event :: event where
  "sample_event = \<lparr>ev_type = ''SignalGenerated'', ev_event_id = ''e1'', ev_correlation_id = ''c'', ev_occurred_at = 0,
     ev_origin = ''test'', ev_payload = []\<rparr>"

definition sample_bus :: bus where
  "sample_bus = \<lparr>bu_handlers = [], bu_history = [], bu_history_capacity = 1, bu_closed = False,
     bu_published_total = 0, bu_failed_total = 0, bu_history_evictions = 0\<rparr>"

lemma sample_bus_new: "new_bus 1 1 1 = Inr sample_bus"
  by (simp add: sample_bus_def new_bus_def not_le)

theorem bus_accounting_witness:
  "bu_published_total (fst (publish (\<lambda>_ _. True) (\<lambda>_ _. False) (subscribe sample_bus ''Event'' 0) sample_event))
     = length (bu_history (fst (publish (\<lambda>_ _. True) (\<lambda>_ _. False) (subscribe sample_bus ''Event'' 0) sample_event)))
       + bu_history_evictions (fst (publish (\<lambda>_ _. True) (\<lambda>_ _. False) (subscribe sample_bus ''Event'' 0) sample_event))"
proof -
  have "bus_reachable (\<lambda>_ _. True) (fst (publish (\<lambda>_ _. True) (\<lambda>_ _. False) (subscribe sample_bus ''Event'' 0) sample_event))"
    by (rule reach_step [OF reach_step [OF reach_new [OF sample_bus_new] step_subscribe] step_publish])
  from bus_accounting [OF this] show ?thesis by blast
qed

text \<open>Delivery on an open bus. A publication reaches the handlers of every subscribed type
  the event is an instance of, each as often as it is subscribed, and fails exactly when one
  of them fails; a closed bus delivers nothing and records nothing.\<close>

theorem publish_delivery:
  assumes "distinct (map fst (bu_handlers b))"
  shows "count_list (fst (snd (publish isinst completes b e))) h =
      (if bu_closed b then 0 else (\<Sum>t \<leftarrow> filter (isinst (ev_type e)) (map fst (bu_handlers b)). count_list (handlers_for b t) h))
    \<and> (snd (snd (publish isinst completes b e)) = Inr () \<longleftrightarrow>
        \<not> bu_closed b \<and> (\<forall>x \<in> set (fst (snd (publish isinst completes b e))). completes x e))
    \<and> (bu_closed b \<longrightarrow> fst (publish isinst completes b e) = b)"
proof -
  have "count_list (concat (map snd (filter (\<lambda>(t, _). P t) hs))) h
      = (\<Sum>t \<leftarrow> filter P (map fst hs). count_list (case map_of hs t of None \<Rightarrow> [] | Some xs \<Rightarrow> xs) h)"
    if "distinct (map fst hs)" for hs :: "(event_type \<times> handler list) list" and P
    using that
  proof (induction hs)
    case (Cons a hs)
    have "(\<Sum>t \<leftarrow> filter P (map fst hs). count_list (case map_of (a # hs) t of None \<Rightarrow> [] | Some xs \<Rightarrow> xs) h)
        = (\<Sum>t \<leftarrow> filter P (map fst hs). count_list (case map_of hs t of None \<Rightarrow> [] | Some xs \<Rightarrow> xs) h)"
      using Cons.prems by (intro arg_cong [where f = sum_list] map_cong) (auto simp: rev_image_eqI)
    then show ?case using Cons by (simp add: case_prod_unfold)
  qed simp
  from this [OF assms] show ?thesis
    by (auto simp: publish_def Let_def recipients_def handlers_for_def list_all_iff)
qed

theorem publish_delivery_witness:
  "fst (snd (publish (\<lambda>t s. s = ''Event'' \<or> s = t) (\<lambda>_ _. True)
     (subscribe (subscribe sample_bus ''Event'' 4) ''SignalGenerated'' 7) sample_event)) = [4, 7]
   \<and> count_list (fst (snd (publish (\<lambda>t s. s = ''Event'' \<or> s = t) (\<lambda>_ _. True)
     (subscribe (subscribe sample_bus ''Event'' 4) ''SignalGenerated'' 7) sample_event))) 7 = 1"
proof -
  let ?b = "subscribe (subscribe sample_bus ''Event'' 4) ''SignalGenerated'' 7"
  have b: "bu_handlers ?b = [(''Event'', [4]), (''SignalGenerated'', [7])]" "\<not> bu_closed ?b"
    by (simp_all add: subscribe_def handlers_for_def sample_bus_def new_bus_def not_le)
  have "distinct (map fst (bu_handlers ?b))" by (simp add: b)
  from publish_delivery [OF this, of "\<lambda>t s. s = ''Event'' \<or> s = t" "\<lambda>_ _. True" sample_event 7] show ?thesis
    using b by (simp add: publish_def Let_def recipients_def sample_event_def handlers_for_def)
qed

subsection \<open>The feature store\<close>

record feature_record =
  fr_feature_id :: uuid
  fr_correlation_id :: uuid
  fr_namespace :: string
  fr_engine_name :: string
  fr_engine_version :: string
  fr_compatibility_version :: string
  fr_values :: "(string \<times> json) list"
  fr_mode :: string
  fr_instrument :: "string option"
  fr_timeframe :: "string option"
  fr_effective_at :: "instant option"
  fr_source_event_id :: "string option"
  fr_quality_status :: string
  fr_payload_hash :: "string option"
  fr_created_at :: instant

record feature_snapshot =
  fs_correlation_id :: uuid
  fs_features :: "(string \<times> (string \<times> json) list) list"
  fs_engine_versions :: "(string \<times> string) list"
  fs_created_at :: instant

text \<open>The \<open>OrderedDict\<close> is keyed by \<open>feature_id\<close>: it is the list of its records.\<close>

record feature_store =
  st_records :: "feature_record list"
  st_max_entries :: nat
  st_evictions :: nat

definition new_feature_store :: "int \<Rightarrow> bus_error + feature_store" where
  "new_feature_store n = (if n < 1 then Inl Bus_Value_Error
     else Inr \<lparr>st_records = [], st_max_entries = nat n, st_evictions = 0\<rparr>)"

definition stored_feature :: "feature_store \<Rightarrow> uuid \<Rightarrow> bool" where
  "stored_feature s k \<longleftrightarrow> k \<in> set (map fr_feature_id (st_records s))"

definition write_feature :: "feature_store \<Rightarrow> feature_record \<Rightarrow> feature_store" where
  "write_feature s f =
     (if stored_feature s (fr_feature_id f) then s
      else let rs = st_records s @ [f] in
        if length rs > st_max_entries s then s\<lparr>st_records := tl rs, st_evictions := st_evictions s + 1\<rparr>
        else s\<lparr>st_records := rs\<rparr>)"

definition feature_snapshot_of :: "feature_store \<Rightarrow> uuid \<Rightarrow> instant \<Rightarrow> feature_snapshot" where
  "feature_snapshot_of s c now =
     (let rs = filter (\<lambda>r. fr_correlation_id r = c) (st_records s) in
      \<lparr>fs_correlation_id = c,
       fs_features = fold (\<lambda>r. AList.update (fr_namespace r) (fr_values r)) rs [],
       fs_engine_versions = fold (\<lambda>r. AList.update (fr_engine_name r) (fr_engine_version r)) rs [],
       fs_created_at = now\<rparr>)"

definition feature_history :: "feature_store \<Rightarrow> string \<Rightarrow> string \<Rightarrow> string \<Rightarrow> int \<Rightarrow> bus_error + feature_record list" where
  "feature_history s m instrument tf limit =
     (if limit < 1 \<or> limit > 1000 then Inl Bus_Value_Error
      else Inr (take (nat limit) (sort_desc (\<lambda>r. (case fr_effective_at r of Some t \<Rightarrow> t | None \<Rightarrow> fr_created_at r, fr_feature_id r))
        (filter (\<lambda>r. fr_mode r = m \<and> fr_instrument r = Some instrument \<and> fr_timeframe r = Some tf) (st_records s)))))"

lemma write_items:
  assumes "length (st_records s) \<le> st_max_entries s" "1 \<le> st_max_entries s" "\<not> stored_feature s (fr_feature_id f)"
  shows "st_records (write_feature s f) = push_bounded (st_max_entries s) (st_records s) f"
    "st_evictions (write_feature s f) = st_evictions s + (Suc (length (st_records s)) - st_max_entries s)"
proof -
  have full: "drop (Suc (length (st_records s)) - st_max_entries s) (st_records s @ [f]) = tl (st_records s @ [f])"
    if "length (st_records s) = st_max_entries s"
    using that assms(2) by (cases "st_records s") (auto simp del: drop_append)
  show "st_records (write_feature s f) = push_bounded (st_max_entries s) (st_records s) f"
    using assms full by (cases "length (st_records s) = st_max_entries s") (simp_all add: write_feature_def Let_def push_bounded_def)
  show "st_evictions (write_feature s f) = st_evictions s + (Suc (length (st_records s)) - st_max_entries s)"
    using assms by (cases "length (st_records s) = st_max_entries s") (simp_all add: write_feature_def Let_def)
qed

interpretation feature_log: bounded_store st_records st_max_entries st_evictions write_feature
    "\<lambda>s f. \<not> stored_feature s (fr_feature_id f)"
proof unfold_locales
qed (simp_all add: write_items, simp_all add: write_feature_def Let_def)

lemma set_tl_subset: "set (tl xs) \<subseteq> set xs"
  by (cases xs) auto

lemma write_distinct:
  "distinct (map fr_feature_id (st_records s)) \<Longrightarrow> distinct (map fr_feature_id (st_records (write_feature s f)))"
  by (auto simp: write_feature_def Let_def stored_feature_def map_tl intro!: distinct_tl)

text \<open>The value a fold of \<open>AList.update\<close> leaves under a key is the last one written.\<close>

lemma fold_update_last:
  "map_of (fold (\<lambda>r. AList.update (k r) (v r)) rs d) x =
     (case filter (\<lambda>r. k r = x) rs of [] \<Rightarrow> map_of d x | ys \<Rightarrow> Some (v (last ys)))"
  by (induction rs arbitrary: d) (auto simp: update_conv' split: list.split)

text \<open>After any sequence of writes the store holds at most its capacity, one record per
  feature id, the first version written of each id it still holds, and every admitted write
  is either held or counted as evicted.\<close>

theorem feature_store_accounting:
  assumes "new_feature_store n = Inr s0" and "s = foldl write_feature s0 fs"
  shows "length (st_records s) \<le> nat n \<and> distinct (map fr_feature_id (st_records s))
    \<and> set (st_records s) \<subseteq> set fs
    \<and> length (st_records s) + st_evictions s \<le> length fs
    \<and> (st_evictions s = 0 \<longrightarrow> fr_feature_id ` set (st_records s) = fr_feature_id ` set fs)"
proof -
  have s0: "s0 = \<lparr>st_records = [], st_max_entries = nat n, st_evictions = 0\<rparr>" "feature_log.capped s0"
    using assms(1) by (auto simp: new_feature_store_def feature_log.capped_def split: if_splits)
  have "feature_log.capped (foldl write_feature s0 fs) \<and> st_max_entries (foldl write_feature s0 fs) = nat n
    \<and> distinct (map fr_feature_id (st_records (foldl write_feature s0 fs)))
    \<and> set (st_records (foldl write_feature s0 fs)) \<subseteq> set fs
    \<and> length (st_records (foldl write_feature s0 fs)) + st_evictions (foldl write_feature s0 fs) \<le> length fs
    \<and> (st_evictions (foldl write_feature s0 fs) = 0 \<longrightarrow>
        fr_feature_id ` set (st_records (foldl write_feature s0 fs)) = fr_feature_id ` set fs)"
  proof (induction fs rule: rev_induct)
    case (snoc f fs)
    let ?s = "foldl write_feature s0 fs"
    have "set (st_records (write_feature ?s f)) \<subseteq> insert f (set (st_records ?s))"
      using set_tl_subset [of "st_records ?s @ [f]"] by (auto simp: write_feature_def Let_def)
    moreover have "st_evictions (write_feature ?s f) = 0 \<Longrightarrow> st_evictions ?s = 0 \<and>
        fr_feature_id ` set (st_records (write_feature ?s f)) = insert (fr_feature_id f) (fr_feature_id ` set (st_records ?s))"
      by (auto simp: write_feature_def Let_def stored_feature_def split: if_splits)
    ultimately show ?case
      using snoc.IH feature_log.put_capped [of ?s f] feature_log.put_cap [of ?s f]
        feature_log.put_conserves [of ?s f] write_distinct [of ?s f]
      by auto
  qed (use s0 in simp_all)
  then show ?thesis using assms(2) by (simp add: feature_log.capped_def)
qed

definition plain_feature :: "uuid \<Rightarrow> string \<Rightarrow> int \<Rightarrow> feature_record" where
  "plain_feature k ns v = \<lparr>fr_feature_id = k, fr_correlation_id = ''c'', fr_namespace = ns, fr_engine_name = ns,
     fr_engine_version = ''1.0.0'', fr_compatibility_version = ''1.0'', fr_values = [(''v'', JInt v)], fr_mode = ''live'',
     fr_instrument = None, fr_timeframe = None, fr_effective_at = None, fr_source_event_id = None,
     fr_quality_status = ''valid'', fr_payload_hash = None, fr_created_at = v\<rparr>"

theorem feature_store_accounting_witness:
  "length (st_records (foldl write_feature \<lparr>st_records = [], st_max_entries = 2, st_evictions = 0\<rparr>
     [plain_feature ''a'' ''smc'' 1, plain_feature ''b'' ''smc'' 2, plain_feature ''c'' ''flow'' 3])) \<le> 2"
proof -
  have "new_feature_store 2 = Inr \<lparr>st_records = [], st_max_entries = 2, st_evictions = 0\<rparr>"
    by (simp add: new_feature_store_def)
  from feature_store_accounting [OF this refl, THEN conjunct1] show ?thesis
    unfolding nat_numeral [symmetric] by (simp only: nat_numeral)
qed

text \<open>A snapshot of an analysis run shows, for every namespace written under its
  correlation id and still held, the values of the record written last.\<close>

theorem snapshot_latest:
  "map_of (fs_features (feature_snapshot_of s c now)) ns =
     (case filter (\<lambda>r. fr_correlation_id r = c \<and> fr_namespace r = ns) (st_records s) of
        [] \<Rightarrow> None | rs \<Rightarrow> Some (fr_values (last rs)))"
  by (simp add: feature_snapshot_of_def Let_def fold_update_last conj_commute split: list.split)

end
