(* ===== verification/Signal_Decision_Models.thy ===== *)
theory Signal_Decision_Models
  imports AI_Scoring Registry Scenario_Models
begin

text \<open>
  Data of the signal decision engine (\<open>engines/signal_decision_engine/models.py\<close>,
  \<open>config.py\<close>, \<open>rules.py\<close>), of the Primary Scenario selection it validates
  (\<open>scenario_forecasting/simulation_models.py\<close>), and the parts of an AI analysis it reads.
\<close>

subsection \<open>Enumerations\<close>

datatype decision_state = Eligible | Observe_Only | Blocked | Insufficient | Expired_State | Invalid
datatype decision_direction = Bull | Bear | Flat
datatype final_action = BUY | SELL | HOLD
datatype readiness = Ready | Conditional | Waiting | Rejected
datatype decision_mode = Live | Replay
datatype lifecycle_status = Active | Lifecycle_Expired | Superseded
datatype rule_outcome = Passed | Failed | Warned | Not_Applicable | Not_Evaluated
datatype rule_severity = Hard_Block | Insufficient_Evidence | Soft_Gate | Severity_Warning | Informational
datatype rule_category = Source_Integrity | Freshness | Directional_Strength | Confidence | Risk
  | Data_Quality | Alignment | Conflict | Economic_Event | Market_Regime | Dependency_Health
  | Duplicate | Cooldown | Reversal | Temporal_Validity | Policy_Integrity
datatype dependency_state = Available | Dep_Degraded | Unavailable
datatype criticality = Critical | Required_For_Eligibility | Optional | Dep_Informational
datatype timeframe = M1 | M5 | M15 | M30 | H1 | H4 | D1 | W1 | MN1

definition state_value :: "decision_state \<Rightarrow> string" where
  [enum_values]: "state_value s = (case s of Eligible \<Rightarrow> ''eligible'' | Observe_Only \<Rightarrow> ''observe_only''
     | Blocked \<Rightarrow> ''blocked'' | Insufficient \<Rightarrow> ''insufficient_evidence'' | Expired_State \<Rightarrow> ''expired''
     | Invalid \<Rightarrow> ''invalid'')"

definition direction_value :: "decision_direction \<Rightarrow> string" where
  [enum_values]: "direction_value d = (case d of Bull \<Rightarrow> ''bullish'' | Bear \<Rightarrow> ''bearish'' | Flat \<Rightarrow> ''neutral'')"

definition action_value :: "final_action \<Rightarrow> string" where
  [enum_values]: "action_value a = (case a of BUY \<Rightarrow> ''BUY'' | SELL \<Rightarrow> ''SELL'' | HOLD \<Rightarrow> ''HOLD'')"

definition mode_value :: "decision_mode \<Rightarrow> string" where
  [enum_values]: "mode_value m = (case m of Live \<Rightarrow> ''live'' | Replay \<Rightarrow> ''replay'')"

definition timeframe_value :: "timeframe \<Rightarrow> string" where
  [enum_values]: "timeframe_value t = (case t of M1 \<Rightarrow> ''M1'' | M5 \<Rightarrow> ''M5'' | M15 \<Rightarrow> ''M15'' | M30 \<Rightarrow> ''M30''
     | H1 \<Rightarrow> ''H1'' | H4 \<Rightarrow> ''H4'' | D1 \<Rightarrow> ''D1'' | W1 \<Rightarrow> ''W1'' | MN1 \<Rightarrow> ''MN1'')"

subsection \<open>The Primary Scenario selection\<close>

datatype candidate_direction = C_Bullish | C_Bearish | C_Range | C_Inconclusive
datatype entry_type = Current_Price | Pullback | Retest | Breakout_Confirmation | Liquidity_Sweep_Reversal | No_Entry
datatype selection_status = Selected | Insufficient_Confidence | No_Valid_Candidate | Selection_Blocked

definition candidate_direction_value :: "candidate_direction \<Rightarrow> string" where
  [enum_values]: "candidate_direction_value d = (case d of C_Bullish \<Rightarrow> ''BULLISH'' | C_Bearish \<Rightarrow> ''BEARISH''
     | C_Range \<Rightarrow> ''RANGE'' | C_Inconclusive \<Rightarrow> ''INCONCLUSIVE'')"

definition entry_type_value :: "entry_type \<Rightarrow> string" where
  [enum_values]: "entry_type_value e = (case e of Current_Price \<Rightarrow> ''CURRENT_PRICE'' | Pullback \<Rightarrow> ''PULLBACK''
     | Retest \<Rightarrow> ''RETEST'' | Breakout_Confirmation \<Rightarrow> ''BREAKOUT_CONFIRMATION''
     | Liquidity_Sweep_Reversal \<Rightarrow> ''LIQUIDITY_SWEEP_REVERSAL'' | No_Entry \<Rightarrow> ''NONE'')"

text \<open>The fields of the candidate that the decision engine and the selection contract read.\<close>

record candidate =
  ca_candidate_id :: uuid
  ca_market_cutoff :: instant
  ca_reference_price :: f64
  ca_direction :: candidate_direction
  ca_scenario_type :: string
  ca_validated_path :: "string list"
  ca_trigger_condition :: string
  ca_entry_type :: entry_type
  ca_invalidation_level :: "f64 option"
  ca_expiry :: instant
  ca_supporting_evidence_ids :: "string list"
  ca_final_scenario_score :: f64
  ca_scenario_valid :: bool
  ca_geometry_valid :: bool
  ca_geometry :: "scenario_geometry option"
  ca_rejection_reason :: "string option"

text \<open>The part of \<open>CandidateMarketScenario.coherent\<close> about geometry and direction.\<close>

definition candidate_ok :: "candidate \<Rightarrow> bool" where
  "candidate_ok c \<longleftrightarrow> in_range 0 (fint 100) (ca_final_scenario_score c)
     \<and> opt_all (\<lambda>g. geometry_ok g) (ca_geometry c)
     \<and> ca_market_cutoff c < ca_expiry c
     \<and> (if ca_geometry_valid c then ca_geometry c \<noteq> None \<and> ca_rejection_reason c = None
        else ca_geometry c = None \<and> ca_rejection_reason c \<noteq> None \<and> ca_rejection_reason c \<noteq> Some [])
     \<and> (ca_direction c \<in> {C_Range, C_Inconclusive} \<longrightarrow> ca_geometry c = None \<and> ca_entry_type c = No_Entry)"

record selection =
  sl_selection_id :: uuid
  sl_simulation_cycle_id :: uuid
  sl_cycle_id :: uuid
  sl_market_state_id :: uuid
  sl_instrument :: string
  sl_market_cutoff :: instant
  sl_selected_at :: instant
  sl_status :: selection_status
  sl_authoritative_action :: final_action
  sl_primary_candidate_id :: "uuid option"
  sl_alternative_candidate_id :: "uuid option"
  sl_primary :: "candidate option"
  sl_alternative :: "candidate option"
  sl_minimum_score :: f64
  sl_signal_eligible :: bool
  sl_rejection_reason :: "string option"
  sl_ranking_explanation :: string
  sl_lifecycle_status :: string

definition expected_action :: "candidate_direction \<Rightarrow> final_action" where
  "expected_action d = (case d of C_Bullish \<Rightarrow> BUY | C_Bearish \<Rightarrow> SELL | _ \<Rightarrow> HOLD)"

text \<open>\<open>PrimaryScenarioSelection.authority_contract\<close>.\<close>

definition selection_ok :: "selection \<Rightarrow> bool" where
  "selection_ok s \<longleftrightarrow>
     (if sl_status s = Selected then
        (case sl_primary s of None \<Rightarrow> False
         | Some p \<Rightarrow> sl_primary_candidate_id s = Some (ca_candidate_id p)
             \<and> sl_authoritative_action s = expected_action (ca_direction p))
        \<and> (case sl_alternative s of None \<Rightarrow> False
           | Some a \<Rightarrow> sl_alternative_candidate_id s = Some (ca_candidate_id a))
      else sl_authoritative_action s = HOLD \<and> \<not> sl_signal_eligible s)
     \<and> (sl_signal_eligible s \<longrightarrow>
          (case sl_primary s of None \<Rightarrow> False
           | Some p \<Rightarrow> sl_minimum_score s \<le> ca_final_scenario_score p
               \<and> ca_scenario_valid p \<and> ca_geometry_valid p \<and> ca_geometry p \<noteq> None))
     \<and> in_range 0 (fint 100) (sl_minimum_score s)
     \<and> opt_all (\<lambda>p. candidate_ok p) (sl_primary s) \<and> opt_all (\<lambda>a. candidate_ok a) (sl_alternative s)"

subsection \<open>AI analysis and its signal, as the decision engine reads them\<close>

record analysis_output =
  ao_regime :: string
  ao_regime_strength :: f64
  ao_regime_confidence :: f64
  ao_invalidation_conditions :: "string list"

record ai_analysis =
  an_analysis_id :: uuid
  an_validation_passed :: bool
  an_output :: "analysis_output option"
  an_analysis_timestamp :: instant

record ai_signal =
  as_signal_id :: uuid
  as_analysis_id :: uuid
  as_snapshot_id :: uuid
  as_signal :: final_action
  as_confidence :: int
  as_overall_confidence :: f64
  as_entry :: "f64 option"
  as_stop_loss :: "f64 option"
  as_take_profit :: "f64 option"
  as_risk_reward_ratio :: "f64 option"

record temporal_metrics =
  tm_classification :: string
  tm_score :: f64
  tm_reason :: string
  tm_sample_size :: int

text \<open>The field bounds of \<open>AIMarketAnalysis\<close>, \<open>AIAnalysisSignal\<close> and
  \<open>HistoricalConsistencyScore\<close> (\<open>ai_reasoning/analysis.py\<close>) for the fields above.\<close>

definition analysis_ok :: "ai_analysis \<Rightarrow> bool" where
  "analysis_ok a \<longleftrightarrow> opt_all (\<lambda>x. in_range 0 (fint 100) (ao_regime_strength x)
     \<and> in_range 0 1 (ao_regime_confidence x)) (an_output a)"

definition ai_signal_ok :: "ai_signal \<Rightarrow> bool" where
  "ai_signal_ok s \<longleftrightarrow> 0 \<le> as_confidence s \<and> as_confidence s \<le> 100
     \<and> in_range 0 (fint 100) (as_overall_confidence s)"

definition metrics_ok :: "temporal_metrics \<Rightarrow> bool" where
  "metrics_ok m \<longleftrightarrow> in_range 0 (fint 100) (tm_score m) \<and> 0 \<le> tm_sample_size m"

record temporal_context =
  tc_version :: string
  tc_as_of :: instant
  tc_rolling_window :: "uuid list"

subsection \<open>Inputs of a decision\<close>

definition pos_opt :: "f64 option \<Rightarrow> bool" where
  "pos_opt x = (case x of None \<Rightarrow> True | Some v \<Rightarrow> 0 < v)"


record dependency_health =
  dh_name :: string
  dh_state :: dependency_state
  dh_criticality :: criticality
  dh_checked_at :: instant
  dh_reason_code :: string

record economic_risk =
  er_context_id :: uuid
  er_phase :: string
  er_risk_score :: f64
  er_as_of :: instant
  er_degraded :: bool
  er_context_state :: string
  er_event_ids :: "uuid list"

record regime_reference =
  rr_snapshot_id :: uuid
  rr_regime :: string
  rr_as_of :: instant
  rr_degraded :: bool

record history_reference =
  hr_decision_id :: uuid
  hr_direction :: decision_direction
  hr_state :: decision_state
  hr_decided_at :: instant
  hr_valid_until :: instant
  hr_directional_strength :: f64
  hr_confidence_score :: f64

definition history_ref_ok :: "history_reference \<Rightarrow> bool" where
  "history_ref_ok h \<longleftrightarrow> in_range 0 (fint 100) (hr_directional_strength h)
     \<and> in_range 0 (fint 100) (hr_confidence_score h)"

record decision_history =
  dhi_latest :: "history_reference option"
  dhi_active :: "history_reference option"
  dhi_recent_same_direction :: "history_reference option"
  dhi_recent_opposite_eligible :: "history_reference option"

record decision_input =
  di_instrument :: string
  di_timeframe :: timeframe
  di_as_of :: instant
  di_requested_at :: instant
  di_ai_score :: score_snapshot
  di_economic_risk :: "economic_risk option"
  di_market_regime :: "regime_reference option"
  di_dependency_health :: "dependency_health list"
  di_history :: decision_history
  di_analysis :: "ai_analysis option"
  di_signal :: "ai_signal option"
  di_temporal_context :: "temporal_context option"
  di_temporal_metrics :: "temporal_metrics option"
  di_market_snapshot_id :: "uuid option"
  di_quantitative_forecast_id :: "uuid option"
  di_current_price :: "f64 option"
  di_expected_move :: "f64 option"
  di_primary_scenario :: "selection option"
  di_mode :: decision_mode
  di_policy_name :: string
  di_policy_version :: string

text \<open>\<open>SignalDecisionInput.source_identity\<close>, with the validators of the nested models.\<close>

definition decision_input_ok :: "decision_input \<Rightarrow> bool" where
  "decision_input_ok i \<longleftrightarrow>
     ss_instrument (di_ai_score i) = di_instrument i
     \<and> ss_timeframe (di_ai_score i) = timeframe_value (di_timeframe i)
     \<and> \<not> (di_as_of i < ss_as_of (di_ai_score i) \<or> di_requested_at i < ss_calculated_at (di_ai_score i))
     \<and> opt_all (\<lambda>e. er_as_of e \<le> di_as_of i) (di_economic_risk i)
     \<and> opt_all (\<lambda>r. rr_as_of r \<le> di_as_of i) (di_market_regime i)
     \<and> opt_all (\<lambda>a. an_analysis_timestamp a \<le> di_as_of i \<and> an_validation_passed a) (di_analysis i)
     \<and> opt_all (\<lambda>s. (case di_analysis i of None \<Rightarrow> False | Some a \<Rightarrow> as_analysis_id s = an_analysis_id a)
          \<and> di_market_snapshot_id i = Some (as_snapshot_id s)) (di_signal i)
     \<and> opt_all (\<lambda>t. tc_as_of t \<le> di_as_of i) (di_temporal_context i)
     \<and> opt_all (\<lambda>p. sl_market_cutoff p \<le> di_as_of i
          \<and> di_market_snapshot_id i = Some (sl_market_state_id p) \<and> sl_instrument p = di_instrument i
          \<and> selection_ok p) (di_primary_scenario i)
     \<and> snapshot_ok (di_ai_score i)
     \<and> opt_all (\<lambda>a. analysis_ok a) (di_analysis i)
     \<and> opt_all (\<lambda>s. ai_signal_ok s) (di_signal i)
     \<and> opt_all (\<lambda>m. metrics_ok m) (di_temporal_metrics i)
     \<and> (\<forall>h \<in> set (List.map_filter id [dhi_latest (di_history i), dhi_active (di_history i),
            dhi_recent_same_direction (di_history i), dhi_recent_opposite_eligible (di_history i)]).
          history_ref_ok h)
     \<and> opt_all (\<lambda>e. in_range 0 (fint 100) (er_risk_score e)) (di_economic_risk i)
     \<and> pos_opt (di_current_price i) \<and> pos_opt (di_expected_move i)"

subsection \<open>Outputs of a decision\<close>

record rule_evaluation =
  re_rule_id :: string
  re_rule_version :: string
  re_category :: rule_category
  re_severity :: rule_severity
  re_outcome :: rule_outcome
  re_observed_value :: json
  re_threshold :: json
  re_reason_code :: string
  re_contribution :: "f64 option"
  re_evaluated_at :: instant

record decision_reason =
  dr_reason_code :: string
  dr_severity :: rule_severity
  dr_source :: string
  dr_message_key :: string
  dr_rule_id :: string

record decision_explanation =
  de_summary_code :: string
  de_decision_state :: decision_state
  de_direction :: decision_direction
  de_passed_rules :: "string list"
  de_failed_rules :: "string list"
  de_warning_rules :: "string list"
  de_evidence_limitations :: "string list"
  de_policy_name :: string
  de_policy_version :: string

record decision_metadata =
  dm_engine_version :: string
  dm_schema_version :: string
  dm_configuration_version :: string
  dm_configuration_hash :: string
  dm_ai_score_configuration_hash :: string

record signal_evidence =
  se_evidence_id :: uuid
  se_category :: string
  se_side :: string
  se_claim :: string
  se_source_type :: string
  se_source_reference :: string
  se_observed_value :: json
  se_timestamp :: instant
  se_timeframe :: timeframe
  se_reliability :: f64

record lineage =
  li_market_snapshot_id :: "uuid option"
  li_feature_snapshot_id :: "uuid option"
  li_current_ai_analysis_id :: "uuid option"
  li_current_ai_signal_id :: "uuid option"
  li_historical_ai_analysis_ids :: "uuid list"
  li_quantitative_forecast_id :: "uuid option"
  li_primary_scenario_selection_id :: "uuid option"
  li_strategy_evaluation_ids :: "string list"
  li_temporal_context_version :: "string option"
  li_signal_engine_version :: string
  li_strategy_configuration_version :: string
  li_risk_policy_version :: string

record alternative_summary =
  al_direction :: string
  al_scenario_type :: string
  al_score :: f64

record notification_context =
  nc_signal_id :: string
  nc_primary_scenario_id :: string
  nc_alternative_scenario_id :: "string option"
  nc_cycle_id :: string
  nc_direction :: string
  nc_primary_scenario_score :: f64
  nc_email_threshold :: f64
  nc_scenario_type :: string
  nc_market_cutoff :: string
  nc_reference_price :: f64
  nc_expected_path :: "string list"
  nc_entry_type :: string
  nc_entry_zone :: "price_zone option"
  nc_entry :: "f64 option"
  nc_stop_loss :: "f64 option"
  nc_take_profit :: "f64 option"
  nc_risk_reward :: "f64 option"
  nc_invalidation :: "string option"
  nc_expires_at :: string
  nc_supporting_evidence :: "string list"
  nc_alternative_summary :: "alternative_summary option"

record scores =
  dc_eligibility_score :: f64
  dc_directional_strength :: f64
  dc_confidence_score :: f64
  dc_guardrail_confidence :: f64
  dc_overall_confidence :: f64
  dc_market_risk_score :: f64
  dc_data_quality_score :: f64
  dc_evidence_alignment_score :: f64

record execution =
  dx_final_action :: final_action
  dx_setup_family :: "string option"
  dx_readiness :: readiness
  dx_entry_low :: "f64 option"
  dx_entry_high :: "f64 option"
  dx_invalidation :: "string option"
  dx_stop_loss :: "f64 option"
  dx_take_profit_targets :: "f64 list"
  dx_risk_reward :: "f64 option"
  dx_publication_eligible :: bool

text \<open>\<open>SignalDecision\<close>: its scores and its execution fields are grouped in the two records
  above, the other fields follow the class.\<close>

record signal_decision =
  sd_decision_id :: uuid
  sd_decision_key :: string
  sd_input_fingerprint :: string
  sd_instrument :: string
  sd_timeframe :: timeframe
  sd_direction :: decision_direction
  sd_state :: decision_state
  sd_as_of :: instant
  sd_decided_at :: instant
  sd_valid_from :: instant
  sd_valid_until :: instant
  sd_ai_score_snapshot_id :: uuid
  sd_ai_score_policy_name :: string
  sd_ai_score_policy_version :: string
  sd_decision_policy_name :: string
  sd_decision_policy_version :: string
  sd_scores :: scores
  sd_rules :: "rule_evaluation list"
  sd_blockers :: "decision_reason list"
  sd_warnings :: "decision_reason list"
  sd_supporting_reasons :: "decision_reason list"
  sd_previous_decision_id :: "uuid option"
  sd_supersedes_decision_id :: "uuid option"
  sd_status :: lifecycle_status
  sd_mode :: decision_mode
  sd_explanation :: decision_explanation
  sd_metadata :: decision_metadata
  sd_execution :: execution
  sd_decision_reason :: string
  sd_opposite_direction_rejection :: string
  sd_supporting_evidence :: "signal_evidence list"
  sd_contradicting_evidence :: "signal_evidence list"
  sd_temporal_evidence :: "signal_evidence list"
  sd_source_lineage :: lineage
  sd_notification_context :: "notification_context option"

definition scores_ok :: "scores \<Rightarrow> bool" where
  "scores_ok s \<longleftrightarrow> list_all (in_range 0 (fint 100)) [dc_eligibility_score s, dc_directional_strength s,
     dc_confidence_score s, dc_guardrail_confidence s, dc_overall_confidence s, dc_market_risk_score s,
     dc_data_quality_score s, dc_evidence_alignment_score s]"

text \<open>The geometry part of \<open>SignalDecision.invariants\<close>.\<close>

definition execution_ok :: "execution \<Rightarrow> bool" where
  "execution_ok x \<longleftrightarrow>
     (if dx_final_action x = HOLD then
        dx_entry_low x = None \<and> dx_entry_high x = None \<and> dx_stop_loss x = None \<and> dx_risk_reward x = None
        \<and> dx_take_profit_targets x = [] \<and> \<not> dx_publication_eligible x
      else if dx_publication_eligible x \<or> dx_readiness x = Ready then
        dx_entry_low x \<noteq> None \<and> dx_entry_high x \<noteq> None \<and> dx_stop_loss x \<noteq> None \<and> dx_risk_reward x \<noteq> None
        \<and> dx_take_profit_targets x \<noteq> [] \<and> dx_invalidation x \<noteq> None \<and> dx_invalidation x \<noteq> Some []
      else dx_entry_low x = None \<and> dx_entry_high x = None \<and> dx_stop_loss x = None \<and> dx_risk_reward x = None
        \<and> dx_take_profit_targets x = [])"

definition decision_invariants :: "signal_decision \<Rightarrow> bool" where
  "decision_invariants d \<longleftrightarrow>
     sd_valid_from d \<le> sd_valid_until d
     \<and> (sd_state d = Eligible \<longrightarrow> sd_blockers d = [] \<and> sd_direction d \<noteq> Flat)
     \<and> (sd_state d = Blocked \<longrightarrow> sd_blockers d \<noteq> [])
     \<and> (sd_state d = Observe_Only \<longrightarrow> sd_blockers d = [] \<and> sd_warnings d \<noteq> [])
     \<and> (sd_state d \<in> {Insufficient, Invalid} \<longrightarrow> sd_blockers d \<noteq> [])
     \<and> execution_ok (sd_execution d)"

definition decision_fields_ok :: "signal_decision \<Rightarrow> bool" where
  "decision_fields_ok d \<longleftrightarrow> scores_ok (sd_scores d) \<and> length (sd_input_fingerprint d) = 64
     \<and> length (dm_configuration_hash (sd_metadata d)) = 64
     \<and> length (dm_ai_score_configuration_hash (sd_metadata d)) = 64
     \<and> pos_opt (dx_entry_low (sd_execution d)) \<and> pos_opt (dx_entry_high (sd_execution d))
     \<and> pos_opt (dx_stop_loss (sd_execution d)) \<and> pos_opt (dx_risk_reward (sd_execution d))
     \<and> list_all (\<lambda>e. in_range 0 1 (se_reliability e))
         (sd_supporting_evidence d @ sd_contradicting_evidence d @ sd_temporal_evidence d)"

definition reference_of :: "signal_decision \<Rightarrow> history_reference" where
  "reference_of d = \<lparr>hr_decision_id = sd_decision_id d, hr_direction = sd_direction d,
     hr_state = sd_state d, hr_decided_at = sd_decided_at d, hr_valid_until = sd_valid_until d,
     hr_directional_strength = dc_directional_strength (sd_scores d),
     hr_confidence_score = dc_confidence_score (sd_scores d)\<rparr>"

end
