(* ===== verification/Signal_Decision_Config.thy ===== *)
theory Signal_Decision_Config
  imports Signal_Decision_Models
begin

text \<open>
  Configuration of the signal decision engine (\<open>config.py\<close>), its validators and defaults,
  and its two registries (\<open>rules.py\<close>, \<open>policies.py\<close>) as catalogues.
\<close>

datatype decision_error = Decision_Configuration_Error string | Decision_Key_Error string
  | Decision_Value_Error string | Decision_Validation_Error string | Decision_Input_Error string
  | Decision_Snapshot_Not_Found uuid | Decision_Persistence_Error

subsection \<open>Configuration\<close>

record threshold_pair =
  tp_minimum_for_observation :: f64
  tp_minimum_for_eligibility :: f64

definition threshold_pair_ok :: "threshold_pair \<Rightarrow> bool" where
  "threshold_pair_ok t \<longleftrightarrow> in_range 0 (fint 100) (tp_minimum_for_observation t)
     \<and> in_range 0 (fint 100) (tp_minimum_for_eligibility t)
     \<and> tp_minimum_for_observation t \<le> tp_minimum_for_eligibility t"

record quality_thresholds =
  qt_pair :: threshold_pair
  qt_invalid_below :: f64

definition quality_thresholds_ok :: "quality_thresholds \<Rightarrow> bool" where
  "quality_thresholds_ok q \<longleftrightarrow> threshold_pair_ok (qt_pair q) \<and> in_range 0 (fint 100) (qt_invalid_below q)
     \<and> qt_invalid_below q < tp_minimum_for_observation (qt_pair q)"

record risk_thresholds =
  rk_preferred_maximum :: f64
  rk_hard_block_minimum :: f64

definition risk_thresholds_ok :: "risk_thresholds \<Rightarrow> bool" where
  "risk_thresholds_ok r \<longleftrightarrow> in_range 0 (fint 100) (rk_preferred_maximum r)
     \<and> in_range 0 (fint 100) (rk_hard_block_minimum r)
     \<and> rk_preferred_maximum r < rk_hard_block_minimum r"

record freshness_window =
  fw_eligible_max_age_seconds :: int
  fw_observe_max_age_seconds :: int

definition freshness_window_ok :: "freshness_window \<Rightarrow> bool" where
  "freshness_window_ok w \<longleftrightarrow> 1 \<le> fw_eligible_max_age_seconds w \<and> fw_eligible_max_age_seconds w \<le> 2592000
     \<and> 2 \<le> fw_observe_max_age_seconds w \<and> fw_observe_max_age_seconds w \<le> 5184000
     \<and> fw_eligible_max_age_seconds w < fw_observe_max_age_seconds w"

definition window_row :: "timeframe \<Rightarrow> int \<Rightarrow> int \<Rightarrow> string \<times> freshness_window" where
  "window_row t e m = (timeframe_value t, \<lparr>fw_eligible_max_age_seconds = e, fw_observe_max_age_seconds = m\<rparr>)"

definition default_freshness :: "(string \<times> freshness_window) list" where
  "default_freshness = [window_row M1 90 180, window_row M5 300 600, window_row M15 900 1800,
     window_row M30 1800 3600, window_row H1 3600 7200, window_row H4 14400 28800,
     window_row D1 86400 172800, window_row W1 604800 1209600, window_row MN1 2592000 5184000]"

record economic_event_config =
  ee_enabled :: bool
  ee_fail_closed_when_source_unavailable :: bool
  ee_hard_phases :: "string list"
  ee_caution_phases :: "string list"

definition default_regimes :: "(string \<times> string) list" where
  "default_regimes =
     map (\<lambda>r. (r, ''eligible'')) [''trending_bull'', ''trending_bear'', ''imbalanced_bull'', ''imbalanced_bear'',
       ''markup_like'', ''markdown_like'', ''expansion_bull'', ''expansion_bear'']
   @ map (\<lambda>r. (r, ''observe_only'')) [''ranging'', ''balanced'', ''accumulation_like'', ''distribution_like'',
       ''reaccumulation_like'', ''redistribution_like'', ''compression'', ''transition'',
       ''high_volatility'', ''low_volatility'']
   @ map (\<lambda>r. (r, ''blocked'')) [''uncertain'', ''insufficient_data'']"

record cooldown_config =
  cd_enabled :: bool
  cd_eligible_repeat_seconds :: int
  cd_observe_repeat_seconds :: int
  cd_blocked_repeat_seconds :: int

definition week_seconds_ok :: "int \<Rightarrow> bool" where
  "week_seconds_ok s \<longleftrightarrow> 0 \<le> s \<and> s \<le> 604800"

definition cooldown_config_ok :: "cooldown_config \<Rightarrow> bool" where
  "cooldown_config_ok c \<longleftrightarrow> week_seconds_ok (cd_eligible_repeat_seconds c)
     \<and> week_seconds_ok (cd_observe_repeat_seconds c) \<and> week_seconds_ok (cd_blocked_repeat_seconds c)"

record reversal_config =
  rv_enabled :: bool
  rv_lock_seconds :: int
  rv_additional_strength_required :: f64
  rv_additional_confidence_required :: f64

definition reversal_config_ok :: "reversal_config \<Rightarrow> bool" where
  "reversal_config_ok r \<longleftrightarrow> week_seconds_ok (rv_lock_seconds r)
     \<and> in_range 0 (fint 100) (rv_additional_strength_required r)
     \<and> in_range 0 (fint 100) (rv_additional_confidence_required r)"

record hysteresis_config =
  hy_enabled :: bool
  hy_strength_relief :: f64
  hy_confidence_relief :: f64

definition hysteresis_config_ok :: "hysteresis_config \<Rightarrow> bool" where
  "hysteresis_config_ok h \<longleftrightarrow> in_range 0 (fint 25) (hy_strength_relief h)
     \<and> in_range 0 (fint 25) (hy_confidence_relief h)"

definition default_validity :: "(string \<times> (string \<times> int) list) list" where
  "default_validity =
    [(''eligible'', [(''M1'', 60), (''M5'', 300), (''M15'', 900), (''M30'', 1800), (''H1'', 3600),
       (''H4'', 14400), (''D1'', 86400), (''W1'', 604800), (''MN1'', 2592000)]),
     (''observe_only'', [(''M1'', 30), (''M5'', 180), (''M15'', 600), (''M30'', 1200), (''H1'', 1800),
       (''H4'', 7200), (''D1'', 43200), (''W1'', 302400), (''MN1'', 1296000)]),
     (''blocked'', [(''default'', 300)]),
     (''insufficient_evidence'', [(''default'', 180)]),
     (''invalid'', [(''default'', 60)])]"

record retention_config =
  rt_live_days :: int
  rt_replay_days :: int
  rt_cleanup_batch_size :: int

definition retention_config_ok :: "retention_config \<Rightarrow> bool" where
  "retention_config_ok r \<longleftrightarrow> 1 \<le> rt_live_days r \<and> rt_live_days r \<le> 3650 \<and> 1 \<le> rt_replay_days r
     \<and> rt_replay_days r \<le> 3650 \<and> 1 \<le> rt_cleanup_batch_size r \<and> rt_cleanup_batch_size r \<le> 10000"

record decision_config =
  dcf_engine_version :: string
  dcf_schema_version :: string
  dcf_policy_name :: string
  dcf_policy_version :: string
  dcf_configuration_version :: string
  dcf_direction_mapping :: "(string \<times> string) list"
  dcf_directional_strength :: threshold_pair
  dcf_confidence :: threshold_pair
  dcf_risk :: risk_thresholds
  dcf_data_quality :: quality_thresholds
  dcf_alignment :: threshold_pair
  dcf_severe_penalty_threshold :: f64
  dcf_freshness :: "(string \<times> freshness_window) list"
  dcf_economic_event :: economic_event_config
  dcf_market_regimes :: "(string \<times> string) list"
  dcf_cooldown :: cooldown_config
  dcf_reversal :: reversal_config
  dcf_hysteresis :: hysteresis_config
  dcf_validity :: "(string \<times> (string \<times> int) list) list"
  dcf_retention :: retention_config
  dcf_future_clock_skew_seconds :: int
  dcf_output_precision :: nat
  dcf_minimum_risk_reward :: f64
  dcf_persistence_required_in_production :: bool
  dcf_publish_replay_events :: bool
  dcf_publish_replay_features :: bool

definition approved_labels :: "string list" where
  "approved_labels = [''strong_bullish'', ''bullish'', ''slightly_bullish'', ''neutral'',
     ''slightly_bearish'', ''bearish'', ''strong_bearish'']"

definition supported_timeframes :: "string list" where
  "supported_timeframes = [''M1'', ''M5'', ''M15'', ''M30'', ''H1'', ''H4'', ''D1'', ''W1'', ''MN1'']"

text \<open>\<open>SignalDecisionConfig.validate_policy\<close>. It accepts a validity table that lacks a state:
  \<open>validity_complete\<close> is stated apart.\<close>

definition decision_config_ok :: "decision_config \<Rightarrow> bool" where
  "decision_config_ok c \<longleftrightarrow>
     threshold_pair_ok (dcf_directional_strength c) \<and> threshold_pair_ok (dcf_confidence c)
     \<and> risk_thresholds_ok (dcf_risk c) \<and> quality_thresholds_ok (dcf_data_quality c)
     \<and> threshold_pair_ok (dcf_alignment c) \<and> in_range 0 (fint 100) (dcf_severe_penalty_threshold c)
     \<and> list_all (freshness_window_ok \<circ> snd) (dcf_freshness c)
     \<and> cooldown_config_ok (dcf_cooldown c) \<and> reversal_config_ok (dcf_reversal c)
     \<and> hysteresis_config_ok (dcf_hysteresis c) \<and> retention_config_ok (dcf_retention c)
     \<and> 0 \<le> dcf_future_clock_skew_seconds c \<and> dcf_future_clock_skew_seconds c \<le> 300
     \<and> dcf_output_precision c \<le> 8 \<and> in_range 1 (fint 10) (dcf_minimum_risk_reward c)
     \<and> set (map fst (dcf_direction_mapping c)) = set approved_labels
     \<and> set (map snd (dcf_direction_mapping c)) = {''bullish'', ''bearish'', ''neutral''}
     \<and> set (map fst (dcf_freshness c)) = set supported_timeframes
     \<and> set (map snd (dcf_market_regimes c)) \<subseteq> {''eligible'', ''observe_only'', ''blocked''}
     \<and> list_all (\<lambda>(state, values). state \<in> {''eligible'', ''observe_only'', ''blocked'',
            ''insufficient_evidence'', ''invalid''} \<and> values \<noteq> [] \<and> list_all (\<lambda>v. 0 < snd v) values)
          (dcf_validity c)"

definition validity_complete :: "decision_config \<Rightarrow> bool" where
  "validity_complete c \<longleftrightarrow> {''eligible'', ''observe_only'', ''blocked'', ''insufficient_evidence'', ''invalid''}
     \<subseteq> set (map fst (dcf_validity c))"

definition default_decision_config :: decision_config where
  "default_decision_config = \<lparr>dcf_engine_version = ''1.0.0'', dcf_schema_version = ''1.0'',
     dcf_policy_name = ''conservative_signal_policy'', dcf_policy_version = ''1.0.0'',
     dcf_configuration_version = ''signal-decision-1.0'',
     dcf_direction_mapping = [(''strong_bullish'', ''bullish''), (''bullish'', ''bullish''),
       (''slightly_bullish'', ''bullish''), (''neutral'', ''neutral''), (''slightly_bearish'', ''bearish''),
       (''bearish'', ''bearish''), (''strong_bearish'', ''bearish'')],
     dcf_directional_strength = \<lparr>tp_minimum_for_observation = fint 20, tp_minimum_for_eligibility = fint 45\<rparr>,
     dcf_confidence = \<lparr>tp_minimum_for_observation = fint 45, tp_minimum_for_eligibility = fint 70\<rparr>,
     dcf_risk = \<lparr>rk_preferred_maximum = fint 40, rk_hard_block_minimum = fint 65\<rparr>,
     dcf_data_quality = \<lparr>qt_pair = \<lparr>tp_minimum_for_observation = fint 45, tp_minimum_for_eligibility = fint 70\<rparr>,
       qt_invalid_below = fint 10\<rparr>,
     dcf_alignment = \<lparr>tp_minimum_for_observation = fint 35, tp_minimum_for_eligibility = fint 60\<rparr>,
     dcf_severe_penalty_threshold = fint 25, dcf_freshness = default_freshness,
     dcf_economic_event = \<lparr>ee_enabled = True, ee_fail_closed_when_source_unavailable = True,
       ee_hard_phases = [''imminent'', ''at_event'', ''overlapping''],
       ee_caution_phases = [''pre_event'', ''post_event'', ''cooldown'']\<rparr>,
     dcf_market_regimes = default_regimes,
     dcf_cooldown = \<lparr>cd_enabled = True, cd_eligible_repeat_seconds = 900, cd_observe_repeat_seconds = 300,
       cd_blocked_repeat_seconds = 300\<rparr>,
     dcf_reversal = \<lparr>rv_enabled = True, rv_lock_seconds = 600, rv_additional_strength_required = fint 10,
       rv_additional_confidence_required = fint 5\<rparr>,
     dcf_hysteresis = \<lparr>hy_enabled = True, hy_strength_relief = fint 5, hy_confidence_relief = fint 5\<rparr>,
     dcf_validity = default_validity,
     dcf_retention = \<lparr>rt_live_days = 180, rt_replay_days = 30, rt_cleanup_batch_size = 500\<rparr>,
     dcf_future_clock_skew_seconds = 5, dcf_output_precision = 4, dcf_minimum_risk_reward = fint 2,
     dcf_persistence_required_in_production = True, dcf_publish_replay_events = False,
     dcf_publish_replay_features = False\<rparr>"

text \<open>\<open>validity_seconds\<close>: the row of the state, then the timeframe, then \<open>default\<close>, then 300.\<close>

definition validity_seconds :: "decision_config \<Rightarrow> string \<Rightarrow> string \<Rightarrow> decision_error + int" where
  "validity_seconds c state tf =
     (case map_of (dcf_validity c) state of
        None \<Rightarrow> Inl (Decision_Key_Error state)
      | Some values \<Rightarrow> Inr (case map_of values tf of Some v \<Rightarrow> v
          | None \<Rightarrow> (case map_of values ''default'' of Some v \<Rightarrow> v | None \<Rightarrow> 300)))"

text \<open>\<open>DecisionDirection(self.config.direction_mapping[label.value])\<close>.\<close>

definition direction_of_value :: "string \<Rightarrow> decision_error + decision_direction" where
  "direction_of_value v = (if v = ''bullish'' then Inr Bull else if v = ''bearish'' then Inr Bear
     else if v = ''neutral'' then Inr Flat else Inl (Decision_Value_Error v))"

definition label_direction :: "decision_config \<Rightarrow> directional_label \<Rightarrow> decision_error + decision_direction" where
  "label_direction c l =
     (case map_of (dcf_direction_mapping c) (label_value l) of
        None \<Rightarrow> Inl (Decision_Key_Error (label_value l))
      | Some v \<Rightarrow> direction_of_value v)"

definition freshness_window_of :: "decision_config \<Rightarrow> timeframe \<Rightarrow> decision_error + freshness_window" where
  "freshness_window_of c t = (case map_of (dcf_freshness c) (timeframe_value t) of
     None \<Rightarrow> Inl (Decision_Key_Error (timeframe_value t)) | Some w \<Rightarrow> Inr w)"

subsection \<open>The registries\<close>

record rule_definition =
  rd_rule_id :: string
  rd_category :: rule_category
  rd_version :: string

type_synonym rule_registry = "(string \<times> rule_definition) list"

definition register_rule :: "rule_registry \<Rightarrow> rule_definition \<Rightarrow> decision_error + rule_registry" where
  "register_rule r d = dict_register
     (Decision_Configuration_Error (''duplicate decision rule: '' @ rd_rule_id d)) r (rd_rule_id d) d"

definition get_rule :: "rule_registry \<Rightarrow> string \<Rightarrow> decision_error + rule_definition" where
  "get_rule r k = (case map_of r k of
     None \<Rightarrow> Inl (Decision_Configuration_Error (''unknown decision rule: '' @ k)) | Some d \<Rightarrow> Inr d)"

definition rule_definitions :: "rule_registry \<Rightarrow> rule_definition list" where
  "rule_definitions r = map (\<lambda>k. the (map_of r k)) (sort (map fst r))"

fun register_rules :: "rule_registry \<Rightarrow> rule_definition list \<Rightarrow> decision_error + rule_registry" where
  "register_rules r [] = Inr r"
| "register_rules r (d # ds) = bindE (register_rule r d) (\<lambda>r'. register_rules r' ds)"

definition production_rules :: "(string \<times> rule_category) list" where
  "production_rules =
    [(''policy.integrity'', Policy_Integrity), (''source.snapshot_integrity'', Source_Integrity),
     (''source.point_in_time'', Source_Integrity), (''freshness.ai_score'', Freshness),
     (''strength.minimum'', Directional_Strength), (''confidence.minimum'', Confidence),
     (''risk.maximum'', Risk), (''geometry.minimum_risk_reward'', Risk), (''quality.minimum'', Data_Quality),
     (''alignment.minimum'', Alignment), (''ai.signal_authority'', Alignment), (''conflict.maximum'', Conflict),
     (''economic_event.window'', Economic_Event), (''regime.allowed'', Market_Regime),
     (''dependency.health'', Dependency_Health), (''duplicate.active_equivalent'', Duplicate),
     (''cooldown.instrument_direction'', Cooldown), (''reversal.opposite_direction_lock'', Reversal),
     (''temporal.validity'', Temporal_Validity)]"

definition production_rule_registry :: "decision_error + rule_registry" where
  "production_rule_registry = register_rules []
     (map (\<lambda>(k, c). \<lparr>rd_rule_id = k, rd_category = c, rd_version = ''1.0.0''\<rparr>) production_rules)"

interpretation rule_catalog: catalog "[] :: rule_registry" register_rule map_of rd_rule_id
  unfolding register_rule_def by (rule dict_catalog)

lemma register_rules_all: "register_rules r ds = rule_catalog.register_all r ds"
  by (induction ds arbitrary: r) simp_all

text \<open>A policy is registered under its name and version.\<close>

type_synonym 'p policy_registry = "((string \<times> string) \<times> 'p) list"

definition register_policy :: "('p \<Rightarrow> string \<times> string) \<Rightarrow> 'p policy_registry \<Rightarrow> 'p \<Rightarrow> decision_error + 'p policy_registry" where
  "register_policy ident r p = dict_register (Decision_Configuration_Error
     (''duplicate decision policy: '' @ fst (ident p) @ '':'' @ snd (ident p))) r (ident p) p"

definition get_policy :: "'p policy_registry \<Rightarrow> string \<Rightarrow> string \<Rightarrow> decision_error + 'p" where
  "get_policy r name version = (case map_of r (name, version) of
     None \<Rightarrow> Inl (Decision_Configuration_Error (''unknown decision policy: '' @ name @ '':'' @ version))
   | Some p \<Rightarrow> Inr p)"

interpretation policy_catalog: catalog "[] :: 'p policy_registry" "register_policy ident" map_of ident for ident
  unfolding register_policy_def by (rule dict_catalog)

subsection \<open>Facts about the configuration\<close>

lemma default_decision_config_ok: "decision_config_ok default_decision_config"
  unfolding decision_config_ok_def default_decision_config_def decision_config.simps
  by (intro conjI; code_simp)

lemma default_validity_complete: "validity_complete default_decision_config"
  by (simp add: validity_complete_def default_decision_config_def default_validity_def)

lemma label_direction_total:
  assumes "decision_config_ok c"
  obtains d where "label_direction c l = Inr d"
proof -
  have "label_value l \<in> fst ` set (dcf_direction_mapping c)"
    using assms by (cases l) (auto simp: decision_config_ok_def approved_labels_def label_value_def)
  then obtain v where v: "map_of (dcf_direction_mapping c) (label_value l) = Some v"
    by (metis map_of_eq_None_iff option.exhaust)
  then have "v \<in> set (map snd (dcf_direction_mapping c))"
    by (metis in_set_zipE map_of_SomeD zip_map_fst_snd)
  then have "v \<in> {''bullish'', ''bearish'', ''neutral''}"
    using assms by (simp add: decision_config_ok_def)
  with v show ?thesis using that by (auto simp: label_direction_def direction_of_value_def)
qed

lemma freshness_window_total:
  assumes "decision_config_ok c"
  obtains w where "freshness_window_of c t = Inr w" "freshness_window_ok w"
proof -
  have "timeframe_value t \<in> fst ` set (dcf_freshness c)"
    using assms by (cases t) (auto simp: decision_config_ok_def supported_timeframes_def timeframe_value_def)
  then obtain w where w: "map_of (dcf_freshness c) (timeframe_value t) = Some w"
    by (metis map_of_eq_None_iff option.exhaust)
  then have "freshness_window_ok w"
    using assms map_of_SomeD [OF w] by (auto simp: decision_config_ok_def list_all_iff)
  with w show ?thesis using that by (simp add: freshness_window_of_def)
qed

lemma validity_positive:
  assumes "decision_config_ok c" "validity_seconds c s t = Inr n"
  shows "0 < n"
proof -
  obtain vs where vs: "map_of (dcf_validity c) s = Some vs"
    using assms(2) by (auto simp: validity_seconds_def split: option.splits)
  have "list_all (\<lambda>(k, ws). list_all (\<lambda>v. 0 < snd v) ws) (dcf_validity c)"
    using assms(1) by (simp add: decision_config_ok_def list_all_iff case_prod_unfold)
  then have "list_all (\<lambda>v. 0 < snd v) vs"
    using map_of_SomeD [OF vs] by (auto simp: list_all_iff)
  then have "map_of vs k = Some v \<Longrightarrow> 0 < v" for k v
    using map_of_SomeD [of vs k v] by (auto simp: list_all_iff)
  then show ?thesis using assms(2) vs by (auto simp: validity_seconds_def split: option.splits)
qed

lemma validity_total:
  assumes "validity_complete c" "s \<noteq> Expired_State"
  obtains n where "validity_seconds c (state_value s) t = Inr n"
proof -
  have "state_value s \<in> fst ` set (dcf_validity c)"
    using assms by (cases s) (auto simp: validity_complete_def state_value_def)
  then obtain vs where "map_of (dcf_validity c) (state_value s) = Some vs"
    by (metis map_of_eq_None_iff option.exhaust)
  then show ?thesis using that by (simp add: validity_seconds_def)
qed

end
