(* ===== verification/Signal_Decision.thy ===== *)
theory Signal_Decision
  imports Signal_Decision_Config
begin

text \<open>
  \<open>ConservativeSignalDecisionPolicy\<close> (\<open>signal_decision_engine/engine.py\<close>). \<open>evaluate\<close> is cut
  at its paragraphs: each \<open>..._rule\<close> gives the rule evaluations of one paragraph in the order
  the code appends them, \<open>rule_specs\<close> chains them, \<open>state_of\<close> reads the outcome off them and
  \<open>decision_values\<close> fills the decision, which \<open>make_decision\<close> validates. The digest of the
  input and the digest of the configuration are parameters.
\<close>

record policy =
  pl_config :: decision_config
  pl_rules :: rule_registry
  pl_configuration_hash :: string

definition policy_ident :: "policy \<Rightarrow> string \<times> string" where
  "policy_ident p = (dcf_policy_name (pl_config p), dcf_policy_version (pl_config p))"

subsection \<open>What the rules read\<close>

text \<open>Direction and strength come from the Primary Scenario selection when there is one, from
  the AI score otherwise.\<close>

definition primary_of :: "decision_input \<Rightarrow> candidate option" where
  "primary_of i = (case di_primary_scenario i of None \<Rightarrow> None | Some s \<Rightarrow> sl_primary s)"

definition action_direction :: "final_action \<Rightarrow> decision_direction" where
  "action_direction a = (case a of BUY \<Rightarrow> Bull | SELL \<Rightarrow> Bear | HOLD \<Rightarrow> Flat)"

definition direction_for :: "decision_input \<Rightarrow> decision_direction \<Rightarrow> decision_direction" where
  "direction_for i mapped = (case di_primary_scenario i of None \<Rightarrow> mapped
     | Some s \<Rightarrow> action_direction (sl_authoritative_action s))"

definition strength_of :: "decision_input \<Rightarrow> f64" where
  "strength_of i = (case di_primary_scenario i of None \<Rightarrow> \<bar>ss_directional_score (di_ai_score i)\<bar>
     | Some s \<Rightarrow> (case sl_primary s of None \<Rightarrow> 0 | Some p \<Rightarrow> ca_final_scenario_score p))"

definition age_of :: "decision_input \<Rightarrow> f64" where
  "age_of i = total_seconds (di_as_of i - ss_as_of (di_ai_score i))"

text \<open>The arguments of the local function \<open>rule\<close>.\<close>

record rule_spec =
  rs_rule_id :: string
  rs_outcome :: rule_outcome
  rs_severity :: rule_severity
  rs_reason :: string
  rs_observed :: json
  rs_threshold :: json

definition rspec :: "string \<Rightarrow> rule_outcome \<Rightarrow> rule_severity \<Rightarrow> string \<Rightarrow> json \<Rightarrow> json \<Rightarrow> rule_spec" where
  "rspec k out sev reason obs thr = \<lparr>rs_rule_id = k, rs_outcome = out, rs_severity = sev,
     rs_reason = reason, rs_observed = obs, rs_threshold = thr\<rparr>"

definition add_rule :: "policy \<Rightarrow> decision_input \<Rightarrow> rule_spec \<Rightarrow> decision_error + rule_evaluation" where
  "add_rule p i s =
     bindE (get_rule (pl_rules p) (rs_rule_id s)) (\<lambda>d. Inr
       \<lparr>re_rule_id = rs_rule_id s, re_rule_version = rd_version d, re_category = rd_category d,
        re_severity = rs_severity s, re_outcome = rs_outcome s, re_observed_value = rs_observed s,
        re_threshold = rs_threshold s, re_reason_code = rs_reason s, re_contribution = None,
        re_evaluated_at = di_as_of i\<rparr>)"

definition outcome_if :: "bool \<Rightarrow> rule_outcome" where
  "outcome_if ok = (if ok then Passed else Failed)"

subsection \<open>The rules\<close>

definition integrity_rules :: "policy \<Rightarrow> decision_input \<Rightarrow> rule_spec list" where
  "integrity_rules p i =
     (let c = pl_config p; score = di_ai_score i;
          policy_valid = (di_policy_name i = dcf_policy_name c \<and> di_policy_version i = dcf_policy_version c);
          metadata_valid = (length (sm_configuration_hash (ss_metadata score)) = 64
            \<and> length (sm_input_fingerprint (ss_metadata score)) = 64);
          score_mode_valid = (mode_value (di_mode i) = score_mode_value (ss_mode score)
            \<or> (mode_value (di_mode i) = ''replay'' \<and> ss_mode score = SLive));
          source_valid = (ss_status score \<noteq> SInvalid \<and> metadata_valid \<and> score_mode_valid);
          point_in_time = (ss_as_of score \<le> di_as_of i \<and> ss_calculated_at score \<le> di_requested_at i)
      in [rspec ''policy.integrity'' (outcome_if policy_valid) Hard_Block
            (if policy_valid then ''policy_valid'' else ''policy_mismatch'')
            (JStr (di_policy_name i @ '':'' @ di_policy_version i))
            (JStr (dcf_policy_name c @ '':'' @ dcf_policy_version c)),
          rspec ''source.snapshot_integrity'' (outcome_if source_valid) Hard_Block
            (if source_valid then ''snapshot_integrity_valid'' else ''snapshot_integrity_invalid'')
            (JStr (score_status_value (ss_status score))) JNull,
          rspec ''source.point_in_time'' (outcome_if point_in_time) Hard_Block
            (if point_in_time then ''point_in_time_valid'' else ''future_snapshot'')
            (JStr (isoformat (ss_as_of score))) (JStr (isoformat (di_as_of i)))])"

definition valid_output :: "decision_input \<Rightarrow> (ai_analysis \<times> analysis_output) option" where
  "valid_output i = (case di_analysis i of None \<Rightarrow> None
     | Some a \<Rightarrow> (if an_validation_passed a \<and> an_analysis_timestamp a \<le> di_as_of i
         then map_option (Pair a) (an_output a) else None))"

definition analysis_valid :: "decision_input \<Rightarrow> bool" where
  "analysis_valid i \<longleftrightarrow> valid_output i \<noteq> None"

definition ai_alignment :: "decision_input \<Rightarrow> decision_direction \<Rightarrow> bool" where
  "ai_alignment i d = (case valid_output i of None \<Rightarrow> True
     | Some (a, x) \<Rightarrow> d = Flat \<or> ao_regime x \<notin> {''bullish'', ''bearish''} \<or> ao_regime x = direction_value d)"

definition analysis_rules :: "decision_input \<Rightarrow> decision_direction \<Rightarrow> rule_spec list" where
  "analysis_rules i d =
     [rspec ''source.snapshot_integrity'' Passed Informational
        (if analysis_valid i then ''ai_analysis_valid'' else ''ai_analysis_missing_or_invalid'')
        (case di_analysis i of None \<Rightarrow> JNull | Some a \<Rightarrow> JStr (an_analysis_id a)) JNull,
      (case valid_output i of
         None \<Rightarrow> rspec ''alignment.minimum'' Not_Evaluated Informational ''ai_analysis_unavailable'' JNull JNull
       | Some (a, x) \<Rightarrow>
           rspec ''alignment.minimum'' (if ai_alignment i d then Passed else Warned)
             (if ai_alignment i d then Informational else Soft_Gate)
             (if ai_alignment i d then ''ai_analysis_aligned'' else ''ai_analysis_contradicts_market_score'')
             (JStr (ao_regime x)) (JStr (direction_value d)))]"

text \<open>\<open>primary_authority_required\<close> is the constant \<open>True\<close>: only the scenario branches of the
  following rules can run.\<close>

definition signal_aligned :: "decision_input \<Rightarrow> bool" where
  "signal_aligned i = (case di_primary_scenario i of None \<Rightarrow> False
     | Some s \<Rightarrow> sl_primary s \<noteq> None \<and> action_value (sl_authoritative_action s) \<in> {''BUY'', ''SELL''})"

definition authority_rule :: "decision_input \<Rightarrow> rule_spec" where
  "authority_rule i = rspec ''ai.signal_authority'' (if signal_aligned i then Passed else Not_Evaluated) Informational
     (if signal_aligned i then ''primary_scenario_authority_selected'' else ''primary_scenario_authority_unavailable'')
     (case di_primary_scenario i of None \<Rightarrow> JNull | Some s \<Rightarrow> JStr (sl_selection_id s)) JNull"

definition geometry_valid :: "decision_config \<Rightarrow> decision_input \<Rightarrow> bool" where
  "geometry_valid c i = (case di_primary_scenario i of None \<Rightarrow> False
     | Some s \<Rightarrow> sl_signal_eligible s \<and>
        (case sl_primary s of None \<Rightarrow> False
         | Some p \<Rightarrow> ca_geometry_valid p \<and>
            (case ca_geometry p of None \<Rightarrow> False
             | Some g \<Rightarrow> dcf_minimum_risk_reward c \<le> ge_risk_reward_ratio g)))"

definition geometry_rule :: "decision_config \<Rightarrow> decision_input \<Rightarrow> rule_spec" where
  "geometry_rule c i =
     (let valid = geometry_valid c i;
          na = (di_primary_scenario i = None \<or> primary_of i = None)
      in rspec ''geometry.minimum_risk_reward''
           (if valid then Passed else if na then Not_Applicable else Failed)
           (if valid \<or> na then Informational else Hard_Block)
           (if valid then ''structural_geometry_valid'' else if na then ''structural_geometry_not_applicable''
            else ''structural_geometry_below_minimum_risk_reward'')
           (case Option.bind (primary_of i) ca_geometry of
              Some g \<Rightarrow> JFloat (ge_risk_reward_ratio g)
            | None \<Rightarrow> (case di_signal i of None \<Rightarrow> JNull
                | Some s \<Rightarrow> (case as_risk_reward_ratio s of None \<Rightarrow> JNull | Some r \<Rightarrow> JFloat r)))
           (JFloat (dcf_minimum_risk_reward c)))"

definition temporal_rule :: "decision_input \<Rightarrow> rule_spec" where
  "temporal_rule i = (case di_temporal_metrics i of
     None \<Rightarrow> rspec ''temporal.validity'' Passed Informational ''temporal_history_building'' JNull JNull
   | Some m \<Rightarrow>
       (let unstable = (tm_classification m = ''unstable'') in
        rspec ''temporal.validity'' (if unstable then Warned else Passed)
          (if unstable then Soft_Gate else Informational)
          (if unstable then ''temporal_analysis_unstable'' else ''temporal_analysis_acceptable'')
          (JFloat (tm_score m)) (JInt 50)))"

definition freshness_rule :: "decision_input \<Rightarrow> freshness_window \<Rightarrow> rule_spec \<times> f64" where
  "freshness_rule i w =
     (let age = age_of i; e = fw_eligible_max_age_seconds w; m = fw_observe_max_age_seconds w in
      if fint m < age \<or> ss_status (di_ai_score i) = SStale then
        (rspec ''freshness.ai_score'' Failed Hard_Block ''ai_score_stale'' (JFloat age) (JInt m), 0)
      else if fint e < age then
        (rspec ''freshness.ai_score'' Warned Soft_Gate ''ai_score_aging'' (JFloat age) (JInt e),
         max 0 (1 - age / fint m))
      else (rspec ''freshness.ai_score'' Passed Informational ''ai_score_fresh'' (JFloat age) (JInt e), 1))"

definition threshold_rule :: "string \<Rightarrow> f64 \<Rightarrow> f64 \<Rightarrow> f64 \<Rightarrow> string \<Rightarrow> rule_spec" where
  "threshold_rule k v observe eligible name =
     (if v < observe then rspec k Failed Insufficient_Evidence (name @ ''_insufficient'') (JFloat v) (JFloat observe)
      else if v < eligible then rspec k Warned Soft_Gate (name @ ''_below_eligibility'') (JFloat v) (JFloat eligible)
      else rspec k Passed Informational (name @ ''_passed'') (JFloat v) (JFloat eligible))"

definition stay_eligible :: "decision_config \<Rightarrow> decision_input \<Rightarrow> decision_direction \<Rightarrow> bool" where
  "stay_eligible c i d = (case dhi_active (di_history i) of None \<Rightarrow> False
     | Some h \<Rightarrow> hr_state h = Eligible \<and> hr_direction h = d \<and> hy_enabled (dcf_hysteresis c))"

definition strength_rules :: "decision_config \<Rightarrow> decision_input \<Rightarrow> decision_direction \<Rightarrow> rule_spec list" where
  "strength_rules c i d =
     (let stay = stay_eligible c i d; h = dcf_hysteresis c;
          strength_eligible = max 0 (tp_minimum_for_eligibility (dcf_directional_strength c)
            - (if stay then hy_strength_relief h else 0));
          confidence_eligible = max 0 (tp_minimum_for_eligibility (dcf_confidence c)
            - (if stay then hy_confidence_relief h else 0))
      in [threshold_rule ''strength.minimum'' (strength_of i)
            (tp_minimum_for_observation (dcf_directional_strength c)) strength_eligible ''directional_strength'',
          threshold_rule ''confidence.minimum'' (ss_confidence_score (di_ai_score i))
            (tp_minimum_for_observation (dcf_confidence c)) confidence_eligible ''confidence''])"

definition risk_rule :: "risk_thresholds \<Rightarrow> f64 \<Rightarrow> rule_spec" where
  "risk_rule t v =
     (if rk_hard_block_minimum t \<le> v then
        rspec ''risk.maximum'' Failed Hard_Block ''risk_hard_block'' (JFloat v) (JFloat (rk_hard_block_minimum t))
      else if rk_preferred_maximum t \<le> v then
        rspec ''risk.maximum'' Warned Soft_Gate ''risk_elevated'' (JFloat v) (JFloat (rk_preferred_maximum t))
      else rspec ''risk.maximum'' Passed Informational ''risk_preferred'' (JFloat v) (JFloat (rk_preferred_maximum t)))"

definition quality_rule :: "quality_thresholds \<Rightarrow> f64 \<Rightarrow> rule_spec" where
  "quality_rule t v =
     (if v < qt_invalid_below t then
        rspec ''quality.minimum'' Failed Hard_Block ''data_quality_invalid'' (JFloat v) (JFloat (qt_invalid_below t))
      else threshold_rule ''quality.minimum'' v (tp_minimum_for_observation (qt_pair t))
             (tp_minimum_for_eligibility (qt_pair t)) ''data_quality'')"

definition alignment_rule :: "decision_config \<Rightarrow> f64 \<Rightarrow> rule_spec" where
  "alignment_rule c v = threshold_rule ''alignment.minimum'' v
     (tp_minimum_for_observation (dcf_alignment c)) (tp_minimum_for_eligibility (dcf_alignment c)) ''alignment''"

definition conflict_rule :: "decision_config \<Rightarrow> evidence_conflict list \<Rightarrow> rule_spec" where
  "conflict_rule c conflicts =
     (let penalties = fsum (map ec_confidence_penalty conflicts); t = dcf_severe_penalty_threshold c;
          severe = (list_ex (\<lambda>x. ec_severity x = ''severe'') conflicts \<or> t \<le> penalties)
      in if severe then
           rspec ''conflict.maximum'' Failed Hard_Block ''severe_evidence_conflict'' (JFloat penalties) (JFloat t)
         else if conflicts \<noteq> [] then
           rspec ''conflict.maximum'' Warned Soft_Gate ''moderate_evidence_conflict'' (JFloat penalties) (JFloat t)
         else rspec ''conflict.maximum'' Passed Informational ''no_material_conflict'' (JInt 0) (JFloat t))"

definition economic_rule :: "economic_event_config \<Rightarrow> economic_risk option \<Rightarrow> rule_spec" where
  "economic_rule c e =
     (let k = ''economic_event.window'';
          unavailable = (\<lambda>reason. if ee_fail_closed_when_source_unavailable c
            then rspec k Failed Hard_Block reason JNull JNull else rspec k Warned Soft_Gate reason JNull JNull)
      in if \<not> ee_enabled c then rspec k Not_Applicable Informational ''economic_policy_disabled'' JNull JNull
         else case e of
           None \<Rightarrow> unavailable ''economic_context_unavailable''
         | Some x \<Rightarrow>
             if er_degraded x then
               unavailable (if er_context_state x \<noteq> [] then er_context_state x else ''economic_context_unavailable'')
             else if er_phase x \<in> set (ee_hard_phases c) then
               rspec k Failed Hard_Block ''economic_hard_block_window'' (JStr (er_phase x)) JNull
             else if er_phase x \<in> set (ee_caution_phases c) then
               rspec k Warned Soft_Gate ''economic_caution_window'' (JStr (er_phase x)) JNull
             else rspec k Passed Informational ''economic_window_clear'' (JStr (er_phase x)) JNull)"

definition regime_rule :: "(string \<times> string) list \<Rightarrow> regime_reference option \<Rightarrow> rule_spec" where
  "regime_rule regimes r =
     (let k = ''regime.allowed''; soft = rspec k Warned Soft_Gate in
      case r of
        None \<Rightarrow> soft ''regime_context_unavailable'' JNull JNull
      | Some x \<Rightarrow>
          if rr_degraded x then soft ''regime_context_unavailable'' JNull JNull
          else let out = (case map_of regimes (rr_regime x) of None \<Rightarrow> ''blocked'' | Some v \<Rightarrow> v) in
            if out = ''blocked'' then rspec k Failed Hard_Block ''regime_blocked'' (JStr (rr_regime x)) JNull
            else if out = ''observe_only'' then soft ''regime_observe_only'' (JStr (rr_regime x)) JNull
            else rspec k Passed Informational ''regime_allowed'' (JStr (rr_regime x)) JNull)"

definition dependency_rule :: "dependency_health list \<Rightarrow> rule_spec" where
  "dependency_rule ds =
     (let critical_failure = list_ex (\<lambda>x. dh_state x = Unavailable \<and> dh_criticality x = Critical) ds;
          eligibility_failure = list_ex (\<lambda>x. dh_state x \<noteq> Available \<and> dh_criticality x = Required_For_Eligibility) ds;
          optional_degraded = list_ex (\<lambda>x. dh_state x \<noteq> Available \<and> dh_criticality x = Optional) ds;
          k = ''dependency.health''
      in if critical_failure then rspec k Failed Hard_Block ''critical_dependency_unavailable'' JNull JNull
         else if eligibility_failure \<or> optional_degraded then rspec k Warned Soft_Gate ''dependency_degraded'' JNull JNull
         else rspec k Passed Informational ''dependencies_available'' JNull JNull)"

definition cooldown_seconds :: "cooldown_config \<Rightarrow> decision_state option \<Rightarrow> int" where
  "cooldown_seconds c s =
     (if s = Some Eligible then cd_eligible_repeat_seconds c
      else if s = Some Observe_Only then cd_observe_repeat_seconds c
      else cd_blocked_repeat_seconds c)"

definition elapsed_since :: "decision_input \<Rightarrow> history_reference \<Rightarrow> f64" where
  "elapsed_since i h = total_seconds (di_as_of i - hr_decided_at h)"

definition elapsed_json :: "decision_input \<Rightarrow> history_reference option \<Rightarrow> json" where
  "elapsed_json i h = (case h of None \<Rightarrow> JNull | Some x \<Rightarrow> JFloat (elapsed_since i x))"

definition cooldown_rule :: "decision_config \<Rightarrow> decision_input \<Rightarrow> rule_spec" where
  "cooldown_rule c i =
     (let same = dhi_recent_same_direction (di_history i);
          secs = cooldown_seconds (dcf_cooldown c) (map_option hr_state same);
          active = (cd_enabled (dcf_cooldown c) \<and>
            (case same of None \<Rightarrow> False | Some h \<Rightarrow> elapsed_since i h < fint secs))
      in rspec ''cooldown.instrument_direction'' (outcome_if (\<not> active))
           (if active then Hard_Block else Informational)
           (if active then ''cooldown_active'' else ''cooldown_clear'')
           (elapsed_json i same) (JInt secs))"

definition reversal_rule :: "decision_config \<Rightarrow> decision_input \<Rightarrow> decision_direction \<Rightarrow> rule_spec" where
  "reversal_rule c i d =
     (let opposite = dhi_recent_opposite_eligible (di_history i); r = dcf_reversal c;
          active = (rv_enabled r \<and>
            (case opposite of None \<Rightarrow> False
             | Some h \<Rightarrow> d \<noteq> Flat \<and> elapsed_since i h < fint (rv_lock_seconds r)
                 \<and> strength_of i < hr_directional_strength h + rv_additional_strength_required r
                 \<and> ss_confidence_score (di_ai_score i) < hr_confidence_score h + rv_additional_confidence_required r))
      in rspec ''reversal.opposite_direction_lock'' (outcome_if (\<not> active))
           (if active then Hard_Block else Informational)
           (if active then ''reversal_lock_active'' else ''reversal_clear'')
           (elapsed_json i opposite) (JInt (rv_lock_seconds r)))"

definition rule_specs :: "policy \<Rightarrow> decision_input \<Rightarrow> decision_direction \<Rightarrow> freshness_window \<Rightarrow> rule_spec list" where
  "rule_specs p i d w =
     (let c = pl_config p; score = di_ai_score i in
      integrity_rules p i @ analysis_rules i d
      @ [authority_rule i, geometry_rule c i, temporal_rule i, fst (freshness_rule i w)]
      @ strength_rules c i d
      @ [risk_rule (dcf_risk c) (ss_market_risk_score score),
         quality_rule (dcf_data_quality c) (ss_data_quality_score score),
         alignment_rule c (ss_evidence_alignment_score score),
         conflict_rule c (ss_conflicts score),
         economic_rule (dcf_economic_event c) (di_economic_risk i),
         regime_rule (dcf_market_regimes c) (di_market_regime i),
         dependency_rule (di_dependency_health i),
         rspec ''duplicate.active_equivalent'' Not_Applicable Informational ''duplicate_checked_by_repository'' JNull JNull,
         cooldown_rule c i, reversal_rule c i d,
         rspec ''temporal.validity'' Passed Informational ''validity_configured'' JNull JNull])"

subsection \<open>The state\<close>

definition synthetic :: "decision_input \<Rightarrow> rule_severity \<Rightarrow> rule_outcome \<Rightarrow> string \<Rightarrow> rule_evaluation" where
  "synthetic i sev out reason = \<lparr>re_rule_id = ''source.snapshot_integrity'', re_rule_version = ''1.0.0'',
     re_category = Source_Integrity, re_severity = sev, re_outcome = out, re_observed_value = JNull,
     re_threshold = JNull, re_reason_code = reason, re_contribution = None, re_evaluated_at = di_as_of i\<rparr>"

definition synthetic_limit :: "decision_input \<Rightarrow> string \<Rightarrow> rule_evaluation" where
  "synthetic_limit i reason = synthetic i Insufficient_Evidence Failed reason"

definition synthetic_warning :: "decision_input \<Rightarrow> string \<Rightarrow> rule_evaluation" where
  "synthetic_warning i reason = synthetic i Soft_Gate Warned reason"

definition selected :: "rule_outcome \<Rightarrow> rule_severity \<Rightarrow> rule_evaluation list \<Rightarrow> rule_evaluation list" where
  "selected out sev es = filter (\<lambda>e. re_outcome e = out \<and> re_severity e = sev) es"

definition invalidating :: "decision_config \<Rightarrow> decision_input \<Rightarrow> rule_evaluation list \<Rightarrow> bool" where
  "invalidating c i es \<longleftrightarrow>
     list_ex (\<lambda>e. re_outcome e = Failed \<and> re_rule_id e \<in> {''policy.integrity'', ''source.snapshot_integrity'',
       ''source.point_in_time''}) es
     \<or> ss_data_quality_score (di_ai_score i) < qt_invalid_below (dcf_data_quality c)"

definition insufficient_of :: "decision_input \<Rightarrow> rule_evaluation list \<Rightarrow> rule_evaluation list" where
  "insufficient_of i es = selected Failed Insufficient_Evidence es @
     (if ss_status (di_ai_score i) = SInsufficient_Evidence
      then [synthetic_limit i ''ai_score_insufficient_evidence''] else [])"

definition soft_of :: "decision_input \<Rightarrow> rule_evaluation list \<Rightarrow> rule_evaluation list" where
  "soft_of i es = selected Warned Soft_Gate es @
     (if ss_status (di_ai_score i) = SDegraded then [synthetic_warning i ''ai_score_degraded''] else [])"

definition state_of :: "decision_config \<Rightarrow> decision_input \<Rightarrow> rule_evaluation list \<Rightarrow> decision_state" where
  "state_of c i es =
     (if invalidating c i es then Invalid
      else if selected Failed Hard_Block es \<noteq> [] then Blocked
      else if insufficient_of i es \<noteq> [] then Insufficient
      else if soft_of i es \<noteq> [] then Observe_Only
      else Eligible)"

definition actionable :: "decision_config \<Rightarrow> decision_input \<Rightarrow> decision_direction \<Rightarrow> decision_state \<Rightarrow> bool" where
  "actionable c i d s \<longleftrightarrow> s = Eligible \<and> d \<noteq> Flat \<and> analysis_valid i \<and> signal_aligned i \<and> geometry_valid c i
     \<and> di_primary_scenario i \<noteq> None"

definition hold_reason :: "decision_input \<Rightarrow> string" where
  "hold_reason i =
     (if \<not> analysis_valid i then ''validated_ai_analysis_unavailable''
      else if di_primary_scenario i = None then ''primary_scenario_unavailable''
      else if primary_of i = None then ''primary_scenario_insufficient_confidence''
      else case di_signal i of
        None \<Rightarrow> ''analysis_signal_unavailable''
      | Some s \<Rightarrow>
          if as_signal s = HOLD then ''analysis_signal_hold''
          else if \<not> signal_aligned i then ''analysis_signal_direction_mismatch''
          else ''structural_geometry_invalid'')"

definition hold_warnings :: "decision_config \<Rightarrow> decision_input \<Rightarrow> decision_direction \<Rightarrow> rule_evaluation list \<Rightarrow> rule_evaluation list" where
  "hold_warnings c i d es =
     (if \<not> actionable c i d (state_of c i es) \<and> selected Failed Hard_Block es = [] \<and> insufficient_of i es = []
      then [synthetic_warning i (hold_reason i)] else [])"

subsection \<open>Scores\<close>

definition ai_confidence :: "decision_input \<Rightarrow> f64" where
  "ai_confidence i = (case primary_of i of Some p \<Rightarrow> ca_final_scenario_score p
     | None \<Rightarrow> (case di_signal i of Some s \<Rightarrow> fint (as_confidence s) | None \<Rightarrow> 0))"

definition temporal_confidence :: "decision_input \<Rightarrow> f64" where
  "temporal_confidence i = (case di_temporal_metrics i of Some m \<Rightarrow> tm_score m | None \<Rightarrow> fint 50)"

definition independent_confidence :: "decision_input \<Rightarrow> decision_direction \<Rightarrow> f64" where
  "independent_confidence i d =
     (let s = di_ai_score i;
          x = ss_confidence_score s * fl64 (55/100) + ai_confidence i * fl64 (20/100)
            + temporal_confidence i * fl64 (15/100) + ss_data_quality_score s * fl64 (10/100)
            - (if \<not> ai_alignment i d then fint 10 else 0)
      in max 0 (min (fint 100) x))"

definition rounded :: "decision_config \<Rightarrow> f64 \<Rightarrow> f64" where
  "rounded c x = round_nd (dcf_output_precision c) x"

definition eligibility :: "decision_config \<Rightarrow> f64 \<Rightarrow> f64 \<Rightarrow> f64 \<Rightarrow> f64 \<Rightarrow> f64 \<Rightarrow> f64 \<Rightarrow> f64" where
  "eligibility c strength confidence quality alignment risk fresh =
     (let h = fint 100;
          v = h * (strength / h) * (confidence / h) * (quality / h) * (alignment / h) * (1 - risk / h) * fresh
      in rounded c (max 0 (min h v)))"

definition overall_confidence :: "decision_input \<Rightarrow> f64 \<Rightarrow> f64" where
  "overall_confidence i ind =
     (ind + (case di_signal i of Some s \<Rightarrow> as_overall_confidence s | None \<Rightarrow> ind)) / fint 2"

definition scores_values :: "decision_config \<Rightarrow> decision_input \<Rightarrow> decision_direction \<Rightarrow> f64 \<Rightarrow> scores" where
  "scores_values c i d fresh =
     (let s = di_ai_score i; ind = independent_confidence i d in
      \<lparr>dc_eligibility_score = eligibility c (strength_of i) ind (ss_data_quality_score s)
         (ss_evidence_alignment_score s) (ss_market_risk_score s) fresh,
       dc_directional_strength = rounded c (strength_of i),
       dc_confidence_score = rounded c ind, dc_guardrail_confidence = rounded c ind,
       dc_overall_confidence = rounded c (overall_confidence i ind),
       dc_market_risk_score = ss_market_risk_score s, dc_data_quality_score = ss_data_quality_score s,
       dc_evidence_alignment_score = ss_evidence_alignment_score s\<rparr>)"

subsection \<open>Reasons, execution fields, evidence\<close>

definition reason_of :: "rule_evaluation \<Rightarrow> decision_reason" where
  "reason_of e = \<lparr>dr_reason_code = re_reason_code e, dr_severity = re_severity e, dr_source = ''signal_decision'',
     dr_message_key = ''signal_decision.'' @ re_reason_code e, dr_rule_id = re_rule_id e\<rparr>"

definition with_outcome :: "rule_outcome \<Rightarrow> rule_evaluation list \<Rightarrow> rule_evaluation list" where
  "with_outcome out es = filter (\<lambda>e. re_outcome e = out) es"

definition blockers_of :: "decision_input \<Rightarrow> rule_evaluation list \<Rightarrow> rule_evaluation list \<Rightarrow> decision_reason list" where
  "blockers_of i insufficient es = map reason_of (with_outcome Failed es) @
     (if ss_status (di_ai_score i) = SInsufficient_Evidence then [reason_of (last insufficient)] else [])"

definition warnings_of :: "decision_input \<Rightarrow> rule_evaluation list \<Rightarrow> rule_evaluation list \<Rightarrow> decision_reason list" where
  "warnings_of i soft es = map reason_of (with_outcome Warned es) @
     (if ss_status (di_ai_score i) = SDegraded
      then [reason_of (hd (filter (\<lambda>e. re_reason_code e = ''ai_score_degraded'') soft))] else [])"

definition explanation_values :: "decision_config \<Rightarrow> decision_direction \<Rightarrow> decision_state \<Rightarrow> rule_evaluation list
    \<Rightarrow> rule_evaluation list \<Rightarrow> rule_evaluation list \<Rightarrow> decision_explanation" where
  "explanation_values c d s insufficient soft es =
     \<lparr>de_summary_code = direction_value d @ ''_'' @ state_value s, de_decision_state = s, de_direction = d,
      de_passed_rules = map re_rule_id (with_outcome Passed es),
      de_failed_rules = map re_rule_id (with_outcome Failed es),
      de_warning_rules = map re_rule_id (with_outcome Warned es),
      de_evidence_limitations = map re_reason_code (insufficient @ soft),
      de_policy_name = dcf_policy_name c, de_policy_version = dcf_policy_version c\<rparr>"

definition final_action_of :: "decision_input \<Rightarrow> final_action" where
  "final_action_of i = (case di_primary_scenario i of None \<Rightarrow> HOLD | Some s \<Rightarrow> sl_authoritative_action s)"

text \<open>Python parses \<open>invalidation or conditions[0] if (...) else (...)\<close> as one conditional whose
  first branch is the \<open>or\<close>: without invalidation conditions the text of the primary scenario is
  replaced by the generic one.\<close>

definition scenario_invalidation :: "candidate \<Rightarrow> string" where
  "scenario_invalidation p = ca_trigger_condition p @ ''; '' @
     (case ca_invalidation_level p of Some l \<Rightarrow> ''invalid beyond '' @ fmt_fixed 2 l
      | None \<Rightarrow> ''scenario structural invalidation'')"

definition stop_invalidation :: "final_action \<Rightarrow> f64 \<Rightarrow> string" where
  "stop_invalidation a stop =
     (if a = BUY then ''Price closes below structural invalidation '' else ''Price closes above structural invalidation '')
     @ fmt_fixed 5 stop"

definition invalidation_text :: "decision_input \<Rightarrow> candidate \<Rightarrow> f64 \<Rightarrow> string" where
  "invalidation_text i p stop =
     (case Option.bind (di_analysis i) an_output of
        Some x \<Rightarrow>
          (case ao_invalidation_conditions x of
             cond # _ \<Rightarrow> (if scenario_invalidation p \<noteq> [] then scenario_invalidation p else cond)
           | [] \<Rightarrow> stop_invalidation (final_action_of i) stop)
      | None \<Rightarrow> stop_invalidation (final_action_of i) stop)"

definition execution_values :: "decision_input \<Rightarrow> decision_direction \<Rightarrow> decision_state \<Rightarrow> bool \<Rightarrow> execution" where
  "execution_values i d s act =
     (let geo = (if act then Option.bind (primary_of i) (\<lambda>p. map_option (Pair p) (ca_geometry p)) else None) in
      \<lparr>dx_final_action = final_action_of i,
       dx_setup_family = (if act \<and> ai_alignment i d then Some ''trend_continuation''
          else if act then Some ''pullback_continuation'' else None),
       dx_readiness = (if act then Ready else if s = Observe_Only then Conditional else Rejected),
       dx_entry_low = map_option (\<lambda>(p, g). pz_low (ge_entry_zone g)) geo,
       dx_entry_high = map_option (\<lambda>(p, g). pz_high (ge_entry_zone g)) geo,
       dx_invalidation = map_option (\<lambda>(p, g). invalidation_text i p (ge_stop_loss g)) geo,
       dx_stop_loss = map_option (\<lambda>(p, g). ge_stop_loss g) geo,
       dx_take_profit_targets = (case geo of None \<Rightarrow> []
          | Some (p, g) \<Rightarrow> ge_take_profit g # (case ge_secondary_target g of None \<Rightarrow> [] | Some t \<Rightarrow> [t])),
       dx_risk_reward = map_option (\<lambda>(p, g). ge_risk_reward_ratio g) geo,
       dx_publication_eligible = act\<rparr>)"

definition regime_evidence :: "runtime \<Rightarrow> string \<Rightarrow> decision_input \<Rightarrow> decision_direction \<Rightarrow> signal_evidence list" where
  "regime_evidence rt fingerprint i d = (case valid_output i of None \<Rightarrow> []
     | Some (a, x) \<Rightarrow>
        [\<lparr>se_evidence_id = stable_id rt ''81f5a757-4e58-5d38-b01d-ea7ec9f9e11d'' [''signal-evidence'', fingerprint, ''ai-regime''],
          se_category = ''market_regime'', se_side = (if ai_alignment i d then ''supporting'' else ''contradicting''),
          se_claim = ''Validated AI analysis classifies regime as '' @ ao_regime x @ ''.'',
          se_source_type = ''current_ai_analysis'', se_source_reference = an_analysis_id a,
          se_observed_value = JFloat (ao_regime_strength x), se_timestamp = an_analysis_timestamp a,
          se_timeframe = di_timeframe i, se_reliability = ao_regime_confidence x\<rparr>])"

definition temporal_evidence_of :: "runtime \<Rightarrow> string \<Rightarrow> decision_input \<Rightarrow> signal_evidence list" where
  "temporal_evidence_of rt fingerprint i = (case di_temporal_metrics i of None \<Rightarrow> []
     | Some m \<Rightarrow>
        [\<lparr>se_evidence_id = stable_id rt ''81f5a757-4e58-5d38-b01d-ea7ec9f9e11d'' [''signal-evidence'', fingerprint, ''temporal''],
          se_category = ''historical_consistency'', se_side = ''supporting'', se_claim = tm_reason m,
          se_source_type = ''temporal_metric'',
          se_source_reference = (case di_temporal_context i of Some t \<Rightarrow> tc_version t | None \<Rightarrow> ''1.0''),
          se_observed_value = JFloat (tm_score m), se_timestamp = di_as_of i,
          se_timeframe = di_timeframe i, se_reliability = min 1 (int_truediv (tm_sample_size m) 10)\<rparr>])"

definition notification_of :: "decision_input \<Rightarrow> string option \<Rightarrow> notification_context option" where
  "notification_of i invalidation =
     Option.bind (di_primary_scenario i) (\<lambda>s. map_option (\<lambda>p.
       \<lparr>nc_signal_id = sl_selection_id s, nc_primary_scenario_id = ca_candidate_id p,
        nc_alternative_scenario_id = sl_alternative_candidate_id s, nc_cycle_id = sl_cycle_id s,
        nc_direction = action_value (sl_authoritative_action s),
        nc_primary_scenario_score = ca_final_scenario_score p, nc_email_threshold = sl_minimum_score s,
        nc_scenario_type = ca_scenario_type p, nc_market_cutoff = isoformat (ca_market_cutoff p),
        nc_reference_price = ca_reference_price p, nc_expected_path = ca_validated_path p,
        nc_entry_type = entry_type_value (ca_entry_type p),
        nc_entry_zone = map_option ge_entry_zone (ca_geometry p),
        nc_entry = map_option ge_entry (ca_geometry p),
        nc_stop_loss = map_option ge_stop_loss (ca_geometry p),
        nc_take_profit = map_option ge_take_profit (ca_geometry p),
        nc_risk_reward = map_option ge_risk_reward_ratio (ca_geometry p),
        nc_invalidation = invalidation, nc_expires_at = isoformat (ca_expiry p),
        nc_supporting_evidence = take 5 (ca_supporting_evidence_ids p),
        nc_alternative_summary = map_option (\<lambda>a. \<lparr>al_direction = candidate_direction_value (ca_direction a),
           al_scenario_type = ca_scenario_type a, al_score = ca_final_scenario_score a\<rparr>) (sl_alternative s)\<rparr>)
       (sl_primary s))"

definition lineage_values :: "decision_config \<Rightarrow> decision_input \<Rightarrow> rule_evaluation list \<Rightarrow> lineage" where
  "lineage_values c i es =
     \<lparr>li_market_snapshot_id = di_market_snapshot_id i,
      li_feature_snapshot_id = Some (ss_snapshot_id (di_ai_score i)),
      li_current_ai_analysis_id = map_option an_analysis_id (di_analysis i),
      li_current_ai_signal_id = map_option as_signal_id (di_signal i),
      li_historical_ai_analysis_ids = (case di_temporal_context i of None \<Rightarrow> [] | Some t \<Rightarrow> tc_rolling_window t),
      li_quantitative_forecast_id = di_quantitative_forecast_id i,
      li_primary_scenario_selection_id = map_option sl_selection_id (di_primary_scenario i),
      li_strategy_evaluation_ids = map re_rule_id es,
      li_temporal_context_version = map_option tc_version (di_temporal_context i),
      li_signal_engine_version = dcf_engine_version c,
      li_strategy_configuration_version = dcf_configuration_version c,
      li_risk_policy_version = dcf_policy_version c\<rparr>"

subsection \<open>The decision\<close>

definition metadata_values :: "runtime \<Rightarrow> policy \<Rightarrow> decision_input \<Rightarrow> decision_metadata" where
  "metadata_values rt p i =
     (let c = pl_config p; h = sm_configuration_hash (ss_metadata (di_ai_score i)) in
      \<lparr>dm_engine_version = dcf_engine_version c, dm_schema_version = dcf_schema_version c,
       dm_configuration_version = dcf_configuration_version c, dm_configuration_hash = pl_configuration_hash p,
       dm_ai_score_configuration_hash = (if length h = 64 then h else rt_sha256 rt h)\<rparr>)"

definition decision_values :: "runtime \<Rightarrow> policy \<Rightarrow> string \<Rightarrow> decision_input \<Rightarrow> decision_direction \<Rightarrow> f64 \<Rightarrow> int
    \<Rightarrow> rule_evaluation list \<Rightarrow> signal_decision" where
  "decision_values rt p fingerprint i d fresh validity es0 =
     (let c = pl_config p; score = di_ai_score i;
          s = state_of c i es0; act = actionable c i d s; hold = hold_warnings c i d es0;
          es = es0 @ hold; insufficient = insufficient_of i es0; soft = soft_of i es0 @ hold;
          x = execution_values i d s act; regime = regime_evidence rt fingerprint i d
      in \<lparr>sd_decision_id = stable_id rt ''81f5a757-4e58-5d38-b01d-ea7ec9f9e11d''
            [''decision'', fingerprint, mode_value (di_mode i)],
          sd_decision_key = join '':'' [di_instrument i, timeframe_value (di_timeframe i), direction_value d,
            dcf_policy_version c, mode_value (di_mode i)],
          sd_input_fingerprint = fingerprint, sd_instrument = di_instrument i, sd_timeframe = di_timeframe i,
          sd_direction = d, sd_state = s, sd_as_of = di_as_of i, sd_decided_at = di_requested_at i,
          sd_valid_from = di_as_of i, sd_valid_until = di_as_of i + seconds_td validity,
          sd_ai_score_snapshot_id = ss_snapshot_id score,
          sd_ai_score_policy_name = ss_policy_name score, sd_ai_score_policy_version = ss_policy_version score,
          sd_decision_policy_name = dcf_policy_name c, sd_decision_policy_version = dcf_policy_version c,
          sd_scores = scores_values c i d fresh, sd_rules = es,
          sd_blockers = blockers_of i insufficient es, sd_warnings = warnings_of i soft es,
          sd_supporting_reasons = map reason_of (with_outcome Passed es),
          sd_previous_decision_id = map_option hr_decision_id (dhi_latest (di_history i)),
          sd_supersedes_decision_id = map_option hr_decision_id (dhi_active (di_history i)),
          sd_status = Active, sd_mode = di_mode i,
          sd_explanation = explanation_values c d s insufficient soft es,
          sd_metadata = metadata_values rt p i, sd_execution = x,
          sd_decision_reason = ''Primary Scenario validation produced '' @ action_value (final_action_of i)
            @ ''; risk, geometry, freshness, and publication rules were evaluated without originating or overriding direction.'',
          sd_opposite_direction_rejection = (if d \<noteq> Flat
            then ''Opposite direction rejected because deterministic directional evidence is '' @ direction_value d @ ''.''
            else ''Neither direction has sufficient deterministic support.''),
          sd_supporting_evidence = (if ai_alignment i d then regime else []),
          sd_contradicting_evidence = (if ai_alignment i d then [] else regime),
          sd_temporal_evidence = temporal_evidence_of rt fingerprint i,
          sd_source_lineage = lineage_values c i es,
          sd_notification_context = notification_of i (dx_invalidation x)\<rparr>)"

definition make_decision :: "signal_decision \<Rightarrow> decision_error + signal_decision" where
  "make_decision d = (if decision_invariants d \<and> decision_fields_ok d then Inr d
     else Inl (Decision_Validation_Error ''SignalDecision''))"

definition evaluate :: "runtime \<Rightarrow> (decision_input \<Rightarrow> string \<Rightarrow> string) \<Rightarrow> policy \<Rightarrow> decision_input
    \<Rightarrow> decision_error + signal_decision" where
  "evaluate rt digest p i =
     bindE (label_direction (pl_config p) (ss_directional_label (di_ai_score i))) (\<lambda>mapped.
     let d = direction_for i mapped in
     bindE (freshness_window_of (pl_config p) (di_timeframe i)) (\<lambda>w.
     bindE (mapE (add_rule p i) (rule_specs p i d w)) (\<lambda>es.
     bindE (validity_seconds (pl_config p) (state_value (state_of (pl_config p) i es)) (timeframe_value (di_timeframe i)))
       (\<lambda>validity. make_decision
         (decision_values rt p (digest i (pl_configuration_hash p)) i d (snd (freshness_rule i w)) validity es)))))"

end
