(* ===== verification/Signal_Decision_Proofs.thy ===== *)
theory Signal_Decision_Proofs
  imports Signal_Decision
begin

text \<open>
  Correctness of the signal decision policy: \<open>evaluate\<close> never raises on validated data, its
  states follow the precedence of the rules, and nothing is published that a rule rejected.
\<close>

subsection \<open>The shape of a rule\<close>

definition rules_complete :: "policy \<Rightarrow> bool" where
  "rules_complete p \<longleftrightarrow> set (map fst production_rules) \<subseteq> dom (map_of (pl_rules p))"

lemma production_registry: "\<exists>r. production_rule_registry = Inr r \<and> dom (map_of r) = set (map fst production_rules)"
proof -
  let ?ds = "map (\<lambda>(k, c). \<lparr>rd_rule_id = k, rd_category = c, rd_version = ''1.0.0''\<rparr>) production_rules"
  have keys: "map rd_rule_id ?ds = map fst production_rules" by (simp add: case_prod_unfold)
  have "distinct (map rd_rule_id ?ds)" unfolding keys by (simp add: production_rules_def)
  then obtain r where r: "rule_catalog.register_all [] ?ds = Inr r"
    using iffD2 [OF rule_catalog.register_all_Inr_iff [of "[]" ?ds]] by auto
  have "rd_rule_id ` set ?ds = set (map fst production_rules)"
    unfolding set_map [symmetric] keys ..
  then have "dom (map_of r) = set (map fst production_rules)"
    unfolding rule_catalog.register_all_dom [OF r] by simp
  then show ?thesis using r by (simp add: production_rule_registry_def register_rules_all)
qed

definition known :: "string \<Rightarrow> bool" where
  "known k \<longleftrightarrow> k \<in> set (map fst production_rules)"

definition integrity_ids :: "string set" where
  "integrity_ids = {''policy.integrity'', ''source.snapshot_integrity'', ''source.point_in_time''}"

text \<open>A rule fails hard or for lack of evidence, and warns softly.\<close>

definition spec_ok :: "rule_spec \<Rightarrow> bool" where
  "spec_ok s \<longleftrightarrow> known (rs_rule_id s)
     \<and> (rs_outcome s = Failed \<longrightarrow> rs_severity s \<in> {Hard_Block, Insufficient_Evidence})
     \<and> (rs_outcome s = Warned \<longrightarrow> rs_severity s = Soft_Gate)
     \<and> (rs_severity s = Insufficient_Evidence \<longrightarrow> rs_rule_id s \<notin> integrity_ids)"

lemma spec_ok_rspec:
  "spec_ok (rspec k out sev r ob th) \<longleftrightarrow> known k
     \<and> (out = Failed \<longrightarrow> sev \<in> {Hard_Block, Insufficient_Evidence}) \<and> (out = Warned \<longrightarrow> sev = Soft_Gate)
     \<and> (sev = Insufficient_Evidence \<longrightarrow> k \<notin> integrity_ids)"
  by (simp add: spec_ok_def rspec_def)

named_theorems rule_shapes \<open>well-formedness of the rules\<close>

lemma outcome_if_eq [simp]: "outcome_if b = Failed \<longleftrightarrow> \<not> b" "outcome_if b = Passed \<longleftrightarrow> b" "outcome_if b \<noteq> Warned"
  by (simp_all add: outcome_if_def)

lemma known_rule:
  "known ''policy.integrity''"
  "known ''source.snapshot_integrity''"
  "known ''source.point_in_time''"
  "known ''freshness.ai_score''"
  "known ''strength.minimum''"
  "known ''confidence.minimum''"
  "known ''risk.maximum''"
  "known ''geometry.minimum_risk_reward''"
  "known ''quality.minimum''"
  "known ''alignment.minimum''"
  "known ''ai.signal_authority''"
  "known ''conflict.maximum''"
  "known ''economic_event.window''"
  "known ''regime.allowed''"
  "known ''dependency.health''"
  "known ''duplicate.active_equivalent''"
  "known ''cooldown.instrument_direction''"
  "known ''reversal.opposite_direction_lock''"
  "known ''temporal.validity''"
  by (simp_all add: known_def production_rules_def)

lemma integrity_shape [rule_shapes]: "list_all spec_ok (integrity_rules p i)"
  using known_rule by (simp add: integrity_rules_def Let_def spec_ok_rspec)

lemma analysis_shape [rule_shapes]: "list_all spec_ok (analysis_rules i d)"
  using known_rule by (simp add: analysis_rules_def spec_ok_rspec split: option.split)

lemma authority_shape [rule_shapes]: "spec_ok (authority_rule i)"
  using known_rule by (simp add: authority_rule_def spec_ok_rspec)

lemma geometry_shape [rule_shapes]: "spec_ok (geometry_rule c i)"
  using known_rule by (simp add: geometry_rule_def Let_def spec_ok_rspec)

lemma temporal_shape [rule_shapes]: "spec_ok (temporal_rule i)"
  using known_rule by (simp add: temporal_rule_def Let_def spec_ok_rspec split: option.split)

lemma freshness_shape [rule_shapes]: "spec_ok (fst (freshness_rule i w))"
  using known_rule by (simp add: freshness_rule_def Let_def spec_ok_rspec)

lemma threshold_shape: "known k \<Longrightarrow> k \<notin> integrity_ids \<Longrightarrow> spec_ok (threshold_rule k v a b n)"
  by (simp add: threshold_rule_def spec_ok_rspec)

lemma strength_shape [rule_shapes]: "list_all spec_ok (strength_rules c i d)"
  using known_rule by (simp add: strength_rules_def Let_def threshold_shape integrity_ids_def)

lemma risk_shape [rule_shapes]: "spec_ok (risk_rule t v)"
  using known_rule by (simp add: risk_rule_def spec_ok_rspec)

lemma quality_shape [rule_shapes]: "spec_ok (quality_rule t v)"
  using known_rule by (simp add: quality_rule_def spec_ok_rspec threshold_shape integrity_ids_def)

lemma alignment_shape [rule_shapes]: "spec_ok (alignment_rule c v)"
  using known_rule by (simp add: alignment_rule_def threshold_shape integrity_ids_def)

lemma conflict_shape [rule_shapes]: "spec_ok (conflict_rule c x)"
  using known_rule by (simp add: conflict_rule_def Let_def spec_ok_rspec)

lemma economic_shape [rule_shapes]: "spec_ok (economic_rule c x)"
  using known_rule by (simp add: economic_rule_def Let_def spec_ok_rspec split: option.split)

lemma regime_shape [rule_shapes]: "spec_ok (regime_rule c x)"
  using known_rule by (simp add: regime_rule_def Let_def spec_ok_rspec split: option.split)

lemma dependency_shape [rule_shapes]: "spec_ok (dependency_rule x)"
  using known_rule by (simp add: dependency_rule_def Let_def spec_ok_rspec)

lemma cooldown_shape [rule_shapes]: "spec_ok (cooldown_rule c i)"
  using known_rule by (simp add: cooldown_rule_def Let_def spec_ok_rspec)

lemma reversal_shape [rule_shapes]: "spec_ok (reversal_rule c i d)"
  using known_rule by (simp add: reversal_rule_def Let_def spec_ok_rspec)

lemma rule_specs_ok: "list_all spec_ok (rule_specs p i d w)"
  using rule_shapes known_rule by (simp add: rule_specs_def Let_def spec_ok_rspec)

subsection \<open>Evaluations\<close>

definition eval_ok :: "rule_evaluation \<Rightarrow> bool" where
  "eval_ok e \<longleftrightarrow> (re_outcome e = Failed \<longrightarrow> re_severity e \<in> {Hard_Block, Insufficient_Evidence})
     \<and> (re_outcome e = Warned \<longrightarrow> re_severity e = Soft_Gate)
     \<and> (re_severity e = Insufficient_Evidence \<longrightarrow> re_rule_id e \<notin> integrity_ids)"

lemma add_rule_InrD:
  "add_rule p i s = Inr e \<Longrightarrow> re_rule_id e = rs_rule_id s \<and> re_outcome e = rs_outcome s
     \<and> re_severity e = rs_severity s \<and> re_reason_code e = rs_reason s \<and> re_observed_value e = rs_observed s"
  by (auto simp: add_rule_def bindE_eq_Inr)

lemma add_rule_total:
  assumes "rules_complete p" "spec_ok s"
  shows "\<exists>e. add_rule p i s = Inr e"
proof -
  have "rs_rule_id s \<in> dom (map_of (pl_rules p))"
    using assms by (auto simp: rules_complete_def spec_ok_def known_def)
  then show ?thesis by (auto simp: add_rule_def get_rule_def)
qed

lemma evaluations_total:
  assumes "rules_complete p"
  obtains es where "mapE (add_rule p i) (rule_specs p i d w) = Inr es"
proof -
  have "\<forall>s \<in> set (rule_specs p i d w). \<exists>e. add_rule p i s = Inr e"
    using add_rule_total [OF assms] rule_specs_ok [of p i d w] by (auto simp: list_all_iff)
  then obtain g where "\<forall>s \<in> set (rule_specs p i d w). add_rule p i s = Inr (g s)"
    by (metis (no_types))
  then have "mapE (add_rule p i) (rule_specs p i d w) = Inr (map g (rule_specs p i d w))"
    by (simp add: mapE_total)
  then show ?thesis by (rule that)
qed

lemma evaluations_ok:
  assumes "mapE (add_rule p i) (rule_specs p i d w) = Inr es"
  shows "list_all eval_ok es"
proof -
  have "eval_ok e" if e: "e \<in> set es" for e
  proof -
    obtain s where "s \<in> set (rule_specs p i d w)" "add_rule p i s = Inr e"
      using assms e by (rule mapE_set)
    then show ?thesis
      using rule_specs_ok [of p i d w] add_rule_InrD by (auto simp: list_all_iff spec_ok_def eval_ok_def)
  qed
  then show ?thesis by (simp add: list_all_iff)
qed

lemma evaluation_of:
  assumes "mapE (add_rule p i) ss = Inr es" "s \<in> set ss"
  shows "\<exists>e \<in> set es. add_rule p i s = Inr e"
  using assms by (metis in_set_conv_nth mapE_Inr_iff)

lemma failed_split:
  "list_all eval_ok es \<Longrightarrow> with_outcome Failed es = [] \<longleftrightarrow>
     selected Failed Hard_Block es = [] \<and> selected Failed Insufficient_Evidence es = []"
  by (auto simp: with_outcome_def selected_def filter_empty_conv list_all_iff eval_ok_def)

lemma warned_split:
  "list_all eval_ok es \<Longrightarrow> with_outcome Warned es = selected Warned Soft_Gate es"
  unfolding with_outcome_def selected_def by (rule filter_cong) (auto simp: list_all_iff eval_ok_def)

lemma with_outcome_append [simp]: "with_outcome x (a @ b) = with_outcome x a @ with_outcome x b"
  by (simp add: with_outcome_def)

lemma hold_outcomes [simp]:
  "with_outcome Failed (hold_warnings c i d es) = []" "with_outcome Passed (hold_warnings c i d es) = []"
  "with_outcome Warned (hold_warnings c i d es) = hold_warnings c i d es"
  by (simp_all add: hold_warnings_def with_outcome_def synthetic_warning_def synthetic_def)

lemma state_cases:
  "state_of c i es = Invalid \<longleftrightarrow> invalidating c i es"
  "state_of c i es = Blocked \<longleftrightarrow> \<not> invalidating c i es \<and> selected Failed Hard_Block es \<noteq> []"
  "state_of c i es = Insufficient \<longleftrightarrow> \<not> invalidating c i es \<and> selected Failed Hard_Block es = []
     \<and> insufficient_of i es \<noteq> []"
  "state_of c i es = Observe_Only \<longleftrightarrow> \<not> invalidating c i es \<and> selected Failed Hard_Block es = []
     \<and> insufficient_of i es = [] \<and> soft_of i es \<noteq> []"
  "state_of c i es = Eligible \<longleftrightarrow> \<not> invalidating c i es \<and> selected Failed Hard_Block es = []
     \<and> insufficient_of i es = [] \<and> soft_of i es = []"
  "state_of c i es \<noteq> Expired_State"
  by (simp_all add: state_of_def)

lemma insufficient_nil:
  "insufficient_of i es = [] \<longleftrightarrow> selected Failed Insufficient_Evidence es = []
     \<and> ss_status (di_ai_score i) \<noteq> SInsufficient_Evidence"
  by (simp add: insufficient_of_def)

lemma blockers_nil:
  "blockers_of i ins es = [] \<longleftrightarrow> with_outcome Failed es = [] \<and> ss_status (di_ai_score i) \<noteq> SInsufficient_Evidence"
  by (simp add: blockers_of_def)

lemma no_blockers_iff:
  assumes "list_all eval_ok es"
  shows "blockers_of i ins (es @ hold_warnings c i d es) = [] \<longleftrightarrow>
    selected Failed Hard_Block es = [] \<and> insufficient_of i es = []"
  using failed_split [OF assms] by (auto simp: blockers_nil insufficient_nil)

lemma invalidating_blocks:
  assumes "invalidating c i es" "list_all eval_ok es"
    and "ss_data_quality_score (di_ai_score i) < qt_invalid_below (dcf_data_quality c) \<Longrightarrow> with_outcome Failed es \<noteq> []"
  shows "with_outcome Failed es \<noteq> []"
  using assms by (auto simp: invalidating_def with_outcome_def filter_empty_conv list_ex_iff)

subsection \<open>The execution fields\<close>

lemma actionable_geometry:
  assumes "actionable c i d s"
  obtains sel p g where "di_primary_scenario i = Some sel" "sl_primary sel = Some p" "ca_geometry p = Some g"
    "ca_geometry_valid p" "sl_signal_eligible sel" "dcf_minimum_risk_reward c \<le> ge_risk_reward_ratio g"
    "sl_authoritative_action sel \<noteq> HOLD" "s = Eligible" "d \<noteq> Flat"
  using assms
  by (auto simp: actionable_def geometry_valid_def signal_aligned_def action_value_def
      split: option.splits final_action.splits)

lemma execution_values_ok: "execution_ok (execution_values i d s (actionable c i d s))"
proof (cases "actionable c i d s")
  case True
  then obtain sel p g where g: "di_primary_scenario i = Some sel" "sl_primary sel = Some p"
    "ca_geometry p = Some g" "sl_authoritative_action sel \<noteq> HOLD"
    by (rule actionable_geometry)
  have "invalidation_text i p x \<noteq> []" for x
    by (auto simp: invalidation_text_def scenario_invalidation_def stop_invalidation_def split: option.split list.split)
  then show ?thesis
    using True g by (simp add: execution_ok_def execution_values_def Let_def primary_of_def final_action_of_def)
next
  case False
  then show ?thesis by (simp add: execution_ok_def execution_values_def Let_def)
qed

subsection \<open>Scores\<close>

lemma percent_double: "in_range 0 (fint 100) a \<Longrightarrow> in_range 0 (fint 100) b \<Longrightarrow> in_range 0 (fint 100) ((a + b) / fint 2)"
proof -
  assume a: "in_range 0 (fint 100) a" and b: "in_range 0 (fint 100) b"
  have two: "0 \<le> fint 2" "(fint 100 + fint 100) / fint 2 = fint 100"
    by (simp_all add: f64_order fval_fint) code_simp
  have "(a + b) / fint 2 \<le> (fint 100 + fint 100) / fint 2"
    using a b two(1) by (intro f64_div_mono f64_add_mono) (simp_all add: in_range_def)
  then show ?thesis
    using a b two by (simp add: in_range_def f64_div_nonneg f64_add_nonneg)
qed

lemma abs_percent: "in_range (fint (- 100)) (fint 100) x \<Longrightarrow> in_range 0 (fint 100) \<bar>x\<bar>"
  by (simp add: in_range_def f64_order fval_arith fval_fint abs_le_iff)

lemma clamp_percent: "in_range 0 (fint 100) (max 0 (min (fint 100) x))"
  using percent_100 by (simp add: in_range_def)

lemma selection_percent:
  "selection_ok s \<Longrightarrow> sl_primary s = Some p \<Longrightarrow> in_range 0 (fint 100) (ca_final_scenario_score p)"
  by (simp add: selection_ok_def candidate_ok_def)

lemma input_selection_ok: "decision_input_ok i \<Longrightarrow> di_primary_scenario i = Some s \<Longrightarrow> selection_ok s"
  by (simp add: decision_input_ok_def)

lemma strength_percent: "decision_input_ok i \<Longrightarrow> in_range 0 (fint 100) (strength_of i)"
proof (cases "di_primary_scenario i")
  case None
  assume "decision_input_ok i"
  then have "in_range (fint (- 100)) (fint 100) (ss_directional_score (di_ai_score i))"
    by (simp add: decision_input_ok_def snapshot_ok_def)
  then show ?thesis using None by (simp add: strength_of_def abs_percent)
next
  case (Some s)
  assume "decision_input_ok i"
  with Some have "selection_ok s" by (simp add: input_selection_ok)
  then show ?thesis
    using Some selection_percent percent_100 by (cases "sl_primary s") (simp_all add: strength_of_def)
qed

lemma scores_values_ok:
  assumes "decision_input_ok i"
  shows "scores_ok (scores_values c i d fresh)"
proof -
  have "snapshot_ok (di_ai_score i)" using assms by (simp add: decision_input_ok_def)
  moreover have "in_range 0 (fint 100) (independent_confidence i d)"
    by (simp add: independent_confidence_def Let_def clamp_percent)
  moreover have "in_range 0 (fint 100) (overall_confidence i x)" if "in_range 0 (fint 100) x" for x
    using assms that percent_double
    by (auto simp: overall_confidence_def decision_input_ok_def ai_signal_ok_def split: option.split)
  ultimately show ?thesis
    using strength_percent [OF assms]
    by (simp add: scores_ok_def scores_values_def eligibility_def Let_def rounded_def round_nd_percent
        clamp_percent snapshot_ok_def)
qed

subsection \<open>The decision satisfies its validators\<close>

definition digest_ok :: "runtime \<Rightarrow> (decision_input \<Rightarrow> string \<Rightarrow> string) \<Rightarrow> policy \<Rightarrow> bool" where
  "digest_ok rt digest p \<longleftrightarrow> (\<forall>x. length (rt_sha256 rt x) = 64) \<and> (\<forall>i h. length (digest i h) = 64)
     \<and> length (pl_configuration_hash p) = 64"

lemma sample_size_unit: "0 \<le> n \<Longrightarrow> in_range 0 1 (min 1 (int_truediv n 10))"
  by (simp add: in_range_def int_truediv_def f64_order fval_fl64 fl_nonneg min_def)

lemma fields_ok:
  assumes "decision_input_ok i" "digest_ok rt digest p"
  shows "decision_fields_ok (decision_values rt p (digest i h) i d fresh v es)"
proof -
  let ?x = "execution_values i d (state_of (pl_config p) i es) (actionable (pl_config p) i d (state_of (pl_config p) i es))"
  have geo: "geometry_ok g" if "Option.bind (primary_of i) ca_geometry = Some g" for g
    using that assms(1)
    by (auto simp: primary_of_def decision_input_ok_def selection_ok_def candidate_ok_def bind_eq_Some_conv
        split: option.splits)
  have pos: "pos_opt (dx_entry_low ?x)" "pos_opt (dx_entry_high ?x)" "pos_opt (dx_stop_loss ?x)"
    "pos_opt (dx_risk_reward ?x)"
    using geo
    by (auto simp: execution_values_def Let_def pos_opt_def geometry_ok_def price_zone_ok_def bind_eq_Some_conv
        split: option.split)
  have rel: "list_all (\<lambda>e. in_range 0 1 (se_reliability e)) (regime_evidence rt f i d)"
    "list_all (\<lambda>e. in_range 0 1 (se_reliability e)) (temporal_evidence_of rt f i)" for f
    using assms(1) sample_size_unit
    by (auto simp: regime_evidence_def temporal_evidence_of_def valid_output_def decision_input_ok_def analysis_ok_def
        metrics_ok_def split: option.splits if_splits)
  show ?thesis
    using assms(2) pos rel scores_values_ok [OF assms(1)]
    by (simp add: decision_fields_ok_def decision_values_def Let_def metadata_values_def digest_ok_def)
qed

lemma invariants_ok:
  assumes es: "list_all eval_ok es" and v: "0 < v"
    and q: "ss_data_quality_score (di_ai_score i) < qt_invalid_below (dcf_data_quality (pl_config p))
      \<Longrightarrow> with_outcome Failed es \<noteq> []"
    and flat: "state_of (pl_config p) i es = Eligible \<Longrightarrow> d \<noteq> Flat"
  shows "decision_invariants (decision_values rt p f i d fresh v es)"
proof -
  let ?s = "state_of (pl_config p) i es"
  let ?es = "es @ hold_warnings (pl_config p) i d es"
  have none: "blockers_of i ins ?es = [] \<longleftrightarrow> selected Failed Hard_Block es = [] \<and> insufficient_of i es = []" for ins
    by (rule no_blockers_iff [OF es])
  have inv: "with_outcome Failed es \<noteq> []" if "invalidating (pl_config p) i es"
    using invalidating_blocks [OF that es q] .
  have warn: "warnings_of i soft ?es \<noteq> []" if "?s = Observe_Only" for soft
    using that warned_split [OF es] by (auto simp: state_cases warnings_of_def soft_of_def split: if_splits)
  show ?thesis
    using none inv warn flat v failed_split [OF es] execution_values_ok [of i d ?s "pl_config p"]
    by (auto simp: decision_invariants_def decision_values_def Let_def state_cases seconds_td_def insufficient_nil)
qed

subsection \<open>Evaluation never raises\<close>

definition spec_in :: "rule_spec \<Rightarrow> rule_evaluation list \<Rightarrow> bool" where
  "spec_in s es \<longleftrightarrow> (\<exists>e \<in> set es. re_rule_id e = rs_rule_id s \<and> re_outcome e = rs_outcome s
     \<and> re_severity e = rs_severity s \<and> re_reason_code e = rs_reason s)"

lemma spec_inI:
  "mapE (add_rule p i) (rule_specs p i d w) = Inr es \<Longrightarrow> s \<in> set (rule_specs p i d w) \<Longrightarrow> spec_in s es"
  unfolding spec_in_def using evaluation_of add_rule_InrD by metis

lemma rule_specs_members:
  "quality_rule (dcf_data_quality (pl_config p)) (ss_data_quality_score (di_ai_score i)) \<in> set (rule_specs p i d w)"
  "geometry_rule (pl_config p) i \<in> set (rule_specs p i d w)"
  "risk_rule (dcf_risk (pl_config p)) (ss_market_risk_score (di_ai_score i)) \<in> set (rule_specs p i d w)"
  "fst (freshness_rule i w) \<in> set (rule_specs p i d w)"
  "conflict_rule (pl_config p) (ss_conflicts (di_ai_score i)) \<in> set (rule_specs p i d w)"
  "economic_rule (dcf_economic_event (pl_config p)) (di_economic_risk i) \<in> set (rule_specs p i d w)"
  "regime_rule (dcf_market_regimes (pl_config p)) (di_market_regime i) \<in> set (rule_specs p i d w)"
  "dependency_rule (di_dependency_health i) \<in> set (rule_specs p i d w)"
  "cooldown_rule (pl_config p) i \<in> set (rule_specs p i d w)"
  "reversal_rule (pl_config p) i d \<in> set (rule_specs p i d w)"
  "alignment_rule (pl_config p) (ss_evidence_alignment_score (di_ai_score i)) \<in> set (rule_specs p i d w)"
  "hd (strength_rules (pl_config p) i d) \<in> set (rule_specs p i d w)"
  "hd (integrity_rules p i) \<in> set (rule_specs p i d w)"
  by (simp_all add: rule_specs_def Let_def strength_rules_def integrity_rules_def)

lemma failed_spec: "spec_in s es \<Longrightarrow> rs_outcome s = Failed \<Longrightarrow> with_outcome Failed es \<noteq> []"
  by (auto simp: spec_in_def with_outcome_def filter_empty_conv)

lemma hard_spec:
  "spec_in s es \<Longrightarrow> rs_outcome s = Failed \<Longrightarrow> rs_severity s = Hard_Block \<Longrightarrow> selected Failed Hard_Block es \<noteq> []"
  by (auto simp: spec_in_def selected_def filter_empty_conv)

lemma insufficient_spec:
  "spec_in s es \<Longrightarrow> rs_outcome s = Failed \<Longrightarrow> rs_severity s = Insufficient_Evidence \<Longrightarrow>
    selected Failed Insufficient_Evidence es \<noteq> []"
  by (auto simp: spec_in_def selected_def filter_empty_conv)

text \<open>With a neutral direction the strength rule or the geometry rule fails, as long as the
  observation threshold of the strength is positive and above the neutral band of the labels.\<close>

definition neutral_is_weak :: "decision_config \<Rightarrow> decision_input \<Rightarrow> bool" where
  "neutral_is_weak c i \<longleftrightarrow> 0 < tp_minimum_for_observation (dcf_directional_strength c)
     \<and> (label_direction c (ss_directional_label (di_ai_score i)) = Inr Flat \<longrightarrow>
          \<bar>ss_directional_score (di_ai_score i)\<bar> < tp_minimum_for_observation (dcf_directional_strength c))"

lemma flat_fails:
  assumes ok: "decision_input_ok i" and weak: "neutral_is_weak (pl_config p) i"
    and m: "label_direction (pl_config p) (ss_directional_label (di_ai_score i)) = Inr mapped"
    and flat: "direction_for i mapped = Flat"
    and es: "mapE (add_rule p i) (rule_specs p i (direction_for i mapped) w) = Inr es"
  shows "with_outcome Failed es \<noteq> []"
proof (cases "Option.bind (di_primary_scenario i) sl_primary")
  case None
  then have "strength_of i < tp_minimum_for_observation (dcf_directional_strength (pl_config p))"
    using weak m flat
    by (auto simp: strength_of_def neutral_is_weak_def direction_for_def split: option.splits)
  then have "rs_outcome (hd (strength_rules (pl_config p) i (direction_for i mapped))) = Failed"
    by (simp add: strength_rules_def Let_def threshold_rule_def rspec_def)
  then show ?thesis using failed_spec [OF spec_inI [OF es rule_specs_members(12)]] by simp
next
  case (Some q)
  then obtain s where s: "di_primary_scenario i = Some s" "sl_primary s = Some q"
    by (auto simp: bind_eq_Some_conv)
  have "sl_authoritative_action s = HOLD"
    using flat s by (auto simp: direction_for_def action_direction_def split: final_action.splits)
  moreover have "selection_ok s" using ok s by (simp add: input_selection_ok)
  ultimately have "\<not> geometry_valid (pl_config p) i"
    using s by (auto simp: geometry_valid_def selection_ok_def candidate_ok_def expected_action_def
        split: option.splits candidate_direction.splits if_splits)
  then have "rs_outcome (geometry_rule (pl_config p) i) = Failed"
    using s by (simp add: geometry_rule_def Let_def rspec_def primary_of_def)
  then show ?thesis using failed_spec [OF spec_inI [OF es rule_specs_members(2)]] by simp
qed

lemma low_quality_fails:
  assumes "mapE (add_rule p i) (rule_specs p i d w) = Inr es"
    and "ss_data_quality_score (di_ai_score i) < qt_invalid_below (dcf_data_quality (pl_config p))"
  shows "with_outcome Failed es \<noteq> []"
  using failed_spec [OF spec_inI [OF assms(1) rule_specs_members(1)]] assms(2)
  by (simp add: quality_rule_def rspec_def)

text \<open>The intermediate results of a successful evaluation.\<close>

lemma evaluate_InrD:
  assumes "evaluate rt digest p i = Inr dec"
  obtains mapped w es v where
    "label_direction (pl_config p) (ss_directional_label (di_ai_score i)) = Inr mapped"
    "freshness_window_of (pl_config p) (di_timeframe i) = Inr w"
    "mapE (add_rule p i) (rule_specs p i (direction_for i mapped) w) = Inr es"
    "validity_seconds (pl_config p) (state_value (state_of (pl_config p) i es)) (timeframe_value (di_timeframe i)) = Inr v"
    "dec = decision_values rt p (digest i (pl_configuration_hash p)) i (direction_for i mapped) (snd (freshness_rule i w)) v es"
    "decision_invariants dec" "decision_fields_ok dec" "list_all eval_ok es"
  using assms evaluations_ok
  by (fastforce simp: evaluate_def bindE_eq_Inr make_decision_def Let_def split: if_splits)

lemma evaluate_succeeds:
  assumes "decision_input_ok i" and "decision_config_ok (pl_config p)" and "validity_complete (pl_config p)"
    and "rules_complete p" and "digest_ok rt digest p" and "neutral_is_weak (pl_config p) i"
  shows "\<exists>d. evaluate rt digest p i = Inr d \<and> decision_invariants d \<and> decision_fields_ok d"
proof -
  let ?c = "pl_config p"
  obtain mapped where m: "label_direction ?c (ss_directional_label (di_ai_score i)) = Inr mapped"
    using label_direction_total [OF assms(2)] by blast
  obtain w where w: "freshness_window_of ?c (di_timeframe i) = Inr w"
    using freshness_window_total [OF assms(2)] by blast
  let ?d = "direction_for i mapped"
  obtain es where es: "mapE (add_rule p i) (rule_specs p i ?d w) = Inr es"
    using evaluations_total [OF assms(4)] by blast
  note ok = evaluations_ok [OF es]
  obtain v where v: "validity_seconds ?c (state_value (state_of ?c i es)) (timeframe_value (di_timeframe i)) = Inr v"
    using validity_total [OF assms(3) state_cases(6)] by blast
  have nf: "?d \<noteq> Flat" if "state_of ?c i es = Eligible"
    using that flat_fails [OF assms(1,6) m _ es] failed_split [OF ok] by (auto simp: state_cases insufficient_nil)
  have "decision_invariants (decision_values rt p f i ?d x v es)" for f x
    using invariants_ok [OF ok validity_positive [OF assms(2) v] low_quality_fails [OF es]] nf by blast
  moreover have "decision_fields_ok (decision_values rt p (digest i h) i ?d x v es)" for h x
    by (rule fields_ok [OF assms(1,5)])
  ultimately show ?thesis
    using m w es v by (simp add: evaluate_def make_decision_def Let_def)
qed

subsection \<open>A concrete case\<close>

text \<open>A bullish score, an eligible BUY selection and a clear context, under the default policy.\<close>

definition sample_runtime :: runtime where
  "sample_runtime = \<lparr>rt_uuid5 = (\<lambda>_ n. n), rt_sha256 = (\<lambda>_. replicate 64 (CHR ''0'')), rt_float_repr = (\<lambda>_. [])\<rparr>"

definition sample_digest :: "decision_input \<Rightarrow> string \<Rightarrow> string" where
  "sample_digest i h = replicate 64 (CHR ''f'')"

definition sample_policy :: policy where
  "sample_policy = \<lparr>pl_config = default_decision_config,
     pl_rules = (case production_rule_registry of Inr r \<Rightarrow> r | Inl _ \<Rightarrow> []),
     pl_configuration_hash = replicate 64 (CHR ''c'')\<rparr>"

definition sample_snapshot :: score_snapshot where
  "sample_snapshot = \<lparr>ss_snapshot_id = ''s1'', ss_instrument = ''XAUUSD'', ss_timeframe = ''M15'',
     ss_as_of = 0, ss_calculated_at = 0, ss_mode = SLive, ss_policy_name = ''weighted_intelligence_v1'',
     ss_policy_version = ''1.0.0'', ss_directional_score = fint 72, ss_directional_label = Strong_Bullish,
     ss_confidence_score = fint 80, ss_market_risk_score = fint 20, ss_evidence_alignment_score = fint 90,
     ss_data_quality_score = fint 95, ss_composite_score = fint 50, ss_components = [], ss_conflicts = [],
     ss_missing_sources = [], ss_degraded_sources = [],
     ss_explanation = \<lparr>xp_summary_code = [], xp_positive_contributors = [], xp_negative_contributors = [],
       xp_risk_contributors = [], xp_limitations = []\<rparr>,
     ss_status = SReady, ss_metadata = \<lparr>sm_engine_version = ''1.0.0'', sm_schema_version = ''1.0'',
       sm_configuration_version = ''ai-scoring-1.0'', sm_configuration_hash = replicate 64 (CHR ''a''),
       sm_input_fingerprint = replicate 64 (CHR ''b''), sm_independent_group_count = 3,
       sm_available_source_count = 7\<rparr>\<rparr>"

definition sample_geometry :: scenario_geometry where
  "sample_geometry = \<lparr>ge_entry_zone = \<lparr>pz_low = fint 2309, pz_high = fint 2311\<rparr>, ge_entry = fint 2310,
     ge_stop_loss = fint 2300, ge_take_profit = fint 2340, ge_secondary_target = None,
     ge_risk_reward_ratio = fint 3, ge_basis_fact_identifiers = [''f1''], ge_validity = Gv_Valid,
     ge_reason = ''deterministic_forward_geometry_validated''\<rparr>"

definition sample_candidate :: "string \<Rightarrow> candidate" where
  "sample_candidate k = \<lparr>ca_candidate_id = k, ca_market_cutoff = 0, ca_reference_price = fint 2310,
     ca_direction = C_Bullish, ca_scenario_type = ''trend'', ca_validated_path = [''a'', ''b''],
     ca_trigger_condition = ''close above 2310'', ca_entry_type = Pullback, ca_invalidation_level = Some (fint 2300),
     ca_expiry = seconds_td 3600, ca_supporting_evidence_ids = [], ca_final_scenario_score = fint 78,
     ca_scenario_valid = True, ca_geometry_valid = True, ca_geometry = Some sample_geometry,
     ca_rejection_reason = None\<rparr>"

definition sample_selection :: selection where
  "sample_selection = \<lparr>sl_selection_id = ''sel'', sl_simulation_cycle_id = ''sim'', sl_cycle_id = ''cyc'',
     sl_market_state_id = ''mkt'', sl_instrument = ''XAUUSD'', sl_market_cutoff = 0, sl_selected_at = 0,
     sl_status = Selected, sl_authoritative_action = BUY, sl_primary_candidate_id = Some ''p'',
     sl_alternative_candidate_id = Some ''q'', sl_primary = Some (sample_candidate ''p''),
     sl_alternative = Some (sample_candidate ''q''), sl_minimum_score = fint 70, sl_signal_eligible = True,
     sl_rejection_reason = None, sl_ranking_explanation = [], sl_lifecycle_status = ''GENERATED''\<rparr>"

definition sample_decision_input :: decision_input where
  "sample_decision_input = \<lparr>di_instrument = ''XAUUSD'', di_timeframe = M15, di_as_of = seconds_td 60,
     di_requested_at = seconds_td 61, di_ai_score = sample_snapshot,
     di_economic_risk = Some \<lparr>er_context_id = ''e'', er_phase = ''outside'', er_risk_score = fint 5, er_as_of = 0,
       er_degraded = False, er_context_state = ''outside_risk_window'', er_event_ids = []\<rparr>,
     di_market_regime = Some \<lparr>rr_snapshot_id = ''r'', rr_regime = ''trending_bull'', rr_as_of = 0, rr_degraded = False\<rparr>,
     di_dependency_health = [], di_history = \<lparr>dhi_latest = None, dhi_active = None,
       dhi_recent_same_direction = None, dhi_recent_opposite_eligible = None\<rparr>,
     di_analysis = Some \<lparr>an_analysis_id = ''an'', an_validation_passed = True,
       an_output = Some \<lparr>ao_regime = ''bullish'', ao_regime_strength = fint 60, ao_regime_confidence = fl64 (7/10),
         ao_invalidation_conditions = []\<rparr>, an_analysis_timestamp = 0\<rparr>,
     di_signal = None, di_temporal_context = None, di_temporal_metrics = None, di_market_snapshot_id = Some ''mkt'',
     di_quantitative_forecast_id = None, di_current_price = Some (fint 2310), di_expected_move = None,
     di_primary_scenario = Some sample_selection, di_mode = Live, di_policy_name = ''conservative_signal_policy'',
     di_policy_version = ''1.0.0''\<rparr>"

lemma sample_decision_input_ok: "decision_input_ok sample_decision_input"
  by code_simp

lemma sample_policy_ok:
  "decision_config_ok (pl_config sample_policy)" "validity_complete (pl_config sample_policy)"
  "rules_complete sample_policy" "digest_ok sample_runtime sample_digest sample_policy"
  "pl_config sample_policy = default_decision_config"
proof -
  obtain r where r: "production_rule_registry = Inr r" "dom (map_of r) = set (map fst production_rules)"
    using production_registry by blast
  have "pl_rules sample_policy = r"
    unfolding sample_policy_def r(1) by simp
  then show "rules_complete sample_policy"
    using r(2) by (simp add: rules_complete_def)
qed (simp_all add: sample_policy_def digest_ok_def sample_runtime_def sample_digest_def
      default_decision_config_ok default_validity_complete)

lemma sample_neutral_is_weak: "neutral_is_weak (pl_config sample_policy) sample_decision_input"
  unfolding sample_policy_ok(5) by code_simp

text \<open>Claim C1: on a validated input and a validated configuration, in every combination of missing or degraded context,
  a decision that \<open>evaluate\<close> returns passes all validators of \<open>SignalDecision\<close>, and it raises for no other reason than
  these three, which no validator excludes: the rule registry lacks a production rule, the validity table lacks one of the
  five states, or the observation threshold is zero or reached by the score of a neutral label. The defaults and the
  production rules satisfy all three. The digests are taken to have the 64 characters of SHA-256.\<close>

theorem evaluate_total:
  assumes "decision_input_ok i" and "decision_config_ok (pl_config p)" and "digest_ok rt digest p"
  shows "case evaluate rt digest p i of
      Inl e \<Rightarrow> \<not> rules_complete p \<or> \<not> validity_complete (pl_config p) \<or> \<not> neutral_is_weak (pl_config p) i
    | Inr d \<Rightarrow> decision_invariants d \<and> decision_fields_ok d"
proof (cases "evaluate rt digest p i")
  case (Inl e)
  then show ?thesis using evaluate_succeeds [OF assms(1,2) _ _ assms(3)] by fastforce
next
  case (Inr d)
  then show ?thesis using evaluate_InrD [OF Inr] by auto
qed

theorem evaluate_total_witness:
  "\<exists>d. evaluate sample_runtime sample_digest sample_policy sample_decision_input = Inr d \<and> decision_invariants d"
  using evaluate_total [OF sample_decision_input_ok sample_policy_ok(1,4)] sample_policy_ok(2,3) sample_neutral_is_weak
  by (auto split: sum.split_asm)

definition sample_window :: freshness_window where
  "sample_window = \<lparr>fw_eligible_max_age_seconds = 900, fw_observe_max_age_seconds = 1800\<rparr>"

lemma sample_state:
  "(case mapE (add_rule sample_policy sample_decision_input) (rule_specs sample_policy sample_decision_input Bull sample_window) of
      Inl _ \<Rightarrow> False | Inr es \<Rightarrow> state_of default_decision_config sample_decision_input es = Eligible)"
  by code_simp

lemma sample_route:
  "label_direction default_decision_config (ss_directional_label (di_ai_score sample_decision_input)) = Inr Bull"
  "direction_for sample_decision_input Bull = Bull"
  "freshness_window_of default_decision_config (di_timeframe sample_decision_input) = Inr sample_window"
  "actionable default_decision_config sample_decision_input Bull Eligible"
  by code_simp+

lemma sample_decision:
  obtains d where "evaluate sample_runtime sample_digest sample_policy sample_decision_input = Inr d"
    "sd_state d = Eligible" "dx_publication_eligible (sd_execution d)"
proof -
  obtain d where d: "evaluate sample_runtime sample_digest sample_policy sample_decision_input = Inr d"
    using evaluate_succeeds [OF sample_decision_input_ok sample_policy_ok(1-4) sample_neutral_is_weak] by blast
  then show ?thesis
  proof (rule evaluate_InrD)
    fix mapped w es v
    assume "label_direction (pl_config sample_policy) (ss_directional_label (di_ai_score sample_decision_input)) = Inr mapped"
      "freshness_window_of (pl_config sample_policy) (di_timeframe sample_decision_input) = Inr w"
      and es: "mapE (add_rule sample_policy sample_decision_input)
        (rule_specs sample_policy sample_decision_input (direction_for sample_decision_input mapped) w) = Inr es"
      and dec: "d = decision_values sample_runtime sample_policy (sample_digest sample_decision_input (pl_configuration_hash sample_policy))
        sample_decision_input (direction_for sample_decision_input mapped)
        (snd (freshness_rule sample_decision_input w)) v es"
    then have "mapped = Bull" "w = sample_window" using sample_route by (simp_all add: sample_policy_ok)
    then have "state_of default_decision_config sample_decision_input es = Eligible"
      using sample_state es by (simp add: sample_route)
    then show ?thesis
      using that [OF d] sample_route \<open>mapped = Bull\<close> dec
      by (simp add: decision_values_def Let_def sample_policy_ok execution_values_def)
  qed
qed

end
