(* ===== verification/Signal_Decision_Safety.thy ===== *)
theory Signal_Decision_Safety
  imports Signal_Decision_Proofs
begin

text \<open>
  Safety of the signal decision policy: the precedence of its states, the conditions that
  always block, what a published signal guarantees, and the cooldown.
\<close>

subsection \<open>Precedence\<close>

lemma with_outcome_synthetic [simp]:
  "with_outcome x [] = []" "with_outcome Failed [synthetic_warning i r] = []"
  "with_outcome Warned [synthetic_warning i r] = [synthetic_warning i r]"
  by (simp_all add: with_outcome_def synthetic_warning_def synthetic_def)

lemma evaluate_parts:
  assumes "evaluate rt digest p i = Inr dec"
  obtains mapped w es where
    "mapE (add_rule p i) (rule_specs p i (direction_for i mapped) w) = Inr es" "list_all eval_ok es"
    "sd_state dec = state_of (pl_config p) i es"
    "sd_rules dec = es @ hold_warnings (pl_config p) i (direction_for i mapped) es"
    "sd_direction dec = direction_for i mapped"
    "sd_execution dec = execution_values i (direction_for i mapped) (sd_state dec)
       (actionable (pl_config p) i (direction_for i mapped) (sd_state dec))"
    "sd_blockers dec = blockers_of i (insufficient_of i es) (sd_rules dec)"
    "freshness_window_of (pl_config p) (di_timeframe i) = Inr w"
    "sd_scores dec = scores_values (pl_config p) i (direction_for i mapped) (snd (freshness_rule i w))"
  using assms by (rule evaluate_InrD) (rule that; simp add: decision_values_def Let_def)

lemma hard_in_rules:
  assumes "list_all eval_ok es"
  shows "(\<exists>r \<in> set (es @ hold_warnings c i d es). re_outcome r = Failed \<and> re_severity r = Hard_Block)
    \<longleftrightarrow> selected Failed Hard_Block es \<noteq> []"
  by (auto simp: selected_def filter_empty_conv hold_warnings_def synthetic_warning_def synthetic_def)

lemma invalidating_hard:
  assumes es: "mapE (add_rule p i) (rule_specs p i d w) = Inr es" "list_all eval_ok es"
    and inv: "invalidating (pl_config p) i es"
  shows "selected Failed Hard_Block es \<noteq> []"
proof (cases "ss_data_quality_score (di_ai_score i) < qt_invalid_below (dcf_data_quality (pl_config p))")
  case True
  then have "rs_outcome (quality_rule (dcf_data_quality (pl_config p)) (ss_data_quality_score (di_ai_score i))) = Failed"
    "rs_severity (quality_rule (dcf_data_quality (pl_config p)) (ss_data_quality_score (di_ai_score i))) = Hard_Block"
    by (simp_all add: quality_rule_def rspec_def)
  then show ?thesis using hard_spec [OF spec_inI [OF es(1) rule_specs_members(1)]] by blast
next
  case False
  then obtain e where "e \<in> set es" "re_outcome e = Failed" "re_rule_id e \<in> integrity_ids"
    using inv by (auto simp: invalidating_def list_ex_iff integrity_ids_def)
  moreover from this have "re_severity e = Hard_Block"
    using es(2) by (auto simp: list_all_iff eval_ok_def)
  ultimately show ?thesis by (auto simp: selected_def filter_empty_conv)
qed

text \<open>The state of a decision is read off its rules in a fixed precedence. Blocked or
  invalid exactly when some recorded rule failed as a hard block; no blocker at all exactly
  when the state is eligible or observe-only; an eligible decision has no failed rule, and
  every warning it carries is the single hold warning of a non-actionable decision.\<close>

theorem evaluate_state_precedence:
  assumes "evaluate rt digest p i = Inr dec"
  shows "(sd_state dec \<in> {Blocked, Invalid} \<longleftrightarrow>
      (\<exists>r \<in> set (sd_rules dec). re_outcome r = Failed \<and> re_severity r = Hard_Block))
    \<and> (sd_blockers dec = [] \<longleftrightarrow> sd_state dec \<in> {Eligible, Observe_Only})
    \<and> (sd_state dec = Eligible \<longrightarrow> with_outcome Failed (sd_rules dec) = []
        \<and> with_outcome Warned (sd_rules dec) = (if dx_publication_eligible (sd_execution dec) then []
            else [synthetic_warning i (hold_reason i)]))"
  using assms
proof (rule evaluate_parts)
  fix mapped w es
  assume es: "mapE (add_rule p i) (rule_specs p i (direction_for i mapped) w) = Inr es" "list_all eval_ok es"
    and st: "sd_state dec = state_of (pl_config p) i es"
    and rules: "sd_rules dec = es @ hold_warnings (pl_config p) i (direction_for i mapped) es"
    and x: "sd_execution dec = execution_values i (direction_for i mapped) (sd_state dec)
       (actionable (pl_config p) i (direction_for i mapped) (sd_state dec))"
    and b: "sd_blockers dec = blockers_of i (insufficient_of i es) (sd_rules dec)"
  let ?c = "pl_config p"
  have hard: "invalidating ?c i es \<Longrightarrow> selected Failed Hard_Block es \<noteq> []"
    by (rule invalidating_hard [OF es])
  have 1: "sd_state dec \<in> {Blocked, Invalid} \<longleftrightarrow>
      (\<exists>r \<in> set (sd_rules dec). re_outcome r = Failed \<and> re_severity r = Hard_Block)"
    unfolding rules hard_in_rules [OF es(2)] using hard by (auto simp: st state_cases)
  have 2: "sd_blockers dec = [] \<longleftrightarrow> sd_state dec \<in> {Eligible, Observe_Only}"
    unfolding b rules no_blockers_iff [OF es(2)] using hard by (auto simp: st state_cases)
  have 3: "with_outcome Failed (sd_rules dec) = []
        \<and> with_outcome Warned (sd_rules dec) = (if dx_publication_eligible (sd_execution dec) then []
            else [synthetic_warning i (hold_reason i)])" if "sd_state dec = Eligible"
    using that failed_split [OF es(2)] warned_split [OF es(2)] unfolding rules x
    by (auto simp: execution_values_def Let_def st state_cases insufficient_nil soft_of_def hold_warnings_def)
  show ?thesis using 1 2 3 by simp
qed

theorem evaluate_state_precedence_witness:
  "\<exists>d :: signal_decision. sd_state d = Eligible \<and> sd_blockers d = [] \<and> with_outcome Warned (sd_rules d) = []"
proof -
  obtain d where d: "evaluate sample_runtime sample_digest sample_policy sample_decision_input = Inr d"
    "sd_state d = Eligible" "dx_publication_eligible (sd_execution d)"
    by (rule sample_decision)
  show ?thesis
    using evaluate_state_precedence [OF d(1)] d(2,3) by auto
qed

subsection \<open>Conditions that always block\<close>

text \<open>The gates of the policy, stated on the input alone.\<close>

definition economic_gate :: "economic_event_config \<Rightarrow> economic_risk option \<Rightarrow> bool" where
  "economic_gate c e \<longleftrightarrow> ee_enabled c \<and> (case e of None \<Rightarrow> ee_fail_closed_when_source_unavailable c
     | Some x \<Rightarrow> if er_degraded x then ee_fail_closed_when_source_unavailable c
         else er_phase x \<in> set (ee_hard_phases c))"

text \<open>The direction the rules are asked about, and the two gates that depend on a window of time.\<close>

definition decided_direction :: "decision_config \<Rightarrow> decision_input \<Rightarrow> decision_direction" where
  "decided_direction c i = (case label_direction c (ss_directional_label (di_ai_score i)) of Inl _ \<Rightarrow> Flat | Inr m \<Rightarrow> direction_for i m)"

definition outdated_score :: "decision_config \<Rightarrow> decision_input \<Rightarrow> bool" where
  "outdated_score c i \<longleftrightarrow> ss_status (di_ai_score i) = SStale
     \<or> (case freshness_window_of c (di_timeframe i) of Inl _ \<Rightarrow> False | Inr w \<Rightarrow> fint (fw_observe_max_age_seconds w) < age_of i)"

definition reversal_locked :: "decision_config \<Rightarrow> decision_input \<Rightarrow> bool" where
  "reversal_locked c i \<longleftrightarrow> rv_enabled (dcf_reversal c) \<and> decided_direction c i \<noteq> Flat
     \<and> (\<exists>h. dhi_recent_opposite_eligible (di_history i) = Some h \<and> elapsed_since i h < fint (rv_lock_seconds (dcf_reversal c))
          \<and> strength_of i < hr_directional_strength h + rv_additional_strength_required (dcf_reversal c)
          \<and> ss_confidence_score (di_ai_score i) < hr_confidence_score h + rv_additional_confidence_required (dcf_reversal c))"

definition damaged_score :: "decision_input \<Rightarrow> bool" where
  "damaged_score i \<longleftrightarrow> (let s = di_ai_score i in ss_status s = SInvalid
     \<or> length (sm_configuration_hash (ss_metadata s)) \<noteq> 64 \<or> length (sm_input_fingerprint (ss_metadata s)) \<noteq> 64
     \<or> mode_value (di_mode i) \<noteq> score_mode_value (ss_mode s) \<and> \<not> (mode_value (di_mode i) = ''replay'' \<and> ss_mode s = SLive)
     \<or> di_as_of i < ss_as_of s \<or> di_requested_at i < ss_calculated_at s)"

definition hard_gate :: "policy \<Rightarrow> decision_input \<Rightarrow> bool" where
  "hard_gate p i \<longleftrightarrow> (let c = pl_config p; s = di_ai_score i in
     policy_ident p \<noteq> (di_policy_name i, di_policy_version i)
     \<or> damaged_score i
     \<or> (\<exists>q. primary_of i = Some q \<and> \<not> geometry_valid c i)
     \<or> outdated_score c i
     \<or> rk_hard_block_minimum (dcf_risk c) \<le> ss_market_risk_score s
     \<or> ss_data_quality_score s < qt_invalid_below (dcf_data_quality c)
     \<or> list_ex (\<lambda>x. ec_severity x = ''severe'') (ss_conflicts s)
     \<or> dcf_severe_penalty_threshold c \<le> fsum (map ec_confidence_penalty (ss_conflicts s))
     \<or> economic_gate (dcf_economic_event c) (di_economic_risk i)
     \<or> (\<exists>r. di_market_regime i = Some r \<and> \<not> rr_degraded r \<and>
          map_of (dcf_market_regimes c) (rr_regime r) \<in> {None, Some ''blocked''})
     \<or> list_ex (\<lambda>x. dh_state x = Unavailable \<and> dh_criticality x = Critical) (di_dependency_health i)
     \<or> (\<exists>h. dhi_recent_same_direction (di_history i) = Some h \<and> cd_enabled (dcf_cooldown c)
          \<and> elapsed_since i h < fint (cooldown_seconds (dcf_cooldown c) (Some (hr_state h))))
     \<or> reversal_locked c i)"

text \<open>Which rules fail as a hard block.\<close>

definition blocks :: "rule_spec \<Rightarrow> bool" where
  "blocks s \<longleftrightarrow> rs_outcome s = Failed \<and> rs_severity s = Hard_Block"

lemma blocks_rspec [simp]: "blocks (rspec k out sev reason obs thr) \<longleftrightarrow> out = Failed \<and> sev = Hard_Block"
  by (simp add: blocks_def rspec_def)

lemma outcome_if_Failed [simp]: "outcome_if b = Failed \<longleftrightarrow> \<not> b"
  by (simp add: outcome_if_def)

lemma blocks_threshold [simp]: "\<not> blocks (threshold_rule k v observe eligible name)"
  by (simp add: threshold_rule_def)

lemma blocks_soft [simp]: "\<not> blocks (authority_rule i)" "\<not> blocks (temporal_rule i)" "\<not> list_ex blocks (analysis_rules i d)"
  "\<not> list_ex blocks (strength_rules c i d)" "\<not> blocks (alignment_rule c v)"
  by (simp_all add: authority_rule_def temporal_rule_def analysis_rules_def strength_rules_def alignment_rule_def Let_def
      split: option.split)

lemma blocks_integrity: "list_ex blocks (integrity_rules p i) \<longleftrightarrow> policy_ident p \<noteq> (di_policy_name i, di_policy_version i) \<or> damaged_score i"
  by (auto simp: integrity_rules_def policy_ident_def damaged_score_def Let_def not_le)

lemma blocks_geometry: "blocks (geometry_rule c i) \<longleftrightarrow> (\<exists>q. primary_of i = Some q \<and> \<not> geometry_valid c i)"
  by (auto simp: geometry_rule_def Let_def primary_of_def split: option.split)

lemma blocks_risk: "blocks (risk_rule t v) \<longleftrightarrow> rk_hard_block_minimum t \<le> v"
  by (simp add: risk_rule_def)

lemma blocks_quality: "blocks (quality_rule t v) \<longleftrightarrow> v < qt_invalid_below t"
  by (simp add: quality_rule_def)

lemma blocks_conflict: "blocks (conflict_rule c xs) \<longleftrightarrow> list_ex (\<lambda>x. ec_severity x = ''severe'') xs
    \<or> dcf_severe_penalty_threshold c \<le> fsum (map ec_confidence_penalty xs)"
  by (simp add: conflict_rule_def Let_def)

lemma blocks_economic: "blocks (economic_rule c e) \<longleftrightarrow> economic_gate c e"
  by (auto simp: economic_rule_def economic_gate_def Let_def split: option.split)

lemma blocks_regime: "blocks (regime_rule regimes r) \<longleftrightarrow> (\<exists>x. r = Some x \<and> \<not> rr_degraded x \<and> map_of regimes (rr_regime x) \<in> {None, Some ''blocked''})"
  by (auto simp: regime_rule_def Let_def split: option.split)

lemma blocks_dependency: "blocks (dependency_rule ds) \<longleftrightarrow> list_ex (\<lambda>x. dh_state x = Unavailable \<and> dh_criticality x = Critical) ds"
  by (simp add: dependency_rule_def Let_def)

lemma blocks_cooldown: "blocks (cooldown_rule c i) \<longleftrightarrow> (\<exists>h. dhi_recent_same_direction (di_history i) = Some h \<and> cd_enabled (dcf_cooldown c)
    \<and> elapsed_since i h < fint (cooldown_seconds (dcf_cooldown c) (Some (hr_state h))))"
  by (auto simp: cooldown_rule_def Let_def split: option.split)

lemma blocks_reversal: "label_direction c (ss_directional_label (di_ai_score i)) = Inr m
    \<Longrightarrow> blocks (reversal_rule c i (direction_for i m)) \<longleftrightarrow> reversal_locked c i"
  by (auto simp: reversal_rule_def reversal_locked_def decided_direction_def Let_def split: option.split)

lemma blocks_freshness: "freshness_window_of c (di_timeframe i) = Inr w \<Longrightarrow> blocks (fst (freshness_rule i w)) \<longleftrightarrow> outdated_score c i"
  by (auto simp: freshness_rule_def outdated_score_def Let_def)

lemma gate_specs:
  assumes "label_direction (pl_config p) (ss_directional_label (di_ai_score i)) = Inr m"
    and "freshness_window_of (pl_config p) (di_timeframe i) = Inr w"
  shows "list_ex blocks (rule_specs p i (direction_for i m) w) \<longleftrightarrow> hard_gate p i"
  unfolding rule_specs_def hard_gate_def Let_def
  by (simp add: blocks_integrity blocks_geometry blocks_risk blocks_quality blocks_conflict blocks_economic blocks_regime
      blocks_dependency blocks_cooldown blocks_reversal [OF assms(1)] blocks_freshness [OF assms(2)] disj_ac)

lemma hard_evaluated: "mapE (add_rule p i) ss = Inr es \<Longrightarrow> selected Failed Hard_Block es \<noteq> [] \<longleftrightarrow> list_ex blocks ss"
proof (induction ss arbitrary: es)
  case (Cons s ss)
  then obtain e fs where e: "add_rule p i s = Inr e" "mapE (add_rule p i) ss = Inr fs" "es = e # fs"
    by (auto simp: bindE_eq_Inr)
  then have "re_outcome e = rs_outcome s" "re_severity e = rs_severity s" by (auto simp: add_rule_def bindE_eq_Inr)
  then show ?case using Cons.IH [OF e(2)] e(3) by (auto simp: selected_def blocks_def)
qed (simp add: selected_def)

text \<open>Claim C3: exactly the gates block. A decision is blocked or invalid if and only if one of the hard gates is
  shut: the wrong policy; a score that is invalid, badly signed, of another mode or from the future; a primary scenario
  without executable geometry; a score that is stale by its status or its age; risk at the hard limit; unusable data; a
  severe conflict or conflicts whose penalties add up to the limit; an economic window (or no economic data, failing
  closed); an unknown or blocked regime; a critical dependency down; a running cooldown; the lock on a reversal.
  Whatever the rest of the input says, one shut gate leaves a blocker, and no price level is published.\<close>

theorem hard_gates_block:
  assumes "evaluate rt digest p i = Inr dec"
  shows "(sd_state dec \<in> {Blocked, Invalid} \<longleftrightarrow> hard_gate p i)
    \<and> (hard_gate p i \<longrightarrow> sd_blockers dec \<noteq> []
      \<and> \<not> dx_publication_eligible (sd_execution dec) \<and> dx_readiness (sd_execution dec) = Rejected
      \<and> dx_entry_low (sd_execution dec) = None \<and> dx_stop_loss (sd_execution dec) = None
      \<and> dx_take_profit_targets (sd_execution dec) = [])"
  using assms
proof (rule evaluate_InrD)
  fix mapped w es v
  let ?d = "direction_for i mapped"
  assume m: "label_direction (pl_config p) (ss_directional_label (di_ai_score i)) = Inr mapped"
    and w: "freshness_window_of (pl_config p) (di_timeframe i) = Inr w"
    and es: "mapE (add_rule p i) (rule_specs p i ?d w) = Inr es" "list_all eval_ok es"
    and dec: "dec = decision_values rt p (digest i (pl_configuration_hash p)) i ?d (snd (freshness_rule i w)) v es"
  have hard: "selected Failed Hard_Block es \<noteq> [] \<longleftrightarrow> hard_gate p i"
    using hard_evaluated [OF es(1)] gate_specs [OF m w] by simp
  have st: "sd_state dec = state_of (pl_config p) i es" by (simp add: dec decision_values_def Let_def)
  have x: "sd_execution dec = execution_values i ?d (sd_state dec) (actionable (pl_config p) i ?d (sd_state dec))"
    by (simp add: dec decision_values_def Let_def)
  have b: "sd_blockers dec = blockers_of i (insufficient_of i es) (es @ hold_warnings (pl_config p) i ?d es)"
    by (simp add: dec decision_values_def Let_def)
  have blocked: "sd_state dec \<in> {Blocked, Invalid} \<longleftrightarrow> hard_gate p i"
    using hard invalidating_hard [OF es] by (auto simp: st state_cases)
  moreover have "sd_blockers dec \<noteq> []" if "hard_gate p i"
    using hard that unfolding b no_blockers_iff [OF es(2)] by simp
  moreover have "\<not> dx_publication_eligible (sd_execution dec) \<and> dx_readiness (sd_execution dec) = Rejected
      \<and> dx_entry_low (sd_execution dec) = None \<and> dx_stop_loss (sd_execution dec) = None
      \<and> dx_take_profit_targets (sd_execution dec) = []" if "hard_gate p i"
    using blocked that unfolding x by (auto simp: execution_values_def Let_def actionable_def)
  ultimately show ?thesis by blast
qed

definition blocked_sample :: decision_input where
  "blocked_sample = sample_decision_input\<lparr>di_dependency_health :=
     [\<lparr>dh_name = ''ai_scoring'', dh_state = Unavailable, dh_criticality = Critical, dh_checked_at = 0,
       dh_reason_code = ''dependency_status''\<rparr>]\<rparr>"

lemma blocked_sample_ok: "decision_input_ok blocked_sample" "hard_gate sample_policy blocked_sample"
    "neutral_is_weak (pl_config sample_policy) blocked_sample"
  using sample_decision_input_ok sample_neutral_is_weak
  by (simp_all add: blocked_sample_def decision_input_ok_def hard_gate_def Let_def neutral_is_weak_def)

theorem hard_gates_block_witness:
  "\<exists>d. evaluate sample_runtime sample_digest sample_policy blocked_sample = Inr d \<and> sd_state d \<in> {Blocked, Invalid} \<and> sd_blockers d \<noteq> []"
proof -
  obtain d where d: "evaluate sample_runtime sample_digest sample_policy blocked_sample = Inr d"
    using evaluate_succeeds [OF blocked_sample_ok(1) sample_policy_ok(1-4) blocked_sample_ok(3)] by blast
  show ?thesis using hard_gates_block [OF d] blocked_sample_ok(2) d by blast
qed

subsection \<open>What a published signal guarantees\<close>

text \<open>Claim C2: a decision marked for publication is eligible, no rule failed or warned, its
  action is the BUY or SELL of a selected primary scenario that reaches its own minimum
  score, the direction agrees with that scenario, a validated AI analysis is present, the
  price levels are those of the scenario's executable geometry with at least the minimum
  risk/reward, and an invalidation text is given.\<close>

theorem publication_is_safe:
  assumes "decision_input_ok i" and "evaluate rt digest p i = Inr dec"
    and "dx_publication_eligible (sd_execution dec)"
  shows "sd_state dec = Eligible \<and> (\<forall>r \<in> set (sd_rules dec). re_outcome r \<notin> {Failed, Warned})
    \<and> (\<exists>a. di_analysis i = Some a \<and> an_validation_passed a \<and> an_output a \<noteq> None)
    \<and> (\<exists>s q g. di_primary_scenario i = Some s \<and> sl_status s = Selected \<and> sl_primary s = Some q \<and> ca_geometry q = Some g
        \<and> sl_minimum_score s \<le> ca_final_scenario_score q
        \<and> dx_final_action (sd_execution dec) = expected_action (ca_direction q)
        \<and> dx_final_action (sd_execution dec) \<noteq> HOLD
        \<and> sd_direction dec = (if ca_direction q = C_Bullish then Bull else Bear)
        \<and> geometry_ok g \<and> dcf_minimum_risk_reward (pl_config p) \<le> ge_risk_reward_ratio g
        \<and> dx_entry_low (sd_execution dec) = Some (pz_low (ge_entry_zone g))
        \<and> dx_entry_high (sd_execution dec) = Some (pz_high (ge_entry_zone g))
        \<and> dx_stop_loss (sd_execution dec) = Some (ge_stop_loss g)
        \<and> dx_risk_reward (sd_execution dec) = Some (ge_risk_reward_ratio g)
        \<and> hd (dx_take_profit_targets (sd_execution dec)) = ge_take_profit g)
    \<and> dx_invalidation (sd_execution dec) \<notin> {None, Some []}"
  using assms(2)
proof (rule evaluate_parts)
  fix mapped w es
  let ?c = "pl_config p" and ?d = "direction_for i mapped"
  assume es: "mapE (add_rule p i) (rule_specs p i ?d w) = Inr es" "list_all eval_ok es"
    and st: "sd_state dec = state_of ?c i es"
    and rules: "sd_rules dec = es @ hold_warnings ?c i ?d es"
    and dir: "sd_direction dec = ?d"
    and x: "sd_execution dec = execution_values i ?d (sd_state dec) (actionable ?c i ?d (sd_state dec))"
  have act: "actionable ?c i ?d (sd_state dec)"
    using assms(3) unfolding x by (simp add: execution_values_def Let_def)
  then obtain s q g where s: "di_primary_scenario i = Some s" "sl_primary s = Some q" "ca_geometry q = Some g"
    "sl_signal_eligible s" "dcf_minimum_risk_reward ?c \<le> ge_risk_reward_ratio g" "sl_authoritative_action s \<noteq> HOLD"
    and el: "sd_state dec = Eligible"
    by (rule actionable_geometry)
  have sel: "selection_ok s" using assms(1) s(1) by (simp add: input_selection_ok)
  have status: "sl_status s = Selected" "sl_authoritative_action s = expected_action (ca_direction q)"
    "sl_minimum_score s \<le> ca_final_scenario_score q" "geometry_ok g"
    using sel s by (auto simp: selection_ok_def candidate_ok_def split: if_splits)
  have d: "?d = (if ca_direction q = C_Bullish then Bull else Bear)"
    using s(1,6) status(2)
    by (auto simp: direction_for_def action_direction_def expected_action_def split: candidate_direction.splits)
  have outcomes: "\<forall>r \<in> set (sd_rules dec). re_outcome r \<notin> {Failed, Warned}"
  proof -
    have "with_outcome Failed es = []" "with_outcome Warned es = []" "hold_warnings ?c i ?d es = []"
      using el act failed_split [OF es(2)] warned_split [OF es(2)] unfolding st
      by (auto simp: state_cases insufficient_nil soft_of_def hold_warnings_def)
    then show ?thesis by (auto simp: rules with_outcome_def filter_empty_conv)
  qed
  have ana: "\<exists>a. di_analysis i = Some a \<and> an_validation_passed a \<and> an_output a \<noteq> None"
    using act by (auto simp: actionable_def analysis_valid_def valid_output_def split: option.splits if_splits)
  have inv: "dx_invalidation (sd_execution dec) \<notin> {None, Some []}"
    using execution_values_ok [of i ?d "sd_state dec" ?c] act s unfolding x [symmetric]
    by (auto simp: x execution_ok_def execution_values_def Let_def final_action_of_def)
  have vals: "dx_entry_low (sd_execution dec) = Some (pz_low (ge_entry_zone g))"
    "dx_entry_high (sd_execution dec) = Some (pz_high (ge_entry_zone g))"
    "dx_stop_loss (sd_execution dec) = Some (ge_stop_loss g)"
    "dx_risk_reward (sd_execution dec) = Some (ge_risk_reward_ratio g)"
    "hd (dx_take_profit_targets (sd_execution dec)) = ge_take_profit g"
    "dx_final_action (sd_execution dec) = sl_authoritative_action s"
    using act s unfolding x by (simp_all add: execution_values_def Let_def primary_of_def final_action_of_def)
  show ?thesis
    using el outcomes ana s status inv vals unfolding dir d [symmetric] by (auto simp: d)
qed

theorem publication_is_safe_witness:
  "\<exists>d :: signal_decision. sd_state d = Eligible \<and> dx_stop_loss (sd_execution d) = Some (fint 2300) \<and> sd_direction d = Bull"
proof -
  obtain d where d: "evaluate sample_runtime sample_digest sample_policy sample_decision_input = Inr d"
    "sd_state d = Eligible" "dx_publication_eligible (sd_execution d)"
    by (rule sample_decision)
  show ?thesis
    using publication_is_safe [OF sample_decision_input_ok d(1,3)] d(2)
    by (auto simp: sample_decision_input_def sample_selection_def sample_candidate_def sample_geometry_def)
qed

text \<open>The policy never originates a trade: the action is that of the primary scenario
  selection, or HOLD when there is none; a BUY is always bullish and a SELL always bearish,
  whatever the AI score or the AI signal say.\<close>

theorem action_follows_selection:
  assumes "evaluate rt digest p i = Inr dec"
  shows "dx_final_action (sd_execution dec) = (case di_primary_scenario i of None \<Rightarrow> HOLD
      | Some s \<Rightarrow> sl_authoritative_action s)
    \<and> (dx_final_action (sd_execution dec) = BUY \<longrightarrow> sd_direction dec = Bull)
    \<and> (dx_final_action (sd_execution dec) = SELL \<longrightarrow> sd_direction dec = Bear)
    \<and> (dx_final_action (sd_execution dec) = HOLD \<longrightarrow> \<not> dx_publication_eligible (sd_execution dec))"
  using assms
  by (rule evaluate_parts)
    (auto simp: execution_values_def Let_def final_action_of_def direction_for_def action_direction_def
      actionable_def split: option.splits)

theorem action_follows_selection_witness:
  "\<exists>d :: signal_decision. dx_final_action (sd_execution d) = BUY \<and> sd_direction d = Bull"
proof -
  obtain d where d: "evaluate sample_runtime sample_digest sample_policy sample_decision_input = Inr d"
    by (rule sample_decision)
  show ?thesis
    using action_follows_selection [OF d] by (auto simp: sample_decision_input_def sample_selection_def)
qed

subsection \<open>The cooldown\<close>

lemma total_seconds_mono: "a \<le> b \<Longrightarrow> total_seconds a \<le> total_seconds b"
  by (simp add: total_seconds_def int_truediv_def fl64_mono divide_right_mono)

lemma total_seconds_whole: "total_seconds (seconds_td n) = fint n"
  by (simp add: total_seconds_def seconds_td_def int_truediv_def fint_def)

text \<open>The cooldown ends. Against the same history it blocks at every instant before the
  configured number of seconds has passed since the last decision in the direction, and
  passes from that instant on.\<close>

theorem cooldown_window:
  assumes "dhi_recent_same_direction (di_history i) = Some h" and "cd_enabled (dcf_cooldown c)"
    and "cooldown_config_ok (dcf_cooldown c)"
  shows "(di_as_of i \<le> hr_decided_at h + seconds_td (cooldown_seconds (dcf_cooldown c) (Some (hr_state h)) - 1)
        \<longrightarrow> rs_outcome (cooldown_rule c i) = Failed \<and> rs_severity (cooldown_rule c i) = Hard_Block)
    \<and> (hr_decided_at h + seconds_td (cooldown_seconds (dcf_cooldown c) (Some (hr_state h))) \<le> di_as_of i
        \<longrightarrow> rs_outcome (cooldown_rule c i) = Passed)"
proof -
  let ?n = "cooldown_seconds (dcf_cooldown c) (Some (hr_state h))"
  have n: "0 \<le> ?n" "?n \<le> 604800"
    using assms(3) by (auto simp: cooldown_config_ok_def week_seconds_ok_def cooldown_seconds_def)
  have 1: "elapsed_since i h < fint ?n" if "di_as_of i \<le> hr_decided_at h + seconds_td (?n - 1)"
  proof -
    have "elapsed_since i h \<le> fint (?n - 1)"
      using that unfolding elapsed_since_def total_seconds_whole [symmetric] by (intro total_seconds_mono) simp
    also have "\<dots> < fint ?n" using n by (simp add: fint_less_iff)
    finally show ?thesis .
  qed
  have 2: "fint ?n \<le> elapsed_since i h" if "hr_decided_at h + seconds_td ?n \<le> di_as_of i"
    using that unfolding elapsed_since_def total_seconds_whole [symmetric] by (intro total_seconds_mono) simp
  show ?thesis
    using 1 2 assms(1,2) by (auto simp: cooldown_rule_def Let_def rspec_def)
qed

theorem cooldown_window_witness:
  "rs_outcome (cooldown_rule default_decision_config (sample_decision_input\<lparr>di_history :=
     \<lparr>dhi_latest = None, dhi_active = None, dhi_recent_same_direction = Some \<lparr>hr_decision_id = ''d'', hr_direction = Bull,
        hr_state = Eligible, hr_decided_at = 0, hr_valid_until = 1, hr_directional_strength = 0, hr_confidence_score = 0\<rparr>,
      dhi_recent_opposite_eligible = None\<rparr>\<rparr>)) = Failed"
proof -
  let ?h = "\<lparr>hr_decision_id = ''d'', hr_direction = Bull, hr_state = Eligible, hr_decided_at = 0, hr_valid_until = 1,
    hr_directional_strength = 0, hr_confidence_score = 0\<rparr> :: history_reference"
  let ?i = "sample_decision_input\<lparr>di_history := \<lparr>dhi_latest = None, dhi_active = None,
    dhi_recent_same_direction = Some ?h, dhi_recent_opposite_eligible = None\<rparr>\<rparr>"
  have "cd_enabled (dcf_cooldown default_decision_config)" "cooldown_config_ok (dcf_cooldown default_decision_config)"
    using default_decision_config_ok by (simp_all add: decision_config_ok_def default_decision_config_def)
  then show ?thesis
    using cooldown_window [of ?i ?h default_decision_config]
    by (simp add: sample_decision_input_def seconds_td_def cooldown_seconds_def default_decision_config_def)
qed

subsection \<open>The invalidation text\<close>

text \<open>As written, \<open>invalidation or conditions[0] if ... else ...\<close> drops the scenario's own
  invalidation text whenever the AI analysis lists no invalidation condition: the published
  text is then the generic sentence about the stop loss.\<close>

theorem scenario_invalidation_dropped:
  assumes "di_analysis i = Some a" and "an_output a = Some x" and "ao_invalidation_conditions x = []"
  shows "invalidation_text i q stop = stop_invalidation (final_action_of i) stop
    \<and> invalidation_text (i\<lparr>di_analysis := Some (a\<lparr>an_output := Some (x\<lparr>ao_invalidation_conditions := [cond]\<rparr>)\<rparr>)\<rparr>) q stop
        = scenario_invalidation q"
  using assms by (simp add: invalidation_text_def scenario_invalidation_def)

theorem scenario_invalidation_dropped_witness:
  "invalidation_text sample_decision_input (sample_candidate ''p'') (fint 2300)
     = ''Price closes below structural invalidation 2300.00000''"
proof -
  have "stop_invalidation (final_action_of sample_decision_input) (fint 2300)
      = ''Price closes below structural invalidation 2300.00000''"
    by code_simp
  then show ?thesis
    using scenario_invalidation_dropped [of sample_decision_input] by (simp add: sample_decision_input_def)
qed

end
