(* ===== verification/Signal_Decision_Repository.thy ===== *)
theory Signal_Decision_Repository
  imports Signal_Decision
begin

text \<open>
  \<open>InMemorySignalDecisionRepository\<close> (\<open>signal_decision_engine/repository.py\<close>): two dicts under
  one lock, the decisions by identifier and the identifiers by fingerprint and mode. Each
  method holds the lock for its whole body, so a method is one step. The locale
  \<open>decision_store\<close> is what the service relies on.
\<close>

record repository =
  rp_decisions :: "(uuid \<times> signal_decision) list"
  rp_fingerprints :: "((string \<times> decision_mode) \<times> uuid) list"

definition empty_repository :: repository where
  "empty_repository = \<lparr>rp_decisions = [], rp_fingerprints = []\<rparr>"

definition decision_fp :: "signal_decision \<Rightarrow> string \<times> decision_mode" where
  "decision_fp d = (sd_input_fingerprint d, sd_mode d)"

text \<open>\<open>self._decisions[existing]\<close> would raise on a dangling identifier: \<open>the\<close> is used only where
  the invariant below excludes it.\<close>

definition save_decision :: "repository \<Rightarrow> signal_decision \<Rightarrow> repository \<times> signal_decision" where
  "save_decision r d = (case map_of (rp_fingerprints r) (decision_fp d) of
     Some k \<Rightarrow> (r, the (map_of (rp_decisions r) k))
   | None \<Rightarrow> (\<lparr>rp_decisions = AList.update (sd_decision_id d) d (rp_decisions r),
               rp_fingerprints = AList.update (decision_fp d) (sd_decision_id d) (rp_fingerprints r)\<rparr>, d))"

definition get_decision :: "repository \<Rightarrow> uuid \<Rightarrow> signal_decision option" where
  "get_decision r k = map_of (rp_decisions r) k"

definition find_by_fingerprint :: "repository \<Rightarrow> string \<Rightarrow> decision_mode \<Rightarrow> signal_decision option" where
  "find_by_fingerprint r f m = Option.bind (map_of (rp_fingerprints r) (f, m)) (get_decision r)"

definition opt_eq :: "'a option \<Rightarrow> 'a \<Rightarrow> bool" where
  "opt_eq x v = (case x of None \<Rightarrow> True | Some y \<Rightarrow> v = y)"

record decision_filter =
  fl_start :: "instant option"
  fl_end :: "instant option"
  fl_direction :: "decision_direction option"
  fl_state :: "decision_state option"
  fl_policy_version :: "string option"
  fl_score_policy_version :: "string option"
  fl_mode :: "decision_mode option"

definition no_filter :: decision_filter where
  "no_filter = \<lparr>fl_start = None, fl_end = None, fl_direction = None, fl_state = None,
     fl_policy_version = None, fl_score_policy_version = None, fl_mode = None\<rparr>"

definition matches_filter :: "string \<Rightarrow> timeframe \<Rightarrow> decision_filter \<Rightarrow> signal_decision \<Rightarrow> bool" where
  "matches_filter instrument tf f d \<longleftrightarrow> sd_instrument d = instrument \<and> sd_timeframe d = tf
     \<and> opt_all (\<lambda>t. t \<le> sd_as_of d) (fl_start f) \<and> opt_all (\<lambda>t. sd_as_of d \<le> t) (fl_end f)
     \<and> opt_eq (fl_direction f) (sd_direction d) \<and> opt_eq (fl_state f) (sd_state d)
     \<and> opt_eq (fl_policy_version f) (sd_decision_policy_version d)
     \<and> opt_eq (fl_score_policy_version f) (sd_ai_score_policy_version d) \<and> opt_eq (fl_mode f) (sd_mode d)"

definition recency :: "signal_decision \<Rightarrow> instant \<times> uuid" where
  "recency d = (sd_as_of d, sd_decision_id d)"

definition list_decisions :: "repository \<Rightarrow> string \<Rightarrow> timeframe \<Rightarrow> decision_filter \<Rightarrow> nat \<Rightarrow> nat \<Rightarrow> signal_decision list" where
  "list_decisions r instrument tf f offset limit =
     take limit (drop offset (sort_desc recency (filter (matches_filter instrument tf f) (map snd (rp_decisions r)))))"

definition find_recent_decisions :: "repository \<Rightarrow> string \<Rightarrow> timeframe \<Rightarrow> instant \<Rightarrow> nat \<Rightarrow> signal_decision list" where
  "find_recent_decisions r instrument tf now limit =
     list_decisions r instrument tf (no_filter\<lparr>fl_end := Some now\<rparr>) 0 limit"

definition in_force :: "instant \<Rightarrow> signal_decision \<Rightarrow> bool" where
  "in_force now d \<longleftrightarrow> sd_valid_from d \<le> now \<and> now < sd_valid_until d"

definition get_active_decision :: "repository \<Rightarrow> string \<Rightarrow> timeframe \<Rightarrow> instant \<Rightarrow> decision_direction option
    \<Rightarrow> decision_state option \<Rightarrow> signal_decision option" where
  "get_active_decision r instrument tf now dir st =
     find (in_force now) (list_decisions r instrument tf
       (no_filter\<lparr>fl_end := Some now, fl_direction := dir, fl_state := st\<rparr>) 0 100)"

definition get_latest_decision :: "repository \<Rightarrow> string \<Rightarrow> timeframe \<Rightarrow> decision_direction option
    \<Rightarrow> decision_state option \<Rightarrow> signal_decision option" where
  "get_latest_decision r instrument tf dir st =
     (case list_decisions r instrument tf (no_filter\<lparr>fl_direction := dir, fl_state := st\<rparr>) 0 1 of
        [] \<Rightarrow> None | d # _ \<Rightarrow> Some d)"

text \<open>\<open>max(matches, key=...)\<close> keeps the first of the greatest.\<close>

fun max_on :: "('a \<Rightarrow> 'k::linorder) \<Rightarrow> 'a list \<Rightarrow> 'a option" where
  "max_on f [] = None"
| "max_on f (x # xs) = (case max_on f xs of None \<Rightarrow> Some x | Some y \<Rightarrow> if f x < f y then Some y else Some x)"

definition find_by_analysis_lineage :: "repository \<Rightarrow> string \<Rightarrow> timeframe \<Rightarrow> uuid \<Rightarrow> uuid \<Rightarrow> uuid \<Rightarrow> signal_decision option" where
  "find_by_analysis_lineage r instrument tf snapshot analysis signal =
     max_on (\<lambda>d. (sd_decided_at d, sd_decision_id d))
       (filter (\<lambda>d. sd_instrument d = instrument \<and> sd_timeframe d = tf
          \<and> li_market_snapshot_id (sd_source_lineage d) = Some snapshot
          \<and> li_current_ai_analysis_id (sd_source_lineage d) = Some analysis
          \<and> li_current_ai_signal_id (sd_source_lineage d) = Some signal)
        (map snd (rp_decisions r)))"

definition remove_decision :: "signal_decision \<Rightarrow> repository \<Rightarrow> repository" where
  "remove_decision d r = \<lparr>rp_decisions = AList.delete (sd_decision_id d) (rp_decisions r),
     rp_fingerprints = AList.delete (decision_fp d) (rp_fingerprints r)\<rparr>"

definition prunable :: "repository \<Rightarrow> instant \<Rightarrow> decision_mode \<Rightarrow> nat \<Rightarrow> signal_decision list" where
  "prunable r before m limit = take limit (sort_key sd_valid_until
     (filter (\<lambda>d. sd_mode d = m \<and> sd_valid_until d < before) (map snd (rp_decisions r))))"

definition prune :: "repository \<Rightarrow> instant \<Rightarrow> decision_mode \<Rightarrow> nat \<Rightarrow> repository \<times> nat" where
  "prune r before m limit =
     (let expired = prunable r before m limit in (fold remove_decision expired r, length expired))"

subsection \<open>The invariant\<close>

text \<open>Identifiers are a digest of fingerprint and mode (\<open>stable_id("decision", ...)\<close>): \<open>idf\<close> is that
  digest, taken to be free of collisions.\<close>

definition repository_ok :: "(string \<times> decision_mode \<Rightarrow> uuid) \<Rightarrow> repository \<Rightarrow> bool" where
  "repository_ok idf r \<longleftrightarrow> distinct (map fst (rp_decisions r)) \<and> distinct (map fst (rp_fingerprints r))
     \<and> (\<forall>k d. map_of (rp_decisions r) k = Some d \<longrightarrow> sd_decision_id d = k \<and> k = idf (decision_fp d)
          \<and> map_of (rp_fingerprints r) (decision_fp d) = Some k)
     \<and> (\<forall>f k. map_of (rp_fingerprints r) f = Some k \<longrightarrow>
          (\<exists>d. map_of (rp_decisions r) k = Some d \<and> decision_fp d = f))"

lemma empty_repository_ok: "repository_ok idf empty_repository"
  by (simp add: repository_ok_def empty_repository_def)

lemma stored:
  assumes "repository_ok idf r" "map_of (rp_decisions r) k = Some d"
  shows "sd_decision_id d = k" "k = idf (decision_fp d)" "map_of (rp_fingerprints r) (decision_fp d) = Some k"
proof -
  have "\<forall>k d. map_of (rp_decisions r) k = Some d \<longrightarrow> sd_decision_id d = k \<and> k = idf (decision_fp d)
          \<and> map_of (rp_fingerprints r) (decision_fp d) = Some k"
    using assms(1) unfolding repository_ok_def by blast
  then show "sd_decision_id d = k" "k = idf (decision_fp d)" "map_of (rp_fingerprints r) (decision_fp d) = Some k"
    using assms(2) by blast+
qed

lemma indexed:
  assumes "repository_ok idf r" "map_of (rp_fingerprints r) f = Some k"
  obtains d where "map_of (rp_decisions r) k = Some d" "decision_fp d = f" "k = idf f"
proof -
  have "\<forall>f k. map_of (rp_fingerprints r) f = Some k \<longrightarrow>
          (\<exists>d. map_of (rp_decisions r) k = Some d \<and> decision_fp d = f)"
    using assms(1) unfolding repository_ok_def by blast
  then show ?thesis using assms(2) stored(2) [OF assms(1)] that by blast
qed

lemma repository_okI:
  assumes "distinct (map fst (rp_decisions r))" "distinct (map fst (rp_fingerprints r))"
    and "\<And>k d. map_of (rp_decisions r) k = Some d \<Longrightarrow> sd_decision_id d = k \<and> k = idf (decision_fp d)
          \<and> map_of (rp_fingerprints r) (decision_fp d) = Some k"
    and "\<And>f k. map_of (rp_fingerprints r) f = Some k \<Longrightarrow> \<exists>d. map_of (rp_decisions r) k = Some d \<and> decision_fp d = f"
  shows "repository_ok idf r"
  using assms unfolding repository_ok_def by blast

lemma repository_distinct:
  "repository_ok idf r \<Longrightarrow> distinct (map fst (rp_decisions r)) \<and> distinct (map fst (rp_fingerprints r))"
  unfolding repository_ok_def by blast

lemma find_iff_stored:
  assumes "repository_ok idf r"
  shows "find_by_fingerprint r f m = Some d \<longleftrightarrow> map_of (rp_decisions r) (idf (f, m)) = Some d \<and> decision_fp d = (f, m)"
proof
  assume "find_by_fingerprint r f m = Some d"
  then obtain k where k: "map_of (rp_fingerprints r) (f, m) = Some k" "map_of (rp_decisions r) k = Some d"
    by (auto simp: find_by_fingerprint_def get_decision_def bind_eq_Some_conv)
  show "map_of (rp_decisions r) (idf (f, m)) = Some d \<and> decision_fp d = (f, m)"
    by (rule indexed [OF assms k(1)]) (use k(2) in simp)
next
  assume d: "map_of (rp_decisions r) (idf (f, m)) = Some d \<and> decision_fp d = (f, m)"
  then show "find_by_fingerprint r f m = Some d"
    using stored(3) [OF assms, of "idf (f, m)" d] by (simp add: find_by_fingerprint_def get_decision_def)
qed

lemma find_none_iff:
  assumes "repository_ok idf r"
  shows "find_by_fingerprint r f m = None \<longleftrightarrow> map_of (rp_fingerprints r) (f, m) = None"
proof (cases "map_of (rp_fingerprints r) (f, m)")
  case (Some k)
  show ?thesis by (rule indexed [OF assms Some]) (simp add: find_by_fingerprint_def get_decision_def Some)
qed (simp add: find_by_fingerprint_def)

lemma save_existing:
  assumes "find_by_fingerprint r (sd_input_fingerprint d) (sd_mode d) = Some e"
  shows "save_decision r d = (r, e)"
  using assms
  by (auto simp: save_decision_def find_by_fingerprint_def get_decision_def decision_fp_def bind_eq_Some_conv)

lemma save_new:
  assumes ok: "repository_ok idf r" and idf: "inj idf" and d: "sd_decision_id d = idf (decision_fp d)"
    and new: "find_by_fingerprint r (sd_input_fingerprint d) (sd_mode d) = None"
  shows "snd (save_decision r d) = d" "repository_ok idf (fst (save_decision r d))"
    "find_by_fingerprint (fst (save_decision r d)) (sd_input_fingerprint d) (sd_mode d) = Some d"
proof -
  have n: "map_of (rp_fingerprints r) (decision_fp d) = None"
    using find_none_iff [OF ok] new by (simp add: decision_fp_def)
  have other: "k \<noteq> sd_decision_id d" "decision_fp e \<noteq> decision_fp d" if "map_of (rp_decisions r) k = Some e" for k e
    using stored [OF ok that] n d inj_eq [OF idf] by (metis option.distinct(1))+
  show "snd (save_decision r d) = d" using n by (simp add: save_decision_def)
  show "find_by_fingerprint (fst (save_decision r d)) (sd_input_fingerprint d) (sd_mode d) = Some d"
    using n by (simp add: save_decision_def find_by_fingerprint_def get_decision_def update_conv' decision_fp_def)
  show "repository_ok idf (fst (save_decision r d))"
  proof (rule repository_okI)
    fix k e assume "map_of (rp_decisions (fst (save_decision r d))) k = Some e"
    then have "e = d \<and> k = sd_decision_id d \<or> map_of (rp_decisions r) k = Some e"
      using n by (auto simp: save_decision_def update_conv' split: if_splits)
    then show "sd_decision_id e = k \<and> k = idf (decision_fp e)
        \<and> map_of (rp_fingerprints (fst (save_decision r d))) (decision_fp e) = Some k"
      using stored [OF ok, of k e] other [of k e] n d by (auto simp: save_decision_def update_conv')
  next
    fix f k assume "map_of (rp_fingerprints (fst (save_decision r d))) f = Some k"
    then have "f = decision_fp d \<and> k = sd_decision_id d \<or> map_of (rp_fingerprints r) f = Some k"
      using n by (auto simp: save_decision_def update_conv' split: if_splits)
    then show "\<exists>e. map_of (rp_decisions (fst (save_decision r d))) k = Some e \<and> decision_fp e = f"
    proof
      assume "map_of (rp_fingerprints r) f = Some k"
      from indexed [OF ok this] show ?thesis
        using other n by (metis (no_types, lifting) save_decision_def fst_conv fun_upd_other option.simps(4)
            repository.select_convs(1) update_conv')
    qed (use n in \<open>simp add: save_decision_def update_conv'\<close>)
  qed (use repository_distinct [OF ok] n in \<open>simp_all add: save_decision_def distinct_update\<close>)
qed

lemma remove_ok:
  assumes ok: "repository_ok idf r"
    and d: "map_of (rp_decisions r) (sd_decision_id d) = Some d \<or> map_of (rp_decisions r) (sd_decision_id d) = None
      \<and> map_of (rp_fingerprints r) (decision_fp d) = None"
  shows "repository_ok idf (remove_decision d r)"
proof (rule repository_okI)
  fix k e assume "map_of (rp_decisions (remove_decision d r)) k = Some e"
  then have e: "k \<noteq> sd_decision_id d" "map_of (rp_decisions r) k = Some e"
    by (auto simp: remove_decision_def delete_conv' split: if_splits)
  have "decision_fp e \<noteq> decision_fp d"
    using stored [OF ok e(2)] stored [OF ok, of "sd_decision_id d" d] d e by auto
  then show "sd_decision_id e = k \<and> k = idf (decision_fp e)
      \<and> map_of (rp_fingerprints (remove_decision d r)) (decision_fp e) = Some k"
    using stored [OF ok e(2)] by (simp add: remove_decision_def delete_conv')
next
  fix f k assume "map_of (rp_fingerprints (remove_decision d r)) f = Some k"
  then have f: "f \<noteq> decision_fp d" "map_of (rp_fingerprints r) f = Some k"
    by (auto simp: remove_decision_def delete_conv' split: if_splits)
  from indexed [OF ok f(2)] obtain e where e: "map_of (rp_decisions r) k = Some e" "decision_fp e = f" by metis
  have "k \<noteq> sd_decision_id d" using e f(1) d by auto
  then show "\<exists>e. map_of (rp_decisions (remove_decision d r)) k = Some e \<and> decision_fp e = f"
    using e by (simp add: remove_decision_def delete_conv')
qed (use repository_distinct [OF ok] in \<open>simp_all add: remove_decision_def distinct_delete\<close>)

lemma save_keeps:
  assumes ok: "repository_ok idf r" and idf: "inj idf" and d: "sd_decision_id d = idf (decision_fp d)"
    and e: "find_by_fingerprint r f m = Some e"
  shows "find_by_fingerprint (fst (save_decision r d)) f m = Some e"
proof (cases "find_by_fingerprint r (sd_input_fingerprint d) (sd_mode d)")
  case None
  then have n: "map_of (rp_fingerprints r) (decision_fp d) = None"
    using find_none_iff [OF ok] by (simp add: decision_fp_def)
  have s: "map_of (rp_decisions r) (idf (f, m)) = Some e" "decision_fp e = (f, m)"
    using e find_iff_stored [OF ok] by auto
  have "(f, m) \<noteq> decision_fp d" using stored(3) [OF ok s(1)] s(2) n by auto
  then have "idf (f, m) \<noteq> sd_decision_id d" using d inj_eq [OF idf] by auto
  then have "map_of (rp_decisions (fst (save_decision r d))) (idf (f, m)) = Some e"
    using s(1) n by (simp add: save_decision_def update_conv')
  then show ?thesis
    using find_iff_stored [OF save_new(2) [OF ok idf d None]] s(2) by blast
next
  case (Some x)
  then show ?thesis using save_existing [OF Some] e by simp
qed

subsection \<open>The contract the service relies on\<close>

locale decision_store =
  fixes ok :: "'r \<Rightarrow> bool"
    and legit :: "'d \<Rightarrow> bool"
    and key :: "'d \<Rightarrow> 'k"
    and find :: "'r \<Rightarrow> 'k \<Rightarrow> 'd option"
    and save :: "'r \<Rightarrow> 'd \<Rightarrow> 'r \<times> 'd"
  assumes save_found: "find r (key d) = Some e \<Longrightarrow> save r d = (r, e)"
    and save_fresh: "ok r \<Longrightarrow> legit d \<Longrightarrow> find r (key d) = None \<Longrightarrow>
      ok (fst (save r d)) \<and> snd (save r d) = d \<and> find (fst (save r d)) (key d) = Some d"
    and save_stable: "ok r \<Longrightarrow> legit d \<Longrightarrow> find r k = Some e \<Longrightarrow> find (fst (save r d)) k = Some e"
    and find_key: "ok r \<Longrightarrow> find r k = Some e \<Longrightarrow> key e = k"
begin

lemma save_ok: "ok r \<Longrightarrow> legit d \<Longrightarrow> ok (fst (save r d))"
  by (cases "find r (key d)") (simp_all add: save_fresh save_found)

lemma save_returns_stored: "ok r \<Longrightarrow> legit d \<Longrightarrow> find (fst (save r d)) (key d) = Some (snd (save r d))"
  by (cases "find r (key d)") (simp_all add: save_fresh save_found)

lemma save_idempotent: "ok r \<Longrightarrow> legit d \<Longrightarrow> save (fst (save r d)) d = save r d"
  using save_found [OF save_returns_stored, of r d] by simp

primrec save_all :: "'r \<Rightarrow> 'd list \<Rightarrow> 'r" where
  "save_all r [] = r"
| "save_all r (d # ds) = save_all (fst (save r d)) ds"

lemma save_all_ok: "ok r \<Longrightarrow> list_all legit ds \<Longrightarrow> ok (save_all r ds)"
  by (induction ds arbitrary: r) (simp_all add: save_ok)

lemma save_all_stable: "ok r \<Longrightarrow> list_all legit ds \<Longrightarrow> find r k = Some e \<Longrightarrow> find (save_all r ds) k = Some e"
  by (induction ds arbitrary: r) (simp_all add: save_ok save_stable)

text \<open>Whatever is saved later, the first decision under a key is the one every save returns.\<close>

lemma first_write_wins:
  assumes "ok r" "legit d" "list_all legit ds" "legit d'" "key d' = key d"
  shows "snd (save (save_all (fst (save r d)) ds) d') = snd (save r d)"
proof -
  have "find (save_all (fst (save r d)) ds) (key d') = Some (snd (save r d))"
    using assms by (simp add: save_all_stable save_ok save_returns_stored)
  then show ?thesis by (simp add: save_found)
qed

end

definition legitimate :: "(string \<times> decision_mode \<Rightarrow> uuid) \<Rightarrow> signal_decision \<Rightarrow> bool" where
  "legitimate idf d \<longleftrightarrow> inj idf \<and> sd_decision_id d = idf (decision_fp d)"

interpretation decision_repo: decision_store "repository_ok idf" "legitimate idf" decision_fp
    "\<lambda>r k. find_by_fingerprint r (fst k) (snd k)" save_decision for idf
proof unfold_locales
  fix r and d e :: signal_decision
  assume "find_by_fingerprint r (fst (decision_fp d)) (snd (decision_fp d)) = Some e"
  then show "save_decision r d = (r, e)"
    by (intro save_existing) (simp add: decision_fp_def)
next
  fix r and d :: signal_decision
  assume "repository_ok idf r" "legitimate idf d" "find_by_fingerprint r (fst (decision_fp d)) (snd (decision_fp d)) = None"
  then show "repository_ok idf (fst (save_decision r d)) \<and> snd (save_decision r d) = d \<and>
      find_by_fingerprint (fst (save_decision r d)) (fst (decision_fp d)) (snd (decision_fp d)) = Some d"
    using save_new [of idf r d] by (simp add: legitimate_def decision_fp_def)
next
  fix r and d e :: signal_decision and k
  assume "repository_ok idf r" "legitimate idf d" "find_by_fingerprint r (fst k) (snd k) = Some e"
  then show "find_by_fingerprint (fst (save_decision r d)) (fst k) (snd k) = Some e"
    using save_keeps [of idf r d] by (simp add: legitimate_def)
next
  fix r and e :: signal_decision and k
  assume "repository_ok idf r" "find_by_fingerprint r (fst k) (snd k) = Some e"
  then show "decision_fp e = k" using find_iff_stored [of idf r "fst k" "snd k" e] by simp
qed

subsection \<open>Pruning and listing\<close>

lemma fold_remove:
  assumes "repository_ok idf r" "\<forall>d \<in> set ds. map_of (rp_decisions r) (sd_decision_id d) = Some d"
    and "distinct (map sd_decision_id ds)"
  shows "repository_ok idf (fold remove_decision ds r)
    \<and> map_of (rp_decisions (fold remove_decision ds r)) k =
        (if k \<in> sd_decision_id ` set ds then None else map_of (rp_decisions r) k)"
  using assms
proof (induction ds arbitrary: r)
  case (Cons d ds)
  have "repository_ok idf (remove_decision d r)" using Cons.prems by (intro remove_ok) auto
  moreover have "\<forall>e \<in> set ds. map_of (rp_decisions (remove_decision d r)) (sd_decision_id e) = Some e"
  proof
    fix e assume e: "e \<in> set ds"
    then have "sd_decision_id e \<noteq> sd_decision_id d"
      using Cons.prems(3) by (metis distinct.simps(2) image_eqI list.map(2) set_map)
    then show "map_of (rp_decisions (remove_decision d r)) (sd_decision_id e) = Some e"
      using Cons.prems(2) e by (simp add: remove_decision_def delete_conv')
  qed
  ultimately show ?case
    using Cons.IH [of "remove_decision d r"] Cons.prems(3) by (simp add: remove_decision_def delete_conv')
qed simp

lemma decisions_distinct:
  assumes "repository_ok idf r"
  shows "distinct (map sd_decision_id (map snd (rp_decisions r)))"
    "d \<in> set (map snd (rp_decisions r)) \<Longrightarrow> map_of (rp_decisions r) (sd_decision_id d) = Some d"
proof -
  have id: "sd_decision_id (snd p) = fst p \<and> map_of (rp_decisions r) (fst p) = Some (snd p)"
    if "p \<in> set (rp_decisions r)" for p
    using that repository_distinct [OF assms] stored(1) [OF assms, of "fst p" "snd p"] by simp
  then have "map sd_decision_id (map snd (rp_decisions r)) = map fst (rp_decisions r)"
    by simp
  then show "distinct (map sd_decision_id (map snd (rp_decisions r)))"
    using repository_distinct [OF assms] by (simp only:)
  show "d \<in> set (map snd (rp_decisions r)) \<Longrightarrow> map_of (rp_decisions r) (sd_decision_id d) = Some d"
    using id by auto
qed

lemma distinct_map_sort_key: "distinct (map f (sort_key g xs)) \<longleftrightarrow> distinct (map f xs)"
  by (simp add: distinct_map)

lemma prunable_distinct:
  assumes "repository_ok idf r"
  shows "distinct (map sd_decision_id (prunable r before m limit))"
    "set (prunable r before m limit) \<subseteq> set (map snd (rp_decisions r))"
proof -
  have "distinct (map sd_decision_id (filter P (map snd (rp_decisions r))))" for P
    by (rule distinct_map_filter [OF decisions_distinct(1) [OF assms]])
  then show "distinct (map sd_decision_id (prunable r before m limit))"
    unfolding prunable_def take_map [symmetric] by (intro distinct_take) (simp only: distinct_map_sort_key)
  show "set (prunable r before m limit) \<subseteq> set (map snd (rp_decisions r))"
    by (auto simp: prunable_def dest!: in_set_takeD)
qed

text \<open>What pruning removes and keeps.\<close>

lemma prune_effect:
  assumes "repository_ok idf r" and "prune r before m limit = (r', n)"
  shows "repository_ok idf r' \<and> n \<le> limit
    \<and> (\<forall>k d. map_of (rp_decisions r) k = Some d \<and> \<not> (sd_mode d = m \<and> sd_valid_until d < before)
          \<longrightarrow> map_of (rp_decisions r') k = Some d)
    \<and> (\<forall>k d. map_of (rp_decisions r') k = Some d \<longrightarrow> map_of (rp_decisions r) k = Some d)
    \<and> card (dom (map_of (rp_decisions r)) - dom (map_of (rp_decisions r'))) = n"
proof -
  let ?ds = "prunable r before m limit"
  have r': "r' = fold remove_decision ?ds r" "n = length ?ds"
    using assms(2) by (simp_all add: prune_def Let_def)
  have mem: "\<forall>d \<in> set ?ds. map_of (rp_decisions r) (sd_decision_id d) = Some d"
    using prunable_distinct(2) [OF assms(1)] decisions_distinct(2) [OF assms(1)] by blast
  note f = fold_remove [OF assms(1) mem prunable_distinct(1) [OF assms(1)], folded r'(1)]
  have sel: "\<forall>d \<in> set ?ds. sd_mode d = m \<and> sd_valid_until d < before"
    by (auto simp: prunable_def dest!: in_set_takeD)
  have keep: "map_of (rp_decisions r') k = Some d"
    if "map_of (rp_decisions r) k = Some d" "\<not> (sd_mode d = m \<and> sd_valid_until d < before)" for k d
  proof -
    have "k \<notin> sd_decision_id ` set ?ds" using that mem sel by auto
    then show ?thesis using f that(1) by simp
  qed
  have "dom (map_of (rp_decisions r)) - dom (map_of (rp_decisions r')) = sd_decision_id ` set ?ds"
    using f mem by (auto simp: domIff split: if_splits)
  also have "card \<dots> = n"
    using distinct_card [OF prunable_distinct(1) [OF assms(1)]] r'(2) by simp
  finally have c: "card (dom (map_of (rp_decisions r)) - dom (map_of (rp_decisions r'))) = n" .
  have "n \<le> limit" by (simp add: r' prunable_def)
  then show ?thesis using f keep c by (auto split: if_splits)
qed

text \<open>Claim C30: pruning keeps the two dicts consistent, removes at most \<open>limit\<close> decisions, only
  decisions of the given mode whose validity ended before the cutoff, and leaves every other
  decision where it was; the number it reports is the number it removed.\<close>

theorem prune_spec:
  assumes "repository_ok idf r" and "prune r before m limit = (r', n)"
  shows "repository_ok idf r' \<and> n \<le> limit
    \<and> (\<forall>k d. map_of (rp_decisions r) k = Some d \<and> \<not> (sd_mode d = m \<and> sd_valid_until d < before)
          \<longrightarrow> map_of (rp_decisions r') k = Some d)
    \<and> (\<forall>k d. map_of (rp_decisions r') k = Some d \<longrightarrow> map_of (rp_decisions r) k = Some d)
    \<and> card (dom (map_of (rp_decisions r)) - dom (map_of (rp_decisions r'))) = n"
  using assms by (rule prune_effect)

text \<open>\<open>find_recent_decisions\<close> looks only at the past of the boundary: its answers are
  stored decisions of the instrument and timeframe dated at or before it, newest first, at
  most \<open>limit\<close>; a decision left out is no newer than any returned one, and is left out only when
  the limit is reached.\<close>

theorem find_recent_spec:
  assumes "ds = find_recent_decisions r instrument tf now limit"
  shows "length ds \<le> limit \<and> sorted_wrt (\<lambda>x y. recency y \<le> recency x) ds
    \<and> (\<forall>d \<in> set ds. d \<in> snd ` set (rp_decisions r) \<and> sd_instrument d = instrument \<and> sd_timeframe d = tf
          \<and> sd_as_of d \<le> now)
    \<and> (\<forall>d \<in> snd ` set (rp_decisions r). sd_instrument d = instrument \<and> sd_timeframe d = tf \<and> sd_as_of d \<le> now
          \<and> d \<notin> set ds \<longrightarrow> length ds = limit \<and> (\<forall>e \<in> set ds. recency d \<le> recency e))"
proof -
  let ?P = "matches_filter instrument tf (no_filter\<lparr>fl_end := Some now\<rparr>)"
  let ?all = "sort_desc recency (filter ?P (map snd (rp_decisions r)))"
  have ds: "ds = take limit ?all"
    by (simp add: assms find_recent_decisions_def list_decisions_def)
  have P: "?P d \<longleftrightarrow> sd_instrument d = instrument \<and> sd_timeframe d = tf \<and> sd_as_of d \<le> now" for d
    by (simp add: matches_filter_def no_filter_def opt_eq_def)
  have sorted: "sorted_wrt (\<lambda>x y. recency y \<le> recency x) (take limit ?all @ drop limit ?all)"
    by (simp add: sort_desc_sorted)
  have out: "length ds = limit \<and> (\<forall>e \<in> set ds. recency d \<le> recency e)"
    if "d \<in> set ?all" "d \<notin> set ds" for d
  proof -
    have "d \<in> set (drop limit ?all)"
      using that unfolding ds by (metis Un_iff append_take_drop_id set_append)
    moreover from this have "limit < length ?all" by (metis drop_all empty_iff leI list.set(1))
    ultimately show ?thesis using sorted unfolding sorted_wrt_append ds by auto
  qed
  show ?thesis
    using out sorted unfolding sorted_wrt_append
    by (auto simp: ds P dest!: in_set_takeD)
qed

subsection \<open>Concrete decisions\<close>

definition plain_decision :: "string \<Rightarrow> instant \<Rightarrow> signal_decision" where
  "plain_decision f t = \<lparr>sd_decision_id = f @ ''-live'', sd_decision_key = f, sd_input_fingerprint = f,
     sd_instrument = ''XAUUSD'', sd_timeframe = M15, sd_direction = Bull, sd_state = Eligible, sd_as_of = t,
     sd_decided_at = t, sd_valid_from = t, sd_valid_until = t + seconds_td 900,
     sd_ai_score_snapshot_id = [], sd_ai_score_policy_name = [], sd_ai_score_policy_version = [],
     sd_decision_policy_name = [], sd_decision_policy_version = [],
     sd_scores = \<lparr>dc_eligibility_score = 0, dc_directional_strength = 0, dc_confidence_score = 0,
       dc_guardrail_confidence = 0, dc_overall_confidence = 0, dc_market_risk_score = 0,
       dc_data_quality_score = 0, dc_evidence_alignment_score = 0\<rparr>,
     sd_rules = [], sd_blockers = [], sd_warnings = [], sd_supporting_reasons = [],
     sd_previous_decision_id = None, sd_supersedes_decision_id = None, sd_status = Active, sd_mode = Live,
     sd_explanation = \<lparr>de_summary_code = [], de_decision_state = Eligible, de_direction = Bull, de_passed_rules = [],
       de_failed_rules = [], de_warning_rules = [], de_evidence_limitations = [], de_policy_name = [],
       de_policy_version = []\<rparr>,
     sd_metadata = \<lparr>dm_engine_version = [], dm_schema_version = [], dm_configuration_version = [],
       dm_configuration_hash = [], dm_ai_score_configuration_hash = []\<rparr>,
     sd_execution = \<lparr>dx_final_action = HOLD, dx_setup_family = None, dx_readiness = Rejected, dx_entry_low = None,
       dx_entry_high = None, dx_invalidation = None, dx_stop_loss = None, dx_take_profit_targets = [],
       dx_risk_reward = None, dx_publication_eligible = False\<rparr>,
     sd_decision_reason = [], sd_opposite_direction_rejection = [], sd_supporting_evidence = [],
     sd_contradicting_evidence = [], sd_temporal_evidence = [],
     sd_source_lineage = \<lparr>li_market_snapshot_id = None, li_feature_snapshot_id = None, li_current_ai_analysis_id = None,
       li_current_ai_signal_id = None, li_historical_ai_analysis_ids = [], li_quantitative_forecast_id = None,
       li_primary_scenario_selection_id = None, li_strategy_evaluation_ids = [], li_temporal_context_version = None,
       li_signal_engine_version = [], li_strategy_configuration_version = [], li_risk_policy_version = []\<rparr>,
     sd_notification_context = None\<rparr>"

definition sample_idf :: "string \<times> decision_mode \<Rightarrow> uuid" where
  "sample_idf k = fst k @ (case snd k of Live \<Rightarrow> ''-live'' | Replay \<Rightarrow> ''-back'')"

lemma sample_idf_inj: "inj sample_idf"
  by (rule injI) (auto simp: sample_idf_def prod_eq_iff split: decision_mode.splits)

definition sample_repository :: repository where
  "sample_repository = fst (save_decision (fst (save_decision empty_repository (plain_decision ''a'' 0)))
     (plain_decision ''b'' (seconds_td 3600)))"

lemma plain_legitimate: "legitimate sample_idf (plain_decision f t)"
  by (simp add: legitimate_def sample_idf_inj plain_decision_def sample_idf_def decision_fp_def)

lemma sample_repository_ok: "repository_ok sample_idf sample_repository"
  unfolding sample_repository_def
  by (intro decision_repo.save_ok empty_repository_ok plain_legitimate)

theorem prune_spec_witness:
  "card (dom (map_of (rp_decisions sample_repository))
     - dom (map_of (rp_decisions (fst (prune sample_repository (seconds_td 3600) Live 500))))) = 1"
proof -
  have "snd (prune sample_repository (seconds_td 3600) Live 500) = 1" by code_simp
  then have "prune sample_repository (seconds_td 3600) Live 500
      = (fst (prune sample_repository (seconds_td 3600) Live 500), 1)"
    by (simp add: prod_eq_iff)
  from prune_spec [OF sample_repository_ok this] show ?thesis by blast
qed

theorem find_recent_spec_witness:
  "length (find_recent_decisions sample_repository ''XAUUSD'' M15 (seconds_td 7200) 1) \<le> 1"
  using find_recent_spec [OF refl, of sample_repository "''XAUUSD''" M15 "seconds_td 7200" 1] by blast

text \<open>Claim C29: a decision is written once. Saving a decision whose fingerprint and mode are already
  stored changes nothing and returns the stored one; after any further saves, every save under
  that fingerprint still returns the first.\<close>

theorem save_first_write_wins:
  assumes "repository_ok idf r" and "list_all (legitimate idf) (d # d' # ds)" and "decision_fp d' = decision_fp d"
  shows "snd (save_decision (fold (\<lambda>e s. fst (save_decision s e)) ds (fst (save_decision r d))) d') = snd (save_decision r d)
    \<and> save_decision (fst (save_decision r d)) d = save_decision r d
    \<and> repository_ok idf (fold (\<lambda>e s. fst (save_decision s e)) ds (fst (save_decision r d)))"
proof -
  have fold: "fold (\<lambda>e s. fst (save_decision s e)) ds q = decision_repo.save_all q ds" for q
    by (induction ds arbitrary: q) simp_all
  show ?thesis
    using assms decision_repo.first_write_wins [of idf r d ds d'] decision_repo.save_idempotent [of idf r d]
      decision_repo.save_all_ok [of idf "fst (save_decision r d)" ds] decision_repo.save_ok [of idf r d]
    by (simp add: fold)
qed

theorem save_first_write_wins_witness:
  "snd (save_decision (fst (save_decision sample_repository (plain_decision ''c'' 5))) (plain_decision ''a'' 7))
     = snd (save_decision sample_repository (plain_decision ''a'' 7))"
proof -
  have e: "decision_fp (plain_decision ''a'' 7) = decision_fp (plain_decision ''a'' 0)"
    by (simp add: decision_fp_def plain_decision_def)
  have s: "sample_repository = fold (\<lambda>e s. fst (save_decision s e)) [plain_decision ''b'' (seconds_td 3600)]
      (fst (save_decision empty_repository (plain_decision ''a'' 0)))"
    by (simp add: sample_repository_def)
  have "snd (save_decision sample_repository (plain_decision ''a'' 7))
      = snd (save_decision empty_repository (plain_decision ''a'' 0))"
    unfolding s by (rule conjunct1 [OF save_first_write_wins [OF empty_repository_ok [of sample_idf] _ e]])
      (simp add: plain_legitimate)
  moreover have "snd (save_decision (fold (\<lambda>e s. fst (save_decision s e))
        [plain_decision ''b'' (seconds_td 3600), plain_decision ''c'' 5]
        (fst (save_decision empty_repository (plain_decision ''a'' 0)))) (plain_decision ''a'' 7))
      = snd (save_decision empty_repository (plain_decision ''a'' 0))"
    by (rule conjunct1 [OF save_first_write_wins [OF empty_repository_ok [of sample_idf] _ e]])
      (simp add: plain_legitimate)
  ultimately show ?thesis by (simp add: sample_repository_def)
qed

end
