(* ===== verification/Signal_Decision_Service.thy ===== *)
theory Signal_Decision_Service
  imports Signal_Decision_Safety Signal_Decision_Repository Infrastructure
begin

text \<open>
  \<open>SignalDecisionService\<close> (\<open>signal_decision_engine/service.py\<close>): input collection, deduplication by
  fingerprint, evaluation, persistence and publication, with the metrics it keeps. What lies
  outside (the clock, the AI scoring repository and health, the calendar and regime services,
  event handlers, whether a write fails) is an \<open>environment\<close> that may differ at every call.
\<close>

subsection \<open>Requests and environment\<close>

record decision_request =
  rq_instrument :: string
  rq_timeframe :: timeframe
  rq_ai_score_snapshot_id :: uuid
  rq_as_of :: "instant option"
  rq_mode :: decision_mode
  rq_policy_name :: "string option"
  rq_policy_version :: "string option"
  rq_persist :: bool
  rq_publish_events :: bool
  rq_analysis :: "ai_analysis option"
  rq_signal :: "ai_signal option"
  rq_temporal_context :: "temporal_context option"
  rq_temporal_metrics :: "temporal_metrics option"
  rq_market_snapshot_id :: "uuid option"
  rq_quantitative_forecast_id :: "uuid option"
  rq_current_price :: "f64 option"
  rq_expected_move :: "f64 option"
  rq_primary_scenario :: "selection option"

text \<open>The validator \<open>canonical_instrument\<close>.\<close>

definition canonical_request :: "decision_request \<Rightarrow> decision_request" where
  "canonical_request r = r\<lparr>rq_instrument := py_upper (rq_instrument r)\<rparr>"

text \<open>The fields the service reads of the context of the calendar and of a regime snapshot. A call
  that raises is \<open>None\<close>.\<close>

record calendar_view =
  cv_context_id :: uuid
  cv_risk_window_phase :: string
  cv_risk_score :: f64
  cv_analysis_timestamp :: instant
  cv_unavailable_context :: bool
  cv_context_state :: string
  cv_active_event_ids :: "uuid list"
  cv_next_event_id :: "uuid option"

record regime_view =
  rg_snapshot_id :: uuid
  rg_dominant_regime :: string
  rg_analysis_timestamp :: instant
  rg_is_degraded :: bool

record environment =
  en_now :: instant
  en_snapshots :: "uuid \<Rightarrow> score_snapshot option"
  en_calendar :: "(string \<Rightarrow> instant \<Rightarrow> calendar_view option) option"
  en_regimes :: "(string \<Rightarrow> timeframe \<Rightarrow> instant \<Rightarrow> regime_view option option) option"
  en_ai_status :: string
  en_save_ok :: bool
  en_feature_store_ok :: bool
  en_isinstance :: "event_type \<Rightarrow> event_type \<Rightarrow> bool"
  en_completes :: "handler \<Rightarrow> event \<Rightarrow> bool"
  en_duration_ms :: f64

subsection \<open>State\<close>

record metrics =
  mt_requests_total :: nat
  mt_completed_total :: nat
  mt_failed_total :: nat
  mt_state_totals :: "(string \<times> nat) list"
  mt_duplicates_total :: nat
  mt_persistence_failures_total :: nat
  mt_feature_store_failures_total :: nat
  mt_event_publish_failures_total :: nat
  mt_expiration_runs_total :: nat
  mt_durations_ms :: "f64 list"
  mt_latest_decision_id :: "uuid option"

definition no_metrics :: metrics where
  "no_metrics = \<lparr>mt_requests_total = 0, mt_completed_total = 0, mt_failed_total = 0, mt_state_totals = [],
     mt_duplicates_total = 0, mt_persistence_failures_total = 0, mt_feature_store_failures_total = 0,
     mt_event_publish_failures_total = 0, mt_expiration_runs_total = 0, mt_durations_ms = [],
     mt_latest_decision_id = None\<rparr>"

definition average_duration :: "metrics \<Rightarrow> f64" where
  "average_duration m = (if mt_durations_ms m = [] then 0
     else py_sum (mt_durations_ms m) / fint (int (length (mt_durations_ms m))))"

definition maximum_duration :: "metrics \<Rightarrow> f64" where
  "maximum_duration m = (case mt_durations_ms m of [] \<Rightarrow> 0 | x # xs \<Rightarrow> foldl max x xs)"

record service =
  sv_repository :: repository
  sv_policies :: "policy policy_registry"
  sv_policy :: policy
  sv_metrics :: metrics
  sv_bus :: bus
  sv_features :: feature_store
  sv_repository_mode :: string
  sv_initialized :: bool
  sv_closed :: bool

abbreviation sv_config :: "service \<Rightarrow> decision_config" where
  "sv_config s \<equiv> pl_config (sv_policy s)"

text \<open>The constructor registers the one policy under its name and version.\<close>

definition new_service :: "policy \<Rightarrow> repository \<Rightarrow> bus \<Rightarrow> feature_store \<Rightarrow> string \<Rightarrow> decision_error + service" where
  "new_service p r b f repository_mode = bindE (register_policy policy_ident [] p) (\<lambda>ps. Inr
     \<lparr>sv_repository = r, sv_policies = ps, sv_policy = p, sv_metrics = no_metrics, sv_bus = b, sv_features = f,
      sv_repository_mode = repository_mode, sv_initialized = False, sv_closed = False\<rparr>)"

definition start_service :: "service \<Rightarrow> decision_error + service" where
  "start_service s = bindE (get_policy (sv_policies s) (dcf_policy_name (sv_config s)) (dcf_policy_version (sv_config s)))
     (\<lambda>_. Inr (s\<lparr>sv_initialized := True, sv_closed := False\<rparr>))"

definition stop_service :: "service \<Rightarrow> service" where
  "stop_service s = s\<lparr>sv_closed := True\<rparr>"

subsection \<open>Input collection\<close>

definition economic_context :: "environment \<Rightarrow> string \<Rightarrow> instant \<Rightarrow> economic_risk option" where
  "economic_context env instrument boundary =
     Option.bind (en_calendar env) (\<lambda>cal. Option.bind (cal instrument boundary) (\<lambda>v.
       let risk = cv_risk_score v * fint 100 in
       if in_range 0 (fint 100) risk then
         Some \<lparr>er_context_id = cv_context_id v, er_phase = cv_risk_window_phase v, er_risk_score = risk,
           er_as_of = cv_analysis_timestamp v, er_degraded = cv_unavailable_context v,
           er_context_state = cv_context_state v,
           er_event_ids = cv_active_event_ids v @ (case cv_next_event_id v of None \<Rightarrow> [] | Some k \<Rightarrow> [k])\<rparr>
       else None))"

definition regime_context :: "environment \<Rightarrow> string \<Rightarrow> timeframe \<Rightarrow> instant \<Rightarrow> regime_reference option" where
  "regime_context env instrument tf boundary =
     Option.bind (en_regimes env) (\<lambda>state. Option.bind (state instrument tf boundary) (map_option (\<lambda>v.
       \<lparr>rr_snapshot_id = rg_snapshot_id v, rr_regime = rg_dominant_regime v,
        rr_as_of = rg_analysis_timestamp v, rr_degraded = rg_is_degraded v\<rparr>)))"

definition health_row :: "string \<Rightarrow> dependency_state \<Rightarrow> criticality \<Rightarrow> instant \<Rightarrow> dependency_health" where
  "health_row n st cr t = \<lparr>dh_name = n, dh_state = st, dh_criticality = cr, dh_checked_at = t,
     dh_reason_code = ''dependency_status''\<rparr>"

definition dependency_health_of :: "environment \<Rightarrow> service \<Rightarrow> instant \<Rightarrow> dependency_health list" where
  "dependency_health_of env s t =
     [health_row ''ai_scoring'' (if en_ai_status env = ''healthy'' then Available
        else if en_ai_status env = ''degraded'' then Dep_Degraded else Unavailable) Critical t,
      health_row ''persistence'' (if sv_repository_mode s \<noteq> ''memory'' then Available else Unavailable)
        (if dcf_persistence_required_in_production (sv_config s) then Critical else Optional) t,
      health_row ''economic_calendar'' (if en_calendar env \<noteq> None then Available else Unavailable) Required_For_Eligibility t,
      health_row ''market_regime'' (if en_regimes env \<noteq> None then Available else Unavailable) Optional t]"

definition recent_of_mode :: "service \<Rightarrow> decision_request \<Rightarrow> instant \<Rightarrow> signal_decision list" where
  "recent_of_mode s rq boundary = filter (\<lambda>d. mode_value (sd_mode d) = mode_value (rq_mode rq))
     (find_recent_decisions (sv_repository s) (rq_instrument rq) (rq_timeframe rq) boundary 50)"

definition history_of :: "signal_decision list \<Rightarrow> decision_direction \<Rightarrow> instant \<Rightarrow> decision_history" where
  "history_of recent d boundary =
     \<lparr>dhi_latest = map_option reference_of (find (\<lambda>_. True) recent),
      dhi_active = map_option reference_of (find (in_force boundary) recent),
      dhi_recent_same_direction = map_option reference_of (find (\<lambda>x. sd_direction x = d) recent),
      dhi_recent_opposite_eligible = map_option reference_of (find (\<lambda>x. sd_state x = Eligible
        \<and> sd_direction x \<noteq> d \<and> sd_direction x \<noteq> Flat \<and> boundary < sd_valid_until x) recent)\<rparr>"

definition input_values :: "environment \<Rightarrow> service \<Rightarrow> decision_request \<Rightarrow> instant \<Rightarrow> string \<Rightarrow> string
    \<Rightarrow> score_snapshot \<Rightarrow> decision_direction \<Rightarrow> decision_input" where
  "input_values env s rq boundary name version snap d =
     \<lparr>di_instrument = rq_instrument rq, di_timeframe = rq_timeframe rq, di_as_of = boundary,
      di_requested_at = en_now env, di_ai_score = snap,
      di_economic_risk = economic_context env (rq_instrument rq) boundary,
      di_market_regime = regime_context env (rq_instrument rq) (rq_timeframe rq) boundary,
      di_dependency_health = dependency_health_of env s boundary,
      di_history = history_of (recent_of_mode s rq boundary) d boundary,
      di_analysis = rq_analysis rq, di_signal = rq_signal rq, di_temporal_context = rq_temporal_context rq,
      di_temporal_metrics = rq_temporal_metrics rq, di_market_snapshot_id = rq_market_snapshot_id rq,
      di_quantitative_forecast_id = rq_quantitative_forecast_id rq, di_current_price = rq_current_price rq,
      di_expected_move = rq_expected_move rq, di_primary_scenario = rq_primary_scenario rq,
      di_mode = rq_mode rq, di_policy_name = name, di_policy_version = version\<rparr>"

definition collect_input :: "environment \<Rightarrow> service \<Rightarrow> decision_request \<Rightarrow> decision_error + decision_input" where
  "collect_input env s rq =
     (let boundary = (case rq_as_of rq of Some t \<Rightarrow> t | None \<Rightarrow> en_now env);
          name = (case rq_policy_name rq of Some n \<Rightarrow> n | None \<Rightarrow> dcf_policy_name (sv_config s));
          version = (case rq_policy_version rq of Some v \<Rightarrow> v | None \<Rightarrow> dcf_policy_version (sv_config s))
      in if rq_mode rq = Live \<and> en_now env + seconds_td (dcf_future_clock_skew_seconds (sv_config s)) < boundary
         then Inl (Decision_Input_Error ''future decision boundary is prohibited'')
         else bindE (get_policy (sv_policies s) name version) (\<lambda>_.
           case en_snapshots env (rq_ai_score_snapshot_id rq) of
             None \<Rightarrow> Inl (Decision_Snapshot_Not_Found (rq_ai_score_snapshot_id rq))
           | Some snap \<Rightarrow> bindE (label_direction (sv_config s) (ss_directional_label snap)) (\<lambda>d.
               let i = input_values env s rq boundary name version snap d in
               if decision_input_ok i then Inr i else Inl (Decision_Validation_Error ''SignalDecisionInput''))))"

text \<open>\<open>SignalDecisionInput.fingerprint\<close>: the digest of the input without the request time, the
  dependency health and the history; \<open>enc\<close> is the canonical JSON text.\<close>

definition undated :: "decision_input \<Rightarrow> decision_input" where
  "undated i = i\<lparr>di_requested_at := 0, di_dependency_health := [], di_history := \<lparr>dhi_latest = None, dhi_active = None,
     dhi_recent_same_direction = None, dhi_recent_opposite_eligible = None\<rparr>\<rparr>"

definition fingerprint :: "runtime \<Rightarrow> (decision_input \<Rightarrow> string \<Rightarrow> string) \<Rightarrow> decision_input \<Rightarrow> string \<Rightarrow> string" where
  "fingerprint rt enc i h = rt_sha256 rt (enc (undated i) h)"

subsection \<open>Publication\<close>

definition decision_event_type :: "decision_state \<Rightarrow> event_type option" where
  "decision_event_type st = (case st of Eligible \<Rightarrow> Some ''SignalDecisionEligible''
     | Observe_Only \<Rightarrow> Some ''SignalDecisionObserveOnly'' | Blocked \<Rightarrow> Some ''SignalDecisionBlocked''
     | Insufficient \<Rightarrow> Some ''SignalDecisionInsufficientEvidence'' | Invalid \<Rightarrow> Some ''SignalDecisionInvalid''
     | Expired_State \<Rightarrow> None)"

definition decision_uuid :: "runtime \<Rightarrow> string list \<Rightarrow> uuid" where
  "decision_uuid rt parts = stable_id rt ''81f5a757-4e58-5d38-b01d-ea7ec9f9e11d'' parts"

definition decision_feature :: "runtime \<Rightarrow> decision_config \<Rightarrow> signal_decision \<Rightarrow> feature_record" where
  "decision_feature rt c d =
     \<lparr>fr_feature_id = decision_uuid rt [''decision-feature'', sd_decision_id d],
      fr_correlation_id = decision_uuid rt [''decision-correlation'', sd_input_fingerprint d],
      fr_namespace = ''signal_decision'', fr_engine_name = ''signal_decision'',
      fr_engine_version = dcf_engine_version c, fr_compatibility_version = dcf_schema_version c,
      fr_values = [(''state'', JStr (state_value (sd_state d))), (''direction'', JStr (direction_value (sd_direction d))),
        (''eligibility_score'', JFloat (dc_eligibility_score (sd_scores d))),
        (''valid_until'', JStr (isoformat (sd_valid_until d))), (''decision_id'', JStr (sd_decision_id d)),
        (''policy_version'', JStr (sd_decision_policy_version d)),
        (''ai_score_snapshot_id'', JStr (sd_ai_score_snapshot_id d)),
        (''blocker_count'', JInt (int (length (sd_blockers d)))), (''warning_count'', JInt (int (length (sd_warnings d)))),
        (''is_eligible'', JBool (sd_state d = Eligible)), (''analytical_decision'', JBool True),
        (''trade_execution'', JBool False)],
      fr_mode = ''live'', fr_instrument = None, fr_timeframe = None, fr_effective_at = None,
      fr_source_event_id = None, fr_quality_status = ''valid'', fr_payload_hash = None,
      fr_created_at = sd_decided_at d\<rparr>"

definition decision_event :: "runtime \<Rightarrow> decision_config \<Rightarrow> signal_decision \<Rightarrow> event_type \<Rightarrow> event" where
  "decision_event rt c d t =
     \<lparr>ev_type = t, ev_event_id = decision_uuid rt [''decision-event'', t, sd_decision_id d],
      ev_correlation_id = decision_uuid rt [''decision-correlation'', sd_input_fingerprint d],
      ev_occurred_at = sd_decided_at d, ev_origin = ''signal_decision'',
      ev_payload = [(''schema_version'', JStr (dcf_schema_version c)), (''decision_id'', JStr (sd_decision_id d)),
        (''decision_key'', JStr (sd_decision_key d)), (''instrument'', JStr (sd_instrument d)),
        (''timeframe'', JStr (timeframe_value (sd_timeframe d))), (''direction'', JStr (direction_value (sd_direction d))),
        (''state'', JStr (state_value (sd_state d))), (''as_of'', JStr (isoformat (sd_as_of d))),
        (''valid_until'', JStr (isoformat (sd_valid_until d))),
        (''ai_score_snapshot_id'', JStr (sd_ai_score_snapshot_id d)),
        (''policy_version'', JStr (sd_decision_policy_version d)),
        (''eligibility_score'', JFloat (dc_eligibility_score (sd_scores d))),
        (''blocker_count'', JInt (int (length (sd_blockers d)))), (''warning_count'', JInt (int (length (sd_warnings d)))),
        (''input_fingerprint'', JStr (sd_input_fingerprint d)), (''mode'', JStr (mode_value (sd_mode d))),
        (''trade_execution'', JBool False)]\<rparr>"

definition publish_feature :: "runtime \<Rightarrow> environment \<Rightarrow> service \<Rightarrow> signal_decision \<Rightarrow> service" where
  "publish_feature rt env s d =
     (if sd_mode d = Live \<or> dcf_publish_replay_features (sv_config s) then
        (if en_feature_store_ok env
         then s\<lparr>sv_features := write_feature (sv_features s) (decision_feature rt (sv_config s) d)\<rparr>
         else s\<lparr>sv_metrics := (sv_metrics s)\<lparr>mt_feature_store_failures_total :=
           mt_feature_store_failures_total (sv_metrics s) + 1\<rparr>\<rparr>)
      else s)"

definition publish_event :: "runtime \<Rightarrow> environment \<Rightarrow> service \<Rightarrow> signal_decision \<Rightarrow> bool \<Rightarrow> service" where
  "publish_event rt env s d publish_events =
     (if \<not> publish_events \<or> (sd_mode d = Replay \<and> \<not> dcf_publish_replay_events (sv_config s)) then s
      else case decision_event_type (sd_state d) of
        None \<Rightarrow> s
      | Some t \<Rightarrow>
          (case publish (en_isinstance env) (en_completes env) (sv_bus s) (decision_event rt (sv_config s) d t) of
             (b, _, Inr _) \<Rightarrow> s\<lparr>sv_bus := b\<rparr>
           | (b, _, Inl _) \<Rightarrow> s\<lparr>sv_bus := b, sv_metrics := (sv_metrics s)\<lparr>mt_event_publish_failures_total :=
               mt_event_publish_failures_total (sv_metrics s) + 1\<rparr>\<rparr>))"

definition publish_decision :: "runtime \<Rightarrow> environment \<Rightarrow> service \<Rightarrow> signal_decision \<Rightarrow> bool \<Rightarrow> service" where
  "publish_decision rt env s d publish_events = publish_event rt env (publish_feature rt env s d) d publish_events"

subsection \<open>Evaluation of a request\<close>

definition count_metrics :: "(metrics \<Rightarrow> metrics) \<Rightarrow> service \<Rightarrow> service" where
  "count_metrics f s = s\<lparr>sv_metrics := f (sv_metrics s)\<rparr>"

definition state_total :: "metrics \<Rightarrow> string \<Rightarrow> nat" where
  "state_total m k = (case map_of (mt_state_totals m) k of None \<Rightarrow> 0 | Some n \<Rightarrow> n)"

definition count_request :: "metrics \<Rightarrow> metrics" where
  "count_request m = m\<lparr>mt_requests_total := mt_requests_total m + 1\<rparr>"

definition count_failure :: "metrics \<Rightarrow> metrics" where
  "count_failure m = m\<lparr>mt_failed_total := mt_failed_total m + 1\<rparr>"

definition count_duplicate :: "metrics \<Rightarrow> metrics" where
  "count_duplicate m = m\<lparr>mt_duplicates_total := mt_duplicates_total m + 1\<rparr>"

definition count_persistence_failure :: "metrics \<Rightarrow> metrics" where
  "count_persistence_failure m = count_failure
     (m\<lparr>mt_persistence_failures_total := mt_persistence_failures_total m + 1\<rparr>)"

definition count_completed :: "signal_decision \<Rightarrow> metrics \<Rightarrow> metrics" where
  "count_completed d m = m\<lparr>mt_completed_total := mt_completed_total m + 1,
     mt_state_totals := AList.update (state_value (sd_state d)) (state_total m (state_value (sd_state d)) + 1) (mt_state_totals m),
     mt_latest_decision_id := Some (sd_decision_id d)\<rparr>"

definition count_duration :: "f64 \<Rightarrow> metrics \<Rightarrow> metrics" where
  "count_duration x m = m\<lparr>mt_durations_ms := push_bounded 500 (mt_durations_ms m) x\<rparr>"

definition store_decision :: "runtime \<Rightarrow> environment \<Rightarrow> service \<Rightarrow> decision_request \<Rightarrow> signal_decision
    \<Rightarrow> service \<times> (decision_error + signal_decision)" where
  "store_decision rt env s rq candidate =
     (if rq_persist rq then
        (if en_save_ok env then
           (let (r, d) = save_decision (sv_repository s) candidate;
                s' = publish_decision rt env (s\<lparr>sv_repository := r\<rparr>) d (rq_publish_events rq)
            in (count_metrics (count_completed d) s', Inr d))
         else (count_metrics count_persistence_failure s, Inl Decision_Persistence_Error))
      else (count_metrics (count_completed candidate) s, Inr candidate))"

text \<open>The body of the \<open>try\<close>; the counters of its \<open>except\<close> are at the branches that raise.\<close>

definition evaluate_body :: "runtime \<Rightarrow> (decision_input \<Rightarrow> string \<Rightarrow> string) \<Rightarrow> environment \<Rightarrow> service \<Rightarrow> decision_request
    \<Rightarrow> service \<times> (decision_error + signal_decision)" where
  "evaluate_body rt enc env s rq =
     (case collect_input env s rq of
        Inl e \<Rightarrow> (count_metrics count_failure s, Inl e)
      | Inr i \<Rightarrow>
          (case find_by_fingerprint (sv_repository s)
              (fingerprint rt enc i (pl_configuration_hash (sv_policy s))) (rq_mode rq) of
             Some d \<Rightarrow> (count_metrics count_duplicate s, Inr d)
           | None \<Rightarrow>
               (case bindE (get_policy (sv_policies s) (di_policy_name i) (di_policy_version i))
                   (\<lambda>p. evaluate rt (fingerprint rt enc) p i) of
                  Inl e \<Rightarrow> (count_metrics count_failure s, Inl e)
                | Inr candidate \<Rightarrow> store_decision rt env s rq candidate)))"

definition evaluate_request :: "runtime \<Rightarrow> (decision_input \<Rightarrow> string \<Rightarrow> string) \<Rightarrow> environment \<Rightarrow> service \<Rightarrow> decision_request
    \<Rightarrow> service \<times> (decision_error + signal_decision)" where
  "evaluate_request rt enc env s rq =
     (let (s', out) = evaluate_body rt enc env (count_metrics count_request s) rq
      in (count_metrics (count_duration (en_duration_ms env)) s', out))"

subsection \<open>Reading, cleanup, health\<close>

definition read_decision :: "environment \<Rightarrow> service \<Rightarrow> uuid \<Rightarrow> signal_decision option" where
  "read_decision env s k = (case get_decision (sv_repository s) k of
     None \<Rightarrow> None
   | Some d \<Rightarrow> if en_now env < sd_valid_until d then Some d
       else Some (d\<lparr>sd_state := Expired_State, sd_status := Lifecycle_Expired,
         sd_explanation := (sd_explanation d)\<lparr>de_summary_code := direction_value (sd_direction d) @ ''_expired'',
           de_decision_state := Expired_State\<rparr>\<rparr>))"

definition days_td :: "int \<Rightarrow> timedelta" where
  "days_td n = seconds_td (86400 * n)"

definition cleanup :: "environment \<Rightarrow> service \<Rightarrow> service \<times> nat" where
  "cleanup env s =
     (let t = dcf_retention (sv_config s); n = nat (rt_cleanup_batch_size t);
          (r1, live) = prune (sv_repository s) (en_now env - days_td (rt_live_days t)) Live n;
          (r2, replay) = prune r1 (en_now env - days_td (rt_replay_days t)) Replay n
      in (s\<lparr>sv_repository := r2, sv_metrics := (sv_metrics s)\<lparr>mt_expiration_runs_total :=
            mt_expiration_runs_total (sv_metrics s) + 1\<rparr>\<rparr>, live + replay))"

definition persistence_status :: "service \<Rightarrow> string" where
  "persistence_status s = (if sv_repository_mode s \<noteq> ''memory'' then ''healthy''
     else if dcf_persistence_required_in_production (sv_config s) then ''unavailable'' else ''degraded'')"

definition health_status :: "environment \<Rightarrow> service \<Rightarrow> string" where
  "health_status env s =
     (if \<not> (sv_initialized s \<and> \<not> sv_closed s) \<or> persistence_status s = ''unavailable'' \<or> en_ai_status env = ''unavailable''
      then ''unavailable''
      else if persistence_status s \<noteq> ''healthy'' \<or> en_ai_status env \<noteq> ''healthy''
          \<or> mt_feature_store_failures_total (sv_metrics s) \<noteq> 0 \<or> mt_event_publish_failures_total (sv_metrics s) \<noteq> 0
      then ''degraded'' else ''healthy'')"

subsection \<open>The life of the service\<close>

text \<open>Bus and feature store are shared: other engines publish and write between two calls.\<close>

inductive service_step :: "runtime \<Rightarrow> (decision_input \<Rightarrow> string \<Rightarrow> string) \<Rightarrow> service \<Rightarrow> service \<Rightarrow> bool" for rt enc where
  evaluate_step: "service_step rt enc s (fst (evaluate_request rt enc env s rq))"
| cleanup_step: "service_step rt enc s (fst (cleanup env s))"
| start_step: "start_service s = Inr s' \<Longrightarrow> service_step rt enc s s'"
| stop_step: "service_step rt enc s (stop_service s)"
| bus_shared: "bus_step isinst (sv_bus s) b \<Longrightarrow> service_step rt enc s (s\<lparr>sv_bus := b\<rparr>)"
| feature_shared: "service_step rt enc s (s\<lparr>sv_features := write_feature (sv_features s) r\<rparr>)"

inductive service_reachable :: "runtime \<Rightarrow> (decision_input \<Rightarrow> string \<Rightarrow> string) \<Rightarrow> service \<Rightarrow> bool" for rt enc where
  created: "new_service p empty_repository b f m = Inr s \<Longrightarrow> bus_ok b \<Longrightarrow> feature_log.capped f \<Longrightarrow>
    service_reachable rt enc s"
| stepped: "service_reachable rt enc s \<Longrightarrow> service_step rt enc s s' \<Longrightarrow> service_reachable rt enc s'"

inductive_cases service_stepE: "service_step rt enc s s'"

definition metrics_consistent :: "metrics \<Rightarrow> bool" where
  "metrics_consistent m \<longleftrightarrow>
     mt_requests_total m = mt_completed_total m + mt_duplicates_total m + mt_failed_total m
     \<and> sum_list (map snd (mt_state_totals m)) = mt_completed_total m
     \<and> distinct (map fst (mt_state_totals m)) \<and> length (mt_durations_ms m) \<le> 500
     \<and> mt_persistence_failures_total m \<le> mt_failed_total m"

definition decision_idf :: "runtime \<Rightarrow> string \<times> decision_mode \<Rightarrow> uuid" where
  "decision_idf rt k = decision_uuid rt [''decision'', fst k, mode_value (snd k)]"

definition stored_valid :: "repository \<Rightarrow> bool" where
  "stored_valid r \<longleftrightarrow> (\<forall>k d. map_of (rp_decisions r) k = Some d \<longrightarrow> decision_invariants d \<and> decision_fields_ok d
     \<and> sd_state d \<noteq> Expired_State \<and> de_decision_state (sd_explanation d) = sd_state d)"

text \<open>The registry of the service holds its own policy and no other.\<close>

definition own_policy :: "service \<Rightarrow> bool" where
  "own_policy s \<longleftrightarrow> (\<forall>n v p. get_policy (sv_policies s) n v = Inr p \<longrightarrow> p = sv_policy s)"

definition service_ok :: "runtime \<Rightarrow> service \<Rightarrow> bool" where
  "service_ok rt s \<longleftrightarrow> repository_ok (decision_idf rt) (sv_repository s) \<and> stored_valid (sv_repository s)
     \<and> bus_ok (sv_bus s) \<and> feature_log.capped (sv_features s) \<and> own_policy s"

lemma total_bound: "map_of d k = Some n \<Longrightarrow> n \<le> sum_list (map snd (d :: (string \<times> nat) list))"
  using map_of_SomeD [of d k n] member_le_sum_list [of n "map snd d"] by force

lemma sum_update:
  "sum_list (map snd (AList.update k v d)) + (case map_of d k of None \<Rightarrow> 0 | Some n \<Rightarrow> n)
     = sum_list (map snd (d :: (string \<times> nat) list)) + v"
  by (induction d) (auto split: option.splits)

lemma completed_sum:
  "sum_list (map snd (mt_state_totals (count_completed d m))) = Suc (sum_list (map snd (mt_state_totals m)))"
  using sum_update [of "state_value (sd_state d)" "state_total m (state_value (sd_state d)) + 1" "mt_state_totals m"]
  by (simp add: count_completed_def state_total_def)

text \<open>A request that ends, in whatever way, adds one to exactly one of the three outcomes.\<close>

definition ended :: "metrics \<Rightarrow> metrics \<Rightarrow> bool" where
  "ended m m' \<longleftrightarrow> mt_requests_total m' = mt_requests_total m
     \<and> mt_completed_total m' + mt_duplicates_total m' + mt_failed_total m'
         = Suc (mt_completed_total m + mt_duplicates_total m + mt_failed_total m)
     \<and> mt_durations_ms m' = mt_durations_ms m
     \<and> (distinct (map fst (mt_state_totals m)) \<longrightarrow> distinct (map fst (mt_state_totals m')))
     \<and> sum_list (map snd (mt_state_totals m')) + mt_completed_total m
           = sum_list (map snd (mt_state_totals m)) + mt_completed_total m'
     \<and> mt_persistence_failures_total m' + mt_failed_total m \<le> mt_failed_total m' + mt_persistence_failures_total m"

lemma publish_frame [simp]:
  "sv_repository (publish_decision rt env s d pub) = sv_repository s"
  "sv_policies (publish_decision rt env s d pub) = sv_policies s"
  "sv_policy (publish_decision rt env s d pub) = sv_policy s"
  by (auto simp: publish_decision_def publish_event_def publish_feature_def Let_def split: option.split sum.split prod.split)

lemma publish_metrics [simp]:
  "mt_requests_total (sv_metrics (publish_decision rt env s d pub)) = mt_requests_total (sv_metrics s)"
  "mt_completed_total (sv_metrics (publish_decision rt env s d pub)) = mt_completed_total (sv_metrics s)"
  "mt_duplicates_total (sv_metrics (publish_decision rt env s d pub)) = mt_duplicates_total (sv_metrics s)"
  "mt_failed_total (sv_metrics (publish_decision rt env s d pub)) = mt_failed_total (sv_metrics s)"
  "mt_state_totals (sv_metrics (publish_decision rt env s d pub)) = mt_state_totals (sv_metrics s)"
  "mt_durations_ms (sv_metrics (publish_decision rt env s d pub)) = mt_durations_ms (sv_metrics s)"
  "mt_persistence_failures_total (sv_metrics (publish_decision rt env s d pub)) = mt_persistence_failures_total (sv_metrics s)"
  by (auto simp: publish_decision_def publish_event_def publish_feature_def Let_def split: option.split sum.split prod.split)

lemma state_total_cong: "mt_state_totals m = mt_state_totals m' \<Longrightarrow> state_total m = state_total m'"
  by (simp add: state_total_def fun_eq_iff)

lemma ended_completed:
  assumes "mt_requests_total m' = mt_requests_total m" "mt_completed_total m' = mt_completed_total m"
    "mt_duplicates_total m' = mt_duplicates_total m" "mt_failed_total m' = mt_failed_total m"
    "mt_state_totals m' = mt_state_totals m" "mt_durations_ms m' = mt_durations_ms m"
    "mt_persistence_failures_total m' = mt_persistence_failures_total m"
  shows "ended m (count_completed d m')"
  using assms completed_sum [of d m'] by (simp add: ended_def count_completed_def distinct_update)

lemma ended_failure: "ended m (count_failure m)" "ended m (count_persistence_failure m)" "ended m (count_duplicate m)"
  by (simp_all add: ended_def count_failure_def count_persistence_failure_def count_duplicate_def)

lemma sv_metrics_count [simp]: "sv_metrics (count_metrics f s) = f (sv_metrics s)"
  by (simp add: count_metrics_def)

lemma store_ended: "ended (sv_metrics s) (sv_metrics (fst (store_decision rt env s rq d)))"
  by (auto simp: store_decision_def Let_def ended_failure intro!: ended_completed split: prod.split)

lemma body_ended: "ended (sv_metrics s) (sv_metrics (fst (evaluate_body rt enc env s rq)))"
  by (auto simp: evaluate_body_def ended_failure store_ended split: sum.split option.split)

lemma evaluate_request_metrics:
  "metrics_consistent (sv_metrics s) \<Longrightarrow> metrics_consistent (sv_metrics (fst (evaluate_request rt enc env s rq)))"
  using body_ended [of "count_metrics count_request s" rt enc env rq]
  by (auto simp: evaluate_request_def metrics_consistent_def ended_def count_request_def count_duration_def
      length_push_bounded split: prod.split)

text \<open>What evaluation makes of a decision before it is saved.\<close>

lemma evaluate_storable:
  assumes "evaluate rt (fingerprint rt enc) p i = Inr d"
  shows "sd_decision_id d = decision_idf rt (decision_fp d)" "decision_invariants d" "decision_fields_ok d"
    "sd_state d \<noteq> Expired_State" "de_decision_state (sd_explanation d) = sd_state d"
    "decision_fp d = (fingerprint rt enc i (pl_configuration_hash p), di_mode i)"
  using assms
  by (auto elim!: evaluate_InrD simp: decision_values_def Let_def decision_idf_def decision_uuid_def decision_fp_def
      explanation_values_def state_of_def split: if_splits)

lemma publish_parts:
  "bus_ok (sv_bus s) \<Longrightarrow> bus_ok (sv_bus (publish_decision rt env s d pub))"
  "feature_log.capped (sv_features s) \<Longrightarrow> feature_log.capped (sv_features (publish_decision rt env s d pub))"
  using bus_ok_step [OF step_publish, of "sv_bus s" "en_isinstance env" "en_completes env"]
  by (auto simp: publish_decision_def publish_event_def publish_feature_def feature_log.put_capped
      split: option.split sum.split prod.split)
     (metis fst_conv)+

lemma stored_valid_empty: "stored_valid empty_repository"
  by (simp add: stored_valid_def empty_repository_def)

lemma own_policy_simps [simp]:
  "own_policy (s\<lparr>sv_bus := b\<rparr>) = own_policy s" "own_policy (s\<lparr>sv_features := f\<rparr>) = own_policy s"
  "own_policy (s\<lparr>sv_repository := r\<rparr>) = own_policy s" "own_policy (s\<lparr>sv_metrics := m\<rparr>) = own_policy s"
  "own_policy (s\<lparr>sv_initialized := x\<rparr>) = own_policy s" "own_policy (s\<lparr>sv_closed := x\<rparr>) = own_policy s"
  "own_policy (publish_decision rt env s d pub) = own_policy s" "own_policy (count_metrics g s) = own_policy s"
  by (simp_all add: own_policy_def count_metrics_def)

lemma save_valid:
  "stored_valid r \<Longrightarrow> decision_invariants d \<Longrightarrow> decision_fields_ok d \<Longrightarrow> sd_state d \<noteq> Expired_State \<Longrightarrow>
   de_decision_state (sd_explanation d) = sd_state d \<Longrightarrow> stored_valid (fst (save_decision r d))"
  unfolding stored_valid_def save_decision_def by (auto simp: update_conv' split: option.split if_splits)

lemma prune_ok:
  assumes "repository_ok idf r"
  shows "repository_ok idf (fst (prune r before m limit))" "stored_valid r \<Longrightarrow> stored_valid (fst (prune r before m limit))"
proof -
  let ?ds = "prunable r before m limit"
  have "\<forall>d \<in> set ?ds. map_of (rp_decisions r) (sd_decision_id d) = Some d"
    using prunable_distinct(2) [OF assms] decisions_distinct(2) [OF assms] by blast
  note f = fold_remove [OF assms this prunable_distinct(1) [OF assms]]
  show "repository_ok idf (fst (prune r before m limit))" using f by (simp add: prune_def Let_def)
  show "stored_valid r \<Longrightarrow> stored_valid (fst (prune r before m limit))"
    using f unfolding stored_valid_def by (auto simp: prune_def Let_def split: if_splits)
qed

lemma prune_twice:
  assumes "repository_ok idf r \<and> stored_valid r"
  shows "repository_ok idf (fst (prune (fst (prune r b m n)) b' m' n')) \<and> stored_valid (fst (prune (fst (prune r b m n)) b' m' n'))"
  using prune_ok [of idf r b m n] prune_ok [of idf "fst (prune r b m n)" b' m' n'] assms by blast

lemma count_frame [simp]:
  "sv_repository (count_metrics f s) = sv_repository s" "sv_bus (count_metrics f s) = sv_bus s"
  "sv_features (count_metrics f s) = sv_features s" "sv_policies (count_metrics f s) = sv_policies s"
  "sv_policy (count_metrics f s) = sv_policy s" "sv_repository_mode (count_metrics f s) = sv_repository_mode s"
  by (simp_all add: count_metrics_def)

lemma collect_count [simp]: "collect_input env (count_metrics f s) rq = collect_input env s rq"
  unfolding collect_input_def input_values_def dependency_health_of_def recent_of_mode_def count_frame ..

lemma service_ok_count [simp]: "service_ok rt (count_metrics f s) = service_ok rt s"
  by (simp add: service_ok_def count_metrics_def)

lemma store_ok:
  assumes "service_ok rt s" "inj (decision_idf rt)" "evaluate rt (fingerprint rt enc) p i = Inr d"
  shows "service_ok rt (fst (store_decision rt env s rq d))"
proof -
  note d = evaluate_storable [OF assms(3)]
  have "repository_ok (decision_idf rt) (fst (save_decision (sv_repository s) d))"
    using assms d by (intro decision_repo.save_ok) (simp_all add: service_ok_def legitimate_def)
  moreover have "stored_valid (fst (save_decision (sv_repository s) d))"
    using assms(1) d by (intro save_valid) (simp_all add: service_ok_def)
  ultimately show ?thesis
    using assms(1) by (auto simp: store_decision_def service_ok_def Let_def publish_parts split: prod.split)
qed

lemma evaluate_request_ok:
  assumes "service_ok rt s" "inj (decision_idf rt)"
  shows "service_ok rt (fst (evaluate_request rt enc env s rq))"
proof -
  have "service_ok rt (fst (evaluate_body rt enc env t rq))" if "service_ok rt t" for t
    using that store_ok [OF that assms(2)]
    by (auto simp: evaluate_body_def bindE_eq_Inr split: sum.split option.split)
  from this [of "count_metrics count_request s"] assms(1) show ?thesis
    by (simp add: evaluate_request_def split_beta)
qed

lemma service_step_ok:
  assumes "service_step rt enc s s'" "inj (decision_idf rt)" "service_ok rt s" "metrics_consistent (sv_metrics s)"
  shows "service_ok rt s' \<and> metrics_consistent (sv_metrics s')"
  using assms(1)
proof cases
  case (evaluate_step env rq)
  then show ?thesis using evaluate_request_ok evaluate_request_metrics assms by blast
next
  case (cleanup_step env)
  then show ?thesis
    using assms(3,4) prune_twice [of "decision_idf rt" "sv_repository s"]
    by (simp add: cleanup_def Let_def service_ok_def metrics_consistent_def split_beta)
next
  case (bus_shared isinst b)
  then show ?thesis using assms(3,4) bus_ok_step by (auto simp: service_ok_def)
qed (use assms(3,4) in \<open>auto simp: start_service_def stop_service_def bindE_eq_Inr service_ok_def
      feature_log.put_capped\<close>)

lemma new_service_ok:
  assumes "new_service p empty_repository b f m = Inr s" "bus_ok b" "feature_log.capped f"
  shows "service_ok rt s" "metrics_consistent (sv_metrics s)"
  using assms
  by (auto simp: new_service_def bindE_eq_Inr register_policy_def dict_register_def service_ok_def own_policy_def
      get_policy_def empty_repository_ok stored_valid_empty metrics_consistent_def no_metrics_def
      split: option.splits if_splits)

lemma service_reachable_ok:
  "service_reachable rt enc s \<Longrightarrow> inj (decision_idf rt) \<Longrightarrow> service_ok rt s \<and> metrics_consistent (sv_metrics s)"
  by (induction rule: service_reachable.induct) (use new_service_ok service_step_ok in blast)+

text \<open>Claim C32: in every reachable state of the service, whatever fails and however its calls
  interleave with the other users of bus and feature store: each request is counted as exactly
  one of completed, duplicate or failed, the totals per state add up to the completed ones, at
  most 500 durations are kept; the repository is consistent and every stored decision passes
  the validators; bus and feature store respect their bounds.\<close>

theorem service_invariant:
  assumes "service_reachable rt enc s" and "inj (decision_idf rt)"
  shows "mt_requests_total (sv_metrics s) = mt_completed_total (sv_metrics s) + mt_duplicates_total (sv_metrics s)
        + mt_failed_total (sv_metrics s)
    \<and> sum_list (map snd (mt_state_totals (sv_metrics s))) = mt_completed_total (sv_metrics s)
    \<and> length (mt_durations_ms (sv_metrics s)) \<le> 500
    \<and> repository_ok (decision_idf rt) (sv_repository s)
    \<and> (\<forall>k d. map_of (rp_decisions (sv_repository s)) k = Some d \<longrightarrow>
          decision_invariants d \<and> decision_fields_ok d \<and> sd_state d \<noteq> Expired_State)
    \<and> length (bu_history (sv_bus s)) \<le> bu_history_capacity (sv_bus s)
    \<and> length (st_records (sv_features s)) \<le> st_max_entries (sv_features s)"
  using service_reachable_ok [OF assms]
  by (simp add: service_ok_def metrics_consistent_def bus_ok_def bus_log.capped_def feature_log.capped_def stored_valid_def)

text \<open>What a finished request leaves in the repository.\<close>

lemma evaluate_request_stored:
  assumes "service_ok rt s" "inj (decision_idf rt)" "collect_input env s rq = Inr i" "rq_persist rq"
    and "evaluate_request rt enc env s rq = (s', Inr d)"
  shows "find_by_fingerprint (sv_repository s') (fingerprint rt enc i (pl_configuration_hash (sv_policy s))) (rq_mode rq) = Some d
    \<and> sv_policy s' = sv_policy s"
proof -
  let ?t = "count_metrics count_request s"
  let ?f = "fingerprint rt enc i (pl_configuration_hash (sv_policy s))"
  have ci: "collect_input env ?t rq = Inr i" using assms(3) by simp
  have mode: "di_mode i = rq_mode rq" "decision_input_ok i"
    using assms(3) by (auto simp: collect_input_def input_values_def bindE_eq_Inr Let_def split: if_splits option.splits)
  obtain u where u: "evaluate_body rt enc env ?t rq = (u, Inr d)" "sv_repository u = sv_repository s'" "sv_policy u = sv_policy s'"
    using assms(5) by (auto simp: evaluate_request_def split_beta prod_eq_iff)
  show ?thesis
  proof (cases "find_by_fingerprint (sv_repository s) ?f (rq_mode rq)")
    case (Some e)
    then show ?thesis
      using u ci by (auto simp: evaluate_body_def)
  next
    case None
    then obtain p c where p: "get_policy (sv_policies s) (di_policy_name i) (di_policy_version i) = Inr p"
      and c: "evaluate rt (fingerprint rt enc) p i = Inr c" and st: "store_decision rt env ?t rq c = (u, Inr d)"
      using u(1) ci by (auto simp: evaluate_body_def bindE_eq_Inr split: sum.splits)
    have "p = sv_policy s" using p assms(1) by (simp add: service_ok_def own_policy_def)
    then have fp: "decision_fp c = (?f, rq_mode rq)" using evaluate_storable(6) [OF c] mode by simp
    have "legitimate (decision_idf rt) c" using evaluate_storable(1) [OF c] assms(2) by (simp add: legitimate_def)
    then have "find_by_fingerprint (fst (save_decision (sv_repository s) c)) ?f (rq_mode rq)
        = Some (snd (save_decision (sv_repository s) c))"
      using decision_repo.save_returns_stored [of "decision_idf rt" "sv_repository s" c] fp assms(1)
      by (simp add: service_ok_def)
    then show ?thesis
      using st assms(4) u(2,3) by (auto simp: store_decision_def Let_def split_beta split: if_splits)
  qed
qed

text \<open>A service that goes on serving: every step of \<open>service_step\<close>, the cleanup under the condition that the retention
  of the decision has not passed.\<close>

definition retained :: "environment \<Rightarrow> service \<Rightarrow> signal_decision \<Rightarrow> bool" where
  "retained env s d \<longleftrightarrow> (let t = dcf_retention (sv_config s)
     in en_now env - days_td (if sd_mode d = Live then rt_live_days t else rt_replay_days t) \<le> sd_valid_until d)"

inductive serving_step :: "runtime \<Rightarrow> (decision_input \<Rightarrow> string \<Rightarrow> string) \<Rightarrow> signal_decision \<Rightarrow> service \<Rightarrow> service \<Rightarrow> bool" for rt enc d where
  serve_evaluate: "serving_step rt enc d s (fst (evaluate_request rt enc env s rq))"
| serve_cleanup: "retained env s d \<Longrightarrow> serving_step rt enc d s (fst (cleanup env s))"
| serve_start: "start_service s = Inr s' \<Longrightarrow> serving_step rt enc d s s'"
| serve_stop: "serving_step rt enc d s (stop_service s)"
| serve_bus: "bus_step isinst (sv_bus s) b \<Longrightarrow> serving_step rt enc d s (s\<lparr>sv_bus := b\<rparr>)"
| serve_features: "serving_step rt enc d s (s\<lparr>sv_features := write_feature (sv_features s) r\<rparr>)"

lemma serving_service_step: "serving_step rt enc d s s' \<Longrightarrow> service_step rt enc s s'"
  by (induction rule: serving_step.induct) (rule service_step.intros; assumption?)+

lemma evaluate_policy: "sv_policy (fst (evaluate_request rt enc env s rq)) = sv_policy s"
proof -
  have "sv_policy (publish_decision rt env t d pub) = sv_policy t" for t d pub
    by (auto simp: publish_decision_def publish_event_def publish_feature_def split: option.split sum.split prod.split)
  then have "sv_policy (fst (evaluate_body rt enc env t rq)) = sv_policy t" for t
    by (auto simp: evaluate_body_def store_decision_def Let_def split_beta split: sum.split option.split)
  then show ?thesis by (simp add: evaluate_request_def split_beta)
qed

lemma published_repository: "sv_repository (publish_decision rt env s d pub) = sv_repository s"
  by (auto simp: publish_decision_def publish_event_def publish_feature_def split: option.split sum.split prod.split)

lemma evaluate_keeps_found:
  assumes "service_ok rt s" "inj (decision_idf rt)" "find_by_fingerprint (sv_repository s) f m = Some d"
  shows "find_by_fingerprint (sv_repository (fst (evaluate_request rt enc env s rq))) f m = Some d"
proof -
  have "find_by_fingerprint (sv_repository (fst (evaluate_body rt enc env t rq))) f m = Some d"
    if t: "sv_repository t = sv_repository s" "service_ok rt t" for t
  proof -
    have save: "find_by_fingerprint (fst (save_decision (sv_repository t) c)) f m = Some d"
      if "evaluate rt (fingerprint rt enc) p i = Inr c" for p i c
      using decision_repo.save_stable [of "decision_idf rt" "sv_repository t" c "(f, m)" d] evaluate_storable(1) [OF that] assms t
      by (simp add: service_ok_def legitimate_def)
    show ?thesis using assms(3) t(1) save
      by (auto simp: evaluate_body_def store_decision_def bindE_eq_Inr Let_def split_beta published_repository split: sum.split option.split)
  qed
  from this [of "count_metrics count_request s"] assms(1) show ?thesis
    by (simp add: evaluate_request_def split_beta service_ok_def)
qed

lemma cleanup_keeps_found:
  assumes "service_ok rt s" "find_by_fingerprint (sv_repository s) f m = Some d" "retained env s d"
  shows "find_by_fingerprint (sv_repository (fst (cleanup env s))) f m = Some d"
proof -
  let ?t = "dcf_retention (sv_config s)" and ?n = "nat (rt_cleanup_batch_size (dcf_retention (sv_config s)))"
  have ok: "repository_ok (decision_idf rt) (sv_repository s)" using assms(1) by (simp add: service_ok_def)
  have d: "map_of (rp_decisions (sv_repository s)) (decision_idf rt (f, m)) = Some d" "decision_fp d = (f, m)"
    using assms(2) find_iff_stored [OF ok] by simp_all
  obtain r1 n1 where p1: "prune (sv_repository s) (en_now env - days_td (rt_live_days ?t)) Live ?n = (r1, n1)" by fastforce
  obtain r2 n2 where p2: "prune r1 (en_now env - days_td (rt_replay_days ?t)) Replay ?n = (r2, n2)" by fastforce
  have live: "\<not> (sd_mode d = Live \<and> sd_valid_until d < en_now env - days_td (rt_live_days ?t))"
    and replay: "\<not> (sd_mode d = Replay \<and> sd_valid_until d < en_now env - days_td (rt_replay_days ?t))"
    using assms(3) by (auto simp: retained_def Let_def)
  have 1: "repository_ok (decision_idf rt) r1" "map_of (rp_decisions r1) (decision_idf rt (f, m)) = Some d"
    using prune_effect [OF ok p1] d(1) live by blast+
  have 2: "repository_ok (decision_idf rt) r2" "map_of (rp_decisions r2) (decision_idf rt (f, m)) = Some d"
    using prune_effect [OF 1(1) p2] 1(2) replay by blast+
  have "sv_repository (fst (cleanup env s)) = r2" using p1 p2 by (simp add: cleanup_def Let_def)
  then show ?thesis using find_iff_stored [OF 2(1)] 2(2) d(2) by simp
qed

lemma serving_keeps:
  assumes "(serving_step rt enc d)\<^sup>*\<^sup>* s s'" "inj (decision_idf rt)" "service_ok rt s" "metrics_consistent (sv_metrics s)"
    and "find_by_fingerprint (sv_repository s) f m = Some d"
  shows "service_ok rt s' \<and> metrics_consistent (sv_metrics s') \<and> sv_policy s' = sv_policy s \<and> find_by_fingerprint (sv_repository s') f m = Some d"
  using assms(1)
proof (induction rule: rtranclp_induct)
  case (step t u)
  then have t: "service_ok rt t" "metrics_consistent (sv_metrics t)" "sv_policy t = sv_policy s" "find_by_fingerprint (sv_repository t) f m = Some d"
    by auto
  have "sv_policy u = sv_policy t \<and> find_by_fingerprint (sv_repository u) f m = Some d"
    using step.hyps(2)
  proof cases
    case (serve_evaluate env rq)
    then show ?thesis using evaluate_keeps_found [OF t(1) assms(2) t(4)] evaluate_policy by simp
  next
    case (serve_cleanup env)
    then show ?thesis using cleanup_keeps_found [OF t(1,4)] by (simp add: cleanup_def Let_def split_beta)
  qed (use t(4) in \<open>auto simp: start_service_def stop_service_def bindE_eq_Inr\<close>)
  then show ?case using service_step_ok [OF serving_service_step [OF step.hyps(2)] assms(2) t(1,2)] t by simp
qed (use assms in simp)

text \<open>Claim C33: a decision is made once. When a persisting request has returned \<open>d\<close>, then after any further life of the
  service, other requests, cleanups within the retention of \<open>d\<close>, stops and restarts included, a request in the same mode
  whose input has the same fingerprint returns \<open>d\<close> again, whatever its own flags and the environment are, and leaves
  repository, bus and feature store as they were: no second event is published; only the duplicate is counted. Identifiers
  are taken to be free of collisions.\<close>

theorem evaluate_request_once:
  assumes "service_reachable rt enc s" and "inj (decision_idf rt)"
    and "collect_input env s rq = Inr i" and "rq_persist rq" and "evaluate_request rt enc env s rq = (s1, Inr d)"
    and "(serving_step rt enc d)\<^sup>*\<^sup>* s1 s2"
    and "collect_input env' s2 rq' = Inr i'" and "rq_mode rq' = rq_mode rq" and "undated i' = undated i"
  shows "\<exists>s3. evaluate_request rt enc env' s2 rq' = (s3, Inr d)
    \<and> sv_repository s3 = sv_repository s2 \<and> sv_bus s3 = sv_bus s2 \<and> sv_features s3 = sv_features s2
    \<and> mt_duplicates_total (sv_metrics s3) = mt_duplicates_total (sv_metrics s2) + 1"
proof -
  let ?f = "fingerprint rt enc i (pl_configuration_hash (sv_policy s))"
  note ok = service_reachable_ok [OF assms(1,2)]
  have found: "find_by_fingerprint (sv_repository s1) ?f (rq_mode rq) = Some d" "sv_policy s1 = sv_policy s"
    using evaluate_request_stored [OF _ assms(2-5)] ok by simp_all
  have ok1: "service_ok rt s1 \<and> metrics_consistent (sv_metrics s1)"
    using service_step_ok [OF evaluate_step [of rt enc s env rq] assms(2)] ok assms(5) by simp
  have found2: "find_by_fingerprint (sv_repository s2) ?f (rq_mode rq) = Some d" "sv_policy s2 = sv_policy s"
    using serving_keeps [OF assms(6,2) _ _ found(1)] ok1 found(2) by simp_all
  then have "find_by_fingerprint (sv_repository s2) (fingerprint rt enc i' (pl_configuration_hash (sv_policy s2))) (rq_mode rq') = Some d"
    using assms(8,9) by (simp add: fingerprint_def)
  moreover have "collect_input env' (count_metrics count_request s2) rq' = Inr i'" using assms(7) by simp
  ultimately show ?thesis
    by (simp add: evaluate_request_def evaluate_body_def count_duplicate_def count_duration_def count_request_def)
qed

text \<open>A decision read after its validity is always shown as expired, one read before it
  never is, and the explanation agrees with the state shown; the repository itself keeps the
  decision as it was made.\<close>

theorem read_shows_expiry:
  assumes "service_reachable rt enc s" and "inj (decision_idf rt)" and "read_decision env s k = Some d"
  shows "(sd_state d = Expired_State \<longleftrightarrow> sd_valid_until d \<le> en_now env)
    \<and> de_decision_state (sd_explanation d) = sd_state d
    \<and> (\<exists>e. get_decision (sv_repository s) k = Some e \<and> sd_valid_until d = sd_valid_until e \<and> sd_direction d = sd_direction e
          \<and> (en_now env < sd_valid_until e \<longrightarrow> d = e))"
proof -
  obtain e where e: "map_of (rp_decisions (sv_repository s)) k = Some e"
    using assms(3) by (auto simp: read_decision_def get_decision_def split: option.splits)
  then have "sd_state e \<noteq> Expired_State" "de_decision_state (sd_explanation e) = sd_state e"
    using service_reachable_ok [OF assms(1,2)] by (auto simp: service_ok_def stored_valid_def)
  then show ?thesis
    using assms(3) e by (auto simp: read_decision_def get_decision_def split: if_splits)
qed

text \<open>A request that fails, for whatever reason, leaves repository, bus and feature store
  as they were; it is counted once, as a failure, and its duration is kept.\<close>

theorem failed_request_no_trace:
  assumes "evaluate_request rt enc env s rq = (s', Inl e)"
  shows "sv_repository s' = sv_repository s \<and> sv_bus s' = sv_bus s \<and> sv_features s' = sv_features s
    \<and> mt_failed_total (sv_metrics s') = mt_failed_total (sv_metrics s) + 1
    \<and> mt_completed_total (sv_metrics s') = mt_completed_total (sv_metrics s)
    \<and> mt_duplicates_total (sv_metrics s') = mt_duplicates_total (sv_metrics s)
    \<and> mt_durations_ms (sv_metrics s') = push_bounded 500 (mt_durations_ms (sv_metrics s)) (en_duration_ms env)"
proof -
  obtain u where "evaluate_body rt enc env (count_metrics count_request s) rq = (u, Inl e)"
    and s': "s' = count_metrics (count_duration (en_duration_ms env)) u"
    using assms by (auto simp: evaluate_request_def split_beta prod_eq_iff)
  then have "u = count_metrics count_failure (count_metrics count_request s)
      \<or> u = count_metrics count_persistence_failure (count_metrics count_request s)"
    by (auto simp: evaluate_body_def store_decision_def Let_def split_beta split: sum.splits option.splits if_splits)
  then show ?thesis
    by (auto simp: s' count_duration_def count_failure_def count_persistence_failure_def count_request_def)
qed

text \<open>References to stored decisions pass their validators.\<close>

lemma reference_ok: "decision_fields_ok d \<Longrightarrow> history_ref_ok (reference_of d)"
  by (simp add: decision_fields_ok_def scores_ok_def history_ref_ok_def reference_of_def)

lemma recent_stored:
  assumes "service_ok rt s" "d \<in> set (recent_of_mode s rq boundary)"
  shows "decision_fields_ok d"
proof -
  have "d \<in> set (map snd (rp_decisions (sv_repository s)))"
    using assms(2) by (auto simp: recent_of_mode_def find_recent_decisions_def list_decisions_def dest!: in_set_takeD in_set_dropD)
  then show ?thesis
    using decisions_distinct(2) [of "decision_idf rt" "sv_repository s" d] assms(1)
    by (auto simp: service_ok_def stored_valid_def)
qed

lemma collected_history_ok:
  assumes "service_ok rt s" and "h = history_of (recent_of_mode s rq boundary) d boundary"
  shows "\<forall>x \<in> set (List.map_filter id [dhi_latest h, dhi_active h, dhi_recent_same_direction h,
    dhi_recent_opposite_eligible h]). history_ref_ok x"
  using recent_stored [OF assms(1)] reference_ok
  by (auto simp: assms(2) history_of_def List.map_filter_simps dest!: find_member split: option.splits)

text \<open>A request that can be collected is answered, unless the write fails.\<close>

lemma evaluate_request_answers:
  assumes "service_ok rt s" and "decision_config_ok (sv_config s)" and "validity_complete (sv_config s)"
    and "rules_complete (sv_policy s)" and "digest_ok rt (fingerprint rt enc) (sv_policy s)"
    and "collect_input env s rq = Inr i" and "neutral_is_weak (sv_config s) i" and "en_save_ok env \<or> \<not> rq_persist rq"
  shows "\<exists>s' d. evaluate_request rt enc env s rq = (s', Inr d) \<and> decision_invariants d"
proof -
  let ?t = "count_metrics count_request s"
  have i: "decision_input_ok i" "get_policy (sv_policies s) (di_policy_name i) (di_policy_version i) = Inr (sv_policy s)"
    using assms(1,6)
    by (auto simp: collect_input_def input_values_def bindE_eq_Inr Let_def service_ok_def own_policy_def
        split: if_splits option.splits)
  obtain c where c: "evaluate rt (fingerprint rt enc) (sv_policy s) i = Inr c" "decision_invariants c"
    using evaluate_succeeds [OF i(1) assms(2-5,7)] by blast
  have stored: "decision_invariants d" if "find_by_fingerprint (sv_repository s) f m = Some d" for f m d
    using that assms(1) by (auto simp: find_by_fingerprint_def get_decision_def bind_eq_Some_conv service_ok_def stored_valid_def)
  have ok: "repository_ok (decision_idf rt) (sv_repository s)" using assms(1) by (simp add: service_ok_def)
  have kept: "decision_invariants (snd (save_decision (sv_repository s) c))"
  proof (cases "find_by_fingerprint (sv_repository s) (sd_input_fingerprint c) (sd_mode c)")
    case None
    then show ?thesis using find_none_iff [OF ok] c(2) by (simp add: save_decision_def decision_fp_def)
  qed (use save_existing stored in simp)
  have "\<exists>u d. evaluate_body rt enc env ?t rq = (u, Inr d) \<and> decision_invariants d"
    using assms(6,8) i c stored kept
    by (auto simp: evaluate_body_def store_decision_def Let_def split_beta split: option.split)
  then show ?thesis by (auto simp: evaluate_request_def split_beta)
qed

subsection \<open>A concrete service\<close>

definition sample_environment :: environment where
  "sample_environment = \<lparr>en_now = seconds_td 61,
     en_snapshots = (\<lambda>k. if k = ''s1'' then Some sample_snapshot else None),
     en_calendar = Some (\<lambda>_ _. Some \<lparr>cv_context_id = ''e'', cv_risk_window_phase = ''outside'',
       cv_risk_score = fl64 (1/20), cv_analysis_timestamp = 0, cv_unavailable_context = False,
       cv_context_state = ''outside_risk_window'', cv_active_event_ids = [], cv_next_event_id = None\<rparr>),
     en_regimes = Some (\<lambda>_ _ _. Some (Some \<lparr>rg_snapshot_id = ''r'', rg_dominant_regime = ''trending_bull'',
       rg_analysis_timestamp = 0, rg_is_degraded = False\<rparr>)),
     en_ai_status = ''healthy'', en_save_ok = True, en_feature_store_ok = True,
     en_isinstance = (=), en_completes = (\<lambda>_ _. True), en_duration_ms = fint 3\<rparr>"

definition sample_request :: decision_request where
  "sample_request = \<lparr>rq_instrument = ''XAUUSD'', rq_timeframe = M15, rq_ai_score_snapshot_id = ''s1'',
     rq_as_of = Some (seconds_td 60), rq_mode = Live, rq_policy_name = None, rq_policy_version = None,
     rq_persist = True, rq_publish_events = True, rq_analysis = di_analysis sample_decision_input, rq_signal = None,
     rq_temporal_context = None, rq_temporal_metrics = None, rq_market_snapshot_id = Some ''mkt'',
     rq_quantitative_forecast_id = None, rq_current_price = Some (fint 2310), rq_expected_move = None,
     rq_primary_scenario = Some sample_selection\<rparr>"

definition sample_features :: feature_store where
  "sample_features = \<lparr>st_records = [], st_max_entries = 5, st_evictions = 0\<rparr>"

definition sample_service :: service where
  "sample_service = \<lparr>sv_repository = empty_repository, sv_policies = [(policy_ident sample_policy, sample_policy)],
     sv_policy = sample_policy, sv_metrics = no_metrics, sv_bus = sample_bus, sv_features = sample_features,
     sv_repository_mode = ''postgres'', sv_initialized = False, sv_closed = False\<rparr>"

lemma sample_idf_service: "inj (decision_idf sample_runtime)"
proof (rule injI)
  fix x y :: "string \<times> decision_mode"
  assume "decision_idf sample_runtime x = decision_idf sample_runtime y"
  then show "x = y"
    by (cases "snd x"; cases "snd y")
      (auto simp: decision_idf_def decision_uuid_def stable_id_def sample_runtime_def mode_value_def prod_eq_iff)
qed

lemma sample_service_reachable: "service_reachable rt enc sample_service"
proof (rule created)
  show "new_service sample_policy empty_repository sample_bus sample_features ''postgres'' = Inr sample_service"
    by (simp add: new_service_def register_policy_def dict_register_def sample_service_def)
qed (simp_all add: bus_ok_def bus_log.capped_def feature_log.capped_def sample_bus_def sample_features_def)

text \<open>The input collected for it: the sample input with the health of four dependencies, and the
  history of the boundary.\<close>

definition sample_collected :: "service \<Rightarrow> decision_input" where
  "sample_collected s = sample_decision_input\<lparr>
     di_dependency_health := dependency_health_of sample_environment s (seconds_td 60),
     di_history := history_of (recent_of_mode s sample_request (seconds_td 60)) Bull (seconds_td 60)\<rparr>"

lemma sample_collect:
  assumes "service_ok rt s" "sv_policy s = sample_policy" "sv_policies s = sv_policies sample_service"
  shows "collect_input sample_environment s sample_request = Inr (sample_collected s)"
proof -
  have pol: "get_policy (sv_policies s) ''conservative_signal_policy'' ''1.0.0'' = Inr sample_policy"
    "dcf_policy_name default_decision_config = ''conservative_signal_policy''"
    "dcf_policy_version default_decision_config = ''1.0.0''"
    by (simp_all add: assms(3) sample_service_def get_policy_def policy_ident_def sample_policy_ok(5) default_decision_config_def)
  have ec: "economic_context sample_environment ''XAUUSD'' (seconds_td 60) = di_economic_risk sample_decision_input"
    by code_simp
  have rg: "regime_context sample_environment ''XAUUSD'' M15 (seconds_td 60) = di_market_regime sample_decision_input"
    by (simp add: regime_context_def sample_environment_def sample_decision_input_def)
  have lab: "label_direction default_decision_config (ss_directional_label sample_snapshot) = Inr Bull"
    using sample_route(1) by (simp add: sample_decision_input_def)
  have "decision_input_ok (sample_collected s)"
    using sample_decision_input_ok collected_history_ok [OF assms(1) refl]
    unfolding decision_input_ok_def sample_collected_def by simp
  moreover have "input_values sample_environment s sample_request (seconds_td 60) ''conservative_signal_policy'' ''1.0.0''
      sample_snapshot Bull = sample_collected s"
    by (simp add: input_values_def sample_collected_def ec rg sample_request_def sample_decision_input_def)
      (simp add: sample_environment_def)
  moreover have "rq_as_of sample_request = Some (seconds_td 60)" "rq_policy_name sample_request = None"
    "rq_policy_version sample_request = None" "rq_ai_score_snapshot_id sample_request = ''s1''"
    "en_snapshots sample_environment ''s1'' = Some sample_snapshot"
    "\<not> en_now sample_environment + seconds_td (dcf_future_clock_skew_seconds default_decision_config) < seconds_td 60"
    by (simp_all add: sample_request_def sample_environment_def default_decision_config_def seconds_td_def)
  ultimately show ?thesis
    using pol lab unfolding collect_input_def Let_def assms(2) sample_policy_ok(5) by simp
qed

definition sample_enc :: "decision_input \<Rightarrow> string \<Rightarrow> string" where
  "sample_enc i h = h"

lemma sample_answer:
  obtains s d where "evaluate_request sample_runtime sample_enc sample_environment sample_service sample_request = (s, Inr d)"
    "service_reachable sample_runtime sample_enc s" "service_ok sample_runtime s" "sv_policy s = sample_policy"
    "sv_policies s = sv_policies sample_service"
    "find_by_fingerprint (sv_repository s) (fingerprint sample_runtime sample_enc (sample_collected sample_service)
       (pl_configuration_hash sample_policy)) Live = Some d"
proof -
  note reach = sample_service_reachable [of sample_runtime sample_enc]
  have ok: "service_ok sample_runtime sample_service"
    using service_reachable_ok [OF reach sample_idf_service] by blast
  have p: "sv_policy sample_service = sample_policy" by (simp add: sample_service_def)
  note ci = sample_collect [OF ok p refl]
  have "digest_ok sample_runtime (fingerprint sample_runtime sample_enc) sample_policy"
    by (simp add: digest_ok_def fingerprint_def sample_runtime_def sample_policy_def)
  moreover have "neutral_is_weak (pl_config sample_policy) (sample_collected sample_service)"
    using sample_neutral_is_weak by (simp add: neutral_is_weak_def sample_collected_def)
  moreover have save: "en_save_ok sample_environment" by (simp add: sample_environment_def)
  ultimately obtain s d where e: "evaluate_request sample_runtime sample_enc sample_environment sample_service sample_request = (s, Inr d)"
    using evaluate_request_answers [OF ok _ _ _ _ ci, of sample_enc] sample_policy_ok(1-3) unfolding p by blast
  have r: "service_reachable sample_runtime sample_enc s"
    using stepped [OF reach evaluate_step, of sample_environment sample_request] e by simp
  have persist: "rq_persist sample_request" "rq_mode sample_request = Live" by (simp_all add: sample_request_def)
  have pol: "sv_policies (fst (evaluate_request rt enc env t rq)) = sv_policies t" for rt enc env t rq
    by (auto simp: evaluate_request_def evaluate_body_def store_decision_def split_beta Let_def split: sum.split option.split)
  show ?thesis
    using that [OF e r] service_reachable_ok [OF r sample_idf_service] pol [of sample_runtime sample_enc sample_environment sample_service sample_request]
      evaluate_request_stored [OF ok sample_idf_service ci persist(1) e] e
    by (auto simp: p persist)
qed

theorem service_invariant_witness:
  "\<exists>s d. evaluate_request sample_runtime sample_enc sample_environment sample_service sample_request = (s, Inr d)
    \<and> mt_requests_total (sv_metrics s) = mt_completed_total (sv_metrics s) + mt_duplicates_total (sv_metrics s)
        + mt_failed_total (sv_metrics s)"
proof (rule sample_answer)
  fix s d
  assume "evaluate_request sample_runtime sample_enc sample_environment sample_service sample_request = (s, Inr d)"
    and "service_reachable sample_runtime sample_enc s"
  from this(1) service_invariant [OF this(2) sample_idf_service] show ?thesis by blast
qed

theorem evaluate_request_once_witness:
  "\<exists>s1 s3 d. evaluate_request sample_runtime sample_enc sample_environment sample_service sample_request = (s1, Inr d)
    \<and> evaluate_request sample_runtime sample_enc sample_environment (stop_service s1) sample_request = (s3, Inr d)
    \<and> sv_repository s3 = sv_repository s1"
proof (rule sample_answer)
  fix s d
  assume s: "evaluate_request sample_runtime sample_enc sample_environment sample_service sample_request = (s, Inr d)"
    "service_ok sample_runtime s" "sv_policy s = sample_policy" "sv_policies s = sv_policies sample_service"
  have "service_ok sample_runtime sample_service" "sv_policy sample_service = sample_policy"
    using service_reachable_ok [OF sample_service_reachable sample_idf_service] by (auto simp: sample_service_def)
  note c0 = sample_collect [OF this refl]
  have st: "sv_policy (stop_service s) = sample_policy" "sv_policies (stop_service s) = sv_policies sample_service"
    "service_ok sample_runtime (stop_service s)"
    using s(2-4) by (simp_all add: stop_service_def service_ok_def)
  note c1 = sample_collect [OF st(3,1,2)]
  have "rq_persist sample_request" by (simp add: sample_request_def)
  moreover have "undated (sample_collected (stop_service s)) = undated (sample_collected sample_service)"
    by (simp add: undated_def sample_collected_def)
  moreover have "(serving_step sample_runtime sample_enc d)\<^sup>*\<^sup>* s (stop_service s)" by (rule r_into_rtranclp [of "serving_step sample_runtime sample_enc d", OF serve_stop])
  moreover have "sv_repository (stop_service s) = sv_repository s" by (simp add: stop_service_def)
  ultimately show ?thesis
    using evaluate_request_once [OF sample_service_reachable sample_idf_service c0 _ s(1) _ c1 refl] s(1) by metis
qed

theorem read_shows_expiry_witness:
  "\<exists>s k d. read_decision (sample_environment\<lparr>en_now := seconds_td 1000000\<rparr>) s k = Some d
    \<and> service_reachable sample_runtime sample_enc s \<and> (sd_state d = Expired_State \<longleftrightarrow> sd_valid_until d \<le> seconds_td 1000000)"
proof (rule sample_answer)
  fix s d
  let ?env = "sample_environment\<lparr>en_now := seconds_td 1000000\<rparr>"
  assume s: "service_reachable sample_runtime sample_enc s"
    and f: "find_by_fingerprint (sv_repository s) (fingerprint sample_runtime sample_enc (sample_collected sample_service)
       (pl_configuration_hash sample_policy)) Live = Some d"
  then obtain k where k: "get_decision (sv_repository s) k = Some d"
    by (auto simp: find_by_fingerprint_def bind_eq_Some_conv)
  then obtain e where e: "read_decision ?env s k = Some e"
    by (cases "en_now ?env < sd_valid_until d") (simp_all add: read_decision_def)
  show ?thesis
    using read_shows_expiry [OF s sample_idf_service e] e s by auto
qed

theorem failed_request_no_trace_witness:
  "\<exists>s e. evaluate_request sample_runtime sample_enc sample_environment sample_service
      (sample_request\<lparr>rq_policy_name := Some ''other''\<rparr>) = (s, Inl e)
    \<and> sv_repository s = sv_repository sample_service"
proof -
  let ?rq = "sample_request\<lparr>rq_policy_name := Some ''other''\<rparr>"
  have "policy_ident sample_policy = (''conservative_signal_policy'', ''1.0.0'')"
    by (simp add: policy_ident_def sample_policy_ok(5) default_decision_config_def)
  then have "get_policy (sv_policies sample_service) ''other'' v
      = Inl (Decision_Configuration_Error (''unknown decision policy: '' @ ''other'' @ '':'' @ v))" for v
    by (simp add: sample_service_def get_policy_def)
  moreover have "rq_policy_name ?rq = Some ''other''" by simp
  ultimately have "\<exists>e. collect_input sample_environment sample_service ?rq = Inl e"
    unfolding collect_input_def Let_def by simp
  then obtain e s where "evaluate_request sample_runtime sample_enc sample_environment sample_service ?rq = (s, Inl e)"
    by (auto simp: evaluate_request_def evaluate_body_def)
  from this failed_request_no_trace [OF this] show ?thesis by blast
qed

text \<open>What is answered is valid, whoever made it.\<close>

lemma evaluate_request_valid:
  assumes "service_ok rt s" "evaluate_request rt enc env s rq = (s', Inr d)"
  shows "decision_invariants d"
proof -
  let ?t = "count_metrics count_request s"
  have stored: "decision_invariants d" if "find_by_fingerprint (sv_repository s) f m = Some d" for f m d
    using that assms(1) by (auto simp: find_by_fingerprint_def get_decision_def bind_eq_Some_conv service_ok_def stored_valid_def)
  have ok: "repository_ok (decision_idf rt) (sv_repository s)" using assms(1) by (simp add: service_ok_def)
  have saved: "decision_invariants (snd (save_decision (sv_repository s) c))" if "decision_invariants c" for c
  proof (cases "find_by_fingerprint (sv_repository s) (sd_input_fingerprint c) (sd_mode c)")
    case None
    then show ?thesis using find_none_iff [OF ok] that by (simp add: save_decision_def decision_fp_def)
  qed (use save_existing stored in simp)
  obtain u where "evaluate_body rt enc env ?t rq = (u, Inr d)"
    using assms(2) by (auto simp: evaluate_request_def split_beta prod_eq_iff)
  then show ?thesis using stored saved evaluate_storable(2)
    by (auto simp: evaluate_body_def store_decision_def bindE_eq_Inr Let_def split_beta split: sum.splits option.splits if_splits)
qed

text \<open>Claim C34: a request whose input can be collected is answered with a decision that passes the validators, or it fails
  for one of these reasons: the rule registry lacks a production rule, the validity table lacks a state, the observation
  threshold is zero or reached by the score of a neutral label, or the write of a persisting request fails. Neither the
  health of the optional services, the feature store, the event handlers nor the history can make it fail. The
  configuration is a validated one, the digests have 64 characters, and identifiers do not collide.\<close>

theorem evaluate_request_total:
  assumes "service_reachable rt enc s" and "inj (decision_idf rt)" and "decision_config_ok (sv_config s)"
    and "digest_ok rt (fingerprint rt enc) (sv_policy s)" and "collect_input env s rq = Inr i"
  shows "case snd (evaluate_request rt enc env s rq) of
      Inr d \<Rightarrow> decision_invariants d
    | Inl e \<Rightarrow> \<not> rules_complete (sv_policy s) \<or> \<not> validity_complete (sv_config s) \<or> \<not> neutral_is_weak (sv_config s) i
        \<or> rq_persist rq \<and> \<not> en_save_ok env"
proof -
  have ok: "service_ok rt s" using service_reachable_ok [OF assms(1,2)] by blast
  obtain s' x where x: "evaluate_request rt enc env s rq = (s', x)" by fastforce
  show ?thesis
  proof (cases x)
    case (Inl e)
    then have "\<not> (\<exists>s' d. evaluate_request rt enc env s rq = (s', Inr d) \<and> decision_invariants d)" using x by simp
    then show ?thesis using evaluate_request_answers [OF ok assms(3) _ _ assms(4,5)] Inl x by auto
  next
    case (Inr d)
    then show ?thesis using evaluate_request_valid [OF ok] x by simp
  qed
qed

theorem evaluate_request_total_witness:
  "\<exists>s d. evaluate_request sample_runtime sample_enc sample_environment sample_service sample_request = (s, Inr d)
    \<and> decision_invariants d"
proof -
  note reach = sample_service_reachable [of sample_runtime sample_enc]
  have p: "sv_policy sample_service = sample_policy" by (simp add: sample_service_def)
  have ok: "service_ok sample_runtime sample_service"
    using service_reachable_ok [OF reach sample_idf_service] by blast
  have "digest_ok sample_runtime (fingerprint sample_runtime sample_enc) sample_policy"
    by (simp add: digest_ok_def fingerprint_def sample_runtime_def sample_policy_def)
  moreover have "neutral_is_weak (pl_config sample_policy) (sample_collected sample_service)"
    using sample_neutral_is_weak by (simp add: neutral_is_weak_def sample_collected_def)
  moreover have "en_save_ok sample_environment" by (simp add: sample_environment_def)
  ultimately show ?thesis
    using evaluate_request_total [OF reach sample_idf_service _ _ sample_collect [OF ok p refl]] sample_policy_ok
    by (cases "evaluate_request sample_runtime sample_enc sample_environment sample_service sample_request")
      (auto simp: p split: sum.split_asm)
qed

text \<open>The cooldown watches the direction of the score label, not the direction the decision
  takes. The history is selected by the label's direction; when no recent decision has that
  direction the cooldown is clear, although the decision follows the primary selection and a
  decision in that very direction may be seconds old.\<close>

theorem cooldown_watches_label:
  assumes "di_history i = history_of recent mapped boundary" and "\<forall>x \<in> set recent. sd_direction x \<noteq> mapped"
  shows "rs_outcome (cooldown_rule c i) = Passed"
proof -
  have "find (\<lambda>x. sd_direction x = mapped) recent = None"
    using assms(2) by (simp add: find_None_iff)
  then show ?thesis
    using assms(1) by (simp add: history_of_def cooldown_rule_def rspec_def Let_def)
qed

text \<open>A bullish score, a selected SELL, and a SELL decided a minute ago: the history selected by the
  direction of the decision would block.\<close>

theorem cooldown_watches_label_witness:
  "\<exists>i recent. di_history i = history_of recent Bull (seconds_td 60) \<and> direction_for i Bull = Bear
    \<and> rs_outcome (cooldown_rule default_decision_config i) = Passed
    \<and> rs_outcome (cooldown_rule default_decision_config (i\<lparr>di_history := history_of recent Bear (seconds_td 60)\<rparr>)) = Failed"
proof -
  let ?recent = "[(plain_decision ''a'' 0)\<lparr>sd_direction := Bear\<rparr>]"
  let ?i = "sample_decision_input\<lparr>di_history := history_of ?recent Bull (seconds_td 60),
    di_primary_scenario := Some (sample_selection\<lparr>sl_authoritative_action := SELL\<rparr>)\<rparr>"
  have "direction_for ?i Bull = Bear" by (simp add: direction_for_def action_direction_def)
  moreover have "rs_outcome (cooldown_rule default_decision_config ?i) = Passed"
    by (rule cooldown_watches_label [of _ ?recent Bull]) simp_all
  moreover have "rs_outcome (cooldown_rule default_decision_config (?i\<lparr>di_history := history_of ?recent Bear (seconds_td 60)\<rparr>)) = Failed"
    by code_simp
  ultimately show ?thesis by (intro exI [of _ ?i] exI [of _ ?recent]) simp
qed

end
