(* ===== verification/Scenario_Geometry.thy ===== *)
theory Scenario_Geometry
  imports Scenario_Models Forecast_Models
begin

text \<open>
  Validation of scenario geometry (\<open>scenario_forecasting/validation.py\<close>) and the conversion and
  display rules of an instrument (\<open>scenario_forecasting/instrument.py\<close>). A result triple is a
  validity, the geometry if it is valid, and the reason if it is not; building a model whose
  validator fails is the error \<open>Scenario_Validation\<close>.
\<close>

datatype scenario_error = Scenario_Value_Error string | Scenario_Validation string | Scenario_Stop_Iteration

type_synonym geometry_result = "geometry_validity \<times> scenario_geometry option \<times> string option"

subsection \<open>Geometry\<close>

record geometry_candidate =
  gc_direction :: scenario_direction
  gc_reference_price :: f64
  gc_entry_zone :: price_zone
  gc_entry :: f64
  gc_stop_loss :: f64
  gc_take_profit :: f64
  gc_secondary_target :: "f64 option"
  gc_expected_move :: f64
  gc_maximum_entry_distance :: f64
  gc_minimum_risk_reward :: f64
  gc_basis_fact_identifiers :: "string list"

definition gc_risk :: "geometry_candidate \<Rightarrow> f64" where
  "gc_risk c = \<bar>gc_entry c - gc_stop_loss c\<bar>"

definition gc_reward :: "geometry_candidate \<Rightarrow> f64" where
  "gc_reward c = \<bar>gc_take_profit c - gc_entry c\<bar>"

text \<open>The early returns: reachability, then the order of the levels in the direction of the trade, then
  the proportions. \<open>None\<close> is a candidate that passes them all.\<close>

definition entry_rejection :: "geometry_candidate \<Rightarrow> (geometry_validity \<times> string) option" where
  "entry_rejection c =
     (if gc_direction c \<notin> {Sc_Bullish, Sc_Bearish} then Some (Gv_Unavailable, ''scenario_direction_is_not_tradeable'')
      else if gc_basis_fact_identifiers c = [] then Some (Gv_Unavailable, ''structural_basis_unavailable'')
      else if gc_maximum_entry_distance c < \<bar>gc_entry c - gc_reference_price c\<bar>
      then Some (Gv_Not_Executable, ''entry_not_realistically_reachable'')
      else if \<not> (pz_low (gc_entry_zone c) \<le> gc_entry c \<and> gc_entry c \<le> pz_high (gc_entry_zone c))
      then Some (Gv_Not_Executable, ''entry_outside_executable_zone'')
      else None)"

definition ordering_rejection :: "geometry_candidate \<Rightarrow> (geometry_validity \<times> string) option" where
  "ordering_rejection c =
     (if gc_direction c = Sc_Bullish then
        (if \<not> (gc_stop_loss c < gc_entry c \<and> gc_entry c < gc_take_profit c) then Some (Gv_Unavailable, ''invalid_buy_geometry_ordering'')
         else if gc_take_profit c \<le> gc_reference_price c then Some (Gv_Not_Executable, ''buy_target_already_traversed'')
         else if gc_reference_price c \<le> gc_stop_loss c then Some (Gv_Not_Executable, ''buy_invalidation_already_traversed'')
         else None)
      else
        (if \<not> (gc_take_profit c < gc_entry c \<and> gc_entry c < gc_stop_loss c) then Some (Gv_Unavailable, ''invalid_sell_geometry_ordering'')
         else if gc_reference_price c \<le> gc_take_profit c then Some (Gv_Not_Executable, ''sell_target_already_traversed'')
         else if gc_stop_loss c \<le> gc_reference_price c then Some (Gv_Not_Executable, ''sell_invalidation_already_traversed'')
         else None))"

definition proportion_rejection :: "geometry_candidate \<Rightarrow> (geometry_validity \<times> string) option" where
  "proportion_rejection c =
     (if gc_risk c \<le> 0 \<or> gc_reward c \<le> 0 then Some (Gv_Unavailable, ''zero_risk_or_reward'')
      else if gc_reward c / gc_risk c < gc_minimum_risk_reward c then Some (Gv_Unavailable, ''risk_reward_below_minimum'')
      else if gc_expected_move c * fl64 (3 / 2) < gc_reward c
      then Some (Gv_Unavailable, ''target_exceeds_expected_scenario_move'')
      else None)"

definition geometry_rejection :: "geometry_candidate \<Rightarrow> (geometry_validity \<times> string) option" where
  "geometry_rejection c = (case entry_rejection c of Some r \<Rightarrow> Some r
     | None \<Rightarrow> (case ordering_rejection c of Some r \<Rightarrow> Some r | None \<Rightarrow> proportion_rejection c))"

definition rounded_geometry :: "geometry_candidate \<Rightarrow> scenario_geometry" where
  "rounded_geometry c = \<lparr>ge_entry_zone = gc_entry_zone c, ge_entry = round_nd 6 (gc_entry c),
     ge_stop_loss = round_nd 6 (gc_stop_loss c), ge_take_profit = round_nd 6 (gc_take_profit c),
     ge_secondary_target = map_option (round_nd 6) (gc_secondary_target c),
     ge_risk_reward_ratio = round_nd 6 (gc_reward c / gc_risk c),
     ge_basis_fact_identifiers = gc_basis_fact_identifiers c, ge_validity = Gv_Valid,
     ge_reason = ''deterministic_forward_geometry_validated''\<rparr>"

definition make_geometry :: "scenario_geometry \<Rightarrow> scenario_error + scenario_geometry" where
  "make_geometry g = (if geometry_ok g then Inr g else Inl (Scenario_Validation ''ScenarioGeometry''))"

definition validate_geometry :: "geometry_candidate \<Rightarrow> scenario_error + geometry_result" where
  "validate_geometry c = (case geometry_rejection c of
     Some (v, reason) \<Rightarrow> Inr (v, None, Some reason)
   | None \<Rightarrow> bindE (make_geometry (rounded_geometry c)) (\<lambda>g. Inr (Gv_Valid, Some g, None)))"

subsection \<open>Instruments\<close>

record instrument_spec =
  is_symbol :: string
  is_tick_size :: f64
  is_display_precision :: int
  is_minimum_stop_distance :: f64
  is_minimum_target_distance :: f64
  is_minimum_meaningful_move :: f64
  is_maximum_expected_move_percent :: f64

definition instrument_spec_ok :: "instrument_spec \<Rightarrow> bool" where
  "instrument_spec_ok s \<longleftrightarrow> 0 < is_tick_size s \<and> 0 \<le> is_display_precision s \<and> is_display_precision s \<le> 8
     \<and> 0 < is_minimum_stop_distance s \<and> 0 < is_minimum_target_distance s \<and> 0 < is_minimum_meaningful_move s
     \<and> 0 < is_maximum_expected_move_percent s \<and> is_maximum_expected_move_percent s \<le> fl64 (1 / 4)"

definition default_instrument :: instrument_spec where
  "default_instrument = \<lparr>is_symbol = ''XAUUSD'', is_tick_size = fl64 (1 / 100), is_display_precision = 2,
     is_minimum_stop_distance = fl64 (1 / 10), is_minimum_target_distance = fl64 (1 / 5),
     is_minimum_meaningful_move = fl64 (1 / 10), is_maximum_expected_move_percent = fl64 (1 / 50)\<rparr>"

text \<open>\<open>round_price\<close>: \<open>dec x\<close> is the value of \<open>Decimal(str(x))\<close>, the shortest decimal that reads back as
  \<open>x\<close>; it is quantized half up (away from zero) to the display precision.\<close>

definition half_up :: "rat \<Rightarrow> int" where
  "half_up q = (if 0 \<le> q then \<lfloor>q + 1 / 2\<rfloor> else - \<lfloor>- q + 1 / 2\<rfloor>)"

definition round_price :: "(f64 \<Rightarrow> rat) \<Rightarrow> instrument_spec \<Rightarrow> f64 \<Rightarrow> f64" where
  "round_price dec s x =
     (let n = nat (is_display_precision s) in fl64 (of_int (half_up (dec x * 10 ^ n)) / 10 ^ n))"

record move_conversion =
  mc_raw_expected_move :: f64
  mc_raw_expected_move_unit :: string
  mc_converted_expected_move :: f64
  mc_conversion_method :: string
  mc_reference_price :: f64

definition conversion_ok :: "move_conversion \<Rightarrow> bool" where
  "conversion_ok m \<longleftrightarrow> 0 \<le> mc_raw_expected_move m \<and> 0 < mc_converted_expected_move m \<and> 0 < mc_reference_price m"

definition converted_move :: "horizon_prediction \<Rightarrow> scenario_error + f64 \<times> string" where
  "converted_move p = (case hp_expected_base_movement_unit p of
     Decimal_Return \<Rightarrow> Inr (hp_reference_price p * hp_expected_base_movement p, ''reference_price_times_decimal_return'')
   | Percent \<Rightarrow> Inr (hp_reference_price p * hp_expected_base_movement p / fint 100,
       ''reference_price_times_percentage_divided_by_100'')
   | Price_Points \<Rightarrow> Inr (hp_expected_base_movement p, ''absolute_price_points_preserved'')
   | u \<Rightarrow> Inl (Scenario_Value_Error (''unsupported_quant_movement_unit:'' @ unit_value u)))"

definition convert_prediction_move :: "horizon_prediction \<Rightarrow> instrument_spec \<Rightarrow> scenario_error + move_conversion" where
  "convert_prediction_move p s = bindE (converted_move p) (\<lambda>(x, how).
     if x < is_minimum_meaningful_move s then Inl (Scenario_Value_Error ''converted_expected_move_below_instrument_minimum'')
     else if hp_reference_price p * is_maximum_expected_move_percent s < x
     then Inl (Scenario_Value_Error ''converted_expected_move_above_instrument_maximum'')
     else let m = \<lparr>mc_raw_expected_move = hp_expected_base_movement p,
            mc_raw_expected_move_unit = unit_value (hp_expected_base_movement_unit p),
            mc_converted_expected_move = x, mc_conversion_method = how, mc_reference_price = hp_reference_price p\<rparr>
          in if conversion_ok m then Inr m else Inl (Scenario_Validation ''QuantMoveConversion''))"

text \<open>\<open>validate_display_geometry\<close>: the distances of the instrument before, the displayed prices after.\<close>

definition display_rejection :: "(f64 \<Rightarrow> rat) \<Rightarrow> instrument_spec \<Rightarrow> scenario_direction \<Rightarrow> f64 \<Rightarrow> scenario_geometry \<Rightarrow> string option" where
  "display_rejection dec s d minimum_rr g =
     (let e = round_price dec s (ge_entry g); st = round_price dec s (ge_stop_loss g); t = round_price dec s (ge_take_profit g)
      in if \<not> distinct [e, st, t] then Some ''display_rounding_collapsed_geometry''
         else if d = Sc_Bullish \<and> \<not> (st < e \<and> e < t) then Some ''display_rounding_invalidated_buy_ordering''
         else if d = Sc_Bearish \<and> \<not> (t < e \<and> e < st) then Some ''display_rounding_invalidated_sell_ordering''
         else if \<bar>t - e\<bar> / \<bar>e - st\<bar> < minimum_rr then Some ''displayed_risk_reward_below_minimum''
         else None)"

definition minimum_stop :: "instrument_spec \<Rightarrow> f64 \<Rightarrow> f64" where
  "minimum_stop s spread = max (max (is_minimum_stop_distance s) (is_tick_size s * fint 2)) (spread * fint 2)"

definition validate_display_geometry :: "(f64 \<Rightarrow> rat) \<Rightarrow> instrument_spec \<Rightarrow> f64 \<Rightarrow> geometry_candidate
    \<Rightarrow> scenario_error + geometry_result" where
  "validate_display_geometry dec s spread c =
     (if \<bar>gc_entry c - gc_stop_loss c\<bar> < minimum_stop s spread
      then Inr (Gv_Unavailable, None, Some ''stop_distance_below_instrument_minimum'')
      else if \<bar>gc_take_profit c - gc_entry c\<bar> < is_minimum_target_distance s
      then Inr (Gv_Unavailable, None, Some ''target_distance_below_instrument_minimum'')
      else bindE (validate_geometry c) (\<lambda>(v, g, reason).
        case g of None \<Rightarrow> Inr (v, None, reason)
        | Some g' \<Rightarrow> (case display_rejection dec s (gc_direction c) (gc_minimum_risk_reward c) g' of
             Some r \<Rightarrow> Inr (Gv_Unavailable, None, Some r) | None \<Rightarrow> Inr (v, Some g', None))))"

subsection \<open>What a valid geometry promises\<close>

lemma rejection_none:
  assumes "geometry_rejection c = None"
  shows "gc_direction c \<in> {Sc_Bullish, Sc_Bearish}" "gc_basis_fact_identifiers c \<noteq> []"
    "\<bar>gc_entry c - gc_reference_price c\<bar> \<le> gc_maximum_entry_distance c"
    "pz_low (gc_entry_zone c) \<le> gc_entry c" "gc_entry c \<le> pz_high (gc_entry_zone c)"
    "gc_direction c = Sc_Bullish \<Longrightarrow> gc_stop_loss c < gc_entry c \<and> gc_entry c < gc_take_profit c
       \<and> gc_stop_loss c < gc_reference_price c \<and> gc_reference_price c < gc_take_profit c"
    "gc_direction c = Sc_Bearish \<Longrightarrow> gc_take_profit c < gc_entry c \<and> gc_entry c < gc_stop_loss c
       \<and> gc_take_profit c < gc_reference_price c \<and> gc_reference_price c < gc_stop_loss c"
    "0 < gc_risk c" "0 < gc_reward c" "gc_minimum_risk_reward c \<le> gc_reward c / gc_risk c"
    "gc_reward c \<le> gc_expected_move c * fl64 (3 / 2)"
  using assms
  by (auto simp: geometry_rejection_def entry_rejection_def ordering_rejection_def proportion_rejection_def not_less not_le
      split: option.splits if_splits)

text \<open>Claim C38: a geometry is accepted only with all of the checks passed: its levels are the
  candidate's, rounded to six decimals, ordered in the direction of the trade around both the
  entry and the reference price, with the minimum risk/reward, a target within one and a half
  expected moves and a reachable entry. Any other answer carries no geometry and a reason.\<close>

theorem validate_geometry_sound:
  assumes "validate_geometry c = Inr (v, g, reason)"
  shows "(g = None \<longleftrightarrow> v \<noteq> Gv_Valid) \<and> (g = None \<longleftrightarrow> reason \<noteq> None) \<and> reason \<noteq> Some []
    \<and> (g \<noteq> None \<longrightarrow> g = Some (rounded_geometry c) \<and> geometry_ok (rounded_geometry c)
        \<and> (if gc_direction c = Sc_Bullish then gc_stop_loss c < min (gc_entry c) (gc_reference_price c)
              \<and> max (gc_entry c) (gc_reference_price c) < gc_take_profit c
           else gc_direction c = Sc_Bearish \<and> gc_take_profit c < min (gc_entry c) (gc_reference_price c)
              \<and> max (gc_entry c) (gc_reference_price c) < gc_stop_loss c)
        \<and> gc_minimum_risk_reward c \<le> gc_reward c / gc_risk c \<and> gc_reward c \<le> gc_expected_move c * fl64 (3 / 2)
        \<and> \<bar>gc_entry c - gc_reference_price c\<bar> \<le> gc_maximum_entry_distance c)"
proof (cases "geometry_rejection c")
  case None
  then show ?thesis
    using assms rejection_none [OF None] by (auto simp: validate_geometry_def bindE_eq_Inr make_geometry_def split: if_splits)
next
  case (Some r)
  then have "fst r \<noteq> Gv_Valid \<and> snd r \<noteq> []"
    by (auto simp: geometry_rejection_def entry_rejection_def ordering_rejection_def proportion_rejection_def
        split: option.splits if_splits)
  then show ?thesis using assms Some by (auto simp: validate_geometry_def split: prod.splits)
qed

definition sample_geometry_candidate :: geometry_candidate where
  "sample_geometry_candidate = \<lparr>gc_direction = Sc_Bullish, gc_reference_price = fint 2310,
     gc_entry_zone = \<lparr>pz_low = fint 2309, pz_high = fint 2311\<rparr>, gc_entry = fint 2310, gc_stop_loss = fint 2306,
     gc_take_profit = fint 2320, gc_secondary_target = None, gc_expected_move = fint 12,
     gc_maximum_entry_distance = fint 4, gc_minimum_risk_reward = fint 2, gc_basis_fact_identifiers = [''f1'']\<rparr>"

lemma sample_validated:
  "validate_geometry sample_geometry_candidate = Inr (Gv_Valid, Some (rounded_geometry sample_geometry_candidate), None)"
proof -
  have "geometry_rejection sample_geometry_candidate = None" by code_simp
  moreover have "geometry_ok (rounded_geometry sample_geometry_candidate)" by code_simp
  ultimately show ?thesis by (simp add: validate_geometry_def make_geometry_def)
qed

theorem validate_geometry_sound_witness:
  "gc_minimum_risk_reward sample_geometry_candidate \<le> gc_reward sample_geometry_candidate / gc_risk sample_geometry_candidate
   \<and> geometry_ok (rounded_geometry sample_geometry_candidate)"
  using validate_geometry_sound [OF sample_validated] by blast

text \<open>A price on the grid of six decimals is not moved by the rounding.\<close>

definition on_grid :: "f64 \<Rightarrow> bool" where
  "on_grid x \<longleftrightarrow> round_nd 6 x = x"

text \<open>For positive levels on the six-decimal grid, a positive zone and a minimum risk/reward of
  at least one, \<open>validate_geometry\<close> never raises: it accepts exactly when no check rejects.\<close>

theorem validate_geometry_total:
  assumes "list_all on_grid [gc_entry c, gc_stop_loss c, gc_take_profit c]"
    and "list_all (\<lambda>x. 0 < x) [gc_entry c, gc_stop_loss c, gc_take_profit c]"
    and "opt_all (\<lambda>t. on_grid t \<and> 0 < t) (gc_secondary_target c)"
    and "price_zone_ok (gc_entry_zone c)" and "1 \<le> gc_minimum_risk_reward c"
  shows "\<exists>r. validate_geometry c = Inr r \<and> (fst r = Gv_Valid \<longleftrightarrow> geometry_rejection c = None)"
proof (cases "geometry_rejection c")
  case None
  note r = rejection_none [OF None]
  have "round_nd 6 1 \<le> round_nd 6 (gc_reward c / gc_risk c)"
    using assms(5) r(10) by (intro round_nd_mono) simp
  moreover have "(0 :: f64) < round_nd 6 1" by code_simp
  ultimately have "0 < round_nd 6 (gc_reward c / gc_risk c)" by simp
  then have "geometry_ok (rounded_geometry c)"
    using assms r(1,2,4-7) by (auto simp: geometry_ok_def rounded_geometry_def on_grid_def)
  then show ?thesis using None by (simp add: validate_geometry_def make_geometry_def)
next
  case (Some r)
  then have "fst r \<noteq> Gv_Valid"
    by (auto simp: geometry_rejection_def entry_rejection_def ordering_rejection_def proportion_rejection_def
        split: option.splits if_splits)
  then show ?thesis using Some by (cases r) (simp add: validate_geometry_def)
qed

theorem validate_geometry_total_witness:
  "\<exists>r. validate_geometry sample_geometry_candidate = Inr r \<and> fst r = Gv_Valid"
proof -
  have "list_all on_grid [gc_entry sample_geometry_candidate, gc_stop_loss sample_geometry_candidate, gc_take_profit sample_geometry_candidate]
      \<and> list_all (\<lambda>x. 0 < x) [gc_entry sample_geometry_candidate, gc_stop_loss sample_geometry_candidate, gc_take_profit sample_geometry_candidate]
      \<and> gc_secondary_target sample_geometry_candidate = None
      \<and> price_zone_ok (gc_entry_zone sample_geometry_candidate) \<and> 1 \<le> gc_minimum_risk_reward sample_geometry_candidate
      \<and> geometry_rejection sample_geometry_candidate = None"
    by code_simp
  then show ?thesis using validate_geometry_total [of sample_geometry_candidate] by simp
qed

text \<open>Off the grid it can raise. The checks compare the unrounded levels; the rounded entry of
  an accepted candidate can leave its zone, and building the geometry then fails.\<close>

theorem validate_geometry_rounding_raises:
  assumes "geometry_rejection c = None"
    and "round_nd 6 (gc_entry c) < pz_low (gc_entry_zone c) \<or> pz_high (gc_entry_zone c) < round_nd 6 (gc_entry c)"
  shows "validate_geometry c = Inl (Scenario_Validation ''ScenarioGeometry'')"
  using assms by (auto simp: validate_geometry_def make_geometry_def geometry_ok_def rounded_geometry_def)

theorem validate_geometry_rounding_raises_witness:
  "validate_geometry (sample_geometry_candidate\<lparr>gc_entry := fl64 (23100000004 / 10000000),
     gc_entry_zone := \<lparr>pz_low = fl64 (23100000004 / 10000000), pz_high = fint 2311\<rparr>\<rparr>)
   = Inl (Scenario_Validation ''ScenarioGeometry'')"
proof (rule validate_geometry_rounding_raises)
  show "geometry_rejection (sample_geometry_candidate\<lparr>gc_entry := fl64 (23100000004 / 10000000),
     gc_entry_zone := \<lparr>pz_low = fl64 (23100000004 / 10000000), pz_high = fint 2311\<rparr>\<rparr>) = None"
    by code_simp
qed code_simp

text \<open>A move accepted by \<open>convert_prediction_move\<close> is a price distance between the
  instrument's minimum and its maximum share of the reference price, in the units of the
  prediction's declared unit; the units without a price meaning are refused.\<close>

theorem conversion_bounds:
  assumes "convert_prediction_move p s = Inr m"
  shows "is_minimum_meaningful_move s \<le> mc_converted_expected_move m
    \<and> mc_converted_expected_move m \<le> hp_reference_price p * is_maximum_expected_move_percent s
    \<and> 0 < mc_converted_expected_move m
    \<and> hp_expected_base_movement_unit p \<in> {Decimal_Return, Percent, Price_Points}
    \<and> converted_move p = Inr (mc_converted_expected_move m, mc_conversion_method m)"
  using assms
  by (auto simp: convert_prediction_move_def bindE_eq_Inr Let_def conversion_ok_def not_less converted_move_def
      split: if_splits forecast_unit.splits)

definition sample_prediction :: horizon_prediction where
  "sample_prediction = \<lparr>hp_horizon = \<lparr>ho_horizon_id = ''m5'', ho_timeframe = ''M5'', ho_candle_count = 1, ho_duration_seconds = 300\<rparr>,
     hp_reference_price = fint 2310, hp_buy_probability = fl64 (3/4), hp_sell_probability = fl64 (1/8),
     hp_neutral_probability = fl64 (1/8), hp_expected_return = 0, hp_expected_base_movement = fint 8,
     hp_expected_base_movement_unit = Price_Points, hp_expected_minimum_movement = fint 4,
     hp_expected_maximum_movement = fint 12, hp_expected_volatility = 0, hp_expected_volatility_unit = Decimal_Return,
     hp_expected_mfe = 0, hp_expected_mae = 0, hp_tp1_probability = 0, hp_tp2_probability = 0,
     hp_stop_loss_probability = 0, hp_sl_before_tp_probability = 0,
     hp_uncertainty_interval = \<lparr>un_low = 0, un_high = 1, un_confidence_level = fl64 (1/2)\<rparr>,
     hp_transition_probabilities = []\<rparr>"

theorem conversion_bounds_witness:
  "\<exists>m. convert_prediction_move sample_prediction default_instrument = Inr m \<and> 0 < mc_converted_expected_move m"
proof -
  have "case convert_prediction_move sample_prediction default_instrument of Inl _ \<Rightarrow> False | Inr m \<Rightarrow> True"
    by code_simp
  then obtain m where m: "convert_prediction_move sample_prediction default_instrument = Inr m"
    by (auto split: sum.splits)
  then show ?thesis using conversion_bounds [OF m] by blast
qed

end
