(* ===== verification/Market_State.thy ===== *)
theory Market_State
  imports Prelude
begin

text \<open>
  Point-in-time market evidence (\<open>market_state/models.py\<close>) and the scheduling rules that read it
  (\<open>ai_reasoning/cadence.py\<close>). A captured value of type \<open>Any\<close> is a \<open>json\<close> scalar, of which the
  validators only ask whether it is there.
\<close>

subsection \<open>Evidence\<close>

datatype evidence_availability = Ev_Available | Ev_Unavailable | Ev_Degraded | Ev_Stale
datatype evidence_classification = Market_Evidence | Confidence_Modifier | Risk_Evidence | Execution_Evidence
  | Informational_Context | Technical_Hard_Gate | Risk_Hard_Gate
datatype market_state_status = Ms_Available | Ms_Degraded

definition required_timeframes :: "string list" where
  "required_timeframes = [''M5'', ''M15'']"

record captured_evidence =
  ce_source_engine :: string
  ce_source_engine_version :: string
  ce_evidence_type :: string
  ce_classification :: evidence_classification
  ce_availability :: evidence_availability
  ce_raw_value :: "json option"
  ce_normalized_value :: "json option"
  ce_confidence :: "f64 option"
  ce_quality :: "f64 option"
  ce_uncertainty :: "f64 option"
  ce_observed_at :: instant
  ce_available_at :: instant
  ce_provenance :: "(string \<times> json) list"
  ce_reason_codes :: "string list"

text \<open>\<open>unavailable_has_no_synthetic_value\<close>, common to captured evidence and evidence items.\<close>

definition no_synthetic_value :: "evidence_availability \<Rightarrow> json option \<Rightarrow> json option \<Rightarrow> f64 option list \<Rightarrow> bool" where
  "no_synthetic_value a raw nval nums \<longleftrightarrow>
     (a = Ev_Unavailable \<longrightarrow> raw = None \<and> nval = None \<and> list_all (\<lambda>x. x = None) nums)"

definition percent_opt :: "f64 option \<Rightarrow> bool" where
  "percent_opt x = opt_all (in_range 0 (fint 100)) x"

definition captured_ok :: "captured_evidence \<Rightarrow> bool" where
  "captured_ok e \<longleftrightarrow> list_all percent_opt [ce_confidence e, ce_quality e, ce_uncertainty e]
     \<and> no_synthetic_value (ce_availability e) (ce_raw_value e) (ce_normalized_value e)
         [ce_confidence e, ce_quality e, ce_uncertainty e]"

record evidence_frame =
  ef_frame_id :: uuid
  ef_frame_hash :: string
  ef_cycle_id :: uuid
  ef_correlation_id :: uuid
  ef_instrument :: string
  ef_timeframe :: string
  ef_candle_open_at :: instant
  ef_candle_close_at :: instant
  ef_knowledge_cutoff :: instant
  ef_mode :: string
  ef_market_event_id :: string
  ef_evidence :: "captured_evidence list"
  ef_created_at :: instant

definition evidence_frame_ok :: "evidence_frame \<Rightarrow> bool" where
  "evidence_frame_ok f \<longleftrightarrow> length (ef_frame_hash f) = 64 \<and> list_all captured_ok (ef_evidence f)
     \<and> ef_timeframe f \<in> set required_timeframes
     \<and> ef_candle_open_at f < ef_candle_close_at f
     \<and> ef_candle_close_at f \<le> ef_knowledge_cutoff f \<and> ef_created_at f \<le> ef_knowledge_cutoff f
     \<and> list_all (\<lambda>e. ce_observed_at e \<le> ef_knowledge_cutoff f \<and> ce_available_at e \<le> ef_knowledge_cutoff f) (ef_evidence f)
     \<and> distinct (map ce_source_engine (ef_evidence f))"

record timeframe_state =
  ts_timeframe :: string
  ts_frame_id :: uuid
  ts_source_candle_open_at :: instant
  ts_source_candle_close_at :: instant
  ts_expected_candle_close_at :: instant
  ts_freshness_seconds :: f64
  ts_stale :: bool
  ts_evidence_ids :: "uuid list"

record evidence_item =
  ei_evidence_id :: uuid
  ei_market_state_id :: uuid
  ei_source_frame_id :: uuid
  ei_source_engine :: string
  ei_source_engine_version :: string
  ei_source_timeframe :: string
  ei_source_candle_timestamp :: instant
  ei_source_candle_close_timestamp :: instant
  ei_evidence_type :: string
  ei_classification :: evidence_classification
  ei_availability :: evidence_availability
  ei_normalized_value :: "json option"
  ei_raw_value :: "json option"
  ei_confidence :: "f64 option"
  ei_quality :: "f64 option"
  ei_uncertainty :: "f64 option"
  ei_observed_at :: instant
  ei_available_at :: instant
  ei_freshness_seconds :: f64
  ei_provenance :: "(string \<times> json) list"
  ei_reason_codes :: "string list"

definition evidence_item_ok :: "evidence_item \<Rightarrow> bool" where
  "evidence_item_ok e \<longleftrightarrow> list_all percent_opt [ei_confidence e, ei_quality e, ei_uncertainty e]
     \<and> 0 \<le> ei_freshness_seconds e
     \<and> no_synthetic_value (ei_availability e) (ei_raw_value e) (ei_normalized_value e)
         [ei_confidence e, ei_quality e, ei_uncertainty e]"

subsection \<open>The unified market state\<close>

record market_state =
  um_state_id :: uuid
  um_state_hash :: string
  um_cycle_id :: uuid
  um_correlation_id :: uuid
  um_instrument :: string
  um_trigger_timeframe :: string
  um_market_data_boundary :: instant
  um_knowledge_cutoff :: instant
  um_mode :: string
  um_status :: market_state_status
  um_timeframes :: "timeframe_state list"
  um_evidence :: "evidence_item list"
  um_unavailable_evidence :: "uuid list"
  um_degraded_evidence :: "uuid list"
  um_stale_evidence :: "uuid list"
  um_evidence_completeness :: f64
  um_created_at :: instant

definition timeframe_in_time :: "market_state \<Rightarrow> timeframe_state \<Rightarrow> bool" where
  "timeframe_in_time s t \<longleftrightarrow> ts_source_candle_close_at t \<le> ts_expected_candle_close_at t
     \<and> ts_expected_candle_close_at t \<le> um_market_data_boundary s"

definition evidence_in_time :: "market_state \<Rightarrow> evidence_item \<Rightarrow> bool" where
  "evidence_in_time s e \<longleftrightarrow> ei_market_state_id e = um_state_id s
     \<and> ei_source_frame_id e \<in> set (map ts_frame_id (um_timeframes s))
     \<and> ei_source_candle_close_timestamp e \<le> um_market_data_boundary s
     \<and> ei_observed_at e \<le> um_knowledge_cutoff s \<and> ei_available_at e \<le> um_knowledge_cutoff s"

definition ids_with :: "evidence_availability \<Rightarrow> market_state \<Rightarrow> uuid list" where
  "ids_with a s = map ei_evidence_id (filter (\<lambda>e. ei_availability e = a) (um_evidence s))"

text \<open>\<open>UnifiedMarketState.synchronized_point_in_time_state\<close> with the field bounds.\<close>

definition market_state_ok :: "market_state \<Rightarrow> bool" where
  "market_state_ok s \<longleftrightarrow> length (um_state_hash s) = 64 \<and> in_range 0 1 (um_evidence_completeness s)
     \<and> list_all (\<lambda>t. 0 \<le> ts_freshness_seconds t) (um_timeframes s) \<and> list_all evidence_item_ok (um_evidence s)
     \<and> set (map ts_timeframe (um_timeframes s)) = set required_timeframes
     \<and> length (um_timeframes s) = length required_timeframes
     \<and> um_market_data_boundary s \<le> um_knowledge_cutoff s \<and> um_created_at s \<le> um_knowledge_cutoff s
     \<and> list_all (timeframe_in_time s) (um_timeframes s)
     \<and> list_all (evidence_in_time s) (um_evidence s)
     \<and> set (um_unavailable_evidence s) = set (ids_with Ev_Unavailable s)
     \<and> set (um_degraded_evidence s) = set (ids_with Ev_Degraded s)
     \<and> set (um_stale_evidence s) = set (ids_with Ev_Stale s)"

definition frame_for :: "market_state \<Rightarrow> string \<Rightarrow> timeframe_state option" where
  "frame_for s tf = find (\<lambda>t. ts_timeframe t = tf) (um_timeframes s)"

text \<open>A validated state has exactly one frame per required timeframe, so the lookup never misses.\<close>

lemma frame_for_total:
  assumes "market_state_ok s" "tf \<in> set required_timeframes"
  obtains t where "frame_for s tf = Some t" "t \<in> set (um_timeframes s)" "ts_timeframe t = tf"
proof -
  have "tf \<in> set (map ts_timeframe (um_timeframes s))"
    using assms unfolding market_state_ok_def by blast
  then obtain t where "frame_for s tf = Some t"
    by (cases "frame_for s tf") (auto simp: frame_for_def find_None_iff)
  then show ?thesis using that find_member [of "\<lambda>t. ts_timeframe t = tf"] by (auto simp: frame_for_def)
qed

subsection \<open>Scheduling of the AI analysis\<close>

datatype eligibility_reason = Duplicate_Snapshot | Missing_Prerequisite | Cooldown_Reason | Interval_Not_Due
  | Analysis_Exists | Concurrency_Limit | Stale_Data | Invalid_State | Disabled

definition ai_analysis_timeframes :: "string list" where
  "ai_analysis_timeframes = [''M5'', ''M15'']"

definition ai_analysis_interval_minutes :: int where
  "ai_analysis_interval_minutes = 5"

text \<open>\<open>five_minute_window_start\<close>: minutes, seconds and microseconds of a UTC instant are those of the
  microseconds since the epoch, the interval divides the hour.\<close>

definition minute_of :: "instant \<Rightarrow> int" where
  "minute_of t = t div 60000000 mod 60"

definition five_minute_window_start :: "instant \<Rightarrow> instant" where
  "five_minute_window_start t =
     t - t mod 60000000 - (minute_of t mod ai_analysis_interval_minutes) * 60000000"

definition cycle_eligibility :: "market_state \<Rightarrow> eligibility_reason option" where
  "cycle_eligibility s =
     (let boundary = um_market_data_boundary s;
          frames = fold (\<lambda>t. AList.update (py_upper (ts_timeframe t)) t) (um_timeframes s) []
      in if py_upper (um_trigger_timeframe s) \<notin> set ai_analysis_timeframes
             \<or> boundary \<noteq> five_minute_window_start boundary
         then Some Interval_Not_Due
         else if set (map fst frames) \<noteq> set ai_analysis_timeframes then Some Missing_Prerequisite
         else if list_ex ts_stale (map snd frames) \<or> um_stale_evidence s \<noteq> [] then Some Stale_Data
         else if um_knowledge_cutoff s < boundary then Some Invalid_State
         else None)"

lemma window_start_eq: "five_minute_window_start t = t - t mod 300000000"
proof -
  have "t mod 300000000 = t mod 60000000 + (t div 60000000 mod 5) * 60000000"
    using mod_mult2_eq' [of t 60000000 5] by simp
  moreover have "t div 60000000 mod 60 mod 5 = t div 60000000 mod 5"
    by (rule mod_mod_cancel) simp
  ultimately show ?thesis
    by (simp add: five_minute_window_start_def minute_of_def ai_analysis_interval_minutes_def)
qed

text \<open>The window start is the greatest multiple of five minutes since the epoch not after the
  instant; it is its own window start, and two instants have the same window exactly when no
  such multiple separates them.\<close>

theorem window_start_floor:
  "five_minute_window_start t \<le> t \<and> t < five_minute_window_start t + seconds_td 300
   \<and> seconds_td 300 dvd five_minute_window_start t
   \<and> five_minute_window_start (five_minute_window_start t) = five_minute_window_start t
   \<and> (five_minute_window_start t = five_minute_window_start u \<longleftrightarrow> t div seconds_td 300 = u div seconds_td 300)"
proof -
  have c: "seconds_td 300 = 300000000" by (simp add: seconds_td_def)
  have m: "five_minute_window_start x = 300000000 * (x div 300000000)" for x
    by (simp add: window_start_eq minus_mod_eq_mult_div)
  have "0 \<le> t mod 300000000" "t mod 300000000 < 300000000" by simp_all
  then show ?thesis unfolding c using window_start_eq [of t] by (auto simp: m)
qed

text \<open>On a validated market state a synchronized cycle is refused only because the interval
  is not due or the data is stale: the other two reasons cannot occur. It is admitted exactly
  when its trigger is an M5 or M15 candle, the boundary is on the five-minute grid, no frame is
  stale and no evidence is stale.\<close>

theorem cycle_eligibility_validated:
  assumes "market_state_ok s"
  shows "cycle_eligibility s \<in> {None, Some Interval_Not_Due, Some Stale_Data}
    \<and> (cycle_eligibility s = None \<longleftrightarrow> py_upper (um_trigger_timeframe s) \<in> {''M5'', ''M15''}
          \<and> seconds_td 300 dvd um_market_data_boundary s
          \<and> (\<forall>t \<in> set (um_timeframes s). \<not> ts_stale t) \<and> ids_with Ev_Stale s = [])"
proof -
  have up: "py_upper ''M5'' = ''M5''" "py_upper ''M15'' = ''M15''" by code_simp+
  have names: "set (map ts_timeframe (um_timeframes s)) = {''M5'', ''M15''}" "length (um_timeframes s) = 2"
    using assms by (simp_all add: market_state_ok_def required_timeframes_def)
  then obtain a b where ab: "um_timeframes s = [a, b]" by (auto simp: numeral_2_eq_2 length_Suc_conv)
  then have "ts_timeframe a = ''M5'' \<and> ts_timeframe b = ''M15'' \<or> ts_timeframe a = ''M15'' \<and> ts_timeframe b = ''M5''"
    using names(1) by (auto simp: doubleton_eq_iff)
  then have frames: "set (map fst (fold (\<lambda>t. AList.update (py_upper (ts_timeframe t)) t) (um_timeframes s) [])) = set ai_analysis_timeframes"
    "map snd (fold (\<lambda>t. AList.update (py_upper (ts_timeframe t)) t) (um_timeframes s) []) = um_timeframes s"
    using up by (auto simp: ab ai_analysis_timeframes_def)
  have stale: "um_stale_evidence s = [] \<longleftrightarrow> ids_with Ev_Stale s = []"
    using assms unfolding market_state_ok_def by (metis set_empty)
  have cutoff: "\<not> um_knowledge_cutoff s < um_market_data_boundary s" using assms by (simp add: market_state_ok_def)
  have due: "um_market_data_boundary s = five_minute_window_start (um_market_data_boundary s)
      \<longleftrightarrow> seconds_td 300 dvd um_market_data_boundary s"
    by (auto simp: window_start_eq seconds_td_def dvd_eq_mod_eq_0)
  show ?thesis
    unfolding cycle_eligibility_def Let_def frames
    using cutoff due stale by (auto simp: ai_analysis_timeframes_def list_ex_iff)
qed

definition sample_frame :: "string \<Rightarrow> timeframe_state" where
  "sample_frame tf = \<lparr>ts_timeframe = tf, ts_frame_id = tf, ts_source_candle_open_at = 0,
     ts_source_candle_close_at = seconds_td 900, ts_expected_candle_close_at = seconds_td 900,
     ts_freshness_seconds = 0, ts_stale = False, ts_evidence_ids = []\<rparr>"

definition sample_market_state :: market_state where
  "sample_market_state = \<lparr>um_state_id = ''st'', um_state_hash = replicate 64 (CHR ''0''), um_cycle_id = ''cy'',
     um_correlation_id = ''co'', um_instrument = ''XAUUSD'', um_trigger_timeframe = ''M15'',
     um_market_data_boundary = seconds_td 900, um_knowledge_cutoff = seconds_td 901, um_mode = ''live'',
     um_status = Ms_Available, um_timeframes = [sample_frame ''M5'', sample_frame ''M15''], um_evidence = [],
     um_unavailable_evidence = [], um_degraded_evidence = [], um_stale_evidence = [],
     um_evidence_completeness = 1, um_created_at = seconds_td 901\<rparr>"

theorem cycle_eligibility_validated_witness: "cycle_eligibility sample_market_state = None"
proof -
  have "market_state_ok sample_market_state" by code_simp
  note v = cycle_eligibility_validated [OF this]
  have "py_upper (um_trigger_timeframe sample_market_state) \<in> {''M5'', ''M15''}"
    "seconds_td 300 dvd um_market_data_boundary sample_market_state"
    "list_all (\<lambda>t. \<not> ts_stale t) (um_timeframes sample_market_state)" "ids_with Ev_Stale sample_market_state = []"
    by code_simp+
  then show ?thesis using v by (simp add: list_all_iff)
qed

end
