(* ===== verification/Scenario_Engine.thy ===== *)
theory Scenario_Engine
  imports Scenario_Geometry Market_State
begin

text \<open>
  \<open>ScenarioForecastingEngine\<close> (\<open>scenario_forecasting/engine.py\<close>): the forward scenario of one
  timeframe and the combination of the M5 and M15 scenarios, stage by stage as the code has them.
\<close>

record scenario_config =
  sf_minimum_directional_edge :: f64
  sf_minimum_scenario_confidence :: f64
  sf_minimum_evidence_completeness :: f64
  sf_minimum_risk_reward :: f64
  sf_maximum_entry_distance_percent :: f64
  sf_entry_distance_expected_move_fraction :: f64
  sf_stop_expected_move_fraction :: f64
  sf_target_expected_move_fraction :: f64
  sf_engine_version :: string

definition positive_upto :: "f64 \<Rightarrow> f64 \<Rightarrow> bool" where
  "positive_upto hi x \<longleftrightarrow> 0 < x \<and> x \<le> hi"

definition scenario_config_ok :: "scenario_config \<Rightarrow> bool" where
  "scenario_config_ok c \<longleftrightarrow> in_range 0 1 (sf_minimum_directional_edge c) \<and> in_range 0 (fint 100) (sf_minimum_scenario_confidence c)
     \<and> in_range 0 1 (sf_minimum_evidence_completeness c) \<and> 0 < sf_minimum_risk_reward c
     \<and> positive_upto (fl64 (1 / 50)) (sf_maximum_entry_distance_percent c)
     \<and> positive_upto 1 (sf_entry_distance_expected_move_fraction c) \<and> positive_upto 1 (sf_stop_expected_move_fraction c)
     \<and> positive_upto (fl64 (3 / 2)) (sf_target_expected_move_fraction c)"

definition default_scenario_config :: scenario_config where
  "default_scenario_config = \<lparr>sf_minimum_directional_edge = fl64 (3 / 25), sf_minimum_scenario_confidence = fint 55,
     sf_minimum_evidence_completeness = fl64 (1 / 2), sf_minimum_risk_reward = fint 2,
     sf_maximum_entry_distance_percent = fl64 (3 / 1000), sf_entry_distance_expected_move_fraction = fl64 (7 / 20),
     sf_stop_expected_move_fraction = fl64 (3 / 10), sf_target_expected_move_fraction = fl64 (4 / 5),
     sf_engine_version = ''1.0.0''\<rparr>"

subsection \<open>The stages of a forecast\<close>

definition next_candle :: "forecast_result \<Rightarrow> string \<Rightarrow> scenario_error + horizon_prediction" where
  "next_candle q tf = (case find (\<lambda>p. ho_timeframe (hp_horizon p) = tf \<and> ho_candle_count (hp_horizon p) = 1) (fq_predictions q) of
     None \<Rightarrow> Inl (Scenario_Value_Error (''quant forecast has no next-candle '' @ tf @ '' horizon''))
   | Some p \<Rightarrow> Inr p)"

text \<open>The prediction restated in price points.\<close>

definition unit_factor :: "horizon_prediction \<Rightarrow> f64" where
  "unit_factor p = (if hp_expected_base_movement_unit p = Decimal_Return then hp_reference_price p
     else if hp_expected_base_movement_unit p = Percent then hp_reference_price p / fint 100 else 1)"

definition in_price_points :: "horizon_prediction \<Rightarrow> move_conversion \<Rightarrow> horizon_prediction" where
  "in_price_points p m = p\<lparr>hp_expected_minimum_movement := hp_expected_minimum_movement p * unit_factor p,
     hp_expected_base_movement := mc_converted_expected_move m,
     hp_expected_maximum_movement := hp_expected_maximum_movement p * unit_factor p,
     hp_expected_base_movement_unit := Price_Points\<rparr>"

definition edge_of :: "horizon_prediction \<Rightarrow> f64" where
  "edge_of p = hp_buy_probability p - hp_sell_probability p"

definition top_probability :: "horizon_prediction \<Rightarrow> f64" where
  "top_probability p = max (max (hp_buy_probability p) (hp_sell_probability p)) (hp_neutral_probability p)"

definition forecast_direction :: "scenario_config \<Rightarrow> horizon_prediction \<Rightarrow> scenario_direction \<times> f64" where
  "forecast_direction c p =
     (if top_probability p \<le> hp_neutral_probability p \<and> \<bar>edge_of p\<bar> < sf_minimum_directional_edge c
      then (Sc_Range, top_probability p)
      else if \<bar>edge_of p\<bar> < sf_minimum_directional_edge c then (Sc_Inconclusive, top_probability p)
      else if 0 < edge_of p then (Sc_Bullish, hp_buy_probability p) else (Sc_Bearish, hp_sell_probability p))"

definition make_zone :: "f64 \<Rightarrow> f64 \<Rightarrow> scenario_error + price_zone" where
  "make_zone lo hi = (let z = \<lparr>pz_low = lo, pz_high = hi\<rparr> in
     if price_zone_ok z then Inr z else Inl (Scenario_Validation ''PriceZone''))"

definition price_floor :: f64 where
  "price_floor = fl64 (1 / 1000000)"

definition range_low :: "f64 \<Rightarrow> f64 \<Rightarrow> scenario_direction \<Rightarrow> f64" where
  "range_low price maximum d = (if d = Sc_Bullish then price - maximum * fl64 (1 / 4)
     else if d = Sc_Bearish then price - maximum else price - maximum * fl64 (1 / 2))"

definition range_high :: "f64 \<Rightarrow> f64 \<Rightarrow> scenario_direction \<Rightarrow> f64" where
  "range_high price maximum d = (if d = Sc_Bullish then price + maximum
     else if d = Sc_Bearish then price + maximum * fl64 (1 / 4) else price + maximum * fl64 (1 / 2))"

definition close_center :: "f64 \<Rightarrow> f64 \<Rightarrow> scenario_direction \<Rightarrow> f64" where
  "close_center price expected d = (if d = Sc_Bullish then price + expected * fl64 (7 / 10)
     else if d = Sc_Bearish then price - expected * fl64 (7 / 10) else price)"

definition zone_width :: "f64 \<Rightarrow> f64 \<Rightarrow> f64" where
  "zone_width price expected = max (expected * fl64 (3 / 20)) (price * fl64 (1 / 20000))"

definition ranges :: "f64 \<Rightarrow> f64 \<Rightarrow> f64 \<Rightarrow> scenario_direction \<Rightarrow> scenario_error + price_zone \<times> price_zone" where
  "ranges price expected maximum d =
     bindE (make_zone (max price_floor (range_low price maximum d)) (range_high price maximum d)) (\<lambda>r.
     bindE (make_zone (max price_floor (close_center price expected d - zone_width price expected))
        (close_center price expected d + zone_width price expected)) (\<lambda>z. Inr (r, z)))"

definition desired_direction :: "scenario_direction \<Rightarrow> analytical_direction option" where
  "desired_direction d = (if d = Sc_Bullish then Some An_Buy else if d = Sc_Bearish then Some An_Sell else None)"

definition supporting_facts :: "timeframe_signal \<Rightarrow> scenario_direction \<Rightarrow> string list" where
  "supporting_facts s d = uniq (concat (map co_source_fact_identifiers
     (filter (\<lambda>c. desired_direction d = Some (co_directional_contribution c)) (tg_evidence_breakdown s))))"

definition contradicting_facts :: "timeframe_signal \<Rightarrow> scenario_direction \<Rightarrow> string list" where
  "contradicting_facts s d = uniq (concat (map co_source_fact_identifiers
     (filter (\<lambda>c. desired_direction d \<noteq> Some (co_directional_contribution c)) (tg_evidence_breakdown s))))"

definition scenario_confidence :: "timeframe_signal \<Rightarrow> f64 \<Rightarrow> f64 \<Rightarrow> f64" where
  "scenario_confidence s raw completeness = round_nd 4 (min (fint 100)
     (tg_confidence s * fl64 (9 / 20) + raw * fint 100 * fl64 (7 / 20) + completeness * fint 100 * fl64 (1 / 5)))"

definition forecast_validity :: "scenario_config \<Rightarrow> scenario_direction \<Rightarrow> f64 \<Rightarrow> f64 \<Rightarrow> f64 \<Rightarrow> scenario_validity \<times> string" where
  "forecast_validity c d expected confidence completeness =
     (if expected \<le> 0 then (Sv_Invalid, ''expected_movement_unavailable'')
      else if completeness < sf_minimum_evidence_completeness c then (Sv_Degraded, ''insufficient_evidence_completeness'')
      else if d = Sc_Inconclusive then (Sv_Degraded, ''directional_evidence_inconclusive'')
      else if confidence < sf_minimum_scenario_confidence c then (Sv_Degraded, ''scenario_confidence_below_requirement'')
      else (Sv_Valid, ''completed_point_in_time_evidence_validated''))"

definition scenario_type_of :: "scenario_direction \<Rightarrow> timeframe_signal \<Rightarrow> string" where
  "scenario_type_of d s =
     (let thesis = py_lower (tg_directional_thesis s); name = py_lower (scenario_direction_value d)
      in if contains ''sweep'' thesis then ''liquidity sweep and reversal''
         else if contains ''break'' thesis then name @ '' breakout continuation''
         else if d = Sc_Range then ''range continuation''
         else if d = Sc_Inconclusive then ''inconclusive''
         else name @ '' continuation'')"

definition forecast_target :: "f64 \<Rightarrow> f64 \<Rightarrow> scenario_direction \<Rightarrow> f64" where
  "forecast_target price move d = (if d = Sc_Bullish then price + move * fl64 (4 / 5)
     else if d = Sc_Bearish then price - move * fl64 (4 / 5) else price)"

definition invalidation_level :: "f64 \<Rightarrow> f64 \<Rightarrow> scenario_direction \<Rightarrow> f64" where
  "invalidation_level price move d = (if d = Sc_Bullish then max price_floor (price - move * fl64 (7 / 20))
     else if d = Sc_Bearish then price + move * fl64 (7 / 20) else max price_floor (price - move))"

definition path_text :: "scenario_direction \<Rightarrow> string \<Rightarrow> f64 \<Rightarrow> f64 \<Rightarrow> string" where
  "path_text d kind price target = (case d of
     Sc_Bullish \<Rightarrow> ''A shallow pullback or hold near '' @ fmt_fixed 3 price @ '' is expected before '' @ kind
       @ '' toward '' @ fmt_fixed 3 target @ ''.''
   | Sc_Bearish \<Rightarrow> ''A shallow retracement or rejection near '' @ fmt_fixed 3 price @ '' is expected before '' @ kind
       @ '' toward '' @ fmt_fixed 3 target @ ''.''
   | Sc_Range \<Rightarrow> ''Price is expected to rotate around '' @ fmt_fixed 3 price @ '' within the projected range.''
   | Sc_Inconclusive \<Rightarrow> ''Evidence does not support one dominant path; the alternative remains material.'')"

definition opposite_direction :: "scenario_direction \<Rightarrow> scenario_direction" where
  "opposite_direction d = (case d of Sc_Bullish \<Rightarrow> Sc_Bearish | Sc_Bearish \<Rightarrow> Sc_Bullish
     | Sc_Range \<Rightarrow> Sc_Inconclusive | Sc_Inconclusive \<Rightarrow> Sc_Range)"

subsection \<open>Geometry of a forecast\<close>

definition structural_facts :: "timeframe_signal \<Rightarrow> string list" where
  "structural_facts s = uniq (concat (map co_source_fact_identifiers
     (filter (\<lambda>c. co_family c \<in> {''market_structure'', ''order_block'', ''imbalance'', ''liquidity''}
        \<and> co_source_fact_identifiers c \<noteq> []) (tg_evidence_breakdown s))))"

definition entry_reach :: "scenario_config \<Rightarrow> horizon_prediction \<Rightarrow> f64" where
  "entry_reach c p = min (hp_reference_price p * sf_maximum_entry_distance_percent c)
     (hp_expected_base_movement p * sf_entry_distance_expected_move_fraction c)"

definition zone_around :: "f64 \<Rightarrow> f64 \<Rightarrow> scenario_error + price_zone" where
  "zone_around x d = make_zone (max price_floor (x - d * fl64 (1 / 10))) (x + d * fl64 (1 / 10))"

text \<open>Entry, stop and target: the geometry the signal brings, when its entry is in reach, or levels
  derived from the expected move.\<close>

definition trade_levels :: "scenario_config \<Rightarrow> horizon_prediction \<Rightarrow> scenario_direction \<Rightarrow> signal_geometry option
    \<Rightarrow> (f64 \<times> f64 \<times> f64) option" where
  "trade_levels c p d existing = (case existing of
     Some g \<Rightarrow> Some (sg_entry g, sg_stop_loss g, sg_take_profit g)
   | None \<Rightarrow>
      (let price = hp_reference_price p;
           risk = hp_expected_base_movement p * sf_stop_expected_move_fraction c;
           reward = hp_expected_base_movement p * sf_target_expected_move_fraction c
       in if d = Sc_Bullish then Some (price, price - risk, price + reward)
          else if d = Sc_Bearish then Some (price, price + risk, price - reward)
          else None))"

definition reachable_geometry :: "scenario_config \<Rightarrow> horizon_prediction \<Rightarrow> timeframe_signal \<Rightarrow> signal_geometry option" where
  "reachable_geometry c p s = (case tg_geometry s of None \<Rightarrow> None
     | Some g \<Rightarrow> if \<bar>sg_entry g - hp_reference_price p\<bar> \<le> entry_reach c p then Some g else None)"

definition forecast_geometry :: "scenario_config \<Rightarrow> horizon_prediction \<Rightarrow> timeframe_signal \<Rightarrow> scenario_direction
    \<Rightarrow> string list \<Rightarrow> scenario_validity \<Rightarrow> scenario_error + geometry_result" where
  "forecast_geometry c p s d supporting v =
     (if v \<noteq> Sv_Valid then Inr (Gv_Unavailable, None, Some ''scenario_not_valid_for_execution'')
      else if structural_facts s = [] then Inr (Gv_Unavailable, None, Some ''structural_basis_unavailable'')
      else if entry_reach c p \<le> 0 then Inr (Gv_Unavailable, None, Some ''entry_reachability_unavailable'')
      else (let existing = reachable_geometry c p s in
        case trade_levels c p d existing of
          None \<Rightarrow> Inr (Gv_Unavailable, None, Some ''non_directional_scenario'')
        | Some (entry, stop, target) \<Rightarrow> bindE (zone_around entry (entry_reach c p)) (\<lambda>zone.
            validate_geometry \<lparr>gc_direction = d, gc_reference_price = hp_reference_price p, gc_entry_zone = zone,
              gc_entry = entry, gc_stop_loss = stop, gc_take_profit = target, gc_secondary_target = None,
              gc_expected_move = hp_expected_base_movement p, gc_maximum_entry_distance = entry_reach c p,
              gc_minimum_risk_reward = sf_minimum_risk_reward c,
              gc_basis_fact_identifiers = uniq (case existing of
                 Some g \<Rightarrow> sg_basis_fact_identifiers g @ structural_facts s
               | None \<Rightarrow> structural_facts s @ supporting)\<rparr>)))"

subsection \<open>The forecast\<close>

definition strongest_text :: "string list \<Rightarrow> string" where
  "strongest_text facts = (let t = join '', '' (take 3 facts) in
     if t = [] then ''limited validated directional evidence'' else t)"

definition narrative_text :: "string \<Rightarrow> string \<Rightarrow> string list \<Rightarrow> string \<Rightarrow> f64 \<Rightarrow> geometry_result \<Rightarrow> string" where
  "narrative_text tf kind supporting path invalidation r =
     tf @ '' evidence supports a '' @ kind @ '' as the most probable path. '' @ ''Strongest traceable facts: ''
     @ strongest_text supporting @ ''. '' @ path @ '' The scenario is invalidated beyond '' @ fmt_fixed 3 invalidation @ ''. ''
     @ (case r of (_, Some _, _) \<Rightarrow> ''Executable geometry passed deterministic validation.''
        | (_, None, reason) \<Rightarrow> ''Analytical direction remains separate from execution: ''
            @ (case reason of None \<Rightarrow> ''None'' | Some x \<Rightarrow> x) @ ''.'')"

definition alternative_of :: "scenario_direction \<Rightarrow> f64 \<Rightarrow> f64 \<Rightarrow> alternative_scenario" where
  "alternative_of d raw invalidation =
     (let opp = opposite_direction d; name = py_lower (scenario_direction_value opp)
      in \<lparr>at_direction = opp, at_scenario_type = name @ '' alternative'',
          at_expected_path = ''If price crosses '' @ fmt_fixed 3 invalidation @ '', the primary scenario fails ''
            @ ''and a '' @ name @ '' path becomes more probable.'',
          at_probability = max 0 (min 1 (1 - raw)),
          at_invalidation = ''Primary scenario invalidated beyond '' @ fmt_fixed 3 invalidation\<rparr>)"

definition scenario_values :: "runtime \<Rightarrow> market_state \<Rightarrow> forecast_result \<Rightarrow> signal_set \<Rightarrow> string \<Rightarrow> f64 option
    \<Rightarrow> horizon_prediction \<Rightarrow> timeframe_signal \<Rightarrow> scenario_direction \<times> f64 \<Rightarrow> price_zone \<times> price_zone
    \<Rightarrow> f64 \<Rightarrow> scenario_validity \<times> string \<Rightarrow> geometry_result \<Rightarrow> forward_scenario" where
  "scenario_values rt st q sy tf calibrated p s dr zones confidence validity r =
     (let d = fst dr; raw = snd dr; price = hp_reference_price p; move = hp_expected_base_movement p;
          kind = scenario_type_of d s; inv = invalidation_level price move d; g = fst (snd r);
          target = (case g of Some x \<Rightarrow> ge_take_profit x | None \<Rightarrow> forecast_target price move d);
          path = path_text d kind price target
      in \<lparr>fm_scenario_id = url_id rt (''ten:forward-scenario:'' @ um_state_id st @ '':'' @ tf @ '':1.0''),
          fm_cycle_id = um_cycle_id st, fm_market_state_id = um_state_id st, fm_synthesis_id = sy_synthesis_id sy,
          fm_analysis_id = sy_analysis_id sy, fm_quantitative_forecast_id = fq_result_id q,
          fm_instrument = um_instrument st, fm_timeframe = tf,
          fm_created_at = max (um_knowledge_cutoff st) (sy_created_at sy),
          fm_market_cutoff_time = um_market_data_boundary st, fm_reference_market_price = price,
          fm_forecast_horizon_seconds = horizon_seconds tf, fm_primary_direction = d, fm_scenario_type = kind,
          fm_expected_price_path = path, fm_expected_range = fst zones, fm_expected_closing_zone = snd zones,
          fm_expected_move = move, fm_expected_high = pz_high (fst zones), fm_expected_low = pz_low (fst zones),
          fm_entry_zone = map_option ge_entry_zone g, fm_invalidation_level = Some inv,
          fm_protective_stop = map_option ge_stop_loss g, fm_primary_target = Some target,
          fm_secondary_target = Option.bind g ge_secondary_target,
          fm_raw_directional_confidence = raw, fm_confidence = confidence, fm_calibrated_probability = calibrated,
          fm_calibration_status = (if calibrated \<noteq> None then ''calibrated'' else ''calibration_pending''),
          fm_evidence_strength = cd_independent_confluence (tg_confidence_decomposition s),
          fm_supporting_fact_ids = supporting_facts s d, fm_contradicting_fact_ids = contradicting_facts s d,
          fm_narrative = narrative_text tf kind (supporting_facts s d) path inv r,
          fm_alternative_scenario = alternative_of d raw inv,
          fm_expiry = um_market_data_boundary st + seconds_td (horizon_seconds tf),
          fm_scenario_validity = fst validity, fm_scenario_validity_reason = snd validity,
          fm_execution_geometry_validity = fst r, fm_geometry_rejection_reason = snd (snd r), fm_geometry = g,
          fm_source_timeframe_cycle_id = um_cycle_id st\<rparr>)"

definition make_scenario :: "forward_scenario \<Rightarrow> scenario_error + forward_scenario" where
  "make_scenario s = (if forward_scenario_ok s then Inr s else Inl (Scenario_Validation ''ForwardMarketScenario''))"

text \<open>The guards of \<open>forecast\<close> up to the synchronized prediction and signal.\<close>

definition forecast_inputs :: "market_state \<Rightarrow> forecast_result \<Rightarrow> signal_set \<Rightarrow> string
    \<Rightarrow> scenario_error + horizon_prediction \<times> timeframe_signal" where
  "forecast_inputs st q sy tf =
     (if tf \<notin> {''M5'', ''M15''} then Inl (Scenario_Value_Error ''scenario forecasting supports only completed M5/M15 cycles'')
      else if um_state_id st \<noteq> fq_market_state_id q \<or> um_state_id st \<noteq> sy_market_state_id sy
          \<or> um_cycle_id st \<noteq> fq_cycle_id q \<or> um_cycle_id st \<noteq> sy_cycle_id sy
      then Inl (Scenario_Value_Error ''scenario inputs must share one immutable market state'')
      else (case frame_for st tf of None \<Rightarrow> Inl Scenario_Stop_Iteration
        | Some f \<Rightarrow>
           if ts_source_candle_close_at f \<noteq> ts_expected_candle_close_at f \<or> ts_stale f
           then Inl (Scenario_Value_Error ''scenario requires a fresh completed source candle'')
           else bindE (next_candle q tf) (\<lambda>p. bindE (convert_prediction_move p default_instrument) (\<lambda>m.
             case find (\<lambda>s. tg_timeframe s = tf) (sy_timeframe_signals sy) of None \<Rightarrow> Inl Scenario_Stop_Iteration
             | Some s \<Rightarrow> if hp_reference_price p \<le> 0
                 then Inl (Scenario_Value_Error ''scenario requires synchronized reference price'')
                 else Inr (in_price_points p m, s)))))"

definition direction_of_move :: "scenario_config \<Rightarrow> horizon_prediction \<Rightarrow> scenario_direction \<times> f64" where
  "direction_of_move c p =
     (let (d, raw) = forecast_direction c p
      in (if hp_expected_base_movement p \<le> 0 \<or> hp_expected_maximum_movement p \<le> 0 then Sc_Inconclusive else d, raw))"

definition forecast :: "runtime \<Rightarrow> scenario_config \<Rightarrow> market_state \<Rightarrow> forecast_result \<Rightarrow> signal_set \<Rightarrow> string \<Rightarrow> f64 option
    \<Rightarrow> scenario_error + forward_scenario" where
  "forecast rt c st q sy tf calibrated =
     bindE (forecast_inputs st q sy tf) (\<lambda>(p, s).
     let dr = direction_of_move c p; d = fst dr; move = hp_expected_base_movement p in
     bindE (ranges (hp_reference_price p) move (hp_expected_maximum_movement p) d) (\<lambda>zones.
     let confidence = scenario_confidence s (snd dr) (um_evidence_completeness st);
         validity = forecast_validity c d move confidence (um_evidence_completeness st) in
     bindE (forecast_geometry c p s d (supporting_facts s d) (fst validity)) (\<lambda>r.
       make_scenario (scenario_values rt st q sy tf calibrated p s dr zones confidence validity r))))"

subsection \<open>Combination\<close>

definition pullback_compatible :: "forward_scenario \<Rightarrow> forward_scenario \<Rightarrow> bool" where
  "pullback_compatible m5 m15 =
     (if fm_primary_direction m15 = Sc_Bullish then fm_primary_direction m5 = Sc_Bearish
        \<and> (case fm_invalidation_level m15 of None \<Rightarrow> False | Some l \<Rightarrow> l \<le> fm_expected_low m5)
      else if fm_primary_direction m15 = Sc_Bearish then fm_primary_direction m5 = Sc_Bullish
        \<and> (case fm_invalidation_level m15 of None \<Rightarrow> False | Some l \<Rightarrow> fm_expected_high m5 \<le> l)
      else False)"

definition agreement_of :: "forward_scenario \<Rightarrow> forward_scenario \<Rightarrow> scenario_agreement" where
  "agreement_of m5 m15 =
     (if fm_expiry m5 \<le> fm_market_cutoff_time m15 then Ag_Inconclusive
      else if fm_primary_direction m5 = fm_primary_direction m15 \<and> fm_primary_direction m15 \<in> {Sc_Bullish, Sc_Bearish}
      then Ag_Aligned
      else if pullback_compatible m5 m15 then Ag_Pullback_Compatible
      else if Sc_Inconclusive \<in> {fm_primary_direction m5, fm_primary_direction m15} then Ag_Inconclusive
      else Ag_Conflict)"

definition compatible :: "scenario_agreement \<Rightarrow> bool" where
  "compatible a \<longleftrightarrow> a \<in> {Ag_Aligned, Ag_Pullback_Compatible}"

definition combined_confidence :: "forward_scenario \<Rightarrow> forward_scenario \<Rightarrow> f64" where
  "combined_confidence m5 m15 =
     (if agreement_of m5 m15 \<noteq> Ag_Conflict then fm_confidence m5 * fl64 (2 / 5) + fm_confidence m15 * fl64 (3 / 5)
      else min (fm_confidence m5) (fm_confidence m15) * fl64 (1 / 2))"

definition combined_geometry :: "scenario_config \<Rightarrow> forward_scenario \<Rightarrow> forward_scenario \<Rightarrow> geometry_result" where
  "combined_geometry c m5 m15 =
     (let a = agreement_of m5 m15; confidence = combined_confidence m5 m15;
          preferred = (if a = Ag_Pullback_Compatible then fm_geometry m5 else fm_geometry m15)
      in if compatible a \<and> preferred \<noteq> None \<and> sf_minimum_scenario_confidence c \<le> confidence
         then (Gv_Valid, preferred, None)
         else (Gv_Unavailable, None, Some
           (if a = Ag_Conflict then ''true_m5_m15_directional_conflict''
            else if confidence < sf_minimum_scenario_confidence c then ''combined_confidence_below_requirement''
            else ''m5_m15_scenarios_not_execution_compatible'')))"

definition combined_values :: "runtime \<Rightarrow> scenario_config \<Rightarrow> forward_scenario \<Rightarrow> forward_scenario \<Rightarrow> combined_scenario" where
  "combined_values rt c m5 m15 =
     (let a = agreement_of m5 m15; r = combined_geometry c m5 m15
      in \<lparr>cs_combined_scenario_id = url_id rt (''ten:combined-forward-scenario:'' @ fm_scenario_id m5 @ '':'' @ fm_scenario_id m15 @ '':1.0''),
          cs_cycle_id = fm_cycle_id m15, cs_instrument = fm_instrument m15, cs_market_state_id = fm_market_state_id m15,
          cs_m5_scenario_id = fm_scenario_id m5, cs_m15_scenario_id = fm_scenario_id m15,
          cs_created_at = max (fm_created_at m5) (fm_created_at m15), cs_market_cutoff_time = fm_market_cutoff_time m15,
          cs_agreement = a, cs_combined_direction = (if compatible a then fm_primary_direction m15 else Sc_Inconclusive),
          cs_expected_price_path = (if a = Ag_Pullback_Compatible
             then fm_expected_price_path m5 @ '' M15 context: '' @ fm_expected_price_path m15
             else if a = Ag_Aligned then fm_expected_price_path m15
             else ''M5 and M15 paths are incompatible; no combined trade geometry is issued.''),
          cs_confidence = round_nd 4 (combined_confidence m5 m15),
          cs_scenario_validity = (if compatible a then Sv_Valid else Sv_Degraded),
          cs_scenario_validity_reason = py_lower (agreement_value a),
          cs_execution_geometry_validity = fst r, cs_geometry_rejection_reason = snd (snd r), cs_geometry = fst (snd r),
          cs_expiry = min (fm_expiry m5) (fm_expiry m15)\<rparr>)"

definition combine :: "runtime \<Rightarrow> scenario_config \<Rightarrow> forward_scenario \<Rightarrow> forward_scenario \<Rightarrow> scenario_error + combined_scenario" where
  "combine rt c m5 m15 =
     (if fm_instrument m5 \<noteq> fm_instrument m15 then Inl (Scenario_Value_Error ''combined scenarios must use one instrument'')
      else if fm_market_cutoff_time m15 < fm_market_cutoff_time m5
      then Inl (Scenario_Value_Error ''M5 scenario cannot originate after the M15 cutoff'')
      else (let s = combined_values rt c m5 m15 in
        if combined_scenario_ok s then Inr s else Inl (Scenario_Validation ''CombinedForwardScenario'')))"

subsection \<open>Bounds of the intermediate prices\<close>

lemma fl_half:
  assumes "1 \<le> x"
  shows "fl (fval x / 2) = fval x / 2"
proof (rule fl_exact)
  let ?u = "ulp_expo (fval x)" and ?m = "rhe (fval x / 2 powi ulp_expo (fval x))"
  have x: "1 \<le> fval x" using assms by (simp add: f64_order)
  have "expo 1 \<le> expo (fval x)" using x by (intro expo_mono) auto
  moreover have "expo 1 = 0" by code_simp
  ultimately have u: "- 52 \<le> ?u" by (simp add: ulp_expo_def)
  have "fval x = of_int ?m * 2 powi ?u"
    using fl_fval [of x] x by (simp add: fl_def Let_def)
  then have "fval x / 2 = of_int ?m * (2 powi ?u / 2)" by simp
  also have "(2 :: rat) powi ?u / 2 = 2 powi (?u - 1)" by (simp add: power_int_diff)
  finally show "fval x / 2 = of_int ?m * 2 powi (?u - 1)" .
  show "\<bar>?m\<bar> \<le> 2 ^ 53" by (rule rhe_ulp_bound)
  show "- 1074 \<le> ?u - 1" using u by simp
qed

text \<open>A share of a price of at least one that is at most a half leaves a positive price.\<close>

lemma half_share:
  assumes "1 \<le> x" "a \<le> x * b" "b \<le> fl64 (1 / 2)" "0 \<le> b"
  shows "a \<le> fl64 (fval x / 2)" "fl64 (1 / 2) \<le> x - a"
proof -
  have x: "1 \<le> fval x" using assms(1) by (simp add: f64_order)
  have h: "fval (fl64 (1 / 2)) = 1 / 2" by code_simp
  have "x * b \<le> x * fl64 (1 / 2)" using assms by (intro f64_mult_mono) (auto intro: order.trans [of 0 1])
  also have "x * fl64 (1 / 2) = fl64 (fval x / 2)" by (simp add: times_f64_def h)
  finally show a: "a \<le> fl64 (fval x / 2)" using assms(2) by simp
  have half: "fval (fl64 (fval x / 2)) = fval x / 2" by (simp add: fval_fl64 fl_half assms(1))
  have "1 / 2 \<le> fval x - fval a" using a x by (simp add: f64_order half)
  then show "fl64 (1 / 2) \<le> x - a"
    using fl_ge [of "fl64 (1 / 2)" "fval x - fval a"] by (simp add: f64_order fval_arith h)
qed

lemma floor_small: "0 < price_floor" "price_floor \<le> fl64 (1 / 2)" "price_floor \<le> fl64 (1 / 20000)" "fl64 (1 / 2) \<le> 1"
  "price_floor \<le> 1"
  by code_simp+

lemma one_le_pos: "1 \<le> x \<Longrightarrow> (0 :: f64) < x"
  by (rule less_le_trans [OF f64_0_le_1(2)])

lemma zone_okI: "price_floor \<le> hi \<Longrightarrow> lo \<le> hi \<Longrightarrow> make_zone (max price_floor lo) hi = Inr \<lparr>pz_low = max price_floor lo, pz_high = hi\<rparr>"
  using floor_small(1) by (auto simp: make_zone_def price_zone_ok_def Let_def max_def)

lemma f64_add_ge: "0 \<le> b \<Longrightarrow> a \<le> a + (b :: f64)"
  by (simp add: f64_order f64_arith fl_ge)

text \<open>What the guards of \<open>forecast\<close> establish about the prediction they hand on.\<close>

definition sized :: "horizon_prediction \<Rightarrow> bool" where
  "sized p \<longleftrightarrow> 1 \<le> hp_reference_price p \<and> 0 < hp_expected_base_movement p
     \<and> hp_expected_base_movement p \<le> hp_reference_price p * fl64 (1 / 50) \<and> 0 \<le> hp_expected_maximum_movement p
     \<and> list_all (in_range 0 1) [hp_buy_probability p, hp_sell_probability p, hp_neutral_probability p]"

lemma converted_price:
  assumes "fl64 (1 / 10) \<le> x" "x \<le> p * fl64 (1 / 50)" "0 < p"
  shows "1 \<le> p"
proof (rule ccontr)
  assume "\<not> 1 \<le> p"
  then have "p * fl64 (1 / 50) \<le> 1 * fl64 (1 / 50)"
    using assms(3) by (intro f64_mult_mono) (auto simp: fl64_in intro: less_imp_le, code_simp)
  moreover have "1 * fl64 (1 / 50) < fl64 (1 / 10)" by code_simp
  ultimately show False using assms(1,2) by simp
qed

lemma inputs_InrD:
  assumes "forecast_inputs st q sy tf = Inr (p, s)"
  shows "tf \<in> {''M5'', ''M15''}" "um_state_id st = fq_market_state_id q" "um_state_id st = sy_market_state_id sy"
    "um_cycle_id st = fq_cycle_id q" "um_cycle_id st = sy_cycle_id sy"
    "\<exists>f. frame_for st tf = Some f \<and> ts_source_candle_close_at f = ts_expected_candle_close_at f \<and> \<not> ts_stale f"
    "s \<in> set (sy_timeframe_signals sy)" "tg_timeframe s = tf"
    "\<exists>p0 m. p0 \<in> set (fq_predictions q) \<and> ho_timeframe (hp_horizon p0) = tf \<and> ho_candle_count (hp_horizon p0) = 1
       \<and> convert_prediction_move p0 default_instrument = Inr m \<and> p = in_price_points p0 m \<and> 0 < hp_reference_price p0"
  using assms
  by (auto simp: forecast_inputs_def next_candle_def bindE_eq_Inr not_le dest!: find_member
      split: if_split_asm option.split_asm)

lemma inputs_sized:
  assumes "forecast_inputs st q sy tf = Inr (p, s)" "forecast_result_ok q"
  shows "sized p"
proof -
  obtain p0 m where p0: "p0 \<in> set (fq_predictions q)" "convert_prediction_move p0 default_instrument = Inr m"
      "p = in_price_points p0 m" "0 < hp_reference_price p0"
    using inputs_InrD(9) [OF assms(1)] by blast
  have ok: "prediction_ok p0" using assms(2) p0(1) by (auto simp: forecast_result_ok_def list_all_iff)
  have m: "fl64 (1 / 10) \<le> mc_converted_expected_move m" "mc_converted_expected_move m \<le> hp_reference_price p0 * fl64 (1 / 50)"
      "0 < mc_converted_expected_move m"
    using p0(2)
    by (auto simp: convert_prediction_move_def bindE_eq_Inr Let_def conversion_ok_def not_less default_instrument_def
        split: if_splits)
  have "0 \<le> unit_factor p0"
    using less_imp_le [OF p0(4)] by (auto simp: unit_factor_def fint_mono [of 0 100, simplified] intro!: f64_div_nonneg)
  then show ?thesis
    using ok m converted_price [OF m(1,2) p0(4)]
    by (auto simp: sized_def p0(3) in_price_points_def prediction_ok_def prediction_bounds_def intro!: f64_mult_nonneg)
qed

lemma ranges_ok:
  assumes "sized p" "price = hp_reference_price p" "maximum = hp_expected_maximum_movement p" "expected = hp_expected_base_movement p"
  obtains r z where "ranges price expected maximum d = Inr (r, z)" "price_zone_ok r" "price_zone_ok z"
    "pz_low r \<le> price" "price \<le> pz_high r"
proof -
  have price: "1 \<le> price" "0 \<le> maximum" "0 < expected" "expected \<le> price * fl64 (1 / 50)"
    using assms by (auto simp: sized_def)
  have c: "0 \<le> fl64 (1 / 4)" "0 \<le> fl64 (1 / 2)" "0 \<le> fl64 (7 / 10)" "fl64 (7 / 10) \<le> 1" "0 \<le> fl64 (3 / 20)" "0 \<le> fl64 (1 / 20000)"
    "0 \<le> fl64 (1 / 50)" "fl64 (1 / 50) \<le> fl64 (1 / 2)"
    by code_simp+
  have lo: "range_low price maximum d \<le> price" and hi: "price \<le> range_high price maximum d"
    using price c by (auto simp: range_low_def range_high_def intro!: f64_diff_le f64_add_ge f64_mult_nonneg)
  have "price_floor \<le> price" using floor_small(5) price(1) by simp
  then have r: "make_zone (max price_floor (range_low price maximum d)) (range_high price maximum d)
      = Inr \<lparr>pz_low = max price_floor (range_low price maximum d), pz_high = range_high price maximum d\<rparr>"
    using lo hi by (intro zone_okI) auto
  let ?w = "zone_width price expected" and ?m = "close_center price expected d"
  have "1 * fl64 (1 / 20000) \<le> price * fl64 (1 / 20000)" using price(1) c by (intro f64_mult_mono) auto
  then have "price_floor \<le> price * fl64 (1 / 20000)" using floor_small(3) by simp
  then have w: "price_floor \<le> ?w" unfolding zone_width_def by (rule max.coboundedI2)
  have "expected * fl64 (7 / 10) \<le> expected" using c(3,4) price(3) by (intro f64_mult_le') auto
  then have "expected * fl64 (7 / 10) \<le> price * fl64 (1 / 50)" using price(4) by simp
  from half_share(2) [OF price(1) this c(8,7)] have "0 \<le> price - expected * fl64 (7 / 10)"
    using c(2) by simp
  then have m: "0 \<le> ?m" using price c by (auto simp: close_center_def intro!: f64_add_nonneg f64_mult_nonneg)
  have "0 \<le> ?w" using w floor_small(1) by simp
  then have "?w \<le> ?m + ?w" using f64_add_mono [OF m order_refl, of ?w] by simp
  moreover have "?m - ?w \<le> ?m + ?w" using \<open>0 \<le> ?w\<close> f64_diff_le [of ?w ?m] f64_add_ge [of ?w ?m] by simp
  ultimately have z: "make_zone (max price_floor (?m - ?w)) (?m + ?w)
      = Inr \<lparr>pz_low = max price_floor (?m - ?w), pz_high = ?m + ?w\<rparr>"
    using w by (intro zone_okI) auto
  show ?thesis
  proof (rule that)
    show "ranges price expected maximum d = Inr (\<lparr>pz_low = max price_floor (range_low price maximum d), pz_high = range_high price maximum d\<rparr>,
        \<lparr>pz_low = max price_floor (?m - ?w), pz_high = ?m + ?w\<rparr>)"
      by (simp add: ranges_def r z)
  qed (use r z lo hi \<open>price_floor \<le> price\<close> in \<open>auto simp: make_zone_def Let_def split: if_splits\<close>)
qed

lemma direction_probability:
  assumes "sized p"
  shows "in_range 0 1 (snd (direction_of_move c p))"
proof -
  have "in_range 0 1 (hp_buy_probability p)" "in_range 0 1 (hp_sell_probability p)" "in_range 0 1 (hp_neutral_probability p)"
    using assms by (simp_all add: sized_def)
  moreover from this have "in_range 0 1 (top_probability p)"
    by (auto simp: top_probability_def in_range_def max_def)
  ultimately show ?thesis
    by (auto simp: direction_of_move_def forecast_direction_def Let_def)
qed

lemma confidence_percent:
  assumes "in_range 0 (fint 100) (tg_confidence s)" "in_range 0 1 raw" "in_range 0 1 e"
  shows "in_range 0 (fint 100) (scenario_confidence s raw e)"
proof -
  have "0 \<le> fl64 (9 / 20)" "0 \<le> fl64 (7 / 20)" "0 \<le> fl64 (1 / 5)" "0 \<le> fint 100" by code_simp+
  then have "0 \<le> tg_confidence s * fl64 (9 / 20) + raw * fint 100 * fl64 (7 / 20) + e * fint 100 * fl64 (1 / 5)"
    using assms by (intro f64_add_nonneg f64_mult_nonneg) (auto dest: in_rangeD)
  then show ?thesis unfolding scenario_confidence_def
    by (intro round_nd_percent in_rangeI) (auto simp: min_def fint_mono [of 0 100, simplified])
qed

lemma levels_positive:
  assumes "sized p" "price = hp_reference_price p" "move = hp_expected_base_movement p"
  shows "0 < forecast_target price move d" "0 < invalidation_level price move d"
proof -
  have price: "1 \<le> price" "0 \<le> move" "move \<le> price * fl64 (1 / 50)" using assms by (auto simp: sized_def)
  have c: "0 \<le> fl64 (4 / 5)" "fl64 (4 / 5) \<le> 1" "0 \<le> fl64 (7 / 20)" "0 \<le> fl64 (1 / 50)" "fl64 (1 / 50) \<le> fl64 (1 / 2)" "0 < fl64 (1 / 2)"
    by code_simp+
  have "move * fl64 (4 / 5) \<le> move" by (rule f64_mult_le' [OF price(2) c(2) c(1)])
  then have "move * fl64 (4 / 5) \<le> price * fl64 (1 / 50)" using price(3) by simp
  from half_share(2) [OF price(1) this c(5,4)] have "0 < price - move * fl64 (4 / 5)" using c(6) by simp
  moreover have "1 \<le> price + move * x" if "0 \<le> x" for x
    using price f64_add_ge [OF f64_mult_nonneg [OF price(2) that], of price] by simp
  ultimately show "0 < forecast_target price move d" "0 < invalidation_level price move d"
    using price c floor_small(1)
    by (auto simp: forecast_target_def invalidation_level_def less_max_iff_disj intro: one_le_pos)
qed

lemma make_geometry_InrD: "validate_geometry c = Inr (v, Some g, x) \<Longrightarrow> v = Gv_Valid \<and> x = None \<and> geometry_ok g
    \<and> gc_direction c \<in> {Sc_Bullish, Sc_Bearish} \<and> g = rounded_geometry c \<and> geometry_rejection c = None"
  using rejection_none(1) [of c]
  by (auto simp: validate_geometry_def bindE_eq_Inr make_geometry_def split: option.split_asm prod.split_asm if_split_asm)

lemma no_geometry: "validate_geometry c = Inr (v, None, x) \<Longrightarrow> v \<noteq> Gv_Valid \<and> \<not> no_text x"
  by (auto simp: validate_geometry_def bindE_eq_Inr geometry_rejection_def entry_rejection_def ordering_rejection_def
      proportion_rejection_def no_text_def split: option.split_asm prod.split_asm if_split_asm)

text \<open>The answers of \<open>_geometry\<close>: a valid geometry of a valid directional scenario, or a reason.\<close>

lemma forecast_geometry_cases:
  assumes "forecast_geometry c p s d supporting v = Inr (gv, g, x)"
  shows "if gv = Gv_Valid then v = Sv_Valid \<and> x = None \<and> d \<in> {Sc_Bullish, Sc_Bearish}
      \<and> (\<exists>k. g = Some (rounded_geometry k) \<and> geometry_ok (rounded_geometry k) \<and> geometry_rejection k = None \<and> gc_direction k = d
            \<and> gc_reference_price k = hp_reference_price p \<and> gc_minimum_risk_reward k = sf_minimum_risk_reward c)
    else g = None \<and> \<not> no_text x"
proof (cases "v = Sv_Valid \<and> structural_facts s \<noteq> [] \<and> \<not> entry_reach c p \<le> 0")
  case False
  then show ?thesis using assms unfolding forecast_geometry_def by (auto simp: no_text_def split: if_split_asm)
next
  case True
  then have f: "forecast_geometry c p s d supporting v = (case trade_levels c p d (reachable_geometry c p s) of
      None \<Rightarrow> Inr (Gv_Unavailable, None, Some ''non_directional_scenario'')
    | Some (entry, stop, target) \<Rightarrow> bindE (zone_around entry (entry_reach c p)) (\<lambda>zone. validate_geometry
        \<lparr>gc_direction = d, gc_reference_price = hp_reference_price p, gc_entry_zone = zone,
         gc_entry = entry, gc_stop_loss = stop, gc_take_profit = target, gc_secondary_target = None,
         gc_expected_move = hp_expected_base_movement p, gc_maximum_entry_distance = entry_reach c p,
         gc_minimum_risk_reward = sf_minimum_risk_reward c,
         gc_basis_fact_identifiers = uniq (case reachable_geometry c p s of
            Some g \<Rightarrow> sg_basis_fact_identifiers g @ structural_facts s
          | None \<Rightarrow> structural_facts s @ supporting)\<rparr>))"
    unfolding forecast_geometry_def Let_def by simp
  show ?thesis
  proof (cases "trade_levels c p d (reachable_geometry c p s)")
    case None
    then show ?thesis using assms f by (auto simp: no_text_def)
  next
    case (Some l)
    obtain entry stop target where l: "l = (entry, stop, target)" by (cases l)
    obtain k where k: "validate_geometry k = Inr (gv, g, x)" "gc_direction k = d" "gc_reference_price k = hp_reference_price p"
        "gc_minimum_risk_reward k = sf_minimum_risk_reward c"
      using assms f Some l by (auto simp: bindE_eq_Inr)
    then show ?thesis
      using True make_geometry_InrD [of k] no_geometry [of k gv x] by (cases g) auto
  qed
qed

lemma forecast_builds:
  assumes "market_state_ok st" and "forecast_result_ok q" and "signal_set_ok sy"
    and "forecast_inputs st q sy tf = Inr (p, s)" and "opt_all (in_range 0 1) calibrated"
    and "forecast_geometry c p s (fst (direction_of_move c p)) (supporting_facts s (fst (direction_of_move c p)))
      (fst (forecast_validity c (fst (direction_of_move c p)) (hp_expected_base_movement p)
        (scenario_confidence s (snd (direction_of_move c p)) (um_evidence_completeness st)) (um_evidence_completeness st))) = Inr r"
  shows "\<exists>x. forecast rt c st q sy tf calibrated = Inr x \<and> forward_scenario_ok x"
proof -
  note inp = inputs_InrD [OF assms(4)]
  have sized: "sized p" using inputs_sized [OF assms(4,2)] .
  let ?d = "fst (direction_of_move c p)" and ?price = "hp_reference_price p" and ?move = "hp_expected_base_movement p"
  let ?conf = "scenario_confidence s (snd (direction_of_move c p)) (um_evidence_completeness st)"
  let ?v = "forecast_validity c ?d ?move ?conf (um_evidence_completeness st)"
  obtain z1 z2 where z: "ranges ?price ?move (hp_expected_maximum_movement p) ?d = Inr (z1, z2)" "price_zone_ok z1" "price_zone_ok z2"
      "pz_low z1 \<le> ?price" "?price \<le> pz_high z1"
    using ranges_ok [OF sized refl refl refl] by metis
  let ?x = "scenario_values rt st q sy tf calibrated p s (direction_of_move c p) (z1, z2) ?conf ?v r"
  have fc: "forecast rt c st q sy tf calibrated = make_scenario ?x"
    using assms(4,6) z(1) by (simp add: forecast_def Let_def)
  have sig: "timeframe_signal_ok s" using assms(3) inp(7) by (auto simp: signal_set_ok_def list_all_iff)
  have conf: "in_range 0 (fint 100) ?conf"
    using sig assms(1) direction_probability [OF sized]
    by (intro confidence_percent) (simp_all add: timeframe_signal_ok_def market_state_ok_def)
  have price: "1 \<le> ?price" "0 < ?price" "0 \<le> ?move"
    using sized by (auto simp: sized_def intro: one_le_pos)
  obtain gv g x where r: "r = (gv, g, x)" by (cases r)
  note geo = forecast_geometry_cases [OF assms(6) [unfolded r]]
  have gpos: "\<forall>y. g = Some y \<longrightarrow> geometry_ok y" using geo by (auto split: if_splits)
  have gparts: "price_zone_ok (ge_entry_zone y)" "0 < ge_stop_loss y" "0 < ge_take_profit y" "\<forall>t. ge_secondary_target y = Some t \<longrightarrow> 0 < t"
    if "g = Some y" for y
    using gpos that by (auto simp: geometry_ok_def)
  have "forward_fields_ok ?x"
    using inp(1) price z levels_positive [OF sized refl refl] conf direction_probability [OF sized] assms(5) sig gpos gparts
    by (auto simp: forward_fields_ok_def scenario_values_def Let_def r horizon_seconds_def positive_opt_def price_zone_ok_def
        alternative_ok_def alternative_of_def timeframe_signal_ok_def decomposition_ok_def bind_eq_Some_conv
        in_range_def split: option.split)
  moreover have "forward_coherent ?x"
    using z geo assms(1) by (auto simp: forward_coherent_def scenario_values_def Let_def r horizon_seconds_def seconds_td_def
        market_state_ok_def split: if_splits)
  ultimately show ?thesis using fc by (simp add: make_scenario_def forward_scenario_ok_def)
qed

text \<open>Claim C35: on a validated market state, forecast and synthesis whose guards pass, the engine builds
  its scenario: whatever the prediction, every validator of \<open>ForwardMarketScenario\<close> holds, unless
  the geometry itself could not be built. The two guards against a silent market, the range and
  the closing zone around the price, the confidence and the levels are all within bounds.\<close>

theorem forecast_total:
  assumes "market_state_ok st" and "forecast_result_ok q" and "signal_set_ok sy"
    and "forecast_inputs st q sy tf = Inr (p, s)" and "opt_all (in_range 0 1) calibrated"
    and "forecast_geometry c p s (fst (direction_of_move c p)) (supporting_facts s (fst (direction_of_move c p)))
      (fst (forecast_validity c (fst (direction_of_move c p)) (hp_expected_base_movement p)
        (scenario_confidence s (snd (direction_of_move c p)) (um_evidence_completeness st)) (um_evidence_completeness st))) = Inr r"
  shows "\<exists>x. forecast rt c st q sy tf calibrated = Inr x \<and> forward_scenario_ok x"
  using assms by (rule forecast_builds)

text \<open>Rounding keeps the direction of an accepted geometry.\<close>

definition buy_ordered :: "scenario_geometry \<Rightarrow> bool" where
  "buy_ordered g \<longleftrightarrow> ge_stop_loss g < ge_entry g \<and> ge_entry g < ge_take_profit g"

definition sell_ordered :: "scenario_geometry \<Rightarrow> bool" where
  "sell_ordered g \<longleftrightarrow> ge_take_profit g < ge_entry g \<and> ge_entry g < ge_stop_loss g"

lemma rounded_order:
  assumes "geometry_rejection k = None" "geometry_ok (rounded_geometry k)"
  shows "gc_direction k = Sc_Bullish \<Longrightarrow> buy_ordered (rounded_geometry k)"
    "gc_direction k = Sc_Bearish \<Longrightarrow> sell_ordered (rounded_geometry k)"
proof -
  have two: "buy_ordered (rounded_geometry k) \<or> sell_ordered (rounded_geometry k)"
    using assms(2) by (auto simp: geometry_ok_def buy_ordered_def sell_ordered_def)
  show "buy_ordered (rounded_geometry k)" if "gc_direction k = Sc_Bullish"
  proof -
    have "round_nd 6 (gc_stop_loss k) \<le> round_nd 6 (gc_entry k)"
      using rejection_none(6) [OF assms(1) that] by (intro round_nd_mono less_imp_le) blast
    then have "\<not> sell_ordered (rounded_geometry k)" by (simp add: sell_ordered_def rounded_geometry_def not_less)
    then show ?thesis using two by blast
  qed
  show "sell_ordered (rounded_geometry k)" if "gc_direction k = Sc_Bearish"
  proof -
    have "round_nd 6 (gc_entry k) \<le> round_nd 6 (gc_stop_loss k)"
      using rejection_none(7) [OF assms(1) that] by (intro round_nd_mono less_imp_le) blast
    then have "\<not> buy_ordered (rounded_geometry k)" by (simp add: buy_ordered_def rounded_geometry_def not_less)
    then show ?thesis using two by blast
  qed
qed

lemma forecast_InrD:
  assumes "forecast rt c st q sy tf calibrated = Inr x"
  obtains p s r zones v conf where "forecast_inputs st q sy tf = Inr (p, s)" "forward_scenario_ok x"
    "v = forecast_validity c (fst (direction_of_move c p)) (hp_expected_base_movement p) conf (um_evidence_completeness st)"
    "forecast_geometry c p s (fst (direction_of_move c p)) (supporting_facts s (fst (direction_of_move c p))) (fst v) = Inr r"
    "x = scenario_values rt st q sy tf calibrated p s (direction_of_move c p) zones conf v r"
proof -
  obtain p s where ps: "forecast_inputs st q sy tf = Inr (p, s)"
    using assms by (auto simp: forecast_def bindE_eq_Inr)
  let ?d = "fst (direction_of_move c p)"
  let ?conf = "scenario_confidence s (snd (direction_of_move c p)) (um_evidence_completeness st)"
  let ?v = "forecast_validity c ?d (hp_expected_base_movement p) ?conf (um_evidence_completeness st)"
  obtain zones r where r: "forecast_geometry c p s ?d (supporting_facts s ?d) (fst ?v) = Inr r"
    "make_scenario (scenario_values rt st q sy tf calibrated p s (direction_of_move c p) zones ?conf ?v r) = Inr x"
    using assms ps unfolding forecast_def Let_def by (auto simp: bindE_eq_Inr)
  then have "forward_scenario_ok x" "x = scenario_values rt st q sy tf calibrated p s (direction_of_move c p) zones ?conf ?v r"
    by (auto simp: make_scenario_def split: if_split_asm)
  then show ?thesis using that [OF ps _ refl r(1)] by blast
qed

lemma forecast_order:
  assumes "forecast rt c st q sy tf calibrated = Inr x" "fm_geometry x = Some y"
  shows "fm_scenario_validity x = Sv_Valid
      \<and> (if fm_primary_direction x = Sc_Bullish then buy_ordered y else fm_primary_direction x = Sc_Bearish \<and> sell_ordered y)"
  using assms(1)
proof (rule forecast_InrD)
  fix p s r zones v conf
  assume geo: "forecast_geometry c p s (fst (direction_of_move c p)) (supporting_facts s (fst (direction_of_move c p))) (fst v) = Inr r"
    and x: "x = scenario_values rt st q sy tf calibrated p s (direction_of_move c p) zones conf v r"
  obtain gv g reason where r: "r = (gv, g, reason)" by (cases r)
  show ?thesis
    using forecast_geometry_cases [OF geo [unfolded r]] assms(2) rounded_order
    by (auto simp: x scenario_values_def Let_def r split: if_split_asm)
qed

text \<open>Stop and target lie beyond both the entry and the reference price, on opposite sides.\<close>

definition trade_around :: "scenario_direction \<Rightarrow> f64 \<Rightarrow> f64 \<Rightarrow> f64 \<Rightarrow> f64 \<Rightarrow> bool" where
  "trade_around d ref entry stop target \<longleftrightarrow> (if d = Sc_Bullish then stop < min entry ref \<and> max entry ref < target
     else target < min entry ref \<and> max entry ref < stop)"

text \<open>The geometry of the scenario is made of unrounded levels that passed the checks against the reference price.\<close>

definition geometry_from :: "scenario_config \<Rightarrow> horizon_prediction \<Rightarrow> scenario_direction \<Rightarrow> scenario_geometry \<Rightarrow> bool" where
  "geometry_from c p d g \<longleftrightarrow> (\<exists>entry stop target. ge_entry g = round_nd 6 entry \<and> ge_stop_loss g = round_nd 6 stop \<and> ge_take_profit g = round_nd 6 target
     \<and> trade_around d (hp_reference_price p) entry stop target
     \<and> \<bar>entry - hp_reference_price p\<bar> \<le> entry_reach c p
     \<and> \<bar>target - entry\<bar> \<le> hp_expected_base_movement p * fl64 (3 / 2)
     \<and> sf_minimum_risk_reward c \<le> \<bar>target - entry\<bar> / \<bar>entry - stop\<bar>)"

lemma accepted_geometry:
  assumes "validate_geometry k = Inr (v, Some g, reason)"
  shows "geometry_rejection k = None \<and> g = rounded_geometry k"
  using assms by (auto simp: validate_geometry_def make_geometry_def bindE_eq_Inr split: option.split_asm if_split_asm)

lemma forecast_geometry_from:
  assumes "forecast_geometry c p s d facts v = Inr (gv, Some g, reason)"
  shows "geometry_from c p d g"
proof -
  obtain k where k: "geometry_rejection k = None" "g = rounded_geometry k" "gc_direction k = d" "gc_reference_price k = hp_reference_price p"
    "gc_maximum_entry_distance k = entry_reach c p" "gc_expected_move k = hp_expected_base_movement p"
    "gc_minimum_risk_reward k = sf_minimum_risk_reward c"
    using assms by (auto simp: forecast_geometry_def Let_def bindE_eq_Inr dest!: accepted_geometry split: if_split_asm option.split_asm prod.split_asm)
  note r = rejection_none [OF k(1)]
  have "trade_around d (hp_reference_price p) (gc_entry k) (gc_stop_loss k) (gc_take_profit k)"
    using r(1,6,7) k(3,4) by (auto simp: trade_around_def)
  then show ?thesis using r(3,8-11) k unfolding geometry_from_def rounded_geometry_def gc_reward_def gc_risk_def
    by (intro exI [of _ "gc_entry k"] exI [of _ "gc_stop_loss k"] exI [of _ "gc_take_profit k"]) simp
qed

text \<open>Claim C36: a scenario the engine returns passes all its validators, belongs to the market state it
  was made from, starts at the boundary and expires one candle later; it carries a geometry only
  when it is a valid, directional scenario. The published levels are then ordered stop, entry, target in its direction, and
  are the roundings to six decimals of levels of which stop and target lie beyond both the entry and the reference price
  of the prediction, on opposite sides; the entry is within reach of that price, the target within one and a half
  expected moves, and the reward at least the configured multiple of the risk.\<close>

theorem forecast_sound:
  assumes "forecast rt c st q sy tf calibrated = Inr x"
  shows "forward_scenario_ok x \<and> fm_market_state_id x = um_state_id st \<and> fm_market_state_id x = fq_market_state_id q
    \<and> fm_cycle_id x = sy_cycle_id sy \<and> fm_market_cutoff_time x = um_market_data_boundary st
    \<and> fm_expiry x = fm_market_cutoff_time x + seconds_td (fm_forecast_horizon_seconds x)
    \<and> (case fm_geometry x of None \<Rightarrow> fm_geometry_rejection_reason x \<noteq> None
       | Some g \<Rightarrow> fm_scenario_validity x = Sv_Valid
          \<and> (if fm_primary_direction x = Sc_Bullish then buy_ordered g
             else fm_primary_direction x = Sc_Bearish \<and> sell_ordered g)
          \<and> (\<exists>p s. forecast_inputs st q sy tf = Inr (p, s) \<and> geometry_from c p (fm_primary_direction x) g))"
  using assms
proof (rule forecast_InrD)
  fix p s r zones v conf
  assume inp: "forecast_inputs st q sy tf = Inr (p, s)" and ok: "forward_scenario_ok x"
    and geo: "forecast_geometry c p s (fst (direction_of_move c p)) (supporting_facts s (fst (direction_of_move c p))) (fst v) = Inr r"
    and x: "x = scenario_values rt st q sy tf calibrated p s (direction_of_move c p) zones conf v r"
  have "fm_geometry x = None \<Longrightarrow> fm_geometry_rejection_reason x \<noteq> None"
    using ok by (auto simp: forward_scenario_ok_def forward_coherent_def no_text_def split: if_splits)
  moreover have "geometry_from c p (fm_primary_direction x) g" if some: "fm_geometry x = Some g" for g
  proof -
    have "fst (snd r) = Some g" using some by (simp add: x scenario_values_def Let_def split_beta)
    then obtain gv reason where r: "r = (gv, Some g, reason)" by (metis prod.collapse)
    show ?thesis using forecast_geometry_from [OF geo [unfolded r]] by (simp add: x scenario_values_def Let_def split_beta)
  qed
  moreover have "fm_market_state_id x = um_state_id st \<and> fm_market_state_id x = fq_market_state_id q
      \<and> fm_cycle_id x = sy_cycle_id sy \<and> fm_market_cutoff_time x = um_market_data_boundary st
      \<and> fm_expiry x = fm_market_cutoff_time x + seconds_td (fm_forecast_horizon_seconds x)"
    using inputs_InrD(2-5) [OF inp] by (simp add: x scenario_values_def Let_def)
  ultimately show ?thesis using ok inp forecast_order [OF assms] by (auto split: option.split)
qed

subsection \<open>What combining two scenarios does\<close>

lemma pullback_opposite:
  "pullback_compatible m5 m15 \<Longrightarrow> (fm_primary_direction m15 = Sc_Bullish \<and> fm_primary_direction m5 = Sc_Bearish)
     \<or> (fm_primary_direction m15 = Sc_Bearish \<and> fm_primary_direction m5 = Sc_Bullish)"
  by (auto simp: pullback_compatible_def split: if_splits)

lemma weighted_percent:
  assumes "in_range 0 (fint 100) a" "in_range 0 (fint 100) b"
  shows "in_range 0 (fint 100) (a * fl64 (2 / 5) + b * fl64 (3 / 5))" "in_range 0 (fint 100) (min a b * fl64 (1 / 2))"
proof -
  have "a * fl64 (2 / 5) + b * fl64 (3 / 5) \<le> fint 100 * fl64 (2 / 5) + fint 100 * fl64 (3 / 5)"
    using assms by (intro f64_add_mono f64_mult_mono) (auto dest: in_rangeD, code_simp+)
  also have "\<dots> \<le> fint 100" by code_simp
  finally show "in_range 0 (fint 100) (a * fl64 (2 / 5) + b * fl64 (3 / 5))"
    using assms by (intro in_rangeI f64_add_nonneg f64_mult_nonneg) (auto dest: in_rangeD, code_simp+)
  show "in_range 0 (fint 100) (min a b * fl64 (1 / 2))"
    using assms by (intro percent_mult unit_lit) (auto simp: min_def)
qed

text \<open>Claim C37: combining two validated scenarios raises exactly when their instruments differ, the M5
  scenario is younger than the M15 one, or the M5 scenario has expired at the M15 cutoff. The
  last case has its own branch, which calls the agreement inconclusive; it cannot be returned,
  since the combined scenario would expire before its cutoff.\<close>

theorem combine_succeeds_iff:
  assumes "forward_scenario_ok m5" and "forward_scenario_ok m15"
  shows "(\<exists>s. combine rt c m5 m15 = Inr s) \<longleftrightarrow> fm_instrument m5 = fm_instrument m15
    \<and> fm_market_cutoff_time m5 \<le> fm_market_cutoff_time m15 \<and> fm_market_cutoff_time m15 < fm_expiry m5"
proof -
  have conf: "in_range 0 (fint 100) (fm_confidence m5)" "in_range 0 (fint 100) (fm_confidence m15)"
    and live: "fm_market_cutoff_time m15 < fm_expiry m15" and geo: "opt_all geometry_ok (fm_geometry m5)" "opt_all geometry_ok (fm_geometry m15)"
    using assms by (simp_all add: forward_scenario_ok_def forward_fields_ok_def forward_coherent_def)
  have "in_range 0 (fint 100) (combined_confidence m5 m15)"
    using weighted_percent [OF conf] by (simp add: combined_confidence_def)
  then have "combined_scenario_ok (combined_values rt c m5 m15) \<longleftrightarrow> fm_market_cutoff_time m15 < fm_expiry m5"
    using geo live round_nd_percent
    by (auto simp: combined_scenario_ok_def combined_values_def combined_geometry_def Let_def compatible_def no_text_def
        split: if_splits)
  then show ?thesis by (auto simp: combine_def Let_def)
qed

text \<open>When an M5 pullback is combined with an M15 trend, the combined scenario takes its
  direction from M15 and its geometry from M5, which trades the opposite way: a bullish
  combination carries sell levels, a bearish one buy levels.\<close>

theorem combine_pullback_geometry:
  assumes "combine rt c m5 m15 = Inr s" and "cs_agreement s = Ag_Pullback_Compatible" and "cs_geometry s = Some g"
    and "forecast rt c st q sy ''M5'' calibrated = Inr m5"
  shows "(cs_combined_direction s = Sc_Bullish \<and> sell_ordered g) \<or> (cs_combined_direction s = Sc_Bearish \<and> buy_ordered g)"
proof -
  have s: "s = combined_values rt c m5 m15" and "agreement_of m5 m15 = Ag_Pullback_Compatible"
    using assms(1,2) by (auto simp: combine_def Let_def combined_values_def split: if_splits)
  then have "pullback_compatible m5 m15" "fm_geometry m5 = Some g" "cs_combined_direction s = fm_primary_direction m15"
    using assms(3) by (auto simp: agreement_of_def combined_values_def Let_def combined_geometry_def compatible_def split: if_splits)
  then show ?thesis using pullback_opposite [of m5 m15] forecast_order [OF assms(4)] by auto
qed

subsection \<open>A concrete cycle\<close>

text \<open>One market state with fresh M5 and M15 frames, an M5 forecast downward and an M15 forecast upward.\<close>

definition sample_horizon_prediction :: "string \<Rightarrow> f64 \<Rightarrow> f64 \<Rightarrow> f64 \<Rightarrow> horizon_prediction" where
  "sample_horizon_prediction tf buy sell move = sample_prediction\<lparr>
     hp_horizon := \<lparr>ho_horizon_id = tf, ho_timeframe = tf, ho_candle_count = 1, ho_duration_seconds = horizon_seconds tf\<rparr>,
     hp_buy_probability := buy, hp_sell_probability := sell, hp_expected_base_movement := move,
     hp_expected_minimum_movement := move, hp_expected_maximum_movement := move\<rparr>"

definition sample_forecast :: forecast_result where
  "sample_forecast = \<lparr>fq_schema_version = ''1.0'', fq_result_id = ''q'', fq_request_id = ''r'', fq_market_state_id = ''st'',
     fq_cycle_id = ''cy'', fq_instrument = ''XAUUSD'', fq_point_in_time = seconds_td 900, fq_status = Fc_Available,
     fq_mode = Shadow, fq_model_name = ''m'', fq_model_version = ''1'', fq_training_dataset_version = ''1'',
     fq_feature_schema_version = ''1'', fq_calibration_version = ''1'', fq_model_kind = ''k'',
     fq_calibration_status = Uncalibrated, fq_shadow_only = True, fq_approved_for_publication = False,
     fq_predictions = [sample_horizon_prediction ''M5'' (fl64 (1/8)) (fl64 (3/4)) (fint 4),
       sample_horizon_prediction ''M15'' (fl64 (3/4)) (fl64 (1/8)) (fint 20)],
     fq_reason_codes = [], fq_generated_at = seconds_td 901\<rparr>"

definition sample_contribution :: directional_contribution where
  "sample_contribution = \<lparr>co_evidence_id = ''e'', co_tool = ''smc'', co_timeframe = ''M5'', co_family = ''market_structure'',
     co_correlation_group = ''g'', co_directional_contribution = An_Buy, co_raw_value = JNull, co_normalized_score = 0,
     co_weight = 0, co_effective_weight = 0, co_weighted_score = 0, co_quality = 0, co_freshness = 0,
     co_correlated_discount = 0, co_reason = [], co_source_fact_identifiers = [''f1'']\<rparr>"

definition sample_signal :: "string \<Rightarrow> timeframe_signal" where
  "sample_signal tf = \<lparr>tg_signal_id = tf, tg_synthesis_id = ''sy'', tg_market_state_id = ''st'', tg_analysis_id = ''an'',
     tg_quantitative_forecast_id = ''q'', tg_instrument = ''XAUUSD'', tg_timeframe = tf, tg_analytical_direction = An_Buy,
     tg_confidence = fint 80, tg_strength = Strong, tg_bullish_score = 0, tg_bearish_score = 0, tg_expected_horizon = [],
     tg_evidence_breakdown = [sample_contribution],
     tg_confidence_decomposition = \<lparr>cd_score_separation = 0, cd_independent_confluence = 0, cd_evidence_quality = 0,
       cd_evidence_freshness = 0, cd_evidence_completeness = 0, cd_timeframe_alignment = 0, cd_quant_ai_alignment = 0,
       cd_contradiction_penalty = 0, cd_missing_evidence_penalty = 0, cd_regime_suitability_penalty = 0, cd_final_confidence = 0\<rparr>,
     tg_directional_thesis = ''trend'', tg_invalidation_conditions = [], tg_execution_eligibility = Xe_Ineligible,
     tg_execution_status = Xs_Blocked, tg_blocking_reasons = [''r''], tg_geometry = None, tg_completed_at = 0\<rparr>"

definition sample_timeframe_contribution :: "string \<Rightarrow> timeframe_contribution" where
  "sample_timeframe_contribution tf = \<lparr>tb_timeframe = tf, tb_direction = An_Buy, tb_confidence = 0,
     tb_structural_importance = 1, tb_evidence_quality = 0, tb_signed_contribution = 0, tb_explanation = []\<rparr>"

definition sample_synthesis :: signal_set where
  "sample_synthesis = \<lparr>sy_synthesis_id = ''sy'', sy_cycle_id = ''cy'', sy_market_state_id = ''st'', sy_analysis_id = ''an'',
     sy_quantitative_forecast_id = ''q'', sy_instrument = ''XAUUSD'', sy_market_timestamp = seconds_td 900,
     sy_timeframe_signals = [sample_signal ''M5'', sample_signal ''M15''], sy_combined_signal = sample_signal ''COMBINED'',
     sy_timeframe_contributions = [sample_timeframe_contribution ''M5'', sample_timeframe_contribution ''M15''],
     sy_engine_version = ''1'', sy_configuration_version = ''1'', sy_created_at = seconds_td 901\<rparr>"

lemma sample_cycle_ok:
  "market_state_ok sample_market_state" "forecast_result_ok sample_forecast" "signal_set_ok sample_synthesis"
  by code_simp+

lemma sample_inputs: "forecast_inputs sample_market_state sample_forecast sample_synthesis ''M5''
   = Inr (sample_horizon_prediction ''M5'' (fl64 (1/8)) (fl64 (3/4)) (fint 4), sample_signal ''M5'')"
  by code_simp

text \<open>The fields of a forecast, from its inputs.\<close>

lemma forecast_fields:
  assumes "forecast rt c st q sy tf calibrated = Inr x" "forecast_inputs st q sy tf = Inr (p, s)"
  shows "fm_primary_direction x = fst (direction_of_move c p)"
    "fm_confidence x = scenario_confidence s (snd (direction_of_move c p)) (um_evidence_completeness st)"
    "fm_expected_low x = max price_floor (range_low (hp_reference_price p) (hp_expected_maximum_movement p) (fst (direction_of_move c p)))"
    "fm_invalidation_level x = Some (invalidation_level (hp_reference_price p) (hp_expected_base_movement p) (fst (direction_of_move c p)))"
    "fm_instrument x = um_instrument st" "fm_market_cutoff_time x = um_market_data_boundary st"
    "fm_expiry x = um_market_data_boundary st + seconds_td (horizon_seconds tf)"
    "fm_geometry x = (case forecast_geometry c p s (fm_primary_direction x) (supporting_facts s (fm_primary_direction x))
       (fst (forecast_validity c (fm_primary_direction x) (hp_expected_base_movement p) (fm_confidence x) (um_evidence_completeness st)))
       of Inr r \<Rightarrow> fst (snd r) | Inl _ \<Rightarrow> None)"
proof -
  obtain z r where z: "ranges (hp_reference_price p) (hp_expected_base_movement p) (hp_expected_maximum_movement p) (fst (direction_of_move c p)) = Inr z"
    and r: "forecast_geometry c p s (fst (direction_of_move c p)) (supporting_facts s (fst (direction_of_move c p)))
      (fst (forecast_validity c (fst (direction_of_move c p)) (hp_expected_base_movement p)
        (scenario_confidence s (snd (direction_of_move c p)) (um_evidence_completeness st)) (um_evidence_completeness st))) = Inr r"
    and x: "x = scenario_values rt st q sy tf calibrated p s (direction_of_move c p) z
      (scenario_confidence s (snd (direction_of_move c p)) (um_evidence_completeness st))
      (forecast_validity c (fst (direction_of_move c p)) (hp_expected_base_movement p)
        (scenario_confidence s (snd (direction_of_move c p)) (um_evidence_completeness st)) (um_evidence_completeness st)) r"
    using assms unfolding forecast_def Let_def by (auto simp: bindE_eq_Inr make_scenario_def split: if_split_asm)
  show "fm_primary_direction x = fst (direction_of_move c p)"
    "fm_confidence x = scenario_confidence s (snd (direction_of_move c p)) (um_evidence_completeness st)"
    "fm_invalidation_level x = Some (invalidation_level (hp_reference_price p) (hp_expected_base_movement p) (fst (direction_of_move c p)))"
    "fm_instrument x = um_instrument st" "fm_market_cutoff_time x = um_market_data_boundary st"
    "fm_expiry x = um_market_data_boundary st + seconds_td (horizon_seconds tf)"
    by (simp_all add: x scenario_values_def Let_def)
  show "fm_expected_low x = max price_floor (range_low (hp_reference_price p) (hp_expected_maximum_movement p) (fst (direction_of_move c p)))"
    using z by (auto simp: x scenario_values_def Let_def ranges_def bindE_eq_Inr make_zone_def split: if_split_asm)
  show "fm_geometry x = (case forecast_geometry c p s (fm_primary_direction x) (supporting_facts s (fm_primary_direction x))
       (fst (forecast_validity c (fm_primary_direction x) (hp_expected_base_movement p) (fm_confidence x) (um_evidence_completeness st)))
       of Inr r \<Rightarrow> fst (snd r) | Inl _ \<Rightarrow> None)"
    using r by (simp add: x scenario_values_def Let_def)
qed

definition sample_rt :: runtime where
  "sample_rt = \<lparr>rt_uuid5 = (\<lambda>_ n. n), rt_sha256 = (\<lambda>_. replicate 64 (CHR ''0'')), rt_float_repr = (\<lambda>_. [])\<rparr>"

abbreviation sample_p5 :: horizon_prediction where
  "sample_p5 \<equiv> sample_horizon_prediction ''M5'' (fl64 (1/8)) (fl64 (3/4)) (fint 4)"

abbreviation sample_p15 :: horizon_prediction where
  "sample_p15 \<equiv> sample_horizon_prediction ''M15'' (fl64 (3/4)) (fl64 (1/8)) (fint 20)"

lemma sample_inputs_m15: "forecast_inputs sample_market_state sample_forecast sample_synthesis ''M15''
   = Inr (sample_p15, sample_signal ''M15'')"
  by code_simp

lemma sample_directions:
  "direction_of_move default_scenario_config sample_p5 = (Sc_Bearish, fl64 (3/4))"
  "direction_of_move default_scenario_config sample_p15 = (Sc_Bullish, fl64 (3/4))"
  by code_simp+

lemma sample_confidence:
  "um_evidence_completeness sample_market_state = 1"
  "scenario_confidence (sample_signal tf) (fl64 (3/4)) 1 = fl64 (329 / 4)"
  "forecast_validity default_scenario_config Sc_Bearish (fint 4) (fl64 (329 / 4)) 1 = (Sv_Valid, ''completed_point_in_time_evidence_validated'')"
  "forecast_validity default_scenario_config Sc_Bullish (fint 20) (fl64 (329 / 4)) 1 = (Sv_Valid, ''completed_point_in_time_evidence_validated'')"
  "hp_expected_base_movement sample_p5 = fint 4" "hp_expected_base_movement sample_p15 = fint 20"
  by (code_simp, code_simp, code_simp, code_simp, simp_all add: sample_horizon_prediction_def)

lemma sample_geometries:
  "case forecast_geometry default_scenario_config sample_p5 (sample_signal ''M5'') Sc_Bearish
     (supporting_facts (sample_signal ''M5'') Sc_Bearish) Sv_Valid of Inr (_, Some _, _) \<Rightarrow> True | _ \<Rightarrow> False"
  "case forecast_geometry default_scenario_config sample_p15 (sample_signal ''M15'') Sc_Bullish
     (supporting_facts (sample_signal ''M15'') Sc_Bullish) Sv_Valid of Inr (_, Some _, _) \<Rightarrow> True | _ \<Rightarrow> False"
  by code_simp+

lemma sample_runs:
  obtains m5 m15 where "forecast rt default_scenario_config sample_market_state sample_forecast sample_synthesis ''M5'' None = Inr m5"
    "forecast rt default_scenario_config sample_market_state sample_forecast sample_synthesis ''M15'' None = Inr m15"
    "forward_scenario_ok m5" "forward_scenario_ok m15"
proof -
  have "\<exists>r. forecast_geometry default_scenario_config sample_p5 (sample_signal ''M5'') Sc_Bearish
     (supporting_facts (sample_signal ''M5'') Sc_Bearish) Sv_Valid = Inr r"
    "\<exists>r. forecast_geometry default_scenario_config sample_p15 (sample_signal ''M15'') Sc_Bullish
     (supporting_facts (sample_signal ''M15'') Sc_Bullish) Sv_Valid = Inr r"
    using sample_geometries by (auto split: sum.splits)
  then obtain r5 r15 where
    r5: "forecast_geometry default_scenario_config sample_p5 (sample_signal ''M5'') Sc_Bearish
      (supporting_facts (sample_signal ''M5'') Sc_Bearish) Sv_Valid = Inr r5"
    and r15: "forecast_geometry default_scenario_config sample_p15 (sample_signal ''M15'') Sc_Bullish
      (supporting_facts (sample_signal ''M15'') Sc_Bullish) Sv_Valid = Inr r15" by blast
  have "\<exists>x. forecast rt default_scenario_config sample_market_state sample_forecast sample_synthesis ''M5'' None = Inr x
      \<and> forward_scenario_ok x"
    by (rule forecast_builds [OF sample_cycle_ok sample_inputs, where r = r5]) (simp_all add: sample_directions sample_confidence r5)
  moreover have "\<exists>x. forecast rt default_scenario_config sample_market_state sample_forecast sample_synthesis ''M15'' None = Inr x
      \<and> forward_scenario_ok x"
    by (rule forecast_builds [OF sample_cycle_ok sample_inputs_m15, where r = r15]) (simp_all add: sample_directions sample_confidence r15)
  ultimately show ?thesis using that by blast
qed

theorem forecast_total_witness:
  "\<exists>x. forecast sample_rt default_scenario_config sample_market_state sample_forecast sample_synthesis ''M5'' None = Inr x
     \<and> forward_scenario_ok x"
proof -
  obtain r5 where r5: "forecast_geometry default_scenario_config sample_p5 (sample_signal ''M5'') Sc_Bearish
      (supporting_facts (sample_signal ''M5'') Sc_Bearish) Sv_Valid = Inr r5"
    using sample_geometries(1) by (auto split: sum.splits)
  show ?thesis
    by (rule forecast_total [OF sample_cycle_ok sample_inputs, where r = r5]) (simp_all add: sample_directions sample_confidence r5)
qed

theorem forecast_sound_witness:
  "\<exists>x. forecast sample_rt default_scenario_config sample_market_state sample_forecast sample_synthesis ''M5'' None = Inr x
     \<and> fm_expiry x = fm_market_cutoff_time x + seconds_td (fm_forecast_horizon_seconds x)"
  by (rule sample_runs [of sample_rt]) (use forecast_sound in blast)

theorem combine_succeeds_iff_witness:
  "\<exists>m5 m15 s. combine sample_rt default_scenario_config m5 m15 = Inr s"
proof (rule sample_runs [of sample_rt])
  fix m5 m15
  assume m: "forecast sample_rt default_scenario_config sample_market_state sample_forecast sample_synthesis ''M5'' None = Inr m5"
    "forecast sample_rt default_scenario_config sample_market_state sample_forecast sample_synthesis ''M15'' None = Inr m15"
    "forward_scenario_ok m5" "forward_scenario_ok m15"
  have "fm_market_cutoff_time m15 < fm_expiry m5"
    using forecast_fields(6,7) [OF m(1) sample_inputs] forecast_fields(6) [OF m(2) sample_inputs_m15]
    by (simp add: horizon_seconds_def seconds_td_def)
  then show ?thesis
    using combine_succeeds_iff [OF m(3,4), of sample_rt default_scenario_config]
      forecast_fields(5,6) [OF m(1) sample_inputs] forecast_fields(5,6) [OF m(2) sample_inputs_m15] by auto
qed

theorem combine_pullback_geometry_witness:
  "\<exists>m5 m15 s g. combine sample_rt default_scenario_config m5 m15 = Inr s \<and> cs_geometry s = Some g
     \<and> cs_combined_direction s = Sc_Bullish \<and> sell_ordered g"
proof (rule sample_runs [of sample_rt])
  fix m5 m15
  assume m: "forecast sample_rt default_scenario_config sample_market_state sample_forecast sample_synthesis ''M5'' None = Inr m5"
    "forecast sample_rt default_scenario_config sample_market_state sample_forecast sample_synthesis ''M15'' None = Inr m15"
    "forward_scenario_ok m5" "forward_scenario_ok m15"
  note f5 = forecast_fields [OF m(1) sample_inputs] and f15 = forecast_fields [OF m(2) sample_inputs_m15]
  have d: "fm_primary_direction m5 = Sc_Bearish" "fm_primary_direction m15 = Sc_Bullish"
    "fm_confidence m5 = fl64 (329 / 4)" "fm_confidence m15 = fl64 (329 / 4)"
    using f5(1,2) f15(1,2) by (simp_all add: sample_directions sample_confidence)
  have "fm_geometry m5 \<noteq> None"
    using f5(8) sample_geometries(1) by (auto simp: d sample_confidence split: sum.splits option.splits)
  then obtain g where g: "fm_geometry m5 = Some g" by blast
  have "invalidation_level (hp_reference_price sample_p15) (hp_expected_base_movement sample_p15) Sc_Bullish
      \<le> max price_floor (range_low (hp_reference_price sample_p5) (hp_expected_maximum_movement sample_p5) Sc_Bearish)"
    by code_simp
  then have "pullback_compatible m5 m15"
    using f5(3) f15(4) by (simp add: pullback_compatible_def d sample_directions)
  moreover have exp: "fm_market_cutoff_time m15 < fm_expiry m5"
    using f5(6,7) f15(6) by (simp add: horizon_seconds_def seconds_td_def)
  ultimately have a: "agreement_of m5 m15 = Ag_Pullback_Compatible" by (simp add: agreement_of_def d)
  have "sf_minimum_scenario_confidence default_scenario_config \<le> fl64 (329 / 4) * fl64 (2 / 5) + fl64 (329 / 4) * fl64 (3 / 5)"
    by code_simp
  then have cg: "combined_geometry default_scenario_config m5 m15 = (Gv_Valid, Some g, None)"
    by (simp add: combined_geometry_def a g compatible_def combined_confidence_def d)
  have ok: "combined_scenario_ok (combined_values sample_rt default_scenario_config m5 m15)"
  proof -
    have "in_range 0 (fint 100) (round_nd 4 (fl64 (329 / 4) * fl64 (2 / 5) + fl64 (329 / 4) * fl64 (3 / 5)))" by code_simp
    then show ?thesis
      using m(3,4) exp by (simp add: combined_scenario_ok_def combined_values_def Let_def a cg combined_confidence_def d
          forward_scenario_ok_def forward_fields_ok_def forward_coherent_def g)
  qed
  then have s: "combine sample_rt default_scenario_config m5 m15 = Inr (combined_values sample_rt default_scenario_config m5 m15)"
    using f5(5,6) f15(5,6) by (simp add: combine_def Let_def)
  have "cs_agreement (combined_values sample_rt default_scenario_config m5 m15) = Ag_Pullback_Compatible"
    "cs_geometry (combined_values sample_rt default_scenario_config m5 m15) = Some g"
    "cs_combined_direction (combined_values sample_rt default_scenario_config m5 m15) = Sc_Bullish"
    by (simp_all add: combined_values_def Let_def a cg d compatible_def)
  then show ?thesis using combine_pullback_geometry [OF s _ _ m(1)] s by auto
qed

end
