(* ===== verification/Stage_Tracker.thy ===== *)
theory Stage_Tracker
  imports Prelude
begin

text \<open>
  \<open>PipelineStageTracker\<close> (\<open>integration/stage_tracker.py\<close>): the in-memory board of the eleven
  pipeline stages per symbol, timeframe and candle boundary. The two nested dicts are
  association lists in insertion order; the clock reading is an argument of each operation;
  what the interpreter supplies about an exception is the record \<open>py_exception\<close>.
\<close>

subsection \<open>Cycles\<close>

definition stage_keys :: "string list" where
  "stage_keys = [''candle_received'', ''candle_normalized'', ''stored_in_database'', ''smc_analysis'',
     ''liquidity_analysis'', ''volume_profile'', ''institutional_flow'', ''market_regime'', ''ai_scoring'',
     ''confidence_calculation'', ''scenario_decision'']"

definition stage_labels :: "(string \<times> string) list" where
  "stage_labels = [(''candle_received'', ''Candle received''), (''candle_normalized'', ''Candle normalized''),
     (''stored_in_database'', ''Stored in database''), (''liquidity_analysis'', ''Liquidity analysis''),
     (''smc_analysis'', ''SMC analysis''), (''volume_profile'', ''Volume profile''),
     (''market_regime'', ''Market regime''), (''institutional_flow'', ''Institutional flow''),
     (''ai_scoring'', ''AI scoring''), (''confidence_calculation'', ''Confidence calculation''),
     (''scenario_decision'', ''Scenario decision'')]"

record py_exception =
  px_class :: string
  px_message :: string
  px_formatted :: string
  px_frames :: "(string \<times> int \<times> string) list"

record error_detail =
  ed_exception_class :: string
  ed_message :: string
  ed_traceback :: string
  ed_file :: "string option"
  ed_line :: "int option"
  ed_function :: "string option"

definition last_frame :: "py_exception \<Rightarrow> (string \<times> int \<times> string) option" where
  "last_frame x = (if px_frames x = [] then None else Some (last (px_frames x)))"

definition format_exception :: "py_exception \<Rightarrow> error_detail" where
  "format_exception x = \<lparr>ed_exception_class = px_class x, ed_message = px_message x, ed_traceback = px_formatted x,
     ed_file = map_option fst (last_frame x), ed_line = map_option (fst \<circ> snd) (last_frame x),
     ed_function = map_option (snd \<circ> snd) (last_frame x)\<rparr>"

record cycle =
  cy_symbol :: string
  cy_timeframe :: string
  cy_boundary :: instant
  cy_started_at :: instant
  cy_updated_at :: instant
  cy_correlation_id :: "string option"
  cy_statuses :: "(string \<times> string) list"
  cy_stage_updated_at :: "(string \<times> instant) list"
  cy_errors :: "(string \<times> error_detail) list"
  cy_complete :: bool
  cy_attempt :: int

definition all_waiting :: "(string \<times> string) list" where
  "all_waiting = map (\<lambda>k. (k, ''waiting'')) stage_keys"

definition new_cycle :: "instant \<Rightarrow> string \<Rightarrow> string \<Rightarrow> instant \<Rightarrow> string option \<Rightarrow> cycle" where
  "new_cycle now symbol tf b corr = \<lparr>cy_symbol = symbol, cy_timeframe = tf, cy_boundary = b, cy_started_at = now,
     cy_updated_at = now, cy_correlation_id = corr, cy_statuses = all_waiting, cy_stage_updated_at = [],
     cy_errors = [], cy_complete = False, cy_attempt = 1\<rparr>"

definition retry_cycle :: "instant \<Rightarrow> string option \<Rightarrow> cycle \<Rightarrow> cycle" where
  "retry_cycle now corr c = c\<lparr>cy_statuses := all_waiting, cy_stage_updated_at := [], cy_errors := [],
     cy_complete := False, cy_started_at := now, cy_updated_at := now, cy_correlation_id := corr,
     cy_attempt := cy_attempt c + 1\<rparr>"

definition mark_stage :: "instant \<Rightarrow> string \<Rightarrow> cycle \<Rightarrow> string \<Rightarrow> cycle" where
  "mark_stage now st c k = c\<lparr>cy_statuses := AList.update k st (cy_statuses c),
     cy_stage_updated_at := AList.update k now (cy_stage_updated_at c), cy_errors := AList.delete k (cy_errors c)\<rparr>"

definition mark_cycle :: "instant \<Rightarrow> string list \<Rightarrow> string \<Rightarrow> cycle \<Rightarrow> cycle" where
  "mark_cycle now ks st c = foldl (mark_stage now st) (c\<lparr>cy_updated_at := now\<rparr>) ks"

definition is_waiting :: "cycle \<Rightarrow> string \<Rightarrow> bool" where
  "is_waiting c k \<longleftrightarrow> map_of (cy_statuses c) k = Some ''waiting''"

text \<open>The loop of \<open>fail_in_flight\<close>; the accumulator is the failed stage, once there is one.
  \<open>cycle.statuses[stage]\<close> never misses (\<open>cycle_ok\<close>).\<close>

primrec fail_stages :: "instant \<Rightarrow> string list \<Rightarrow> cycle \<Rightarrow> string option \<Rightarrow> cycle \<times> string option" where
  "fail_stages now [] c f = (c, f)"
| "fail_stages now (k # ks) c f =
     (if is_waiting c k then
        fail_stages now ks
          (c\<lparr>cy_statuses := AList.update k (if f = None then ''failed'' else ''skipped'') (cy_statuses c),
             cy_stage_updated_at := AList.update k now (cy_stage_updated_at c)\<rparr>)
          (case f of None \<Rightarrow> Some k | Some x \<Rightarrow> Some x)
      else fail_stages now ks c f)"

definition fail_cycle :: "instant \<Rightarrow> py_exception option \<Rightarrow> cycle \<Rightarrow> cycle" where
  "fail_cycle now exc c =
     (let (c', f) = fail_stages now stage_keys (c\<lparr>cy_updated_at := now, cy_complete := True\<rparr>) None
      in case (f, exc) of
           (Some k, Some x) \<Rightarrow> c'\<lparr>cy_errors := AList.update k (format_exception x) (cy_errors c')\<rparr>
         | _ \<Rightarrow> c')"

definition complete_cycle :: "instant \<Rightarrow> cycle \<Rightarrow> cycle" where
  "complete_cycle now c = c\<lparr>cy_complete := True, cy_updated_at := now\<rparr>"

subsection \<open>The board\<close>

type_synonym series = "(instant \<times> cycle) list"

record tracker =
  tk_max_cycles :: int
  tk_series :: "((string \<times> string) \<times> series) list"

definition new_tracker :: "int \<Rightarrow> tracker" where
  "new_tracker n = \<lparr>tk_max_cycles = n, tk_series = []\<rparr>"

definition series_of :: "tracker \<Rightarrow> string \<Rightarrow> string \<Rightarrow> series" where
  "series_of t symbol tf = (case map_of (tk_series t) (py_upper symbol, tf) of None \<Rightarrow> [] | Some s \<Rightarrow> s)"

definition oldest :: "series \<Rightarrow> instant" where
  "oldest s = Min (set (map fst s))"

definition newest :: "series \<Rightarrow> instant" where
  "newest s = Max (set (map fst s))"

text \<open>One new cycle in its series, with the eviction.\<close>

definition insert_cycle :: "int \<Rightarrow> cycle \<Rightarrow> series \<Rightarrow> series" where
  "insert_cycle m c s =
     (let s' = AList.update (cy_boundary c) c s
      in if m < int (length s') \<and> oldest s' \<noteq> cy_boundary c then AList.delete (oldest s') s' else s')"

definition begin_cycle :: "instant \<Rightarrow> string \<Rightarrow> string \<Rightarrow> instant \<Rightarrow> string option \<Rightarrow> tracker \<Rightarrow> tracker" where
  "begin_cycle now symbol tf b corr t =
     (let s = series_of t symbol tf;
          s' = (case map_of s b of
                  Some c \<Rightarrow> AList.update b (retry_cycle now corr c) s
                | None \<Rightarrow> insert_cycle (tk_max_cycles t) (new_cycle now (py_upper symbol) tf b corr) s)
      in t\<lparr>tk_series := AList.update (py_upper symbol, tf) s' (tk_series t)\<rparr>)"

definition lookup_cycle :: "tracker \<Rightarrow> string \<Rightarrow> string \<Rightarrow> instant \<Rightarrow> cycle option" where
  "lookup_cycle t symbol tf b = map_of (series_of t symbol tf) b"

text \<open>A cycle found by \<open>_lookup\<close> is changed in place.\<close>

definition alter_cycle :: "(cycle \<Rightarrow> cycle) \<Rightarrow> string \<Rightarrow> string \<Rightarrow> instant \<Rightarrow> tracker \<Rightarrow> tracker" where
  "alter_cycle f symbol tf b t = (case lookup_cycle t symbol tf b of
     None \<Rightarrow> t
   | Some c \<Rightarrow> t\<lparr>tk_series := AList.update (py_upper symbol, tf) (AList.update b (f c) (series_of t symbol tf)) (tk_series t)\<rparr>)"

definition mark :: "instant \<Rightarrow> string \<Rightarrow> string \<Rightarrow> instant \<Rightarrow> string list \<Rightarrow> string \<Rightarrow> tracker \<Rightarrow> tracker" where
  "mark now symbol tf b ks st = alter_cycle (mark_cycle now ks st) symbol tf b"

definition fail_in_flight :: "instant \<Rightarrow> string \<Rightarrow> string \<Rightarrow> instant \<Rightarrow> py_exception option \<Rightarrow> tracker \<Rightarrow> tracker" where
  "fail_in_flight now symbol tf b exc = alter_cycle (fail_cycle now exc) symbol tf b"

definition complete :: "instant \<Rightarrow> string \<Rightarrow> string \<Rightarrow> instant \<Rightarrow> tracker \<Rightarrow> tracker" where
  "complete now symbol tf b = alter_cycle (complete_cycle now) symbol tf b"

subsection \<open>Views\<close>

record stage_view =
  sw_key :: string
  sw_label :: "string option"
  sw_status :: "string option"
  sw_updated_at :: instant
  sw_error :: "error_detail option"

record cycle_view =
  cw_symbol :: string
  cw_timeframe :: string
  cw_candle_timestamp :: instant
  cw_started_at :: instant
  cw_updated_at :: instant
  cw_correlation_id :: "string option"
  cw_complete :: bool
  cw_attempt :: int
  cw_stages :: "stage_view list"

text \<open>The stage a running cycle is in: the first one still waiting.\<close>

definition running_stage :: "cycle \<Rightarrow> string option" where
  "running_stage c = (if cy_complete c then None
     else find (is_waiting c) stage_keys)"

definition shown_status :: "cycle \<Rightarrow> string \<Rightarrow> string option" where
  "shown_status c k = (if running_stage c = Some k then Some ''running'' else map_of (cy_statuses c) k)"

definition view_stage :: "cycle \<Rightarrow> string \<Rightarrow> stage_view" where
  "view_stage c k = \<lparr>sw_key = k, sw_label = map_of stage_labels k, sw_status = shown_status c k,
     sw_updated_at = (case map_of (cy_stage_updated_at c) k of Some x \<Rightarrow> x | None \<Rightarrow> cy_started_at c),
     sw_error = map_of (cy_errors c) k\<rparr>"

definition view_cycle :: "cycle \<Rightarrow> cycle_view" where
  "view_cycle c = \<lparr>cw_symbol = cy_symbol c, cw_timeframe = cy_timeframe c, cw_candle_timestamp = cy_boundary c,
     cw_started_at = cy_started_at c, cw_updated_at = cy_updated_at c, cw_correlation_id = cy_correlation_id c,
     cw_complete = cy_complete c, cw_attempt = cy_attempt c, cw_stages = map (view_stage c) stage_keys\<rparr>"

definition latest_cycle :: "tracker \<Rightarrow> string \<Rightarrow> string \<Rightarrow> cycle option" where
  "latest_cycle t symbol tf = (let s = series_of t symbol tf in if s = [] then None else map_of s (newest s))"

definition latest :: "tracker \<Rightarrow> string \<Rightarrow> string \<Rightarrow> cycle_view option" where
  "latest t symbol tf = map_option view_cycle (latest_cycle t symbol tf)"

definition recent :: "tracker \<Rightarrow> string \<Rightarrow> string \<Rightarrow> nat \<Rightarrow> cycle_view list" where
  "recent t symbol tf n = map view_cycle (take n (sort_desc cy_boundary (map snd (series_of t symbol tf))))"

definition stage_attempt :: "tracker \<Rightarrow> string \<Rightarrow> string \<Rightarrow> string \<Rightarrow> stage_view option" where
  "stage_attempt t symbol tf k = Option.bind (latest t symbol tf) (\<lambda>v. find (\<lambda>x. sw_key x = k) (cw_stages v))"

definition known_series :: "tracker \<Rightarrow> (string \<times> string) list" where
  "known_series t = map fst (tk_series t)"

subsection \<open>The invariant\<close>

definition cycle_ok :: "cycle \<Rightarrow> bool" where
  "cycle_ok c \<longleftrightarrow> (\<forall>k \<in> set stage_keys. map_of (cy_statuses c) k \<noteq> None)"

definition series_ok :: "string \<times> string \<Rightarrow> series \<Rightarrow> bool" where
  "series_ok key s \<longleftrightarrow> distinct (map fst s)
     \<and> (\<forall>b c. map_of s b = Some c \<longrightarrow> cy_boundary c = b \<and> (cy_symbol c, cy_timeframe c) = key \<and> cycle_ok c)"

definition tracker_ok :: "tracker \<Rightarrow> bool" where
  "tracker_ok t \<longleftrightarrow> distinct (map fst (tk_series t)) \<and> (\<forall>key s. map_of (tk_series t) key = Some s \<longrightarrow> series_ok key s)"

inductive tracker_step :: "tracker \<Rightarrow> tracker \<Rightarrow> bool" where
  step_begin: "tracker_step t (begin_cycle now symbol tf b corr t)"
| step_mark: "tracker_step t (mark now symbol tf b ks st t)"
| step_fail: "tracker_step t (fail_in_flight now symbol tf b exc t)"
| step_complete: "tracker_step t (complete now symbol tf b t)"

inductive tracker_reachable :: "tracker \<Rightarrow> bool" where
  reach_start: "tracker_reachable (new_tracker n)"
| reach_next: "tracker_reachable t \<Longrightarrow> tracker_step t t' \<Longrightarrow> tracker_reachable t'"

inductive_cases tracker_stepE: "tracker_step t t'"

text \<open>What every change of a cycle keeps: its identity and its stages.\<close>

definition keeps_identity :: "(cycle \<Rightarrow> cycle) \<Rightarrow> bool" where
  "keeps_identity f \<longleftrightarrow> (\<forall>c. cy_boundary (f c) = cy_boundary c \<and> cy_symbol (f c) = cy_symbol c
     \<and> cy_timeframe (f c) = cy_timeframe c \<and> (cycle_ok c \<longrightarrow> cycle_ok (f c)))"

lemma all_waiting_lookup: "k \<in> set stage_keys \<Longrightarrow> map_of all_waiting k = Some ''waiting''"
  by (simp add: all_waiting_def map_of_map_restrict restrict_map_def)

lemma retry_keeps: "keeps_identity (retry_cycle now corr)"
  by (simp add: keeps_identity_def retry_cycle_def cycle_ok_def all_waiting_lookup)

lemma complete_keeps: "keeps_identity (complete_cycle now)"
  by (simp add: keeps_identity_def complete_cycle_def cycle_ok_def)

lemma mark_keeps: "keeps_identity (mark_cycle now ks st)"
proof -
  have "cy_boundary (foldl (mark_stage now st) c ks) = cy_boundary c \<and> cy_symbol (foldl (mark_stage now st) c ks) = cy_symbol c
      \<and> cy_timeframe (foldl (mark_stage now st) c ks) = cy_timeframe c
      \<and> (cycle_ok c \<longrightarrow> cycle_ok (foldl (mark_stage now st) c ks))" for c
    by (induction ks arbitrary: c) (auto simp: mark_stage_def cycle_ok_def update_conv')
  from this [of "c\<lparr>cy_updated_at := now\<rparr>" for c] show ?thesis
    by (simp add: keeps_identity_def mark_cycle_def cycle_ok_def)
qed

text \<open>The loop of \<open>fail_in_flight\<close>, read off its result.\<close>

lemma fail_stages_frame:
  "cy_boundary (fst (fail_stages now ks c f)) = cy_boundary c \<and> cy_symbol (fst (fail_stages now ks c f)) = cy_symbol c
   \<and> cy_timeframe (fst (fail_stages now ks c f)) = cy_timeframe c \<and> cy_complete (fst (fail_stages now ks c f)) = cy_complete c
   \<and> cy_errors (fst (fail_stages now ks c f)) = cy_errors c"
  by (induction ks arbitrary: c f) simp_all

lemma fail_stages_result:
  assumes "distinct ks"
  shows "snd (fail_stages now ks c f) = (case f of Some x \<Rightarrow> Some x | None \<Rightarrow> find (is_waiting c) ks)
    \<and> (\<forall>k. map_of (cy_statuses (fst (fail_stages now ks c f))) k =
         (if k \<in> set ks \<and> is_waiting c k then
            Some (if f = None \<and> find (is_waiting c) ks = Some k then ''failed'' else ''skipped'')
          else map_of (cy_statuses c) k))"
  using assms
proof (induction ks arbitrary: c f)
  case (Cons k ks)
  show ?case
  proof (cases "is_waiting c k")
    case True
    let ?c = "c\<lparr>cy_statuses := AList.update k (if f = None then ''failed'' else ''skipped'') (cy_statuses c),
             cy_stage_updated_at := AList.update k now (cy_stage_updated_at c)\<rparr>"
    have w: "is_waiting ?c x = is_waiting c x" if "x \<in> set ks" for x
      using that Cons.prems by (auto simp: is_waiting_def update_conv')
    then have "find (is_waiting ?c) ks = find (is_waiting c) ks" by (intro find_cong) auto
    then show ?thesis
      using Cons.IH [of ?c "case f of None \<Rightarrow> Some k | Some x \<Rightarrow> Some x"] Cons.prems True w
      by (auto simp: update_conv' split: option.split)
  next
    case False
    then show ?thesis
      using Cons.IH [of c f] Cons.prems by (auto split: option.split)
  qed
qed (simp split: option.split)

lemma distinct_stage_keys: "distinct stage_keys"
  by (simp add: stage_keys_def)

lemma fail_cycle_frame:
  "cy_boundary (fail_cycle now exc c) = cy_boundary c" "cy_symbol (fail_cycle now exc c) = cy_symbol c"
  "cy_timeframe (fail_cycle now exc c) = cy_timeframe c" "cy_complete (fail_cycle now exc c)"
  using fail_stages_frame [of now stage_keys "c\<lparr>cy_updated_at := now, cy_complete := True\<rparr>" None]
  by (simp_all add: fail_cycle_def split_beta split: option.split)

lemma is_waiting_frame [simp]:
  "is_waiting (c\<lparr>cy_updated_at := now, cy_complete := x\<rparr>) = is_waiting c"
  by (simp add: fun_eq_iff is_waiting_def)

lemma fail_cycle_status:
  "map_of (cy_statuses (fail_cycle now exc c)) k =
     (if k \<in> set stage_keys \<and> is_waiting c k then
        Some (if find (is_waiting c) stage_keys = Some k then ''failed'' else ''skipped'')
      else map_of (cy_statuses c) k)"
  using fail_stages_result [OF distinct_stage_keys, of now "c\<lparr>cy_updated_at := now, cy_complete := True\<rparr>" None]
  by (simp add: fail_cycle_def split_beta split: option.split)

lemma fail_keeps: "keeps_identity (fail_cycle now exc)"
  by (simp add: keeps_identity_def fail_cycle_frame cycle_ok_def fail_cycle_status)

lemmas cycle_changes = retry_keeps complete_keeps mark_keeps fail_keeps

lemma series_okI:
  "distinct (map fst s) \<Longrightarrow> (\<And>b c. map_of s b = Some c \<Longrightarrow> cy_boundary c = b \<and> (cy_symbol c, cy_timeframe c) = key \<and> cycle_ok c)
   \<Longrightarrow> series_ok key s"
  by (simp add: series_ok_def)

lemma series_okD:
  "series_ok key s \<Longrightarrow> distinct (map fst s)"
  "series_ok key s \<Longrightarrow> map_of s b = Some c \<Longrightarrow> cy_boundary c = b \<and> (cy_symbol c, cy_timeframe c) = key \<and> cycle_ok c"
  by (simp_all add: series_ok_def)

lemma series_ok_update:
  assumes "series_ok key s" "cy_boundary c = b" "(cy_symbol c, cy_timeframe c) = key" "cycle_ok c"
  shows "series_ok key (AList.update b c s)"
proof (rule series_okI)
  show "distinct (map fst (AList.update b c s))" using series_okD(1) [OF assms(1)] by (rule distinct_update)
qed (use assms series_okD(2) [OF assms(1)] in \<open>auto simp: update_conv' split: if_splits\<close>)

lemma series_ok_delete:
  assumes "series_ok key s"
  shows "series_ok key (AList.delete b s)"
proof (rule series_okI)
  show "distinct (map fst (AList.delete b s))" using series_okD(1) [OF assms(1)] by (rule distinct_delete)
qed (use series_okD(2) [OF assms(1)] in \<open>auto simp: delete_conv' split: if_splits\<close>)

lemma series_ok_alter:
  assumes "series_ok key s" "map_of s b = Some c" "keeps_identity f"
  shows "series_ok key (AList.update b (f c) s)"
  using series_okD(2) [OF assms(1,2)] assms(3)
  by (intro series_ok_update [OF assms(1)]) (auto simp: keeps_identity_def)

lemma series_ok_insert:
  "series_ok key s \<Longrightarrow> (cy_symbol c, cy_timeframe c) = key \<Longrightarrow> cycle_ok c \<Longrightarrow> series_ok key (insert_cycle m c s)"
  by (simp add: insert_cycle_def Let_def series_ok_update series_ok_delete)

lemma series_of_ok: "tracker_ok t \<Longrightarrow> series_ok (py_upper symbol, tf) (series_of t symbol tf)"
  by (auto simp: tracker_ok_def series_of_def series_ok_def split: option.split)

lemma tracker_ok_update:
  "tracker_ok t \<Longrightarrow> series_ok key s \<Longrightarrow> tracker_ok (t\<lparr>tk_series := AList.update key s (tk_series t)\<rparr>)"
  by (auto simp: tracker_ok_def update_conv' distinct_update)

lemma alter_ok:
  assumes "tracker_ok t" "keeps_identity f"
  shows "tracker_ok (alter_cycle f symbol tf b t)"
proof (cases "map_of (series_of t symbol tf) b")
  case (Some c)
  then show ?thesis
    using tracker_ok_update [OF assms(1) series_ok_alter [OF series_of_ok [OF assms(1)] Some assms(2)]]
    by (simp add: alter_cycle_def lookup_cycle_def)
qed (simp add: alter_cycle_def lookup_cycle_def assms)

lemma new_cycle_ok: "cycle_ok (new_cycle now symbol tf b corr)"
  by (simp add: cycle_ok_def new_cycle_def all_waiting_lookup)

lemma begin_ok:
  assumes "tracker_ok t"
  shows "tracker_ok (begin_cycle now symbol tf b corr t)"
proof (cases "map_of (series_of t symbol tf) b")
  case None
  then show ?thesis
    using tracker_ok_update [OF assms series_ok_insert [OF series_of_ok [OF assms] _ new_cycle_ok]]
    by (simp add: begin_cycle_def Let_def new_cycle_def)
next
  case (Some c)
  then show ?thesis
    using tracker_ok_update [OF assms series_ok_alter [OF series_of_ok [OF assms] Some retry_keeps]]
    by (simp add: begin_cycle_def Let_def)
qed

lemma tracker_step_ok: "tracker_step t t' \<Longrightarrow> tracker_ok t \<Longrightarrow> tracker_ok t'"
  by (erule tracker_stepE) (auto simp: mark_def fail_in_flight_def complete_def begin_ok alter_ok cycle_changes)

lemma tracker_reachable_ok: "tracker_reachable t \<Longrightarrow> tracker_ok t"
proof (induction rule: tracker_reachable.induct)
  case (reach_start n)
  show ?case by (simp add: tracker_ok_def new_tracker_def)
qed (rule tracker_step_ok)

text \<open>What an operation does to the series it names, and to the others.\<close>

lemma series_of_update:
  "series_of (t\<lparr>tk_series := AList.update (py_upper symbol, tf) s (tk_series t)\<rparr>) symbol' tf'
     = (if (py_upper symbol', tf') = (py_upper symbol, tf) then s else series_of t symbol' tf')"
  by (auto simp: series_of_def update_conv')

lemma series_of_begin:
  "series_of (begin_cycle now symbol tf b corr t) symbol tf = (case map_of (series_of t symbol tf) b of
     Some c \<Rightarrow> AList.update b (retry_cycle now corr c) (series_of t symbol tf)
   | None \<Rightarrow> insert_cycle (tk_max_cycles t) (new_cycle now (py_upper symbol) tf b corr) (series_of t symbol tf))"
  by (simp add: begin_cycle_def Let_def series_of_update)

lemma lookup_alter:
  "lookup_cycle (alter_cycle f symbol tf b t) symbol tf b = map_option f (lookup_cycle t symbol tf b)"
  by (simp add: alter_cycle_def lookup_cycle_def series_of_update update_conv' split: option.split)

lemma oldest_le: "map_of s b = Some c \<Longrightarrow> oldest s \<le> b"
  unfolding oldest_def by (intro Min_le) (auto dest: map_of_SomeD intro: rev_image_eqI)

lemma newest_ge: "map_of s b = Some c \<Longrightarrow> b \<le> newest s"
  unfolding newest_def by (intro Max_ge) (auto dest: map_of_SomeD intro: rev_image_eqI)

text \<open>In every reachable state of the board each symbol, timeframe and boundary has at most
  one cycle, filed under its own (upper-cased) symbol, timeframe and boundary, and each cycle
  knows the status of all eleven stages: the lookups of \<open>fail_in_flight\<close> and of the views never
  miss.\<close>

theorem tracker_invariant:
  assumes "tracker_reachable t"
  shows "distinct (known_series t)
    \<and> (\<forall>symbol tf. distinct (map fst (series_of t symbol tf))
      \<and> (\<forall>b c. lookup_cycle t symbol tf b = Some c \<longrightarrow> cy_boundary c = b \<and> cy_symbol c = py_upper symbol \<and> cy_timeframe c = tf
          \<and> (\<forall>k \<in> set stage_keys. shown_status c k \<noteq> None)))"
  using tracker_reachable_ok [OF assms] series_of_ok [OF tracker_reachable_ok [OF assms]]
  by (auto simp: tracker_ok_def known_series_def series_ok_def lookup_cycle_def cycle_ok_def shown_status_def)

text \<open>\<open>fail_in_flight\<close> closes a cycle: the first stage still waiting becomes failed and
  carries the details of the exception, every later waiting stage becomes skipped, stages
  already reached keep their status, and no stage is waiting or shown as running afterwards.\<close>

theorem fail_in_flight_closes:
  assumes "lookup_cycle t symbol tf b = Some c"
  shows "\<exists>c'. lookup_cycle (fail_in_flight now symbol tf b exc t) symbol tf b = Some c' \<and> cy_complete c'
    \<and> running_stage c' = None
    \<and> (\<forall>k \<in> set stage_keys. \<not> is_waiting c' k
          \<and> (\<not> is_waiting c k \<longrightarrow> shown_status c' k = map_of (cy_statuses c) k)
          \<and> (is_waiting c k \<longrightarrow> shown_status c' k
               = Some (if find (is_waiting c) stage_keys = Some k then ''failed'' else ''skipped'')))
    \<and> (\<forall>k x. find (is_waiting c) stage_keys = Some k \<and> exc = Some x \<longrightarrow> map_of (cy_errors c') k = Some (format_exception x))"
proof (intro exI conjI)
  let ?c = "fail_cycle now exc c"
  show "lookup_cycle (fail_in_flight now symbol tf b exc t) symbol tf b = Some ?c"
    by (simp add: fail_in_flight_def lookup_alter assms)
  show fin: "cy_complete ?c" by (rule fail_cycle_frame)
  then show run: "running_stage ?c = None" by (simp add: running_stage_def)
  show "\<forall>k \<in> set stage_keys. \<not> is_waiting ?c k \<and> (\<not> is_waiting c k \<longrightarrow> shown_status ?c k = map_of (cy_statuses c) k)
      \<and> (is_waiting c k \<longrightarrow> shown_status ?c k
           = Some (if find (is_waiting c) stage_keys = Some k then ''failed'' else ''skipped''))"
    by (auto simp: shown_status_def run fail_cycle_status is_waiting_def [of ?c])
      (auto simp: is_waiting_def)
  show "\<forall>k x. find (is_waiting c) stage_keys = Some k \<and> exc = Some x \<longrightarrow> map_of (cy_errors ?c) k = Some (format_exception x)"
    using fail_stages_result [OF distinct_stage_keys, of now "c\<lparr>cy_updated_at := now, cy_complete := True\<rparr>" None]
    by (auto simp: fail_cycle_def split_beta update_conv')
qed

text \<open>The stage shown as running is the first one still waiting: every stage before it has
  been reached, and only an unfinished cycle shows one.\<close>

theorem running_is_first_waiting:
  "running_stage c = Some k \<longleftrightarrow> \<not> cy_complete c
    \<and> (\<exists>xs ys. stage_keys = xs @ k # ys \<and> is_waiting c k \<and> (\<forall>x \<in> set xs. \<not> is_waiting c x))"
proof -
  have "find (is_waiting c) ks = Some k \<longleftrightarrow> (\<exists>xs ys. ks = xs @ k # ys \<and> is_waiting c k \<and> (\<forall>x \<in> set xs. \<not> is_waiting c x))" for ks
  proof
    assume "find (is_waiting c) ks = Some k"
    then show "\<exists>xs ys. ks = xs @ k # ys \<and> is_waiting c k \<and> (\<forall>x \<in> set xs. \<not> is_waiting c x)"
    proof (induction ks)
      case (Cons x ks)
      show ?case
      proof (cases "is_waiting c x")
        case True
        then show ?thesis using Cons.prems by (intro exI [of _ "[]"] exI [of _ ks]) simp
      next
        case False
        then obtain xs ys where "ks = xs @ k # ys" "is_waiting c k" "\<forall>x \<in> set xs. \<not> is_waiting c x"
          using Cons by auto
        then show ?thesis using False by (intro exI [of _ "x # xs"] exI [of _ ys]) simp
      qed
    qed simp
  next
    assume "\<exists>xs ys. ks = xs @ k # ys \<and> is_waiting c k \<and> (\<forall>x \<in> set xs. \<not> is_waiting c x)"
    then obtain xs ys where "ks = xs @ k # ys" "is_waiting c k" "\<forall>x \<in> set xs. \<not> is_waiting c x" by blast
    then show "find (is_waiting c) ks = Some k" by (induction xs arbitrary: ks) simp_all
  qed
  then show ?thesis by (simp add: running_stage_def)
qed

lemma insert_keeps_newest:
  assumes "map_of s n = Some e" "cy_boundary c < n"
  shows "map_of (insert_cycle m c s) n = Some e"
proof -
  let ?s = "AList.update (cy_boundary c) c s"
  have "oldest ?s \<le> cy_boundary c" by (rule oldest_le) (simp add: update_conv')
  then show ?thesis using assms by (auto simp: insert_cycle_def Let_def delete_conv' update_conv')
qed

lemma insert_lookup_new: "map_of (insert_cycle m c s) (cy_boundary c) = Some c"
  by (simp add: insert_cycle_def Let_def delete_conv' update_conv')

lemma insert_lookup_old:
  "map_of (insert_cycle m c s) b = Some e \<Longrightarrow> b = cy_boundary c \<or> map_of s b = Some e"
  by (auto simp: insert_cycle_def Let_def delete_conv' update_conv' split: if_splits)

lemma newest_eqI:
  assumes "map_of s n = Some e" "\<And>b c. map_of s b = Some c \<Longrightarrow> b \<le> n"
  shows "newest s = n"
proof -
  have keys: "b \<in> set (map fst s) \<longleftrightarrow> (\<exists>c. map_of s b = Some c)" for b
    using map_of_eq_None_iff [of s b] by auto
  show ?thesis unfolding newest_def
    using assms keys by (intro Max_eqI) auto
qed

lemma latest_iff:
  "latest_cycle t symbol tf = Some e \<longleftrightarrow> map_of (series_of t symbol tf) (newest (series_of t symbol tf)) = Some e"
  by (auto simp: latest_cycle_def Let_def)

lemma latest_cycleI:
  assumes "map_of (series_of t symbol tf) n = Some e" "\<And>b c. map_of (series_of t symbol tf) b = Some c \<Longrightarrow> b \<le> n"
  shows "latest_cycle t symbol tf = Some e"
  using assms newest_eqI [OF assms] by (simp add: latest_iff)

text \<open>A candle that arrives late never shadows a newer one. Beginning a cycle at an older
  boundary leaves the latest view as it was; beginning one at the newest boundary makes it the
  latest, with every stage waiting again.\<close>

theorem latest_by_boundary:
  assumes "tracker_reachable t" and "latest_cycle t symbol tf = Some e"
  shows "(b < cy_boundary e \<longrightarrow> latest (begin_cycle now symbol tf b corr t) symbol tf = latest t symbol tf)
    \<and> (cy_boundary e \<le> b \<longrightarrow> (\<exists>c. latest_cycle (begin_cycle now symbol tf b corr t) symbol tf = Some c
         \<and> cy_boundary c = b \<and> running_stage c = Some ''candle_received''))"
proof -
  let ?s = "series_of t symbol tf" and ?t = "begin_cycle now symbol tf b corr t"
  note ok = series_of_ok [OF tracker_reachable_ok [OF assms(1)], of symbol tf]
  have e: "map_of ?s (cy_boundary e) = Some e" and newest: "map_of ?s x = Some c \<Longrightarrow> x \<le> cy_boundary e" for x c
    using assms(2) series_okD(2) [OF ok, of "newest ?s" e] newest_ge [of ?s x c] by (auto simp: latest_iff)
  have bound: "map_of (series_of ?t symbol tf) x = Some c \<Longrightarrow> x = b \<or> x \<le> cy_boundary e" for x c
    using newest by (auto simp: series_of_begin update_conv' new_cycle_def dest: insert_lookup_old split: option.splits if_splits)
  have "latest_cycle ?t symbol tf = Some e" if "b < cy_boundary e"
  proof (rule latest_cycleI)
    show "map_of (series_of ?t symbol tf) (cy_boundary e) = Some e"
      using that e by (auto simp: series_of_begin update_conv' new_cycle_def intro!: insert_keeps_newest split: option.split)
  qed (use bound that in force)
  moreover have "\<exists>c. latest_cycle ?t symbol tf = Some c \<and> cy_boundary c = b \<and> running_stage c = Some ''candle_received''"
    if "cy_boundary e \<le> b"
  proof -
    obtain c where c: "map_of (series_of ?t symbol tf) b = Some c" "cy_boundary c = b" "cy_statuses c = all_waiting" "\<not> cy_complete c"
      using series_okD(2) [OF ok, of b] insert_lookup_new [of "tk_max_cycles t" "new_cycle now (py_upper symbol) tf b corr" ?s]
      by (cases "map_of ?s b") (auto simp: series_of_begin update_conv' new_cycle_def retry_cycle_def)
    have "latest_cycle ?t symbol tf = Some c"
      by (rule latest_cycleI [OF c(1)]) (use bound that in force)
    moreover have "running_stage c = Some ''candle_received''"
      using c by (simp add: running_stage_def stage_keys_def is_waiting_def all_waiting_def)
    ultimately show ?thesis using c by blast
  qed
  ultimately show ?thesis using assms(2) by (auto simp: latest_def)
qed

lemma length_update_new: "map_of s k = None \<Longrightarrow> length (AList.update k v s) = Suc (length s)"
  by (induction s) (auto split: if_splits)

lemma length_update_old: "map_of s k \<noteq> None \<Longrightarrow> length (AList.update k v s) = length s"
  by (induction s) (auto split: if_splits)

lemma length_delete_less: "map_of s k \<noteq> None \<Longrightarrow> length (AList.delete k s) < length s"
  by (induction s) (auto simp: AList.delete_eq intro: le_imp_less_Suc split: if_splits)

lemma oldest_stored:
  assumes "s \<noteq> []"
  shows "map_of s (oldest s) \<noteq> None"
proof -
  have "oldest s \<in> set (map fst s)" unfolding oldest_def using assms by (intro Min_in) auto
  then show ?thesis by (simp add: map_of_eq_None_iff)
qed

text \<open>As long as candles do not arrive before all the ones held, a series holds at most
  \<open>max_cycles_per_series\<close> cycles: a new cycle evicts the oldest one.\<close>

theorem series_bounded:
  assumes "1 \<le> tk_max_cycles t" and "int (length (series_of t symbol tf)) \<le> tk_max_cycles t"
    and "series_of t symbol tf \<noteq> [] \<Longrightarrow> oldest (series_of t symbol tf) \<le> b"
  shows "int (length (series_of (begin_cycle now symbol tf b corr t) symbol tf)) \<le> tk_max_cycles t"
proof (cases "map_of (series_of t symbol tf) b")
  case (Some c)
  then show ?thesis using assms(2) by (simp add: series_of_begin length_update_old)
next
  case None
  let ?s = "series_of t symbol tf" and ?c = "new_cycle now (py_upper symbol) tf b corr"
  let ?u = "AList.update b ?c ?s"
  have len: "length ?u = Suc (length ?s)" using None by (rule length_update_new)
  show ?thesis
  proof (cases "?s = []")
    case True
    then show ?thesis using None assms(1) by (simp add: series_of_begin insert_cycle_def new_cycle_def)
  next
    case False
    obtain e where "map_of ?s (oldest ?s) = Some e" "oldest ?s < b"
      using oldest_stored [OF False] assms(3) [OF False] None by (cases "oldest ?s = b") auto
    then have "oldest ?u \<le> oldest ?s" by (intro oldest_le) (simp add: update_conv')
    then have "oldest ?u \<noteq> b" using \<open>oldest ?s < b\<close> by simp
    moreover have "length (AList.delete (oldest ?u) ?u) < length ?u"
      using oldest_stored [of ?u] len by (intro length_delete_less) auto
    ultimately show ?thesis
      using None assms(2) len by (auto simp: series_of_begin insert_cycle_def new_cycle_def Let_def)
  qed
qed

text \<open>That is not a bound on the board. When candles arrive newest first, each new cycle is
  itself the oldest one, nothing is evicted, and the series grows with every candle whatever
  \<open>max_cycles_per_series\<close> is.\<close>

theorem series_grows_backwards:
  assumes "sorted_wrt (>) bs"
  shows "length (series_of (foldl (\<lambda>t b. begin_cycle b symbol tf b None t) (new_tracker m) bs) symbol tf) = length bs"
proof -
  let ?f = "\<lambda>t b. begin_cycle b symbol tf b None t"
  have "length (series_of (foldl ?f (new_tracker m) bs) symbol tf) = length bs
    \<and> set (map fst (series_of (foldl ?f (new_tracker m) bs) symbol tf)) = set bs"
    using assms
  proof (induction bs rule: rev_induct)
    case (snoc b bs)
    let ?s = "series_of (foldl ?f (new_tracker m) bs) symbol tf" and ?c = "new_cycle b (py_upper symbol) tf b None"
    have s: "length ?s = length bs" "set (map fst ?s) = set bs" and lt: "\<forall>x \<in> set bs. b < x"
      using snoc by (simp_all add: sorted_wrt_append)
    then have None: "map_of ?s b = None" by (auto simp: map_of_eq_None_iff)
    have keys: "set (map fst (AList.update b ?c ?s)) = insert b (set bs)"
      using s(2) by (auto simp: update_keys)
    then have "oldest (AList.update b ?c ?s) = b"
      unfolding oldest_def keys using lt by (intro Min_eqI) (auto simp: less_imp_le)
    then have "series_of (foldl ?f (new_tracker m) (bs @ [b])) symbol tf = AList.update b ?c ?s"
      using None by (simp add: series_of_begin insert_cycle_def new_cycle_def Let_def)
    then show ?case using keys s(1) length_update_new [OF None] by simp
  qed (simp add: series_of_def new_tracker_def)
  then show ?thesis by simp
qed

subsection \<open>What the operations do to the board\<close>

lemma insert_lookup_other:
  assumes "b \<noteq> cy_boundary c" "map_of s (cy_boundary c) = None"
  shows "map_of (insert_cycle m c s) b = (if m < int (length s) + 1 \<and> b = oldest s \<and> b < cy_boundary c then None else map_of s b)"
proof (cases "s = []")
  case True
  then show ?thesis using assms(1) by (simp add: insert_cycle_def Let_def)
next
  case False
  let ?u = "AList.update (cy_boundary c) c s"
  have keys: "set (map fst ?u) = insert (cy_boundary c) (set (map fst s))" by (simp add: dom_update)
  have fin: "finite (set (map fst s))" "set (map fst s) \<noteq> {}" using False by simp_all
  have old: "oldest ?u = min (cy_boundary c) (oldest s)" unfolding oldest_def keys using Min_insert [OF fin, of "cy_boundary c"] by simp
  have ne: "oldest s \<noteq> cy_boundary c" using oldest_stored [OF False] assms(2) by auto
  have len: "length ?u = Suc (length s)" using length_update_new [OF assms(2)] .
  show ?thesis using assms(1) ne unfolding insert_cycle_def Let_def len old
    by (auto simp: delete_conv' update_conv' min_def)
qed

lemma series_of_begin_other:
  "(py_upper symbol', tf') \<noteq> (py_upper symbol, tf) \<Longrightarrow> series_of (begin_cycle now symbol tf b corr t) symbol' tf' = series_of t symbol' tf'"
  by (auto simp: begin_cycle_def Let_def series_of_update)

lemma series_of_alter_other:
  "(py_upper symbol', tf') \<noteq> (py_upper symbol, tf) \<Longrightarrow> series_of (alter_cycle f symbol tf b t) symbol' tf' = series_of t symbol' tf'"
  by (auto simp: alter_cycle_def series_of_update split: option.split)

lemma lookup_alter_other: "x \<noteq> b \<Longrightarrow> lookup_cycle (alter_cycle f symbol tf b t) symbol tf x = lookup_cycle t symbol tf x"
  by (simp add: alter_cycle_def lookup_cycle_def series_of_update update_conv' split: option.split)

text \<open>Beginning a cycle, in full.\<close>

lemma begin_effect:
  assumes "tracker_reachable t"
  shows "(\<exists>c. lookup_cycle (begin_cycle now symbol tf b corr t) symbol tf b = Some c
        \<and> cy_boundary c = b \<and> cy_symbol c = py_upper symbol \<and> cy_timeframe c = tf \<and> cy_correlation_id c = corr
        \<and> cy_started_at c = now \<and> \<not> cy_complete c \<and> cy_errors c = [] \<and> cy_stage_updated_at c = []
        \<and> list_all (\<lambda>k. map_of (cy_statuses c) k = Some ''waiting'') stage_keys \<and> running_stage c = Some ''candle_received''
        \<and> cy_attempt c = (case lookup_cycle t symbol tf b of None \<Rightarrow> 1 | Some e \<Rightarrow> cy_attempt e + 1))
    \<and> (\<forall>x. x \<noteq> b \<longrightarrow> lookup_cycle (begin_cycle now symbol tf b corr t) symbol tf x =
        (if lookup_cycle t symbol tf b = None \<and> tk_max_cycles t \<le> int (length (series_of t symbol tf))
            \<and> x = oldest (series_of t symbol tf) \<and> x < b
         then None else lookup_cycle t symbol tf x))
    \<and> (\<forall>symbol' tf'. (py_upper symbol', tf') \<noteq> (py_upper symbol, tf)
        \<longrightarrow> series_of (begin_cycle now symbol tf b corr t) symbol' tf' = series_of t symbol' tf')"
proof (intro conjI)
  let ?s = "series_of t symbol tf" and ?t = "begin_cycle now symbol tf b corr t" and ?n = "new_cycle now (py_upper symbol) tf b corr"
  note ok = series_of_ok [OF tracker_reachable_ok [OF assms], of symbol tf]
  have n: "cy_boundary ?n = b" by (simp add: new_cycle_def)
  have waiting: "list_all (\<lambda>k. map_of all_waiting k = Some ''waiting'') stage_keys" by (simp add: list_all_iff all_waiting_lookup)
  have first: "running_stage c = Some ''candle_received''" if "cy_statuses c = all_waiting" "\<not> cy_complete c" for c
    using that by (simp add: running_stage_def stage_keys_def is_waiting_def all_waiting_def)
  show "\<exists>c. lookup_cycle ?t symbol tf b = Some c
        \<and> cy_boundary c = b \<and> cy_symbol c = py_upper symbol \<and> cy_timeframe c = tf \<and> cy_correlation_id c = corr
        \<and> cy_started_at c = now \<and> \<not> cy_complete c \<and> cy_errors c = [] \<and> cy_stage_updated_at c = []
        \<and> list_all (\<lambda>k. map_of (cy_statuses c) k = Some ''waiting'') stage_keys \<and> running_stage c = Some ''candle_received''
        \<and> cy_attempt c = (case lookup_cycle t symbol tf b of None \<Rightarrow> 1 | Some e \<Rightarrow> cy_attempt e + 1)"
  proof (cases "map_of ?s b")
    case None
    then have "lookup_cycle ?t symbol tf b = Some ?n" using insert_lookup_new [of "tk_max_cycles t" ?n ?s] n
      by (simp add: lookup_cycle_def series_of_begin)
    then show ?thesis using None waiting first [of ?n] by (simp add: lookup_cycle_def new_cycle_def)
  next
    case (Some e)
    then have "lookup_cycle ?t symbol tf b = Some (retry_cycle now corr e)" by (simp add: lookup_cycle_def series_of_begin update_conv')
    then show ?thesis using Some waiting first [of "retry_cycle now corr e"] series_okD(2) [OF ok Some]
      by (simp add: lookup_cycle_def retry_cycle_def)
  qed
  show "\<forall>x. x \<noteq> b \<longrightarrow> lookup_cycle ?t symbol tf x = (if lookup_cycle t symbol tf b = None
      \<and> tk_max_cycles t \<le> int (length ?s) \<and> x = oldest ?s \<and> x < b then None else lookup_cycle t symbol tf x)"
  proof (cases "map_of ?s b")
    case None
    then show ?thesis using insert_lookup_other [of _ ?n ?s "tk_max_cycles t"] n
      by (auto simp: lookup_cycle_def series_of_begin zle_add1_eq_le)
  next
    case (Some e)
    then show ?thesis by (simp add: lookup_cycle_def series_of_begin update_conv')
  qed
  show "\<forall>symbol' tf'. (py_upper symbol', tf') \<noteq> (py_upper symbol, tf) \<longrightarrow> series_of ?t symbol' tf' = series_of t symbol' tf'"
    using series_of_begin_other by blast
qed

lemma fail_in_flight_effect:
  assumes "lookup_cycle t symbol tf b = Some c"
  shows "\<exists>c'. lookup_cycle (fail_in_flight now symbol tf b exc t) symbol tf b = Some c' \<and> cy_complete c'
    \<and> (\<forall>k \<in> set stage_keys. shown_status c' k = (if is_waiting c k
          then Some (if find (is_waiting c) stage_keys = Some k then ''failed'' else ''skipped'') else map_of (cy_statuses c) k))
    \<and> (\<forall>k x. find (is_waiting c) stage_keys = Some k \<and> exc = Some x \<longrightarrow> map_of (cy_errors c') k = Some (format_exception x))"
proof -
  obtain c' where "lookup_cycle (fail_in_flight now symbol tf b exc t) symbol tf b = Some c'" "cy_complete c'"
    "\<forall>k \<in> set stage_keys. \<not> is_waiting c' k \<and> (\<not> is_waiting c k \<longrightarrow> shown_status c' k = map_of (cy_statuses c) k)
      \<and> (is_waiting c k \<longrightarrow> shown_status c' k = Some (if find (is_waiting c) stage_keys = Some k then ''failed'' else ''skipped''))"
    "\<forall>k x. find (is_waiting c) stage_keys = Some k \<and> exc = Some x \<longrightarrow> map_of (cy_errors c') k = Some (format_exception x)"
    using fail_in_flight_closes [OF assms, of now exc] by blast
  then show ?thesis by auto
qed

text \<open>Claim C40: what the operations do to the board, in full. Beginning a cycle makes the cycle of the candle afresh: every
  stage waits, the first one shows as running, no error is kept, and it is not complete; a first attempt has number one and
  a retry one more than the attempt before. Every other cycle of the series is untouched, with one exception: when the
  candle is new and the series is full, the oldest cycle is dropped, unless the new candle is older still. Other series are
  untouched. Failing a cycle that is on the board completes it: the first stage still waiting is failed and carries the
  exception, the later waiting ones are skipped, and a stage already reached keeps its status; no other cycle changes.\<close>

theorem board_effects:
  assumes "tracker_reachable t"
  shows "(\<exists>c. lookup_cycle (begin_cycle now symbol tf b corr t) symbol tf b = Some c
        \<and> cy_boundary c = b \<and> cy_symbol c = py_upper symbol \<and> cy_timeframe c = tf \<and> cy_correlation_id c = corr
        \<and> cy_started_at c = now \<and> \<not> cy_complete c \<and> cy_errors c = [] \<and> cy_stage_updated_at c = []
        \<and> list_all (\<lambda>k. map_of (cy_statuses c) k = Some ''waiting'') stage_keys \<and> running_stage c = Some ''candle_received''
        \<and> cy_attempt c = (case lookup_cycle t symbol tf b of None \<Rightarrow> 1 | Some e \<Rightarrow> cy_attempt e + 1))
    \<and> (\<forall>x. x \<noteq> b \<longrightarrow> lookup_cycle (begin_cycle now symbol tf b corr t) symbol tf x =
        (if lookup_cycle t symbol tf b = None \<and> tk_max_cycles t \<le> int (length (series_of t symbol tf))
            \<and> x = oldest (series_of t symbol tf) \<and> x < b
         then None else lookup_cycle t symbol tf x))
    \<and> (\<forall>symbol' tf'. (py_upper symbol', tf') \<noteq> (py_upper symbol, tf)
        \<longrightarrow> series_of (begin_cycle now symbol tf b corr t) symbol' tf' = series_of t symbol' tf')
    \<and> (\<forall>c. lookup_cycle t symbol tf b = Some c \<longrightarrow>
        (\<exists>c'. lookup_cycle (fail_in_flight now symbol tf b exc t) symbol tf b = Some c' \<and> cy_complete c'
          \<and> (\<forall>k \<in> set stage_keys. shown_status c' k = (if is_waiting c k
              then Some (if find (is_waiting c) stage_keys = Some k then ''failed'' else ''skipped'') else map_of (cy_statuses c) k))
          \<and> (\<forall>k x. find (is_waiting c) stage_keys = Some k \<and> exc = Some x \<longrightarrow> map_of (cy_errors c') k = Some (format_exception x))))
    \<and> (\<forall>x. x \<noteq> b \<longrightarrow> lookup_cycle (fail_in_flight now symbol tf b exc t) symbol tf x = lookup_cycle t symbol tf x)
    \<and> (\<forall>symbol' tf'. (py_upper symbol', tf') \<noteq> (py_upper symbol, tf)
        \<longrightarrow> series_of (fail_in_flight now symbol tf b exc t) symbol' tf' = series_of t symbol' tf')"
proof -
  have "\<forall>c. lookup_cycle t symbol tf b = Some c \<longrightarrow>
        (\<exists>c'. lookup_cycle (fail_in_flight now symbol tf b exc t) symbol tf b = Some c' \<and> cy_complete c'
          \<and> (\<forall>k \<in> set stage_keys. shown_status c' k = (if is_waiting c k
              then Some (if find (is_waiting c) stage_keys = Some k then ''failed'' else ''skipped'') else map_of (cy_statuses c) k))
          \<and> (\<forall>k x. find (is_waiting c) stage_keys = Some k \<and> exc = Some x \<longrightarrow> map_of (cy_errors c') k = Some (format_exception x)))"
    by (intro allI impI) (rule fail_in_flight_effect)
  moreover have "\<forall>x. x \<noteq> b \<longrightarrow> lookup_cycle (fail_in_flight now symbol tf b exc t) symbol tf x = lookup_cycle t symbol tf x"
    by (simp add: fail_in_flight_def lookup_alter_other)
  moreover have "\<forall>symbol' tf'. (py_upper symbol', tf') \<noteq> (py_upper symbol, tf)
        \<longrightarrow> series_of (fail_in_flight now symbol tf b exc t) symbol' tf' = series_of t symbol' tf'"
    unfolding fail_in_flight_def using series_of_alter_other by blast
  ultimately show ?thesis using begin_effect [OF assms, of now symbol tf b corr] by (intro conjI) (elim conjE, assumption)+
qed

subsection \<open>A concrete board\<close>

text \<open>One candle whose first three stages were reached.\<close>

definition sample_tracker :: tracker where
  "sample_tracker = mark 1 ''xauusd'' ''M15'' 900 [''candle_received'', ''candle_normalized'', ''stored_in_database''] ''success''
     (begin_cycle 0 ''XAUUSD'' ''M15'' 900 None (new_tracker 5))"

lemma sample_tracker_reachable: "tracker_reachable sample_tracker"
  unfolding sample_tracker_def by (rule reach_next [OF reach_next [OF reach_start step_begin] step_mark])

lemma sample_lookup:
  obtains c where "lookup_cycle sample_tracker ''XAUUSD'' ''M15'' 900 = Some c" "running_stage c = Some ''smc_analysis''"
    "latest_cycle sample_tracker ''XAUUSD'' ''M15'' = Some c" "cy_boundary c = 900"
proof -
  have "lookup_cycle sample_tracker ''XAUUSD'' ''M15'' 900 \<noteq> None
      \<and> running_stage (the (lookup_cycle sample_tracker ''XAUUSD'' ''M15'' 900)) = Some ''smc_analysis''
      \<and> latest_cycle sample_tracker ''XAUUSD'' ''M15'' = lookup_cycle sample_tracker ''XAUUSD'' ''M15'' 900
      \<and> cy_boundary (the (lookup_cycle sample_tracker ''XAUUSD'' ''M15'' 900)) = 900"
    by code_simp
  then show ?thesis using that by auto
qed

theorem tracker_invariant_witness:
  "distinct (known_series sample_tracker) \<and> known_series sample_tracker = [(''XAUUSD'', ''M15'')]"
proof -
  have "known_series sample_tracker = [(''XAUUSD'', ''M15'')]" by code_simp
  then show ?thesis using tracker_invariant [OF sample_tracker_reachable] by blast
qed

text \<open>With room for one cycle the candle of 900 gives way to a newer one and stays beside an older one.\<close>

theorem board_effects_witness:
  "lookup_cycle (begin_cycle 5 ''XAUUSD'' ''M15'' 1800 None sample_tracker) ''XAUUSD'' ''M15'' 900
     = lookup_cycle sample_tracker ''XAUUSD'' ''M15'' 900
   \<and> lookup_cycle (begin_cycle 5 ''XAUUSD'' ''M15'' 1800 None (begin_cycle 0 ''xauusd'' ''M15'' 900 None (new_tracker 1))) ''XAUUSD'' ''M15'' 900 = None"
proof -
  have small: "tracker_reachable (begin_cycle 0 ''xauusd'' ''M15'' 900 None (new_tracker 1))" by (rule reach_next [OF reach_start step_begin])
  have facts: "tk_max_cycles (begin_cycle 0 ''xauusd'' ''M15'' 900 None (new_tracker 1)) = 1
      \<and> length (series_of (begin_cycle 0 ''xauusd'' ''M15'' 900 None (new_tracker 1)) ''XAUUSD'' ''M15'') = 1
      \<and> oldest (series_of (begin_cycle 0 ''xauusd'' ''M15'' 900 None (new_tracker 1)) ''XAUUSD'' ''M15'') = 900
      \<and> lookup_cycle (begin_cycle 0 ''xauusd'' ''M15'' 900 None (new_tracker 1)) ''XAUUSD'' ''M15'' 1800 = None
      \<and> tk_max_cycles sample_tracker = 5 \<and> length (series_of sample_tracker ''XAUUSD'' ''M15'') = 1" by code_simp
  then show ?thesis
    using board_effects [OF sample_tracker_reachable, of 5 "''XAUUSD''" "''M15''" 1800 None]
      board_effects [OF small, of 5 "''XAUUSD''" "''M15''" 1800 None] facts by simp
qed

theorem fail_in_flight_closes_witness:
  "\<exists>c. lookup_cycle (fail_in_flight 2 ''XAUUSD'' ''M15'' 900 None sample_tracker) ''XAUUSD'' ''M15'' 900 = Some c
    \<and> shown_status c ''smc_analysis'' = Some ''failed'' \<and> running_stage c = None"
proof (rule sample_lookup)
  fix c
  assume c: "lookup_cycle sample_tracker ''XAUUSD'' ''M15'' 900 = Some c" "running_stage c = Some ''smc_analysis''"
  then have f: "find (is_waiting c) stage_keys = Some ''smc_analysis''" by (simp add: running_stage_def split: if_splits)
  have "''smc_analysis'' \<in> set stage_keys" by (simp add: stage_keys_def)
  moreover have "is_waiting c ''smc_analysis''" using f by (auto simp: find_Some_iff)
  ultimately show ?thesis using fail_in_flight_closes [OF c(1), of 2 None] f by fastforce
qed

theorem running_is_first_waiting_witness:
  "\<exists>xs ys. stage_keys = xs @ ''candle_received'' # ys \<and> running_stage (new_cycle 0 ''XAUUSD'' ''M15'' 900 None) = Some ''candle_received''"
proof -
  have "running_stage (new_cycle 0 ''XAUUSD'' ''M15'' 900 None) = Some ''candle_received''" by code_simp
  then show ?thesis using running_is_first_waiting [of "new_cycle 0 ''XAUUSD'' ''M15'' 900 None"] by blast
qed

theorem latest_by_boundary_witness:
  "latest (begin_cycle 5 ''XAUUSD'' ''M15'' 600 None sample_tracker) ''XAUUSD'' ''M15'' = latest sample_tracker ''XAUUSD'' ''M15''"
  by (rule sample_lookup) (use latest_by_boundary [OF sample_tracker_reachable] in force)

theorem series_bounded_witness:
  "length (series_of (begin_cycle 1 ''XAUUSD'' ''M15'' 900 None (begin_cycle 0 ''XAUUSD'' ''M15'' 600 None (new_tracker 1))) ''XAUUSD'' ''M15'') \<le> 1"
proof -
  let ?t = "begin_cycle 0 ''XAUUSD'' ''M15'' 600 None (new_tracker 1)"
  have "1 \<le> tk_max_cycles ?t \<and> int (length (series_of ?t ''XAUUSD'' ''M15'')) \<le> tk_max_cycles ?t
      \<and> oldest (series_of ?t ''XAUUSD'' ''M15'') \<le> 900 \<and> tk_max_cycles ?t = 1"
    by code_simp
  then show ?thesis using series_bounded [of ?t "''XAUUSD''" "''M15''" 900 1 None] by simp
qed

theorem series_grows_backwards_witness:
  "length (series_of (foldl (\<lambda>t b. begin_cycle b ''XAUUSD'' ''M15'' b None t) (new_tracker 1) [2700, 1800, 900]) ''XAUUSD'' ''M15'') = 3"
  using series_grows_backwards [of "[2700, 1800, 900]" "''XAUUSD''" "''M15''" 1] by simp

end
