(* ===== verification/Circuit_Breaker.thy ===== *)
theory Circuit_Breaker
  imports Prelude
begin

text \<open>
  The circuit breaker of the public calendar sources
  (\<open>economic_calendar_engine/public_sources/circuit_breaker.py\<close>): the back-off state of one source,
  the registry with one state per source, and the bounded log of parser failures. Every method
  that reads the clock takes the reading \<open>now\<close>.
\<close>

subsection \<open>One source\<close>

datatype failure_category = Timeout | Network_Error | Http_Error | Blocked_Access | Parser_Mismatch
  | Empty_Schedule | Invalid_Timezone | Layout_Changed

definition category_value :: "failure_category \<Rightarrow> string" where
  "category_value c = (case c of Timeout \<Rightarrow> ''timeout'' | Network_Error \<Rightarrow> ''network_error'' | Http_Error \<Rightarrow> ''http_error''
     | Blocked_Access \<Rightarrow> ''blocked_automated_access'' | Parser_Mismatch \<Rightarrow> ''parser_mismatch''
     | Empty_Schedule \<Rightarrow> ''empty_valid_schedule'' | Invalid_Timezone \<Rightarrow> ''invalid_timezone''
     | Layout_Changed \<Rightarrow> ''source_layout_changed'')"

definition structural_failures :: "failure_category list" where
  "structural_failures = [Parser_Mismatch, Layout_Changed, Blocked_Access, Invalid_Timezone]"

definition base_backoff :: timedelta where "base_backoff = seconds_td (5 * 60)"
definition structural_backoff_floor :: timedelta where "structural_backoff_floor = seconds_td (6 * 3600)"
definition max_backoff :: timedelta where "max_backoff = seconds_td (24 * 3600)"

record breaker =
  br_consecutive_failures :: int
  br_last_failure_at :: "instant option"
  br_last_failure_category :: "failure_category option"
  br_last_success_at :: "instant option"
  br_open_until :: "instant option"

definition new_breaker :: breaker where
  "new_breaker = \<lparr>br_consecutive_failures = 0, br_last_failure_at = None, br_last_failure_category = None,
     br_last_success_at = None, br_open_until = None\<rparr>"

definition breaker_success :: "instant \<Rightarrow> breaker \<Rightarrow> breaker" where
  "breaker_success now b = b\<lparr>br_consecutive_failures := 0, br_last_failure_category := None,
     br_last_success_at := Some now, br_open_until := None\<rparr>"

definition failure_floor :: "failure_category \<Rightarrow> timedelta" where
  "failure_floor c = (if c \<in> set structural_failures then structural_backoff_floor else base_backoff)"

definition backoff :: "failure_category \<Rightarrow> int \<Rightarrow> timedelta" where
  "backoff c n = min (failure_floor c * 2 ^ nat (min (n - 1) 6)) max_backoff"

definition breaker_failure :: "instant \<Rightarrow> failure_category \<Rightarrow> breaker \<Rightarrow> breaker" where
  "breaker_failure now c b =
     (let n = br_consecutive_failures b + 1
      in b\<lparr>br_consecutive_failures := n, br_last_failure_at := Some now, br_last_failure_category := Some c,
           br_open_until := Some (now + backoff c n)\<rparr>)"

definition breaker_allows :: "instant \<Rightarrow> breaker \<Rightarrow> bool" where
  "breaker_allows now b = (case br_open_until b of None \<Rightarrow> True | Some t \<Rightarrow> t \<le> now)"

subsection \<open>The registry\<close>

text \<open>\<open>get\<close> is \<open>setdefault\<close>: looking a source up creates its state.\<close>

type_synonym breakers = "(string \<times> breaker) list"

definition get_breaker :: "breakers \<Rightarrow> string \<Rightarrow> breakers \<times> breaker" where
  "get_breaker r k = (case map_of r k of Some b \<Rightarrow> (r, b) | None \<Rightarrow> (AList.update k new_breaker r, new_breaker))"

definition should_attempt :: "instant \<Rightarrow> string \<Rightarrow> breakers \<Rightarrow> breakers \<times> bool" where
  "should_attempt now k r = (let (r', b) = get_breaker r k in (r', breaker_allows now b))"

definition record_success :: "instant \<Rightarrow> string \<Rightarrow> breakers \<Rightarrow> breakers" where
  "record_success now k r = (let (r', b) = get_breaker r k in AList.update k (breaker_success now b) r')"

definition record_failure :: "instant \<Rightarrow> string \<Rightarrow> failure_category \<Rightarrow> breakers \<Rightarrow> breakers" where
  "record_failure now k c r = (let (r', b) = get_breaker r k in AList.update k (breaker_failure now c b) r')"

datatype source_event = Attempted instant string | Succeeded instant string | Source_Failed instant string failure_category

fun event_source :: "source_event \<Rightarrow> string" where
  "event_source (Attempted now k) = k"
| "event_source (Succeeded now k) = k"
| "event_source (Source_Failed now k c) = k"

fun apply_event :: "breakers \<Rightarrow> source_event \<Rightarrow> breakers" where
  "apply_event r (Attempted now k) = fst (should_attempt now k r)"
| "apply_event r (Succeeded now k) = record_success now k r"
| "apply_event r (Source_Failed now k c) = record_failure now k c r"

subsection \<open>The log of parser failures\<close>

record parser_failure =
  pf_source :: string
  pf_category :: string
  pf_message :: string
  pf_at :: instant

text \<open>\<open>entries[-n:]\<close>; for \<open>n = 0\<close> that is the whole list.\<close>

definition keep_last :: "int \<Rightarrow> 'a list \<Rightarrow> 'a list" where
  "keep_last n xs = (if n = 0 then xs else if 0 < n then drop (length xs - nat n) xs else drop (nat (- n)) xs)"

definition failure_entry :: "string \<Rightarrow> failure_category \<Rightarrow> string \<Rightarrow> instant \<Rightarrow> parser_failure" where
  "failure_entry k c msg now = \<lparr>pf_source = k, pf_category = category_value c, pf_message = take 500 msg, pf_at = now\<rparr>"

definition log_failure :: "int \<Rightarrow> parser_failure list \<Rightarrow> string \<Rightarrow> failure_category \<Rightarrow> string \<Rightarrow> instant \<Rightarrow> parser_failure list" where
  "log_failure n es k c msg now =
     (let es' = es @ [failure_entry k c msg now] in if n < int (length es') then keep_last n es' else es')"

definition failures_for :: "parser_failure list \<Rightarrow> string \<Rightarrow> parser_failure list" where
  "failures_for es k = filter (\<lambda>e. pf_source e = k) es"

subsection \<open>Back-off\<close>

lemma td_constants: "base_backoff = 300000000" "structural_backoff_floor = 21600000000" "max_backoff = 86400000000"
  by (simp_all add: base_backoff_def structural_backoff_floor_def max_backoff_def seconds_td_def)

lemma floor_bounds: "base_backoff \<le> failure_floor c" "failure_floor c \<le> max_backoff" "0 < failure_floor c"
  by (simp_all add: failure_floor_def td_constants)

lemma backoff_bounds: "failure_floor c \<le> backoff c n" "backoff c n \<le> max_backoff"
proof -
  have "failure_floor c * 1 \<le> failure_floor c * 2 ^ nat (min (n - 1) 6)"
    using floor_bounds(3) [of c] by (intro mult_left_mono) simp_all
  then show "failure_floor c \<le> backoff c n" using floor_bounds(2) [of c] by (simp add: backoff_def)
qed (simp add: backoff_def)

lemma backoff_mono:
  assumes "m \<le> n"
  shows "backoff c m \<le> backoff c n"
proof -
  from assms have "failure_floor c * 2 ^ nat (min (m - 1) 6) \<le> failure_floor c * 2 ^ nat (min (n - 1) 6)"
    using floor_bounds(3) [of c] by (intro mult_left_mono power_increasing) auto
  then show ?thesis by (simp add: backoff_def)
qed

text \<open>The state of a source depends on its own events only.\<close>

fun apply_breaker :: "breaker \<Rightarrow> source_event \<Rightarrow> breaker" where
  "apply_breaker b (Attempted now k) = b"
| "apply_breaker b (Succeeded now k) = breaker_success now b"
| "apply_breaker b (Source_Failed now k c) = breaker_failure now c b"

definition state_for :: "breakers \<Rightarrow> string \<Rightarrow> breaker" where
  "state_for r k = (case map_of r k of Some b \<Rightarrow> b | None \<Rightarrow> new_breaker)"

lemma state_for_apply:
  "state_for (apply_event r e) k = (if event_source e = k then apply_breaker (state_for r k) e else state_for r k)"
  by (cases e) (auto simp: state_for_def should_attempt_def record_success_def record_failure_def get_breaker_def
      update_conv' split: option.split)

lemma state_for_events:
  "state_for (foldl apply_event r es) k = foldl apply_breaker (state_for r k) (filter (\<lambda>e. event_source e = k) es)"
  by (induction es arbitrary: r) (simp_all add: state_for_apply)

text \<open>A failing source never throttles another. After any sequence of attempts, successes and
  failures, whether a source may be attempted is decided by its own events alone, in their order.\<close>

theorem breaker_isolation:
  "snd (should_attempt now k (foldl apply_event [] es))
     = breaker_allows now (foldl apply_breaker new_breaker (filter (\<lambda>e. event_source e = k) es))"
proof -
  have "snd (should_attempt now k r) = breaker_allows now (state_for r k)" for r
    by (simp add: should_attempt_def get_breaker_def state_for_def split: option.split)
  then show ?thesis by (simp add: state_for_events) (simp add: state_for_def)
qed

text \<open>After a failure at \<open>now\<close> the source is left alone for at least the floor of the
  failure's category (five minutes, six hours for a structural failure) and is attempted again
  after 24 hours at the latest, however often it failed before; a success clears the back-off
  at once.\<close>

theorem backoff_window:
  "\<not> breaker_allows (now + failure_floor c - 1) (breaker_failure now c b)
   \<and> breaker_allows (now + max_backoff) (breaker_failure now c b)
   \<and> seconds_td 300 \<le> failure_floor c
   \<and> (c \<in> {Parser_Mismatch, Layout_Changed, Blocked_Access, Invalid_Timezone} \<longrightarrow> failure_floor c = seconds_td (6 * 3600))
   \<and> breaker_allows t (breaker_success now b)"
  using backoff_bounds [of c "br_consecutive_failures b + 1"] floor_bounds(1) [of c]
  by (auto simp: breaker_allows_def breaker_failure_def breaker_success_def Let_def base_backoff_def failure_floor_def
      structural_failures_def structural_backoff_floor_def)

theorem backoff_window_witness:
  "failure_floor Parser_Mismatch = seconds_td 21600 \<and> \<not> breaker_allows (100 + seconds_td 21600 - 1) (breaker_failure 100 Parser_Mismatch new_breaker)"
proof -
  note w = backoff_window [of 100 Parser_Mismatch new_breaker 0]
  then have "failure_floor Parser_Mismatch = seconds_td 21600" by simp
  with w show ?thesis by metis
qed

text \<open>The back-off doubles with each consecutive failure of a category up to the seventh, and
  is cut at 24 hours: the last of \<open>n\<close> failures in a row after a success closes the source for
  \<open>floor * 2 ^ min (n - 1) 6\<close>. A transient failure so never waits longer than 320 minutes, a
  structural one reaches the 24 hours at the third failure.\<close>

theorem backoff_doubles:
  assumes "b = foldl (\<lambda>b t. breaker_failure t c b) (breaker_success t0 b0) ts" and "ts \<noteq> []"
  shows "br_open_until b = Some (last ts + min (failure_floor c * 2 ^ min (length ts - 1) 6) max_backoff)
    \<and> (c \<notin> set structural_failures \<longrightarrow> br_open_until b = Some (last ts + seconds_td (300 * 2 ^ min (length ts - 1) 6))
          \<and> seconds_td (300 * 2 ^ min (length ts - 1) 6) \<le> seconds_td (320 * 60))
    \<and> (c \<in> set structural_failures \<and> 3 \<le> length ts \<longrightarrow> br_open_until b = Some (last ts + max_backoff))"
proof -
  have count: "br_consecutive_failures (foldl (\<lambda>b t. breaker_failure t c b) (breaker_success t0 b0) us) = int (length us)" for us
    by (induction us rule: rev_induct) (simp_all add: breaker_success_def breaker_failure_def Let_def)
  obtain us t where ts: "ts = us @ [t]" using assms(2) by (cases ts rule: rev_cases) auto
  let ?k = "min (length us) 6"
  have b: "br_open_until b = Some (t + backoff c (int (length us) + 1))"
    using assms(1) count [of us] by (simp add: ts breaker_failure_def Let_def)
  have "nat (min (int (length us)) 6) = ?k" by linarith
  then have main: "br_open_until b = Some (t + min (failure_floor c * 2 ^ ?k) max_backoff)"
    using b by (simp add: backoff_def)
  have "(2 :: int) ^ ?k \<le> 2 ^ 6" by (intro power_increasing) auto
  then have up: "(2 :: int) ^ ?k \<le> 64" by simp
  have "(2 :: int) ^ 2 \<le> 2 ^ ?k" if "2 \<le> length us" using that by (intro power_increasing) auto
  then have down: "(4 :: int) \<le> 2 ^ ?k" if "2 \<le> length us" using that by simp
  show ?thesis
    using main up down by (auto simp: ts failure_floor_def td_constants seconds_td_def)
qed

theorem backoff_doubles_witness:
  "br_open_until (foldl (\<lambda>b t. breaker_failure t Timeout b) (breaker_success 0 new_breaker) [0, 1, 2]) = Some (2 + seconds_td 1200)"
  using backoff_doubles [OF refl, of "[0, 1, 2]" Timeout 0 new_breaker]
  by (auto simp: structural_failures_def)

text \<open>While the limit is positive the log holds at most that many failures, the most recent
  ones in their order, and never loses one while there is room.\<close>

theorem log_keeps_recent:
  assumes "1 \<le> n"
  shows "foldl (\<lambda>es (k, c, msg, now). log_failure n es k c msg now) [] fs
     = drop (length fs - nat n) (map (\<lambda>(k, c, msg, now). failure_entry k c msg now) fs)"
proof (induction fs rule: rev_induct)
  case (snoc f fs)
  obtain k c msg now where f: "f = (k, c, msg, now)" by (cases f)
  let ?entries = "map (\<lambda>(k, c, msg, now). failure_entry k c msg now)"
  let ?es = "drop (length fs - nat n) (?entries fs)"
  have "log_failure n ?es k c msg now = drop (Suc (length fs) - nat n) (?entries fs @ [failure_entry k c msg now])"
  proof (cases "length fs < nat n")
    case False
    then have "log_failure n ?es k c msg now = drop 1 (?es @ [failure_entry k c msg now])"
      using assms by (simp add: Let_def log_failure_def keep_last_def)
    also have "?es @ [failure_entry k c msg now] = drop (length fs - nat n) (?entries fs @ [failure_entry k c msg now])"
      by simp
    finally show ?thesis using False by (simp add: Suc_diff_le del: drop_append)
  qed (use assms in \<open>auto simp: Let_def log_failure_def\<close>)
  then show ?case using snoc by (simp add: f)
qed simp

theorem log_keeps_recent_witness:
  "map pf_source (foldl (\<lambda>es (k, c, msg, now). log_failure 1 es k c msg now) [] [(''bls'', Timeout, [], 0), (''bea'', Http_Error, [], 1)]) = [''bea'']"
  by (subst log_keeps_recent) (simp_all add: failure_entry_def)

end
