(* ===== verification/Provider_Manager.thy ===== *)
theory Provider_Manager
  imports Market_Data "HOL-Library.Multiset"
begin

text \<open>
  Provider contracts, registry, statistics and failover (\<open>engines/market_data_engine/providers.py\<close> and
  \<open>manager.py\<close>).

  What a provider does in one call is an argument: a \<open>provider_call\<close> holds the outcome of the
  coroutine, the latencies and the retry count the adapter shows afterwards, its quota, and the
  clock at the time the manager records the call. \<open>_execute\<close> calls a provider at most once, so an
  execution takes one \<open>provider_call\<close> per provider name. The lock of the manager makes recording one
  call atomic.
\<close>

subsection \<open>Providers\<close>

record capabilities =
  cp_historical :: bool
  cp_realtime_polling :: bool
  cp_websocket_streaming :: bool
  cp_tick_data :: bool
  cp_spread :: bool
  cp_volume :: bool
  cp_live_quote :: bool
  cp_economic_calendar :: bool
  cp_supported_symbols :: "string list"
  cp_supported_timeframes :: "bar_timeframe list"
  cp_maximum_history_candles :: "int option"

definition supports :: "capabilities \<Rightarrow> string \<Rightarrow> bar_timeframe \<Rightarrow> bool \<Rightarrow> market_data_error + bool" where
  "supports c symbol tf realtime =
     bindE (if cp_supported_symbols c = [] then Inr True
            else bindE (canonical_symbol symbol) (\<lambda>s. Inr (s \<in> set (cp_supported_symbols c))))
       (\<lambda>ok. Inr (ok \<and> tf \<in> set (cp_supported_timeframes c) \<and> (if realtime then cp_realtime_polling c else cp_historical c)))"

record provider_request =
  pq_symbol :: string
  pq_timeframe :: bar_timeframe
  pq_start :: "instant option"
  pq_end :: "instant option"
  pq_limit :: int

definition provider_request_ok :: "provider_request \<Rightarrow> bool" where
  "provider_request_ok r \<longleftrightarrow> 1 \<le> pq_limit r \<and> pq_limit r \<le> 100000"

record provider_quota =
  qu_limit :: "int option"
  qu_remaining :: "int option"
  qu_reset_at :: "instant option"

record provider =
  pv_name :: string
  pv_capabilities :: capabilities

text \<open>The deterministic local provider: \<open>selected[-limit:]\<close> of the matching candles in order of time.\<close>

definition last_n :: "int \<Rightarrow> 'a list \<Rightarrow> 'a list" where
  "last_n n xs = (if 0 < n then drop (length xs - nat n) xs else drop (nat (- n)) xs)"

definition within_window :: "instant option \<Rightarrow> instant option \<Rightarrow> candle \<Rightarrow> bool" where
  "within_window start stop c \<longleftrightarrow> opt_all (\<lambda>t. t \<le> ck_timestamp c) start \<and> opt_all (\<lambda>t. ck_timestamp c \<le> t) stop"

definition memory_provider :: "candle list \<Rightarrow> candle list" where
  "memory_provider items = sort_key ck_timestamp items"

definition memory_fetch_history :: "candle list \<Rightarrow> provider_request \<Rightarrow> market_data_error + candle list" where
  "memory_fetch_history items r = bindE (canonical_symbol (pq_symbol r)) (\<lambda>s.
     bindE (mapE (\<lambda>c. bindE (canonical_symbol (ck_symbol c)) (\<lambda>n. Inr (n, c))) items) (\<lambda>xs.
       Inr (last_n (pq_limit r) (map snd (filter (\<lambda>(n, c). n = s \<and> ck_timeframe c = pq_timeframe r
         \<and> within_window (pq_start r) (pq_end r) c) xs)))))"

subsection \<open>Statistics\<close>

record provider_statistics =
  ps_provider :: string
  ps_requests :: int
  ps_successes :: int
  ps_failures :: int
  ps_consecutive_failures :: int
  ps_consecutive_successes :: int
  ps_average_latency_ms :: f64
  ps_last_latency_ms :: f64
  ps_uptime_ratio :: f64
  ps_freshness_seconds :: "f64 option"
  ps_confidence :: f64
  ps_quota :: provider_quota
  ps_healthy :: bool
  ps_last_success_at :: "instant option"
  ps_last_failure_at :: "instant option"
  ps_last_error :: "string option"
  ps_backoff_until :: "instant option"
  ps_last_total_latency_ms :: f64
  ps_last_retry_count :: int

definition no_quota :: provider_quota where
  "no_quota = \<lparr>qu_limit = None, qu_remaining = None, qu_reset_at = None\<rparr>"

definition new_statistics :: "string \<Rightarrow> provider_statistics" where
  "new_statistics n = \<lparr>ps_provider = n, ps_requests = 0, ps_successes = 0, ps_failures = 0,
     ps_consecutive_failures = 0, ps_consecutive_successes = 0, ps_average_latency_ms = 0, ps_last_latency_ms = 0,
     ps_uptime_ratio = 1, ps_freshness_seconds = None, ps_confidence = fint 100, ps_quota = no_quota, ps_healthy = True,
     ps_last_success_at = None, ps_last_failure_at = None, ps_last_error = None, ps_backoff_until = None,
     ps_last_total_latency_ms = 0, ps_last_retry_count = 0\<rparr>"

text \<open>The outcome of a call: its result, or the class name, the text and the \<open>retry_after_seconds\<close> of the
  exception. \<open>None\<close> in a latency stands for an adapter without the attribute.\<close>

datatype 'a call_outcome = Returned 'a | Raised string string "f64 option"

record 'a provider_call =
  pc_outcome :: "'a call_outcome"
  pc_wrapper_latency :: f64
  pc_last_latency_ms :: "f64 option"
  pc_last_total_latency_ms :: "f64 option"
  pc_last_retry_count :: int
  pc_quota :: provider_quota
  pc_at :: instant

definition call_latency :: "'a provider_call \<Rightarrow> f64" where
  "call_latency c = (case pc_last_latency_ms c of None \<Rightarrow> pc_wrapper_latency c | Some x \<Rightarrow> x)"

definition call_total_latency :: "'a provider_call \<Rightarrow> f64" where
  "call_total_latency c = (case pc_last_total_latency_ms c of None \<Rightarrow> pc_wrapper_latency c | Some x \<Rightarrow> x)"

definition freshness_of :: "instant \<Rightarrow> instant list \<Rightarrow> f64 option" where
  "freshness_of now ts = (if ts = [] then None else Some (max 0 (total_seconds (now - Max (set ts)))))"

text \<open>\<open>_record_success\<close>; \<open>ts\<close> are the timestamps of the candles of the result.\<close>

definition succeed :: "int \<Rightarrow> instant list \<Rightarrow> 'a provider_call \<Rightarrow> provider_statistics \<Rightarrow> provider_statistics" where
  "succeed recovery ts c s =
     (let lat = call_latency c; n = ps_successes s + 1; cs = ps_consecutive_successes s + 1;
          avg = ps_average_latency_ms s + (lat - ps_average_latency_ms s) / fint n;
          up = int_truediv n (ps_requests s + 1)
      in s\<lparr>ps_requests := ps_requests s + 1, ps_successes := n, ps_consecutive_successes := cs, ps_consecutive_failures := 0,
           ps_last_latency_ms := lat, ps_last_total_latency_ms := call_total_latency c, ps_last_retry_count := pc_last_retry_count c,
           ps_average_latency_ms := avg, ps_last_success_at := Some (pc_at c), ps_last_error := None, ps_backoff_until := None,
           ps_freshness_seconds := freshness_of (pc_at c) ts, ps_uptime_ratio := up,
           ps_confidence := min (fint 100) (up * fint 70 + max 0 (fint 20 - avg / fint 100) + fint 10),
           ps_healthy := ps_healthy s \<or> recovery \<le> cs, ps_quota := pc_quota c\<rparr>)"

text \<open>\<open>timedelta(seconds=x)\<close>: the microseconds of the fraction are rounded half to even.\<close>

definition float_td :: "f64 \<Rightarrow> timedelta" where
  "float_td x = trunc_int x * 1000000 + rhe (fval ((x - fint (trunc_int x)) * fint 1000000))"

definition max_backoff_seconds :: f64 where "max_backoff_seconds = fint 300"

definition failure_backoff :: "int \<Rightarrow> f64 option \<Rightarrow> f64" where
  "failure_backoff cf retry_after = (case retry_after of Some x \<Rightarrow> x
     | None \<Rightarrow> min (fint (2 ^ nat (min (cf - 1) 8))) max_backoff_seconds)"

text \<open>\<open>_record_failure\<close>.\<close>

definition fail_call :: "int \<Rightarrow> string \<Rightarrow> f64 option \<Rightarrow> 'a provider_call \<Rightarrow> provider_statistics \<Rightarrow> provider_statistics" where
  "fail_call threshold err retry_after c s =
     (let cf = ps_consecutive_failures s + 1; up = int_truediv (ps_successes s) (ps_requests s + 1);
          h = ps_healthy s \<and> cf < threshold
      in s\<lparr>ps_requests := ps_requests s + 1, ps_failures := ps_failures s + 1, ps_consecutive_failures := cf,
           ps_consecutive_successes := 0, ps_last_latency_ms := call_latency c, ps_last_total_latency_ms := call_total_latency c,
           ps_last_retry_count := pc_last_retry_count c, ps_last_failure_at := Some (pc_at c), ps_last_error := Some err,
           ps_uptime_ratio := up, ps_confidence := max 0 (up * fint 70 - fint (cf * 10)), ps_healthy := h,
           ps_backoff_until := (if err = ''ProviderRateLimitedError'' \<or> \<not> h
             then Some (pc_at c + float_td (failure_backoff cf retry_after)) else ps_backoff_until s)\<rparr>)"

subsection \<open>Registry and manager\<close>

text \<open>The registry is a dict by provider name; registering a name again replaces its provider.\<close>

definition register_provider :: "provider \<Rightarrow> (string \<times> provider) list \<Rightarrow> (string \<times> provider) list" where
  "register_provider p r = AList.update (pv_name p) p r"

record manager =
  pm_registry :: "(string \<times> provider) list"
  pm_preferred :: string
  pm_failure_threshold :: int
  pm_recovery_successes :: int
  pm_statistics :: "(string \<times> provider_statistics) list"
  pm_current_provider :: "string option"

definition new_manager :: "(string \<times> provider) list \<Rightarrow> string \<Rightarrow> int \<Rightarrow> int \<Rightarrow> manager" where
  "new_manager r preferred threshold recovery = \<lparr>pm_registry = r, pm_preferred = preferred, pm_failure_threshold = threshold,
     pm_recovery_successes = recovery,
     pm_statistics = fold (\<lambda>p. AList.update (pv_name p) (new_statistics (pv_name p))) (map snd r) [], pm_current_provider = None\<rparr>"

datatype manager_error = Request_Error market_data_error | Provider_Unavailable string | Statistics_Missing string
  | Provider_Failure string string

type_synonym provider_rank = "bool \<times> f64 \<times> f64 \<times> bool"

definition ranking_key :: "manager \<Rightarrow> string \<Rightarrow> provider_statistics \<Rightarrow> provider_rank" where
  "ranking_key m n s = (\<not> ps_healthy s, - ps_confidence s, ps_average_latency_ms s, n \<noteq> pm_preferred m)"

text \<open>\<open>rankings\<close>: the eligible providers, sorted (stably) by health, confidence, latency and preference.\<close>

definition with_statistics :: "manager \<Rightarrow> string \<Rightarrow> manager_error + provider_rank \<times> string" where
  "with_statistics m n = (case map_of (pm_statistics m) n of
     None \<Rightarrow> Inl (Statistics_Missing n) | Some s \<Rightarrow> Inr (ranking_key m n s, n))"

definition eligible_names :: "manager \<Rightarrow> string \<Rightarrow> bar_timeframe \<Rightarrow> bool \<Rightarrow> manager_error + string list" where
  "eligible_names m symbol tf realtime =
     (case mapE (\<lambda>p. bindE (supports (pv_capabilities p) symbol tf realtime) (\<lambda>b. Inr (b, pv_name p))) (map snd (pm_registry m)) of
        Inl e \<Rightarrow> Inl (Request_Error e) | Inr xs \<Rightarrow> Inr (map snd (filter fst xs)))"

definition rankings :: "manager \<Rightarrow> string \<Rightarrow> bar_timeframe \<Rightarrow> bool \<Rightarrow> manager_error + string list" where
  "rankings m symbol tf realtime = bindE (eligible_names m symbol tf realtime) (\<lambda>ns.
     bindE (mapE (with_statistics m) ns) (\<lambda>ks. Inr (map snd (sort_key fst ks))))"

definition update_statistics :: "string \<Rightarrow> (provider_statistics \<Rightarrow> provider_statistics) \<Rightarrow> manager \<Rightarrow> manager" where
  "update_statistics n f m = m\<lparr>pm_statistics := AList.map_entry n f (pm_statistics m)\<rparr>"

definition record_success_of :: "string \<Rightarrow> instant list \<Rightarrow> 'a provider_call \<Rightarrow> manager \<Rightarrow> manager" where
  "record_success_of n ts c m = update_statistics n (succeed (pm_recovery_successes m) ts c) m"

definition record_failure_of :: "string \<Rightarrow> string \<Rightarrow> f64 option \<Rightarrow> 'a provider_call \<Rightarrow> manager \<Rightarrow> manager" where
  "record_failure_of n err retry_after c m = update_statistics n (fail_call (pm_failure_threshold m) err retry_after c) m"

definition circuit_open :: "manager \<Rightarrow> instant \<Rightarrow> string \<Rightarrow> instant option" where
  "circuit_open m now n = (case map_of (pm_statistics m) n of None \<Rightarrow> None
     | Some s \<Rightarrow> (case ps_backoff_until s of None \<Rightarrow> None | Some t \<Rightarrow> if now < t then Some t else None))"

text \<open>The loop of \<open>_execute\<close> over the ranked providers; \<open>errors\<close> are the texts collected so far, \<open>stamps\<close>
  gives the timestamps of a result.\<close>

fun try_providers :: "instant \<Rightarrow> (string \<Rightarrow> 'a provider_call) \<Rightarrow> ('a \<Rightarrow> instant list) \<Rightarrow> string list \<Rightarrow> manager \<Rightarrow> string list
    \<Rightarrow> manager \<times> (manager_error + 'a)" where
  "try_providers now calls stamps [] m errors =
     (m, Inl (Provider_Unavailable (''all eligible providers failed: '' @ join ''; '' errors)))"
| "try_providers now calls stamps (n # ns) m errors =
     (case circuit_open m now n of
        Some t \<Rightarrow> try_providers now calls stamps ns m (errors @ [n @ '': circuit open until '' @ isoformat t])
      | None \<Rightarrow>
          (case pc_outcome (calls n) of
             Returned x \<Rightarrow> ((record_success_of n (stamps x) (calls n) m)\<lparr>pm_current_provider := Some n\<rparr>, Inr x)
           | Raised cls text retry \<Rightarrow>
               try_providers now calls stamps ns (record_failure_of n cls retry (calls n) m) (errors @ [n @ '': '' @ text])))"

definition execute :: "instant \<Rightarrow> (string \<Rightarrow> 'a provider_call) \<Rightarrow> ('a \<Rightarrow> instant list) \<Rightarrow> string \<Rightarrow> bar_timeframe \<Rightarrow> bool \<Rightarrow> manager
    \<Rightarrow> manager \<times> (manager_error + 'a)" where
  "execute now calls stamps symbol tf realtime m =
     (case rankings m symbol tf realtime of Inl e \<Rightarrow> (m, Inl e)
      | Inr ns \<Rightarrow> try_providers now calls stamps ns m [])"

definition manager_history :: "instant \<Rightarrow> (string \<Rightarrow> candle list provider_call) \<Rightarrow> provider_request \<Rightarrow> manager
    \<Rightarrow> manager \<times> (manager_error + candle list)" where
  "manager_history now calls r m = execute now calls (map ck_timestamp) (pq_symbol r) (pq_timeframe r) False m"

definition manager_latest :: "instant \<Rightarrow> (string \<Rightarrow> candle provider_call) \<Rightarrow> string \<Rightarrow> bar_timeframe \<Rightarrow> manager
    \<Rightarrow> manager \<times> (manager_error + candle)" where
  "manager_latest now calls symbol tf m = execute now calls (\<lambda>c. [ck_timestamp c]) symbol tf True m"

definition history_from :: "candle list provider_call \<Rightarrow> string \<Rightarrow> manager \<Rightarrow> manager \<times> (manager_error + candle list)" where
  "history_from call n m =
     (if n \<notin> fst ` set (pm_registry m) then (m, Inl (Provider_Unavailable (''provider '' @ n @ '' is not registered'')))
      else (case pc_outcome call of
          Returned xs \<Rightarrow> (record_success_of n (map ck_timestamp xs) call m, Inr xs)
        | Raised cls text retry \<Rightarrow> (record_failure_of n cls None call m, Inl (Provider_Failure cls text))))"


subsection \<open>Statistics stay coherent\<close>

definition statistics_ok :: "int \<Rightarrow> int \<Rightarrow> provider_statistics \<Rightarrow> bool" where
  "statistics_ok threshold recovery s \<longleftrightarrow>
     ps_requests s = ps_successes s + ps_failures s
     \<and> 0 \<le> ps_consecutive_failures s \<and> ps_consecutive_failures s \<le> ps_failures s
     \<and> 0 \<le> ps_consecutive_successes s \<and> ps_consecutive_successes s \<le> ps_successes s
     \<and> (ps_consecutive_failures s = 0 \<or> ps_consecutive_successes s = 0)
     \<and> in_range 0 1 (ps_uptime_ratio s) \<and> in_range 0 (fint 100) (ps_confidence s)
     \<and> (ps_healthy s \<longrightarrow> ps_consecutive_failures s < threshold)
     \<and> (\<not> ps_healthy s \<longrightarrow> ps_consecutive_successes s < recovery)
     \<and> (ps_backoff_until s \<noteq> None \<longrightarrow> 0 < ps_consecutive_failures s \<and> ps_last_error s \<noteq> None)"

lemma ratio_in_unit: "0 \<le> a \<Longrightarrow> a \<le> b \<Longrightarrow> in_range 0 1 (int_truediv a b)"
proof -
  assume ab: "0 \<le> a" "a \<le> b"
  then have "(0 :: rat) \<le> of_int a / of_int b \<and> of_int a / of_int b \<le> (1 :: rat)"
    by (cases "b = 0") (auto simp: divide_le_eq)
  then show ?thesis unfolding int_truediv_def by (intro unit_lit) simp_all
qed

lemma succeed_ok: "statistics_ok th rc s \<Longrightarrow> 1 \<le> th \<Longrightarrow> statistics_ok th rc (succeed rc ts c s)"
proof -
  assume s: "statistics_ok th rc s" "1 \<le> th"
  define up where "up = int_truediv (ps_successes s + 1) (ps_requests s + 1)"
  have up: "in_range 0 1 up"
    unfolding up_def using s by (intro ratio_in_unit) (auto simp: statistics_ok_def)
  then have "0 \<le> up * fint 70" by (intro f64_mult_nonneg) (auto simp: in_range_def fint_nonneg)
  then have conf: "in_range 0 (fint 100) (min (fint 100) (up * fint 70 + max 0 z + fint 10))" for z
    by (simp add: in_range_def f64_add_nonneg fint_nonneg)
  show ?thesis
    using s up conf by (auto simp: statistics_ok_def succeed_def Let_def up_def)
qed

lemma fail_call_ok: "statistics_ok th rc s \<Longrightarrow> 1 \<le> rc \<Longrightarrow> statistics_ok th rc (fail_call th err retry c s)"
proof -
  assume s: "statistics_ok th rc s" "1 \<le> rc"
  define up where "up = int_truediv (ps_successes s) (ps_requests s + 1)"
  have up: "in_range 0 1 up"
    unfolding up_def using s by (intro ratio_in_unit) (auto simp: statistics_ok_def)
  have "up * fint 70 \<le> fint 70" using f64_mult_le [of up "fint 70"] up by (simp add: in_range_def fint_nonneg)
  moreover have "fint 70 \<le> fint 100" by (intro fint_mono) simp
  moreover have "0 \<le> fint (z * 10)" if "0 \<le> z" for z using that by (simp add: fint_nonneg)
  moreover have "0 \<le> ps_consecutive_failures s + 1" using s by (simp add: statistics_ok_def)
  ultimately have "up * fint 70 - fint ((ps_consecutive_failures s + 1) * 10) \<le> fint 100"
    using f64_diff_le [of "fint ((ps_consecutive_failures s + 1) * 10)" "up * fint 70"] by (meson order_trans)
  then have "in_range 0 (fint 100) (max 0 (up * fint 70 - fint ((ps_consecutive_failures s + 1) * 10)))"
    by (simp add: in_range_def fint_nonneg)
  then show ?thesis
    using s up by (auto simp: statistics_ok_def fail_call_def Let_def up_def)
qed

definition manager_ok :: "manager \<Rightarrow> bool" where
  "manager_ok m \<longleftrightarrow> 1 \<le> pm_failure_threshold m \<and> 1 \<le> pm_recovery_successes m
     \<and> distinct (map fst (pm_registry m)) \<and> list_all (\<lambda>(k, p). pv_name p = k) (pm_registry m)
     \<and> fst ` set (pm_statistics m) = fst ` set (pm_registry m) \<and> distinct (map fst (pm_statistics m))
     \<and> list_all (\<lambda>(k, s). statistics_ok (pm_failure_threshold m) (pm_recovery_successes m) s) (pm_statistics m)
     \<and> opt_all (\<lambda>n. n \<in> fst ` set (pm_registry m)) (pm_current_provider m)"

lemma update_statistics_fields [simp]:
  "pm_registry (update_statistics n f m) = pm_registry m" "pm_preferred (update_statistics n f m) = pm_preferred m"
  "pm_failure_threshold (update_statistics n f m) = pm_failure_threshold m"
  "pm_recovery_successes (update_statistics n f m) = pm_recovery_successes m"
  "pm_current_provider (update_statistics n f m) = pm_current_provider m"
  "map_of (pm_statistics (update_statistics n f m)) k
     = (if k = n then map_option f (map_of (pm_statistics m) k) else map_of (pm_statistics m) k)"
  by (simp_all add: update_statistics_def map_of_map_entry fun_upd_def split: option.split)

lemma map_entry_keys: "map fst (AList.map_entry n f xs) = map fst xs"
  by (induction xs) auto

lemma map_entry_values:
  "list_all (\<lambda>(k, s). P s) xs \<Longrightarrow> (\<And>s. P s \<Longrightarrow> P (f s)) \<Longrightarrow> list_all (\<lambda>(k, s). P s) (AList.map_entry n f xs)"
  by (induction xs) auto

lemma update_statistics_ok:
  assumes "manager_ok m"
    "\<And>s. statistics_ok (pm_failure_threshold m) (pm_recovery_successes m) s
       \<Longrightarrow> statistics_ok (pm_failure_threshold m) (pm_recovery_successes m) (f s)"
  shows "manager_ok (update_statistics n f m)"
proof -
  have "fst ` set (AList.map_entry n f xs) = fst ` set xs" for xs :: "(string \<times> provider_statistics) list"
    using map_entry_keys [of n f xs] by (metis list.set_map)
  then show ?thesis
    using assms map_entry_values [of "statistics_ok (pm_failure_threshold m) (pm_recovery_successes m)" "pm_statistics m" f n]
    by (simp add: manager_ok_def map_entry_keys update_statistics_def)
qed

lemma record_success_ok: "manager_ok m \<Longrightarrow> manager_ok (record_success_of n ts c m)"
  unfolding record_success_of_def by (rule update_statistics_ok) (auto simp: manager_ok_def intro: succeed_ok)

lemma record_failure_ok: "manager_ok m \<Longrightarrow> manager_ok (record_failure_of n err retry c m)"
  unfolding record_failure_of_def by (rule update_statistics_ok) (auto simp: manager_ok_def intro: fail_call_ok)

lemma record_fields [simp]:
  "pm_registry (record_success_of n ts c m) = pm_registry m" "pm_registry (record_failure_of n err retry c m) = pm_registry m"
  "pm_current_provider (record_failure_of n err retry c m) = pm_current_provider m"
  by (simp_all add: record_success_of_def record_failure_of_def)

lemma set_current_ok: "manager_ok m \<Longrightarrow> n \<in> fst ` set (pm_registry m) \<Longrightarrow> manager_ok (m\<lparr>pm_current_provider := Some n\<rparr>)"
  by (simp add: manager_ok_def)

lemma try_providers_ok:
  "manager_ok m \<Longrightarrow> list_all (\<lambda>n. n \<in> fst ` set (pm_registry m)) ns
    \<Longrightarrow> manager_ok (fst (try_providers now calls stamps ns m errors))"
proof (induction ns arbitrary: m errors)
  case (Cons n ns)
  have f: "manager_ok (fst (try_providers now calls stamps ns (record_failure_of n cls retry (calls n) m) e))" for cls retry e
    using Cons.prems by (intro Cons.IH record_failure_ok) simp_all
  have g: "manager_ok (fst (try_providers now calls stamps ns m e))" for e
    using Cons.prems by (intro Cons.IH) simp_all
  have r: "manager_ok ((record_success_of n ts (calls n) m)\<lparr>pm_current_provider := Some n\<rparr>)" for ts
    using Cons.prems by (intro set_current_ok record_success_ok) simp_all
  show ?case
    using f g r by (cases "circuit_open m now n"; cases "pc_outcome (calls n)") simp_all
qed simp

lemma eligible_subset:
  "eligible_names m symbol tf realtime = Inr ns \<Longrightarrow> set ns \<subseteq> pv_name ` snd ` set (pm_registry m)"
proof -
  assume "eligible_names m symbol tf realtime = Inr ns"
  then obtain xs where xs: "mapE (\<lambda>p. bindE (supports (pv_capabilities p) symbol tf realtime) (\<lambda>b. Inr (b, pv_name p)))
      (map snd (pm_registry m)) = Inr xs" "ns = map snd (filter fst xs)"
    by (auto simp: eligible_names_def split: sum.split_asm)
  have "snd x \<in> pv_name ` snd ` set (pm_registry m)" if "x \<in> set xs" for x
    by (rule mapE_set [OF xs(1) that]) (force simp: bindE_eq_Inr)
  then show ?thesis using xs(2) by auto
qed

text \<open>A ranking holds the eligible providers, each once, in increasing order of their keys.\<close>

lemma rankings_Inr:
  assumes "rankings m symbol tf realtime = Inr ns"
  shows "\<exists>es ks. eligible_names m symbol tf realtime = Inr es \<and> mset ns = mset es \<and> sorted (map fst ks)
    \<and> ns = map snd ks \<and> list_all (\<lambda>(k, n). \<exists>s. map_of (pm_statistics m) n = Some s \<and> k = ranking_key m n s) ks"
proof -
  obtain es xs where e: "eligible_names m symbol tf realtime = Inr es" "mapE (with_statistics m) es = Inr xs"
    "ns = map snd (sort_key fst xs)"
    using assms by (auto simp: rankings_def bindE_eq_Inr)
  have "length xs = length es \<and> (\<forall>i < length es. \<exists>s. map_of (pm_statistics m) (es ! i) = Some s \<and> xs ! i = (ranking_key m (es ! i) s, es ! i))"
    using e(2) by (auto simp: mapE_Inr_iff with_statistics_def split: option.split_asm)
  then have len: "length xs = length es"
    and at: "\<And>i. i < length es \<Longrightarrow> \<exists>s. map_of (pm_statistics m) (es ! i) = Some s \<and> xs ! i = (ranking_key m (es ! i) s, es ! i)"
    by blast+
  have "map snd xs = es" using len at by (force intro: nth_equalityI)
  moreover have "list_all (\<lambda>(k, n). \<exists>s. map_of (pm_statistics m) n = Some s \<and> k = ranking_key m n s) xs"
    unfolding list_all_length
  proof (intro allI impI)
    fix i assume "i < length xs"
    then obtain s where "map_of (pm_statistics m) (es ! i) = Some s" "xs ! i = (ranking_key m (es ! i) s, es ! i)"
      using at len by auto
    then show "case xs ! i of (k, n) \<Rightarrow> \<exists>s. map_of (pm_statistics m) n = Some s \<and> k = ranking_key m n s" by simp
  qed
  ultimately have "mset ns = mset es" "list_all (\<lambda>(k, n). \<exists>s. map_of (pm_statistics m) n = Some s \<and> k = ranking_key m n s) (sort_key fst xs)"
    by (auto simp: e(3) list_all_iff)
  moreover have "sorted (map fst (sort_key fst xs))" by (rule sorted_sort_key)
  ultimately show ?thesis using e(1,3) by blast
qed

lemma registered_names: "manager_ok m \<Longrightarrow> pv_name ` snd ` set (pm_registry m) = fst ` set (pm_registry m)"
  unfolding manager_ok_def list_all_iff image_image by (intro image_cong) auto

lemma execute_ok: "manager_ok m \<Longrightarrow> manager_ok (fst (execute now calls stamps symbol tf realtime m))"
proof -
  assume m: "manager_ok m"
  show ?thesis
  proof (cases "rankings m symbol tf realtime")
    case (Inr ns)
    obtain es where "eligible_names m symbol tf realtime = Inr es" "mset ns = mset es"
      using rankings_Inr [OF Inr] by blast
    then have "set ns \<subseteq> fst ` set (pm_registry m)"
      using eligible_subset registered_names [OF m] by (metis mset_eq_setD)
    then have "list_all (\<lambda>n. n \<in> fst ` set (pm_registry m)) ns" unfolding list_all_iff by blast
    then show ?thesis using try_providers_ok [OF m] Inr by (simp add: execute_def)
  qed (simp add: execute_def m)
qed

lemma history_from_ok: "manager_ok m \<Longrightarrow> manager_ok (fst (history_from call n m))"
  using record_success_ok record_failure_ok by (auto simp: history_from_def split: call_outcome.split)

lemma fresh_statistics:
  fixes ps :: "provider list"
  assumes "1 \<le> th"
  shows "distinct (map fst xs) \<Longrightarrow> list_all (\<lambda>(k, s). statistics_ok th rc s) xs \<Longrightarrow>
      distinct (map fst (fold (\<lambda>p. AList.update (pv_name p) (new_statistics (pv_name p))) ps xs))
      \<and> list_all (\<lambda>(k, s). statistics_ok th rc s) (fold (\<lambda>p. AList.update (pv_name p) (new_statistics (pv_name p))) ps xs)
      \<and> fst ` set (fold (\<lambda>p. AList.update (pv_name p) (new_statistics (pv_name p))) ps xs) = pv_name ` set ps \<union> fst ` set xs"
proof (induction ps arbitrary: xs)
  case (Cons p ps)
  have ok: "statistics_ok th rc (new_statistics n)" for n
    using assms by (simp add: statistics_ok_def new_statistics_def in_range_def fint_nonneg)
  have "list_all (\<lambda>(k, s). statistics_ok th rc s) (AList.update n (new_statistics n) xs)" for n
    using Cons.prems(2) ok by (induction xs) auto
  then show ?case
    using Cons.IH [of "AList.update (pv_name p) (new_statistics (pv_name p)) xs"] Cons.prems
    by (auto simp: distinct_update dom_update)
qed simp

lemma new_manager_ok:
  assumes "1 \<le> th" "1 \<le> rc" "distinct (map fst r)" "list_all (\<lambda>(k, p). pv_name p = k) r"
  shows "manager_ok (new_manager r pref th rc)"
proof -
  have "pv_name ` snd ` set r = fst ` set r" using assms(4) by (force simp: list_all_iff)
  then show ?thesis
    using fresh_statistics [OF assms(1), of "[]" rc "map snd r"] assms by (simp add: manager_ok_def new_manager_def)
qed

text \<open>The reachable states of a manager.\<close>

inductive manager_step :: "manager \<Rightarrow> manager \<Rightarrow> bool" where
  history: "manager_step m (fst (manager_history now calls r m))"
| latest: "manager_step m (fst (manager_latest now calls symbol tf m))"
| from_one: "manager_step m (fst (history_from call n m))"

inductive manager_reachable :: "manager \<Rightarrow> manager \<Rightarrow> bool" for m0 where
  start: "manager_reachable m0 m0"
| step: "manager_reachable m0 m \<Longrightarrow> manager_step m m' \<Longrightarrow> manager_reachable m0 m'"

lemma reachable_ok:
  assumes "manager_reachable m0 m" "manager_ok m0" shows "manager_ok m"
  using assms
proof (induction rule: manager_reachable.induct)
  case (step m m')
  from step.hyps(2) step.IH [OF step.prems] show ?case
    by cases (simp_all add: manager_history_def manager_latest_def execute_ok history_from_ok)
qed

text \<open>Claim C27: from a fresh manager, after any sequence of executions and direct calls, for every
  registered provider: the requests are its successes plus its failures, at most one of the two
  streaks is positive, the confidence stays between 0 and 100 and the uptime between 0 and 1, a
  healthy provider has fewer consecutive failures than the threshold and an unhealthy one fewer
  consecutive successes than the recovery needs, and an open circuit comes from a failure after
  the last success.\<close>

theorem manager_invariant:
  assumes "manager_reachable (new_manager r pref threshold recovery) m"
    "1 \<le> threshold" "1 \<le> recovery" "distinct (map fst r)" "list_all (\<lambda>(k, p). pv_name p = k) r"
  shows "manager_ok m \<and> (\<forall>n s. map_of (pm_statistics m) n = Some s
     \<longrightarrow> statistics_ok (pm_failure_threshold m) (pm_recovery_successes m) s)"
proof -
  have "manager_ok m" using reachable_ok [OF assms(1)] new_manager_ok assms by simp
  then show ?thesis by (auto simp: manager_ok_def list_all_iff dest!: map_of_SomeD)
qed


subsection \<open>Failover\<close>

definition live :: "manager \<Rightarrow> instant \<Rightarrow> string \<Rightarrow> bool" where
  "live m now n \<longleftrightarrow> circuit_open m now n = None"

definition raises :: "(string \<Rightarrow> 'a provider_call) \<Rightarrow> string \<Rightarrow> bool" where
  "raises calls n \<longleftrightarrow> (case pc_outcome (calls n) of Raised _ _ _ \<Rightarrow> True | Returned _ \<Rightarrow> False)"

definition after_failure :: "int \<Rightarrow> 'a provider_call \<Rightarrow> provider_statistics \<Rightarrow> provider_statistics" where
  "after_failure threshold c s = (case pc_outcome c of Raised cls _ retry \<Rightarrow> fail_call threshold cls retry c s | Returned _ \<Rightarrow> s)"

definition returned :: "'a provider_call \<Rightarrow> 'a option" where
  "returned c = (case pc_outcome c of Returned x \<Rightarrow> Some x | Raised _ _ _ \<Rightarrow> None)"

text \<open>The outcome of an execution over a ranking: the providers with a closed circuit that raise before the
  first one that returns, and the rest of the providers with a closed circuit.\<close>

abbreviation tried :: "manager \<Rightarrow> instant \<Rightarrow> (string \<Rightarrow> 'a provider_call) \<Rightarrow> string list \<Rightarrow> string list" where
  "tried m now calls ns \<equiv> takeWhile (raises calls) (filter (live m now) ns)"

abbreviation remaining :: "manager \<Rightarrow> instant \<Rightarrow> (string \<Rightarrow> 'a provider_call) \<Rightarrow> string list \<Rightarrow> string list" where
  "remaining m now calls ns \<equiv> dropWhile (raises calls) (filter (live m now) ns)"

lemma circuit_after_failure: "k \<noteq> n \<Longrightarrow> circuit_open (record_failure_of n err retry c m) now k = circuit_open m now k"
  by (simp add: circuit_open_def record_failure_of_def)

lemma threshold_after_failure [simp]: "pm_failure_threshold (record_failure_of n err retry c m) = pm_failure_threshold m"
  "pm_recovery_successes (record_failure_of n err retry c m) = pm_recovery_successes m"
  by (simp_all add: record_failure_of_def)

lemma try_providers_spec:
  assumes "distinct ns"
  shows "(\<exists>text. snd (try_providers now calls stamps ns m errors) =
      (case remaining m now calls ns of [] \<Rightarrow> Inl (Provider_Unavailable text) | n # _ \<Rightarrow> Inr (the (returned (calls n)))))
    \<and> pm_current_provider (fst (try_providers now calls stamps ns m errors))
       = (case remaining m now calls ns of [] \<Rightarrow> pm_current_provider m | n # _ \<Rightarrow> Some n)
    \<and> map_of (pm_statistics (fst (try_providers now calls stamps ns m errors))) k =
       (if k \<in> set (tried m now calls ns) then map_option (after_failure (pm_failure_threshold m) (calls k)) (map_of (pm_statistics m) k)
        else if \<exists>rest. remaining m now calls ns = k # rest
        then map_option (succeed (pm_recovery_successes m) (stamps (the (returned (calls k)))) (calls k)) (map_of (pm_statistics m) k)
        else map_of (pm_statistics m) k)"
  using assms
proof (induction ns arbitrary: m errors)
  case (Cons n ns)
  show ?case
  proof (cases "circuit_open m now n")
    case (Some t)
    then show ?thesis using Cons by (simp add: live_def)
  next
    case None
    show ?thesis
    proof (cases "pc_outcome (calls n)")
      case (Returned x)
      then show ?thesis
        using None by (auto simp: live_def raises_def returned_def record_success_of_def)
    next
      case (Raised cls msg retry)
      let ?m = "record_failure_of n cls retry (calls n) m"
      have live: "filter (live ?m now) ns = filter (live m now) ns"
      proof (intro filter_cong refl)
        fix x assume "x \<in> set ns"
        then have "x \<noteq> n" using Cons.prems by auto
        then show "live ?m now x = live m now x" by (simp add: live_def circuit_after_failure)
      qed
      have stat: "map_of (pm_statistics ?m) k = (if k = n then map_option (after_failure (pm_failure_threshold m) (calls k)) (map_of (pm_statistics m) k)
          else map_of (pm_statistics m) k)" for k
        using Raised by (simp add: record_failure_of_def after_failure_def [abs_def])
      have "n \<notin> set (filter (live m now) ns)" using Cons.prems by simp
      then have new: "n \<notin> set (tried m now calls ns)" "remaining m now calls ns \<noteq> n # rest" for rest
        using set_takeWhileD set_dropWhileD by (fast, metis list.set_intros(1))
      show ?thesis
        using Cons.IH [of ?m] Cons.prems None Raised new
        by (simp add: live stat live_def [where n = n] raises_def [where n = n] cong: list.case_cong)
    qed
  qed
qed simp

lemma mapE_map: "mapE f xs = Inr ys \<Longrightarrow> (\<And>x y. f x = Inr y \<Longrightarrow> g y = h x) \<Longrightarrow> map g ys = map h xs"
  by (induction xs arbitrary: ys) (auto simp: bindE_eq_Inr)

lemma eligible_distinct:
  assumes "eligible_names m symbol tf realtime = Inr ns" "manager_ok m"
  shows "distinct ns"
proof -
  obtain xs where xs: "mapE (\<lambda>p. bindE (supports (pv_capabilities p) symbol tf realtime) (\<lambda>b. Inr (b, pv_name p)))
      (map snd (pm_registry m)) = Inr xs" "ns = map snd (filter fst xs)"
    using assms(1) by (auto simp: eligible_names_def split: sum.split_asm)
  have "map snd xs = map pv_name (map snd (pm_registry m))"
    using xs(1) by (rule mapE_map) (auto simp: bindE_eq_Inr)
  also have "\<dots> = map fst (pm_registry m)"
    using assms(2) by (auto simp: manager_ok_def list_all_iff)
  finally have "distinct (map snd xs)" using assms(2) by (simp add: manager_ok_def)
  then show ?thesis by (simp add: xs(2) distinct_map_filter)
qed

lemma rankings_distinct: "rankings m symbol tf realtime = Inr ns \<Longrightarrow> manager_ok m \<Longrightarrow> distinct ns"
  using rankings_Inr eligible_distinct by (metis mset_eq_imp_distinct_iff)

text \<open>Claim C7: an execution asks the ranked providers whose circuit is closed, in order, until one
  returns. Its result is that of the first that does, which becomes the current provider, and it
  fails exactly when there is none. Exactly the providers asked before are charged a failure, only
  the one that answered is credited, and every other provider, one with an open circuit included,
  keeps its statistics.\<close>

theorem execute_fails_over:
  assumes "rankings m symbol tf realtime = Inr ns" "manager_ok m"
    and "execute now calls stamps symbol tf realtime m = (m', r)"
  shows "(case remaining m now calls ns of
        [] \<Rightarrow> (\<exists>text. r = Inl (Provider_Unavailable text)) \<and> pm_current_provider m' = pm_current_provider m
      | n # _ \<Rightarrow> r = Inr (the (returned (calls n))) \<and> pm_current_provider m' = Some n)
    \<and> map_of (pm_statistics m') k =
       (if k \<in> set (tried m now calls ns) then map_option (after_failure (pm_failure_threshold m) (calls k)) (map_of (pm_statistics m) k)
        else if \<exists>rest. remaining m now calls ns = k # rest
        then map_option (succeed (pm_recovery_successes m) (stamps (the (returned (calls k)))) (calls k)) (map_of (pm_statistics m) k)
        else map_of (pm_statistics m) k)"
proof -
  have "distinct ns" using rankings_distinct assms(1,2) by blast
  from try_providers_spec [OF this, of now calls stamps m "[]" k] show ?thesis
    using assms by (cases "remaining m now calls ns") (auto simp: execute_def simp del: dropWhile_eq_Nil_conv)
qed


text \<open>A ranking puts healthy providers before unhealthy ones and, among those of equal health,
  the more confident first.\<close>

theorem rankings_order:
  assumes "rankings m symbol tf realtime = Inr ns" "i < j" "j < length ns"
    "map_of (pm_statistics m) (ns ! i) = Some s" "map_of (pm_statistics m) (ns ! j) = Some s'"
  shows "(ps_healthy s \<or> \<not> ps_healthy s') \<and> (ps_healthy s = ps_healthy s' \<longrightarrow> ps_confidence s' \<le> ps_confidence s)"
proof -
  obtain ks where ks: "sorted (map fst ks)" "ns = map snd ks"
    "list_all (\<lambda>(k, n). \<exists>s. map_of (pm_statistics m) n = Some s \<and> k = ranking_key m n s) ks"
    using rankings_Inr [OF assms(1)] by blast
  have at: "fst (ks ! l) = ranking_key m (ns ! l) u" if "l < length ns" "map_of (pm_statistics m) (ns ! l) = Some u" for l u
    using ks(2,3) that by (fastforce simp: list_all_length split_beta)
  have "fst (ks ! i) \<le> fst (ks ! j)"
    using sorted_nth_mono [OF ks(1), of i j] assms(2,3) ks(2) by simp
  then have "ranking_key m (ns ! i) s \<le> ranking_key m (ns ! j) s'"
    using at [of i s] at [of j s'] assms by simp
  then show ?thesis
    by (auto simp: ranking_key_def less_eq_prod_def f64_order fval_arith)
qed

subsection \<open>Circuit and recovery\<close>

lemma float_td_fint: "\<bar>n\<bar> \<le> 2 ^ 53 \<Longrightarrow> float_td (fint n) = seconds_td n"
proof -
  assume n: "\<bar>n\<bar> \<le> 2 ^ 53"
  then have t: "trunc_int (fint n) = n" by (simp add: trunc_int_def fval_fint)
  have "fval ((fint n - fint n) * fint 1000000) = 0" by (simp add: fval_arith)
  then show ?thesis using rhe_of_int [of 0] by (simp add: float_td_def t seconds_td_def)
qed

text \<open>A failure that is not a rate limit leaves the circuit as it is while the provider stays
  healthy; a rate limit, or a failure of an unhealthy provider, opens it, without a hint of the
  provider for a power of two seconds that doubles with each consecutive failure and is at most
  256: the bound of 300 seconds is never reached.\<close>

theorem failure_opens_circuit:
  assumes "statistics_ok threshold recovery s"
  shows "if err \<noteq> ''ProviderRateLimitedError'' \<and> ps_healthy (fail_call threshold err retry c s)
    then ps_backoff_until (fail_call threshold err retry c s) = ps_backoff_until s
    else ps_backoff_until (fail_call threshold err None c s)
        = Some (pc_at c + seconds_td (2 ^ nat (min (ps_consecutive_failures s) 8)))"
proof -
  let ?n = "nat (min (ps_consecutive_failures s) 8)"
  have "(2 :: int) ^ ?n \<le> 2 ^ 8" by (intro power_increasing) auto
  then have n: "(2 :: int) ^ ?n \<le> 256" by simp
  then have "fint (2 ^ ?n) \<le> max_backoff_seconds" unfolding max_backoff_seconds_def by (intro fint_mono) simp
  moreover have "float_td (fint (2 ^ ?n)) = seconds_td (2 ^ ?n)" using n by (intro float_td_fint) simp
  ultimately show ?thesis
    by (auto simp: fail_call_def Let_def failure_backoff_def min_def)
qed

definition streak :: "int \<Rightarrow> (instant list \<times> 'a provider_call) list \<Rightarrow> provider_statistics \<Rightarrow> provider_statistics" where
  "streak recovery = fold (\<lambda>(ts, c). succeed recovery ts c)"

lemma streak_count: "ps_consecutive_successes (streak rc xs s) = ps_consecutive_successes s + int (length xs)"
  unfolding streak_def by (induction xs arbitrary: s) (auto simp: succeed_def Let_def)

text \<open>After as many consecutive successes as the recovery needs a provider is healthy and its
  circuit closed, whatever happened before, and one success already closes the circuit.\<close>

theorem streak_recovers:
  assumes "statistics_ok threshold recovery s" "xs \<noteq> []"
  shows "ps_backoff_until (streak recovery xs s) = None \<and> ps_last_error (streak recovery xs s) = None
    \<and> (recovery \<le> int (length xs) \<longrightarrow> ps_healthy (streak recovery xs s))"
proof -
  obtain ys ts c where xs: "xs = ys @ [(ts, c)]" using assms(2) by (metis append_butlast_last_id surj_pair)
  have "0 \<le> ps_consecutive_successes s" using assms(1) by (simp add: statistics_ok_def)
  then show ?thesis
    using streak_count [of recovery ys s] by (auto simp: xs streak_def succeed_def Let_def)
qed

subsection \<open>The hypotheses can hold\<close>

definition sample_capabilities :: capabilities where
  "sample_capabilities = \<lparr>cp_historical = True, cp_realtime_polling = True, cp_websocket_streaming = False, cp_tick_data = False,
     cp_spread = False, cp_volume = True, cp_live_quote = False, cp_economic_calendar = False, cp_supported_symbols = [''XAUUSD''],
     cp_supported_timeframes = [Tf_M5, Tf_M15], cp_maximum_history_candles = None\<rparr>"

definition sample_registry :: "(string \<times> provider) list" where
  "sample_registry = fold register_provider
     [\<lparr>pv_name = ''kraken'', pv_capabilities = sample_capabilities\<rparr>, \<lparr>pv_name = ''okx'', pv_capabilities = sample_capabilities\<rparr>] []"

definition sample_manager :: manager where
  "sample_manager = new_manager sample_registry ''okx'' 3 3"

definition sample_call :: "candle list call_outcome \<Rightarrow> candle list provider_call" where
  "sample_call x = \<lparr>pc_outcome = x, pc_wrapper_latency = fint 120, pc_last_latency_ms = Some (fint 80),
     pc_last_total_latency_ms = Some (fint 100), pc_last_retry_count = 0, pc_quota = no_quota, pc_at = seconds_td 1501\<rparr>"

definition sample_calls :: "string \<Rightarrow> candle list provider_call" where
  "sample_calls n = sample_call (if n = ''okx'' then Raised ''ProviderRateLimitedError'' ''429'' None else Returned sample_series)"

lemma sample_registry_ok: "distinct (map fst sample_registry)" "list_all (\<lambda>(k, p). pv_name p = k) sample_registry"
  by code_simp+

lemma sample_manager_ok: "manager_ok sample_manager"
  unfolding sample_manager_def using sample_registry_ok by (intro new_manager_ok) simp_all

lemma sample_rankings: "rankings sample_manager ''XAU/USD'' Tf_M5 False = Inr [''okx'', ''kraken'']"
  by code_simp

theorem manager_invariant_witness:
  "manager_ok (fst (manager_history (seconds_td 1500) sample_calls
     \<lparr>pq_symbol = ''XAU/USD'', pq_timeframe = Tf_M5, pq_start = None, pq_end = None, pq_limit = 500\<rparr> sample_manager))"
  using manager_invariant [OF manager_reachable.step [OF manager_reachable.start manager_step.history] _ _ sample_registry_ok, where pref = "''okx''" and threshold = 3 and recovery = 3]
  by (simp add: sample_manager_def)

theorem execute_fails_over_witness:
  "\<exists>m' r. execute (seconds_td 1500) sample_calls (map ck_timestamp) ''XAU/USD'' Tf_M5 False sample_manager = (m', r)
     \<and> r = Inr sample_series \<and> pm_current_provider m' = Some ''kraken''"
proof -
  obtain m' r where e: "execute (seconds_td 1500) sample_calls (map ck_timestamp) ''XAU/USD'' Tf_M5 False sample_manager = (m', r)"
    by (cases "execute (seconds_td 1500) sample_calls (map ck_timestamp) ''XAU/USD'' Tf_M5 False sample_manager")
  have "filter (live sample_manager (seconds_td 1500)) [''okx'', ''kraken''] = [''okx'', ''kraken'']" by code_simp
  then show ?thesis
    using execute_fails_over [OF sample_rankings sample_manager_ok e] e
    by (simp add: raises_def returned_def sample_calls_def sample_call_def)
qed

theorem rankings_order_witness:
  "\<exists>s s'. map_of (pm_statistics sample_manager) ''okx'' = Some s \<and> map_of (pm_statistics sample_manager) ''kraken'' = Some s'
     \<and> ps_confidence s' \<le> ps_confidence s"
proof -
  have "map_of (pm_statistics sample_manager) ''okx'' = Some (new_statistics ''okx'')"
    "map_of (pm_statistics sample_manager) ''kraken'' = Some (new_statistics ''kraken'')" by code_simp+
  then show ?thesis
    using rankings_order [OF sample_rankings, of 0 1 "new_statistics ''okx''" "new_statistics ''kraken''"]
    by (simp add: new_statistics_def)
qed

lemma sample_statistics_ok: "statistics_ok 3 3 (new_statistics ''okx'')"
  by code_simp

theorem failure_opens_circuit_witness:
  "ps_backoff_until (fail_call 3 ''ProviderRateLimitedError'' None (sample_calls ''okx'') (new_statistics ''okx'')) = Some (seconds_td 1502)"
  using failure_opens_circuit [OF sample_statistics_ok, of "''ProviderRateLimitedError''" None "sample_calls ''okx''"]
  by (simp add: new_statistics_def sample_calls_def sample_call_def seconds_td_def)

theorem streak_recovers_witness:
  "ps_healthy (streak 3 (replicate 3 ([], sample_calls ''kraken'')) (new_statistics ''okx''))"
  using streak_recovers [OF sample_statistics_ok, of "replicate 3 ([], sample_calls ''kraken'')"] by simp

end
