(* ===== verification/Market_Data_Store.thy ===== *)
theory Market_Data_Store
  imports Provider_Manager "HOL-Library.While_Combinator"
begin

text \<open>
  The stores of the market data service: the in-process candle repository
  (\<open>engines/market_data_engine/repository.py\<close>) and the cache with a bounded memory layer over
  durable files (\<open>engines/market_data_engine/cache.py\<close>).

  The directory of the cache is a map from file stems to what the file holds: an entry with its
  expiry, or a content that does not parse. An entry that is read back passes the validators of
  \<open>Candle\<close> or is discarded. An operation reads the clock once. \<open>max_entries\<close> is not negative.
\<close>

subsection \<open>The in-process repository\<close>

type_synonym series_key = "string \<times> bar_timeframe \<times> instant"

record candle_store =
  st_historical :: "(series_key \<times> candle) list"
  st_realtime :: "candle list"

definition new_candle_store :: candle_store where
  "new_candle_store = \<lparr>st_historical = [], st_realtime = []\<rparr>"

definition store_candle :: "candle \<Rightarrow> candle_store \<Rightarrow> market_data_error + candle_store" where
  "store_candle c r = bindE (canonical_symbol (ck_symbol c)) (\<lambda>s.
     Inr (r\<lparr>st_historical := AList.update (s, ck_timeframe c, ck_timestamp c) c (st_historical r)\<rparr>))"

text \<open>A candle whose symbol has no canonical form raises; the candles before it stay stored.\<close>

fun upsert_historical :: "candle list \<Rightarrow> candle_store \<Rightarrow> candle_store \<times> (market_data_error + unit)" where
  "upsert_historical [] r = (r, Inr ())"
| "upsert_historical (c # cs) r = (case store_candle c r of Inl e \<Rightarrow> (r, Inl e) | Inr r' \<Rightarrow> upsert_historical cs r')"

definition append_realtime :: "candle \<Rightarrow> candle_store \<Rightarrow> candle_store \<times> (market_data_error + unit)" where
  "append_realtime c r = upsert_historical [c] (r\<lparr>st_realtime := st_realtime r @ [c]\<rparr>)"

definition select_history :: "string \<Rightarrow> bar_timeframe \<Rightarrow> instant option \<Rightarrow> instant option \<Rightarrow> candle_store \<Rightarrow> candle list" where
  "select_history s tf start stop r = map snd (filter (\<lambda>((s', tf', _), c). s' = s \<and> tf' = tf \<and> within_window start stop c) (st_historical r))"

definition stored_history :: "string \<Rightarrow> bar_timeframe \<Rightarrow> instant option \<Rightarrow> instant option \<Rightarrow> int \<Rightarrow> candle_store
    \<Rightarrow> market_data_error + candle list" where
  "stored_history symbol tf start stop limit r = bindE (canonical_symbol symbol) (\<lambda>s.
     Inr (last_n limit (sort_key ck_timestamp (select_history s tf start stop r))))"

definition candle_at :: "string \<Rightarrow> bar_timeframe \<Rightarrow> instant \<Rightarrow> candle_store \<Rightarrow> market_data_error + candle option" where
  "candle_at symbol tf t r = bindE (stored_history symbol tf None (Some t) 1 r) (\<lambda>cs.
     Inr (if cs = [] then None else Some (last cs)))"

definition candle_count :: "string \<Rightarrow> bar_timeframe \<Rightarrow> candle_store \<Rightarrow> market_data_error + nat" where
  "candle_count symbol tf r = bindE (canonical_symbol symbol) (\<lambda>s.
     Inr (length (filter (\<lambda>((s', tf', _), _). s' = s \<and> tf' = tf) (st_historical r))))"

subsection \<open>The cache\<close>

record cache_statistics =
  ca_hits :: int
  ca_misses :: int
  ca_writes :: int
  ca_evictions :: int
  ca_invalidations :: int
  ca_last_read_at :: "instant option"
  ca_last_write_at :: "instant option"

type_synonym cache_entry = "instant \<times> candle list"

datatype cache_file = Cached cache_entry | Unreadable

record market_cache =
  mc_files :: "(string \<times> cache_file) list"
  mc_max_entries :: int
  mc_statistics :: cache_statistics
  mc_memory :: "(string \<times> cache_entry) list"

definition new_cache :: "(string \<times> cache_file) list \<Rightarrow> int \<Rightarrow> market_cache" where
  "new_cache files n = \<lparr>mc_files = files, mc_max_entries = n,
     mc_statistics = \<lparr>ca_hits = 0, ca_misses = 0, ca_writes = 0, ca_evictions = 0, ca_invalidations = 0,
       ca_last_read_at = None, ca_last_write_at = None\<rparr>, mc_memory = []\<rparr>"

definition hit_ratio :: "cache_statistics \<Rightarrow> f64" where
  "hit_ratio s = (if ca_hits s + ca_misses s = 0 then 0 else int_truediv (ca_hits s) (ca_hits s + ca_misses s))"

definition safe_name :: "string \<Rightarrow> string" where
  "safe_name key = map (\<lambda>c. if is_alnum c then c else CHR ''_'') key"

definition starts_with :: "string \<Rightarrow> string \<Rightarrow> bool" where
  "starts_with p s \<longleftrightarrow> take (length p) s = p"

text \<open>\<open>move_to_end\<close> and the loop that pops the oldest entries.\<close>

definition to_end :: "string \<Rightarrow> cache_entry \<Rightarrow> (string \<times> cache_entry) list \<Rightarrow> (string \<times> cache_entry) list" where
  "to_end k v m = AList.delete k m @ [(k, v)]"

fun evict :: "int \<Rightarrow> (string \<times> cache_entry) list \<Rightarrow> int \<Rightarrow> (string \<times> cache_entry) list \<times> int" where
  "evict cap [] n = ([], n)"
| "evict cap (x # xs) n = (if cap < int (length (x # xs)) then evict cap xs (n + 1) else (x # xs, n))"

definition store_memory :: "string \<Rightarrow> cache_entry \<Rightarrow> market_cache \<Rightarrow> market_cache" where
  "store_memory k v c =
     (let (m, n) = evict (mc_max_entries c) (to_end k v (mc_memory c)) (ca_evictions (mc_statistics c))
      in c\<lparr>mc_memory := m, mc_statistics := (mc_statistics c)\<lparr>ca_evictions := n\<rparr>\<rparr>)"

definition hit :: "market_cache \<Rightarrow> market_cache" where
  "hit c = c\<lparr>mc_statistics := (mc_statistics c)\<lparr>ca_hits := ca_hits (mc_statistics c) + 1\<rparr>\<rparr>"

definition miss :: "market_cache \<Rightarrow> market_cache" where
  "miss c = c\<lparr>mc_statistics := (mc_statistics c)\<lparr>ca_misses := ca_misses (mc_statistics c) + 1\<rparr>\<rparr>"

definition unlink :: "string \<Rightarrow> market_cache \<Rightarrow> market_cache" where
  "unlink k c = c\<lparr>mc_files := AList.delete (safe_name k) (mc_files c)\<rparr>"

definition read_file :: "instant \<Rightarrow> string \<Rightarrow> market_cache \<Rightarrow> market_cache \<times> candle list option" where
  "read_file now k c = (case map_of (mc_files c) (safe_name k) of
     None \<Rightarrow> (miss c, None)
   | Some Unreadable \<Rightarrow> (miss (unlink k c), None)
   | Some (Cached (expires, cs)) \<Rightarrow>
       if now < expires then
         (if list_all candle_ok cs then (hit (store_memory k (expires, cs) c), Some cs) else (miss (unlink k c), None))
       else (miss (unlink k c), None))"

definition cache_get :: "instant \<Rightarrow> string \<Rightarrow> market_cache \<Rightarrow> market_cache \<times> candle list option" where
  "cache_get now k c0 =
     (let c = c0\<lparr>mc_statistics := (mc_statistics c0)\<lparr>ca_last_read_at := Some now\<rparr>\<rparr>
      in case map_of (mc_memory c) k of
           Some (expires, cs) \<Rightarrow>
             if now < expires then (hit (c\<lparr>mc_memory := to_end k (expires, cs) (mc_memory c)\<rparr>), Some cs)
             else read_file now k (c\<lparr>mc_memory := AList.delete k (mc_memory c)\<rparr>)
         | None \<Rightarrow> read_file now k c)"

definition cache_set :: "instant \<Rightarrow> string \<Rightarrow> candle list \<Rightarrow> int \<Rightarrow> market_cache \<Rightarrow> market_cache" where
  "cache_set now k cs ttl c0 =
     (let e = (now + seconds_td ttl, cs); c = store_memory k e c0
      in c\<lparr>mc_files := AList.update (safe_name k) (Cached e) (mc_files c),
           mc_statistics := (mc_statistics c)\<lparr>ca_writes := ca_writes (mc_statistics c) + 1, ca_last_write_at := Some now\<rparr>\<rparr>)"

definition cache_invalidate :: "string \<Rightarrow> market_cache \<Rightarrow> market_cache" where
  "cache_invalidate p c =
     c\<lparr>mc_memory := filter (\<lambda>(k, _). \<not> starts_with p k) (mc_memory c),
       mc_files := filter (\<lambda>(n, _). \<not> (p = [] \<or> starts_with (safe_name p) n)) (mc_files c),
       mc_statistics := (mc_statistics c)\<lparr>ca_invalidations := ca_invalidations (mc_statistics c) + 1\<rparr>\<rparr>"

text \<open>\<open>metrics\<close>: entries, capacity, evictions, hits, misses and the hit ratio.\<close>

definition cache_metrics :: "market_cache \<Rightarrow> int list \<times> f64" where
  "cache_metrics c = (let s = mc_statistics c
     in ([int (length (mc_memory c)), mc_max_entries c, ca_evictions s, ca_hits s, ca_misses s], hit_ratio s))"


subsection \<open>The memory layer\<close>

lemma evict_eq: "0 \<le> cap \<Longrightarrow> evict cap xs n = (drop (length xs - nat cap) xs, n + int (length xs - nat cap))"
proof (induction xs arbitrary: n)
  case (Cons x xs)
  then show ?case
    by (cases "cap < int (length (x # xs))") (auto simp: Suc_diff_le nat_le_iff not_less)
qed simp

lemma to_end_simps [simp]:
  "map_of (to_end k v m) x = (if x = k then Some v else map_of m x)"
  "distinct (map fst m) \<Longrightarrow> distinct (map fst (to_end k v m))"
proof -
  show "map_of (to_end k v m) x = (if x = k then Some v else map_of m x)"
    by (auto simp: to_end_def map_add_def delete_conv' split: option.split)
  have "k \<notin> fst ` set (AList.delete k m)" by (auto simp: AList.delete_eq)
  then show "distinct (map fst m) \<Longrightarrow> distinct (map fst (to_end k v m))"
    by (simp add: to_end_def distinct_delete)
qed

lemma map_of_drop: "distinct (map fst m) \<Longrightarrow> map_of (drop i m) x = Some v \<Longrightarrow> map_of m x = Some v"
  by (metis distinct_map map_of_SomeD map_of_is_SomeI in_set_dropD)

lemma map_of_filter_keys: "map_of (filter (\<lambda>(k, _). P k) m) x = (if P x then map_of m x else None)"
  by (induction m) auto

definition memory_ok :: "market_cache \<Rightarrow> bool" where
  "memory_ok c \<longleftrightarrow> 0 \<le> mc_max_entries c \<and> distinct (map fst (mc_memory c))
     \<and> int (length (mc_memory c)) \<le> mc_max_entries c"

lemma store_memory_ok:
  assumes "memory_ok c"
  shows "memory_ok (store_memory k v c)" "mc_files (store_memory k v c) = mc_files c"
    "mc_max_entries (store_memory k v c) = mc_max_entries c"
    "map_of (mc_memory (store_memory k v c)) x = Some w \<Longrightarrow> (if x = k then w = v else map_of (mc_memory c) x = Some w)"
proof -
  let ?m = "to_end k v (mc_memory c)"
  let ?i = "length ?m - nat (mc_max_entries c)"
  have s: "mc_memory (store_memory k v c) = drop ?i ?m" "mc_files (store_memory k v c) = mc_files c"
    "mc_max_entries (store_memory k v c) = mc_max_entries c"
    using assms by (simp_all add: store_memory_def evict_eq memory_ok_def)
  have d: "distinct (map fst ?m)" using assms by (simp add: memory_ok_def)
  then have "distinct (map fst (drop ?i ?m))" by (simp add: drop_map [symmetric])
  moreover have "int (length (drop ?i ?m)) \<le> mc_max_entries c" using assms by (auto simp: memory_ok_def)
  ultimately show "memory_ok (store_memory k v c)" using assms by (simp add: memory_ok_def s)
  show "mc_files (store_memory k v c) = mc_files c" "mc_max_entries (store_memory k v c) = mc_max_entries c" by (fact s)+
  assume "map_of (mc_memory (store_memory k v c)) x = Some w"
  then have "map_of ?m x = Some w" using map_of_drop [OF d] by (simp add: s)
  then show "if x = k then w = v else map_of (mc_memory c) x = Some w" by (auto split: if_split_asm)
qed

lemma memory_ok_fields [simp]:
  "memory_ok (c\<lparr>mc_statistics := s\<rparr>) = memory_ok c" "memory_ok (c\<lparr>mc_files := f\<rparr>) = memory_ok c"
  "memory_ok (hit c) = memory_ok c" "memory_ok (miss c) = memory_ok c" "memory_ok (unlink k c) = memory_ok c"
  by (simp_all add: memory_ok_def hit_def miss_def unlink_def)

lemma length_delete_alist: "length (AList.delete k m) \<le> length m"
  by (simp add: AList.delete_eq)

lemma memory_ok_delete: "memory_ok c \<Longrightarrow> memory_ok (c\<lparr>mc_memory := AList.delete k (mc_memory c)\<rparr>)"
  using length_delete_alist [of k "mc_memory c"] by (auto simp: memory_ok_def distinct_delete)

lemma memory_ok_touch:
  assumes "memory_ok c" "map_of (mc_memory c) k = Some v"
  shows "memory_ok (c\<lparr>mc_memory := to_end k v (mc_memory c)\<rparr>)"
proof -
  have "length (AList.delete k m) < length m" if "map_of m k = Some v" for m :: "(string \<times> cache_entry) list"
    using that by (induction m) (auto simp: less_Suc_eq_le length_delete_alist split: if_split_asm)
  then have "length (to_end k v (mc_memory c)) \<le> length (mc_memory c)" using assms(2) by (simp add: to_end_def Suc_leI)
  then show ?thesis using assms(1) by (auto simp: memory_ok_def)
qed

lemma read_file_ok: "memory_ok c \<Longrightarrow> memory_ok (fst (read_file now k c))"
  using store_memory_ok(1) by (auto simp: read_file_def split: option.split cache_file.split)

lemma cache_get_ok: "memory_ok c \<Longrightarrow> memory_ok (fst (cache_get now k c))"
  using memory_ok_delete [of "c\<lparr>mc_statistics := (mc_statistics c)\<lparr>ca_last_read_at := Some now\<rparr>\<rparr>" k]
    memory_ok_touch [of "c\<lparr>mc_statistics := (mc_statistics c)\<lparr>ca_last_read_at := Some now\<rparr>\<rparr>" k]
  by (auto simp: cache_get_def Let_def intro!: read_file_ok split: option.split)

lemma cache_set_ok: "memory_ok c \<Longrightarrow> memory_ok (cache_set now k cs ttl c)"
  using store_memory_ok(1) by (simp add: cache_set_def Let_def)

lemma cache_invalidate_ok: "memory_ok c \<Longrightarrow> memory_ok (cache_invalidate p c)"
proof -
  assume m: "memory_ok c"
  have "length (mc_memory (cache_invalidate p c)) \<le> length (mc_memory c)"
    "distinct (map fst (mc_memory (cache_invalidate p c)))" "mc_max_entries (cache_invalidate p c) = mc_max_entries c"
    using m by (simp_all add: cache_invalidate_def memory_ok_def distinct_map_filter)
  then show ?thesis using m unfolding memory_ok_def by linarith
qed

subsection \<open>The cache refines a map with expiry\<close>

text \<open>The specification: a map from keys to entries; an entry is served until it expires.\<close>

type_synonym expiring_map = "string \<Rightarrow> cache_entry option"

definition spec_get :: "instant \<Rightarrow> string \<Rightarrow> expiring_map \<Rightarrow> candle list option" where
  "spec_get now k a = (case a k of Some (e, cs) \<Rightarrow> if now < e then Some cs else None | None \<Rightarrow> None)"

definition spec_set :: "instant \<Rightarrow> string \<Rightarrow> candle list \<Rightarrow> int \<Rightarrow> expiring_map \<Rightarrow> expiring_map" where
  "spec_set now k cs ttl a = a(k \<mapsto> (now + seconds_td ttl, cs))"

definition spec_invalidate :: "string \<Rightarrow> expiring_map \<Rightarrow> expiring_map" where
  "spec_invalidate p a = (\<lambda>k. if starts_with p k then None else a k)"

datatype cache_op = Get_Op instant string | Set_Op instant string "candle list" int | Invalidate_Op string

fun op_time :: "cache_op \<Rightarrow> instant option" where
  "op_time (Get_Op now _) = Some now"
| "op_time (Set_Op now _ _ _) = Some now"
| "op_time (Invalidate_Op _) = None"

fun run_cache :: "cache_op list \<Rightarrow> market_cache \<Rightarrow> candle list option list" where
  "run_cache [] c = []"
| "run_cache (Get_Op now k # ops) c = snd (cache_get now k c) # run_cache ops (fst (cache_get now k c))"
| "run_cache (Set_Op now k cs ttl # ops) c = run_cache ops (cache_set now k cs ttl c)"
| "run_cache (Invalidate_Op p # ops) c = run_cache ops (cache_invalidate p c)"

fun run_spec :: "cache_op list \<Rightarrow> expiring_map \<Rightarrow> candle list option list" where
  "run_spec [] a = []"
| "run_spec (Get_Op now k # ops) a = spec_get now k a # run_spec ops a"
| "run_spec (Set_Op now k cs ttl # ops) a = run_spec ops (spec_set now k cs ttl a)"
| "run_spec (Invalidate_Op p # ops) a = run_spec ops (spec_invalidate p a)"

text \<open>The keys in use: file names tell them apart, and the prefixes to invalidate too.\<close>

definition op_ok :: "string list \<Rightarrow> cache_op \<Rightarrow> bool" where
  "op_ok ks x = (case x of Get_Op _ k \<Rightarrow> k \<in> set ks
     | Set_Op _ k cs _ \<Rightarrow> k \<in> set ks \<and> list_all candle_ok cs
     | Invalidate_Op p \<Rightarrow> list_all (\<lambda>k. starts_with (safe_name p) (safe_name k) = starts_with p k) ks)"

text \<open>Entries of the specification that have expired may be gone from the cache.\<close>

definition backed :: "string list \<Rightarrow> market_cache \<Rightarrow> bool" where
  "backed ks c \<longleftrightarrow> (\<forall>k v. map_of (mc_memory c) k = Some v \<longrightarrow> k \<in> set ks \<and> list_all candle_ok (snd v)
      \<and> map_of (mc_files c) (safe_name k) = Some (Cached v))"

definition shows_file :: "instant \<Rightarrow> cache_file option \<Rightarrow> cache_entry option \<Rightarrow> bool" where
  "shows_file t f x \<longleftrightarrow> (case f of
     Some (Cached v) \<Rightarrow> x = (if list_all candle_ok (snd v) then Some v else None)
   | _ \<Rightarrow> opt_all (\<lambda>v. fst v \<le> t) x)"

definition represents :: "string list \<Rightarrow> instant \<Rightarrow> market_cache \<Rightarrow> expiring_map \<Rightarrow> bool" where
  "represents ks t c a \<longleftrightarrow> memory_ok c \<and> backed ks c
     \<and> (\<forall>k \<in> set ks. shows_file t (map_of (mc_files c) (safe_name k)) (a k))"

lemma representsD:
  assumes "represents ks t c a"
  shows "memory_ok c" "backed ks c" "k \<in> set ks \<Longrightarrow> shows_file t (map_of (mc_files c) (safe_name k)) (a k)"
  using assms by (auto simp: represents_def)

lemma backedD:
  assumes "backed ks c" "map_of (mc_memory c) k = Some v"
  shows "k \<in> set ks" "list_all candle_ok (snd v)" "map_of (mc_files c) (safe_name k) = Some (Cached v)"
  using assms unfolding backed_def by blast+

lemma represents_later: "represents ks t c a \<Longrightarrow> t \<le> u \<Longrightarrow> represents ks u c a"
  unfolding represents_def shows_file_def by (fastforce split: option.splits cache_file.splits)

lemma represents_statistics [simp]: "represents ks t (c\<lparr>mc_statistics := s\<rparr>) a = represents ks t c a"
  "represents ks t (hit c) a = represents ks t c a" "represents ks t (miss c) a = represents ks t c a"
  by (simp_all add: represents_def backed_def hit_def miss_def)

lemma represents_memory:
  assumes "represents ks t c a" "memory_ok d" "mc_files d = mc_files c"
    "\<And>k v. map_of (mc_memory d) k = Some v \<Longrightarrow> map_of (mc_memory c) k = Some v"
  shows "represents ks t d a"
  using assms unfolding represents_def backed_def by metis

lemma unlink_files [simp]: "mc_memory (unlink k c) = mc_memory c"
  "map_of (mc_files (unlink k c)) n = (if n = safe_name k then None else map_of (mc_files c) n)"
  by (simp_all add: unlink_def delete_conv')

lemma represents_unlink:
  assumes r: "represents ks t c a" "k \<in> set ks" "map_of (mc_memory c) k = None" "inj_on safe_name (set ks)"
    and gone: "opt_all (\<lambda>v. fst v \<le> t) (a k)"
  shows "represents ks t (unlink k c) a"
proof -
  have inj: "safe_name x = safe_name k \<longleftrightarrow> x = k" if "x \<in> set ks" for x using r(2,4) that by (meson inj_onD)
  have "backed ks (unlink k c)"
    unfolding backed_def
  proof (intro allI impI)
    fix x v assume "map_of (mc_memory (unlink k c)) x = Some v"
    then have x: "map_of (mc_memory c) x = Some v" by simp
    then have "x \<noteq> k" using r(3) by auto
    then show "x \<in> set ks \<and> list_all candle_ok (snd v) \<and> map_of (mc_files (unlink k c)) (safe_name x) = Some (Cached v)"
      using backedD [OF representsD(2) [OF r(1)] x] inj by simp
  qed
  moreover have "shows_file t (map_of (mc_files (unlink k c)) (safe_name x)) (a x)" if "x \<in> set ks" for x
    using that representsD(3) [OF r(1) that] gone inj by (auto simp: shows_file_def)
  ultimately show ?thesis using representsD(1) [OF r(1)] by (simp add: represents_def)
qed

lemma represents_load:
  assumes r: "represents ks t c a" "k \<in> set ks" "map_of (mc_files c) (safe_name k) = Some (Cached v)" "list_all candle_ok (snd v)"
  shows "represents ks t (store_memory k v c) a"
proof -
  note s = store_memory_ok [OF representsD(1) [OF r(1)], of k v]
  have "backed ks (store_memory k v c)"
    unfolding backed_def
  proof (intro allI impI)
    fix x w assume "map_of (mc_memory (store_memory k v c)) x = Some w"
    from s(4) [OF this] show "x \<in> set ks \<and> list_all candle_ok (snd w) \<and> map_of (mc_files (store_memory k v c)) (safe_name x) = Some (Cached w)"
      using r(2-4) s(2) backedD [OF representsD(2) [OF r(1)], of x w] by (auto split: if_split_asm)
  qed
  then show ?thesis using s representsD [OF r(1)] by (simp add: represents_def)
qed

lemma represents_read:
  assumes r: "represents ks t c a" "k \<in> set ks" "map_of (mc_memory c) k = None" "inj_on safe_name (set ks)"
  shows "represents ks t (fst (read_file t k c)) a \<and> snd (read_file t k c) = spec_get t k a"
proof -
  note f = representsD(3) [OF r(1,2)]
  show ?thesis
  proof (cases "\<exists>v. map_of (mc_files c) (safe_name k) = Some (Cached v) \<and> t < fst v \<and> list_all candle_ok (snd v)")
    case True
    then obtain e cs where v: "map_of (mc_files c) (safe_name k) = Some (Cached (e, cs))" "t < e" "list_all candle_ok cs" by force
    then have "a k = Some (e, cs)" using f by (simp add: shows_file_def)
    then show ?thesis using represents_load [OF r(1,2) v(1)] v by (simp add: read_file_def spec_get_def)
  next
    case False
    then have "opt_all (\<lambda>v. fst v \<le> t) (a k)"
      using f by (cases "map_of (mc_files c) (safe_name k)") (auto simp: shows_file_def split: cache_file.split_asm if_split_asm)
    moreover from this have "spec_get t k a = None" by (auto simp: spec_get_def split: option.split)
    moreover have "read_file t k c = (miss c, None) \<or> read_file t k c = (miss (unlink k c), None)"
      using False by (auto simp: read_file_def split: option.split cache_file.split)
    ultimately show ?thesis using represents_unlink [OF r] r(1) by auto
  qed
qed

lemma represents_get:
  assumes r: "represents ks t c a" "k \<in> set ks" "inj_on safe_name (set ks)"
  shows "represents ks t (fst (cache_get t k c)) a \<and> snd (cache_get t k c) = spec_get t k a"
proof -
  define c' where "c' = c\<lparr>mc_statistics := (mc_statistics c)\<lparr>ca_last_read_at := Some t\<rparr>\<rparr>"
  have r': "represents ks t c' a" using r by (simp add: c'_def)
  note m = representsD(1,2) [OF r']
  have get: "cache_get t k c = (case map_of (mc_memory c') k of
      Some (e, cs) \<Rightarrow> if t < e then (hit (c'\<lparr>mc_memory := to_end k (e, cs) (mc_memory c')\<rparr>), Some cs)
        else read_file t k (c'\<lparr>mc_memory := AList.delete k (mc_memory c')\<rparr>)
    | None \<Rightarrow> read_file t k c')"
    unfolding cache_get_def Let_def c'_def by (rule refl)
  show ?thesis
  proof (cases "map_of (mc_memory c') k")
    case None
    then show ?thesis using represents_read [OF r' r(2) None r(3)] by (simp add: get)
  next
    case (Some v)
    obtain e cs where v: "v = (e, cs)" by force
    have a: "a k = Some v" using representsD(3) [OF r' r(2)] backedD [OF m(2) Some] by (simp add: shows_file_def)
    show ?thesis
    proof (cases "t < e")
      case True
      have "represents ks t (c'\<lparr>mc_memory := to_end k v (mc_memory c')\<rparr>) a"
        using memory_ok_touch [OF m(1) Some] Some by (intro represents_memory [OF r']) (auto split: if_split_asm)
      then show ?thesis using Some True a by (simp add: get v spec_get_def)
    next
      case False
      let ?d = "c'\<lparr>mc_memory := AList.delete k (mc_memory c')\<rparr>"
      have "represents ks t ?d a"
        using memory_ok_delete [OF m(1), of k] by (intro represents_memory [OF r']) (auto simp: delete_conv' split: if_split_asm)
      moreover have "map_of (mc_memory ?d) k = None" by (simp add: delete_conv')
      ultimately show ?thesis
        using represents_read [of ks t ?d a k] r(2,3) Some False by (simp add: get v)
    qed
  qed
qed

lemma represents_set:
  assumes r: "represents ks t c a" "k \<in> set ks" "list_all candle_ok cs" "inj_on safe_name (set ks)"
  shows "represents ks t (cache_set t k cs ttl c) (spec_set t k cs ttl a)"
proof -
  let ?v = "(t + seconds_td ttl, cs)" and ?c = "cache_set t k cs ttl c"
  have inj: "safe_name x = safe_name k \<longleftrightarrow> x = k" if "x \<in> set ks" for x using r(2,4) that by (meson inj_onD)
  note s = store_memory_ok [OF representsD(1) [OF r(1)], of k ?v]
  have files: "map_of (mc_files ?c) n = (if n = safe_name k then Some (Cached ?v) else map_of (mc_files c) n)" for n
    using s(2) by (simp add: cache_set_def Let_def update_conv')
  have "backed ks ?c"
    unfolding backed_def
  proof (intro allI impI)
    fix x w assume "map_of (mc_memory ?c) x = Some w"
    then have "map_of (mc_memory (store_memory k ?v c)) x = Some w" by (simp add: cache_set_def Let_def)
    from s(4) [OF this] show "x \<in> set ks \<and> list_all candle_ok (snd w) \<and> map_of (mc_files ?c) (safe_name x) = Some (Cached w)"
      using r(2,3) inj [of x] backedD [OF representsD(2) [OF r(1)], of x w] by (auto simp: files split: if_split_asm)
  qed
  moreover have "shows_file t (map_of (mc_files ?c) (safe_name x)) (spec_set t k cs ttl a x)" if "x \<in> set ks" for x
    using that r(3) inj representsD(3) [OF r(1) that] by (auto simp: files spec_set_def shows_file_def)
  ultimately show ?thesis using cache_set_ok [OF representsD(1) [OF r(1)]] by (simp add: represents_def)
qed

lemma represents_invalidate:
  assumes r: "represents ks t c a" "op_ok ks (Invalidate_Op p)"
  shows "represents ks t (cache_invalidate p c) (spec_invalidate p a)"
proof -
  have s: "(p = [] \<or> starts_with (safe_name p) (safe_name k)) = starts_with p k" if "k \<in> set ks" for k
  proof -
    have "starts_with (safe_name p) (safe_name k) = starts_with p k" using r(2) that by (simp add: op_ok_def list_all_iff)
    moreover have "p = [] \<Longrightarrow> starts_with p k" by (simp add: starts_with_def)
    ultimately show ?thesis by blast
  qed
  have files: "map_of (mc_files (cache_invalidate p c)) (safe_name k) = (if starts_with p k then None else map_of (mc_files c) (safe_name k))"
    if "k \<in> set ks" for k
  proof -
    have "mc_files (cache_invalidate p c) = filter (\<lambda>(n, _). \<not> (p = [] \<or> starts_with (safe_name p) n)) (mc_files c)"
      by (simp add: cache_invalidate_def)
    then show ?thesis using s [OF that] by (simp only: map_of_filter_keys) simp
  qed
  have mem: "map_of (mc_memory (cache_invalidate p c)) k = (if starts_with p k then None else map_of (mc_memory c) k)" for k
    by (simp add: cache_invalidate_def map_of_filter_keys)
  have "backed ks (cache_invalidate p c)"
    unfolding backed_def
  proof (intro allI impI)
    fix x w assume "map_of (mc_memory (cache_invalidate p c)) x = Some w"
    then have x: "\<not> starts_with p x" "map_of (mc_memory c) x = Some w" by (simp_all add: mem split: if_split_asm)
    then show "x \<in> set ks \<and> list_all candle_ok (snd w) \<and> map_of (mc_files (cache_invalidate p c)) (safe_name x) = Some (Cached w)"
      using backedD [OF representsD(2) [OF r(1)] x(2)] by (simp add: files)
  qed
  moreover have "shows_file t (map_of (mc_files (cache_invalidate p c)) (safe_name x)) (spec_invalidate p a x)" if "x \<in> set ks" for x
    using that representsD(3) [OF r(1) that] by (auto simp: files spec_invalidate_def shows_file_def)
  ultimately show ?thesis using cache_invalidate_ok [OF representsD(1) [OF r(1)]] by (simp add: represents_def)
qed

lemma run_refines:
  "represents ks t c a \<Longrightarrow> list_all (op_ok ks) ops \<Longrightarrow> sorted (t # List.map_filter op_time ops)
    \<Longrightarrow> inj_on safe_name (set ks) \<Longrightarrow> run_cache ops c = run_spec ops a"
proof (induction ops arbitrary: t c a)
  case (Cons x ops)
  show ?case
  proof (cases x)
    case (Get_Op now k)
    then have "represents ks now c a" "k \<in> set ks" using Cons.prems represents_later by (auto simp: op_ok_def map_filter_simps)
    from represents_get [OF this Cons.prems(4)] show ?thesis
      using Cons.IH Cons.prems Get_Op by (auto simp: map_filter_simps)
  next
    case (Set_Op now k cs ttl)
    then have "represents ks now c a" "k \<in> set ks" "list_all candle_ok cs"
      using Cons.prems represents_later by (auto simp: op_ok_def map_filter_simps)
    from represents_set [OF this Cons.prems(4)] show ?thesis
      using Cons.IH Cons.prems Set_Op by (auto simp: map_filter_simps)
  next
    case (Invalidate_Op p)
    then have "represents ks t (cache_invalidate p c) (spec_invalidate p a)"
      using Cons.prems represents_invalidate by simp
    then show ?thesis using Cons.IH Cons.prems Invalidate_Op by (auto simp: map_filter_simps)
  qed
qed simp


text \<open>The states after a sequence of operations.\<close>

fun exec_op :: "cache_op \<Rightarrow> market_cache \<Rightarrow> market_cache" where
  "exec_op (Get_Op now k) c = fst (cache_get now k c)"
| "exec_op (Set_Op now k cs ttl) c = cache_set now k cs ttl c"
| "exec_op (Invalidate_Op p) c = cache_invalidate p c"

fun spec_op :: "cache_op \<Rightarrow> expiring_map \<Rightarrow> expiring_map" where
  "spec_op (Get_Op now k) a = a"
| "spec_op (Set_Op now k cs ttl) a = spec_set now k cs ttl a"
| "spec_op (Invalidate_Op p) a = spec_invalidate p a"

definition latest_time :: "instant \<Rightarrow> cache_op \<Rightarrow> instant" where
  "latest_time t x = (case op_time x of None \<Rightarrow> t | Some u \<Rightarrow> u)"

definition in_order :: "instant \<Rightarrow> cache_op list \<Rightarrow> bool" where
  "in_order t ops \<longleftrightarrow> sorted (t # List.map_filter op_time ops)"

lemma in_order_Cons: "in_order t (x # ops) \<longleftrightarrow> t \<le> latest_time t x \<and> in_order (latest_time t x) ops"
  by (cases x) (auto simp: in_order_def latest_time_def map_filter_simps)

lemma represents_op:
  assumes "represents ks t c a" "op_ok ks x" "inj_on safe_name (set ks)" "t \<le> latest_time t x"
  shows "represents ks (latest_time t x) (exec_op x c) (spec_op x a)"
  using assms represents_later [OF assms(1,4)] represents_get represents_set represents_invalidate
  by (cases x) (auto simp: op_ok_def latest_time_def)

lemma represents_ops:
  "represents ks t c a \<Longrightarrow> list_all (op_ok ks) ops \<Longrightarrow> inj_on safe_name (set ks) \<Longrightarrow> in_order t ops
    \<Longrightarrow> represents ks (fold (\<lambda>x t. latest_time t x) ops t) (fold exec_op ops c) (fold spec_op ops a)"
  by (induction ops arbitrary: t c a) (simp_all add: represents_op in_order_Cons)

text \<open>A cache that has just been opened on a directory shows the entries that parse.\<close>

definition shown_files :: "(string \<times> cache_file) list \<Rightarrow> expiring_map" where
  "shown_files files k = (case map_of files (safe_name k) of
     Some (Cached v) \<Rightarrow> if list_all candle_ok (snd v) then Some v else None | _ \<Rightarrow> None)"

lemma represents_new: "0 \<le> n \<Longrightarrow> represents ks t (new_cache files n) (shown_files files)"
  by (simp add: represents_def memory_ok_def backed_def new_cache_def shows_file_def shown_files_def
      split: option.split cache_file.split)

subsection \<open>A store with expiry\<close>

text \<open>The contract a client of the cache relies on: \<open>rep ks t s a\<close> says that at time \<open>t\<close> the store \<open>s\<close> stands
  for the map \<open>a\<close> on the keys \<open>ks\<close>.\<close>

locale expiring_store =
  fixes rep :: "'k list \<Rightarrow> instant \<Rightarrow> 's \<Rightarrow> ('k \<Rightarrow> (instant \<times> 'v) option) \<Rightarrow> bool"
    and get :: "instant \<Rightarrow> 'k \<Rightarrow> 's \<Rightarrow> 's \<times> 'v option"
    and put :: "instant \<Rightarrow> 'k \<Rightarrow> 'v \<Rightarrow> int \<Rightarrow> 's \<Rightarrow> 's"
    and admits :: "'v \<Rightarrow> bool"
  assumes later: "rep ks t s a \<Longrightarrow> t \<le> u \<Longrightarrow> rep ks u s a"
    and get_rep: "rep ks t s a \<Longrightarrow> k \<in> set ks \<Longrightarrow> rep ks t (fst (get t k s)) a"
    and get_value: "rep ks t s a \<Longrightarrow> k \<in> set ks
      \<Longrightarrow> snd (get t k s) = (case a k of Some (e, v) \<Rightarrow> if t < e then Some v else None | None \<Rightarrow> None)"
    and put_rep: "rep ks t s a \<Longrightarrow> k \<in> set ks \<Longrightarrow> admits v
      \<Longrightarrow> rep ks t (put t k v ttl s) (a(k \<mapsto> (t + seconds_td ttl, v)))"
begin

lemma put_get:
  assumes "rep ks t s a" "k \<in> set ks" "admits v" "t \<le> u"
  shows "snd (get u k (put t k v ttl s)) = (if u < t + seconds_td ttl then Some v else None)"
  using get_value [OF later [OF put_rep [OF assms(1-3)] assms(4)] assms(2)] by simp

lemma put_get_other:
  assumes "rep ks t s a" "k \<in> set ks" "k' \<in> set ks" "k' \<noteq> k" "admits v" "t \<le> u"
  shows "snd (get u k' (put t k v ttl s)) = snd (get u k' s)"
  using get_value [OF later [OF put_rep [OF assms(1,2,5)] assms(6)] assms(3)]
    get_value [OF later [OF assms(1,6)] assms(3)] assms(4) by simp

lemma get_get:
  assumes "rep ks t s a" "k \<in> set ks" "k' \<in> set ks" "t \<le> u"
  shows "snd (get u k' (fst (get t k s))) = snd (get u k' s)"
  using get_value [OF later [OF get_rep [OF assms(1,2)] assms(4)] assms(3)] get_value [OF later [OF assms(1,4)] assms(3)] by simp

end

interpretation mc: expiring_store "\<lambda>ks t c a. inj_on safe_name (set ks) \<and> represents ks t c a"
  cache_get cache_set "list_all candle_ok"
proof unfold_locales
  show "inj_on safe_name (set ks) \<and> represents ks t s a \<Longrightarrow> t \<le> u \<Longrightarrow> inj_on safe_name (set ks) \<and> represents ks u s a"
    for ks t s a u using represents_later by blast
  show "inj_on safe_name (set ks) \<and> represents ks t s a \<Longrightarrow> k \<in> set ks
      \<Longrightarrow> inj_on safe_name (set ks) \<and> represents ks t (fst (cache_get t k s)) a" for ks t s a k
    using represents_get by blast
  show "inj_on safe_name (set ks) \<and> represents ks t s a \<Longrightarrow> k \<in> set ks
      \<Longrightarrow> snd (cache_get t k s) = (case a k of Some (e, v) \<Rightarrow> if t < e then Some v else None | None \<Rightarrow> None)" for ks t s a k
    using represents_get unfolding spec_get_def by blast
  show "inj_on safe_name (set ks) \<and> represents ks t s a \<Longrightarrow> k \<in> set ks \<Longrightarrow> list_all candle_ok v
      \<Longrightarrow> inj_on safe_name (set ks) \<and> represents ks t (cache_set t k v ttl s) (a(k \<mapsto> (t + seconds_td ttl, v)))"
    for ks t s a k v ttl using represents_set unfolding spec_set_def by blast
qed

lemma cache_simulates:
  assumes "0 \<le> n" "inj_on safe_name (set ks)" "list_all (op_ok ks) ops" "in_order t ops"
  shows "run_cache ops (new_cache files n) = run_spec ops (shown_files files)"
    and "int (length (mc_memory (fold exec_op ops (new_cache files n)))) \<le> n"
proof -
  note r = represents_new [OF assms(1), of ks t files]
  show "run_cache ops (new_cache files n) = run_spec ops (shown_files files)"
    using run_refines [OF r assms(3)] assms(2,4) by (simp add: in_order_def)
  have "mc_max_entries (exec_op x c) = mc_max_entries c" if "memory_ok c" for x c
  proof -
    have rf: "mc_max_entries (fst (read_file u k d)) = mc_max_entries d" if "memory_ok d" for u k d
      using store_memory_ok(3) [OF that] by (auto simp: read_file_def hit_def miss_def unlink_def split: option.split cache_file.split)
    show ?thesis
      using that memory_ok_delete [of "c\<lparr>mc_statistics := s\<rparr>" for s]
      by (cases x) (auto simp: cache_get_def Let_def rf hit_def cache_set_def store_memory_ok(3) cache_invalidate_def split: option.split)
  qed
  then have "memory_ok c \<Longrightarrow> mc_max_entries (fold exec_op ops c) = mc_max_entries c" for c
  proof (induction ops arbitrary: c)
    case (Cons x ops)
    then have "memory_ok (exec_op x c)" by (cases x) (simp_all add: cache_get_ok cache_set_ok cache_invalidate_ok)
    then show ?case using Cons by simp
  qed simp
  moreover have "memory_ok (fold exec_op ops (new_cache files n))"
    using representsD(1) [OF represents_ops [OF r assms(3,2,4)]] .
  ultimately show "int (length (mc_memory (fold exec_op ops (new_cache files n)))) \<le> n"
    using representsD(1) [OF r] by (simp add: memory_ok_def) (simp add: new_cache_def)
qed

lemma cache_reads_back:
  assumes "0 \<le> n" "inj_on safe_name (set ks)" "list_all (op_ok ks) ops" "in_order t0 ops"
    and "fold (\<lambda>x t. latest_time t x) ops t0 \<le> t" "t \<le> u" "k \<in> set ks" "k' \<in> set ks" "list_all candle_ok cs"
    and c: "c = fold exec_op ops (new_cache files n)"
  shows "snd (cache_get u k (cache_set t k cs ttl c)) = (if u < t + seconds_td ttl then Some cs else None)"
    and "k' \<noteq> k \<Longrightarrow> snd (cache_get u k' (cache_set t k cs ttl c)) = snd (cache_get u k' c)"
proof -
  have r: "inj_on safe_name (set ks) \<and> represents ks t c (fold spec_op ops (shown_files files))"
    using represents_later [OF represents_ops [OF represents_new [OF assms(1)] assms(3,2,4)] assms(5)] assms(2) c by blast
  show "snd (cache_get u k (cache_set t k cs ttl c)) = (if u < t + seconds_td ttl then Some cs else None)"
    by (rule mc.put_get [OF r assms(7,9,6)])
  show "k' \<noteq> k \<Longrightarrow> snd (cache_get u k' (cache_set t k cs ttl c)) = snd (cache_get u k' c)"
    by (rule mc.put_get_other [OF r assms(7,8) _ assms(9,6)])
qed

text \<open>Claim C6: on a set of keys that their file names tell apart the cache with its memory layer, its eviction and
  its files behaves as a plain map with expiry: over any sequence, in the order of time, of reads and
  writes of these keys and of invalidations of prefixes that match a file name exactly when they match its
  key, every read gives what the map gives, whatever the capacity of the memory layer, which is never
  exceeded. The series written are lists of valid candles.\<close>

theorem cache_refines_map:
  assumes "0 \<le> n" "inj_on safe_name (set ks)" "list_all (op_ok ks) ops" "in_order t ops"
  shows "run_cache ops (new_cache files n) = run_spec ops (shown_files files)
    \<and> int (length (mc_memory (fold exec_op ops (new_cache files n)))) \<le> n"
  using cache_simulates [OF assms] by blast

text \<open>Claim C26: on a set of keys that their file names tell apart, after any operations on these keys in the order
  of time, invalidations being those of prefixes that match file names as they match keys: a series of valid
  candles that is written under one of the keys is read back unchanged until its time to live has passed, and
  not after it; the other keys of the set read as before.\<close>

theorem cache_round_trip:
  assumes "0 \<le> n" "inj_on safe_name (set ks)" "list_all (op_ok ks) ops" "in_order t0 ops"
    and "fold (\<lambda>x t. latest_time t x) ops t0 \<le> t" "t \<le> u" "k \<in> set ks" "k' \<in> set ks" "list_all candle_ok cs"
    and "c = fold exec_op ops (new_cache files n)"
  shows "snd (cache_get u k (cache_set t k cs ttl c)) = (if u < t + seconds_td ttl then Some cs else None)
    \<and> (k' \<noteq> k \<longrightarrow> snd (cache_get u k' (cache_set t k cs ttl c)) = snd (cache_get u k' c))"
  using cache_reads_back [OF assms(1-9), OF assms(10)] by blast

text \<open>Without the condition on the file names it is false: the keys of one window under two offsets from UTC have one
  file, and the second is answered with the series of the first.\<close>

theorem colliding_keys_share_series:
  "let k = ''history:XAUUSD:M5:2026-01-05T00:00:00+05:00::500''; k' = ''history:XAUUSD:M5:2026-01-05T00:00:00-05:00::500''
   in k \<noteq> k' \<and> safe_name k = safe_name k'
     \<and> snd (cache_get 0 k' (cache_set 0 k sample_series 3600 (new_cache [] 256))) = Some sample_series"
  by code_simp

text \<open>The loop of \<open>_store_memory\<close> as it is written: pop the oldest entry and count an eviction while the layer
  holds more than its capacity.\<close>

lemma evict_while:
  "0 \<le> cap \<Longrightarrow> while_option (\<lambda>(m, n). cap < int (length m)) (\<lambda>(m, n). (tl m, n + 1)) (xs, n) = Some (evict cap xs n)"
proof (induction xs arbitrary: n)
  case Nil
  then show ?case by (subst while_option_unfold) simp
next
  case (Cons x xs)
  then show ?case by (subst while_option_unfold) simp
qed

text \<open>Claim C28: with a capacity that is not negative the eviction loop ends, after as many rounds as there
  are entries above the capacity; it keeps the most recent entries, in order, and the statistics
  count every entry it drops.\<close>

theorem eviction_terminates:
  assumes "0 \<le> mc_max_entries c" "m = to_end k v (mc_memory c)"
  shows "while_option (\<lambda>(m, n). mc_max_entries c < int (length m)) (\<lambda>(m, n). (tl m, n + 1)) (m, ca_evictions (mc_statistics c))
      = Some (mc_memory (store_memory k v c), ca_evictions (mc_statistics (store_memory k v c)))
    \<and> (\<exists>dropped. m = dropped @ mc_memory (store_memory k v c)
        \<and> ca_evictions (mc_statistics (store_memory k v c)) = ca_evictions (mc_statistics c) + int (length dropped)
        \<and> int (length (mc_memory (store_memory k v c))) = min (mc_max_entries c) (int (length m)))"
proof -
  let ?n = "ca_evictions (mc_statistics c)" and ?i = "length m - nat (mc_max_entries c)"
  have e: "evict (mc_max_entries c) m ?n = (drop ?i m, ?n + int ?i)" by (rule evict_eq [OF assms(1)])
  have s: "mc_memory (store_memory k v c) = drop ?i m" "ca_evictions (mc_statistics (store_memory k v c)) = ?n + int ?i"
    using e assms(2) by (simp_all add: store_memory_def)
  have t: "length (take ?i m) = ?i" by (simp add: min_absorb2)
  have l: "int (length (drop ?i m)) = min (mc_max_entries c) (int (length m))" using assms(1) by (auto simp: min_def)
  show ?thesis
    unfolding s evict_while [OF assms(1)] e using t l by (intro conjI exI [of _ "take ?i m"]) simp_all
qed

subsection \<open>The hypotheses can hold\<close>

definition sample_full_cache :: market_cache where
  "sample_full_cache = (new_cache [] 1)\<lparr>mc_memory := [(''a'', (0, []))]\<rparr>"

theorem eviction_terminates_witness:
  "ca_evictions (mc_statistics (store_memory ''b'' (0, []) sample_full_cache)) = 1"
proof -
  define m where "m = to_end ''b'' (0, []) (mc_memory sample_full_cache)"
  have c: "mc_max_entries sample_full_cache = 1" "ca_evictions (mc_statistics sample_full_cache) = 0" "length m = 2"
    by (simp_all add: sample_full_cache_def new_cache_def to_end_def m_def)
  obtain dropped where "m = dropped @ mc_memory (store_memory ''b'' (0, []) sample_full_cache)"
    "ca_evictions (mc_statistics (store_memory ''b'' (0, []) sample_full_cache)) = int (length dropped)"
    "length (mc_memory (store_memory ''b'' (0, []) sample_full_cache)) = 1"
    using eviction_terminates [OF _ m_def] c by auto
  moreover from this(1) have "length m = length dropped + length (mc_memory (store_memory ''b'' (0, []) sample_full_cache))"
    by (metis length_append)
  ultimately show ?thesis using c(3) by simp
qed

definition sample_keys :: "string list" where
  "sample_keys = [''history:XAUUSD:M5::::500'', ''latest:XAUUSD:M5:::'', ''history:XAUUSD:M15::::500'']"

definition sample_ops :: "cache_op list" where
  "sample_ops = [Set_Op 0 (sample_keys ! 0) sample_series 60, Set_Op 1 (sample_keys ! 2) sample_series 60,
     Invalidate_Op ''history:XAUUSD:M5'', Get_Op 2 (sample_keys ! 0), Get_Op 3 (sample_keys ! 2)]"

lemma sample_ops_ok: "inj_on safe_name (set sample_keys)" "list_all (op_ok sample_keys) sample_ops" "in_order 0 sample_ops"
proof -
  have "distinct (map safe_name sample_keys)" by code_simp
  then show "inj_on safe_name (set sample_keys)" by (simp add: distinct_map)
  show "list_all (op_ok sample_keys) sample_ops" "in_order 0 sample_ops" by code_simp+
qed

theorem cache_refines_map_witness: "run_cache sample_ops (new_cache [] 1) = [None, Some sample_series]"
proof -
  have "run_spec sample_ops (shown_files []) = [None, Some sample_series]"
    by (simp add: sample_ops_def sample_keys_def spec_set_def spec_invalidate_def spec_get_def starts_with_def seconds_td_def)
  then show ?thesis using cache_refines_map [OF _ sample_ops_ok, of 1 "[]"] by simp
qed

theorem cache_round_trip_witness:
  "snd (cache_get 1000004 (sample_keys ! 1) (cache_set 4 (sample_keys ! 1) sample_series 15 (fold exec_op sample_ops (new_cache [] 1))))
     = Some sample_series"
proof -
  have "fold (\<lambda>x t. latest_time t x) sample_ops 0 \<le> 4" "list_all candle_ok sample_series"
    "sample_keys ! 1 \<in> set sample_keys" by code_simp+
  then show ?thesis
    using cache_round_trip [OF _ sample_ops_ok, of 1 4 1000004 "sample_keys ! 1" "sample_keys ! 1" sample_series _ "[]" 15]
    by (simp add: seconds_td_def)
qed

end
