(* ===== verification/Market_Data_Service.thy ===== *)
theory Market_Data_Service
  imports Market_Data_Store
begin

text \<open>
  The market data service (\<open>engines/market_data_engine/service.py\<close>): history with cache, repository,
  provider failover, validation, cross-source validation and gap recovery, and the polling of the
  latest candle.

  A call takes an environment: the clock, what every provider would answer to each kind of
  request the call can make, and what the event bus does with each event. A publication can raise: a
  closed bus refuses the event, and the failure of a handler is raised again after the event was
  recorded. \<open>ms_events\<close> is the log of the events the bus has recorded, in the order of publication; the bus
  itself is modelled in \<open>Infrastructure\<close>. Logging is left out.
\<close>

subsection \<open>Configuration and state\<close>

record provider_config =
  pf_name :: string
  pf_enabled :: bool
  pf_priority :: int
  pf_base_url :: string
  pf_api_key_env :: "string option"
  pf_account_id_env :: "string option"
  pf_request_timeout_seconds :: f64
  pf_quota_per_minute :: "int option"

definition provider_config_ok :: "provider_config \<Rightarrow> bool" where
  "provider_config_ok c \<longleftrightarrow> 0 \<le> pf_priority c \<and> 0 < pf_request_timeout_seconds c \<and> opt_all (\<lambda>n. 1 \<le> n) (pf_quota_per_minute c)"

record cache_config =
  cf_memory_max_entries :: int
  cf_realtime_ttl_seconds :: int
  cf_historical_ttl_seconds :: int
  cf_persistent_directory :: string

definition cache_config_ok :: "cache_config \<Rightarrow> bool" where
  "cache_config_ok c \<longleftrightarrow> 1 \<le> cf_memory_max_entries c \<and> 1 \<le> cf_realtime_ttl_seconds c \<and> 1 \<le> cf_historical_ttl_seconds c"

record market_data_config =
  mg_symbols :: "string list"
  mg_timeframes :: "bar_timeframe list"
  mg_default_lookback :: int
  mg_providers :: "provider_config list"
  mg_cache :: cache_config
  mg_validation :: validation_config
  mg_preferred_provider :: string
  mg_provider_recovery_successes :: int
  mg_provider_failure_threshold :: int

definition market_data_config_ok :: "market_data_config \<Rightarrow> bool" where
  "market_data_config_ok c \<longleftrightarrow> 1 \<le> mg_default_lookback c \<and> mg_default_lookback c \<le> 100000
     \<and> list_all provider_config_ok (mg_providers c) \<and> cache_config_ok (mg_cache c) \<and> validation_config_ok (mg_validation c)
     \<and> 1 \<le> mg_provider_recovery_successes c \<and> 1 \<le> mg_provider_failure_threshold c"

definition default_market_data_config :: market_data_config where
  "default_market_data_config = \<lparr>mg_symbols = [''XAUUSD''],
     mg_timeframes = [Tf_M1, Tf_M5, Tf_M15, Tf_M30, Tf_H1, Tf_H4, Tf_D1], mg_default_lookback = 500, mg_providers = [],
     mg_cache = \<lparr>cf_memory_max_entries = 256, cf_realtime_ttl_seconds = 15, cf_historical_ttl_seconds = 3600,
       cf_persistent_directory = ''data/market_cache''\<rparr>,
     mg_validation = default_validation_config, mg_preferred_provider = ''twelve_data'',
     mg_provider_recovery_successes = 3, mg_provider_failure_threshold = 3\<rparr>"

datatype sync_status = Sync_Idle | Sync_Syncing | Sync_Complete | Sync_Partial | Sync_Failed
datatype realtime_status = Rt_Stopped | Rt_Polling | Rt_Streaming | Rt_Degraded

record poll_metrics =
  po_attempts :: int
  po_new_closed_candles :: int
  po_duplicate_responses :: int
  po_corrected_responses :: int
  po_persistence_writes :: int

datatype market_event = Gap_Detected anomaly | Historical_Updated string bar_timeframe nat nat
  | New_Candle candle | Realtime_Updated string bar_timeframe

record market_service =
  ms_config :: market_data_config
  ms_holidays :: "int list"
  ms_manager :: manager
  ms_store :: candle_store
  ms_cache :: market_cache
  ms_sync_status :: sync_status
  ms_realtime_status :: realtime_status
  ms_poll_metrics :: poll_metrics
  ms_events :: "market_event list"

definition new_market_service :: "market_data_config \<Rightarrow> int list \<Rightarrow> manager \<Rightarrow> (string \<times> cache_file) list \<Rightarrow> market_service" where
  "new_market_service cfg holidays m files = \<lparr>ms_config = cfg, ms_holidays = holidays, ms_manager = m, ms_store = new_candle_store,
     ms_cache = new_cache files (cf_memory_max_entries (mg_cache cfg)), ms_sync_status = Sync_Idle, ms_realtime_status = Rt_Stopped,
     ms_poll_metrics = \<lparr>po_attempts = 0, po_new_closed_candles = 0, po_duplicate_responses = 0, po_corrected_responses = 0,
       po_persistence_writes = 0\<rparr>, ms_events = []\<rparr>"

text \<open>What \<open>event_bus.publish\<close> does with an event, by the number of events recorded before it: it returns; it
  raises because the bus is closed; or it records the event and raises what a handler raised, a timeout included.\<close>

datatype delivery = Delivered | Bus_Closed | Handler_Failed

record market_env =
  me_now :: instant
  me_history :: "string \<Rightarrow> candle list provider_call"
  me_cross :: "string \<Rightarrow> candle list provider_call"
  me_recover :: "string \<Rightarrow> candle list provider_call"
  me_latest :: "string \<Rightarrow> candle provider_call"
  me_backfill :: "string \<Rightarrow> candle list provider_call"
  me_delivery :: "nat \<Rightarrow> market_event \<Rightarrow> delivery"

datatype service_error = Manager_Error manager_error | Data_Error market_data_error | Request_Invalid
  | Publish_Error market_event

definition data_result :: "market_data_error + 'a \<Rightarrow> service_error + 'a" where
  "data_result x = (case x of Inl e \<Rightarrow> Inl (Data_Error e) | Inr y \<Rightarrow> Inr y)"

definition manager_result :: "manager_error + 'a \<Rightarrow> service_error + 'a" where
  "manager_result x = (case x of Inl e \<Rightarrow> Inl (Manager_Error e) | Inr y \<Rightarrow> Inr y)"

subsection \<open>Publishing\<close>

definition announce :: "market_env \<Rightarrow> market_event \<Rightarrow> market_service \<Rightarrow> market_service \<times> (service_error + unit)" where
  "announce env e s =
     (case me_delivery env (length (ms_events s)) e of
        Bus_Closed \<Rightarrow> (s, Inl (Publish_Error e))
      | Handler_Failed \<Rightarrow> (s\<lparr>ms_events := ms_events s @ [e]\<rparr>, Inl (Publish_Error e))
      | Delivered \<Rightarrow> (s\<lparr>ms_events := ms_events s @ [e]\<rparr>, Inr ()))"

fun announce_all :: "market_env \<Rightarrow> market_event list \<Rightarrow> market_service \<Rightarrow> market_service \<times> (service_error + unit)" where
  "announce_all env [] s = (s, Inr ())"
| "announce_all env (e # es) s =
     (case announce env e s of
        (s', Inl x) \<Rightarrow> (s', Inl x)
      | (s', Inr _) \<Rightarrow> announce_all env es s')"

subsection \<open>Keys\<close>

definition iso_opt :: "instant option \<Rightarrow> string" where
  "iso_opt t = (case t of None \<Rightarrow> [] | Some x \<Rightarrow> isoformat x)"

definition key_text :: "string \<Rightarrow> string \<Rightarrow> bar_timeframe \<Rightarrow> instant option \<Rightarrow> instant option \<Rightarrow> int option \<Rightarrow> string" where
  "key_text kind symbol tf start stop limit = join '':'' [kind, symbol, bar_timeframe_value tf, iso_opt start, iso_opt stop,
     (case limit of None \<Rightarrow> [] | Some n \<Rightarrow> if n = 0 then [] else str_int n)]"

subsection \<open>Cross-source validation and gap recovery\<close>

text \<open>The dict keyed by timestamp, canonical symbol and timeframe keeps the last candle of a key.\<close>

definition unique_candles :: "candle list \<Rightarrow> market_data_error + candle list" where
  "unique_candles raw =
     bindE (mapE (\<lambda>c. bindE (canonical_symbol (ck_symbol c)) (\<lambda>s. Inr ((ck_timestamp c, s, ck_timeframe c), c))) raw)
       (\<lambda>kvs. Inr (sort_key ck_timestamp (map snd (fold (\<lambda>(k, v). AList.update k v) kvs []))))"

text \<open>The first ranked provider that is not the current one.\<close>

definition alternate_of :: "manager \<Rightarrow> string list \<Rightarrow> string option" where
  "alternate_of m ns = find (\<lambda>n. Some n \<noteq> pm_current_provider m) ns"

definition trimmed_report :: "validation_report \<Rightarrow> instant list \<Rightarrow> validation_report" where
  "trimmed_report r qs = r\<lparr>vr_candles := filter (\<lambda>c. ck_timestamp c \<notin> set qs) (vr_candles r), vr_valid := False\<rparr>"

definition cross_validate :: "validation_config \<Rightarrow> (string \<Rightarrow> candle list provider_call) \<Rightarrow> string \<Rightarrow> bar_timeframe \<Rightarrow> validation_report
    \<Rightarrow> manager \<Rightarrow> manager \<times> (manager_error + validation_report \<times> anomaly list)" where
  "cross_validate cfg calls symbol tf r m =
     (if vr_candles r = [] then (m, Inr (r, []))
      else case rankings m symbol tf False of
        Inl e \<Rightarrow> (m, Inl e)
      | Inr ns \<Rightarrow>
          (case alternate_of m ns of
             None \<Rightarrow> (m, Inr (r, []))
           | Some a \<Rightarrow>
               (case history_from (calls a) a m of
                  (m', Inl _) \<Rightarrow> (m', Inr (r, []))
                | (m', Inr alternate) \<Rightarrow>
                    if alternate = [] then (m', Inr (r, []))
                    else (let (xs, qs) = compare_sources cfg (vr_candles r) alternate None None
                          in if qs = [] then (m', Inr (r, xs)) else (m', Inr (trimmed_report r qs, xs))))))"

definition add_recovered :: "candle \<Rightarrow> (instant \<times> candle) list \<Rightarrow> (instant \<times> candle) list" where
  "add_recovered c d = (if ck_timestamp c \<in> fst ` set d then d else d @ [(ck_timestamp c, score_candle c [] True False False)])"

definition merge_recovered :: "candle list \<Rightarrow> candle list \<Rightarrow> candle list" where
  "merge_recovered cs alternate = sort_key ck_timestamp (map snd
     (fold add_recovered alternate (fold (\<lambda>c. AList.update (ck_timestamp c) c) cs [])))"

fun try_recover :: "(string \<Rightarrow> candle list provider_call) \<Rightarrow> string option \<Rightarrow> string list \<Rightarrow> candle list \<Rightarrow> manager
    \<Rightarrow> manager \<times> candle list" where
  "try_recover calls primary [] cs m = (m, cs)"
| "try_recover calls primary (n # ns) cs m =
     (if Some n = primary then try_recover calls primary ns cs m
      else (case history_from (calls n) n m of
          (m', Inl _) \<Rightarrow> try_recover calls primary ns cs m'
        | (m', Inr alternate) \<Rightarrow> (m', merge_recovered cs alternate)))"

definition recover_gaps :: "(string \<Rightarrow> candle list provider_call) \<Rightarrow> string \<Rightarrow> bar_timeframe \<Rightarrow> candle list \<Rightarrow> manager
    \<Rightarrow> manager \<times> (manager_error + candle list)" where
  "recover_gaps calls symbol tf cs m =
     (if length cs < 2 then (m, Inr cs)
      else case rankings m symbol tf False of
        Inl e \<Rightarrow> (m, Inl e)
      | Inr ns \<Rightarrow> (let (m', cs') = try_recover calls (pm_current_provider m) ns cs m in (m', Inr cs')))"

subsection \<open>History\<close>

definition has_missing :: "anomaly list \<Rightarrow> bool" where
  "has_missing xs \<longleftrightarrow> list_ex (\<lambda>a. an_missing_count a \<noteq> 0) xs"

text \<open>From the raw answer of the providers to the final report.\<close>

definition recovered_report :: "market_env \<Rightarrow> market_service \<Rightarrow> string \<Rightarrow> bar_timeframe \<Rightarrow> validation_report \<Rightarrow> anomaly list \<Rightarrow> manager
    \<Rightarrow> manager \<times> (service_error + validation_report)" where
  "recovered_report env s symbol tf r cross m =
     (if has_missing (vr_anomalies r) \<or> has_missing cross then
        (case recover_gaps (me_recover env) symbol tf (vr_candles r) m of
           (m', Inl e) \<Rightarrow> (m', Inl (Manager_Error e))
         | (m', Inr cs) \<Rightarrow>
             if cs \<noteq> vr_candles r
             then (m', data_result (validate (mg_validation (ms_config s)) (ms_holidays s) (me_now env) cs))
             else (m', Inr r))
      else (m, Inr r))"

definition fetch_report :: "market_env \<Rightarrow> market_service \<Rightarrow> provider_request \<Rightarrow> manager \<times> (service_error + validation_report)" where
  "fetch_report env s rq =
     (case manager_history (me_now env) (me_history env) rq (ms_manager s) of
        (m1, Inl e) \<Rightarrow> (m1, Inl (Manager_Error e))
      | (m1, Inr raw) \<Rightarrow>
          (case bindE (unique_candles raw) (validate (mg_validation (ms_config s)) (ms_holidays s) (me_now env)) of
             Inl e \<Rightarrow> (m1, Inl (Data_Error e))
           | Inr r \<Rightarrow>
               (case cross_validate (mg_validation (ms_config s)) (me_cross env) (pq_symbol rq) (pq_timeframe rq) r m1 of
                  (m2, Inl e) \<Rightarrow> (m2, Inl (Manager_Error e))
                | (m2, Inr (r2, cross)) \<Rightarrow>
                    (case recovered_report env s (pq_symbol rq) (pq_timeframe rq) r2 cross m2 of
                       (m3, Inl e) \<Rightarrow> (m3, Inl e)
                     | (m3, Inr r3) \<Rightarrow> (m3, Inr (r3\<lparr>vr_anomalies := vr_anomalies r3 @ cross\<rparr>))))))"

definition gap_events :: "anomaly list \<Rightarrow> market_event list" where
  "gap_events xs = map Gap_Detected (filter (\<lambda>a. an_missing_count a \<noteq> 0) xs)"

definition historical_ttl :: "market_service \<Rightarrow> int" where
  "historical_ttl s = cf_historical_ttl_seconds (mg_cache (ms_config s))"

text \<open>The \<open>try\<close> block; any exception sets the status to failed. The gap events are published before the
  write, the update after repository and cache were written.\<close>

definition fetch_history :: "market_env \<Rightarrow> string \<Rightarrow> provider_request \<Rightarrow> market_service \<Rightarrow> market_service \<times> (service_error + candle list)" where
  "fetch_history env k rq s =
     (if \<not> provider_request_ok rq then (s\<lparr>ms_sync_status := Sync_Failed\<rparr>, Inl Request_Invalid)
      else case fetch_report env s rq of
        (m, Inl e) \<Rightarrow> (s\<lparr>ms_manager := m, ms_sync_status := Sync_Failed\<rparr>, Inl e)
      | (m, Inr r) \<Rightarrow>
          (case announce_all env (gap_events (vr_anomalies r)) (s\<lparr>ms_manager := m\<rparr>) of
             (s1, Inl e) \<Rightarrow> (s1\<lparr>ms_sync_status := Sync_Failed\<rparr>, Inl e)
           | (s1, Inr _) \<Rightarrow>
               (case upsert_historical (vr_candles r) (ms_store s1) of
                  (st, Inl e) \<Rightarrow> (s1\<lparr>ms_store := st, ms_sync_status := Sync_Failed\<rparr>, Inl (Data_Error e))
                | (st, Inr _) \<Rightarrow>
                    (let s2 = s1\<lparr>ms_store := st, ms_cache := cache_set (me_now env) k (vr_candles r) (historical_ttl s) (ms_cache s1),
                       ms_sync_status := (if vr_valid r then Sync_Complete else Sync_Partial)\<rparr>
                     in case announce env (Historical_Updated (pq_symbol rq) (pq_timeframe rq)
                            (length (vr_candles r)) (length (vr_anomalies r))) s2 of
                          (s3, Inl e) \<Rightarrow> (s3\<lparr>ms_sync_status := Sync_Failed\<rparr>, Inl e)
                        | (s3, Inr _) \<Rightarrow> (s3, Inr (vr_candles r))))))"

definition history :: "market_env \<Rightarrow> string \<Rightarrow> bar_timeframe \<Rightarrow> instant option \<Rightarrow> instant option \<Rightarrow> int \<Rightarrow> bool \<Rightarrow> market_service
    \<Rightarrow> market_service \<times> (service_error + candle list)" where
  "history env symbol0 tf start stop limit refresh s =
     (case canonical_symbol symbol0 of
        Inl e \<Rightarrow> (s, Inl (Data_Error e))
      | Inr symbol \<Rightarrow>
          (let k = key_text ''history'' symbol tf start stop (Some limit);
               rq = \<lparr>pq_symbol = symbol, pq_timeframe = tf, pq_start = start, pq_end = stop, pq_limit = limit\<rparr>
           in if refresh then fetch_history env k rq s
              else (case cache_get (me_now env) k (ms_cache s) of
                  (c, Some cs) \<Rightarrow> (s\<lparr>ms_cache := c\<rparr>, Inr cs)
                | (c, None) \<Rightarrow>
                    (case stored_history symbol tf start stop limit (ms_store s) of
                       Inl e \<Rightarrow> (s\<lparr>ms_cache := c\<rparr>, Inl (Data_Error e))
                     | Inr stored \<Rightarrow>
                         if stored \<noteq> [] then (s\<lparr>ms_cache := cache_set (me_now env) k stored (historical_ttl s) c\<rparr>, Inr stored)
                         else fetch_history env k rq (s\<lparr>ms_cache := c\<rparr>)))))"

subsection \<open>The latest candle\<close>

definition same_market_values :: "candle \<Rightarrow> candle \<Rightarrow> bool" where
  "same_market_values a b \<longleftrightarrow> b = a\<lparr>ck_ingestion_timestamp := ck_ingestion_timestamp b\<rparr>"

definition count_poll :: "(poll_metrics \<Rightarrow> poll_metrics) \<Rightarrow> market_service \<Rightarrow> market_service" where
  "count_poll f s = s\<lparr>ms_poll_metrics := f (ms_poll_metrics s)\<rparr>"

definition add_writes :: "int \<Rightarrow> market_service \<Rightarrow> market_service" where
  "add_writes n = count_poll (\<lambda>p. p\<lparr>po_persistence_writes := po_persistence_writes p + n\<rparr>)"

text \<open>The candles that closed since the last stored one: the backfill between the two, and the new one.\<close>

definition backfill_request :: "string \<Rightarrow> bar_timeframe \<Rightarrow> candle \<Rightarrow> candle \<Rightarrow> provider_request" where
  "backfill_request symbol tf p c = \<lparr>pq_symbol = symbol, pq_timeframe = tf, pq_start = Some (ck_timestamp p + duration tf),
     pq_end = Some (ck_timestamp c),
     pq_limit = max 1 (min (trunc_int (int_truediv (ck_timestamp c - ck_timestamp p) (duration tf))) 100000)\<rparr>"

definition newly_closed :: "candle \<Rightarrow> candle \<Rightarrow> candle list \<Rightarrow> candle list" where
  "newly_closed p c recovered =
     (let d = fold (\<lambda>x. AList.update (ck_timestamp x) x)
            (filter (\<lambda>x. ck_timestamp p < ck_timestamp x \<and> ck_timestamp x \<le> ck_timestamp c) recovered) []
      in map snd (sort_key fst (AList.update (ck_timestamp c) c d)))"

definition backfill :: "market_env \<Rightarrow> string \<Rightarrow> bar_timeframe \<Rightarrow> candle \<Rightarrow> candle \<Rightarrow> market_service
    \<Rightarrow> market_service \<times> (service_error + candle list)" where
  "backfill env symbol tf p c s =
     (case manager_history (me_now env) (me_backfill env) (backfill_request symbol tf p c) (ms_manager s) of
        (m, Inl e) \<Rightarrow> (s\<lparr>ms_manager := m\<rparr>, Inl (Manager_Error e))
      | (m, Inr raw) \<Rightarrow>
          (case validate (mg_validation (ms_config s)) (ms_holidays s) (me_now env) raw of
             Inl e \<Rightarrow> (s\<lparr>ms_manager := m\<rparr>, Inl (Data_Error e))
           | Inr r \<Rightarrow>
               (let cs = newly_closed p c (vr_candles r); old = butlast cs
                in if old = [] then (s\<lparr>ms_manager := m\<rparr>, Inr cs)
                   else (case upsert_historical old (ms_store s) of
                       (st, Inl e) \<Rightarrow> (s\<lparr>ms_manager := m, ms_store := st\<rparr>, Inl (Data_Error e))
                     | (st, Inr _) \<Rightarrow> (add_writes (int (length old)) (s\<lparr>ms_manager := m, ms_store := st\<rparr>), Inr cs)))))"

definition publish_closed :: "market_env \<Rightarrow> string \<Rightarrow> bar_timeframe \<Rightarrow> bool \<Rightarrow> candle \<Rightarrow> candle list \<Rightarrow> market_service
    \<Rightarrow> market_service \<times> (service_error + candle option)" where
  "publish_closed env symbol tf same c cs s =
     (case append_realtime c (ms_store s) of
        (st, Inl e) \<Rightarrow> (s\<lparr>ms_store := st\<rparr>, Inl (Data_Error e))
      | (st, Inr _) \<Rightarrow>
          (let s1 = add_writes 1 (s\<lparr>ms_store := st\<rparr>);
               ca = cache_set (me_now env) (key_text ''latest'' symbol tf None None None) [c]
                 (cf_realtime_ttl_seconds (mg_cache (ms_config s)))
                 (cache_invalidate (key_text ''history'' symbol tf None None None) (ms_cache s));
               s2 = count_poll (\<lambda>p. if same then p\<lparr>po_corrected_responses := po_corrected_responses p + 1\<rparr>
                 else p\<lparr>po_new_closed_candles := po_new_closed_candles p + int (length cs)\<rparr>) (s1\<lparr>ms_cache := ca\<rparr>)
           in case announce_all env ((if same then [] else map New_Candle cs) @ [Realtime_Updated symbol tf]) s2 of
                (s3, Inl e) \<Rightarrow> (s3, Inl e)
              | (s3, Inr _) \<Rightarrow> (s3, Inr (Some c))))"

definition poll_latest :: "market_env \<Rightarrow> string \<Rightarrow> bar_timeframe \<Rightarrow> market_service \<Rightarrow> market_service \<times> (service_error + candle option)" where
  "poll_latest env symbol tf s0 =
     (let s = count_poll (\<lambda>p. p\<lparr>po_attempts := po_attempts p + 1\<rparr>) (s0\<lparr>ms_realtime_status := Rt_Polling\<rparr>)
      in case manager_latest (me_now env) (me_latest env) symbol tf (ms_manager s) of
           (m, Inl e) \<Rightarrow> (s\<lparr>ms_manager := m\<rparr>, Inl (Manager_Error e))
         | (m, Inr raw) \<Rightarrow>
             (let s1 = s\<lparr>ms_manager := m\<rparr>
              in case validate (mg_validation (ms_config s)) (ms_holidays s) (me_now env) [raw] of
                   Inl e \<Rightarrow> (s1, Inl (Data_Error e))
                 | Inr r \<Rightarrow>
                     (let c = last (vr_candles r)
                      in case candle_at symbol tf (ck_timestamp c) (ms_store s1) of
                           Inl e \<Rightarrow> (s1, Inl (Data_Error e))
                         | Inr None \<Rightarrow> publish_closed env symbol tf False c [c] s1
                         | Inr (Some p) \<Rightarrow>
                             if ck_timestamp p = ck_timestamp c then
                               (if same_market_values p c
                                then (count_poll (\<lambda>q. q\<lparr>po_duplicate_responses := po_duplicate_responses q + 1\<rparr>) s1, Inr (Some p))
                                else publish_closed env symbol tf True c [c] s1)
                             else if ck_timestamp p + duration tf < ck_timestamp c then
                               (case backfill env symbol tf p c s1 of
                                  (s2, Inl e) \<Rightarrow> (s2, Inl e)
                                | (s2, Inr cs) \<Rightarrow> publish_closed env symbol tf False c cs s2)
                             else publish_closed env symbol tf False c [c] s1)))"

definition latest_candle :: "market_env \<Rightarrow> string \<Rightarrow> bar_timeframe \<Rightarrow> bool \<Rightarrow> market_service \<Rightarrow> market_service \<times> (service_error + candle option)" where
  "latest_candle env symbol0 tf refresh s =
     (case canonical_symbol symbol0 of
        Inl e \<Rightarrow> (s, Inl (Data_Error e))
      | Inr symbol \<Rightarrow>
          if refresh then poll_latest env symbol tf s
          else (case cache_get (me_now env) (key_text ''latest'' symbol tf None None None) (ms_cache s) of
              (c, Some cs) \<Rightarrow>
                if cs \<noteq> [] then (s\<lparr>ms_cache := c\<rparr>, Inr (Some (last cs)))
                else (case stored_history symbol tf None None 1 (ms_store s) of
                    Inl e \<Rightarrow> (s\<lparr>ms_cache := c\<rparr>, Inl (Data_Error e))
                  | Inr stored \<Rightarrow> if stored \<noteq> [] then (s\<lparr>ms_cache := c\<rparr>, Inr (Some (last stored)))
                      else poll_latest env symbol tf (s\<lparr>ms_cache := c\<rparr>))
            | (c, None) \<Rightarrow>
                (case stored_history symbol tf None None 1 (ms_store s) of
                    Inl e \<Rightarrow> (s\<lparr>ms_cache := c\<rparr>, Inl (Data_Error e))
                  | Inr stored \<Rightarrow> if stored \<noteq> [] then (s\<lparr>ms_cache := c\<rparr>, Inr (Some (last stored)))
                      else poll_latest env symbol tf (s\<lparr>ms_cache := c\<rparr>))))"

definition replay_candles :: "string \<Rightarrow> bar_timeframe \<Rightarrow> instant \<Rightarrow> int \<Rightarrow> market_service \<Rightarrow> service_error + candle list" where
  "replay_candles symbol tf at_time limit s = data_result (stored_history symbol tf None (Some at_time) limit (ms_store s))"

subsection \<open>What publishing changes\<close>

lemma announce_log:
  "announce env e s = (s', x) \<Longrightarrow> \<exists>gs. s' = s\<lparr>ms_events := ms_events s @ gs\<rparr> \<and> gs \<in> {[], [e]} \<and> (x = Inr () \<longrightarrow> gs = [e])
    \<and> (\<forall>y. x = Inl y \<longrightarrow> y = Publish_Error e)"
  by (cases "me_delivery env (length (ms_events s)) e") (auto simp: announce_def intro: exI [of _ "[]"])

lemma announce_all_log:
  "announce_all env es s = (s', x) \<Longrightarrow> \<exists>gs. s' = s\<lparr>ms_events := ms_events s @ gs\<rparr> \<and> gs = take (length gs) es \<and> (x = Inr () \<longrightarrow> gs = es)
    \<and> (\<forall>y. x = Inl y \<longrightarrow> (\<exists>e \<in> set es. y = Publish_Error e))"
proof (induction es arbitrary: s)
  case (Cons e es)
  obtain s1 y where p: "announce env e s = (s1, y)" by fastforce
  obtain gs where gs: "s1 = s\<lparr>ms_events := ms_events s @ gs\<rparr>" "gs \<in> {[], [e]}" "y = Inr () \<longrightarrow> gs = [e]" "\<forall>z. y = Inl z \<longrightarrow> z = Publish_Error e"
    using announce_log [OF p] by blast
  show ?case
  proof (cases y)
    case (Inl z)
    then show ?thesis using gs Cons.prems p by (intro exI [of _ gs]) auto
  next
    case (Inr u)
    then obtain hs where hs: "s' = s1\<lparr>ms_events := ms_events s1 @ hs\<rparr>" "hs = take (length hs) es" "x = Inr () \<longrightarrow> hs = es"
      "\<forall>y. x = Inl y \<longrightarrow> (\<exists>e \<in> set es. y = Publish_Error e)"
      using Cons.IH [of s1] Cons.prems p by auto
    then show ?thesis using gs(1,3) Inr by (intro exI [of _ "e # hs"]) auto
  qed
qed auto

lemma announce_all_fields [simp]:
  "ms_store (fst (announce_all env es s)) = ms_store s" "ms_cache (fst (announce_all env es s)) = ms_cache s"
  "ms_config (fst (announce_all env es s)) = ms_config s"
  using announce_all_log [of env es s] by (cases "announce_all env es s"; auto)+

text \<open>What a finished or failed fetch has done, event by event.\<close>

lemma fetch_history_cases:
  assumes "fetch_history env k rq s = (s', x)"
  obtains e gs where "x = Inl e" "ms_sync_status s' = Sync_Failed" "ms_cache s' = ms_cache s" "ms_events s' = ms_events s @ map Gap_Detected gs"
  | m r st y gs hs where "fetch_report env s rq = (m, Inr r)" "upsert_historical (vr_candles r) (ms_store s) = (st, Inr y)"
      "ms_store s' = st" "ms_cache s' = cache_set (me_now env) k (vr_candles r) (historical_ttl s) (ms_cache s)"
      "ms_events s' = ms_events s @ map Gap_Detected gs @ hs"
      "let u = Historical_Updated (pq_symbol rq) (pq_timeframe rq) (length (vr_candles r)) (length (vr_anomalies r))
       in x = Inl (Publish_Error u) \<and> ms_sync_status s' = Sync_Failed \<and> hs \<in> {[], [u]}
          \<or> x = Inr (vr_candles r) \<and> ms_sync_status s' = (if vr_valid r then Sync_Complete else Sync_Partial) \<and> hs = [u]"
proof (cases "provider_request_ok rq")
  case False
  then show ?thesis using assms that(1) [of Request_Invalid "[]"] by (auto simp: fetch_history_def)
next
  case True
  obtain m y where f: "fetch_report env s rq = (m, y)" by fastforce
  show ?thesis
  proof (cases y)
    case (Inl e)
    then show ?thesis using assms f True that(1) [of e "[]"] by (auto simp: fetch_history_def)
  next
    case (Inr r)
    let ?gs = "filter (\<lambda>a. an_missing_count a \<noteq> 0) (vr_anomalies r)"
    obtain s1 z where p: "announce_all env (gap_events (vr_anomalies r)) (s\<lparr>ms_manager := m\<rparr>) = (s1, z)" by fastforce
    obtain gs where gs: "s1 = s\<lparr>ms_manager := m, ms_events := ms_events s @ gs\<rparr>" "gs = take (length gs) (gap_events (vr_anomalies r))"
      using announce_all_log [OF p] by auto
    then have g: "gs = map Gap_Detected (take (length gs) ?gs)" by (metis gap_events_def take_map)
    show ?thesis
    proof (cases z)
      case (Inl e)
      then show ?thesis using assms f True Inr p gs(1) g that(1) [of e "take (length gs) ?gs"] by (auto simp: fetch_history_def)
    next
      case z: (Inr _)
      obtain st w where u: "upsert_historical (vr_candles r) (ms_store s) = (st, w)" by fastforce
      then have u1: "upsert_historical (vr_candles r) (ms_store s1) = (st, w)" using gs(1) by simp
      show ?thesis
      proof (cases w)
        case (Inl e)
        then show ?thesis using assms f True Inr p z gs(1) g u1 that(1) [of "Data_Error e" "take (length gs) ?gs"]
          by (auto simp: fetch_history_def)
      next
        case w: (Inr v)
        let ?u = "Historical_Updated (pq_symbol rq) (pq_timeframe rq) (length (vr_candles r)) (length (vr_anomalies r))"
        let ?s2 = "s1\<lparr>ms_store := st, ms_cache := cache_set (me_now env) k (vr_candles r) (historical_ttl s) (ms_cache s1),
          ms_sync_status := (if vr_valid r then Sync_Complete else Sync_Partial)\<rparr>"
        obtain s3 q where q: "announce env ?u ?s2 = (s3, q)" by fastforce
        obtain hs where hs: "s3 = ?s2\<lparr>ms_events := ms_events ?s2 @ hs\<rparr>" "hs \<in> {[], [?u]}" "q = Inr () \<longrightarrow> hs = [?u]"
          "\<forall>e. q = Inl e \<longrightarrow> e = Publish_Error ?u"
          using announce_log [OF q] by blast
        have e: "(s', x) = (case q of Inl e \<Rightarrow> (s3\<lparr>ms_sync_status := Sync_Failed\<rparr>, Inl e) | Inr _ \<Rightarrow> (s3, Inr (vr_candles r)))"
          using assms f True Inr p z u1 w q by (simp add: fetch_history_def Let_def split: sum.split)
        have ev: "ms_events s3 = ms_events s @ map Gap_Detected (take (length gs) ?gs) @ hs" using hs(1) gs(1) g by simp
        have "ms_store s3 = st" "ms_cache s3 = cache_set (me_now env) k (vr_candles r) (historical_ttl s) (ms_cache s)"
          "ms_sync_status s3 = (if vr_valid r then Sync_Complete else Sync_Partial)" using hs(1) gs(1) by simp_all
        then show ?thesis using that(2) [OF f [unfolded Inr] u [unfolded w], of "take (length gs) ?gs" hs] e ev hs(2-4)
          by (cases q) simp_all
      qed
    qed
  qed
qed

subsection \<open>The repository under the service\<close>

text \<open>Every stored candle lies under its own key.\<close>

definition store_ok :: "candle_store \<Rightarrow> bool" where
  "store_ok r \<longleftrightarrow> distinct (map fst (st_historical r))
     \<and> list_all (\<lambda>((s, tf, t), c). canonical_symbol (ck_symbol c) = Inr s \<and> tf = ck_timeframe c \<and> t = ck_timestamp c) (st_historical r)"

definition stored_under :: "candle \<Rightarrow> candle_store \<Rightarrow> bool" where
  "stored_under c r \<longleftrightarrow> (\<exists>s. canonical_symbol (ck_symbol c) = Inr s
     \<and> map_of (st_historical r) (s, ck_timeframe c, ck_timestamp c) = Some c)"

lemma list_all_update: "list_all P xs \<Longrightarrow> P (k, v) \<Longrightarrow> list_all P (AList.update k v xs)"
  by (induction xs) auto

lemma store_candle_Inr:
  assumes "store_candle c r = Inr r'" "store_ok r"
  shows "store_ok r'" "stored_under c r'" "st_realtime r' = st_realtime r"
    "stored_under d r \<Longrightarrow> ck_timestamp d \<noteq> ck_timestamp c \<Longrightarrow> stored_under d r'"
  using assms by (auto simp: store_candle_def bindE_eq_Inr store_ok_def stored_under_def distinct_update update_conv' intro: list_all_update)

lemma upsert_Inr:
  "upsert_historical cs r = (r', Inr x) \<Longrightarrow> store_ok r \<Longrightarrow> store_ok r' \<and> st_realtime r' = st_realtime r
    \<and> (\<forall>d. stored_under d r \<longrightarrow> ck_timestamp d \<notin> ck_timestamp ` set cs \<longrightarrow> stored_under d r')
    \<and> (distinct (map ck_timestamp cs) \<longrightarrow> (\<forall>c \<in> set cs. stored_under c r'))"
proof (induction cs arbitrary: r)
  case (Cons c cs)
  then obtain r1 where r1: "store_candle c r = Inr r1" "upsert_historical cs r1 = (r', Inr x)"
    by (auto split: sum.split_asm)
  note s = store_candle_Inr [OF r1(1) Cons.prems(2)]
  show ?case using Cons.IH [OF r1(2) s(1)] s by auto
qed simp

lemma upsert_ok: "store_ok r \<Longrightarrow> store_ok (fst (upsert_historical cs r))"
proof (induction cs arbitrary: r)
  case (Cons c cs)
  then show ?case using store_candle_Inr(1) [of c r] by (auto split: sum.split)
qed simp

lemma append_ok: "store_ok r \<Longrightarrow> store_ok (fst (append_realtime c r))"
  unfolding append_realtime_def by (rule upsert_ok) (simp add: store_ok_def)

text \<open>Reading one series at a time.\<close>

lemma last_n_one: "xs \<noteq> [] \<Longrightarrow> last_n 1 xs = [last xs]"
  by (cases xs rule: rev_cases) (simp_all add: last_n_def)

lemma candle_at_stored:
  assumes "store_ok r" "map_of (st_historical r) (s, tf, t) = Some c" "canonical_symbol symbol = Inr s"
  shows "candle_at symbol tf t r = Inr (Some c)"
proof -
  let ?xs = "select_history s tf None (Some t) r"
  have key: "ck_timeframe d = tf' \<and> ck_timestamp d = t' \<and> canonical_symbol (ck_symbol d) = Inr s'"
    if "((s', tf', t'), d) \<in> set (st_historical r)" for s' tf' t' d
    using assms(1) that by (auto simp: store_ok_def list_all_iff)
  have c: "c \<in> set ?xs" "ck_timestamp c = t"
    using map_of_SomeD [OF assms(2)] key by (force simp: select_history_def within_window_def)+
  have le: "ck_timestamp d \<le> t" if "d \<in> set ?xs" for d
    using that by (auto simp: select_history_def within_window_def)
  have only: "d = c" if "d \<in> set ?xs" "ck_timestamp d = t" for d
  proof -
    obtain t' where d: "((s, tf, t'), d) \<in> set (st_historical r)" using \<open>d \<in> set ?xs\<close> by (auto simp: select_history_def)
    then have "t' = t" using key that(2) by blast
    then show ?thesis using d assms(1,2) by (simp add: store_ok_def)
  qed
  let ?ys = "sort_key ck_timestamp ?xs"
  have "c \<in> set ?ys" using c by simp
  then have "?ys \<noteq> []" by force
  then have ys: "?ys \<noteq> []" "last ?ys \<in> set ?xs" using last_in_set [of ?ys] by auto
  have "ck_timestamp (last ?ys) = t"
  proof (rule antisym)
    show "ck_timestamp (last ?ys) \<le> t" using le ys(2) by blast
    have "sorted (map ck_timestamp ?ys)" by (rule sorted_sort_key)
    moreover obtain i where i: "i < length ?ys" "?ys ! i = c" using c(1) by (metis in_set_conv_nth set_sort)
    ultimately have "ck_timestamp (?ys ! i) \<le> ck_timestamp (?ys ! (length ?ys - 1))"
      using sorted_nth_mono [of "map ck_timestamp ?ys" i "length ?ys - 1"] by simp
    then show "t \<le> ck_timestamp (last ?ys)" using i c(2) ys(1) by (simp add: last_conv_nth)
  qed
  then have "last ?ys = c" using only ys(2) by blast
  moreover have "last_n 1 ?ys = [last ?ys]" using ys(1) by (rule last_n_one)
  ultimately show ?thesis using assms(3) by (simp add: candle_at_def stored_history_def)
qed

subsection \<open>Cache lemmas\<close>

lemma set_get_memory:
  assumes "memory_ok c" "1 \<le> mc_max_entries c"
  shows "map_of (mc_memory (cache_set now k cs ttl c)) k = Some (now + seconds_td ttl, cs)"
proof -
  let ?v = "(now + seconds_td ttl, cs)"
  let ?m = "to_end k ?v (mc_memory c)"
  let ?i = "length ?m - nat (mc_max_entries c)"
  have "mc_memory (cache_set now k cs ttl c) = drop ?i ?m"
    using assms by (simp add: cache_set_def Let_def store_memory_def evict_eq memory_ok_def)
  also have "\<dots> = drop ?i (AList.delete k (mc_memory c)) @ [(k, ?v)]"
    using assms(2) by (simp add: to_end_def)
  finally have "mc_memory (cache_set now k cs ttl c) = drop ?i (AList.delete k (mc_memory c)) @ [(k, ?v)]" .
  moreover have "map_of (drop ?i (AList.delete k (mc_memory c))) k = None"
    by (auto simp: map_of_eq_None_iff AList.delete_eq dest: in_set_dropD)
  ultimately show ?thesis by (simp add: map_add_def)
qed

lemma cache_set_max: "memory_ok c \<Longrightarrow> mc_max_entries (cache_set now k cs ttl c) = mc_max_entries c"
  by (simp add: cache_set_def Let_def store_memory_ok(3))

lemma get_memory_hit:
  "map_of (mc_memory c) k = Some (e, cs) \<Longrightarrow> now < e \<Longrightarrow> snd (cache_get now k c) = Some cs"
  by (simp add: cache_get_def Let_def)

text \<open>A history fetched from the providers is served again from the cache, without asking a
  provider, reading the repository or publishing anything, until the time to live of the history
  cache has passed.\<close>

theorem history_served_again:
  assumes "history env symbol tf start stop limit True s = (s', Inr cs)" "memory_ok (ms_cache s)"
    "1 \<le> mc_max_entries (ms_cache s)" "me_now env' < me_now env + seconds_td (historical_ttl s)"
  shows "\<exists>c. history env' symbol tf start stop limit False s' = (s'\<lparr>ms_cache := c\<rparr>, Inr cs)"
proof -
  obtain S where S: "canonical_symbol symbol = Inr S" using assms(1) by (auto simp: history_def split: sum.split_asm)
  let ?k = "key_text ''history'' S tf start stop (Some limit)"
  have f: "fetch_history env ?k \<lparr>pq_symbol = S, pq_timeframe = tf, pq_start = start, pq_end = stop, pq_limit = limit\<rparr> s = (s', Inr cs)"
    using assms(1) by (simp add: history_def S Let_def)
  then have "ms_cache s' = cache_set (me_now env) ?k cs (historical_ttl s) (ms_cache s)"
    by (cases rule: fetch_history_cases) (simp_all add: Let_def)
  then have "snd (cache_get (me_now env') ?k (ms_cache s')) = Some cs"
    using get_memory_hit [OF set_get_memory [OF assms(2,3)] assms(4)] by simp
  then show ?thesis by (auto simp: history_def S Let_def split: prod.split)
qed

text \<open>An entry that a file holds, and that the memory layer does not contradict.\<close>

definition entry_held :: "string \<Rightarrow> instant \<Rightarrow> candle list \<Rightarrow> market_cache \<Rightarrow> bool" where
  "entry_held k e cs c \<longleftrightarrow> memory_ok c \<and> map_of (mc_files c) (safe_name k) = Some (Cached (e, cs)) \<and> list_all candle_ok cs
     \<and> (map_of (mc_memory c) k = None \<or> map_of (mc_memory c) k = Some (e, cs))"

lemma held_served: "entry_held k e cs c \<Longrightarrow> now < e \<Longrightarrow> snd (cache_get now k c) = Some cs"
  by (auto simp: entry_held_def cache_get_def read_file_def Let_def)

lemma held_fields [simp]:
  "entry_held k e cs (c\<lparr>mc_statistics := x\<rparr>) = entry_held k e cs c" "entry_held k e cs (hit c) = entry_held k e cs c"
  "entry_held k e cs (miss c) = entry_held k e cs c"
  by (simp_all add: entry_held_def hit_def miss_def)

lemma held_memory:
  assumes "entry_held k e cs c" "memory_ok d" "mc_files d = mc_files c"
    "map_of (mc_memory d) k = None \<or> map_of (mc_memory d) k = map_of (mc_memory c) k"
  shows "entry_held k e cs d"
  using assms unfolding entry_held_def by (metis option.distinct(1))

lemma held_unlink: "entry_held k e cs c \<Longrightarrow> safe_name k' \<noteq> safe_name k \<Longrightarrow> entry_held k e cs (unlink k' c)"
  by (auto simp: entry_held_def)

lemma held_load:
  assumes "entry_held k e cs c" "k' \<noteq> k"
  shows "entry_held k e cs (store_memory k' v c)"
proof -
  note m = store_memory_ok [where k = k' and v = v, OF conjunct1 [OF assms(1) [unfolded entry_held_def]]]
  have "map_of (mc_memory (store_memory k' v c)) k = None \<or> map_of (mc_memory (store_memory k' v c)) k = map_of (mc_memory c) k"
    using m(4) [of k] assms(2) by (cases "map_of (mc_memory (store_memory k' v c)) k") auto
  then show ?thesis using m held_memory [OF assms(1)] by simp
qed

lemma held_read: "entry_held k e cs c \<Longrightarrow> safe_name k' \<noteq> safe_name k \<Longrightarrow> entry_held k e cs (fst (read_file now k' c))"
  by (cases "k' = k") (auto simp: read_file_def held_load held_unlink split: option.split cache_file.split)

lemma held_get:
  assumes "entry_held k e cs c" "safe_name k' \<noteq> safe_name k"
  shows "entry_held k e cs (fst (cache_get now k' c))"
proof -
  let ?c = "c\<lparr>mc_statistics := (mc_statistics c)\<lparr>ca_last_read_at := Some now\<rparr>\<rparr>"
  have c: "entry_held k e cs ?c" "k' \<noteq> k" using assms by auto
  then have m: "memory_ok ?c" by (simp add: entry_held_def)
  have "entry_held k e cs (?c\<lparr>mc_memory := to_end k' v (mc_memory c)\<rparr>)" if "map_of (mc_memory c) k' = Some v" for v
    using memory_ok_touch [OF m, of k' v] that c by (intro held_memory [OF c(1)]) auto
  moreover have "entry_held k e cs (?c\<lparr>mc_memory := AList.delete k' (mc_memory c)\<rparr>)"
    using memory_ok_delete [OF m, of k'] c by (intro held_memory [OF c(1)]) (auto simp: delete_conv')
  ultimately show ?thesis
    using held_read [OF c(1) assms(2)] held_read [OF _ assms(2)] by (auto simp: cache_get_def Let_def split: option.split)
qed

lemma held_set: "entry_held k e cs c \<Longrightarrow> safe_name k' \<noteq> safe_name k \<Longrightarrow> entry_held k e cs (cache_set now k' xs ttl c)"
proof -
  assume h: "entry_held k e cs c" "safe_name k' \<noteq> safe_name k"
  then have "entry_held k e cs (store_memory k' (now + seconds_td ttl, xs) c)" by (intro held_load) auto
  then show ?thesis using h(2) by (simp add: cache_set_def Let_def entry_held_def update_conv')
qed

lemma held_invalidate:
  assumes "entry_held k e cs c" "p \<noteq> []" "\<not> starts_with p k" "\<not> starts_with (safe_name p) (safe_name k)"
  shows "entry_held k e cs (cache_invalidate p c)"
proof -
  have "map_of (mc_files (cache_invalidate p c)) (safe_name k) = map_of (mc_files c) (safe_name k)"
    using assms(2,4) map_of_filter_keys [of "\<lambda>n. \<not> (p = [] \<or> starts_with (safe_name p) n)" "mc_files c" "safe_name k"]
    by (simp add: cache_invalidate_def)
  moreover have "map_of (mc_memory (cache_invalidate p c)) k = map_of (mc_memory c) k"
    using assms(3) by (simp add: cache_invalidate_def map_of_filter_keys)
  ultimately show ?thesis using assms(1) cache_invalidate_ok [of c p] by (simp add: entry_held_def)
qed

subsection \<open>A poll and the cached histories\<close>

lemma count_poll_fields [simp]: "ms_cache (count_poll f s) = ms_cache s" "ms_store (count_poll f s) = ms_store s"
  "ms_config (count_poll f s) = ms_config s" "ms_cache (add_writes n s) = ms_cache s" "ms_store (add_writes n s) = ms_store s"
  "ms_manager (count_poll f s) = ms_manager s" "ms_events (count_poll f s) = ms_events s" "ms_events (add_writes n s) = ms_events s"
  "ms_config (add_writes n s) = ms_config s" "ms_sync_status (count_poll f s) = ms_sync_status s"
  by (simp_all add: count_poll_def add_writes_def)

lemma backfill_fields: "ms_cache (fst (backfill env symbol tf p c s)) = ms_cache s" "ms_config (fst (backfill env symbol tf p c s)) = ms_config s"
  by (simp_all add: backfill_def Let_def split: prod.split sum.split)

definition polled_cache :: "market_env \<Rightarrow> string \<Rightarrow> bar_timeframe \<Rightarrow> candle \<Rightarrow> market_service \<Rightarrow> market_cache" where
  "polled_cache env symbol tf c s = cache_set (me_now env) (key_text ''latest'' symbol tf None None None) [c]
     (cf_realtime_ttl_seconds (mg_cache (ms_config s)))
     (cache_invalidate (key_text ''history'' symbol tf None None None) (ms_cache s))"

lemma publish_closed_effect:
  "ms_store (fst (publish_closed env symbol tf same c cs s)) = fst (append_realtime c (ms_store s))"
  "ms_cache (fst (publish_closed env symbol tf same c cs s)) =
     (case snd (append_realtime c (ms_store s)) of Inl _ \<Rightarrow> ms_cache s | Inr _ \<Rightarrow> polled_cache env symbol tf c s)"
  "snd (publish_closed env symbol tf same c cs s) = Inr x \<Longrightarrow> x = Some c \<and> \<not> isl (snd (append_realtime c (ms_store s)))"
proof -
  obtain st y where a: "append_realtime c (ms_store s) = (st, y)" by fastforce
  define s1 where "s1 = add_writes 1 (s\<lparr>ms_store := st\<rparr>)"
  define s2 where "s2 = count_poll (\<lambda>p. if same then p\<lparr>po_corrected_responses := po_corrected_responses p + 1\<rparr>
      else p\<lparr>po_new_closed_candles := po_new_closed_candles p + int (length cs)\<rparr>) (s1\<lparr>ms_cache := polled_cache env symbol tf c s\<rparr>)"
  have s2: "ms_store s2 = st" "ms_cache s2 = polled_cache env symbol tf c s" by (simp_all add: s1_def s2_def)
  obtain s3 z where p: "announce_all env ((if same then [] else map New_Candle cs) @ [Realtime_Updated symbol tf]) s2 = (s3, z)" by fastforce
  have s3: "ms_store s3 = st" "ms_cache s3 = polled_cache env symbol tf c s"
    using announce_all_fields(1,2) [of env "(if same then [] else map New_Candle cs) @ [Realtime_Updated symbol tf]" s2] p s2 by simp_all
  have eq: "publish_closed env symbol tf same c cs s = (case y of Inl e \<Rightarrow> (s\<lparr>ms_store := st\<rparr>, Inl (Data_Error e))
      | Inr _ \<Rightarrow> (s3, case z of Inl e \<Rightarrow> Inl e | Inr _ \<Rightarrow> Inr (Some c)))"
    using p unfolding publish_closed_def a Let_def s2_def s1_def polled_cache_def by (simp split: sum.split)
  show "ms_store (fst (publish_closed env symbol tf same c cs s)) = fst (append_realtime c (ms_store s))"
    "ms_cache (fst (publish_closed env symbol tf same c cs s)) =
       (case snd (append_realtime c (ms_store s)) of Inl _ \<Rightarrow> ms_cache s | Inr _ \<Rightarrow> polled_cache env symbol tf c s)"
    by (simp_all add: eq a s3 split: sum.split)
  show "x = Some c \<and> \<not> isl (snd (append_realtime c (ms_store s)))"
    if "snd (publish_closed env symbol tf same c cs s) = Inr x"
    using that by (simp add: eq a split: sum.split_asm)
qed

lemma publish_cache: "ms_cache (fst (publish_closed env symbol tf same c cs s)) = ms_cache s
   \<or> ms_cache (fst (publish_closed env symbol tf same c cs s)) = polled_cache env symbol tf c s"
  by (simp add: publish_closed_effect(2) split: sum.split)

lemma poll_cache: "ms_cache (fst (poll_latest env symbol tf s)) = ms_cache s
   \<or> (\<exists>c. ms_cache (fst (poll_latest env symbol tf s)) = polled_cache env symbol tf c s)"
proof -
  define ok where "ok d \<longleftrightarrow> d = ms_cache s \<or> (\<exists>c. d = polled_cache env symbol tf c s)" for d
  obtain m x where ml: "manager_latest (me_now env) (me_latest env) symbol tf (ms_manager s) = (m, x)" by fastforce
  define s0 where "s0 = count_poll (\<lambda>p. p\<lparr>po_attempts := po_attempts p + 1\<rparr>) (s\<lparr>ms_realtime_status := Rt_Polling\<rparr>)"
  have s0: "ms_manager s0 = ms_manager s" "ms_cache s0 = ms_cache s" "ms_config s0 = ms_config s" by (simp_all add: s0_def)
  have same: "ok (ms_cache s)" by (simp add: ok_def)
  have pub: "ok (ms_cache (fst (publish_closed env symbol tf e c cs s2)))"
    if "ms_cache s2 = ms_cache s" "ms_config s2 = ms_config s" for e c cs s2
    using publish_cache [of env symbol tf e c cs s2] that by (auto simp: polled_cache_def ok_def)
  have bf: "ok (ms_cache (fst (case backfill env symbol tf p c s2 of (s3, Inl e) \<Rightarrow> (s3, Inl e) | (s3, Inr cs) \<Rightarrow> publish_closed env symbol tf False c cs s3)))"
    if "ms_cache s2 = ms_cache s" "ms_config s2 = ms_config s" for p c s2
  proof -
    obtain s3 y where b: "backfill env symbol tf p c s2 = (s3, y)" by fastforce
    then have "ms_cache s3 = ms_cache s" "ms_config s3 = ms_config s" using backfill_fields [of env symbol tf p c s2] that by simp_all
    then show ?thesis using b by (cases y) (simp_all add: same pub)
  qed
  have "ok (ms_cache (fst (poll_latest env symbol tf s)))"
    unfolding poll_latest_def s0_def [symmetric]
    by (simp add: Let_def s0 ml same pub bf split: sum.split option.split del: split_paired_All)
  then show ?thesis by (simp add: ok_def)
qed

text \<open>The text of a key from the start on. A timestamp of the years of \<open>datetime\<close> from 1970 on begins with
  a digit.\<close>

definition key_rest :: "instant option \<Rightarrow> instant option \<Rightarrow> int option \<Rightarrow> string" where
  "key_rest start stop limit = iso_opt start @ '':'' @ iso_opt stop @ '':'' @ (case limit of None \<Rightarrow> [] | Some n \<Rightarrow> if n = 0 then [] else str_int n)"

lemma key_text_eq: "key_text kind symbol tf start stop limit = kind @ '':'' @ symbol @ '':'' @ bar_timeframe_value tf @ '':'' @ key_rest start stop limit"
  by (simp add: key_text_def key_rest_def)

lemma digits10_digit: "0 \<le> n \<Longrightarrow> digits10 n \<noteq> [] \<and> is_alnum (hd (digits10 n)) \<and> hd (digits10 n) \<noteq> CHR '':''"
proof (induction n rule: digits10.induct)
  case (1 n)
  show ?case
  proof (cases "n < 10")
    case True
    have "list_all (\<lambda>d. is_alnum (char_of (48 + int d)) \<and> char_of (48 + int d) \<noteq> CHR '':'') [0, 1, 2, 3, 4, 5, 6, 7, 8, 9]"
      by code_simp
    moreover have "nat n \<in> set [0, 1, 2, 3, 4, 5, 6, 7, 8, 9]" using True 1 by (simp; presburger)
    ultimately have "is_alnum (char_of (48 + int (nat n))) \<and> char_of (48 + int (nat n)) \<noteq> CHR '':''" unfolding list_all_iff by blast
    then show ?thesis using True 1 by (subst (1 2 3) digits10.simps) simp
  next
    case False
    then show ?thesis using 1 by (subst (1 2 3) digits10.simps) auto
  qed
qed

lemma isoformat_digit:
  assumes "0 \<le> t"
  shows "\<exists>c cs. isoformat t = c # cs \<and> is_alnum c \<and> c \<noteq> CHR '':''"
proof -
  define z where "z = t div 1000000 div 86400 + 719468"
  have z: "0 \<le> z div 146097" "0 \<le> z mod 146097" "z mod 146097 < 146097" using assms by (simp_all add: z_def pos_imp_zdiv_nonneg_iff)
  obtain y m d where y: "civil_from_days (t div 1000000 div 86400) = (y, m, d)" by (metis prod_cases3)
  have mono: "z mod 146097 div 146096 \<le> z mod 146097 div 36524" using z(2) by (intro zdiv_mono2) auto
  have "z mod 146097 div 1460 \<le> z mod 146097" using z(2) zdiv_mono2 [of "z mod 146097" 1 1460] by simp
  then have "0 \<le> (z mod 146097 - z mod 146097 div 1460 + z mod 146097 div 36524 - z mod 146097 div 146096) div 365" (is "0 \<le> ?yoe")
    using mono by (intro pos_imp_zdiv_nonneg_iff [THEN iffD2]) auto
  moreover obtain b where "fst (civil_from_days (t div 1000000 div 86400)) = (z mod 146097 - z mod 146097 div 1460 + z mod 146097 div 36524 - z mod 146097 div 146096) div 365
      + z div 146097 * 400 + (if b then 1 else 0)"
    unfolding civil_from_days_def Let_def z_def [symmetric] fst_conv by blast
  moreover have "0 \<le> (if b then 1 else 0 :: int)" by simp
  ultimately have "0 \<le> y" using z(1) unfolding y fst_conv by linarith
  then have "zpad 4 y = replicate (4 - length (digits10 y)) (CHR ''0'') @ digits10 y"
    by (simp add: zpad_def str_int_def pad_left_def)
  then have "\<exists>c cs. zpad 4 y = c # cs \<and> is_alnum c \<and> c \<noteq> CHR '':''"
    using digits10_digit [OF \<open>0 \<le> y\<close>] by (cases "4 - length (digits10 y)"; cases "digits10 y") (auto simp: is_alnum_def)
  then show ?thesis by (auto simp: isoformat_def Let_def y)
qed


subsection \<open>What a poll leaves in the cache\<close>

definition key_head :: "string \<Rightarrow> bar_timeframe \<Rightarrow> string" where
  "key_head symbol tf = ''history:'' @ symbol @ '':'' @ bar_timeframe_value tf @ '':''"

lemma history_key: "key_text ''history'' symbol tf start stop limit = key_head symbol tf @ key_rest start stop limit"
  by (simp add: key_text_eq key_head_def)

lemma windowed_key:
  assumes "0 \<le> t"
  shows "\<exists>c cs. key_rest (Some t) stop limit = c # cs \<and> is_alnum c \<and> c \<noteq> CHR '':''"
  using isoformat_digit [OF assms] by (auto simp: key_rest_def iso_opt_def)

lemma not_alnum: "\<not> is_alnum (CHR '':'')" "\<not> is_alnum (CHR ''_'')" by code_simp+

lemma safe_name_append: "safe_name (x @ y) = safe_name x @ safe_name y" by (simp add: safe_name_def)

lemma starts_with_append: "starts_with (p @ x) (p @ y) = starts_with x y" by (simp add: starts_with_def)

lemma windowed_kept:
  assumes "0 \<le> t"
  shows "\<not> starts_with (key_text ''history'' symbol tf None None None) (key_text ''history'' symbol tf (Some t) stop limit)"
    "\<not> starts_with (safe_name (key_text ''history'' symbol tf None None None)) (safe_name (key_text ''history'' symbol tf (Some t) stop limit))"
proof -
  obtain c cs where k: "key_rest (Some t) stop limit = c # cs" "is_alnum c" "c \<noteq> CHR '':''" using windowed_key [OF assms] by blast
  have r: "key_rest None None None = ''::''" by (simp add: key_rest_def iso_opt_def)
  show "\<not> starts_with (key_text ''history'' symbol tf None None None) (key_text ''history'' symbol tf (Some t) stop limit)"
    using k by (simp add: history_key starts_with_append r) (simp add: starts_with_def)
  show "\<not> starts_with (safe_name (key_text ''history'' symbol tf None None None)) (safe_name (key_text ''history'' symbol tf (Some t) stop limit))"
    using k not_alnum by (simp add: history_key safe_name_append starts_with_append r) (auto simp: starts_with_def safe_name_def)
qed

lemma unbounded_dropped: "starts_with (key_text ''history'' symbol tf None None None) (key_text ''history'' symbol tf None None limit)"
  by (simp add: history_key starts_with_append) (simp add: starts_with_def key_rest_def iso_opt_def)

lemma latest_history_names: "safe_name (key_text ''latest'' symbol tf None None None) \<noteq> safe_name (key_text ''history'' symbol tf start stop limit)"
  by (simp add: key_text_def safe_name_def is_alnum_def)

lemma held_polled:
  assumes "entry_held (key_text ''history'' symbol tf (Some t) stop limit) e cs (ms_cache s)" "0 \<le> t"
  shows "entry_held (key_text ''history'' symbol tf (Some t) stop limit) e cs (polled_cache env symbol tf c s)"
  unfolding polled_cache_def
  by (intro held_set held_invalidate [OF assms(1)] latest_history_names windowed_kept assms(2)) (simp add: key_text_def)

lemma held_after_latest:
  assumes "entry_held (key_text ''history'' S tf (Some t) stop limit) e cs (ms_cache s)" "0 \<le> t" "canonical_symbol symbol = Inr S"
  shows "entry_held (key_text ''history'' S tf (Some t) stop limit) e cs (ms_cache (fst (latest_candle env symbol tf True s)))"
proof -
  have "latest_candle env symbol tf True s = poll_latest env S tf s" by (simp add: latest_candle_def assms(3))
  then show ?thesis using poll_cache [of env S tf s] assms(1) held_polled [OF assms(1,2)] by auto
qed

text \<open>Polling the latest candle does not refresh the cached histories that have a start: whatever
  the poll stores, a history request with a window is still answered with the candles cached before the
  poll, until the entry expires. The prefix that \<open>latest\<close> invalidates ends in the empty start and
  stop of an unbounded request, so only the unbounded histories are dropped.\<close>

theorem poll_keeps_windowed_history:
  assumes "canonical_symbol symbol = Inr S" "0 \<le> t"
    and "entry_held (key_text ''history'' S tf (Some t) stop (Some limit)) e cs (ms_cache s)" "me_now env' < e"
  shows "snd (history env' symbol tf (Some t) stop limit False (fst (latest_candle env symbol tf True s))) = Inr cs"
proof -
  let ?k = "key_text ''history'' S tf (Some t) stop (Some limit)"
  let ?s = "fst (latest_candle env symbol tf True s)"
  have "snd (cache_get (me_now env') ?k (ms_cache ?s)) = Some cs"
    using held_served [OF held_after_latest [OF assms(3,2,1)] assms(4)] .
  then show ?thesis by (cases "cache_get (me_now env') ?k (ms_cache ?s)") (simp add: history_def assms(1) Let_def)
qed


subsection \<open>Reading back what a poll stored\<close>

lemma publish_reads_back:
  assumes "store_ok (ms_store s)"
  shows "store_ok (ms_store (fst (publish_closed env symbol tf e c cs s)))"
    "snd (publish_closed env symbol tf e c cs s) = Inr x \<Longrightarrow> x = Some c \<and> stored_under c (ms_store (fst (publish_closed env symbol tf e c cs s)))"
proof -
  let ?r = "ms_store s\<lparr>st_realtime := st_realtime (ms_store s) @ [c]\<rparr>"
  have r: "store_ok ?r" using assms by (simp add: store_ok_def)
  show "store_ok (ms_store (fst (publish_closed env symbol tf e c cs s)))"
    using append_ok [OF assms, of c] by (simp add: publish_closed_effect(1))
  show "x = Some c \<and> stored_under c (ms_store (fst (publish_closed env symbol tf e c cs s)))"
    if x: "snd (publish_closed env symbol tf e c cs s) = Inr x"
  proof -
    obtain st z where a: "append_realtime c (ms_store s) = (st, Inr z)"
      using publish_closed_effect(3) [OF x] by (cases "append_realtime c (ms_store s)"; cases "snd (append_realtime c (ms_store s))") auto
    then have u: "upsert_historical [c] ?r = (st, Inr z)" by (simp add: append_realtime_def)
    have "stored_under c st" using upsert_Inr [OF u r] by simp
    then show ?thesis using publish_closed_effect(3) [OF x] a by (simp add: publish_closed_effect(1))
  qed
qed

lemma backfill_ok: "store_ok (ms_store s) \<Longrightarrow> store_ok (ms_store (fst (backfill env symbol tf p c s)))"
  using upsert_ok [of "ms_store s"] by (auto simp: backfill_def Let_def split: prod.split sum.split) (metis fst_conv)+

lemma stored_read:
  assumes "stored_under c r" "store_ok r" "canonical_symbol (ck_symbol c) = Inr S" "ck_timeframe c = tf" "canonical_symbol symbol = Inr S"
  shows "candle_at symbol tf (ck_timestamp c) r = Inr (Some c)"
  using candle_at_stored [OF assms(2) _ assms(5)] assms(1,3,4) by (auto simp: stored_under_def)

lemma poll_reads:
  assumes "store_ok (ms_store s)" "canonical_symbol S = Inr S"
  shows "store_ok (ms_store (fst (poll_latest env S tf s)))"
    "snd (poll_latest env S tf s) = Inr (Some c) \<Longrightarrow> canonical_symbol (ck_symbol c) = Inr S \<Longrightarrow> ck_timeframe c = tf
      \<Longrightarrow> candle_at S tf (ck_timestamp c) (ms_store (fst (poll_latest env S tf s))) = Inr (Some c)"
proof -
  define ok where "ok y \<longleftrightarrow> store_ok (ms_store (fst y)) \<and> (\<forall>c. snd y = Inr (Some c) \<longrightarrow> canonical_symbol (ck_symbol c) = Inr S
     \<longrightarrow> ck_timeframe c = tf \<longrightarrow> candle_at S tf (ck_timestamp c) (ms_store (fst y)) = Inr (Some c))"
    for y :: "market_service \<times> (service_error + candle option)"
  obtain m x where ml: "manager_latest (me_now env) (me_latest env) S tf (ms_manager s) = (m, x)" by fastforce
  define s0 where "s0 = count_poll (\<lambda>p. p\<lparr>po_attempts := po_attempts p + 1\<rparr>) (s\<lparr>ms_realtime_status := Rt_Polling\<rparr>)"
  have s0: "ms_manager s0 = ms_manager s" "ms_store s0 = ms_store s" "ms_config s0 = ms_config s" by (simp_all add: s0_def)
  have fails: "ok (s2, Inl e)" if "ms_store s2 = ms_store s" for s2 e using that assms by (simp add: ok_def)
  have pub: "ok (publish_closed env S tf e c cs s2)" if "store_ok (ms_store s2)" for e c cs s2
    using publish_reads_back [OF that, of env S tf e c cs] stored_read [OF _ _ _ _ assms(2)] by (auto simp: ok_def)
  have bf: "ok (case backfill env S tf p c s2 of (s3, Inl e) \<Rightarrow> (s3, Inl e) | (s3, Inr cs) \<Rightarrow> publish_closed env S tf False c cs s3)"
    if "ms_store s2 = ms_store s" for p c s2
  proof -
    obtain s3 y where b: "backfill env S tf p c s2 = (s3, y)" by fastforce
    then have "store_ok (ms_store s3)" using backfill_ok [of s2 env S tf p c] that assms(1) by simp
    then show ?thesis using b pub by (cases y) (simp_all add: ok_def)
  qed
  have known: "ok (s2, Inr (Some p))" if "candle_at S tf (ck_timestamp p) (ms_store s) = Inr (Some p)" "ms_store s2 = ms_store s" for p s2
    using that assms(1) by (simp add: ok_def)
  have "ok (poll_latest env S tf s)"
    unfolding poll_latest_def s0_def [symmetric]
    by (auto simp add: Let_def s0 ml fails bf assms intro!: pub known split: sum.split option.split)
  then show "store_ok (ms_store (fst (poll_latest env S tf s)))"
    "snd (poll_latest env S tf s) = Inr (Some c) \<Longrightarrow> canonical_symbol (ck_symbol c) = Inr S \<Longrightarrow> ck_timeframe c = tf
      \<Longrightarrow> candle_at S tf (ck_timestamp c) (ms_store (fst (poll_latest env S tf s))) = Inr (Some c)"
    by (simp_all add: ok_def)
qed

text \<open>Claim C25: the repository stays keyed by the candles it holds across a poll, and the candle a successful poll
  returns, be it new, corrected or already known, is what the repository reads at its timestamp.\<close>

theorem poll_reads_back:
  assumes "latest_candle env symbol tf True s = (s', r)" "store_ok (ms_store s)" "canonical_symbol symbol = Inr S"
  shows "store_ok (ms_store s') \<and> (\<forall>c. r = Inr (Some c) \<and> canonical_symbol (ck_symbol c) = Inr S \<and> ck_timeframe c = tf
     \<longrightarrow> candle_at S tf (ck_timestamp c) (ms_store s') = Inr (Some c))"
proof -
  have "poll_latest env S tf s = (s', r)" using assms(1,3) by (simp add: latest_candle_def)
  then show ?thesis using poll_reads [OF assms(2) conjunct1 [OF canonical_symbol_idempotent [OF assms(3)]], of env tf] by auto
qed

subsection \<open>What a history request stores\<close>

definition series :: "candle list \<Rightarrow> bool" where
  "series cs \<longleftrightarrow> sorted_wrt (<) (map ck_timestamp cs)"

lemma validate_series: "validate cfg hs now cs = Inr r \<Longrightarrow> series (vr_candles r)"
proof (cases "cs = []")
  case False
  assume "validate cfg hs now cs = Inr r"
  then have "series cs" "map ck_timestamp (vr_candles r) = map ck_timestamp cs"
    using same_data_time [OF same_data_score] by (auto simp: validate_iff [OF False] Let_def series_def)
  then show ?thesis by (simp add: series_def)
qed (auto simp: validate_def series_def)

lemma cross_series: "cross_validate cfg calls symbol tf r m = (m', Inr (r', xs)) \<Longrightarrow> series (vr_candles r) \<Longrightarrow> series (vr_candles r')"
  by (auto simp: cross_validate_def series_def trimmed_report_def sorted_wrt_map sorted_wrt_filter Let_def
      split: if_split_asm option.split_asm sum.split_asm prod.split_asm)

lemma recovered_series: "recovered_report env s symbol tf r xs m = (m', Inr r') \<Longrightarrow> series (vr_candles r) \<Longrightarrow> series (vr_candles r')"
  by (auto simp: recovered_report_def data_result_def dest: validate_series split: if_split_asm sum.split_asm prod.split_asm)

lemma fetched_series: "fetch_report env s rq = (m, Inr r) \<Longrightarrow> series (vr_candles r)"
  by (auto simp: fetch_report_def bindE_eq_Inr dest!: validate_series cross_series recovered_series split: sum.split_asm prod.split_asm)

lemma series_distinct: "series cs \<Longrightarrow> distinct (map ck_timestamp cs)"
  by (simp add: series_def strict_sorted_iff)

text \<open>Claim C5: a history that is fetched is strictly increasing in time, every candle of it is what the
  repository now holds under its symbol, timeframe and timestamp, and candles of other times are
  untouched; the status is complete or partial, and what was published are gaps and then the update. When
  the fetch fails the status is failed, and either nothing but gaps was published and the cache is as it was,
  or the one thing that failed is the publication of the update: then the candles are stored and cached
  all the same, and the update is in the history of the bus unless the bus was closed.\<close>

theorem history_is_stored:
  assumes "history env symbol tf start stop limit True s = (s', x)" "canonical_symbol symbol = Inr S" "store_ok (ms_store s)"
  shows "let fetched = (\<lambda>cs. sorted_wrt (<) (map ck_timestamp cs) \<and> list_all (\<lambda>c. stored_under c (ms_store s')) cs
       \<and> (\<forall>d. stored_under d (ms_store s) \<longrightarrow> ck_timestamp d \<notin> ck_timestamp ` set cs \<longrightarrow> stored_under d (ms_store s'))
       \<and> ms_cache s' = cache_set (me_now env) (key_text ''history'' S tf start stop (Some limit)) cs (historical_ttl s) (ms_cache s))
     in case x of Inl e \<Rightarrow> ms_sync_status s' = Sync_Failed
       \<and> (\<exists>gs. ms_events s' = ms_events s @ map Gap_Detected gs \<and> ms_cache s' = ms_cache s
          \<or> (\<exists>cs n hs. fetched cs \<and> e = Publish_Error (Historical_Updated S tf (length cs) n)
              \<and> ms_events s' = ms_events s @ map Gap_Detected gs @ hs \<and> hs \<in> {[], [Historical_Updated S tf (length cs) n]}))
     | Inr cs \<Rightarrow> fetched cs \<and> ms_sync_status s' \<in> {Sync_Complete, Sync_Partial}
       \<and> (\<exists>gs n. ms_events s' = ms_events s @ map Gap_Detected gs @ [Historical_Updated S tf (length cs) n])"
proof -
  let ?k = "key_text ''history'' S tf start stop (Some limit)"
  let ?rq = "\<lparr>pq_symbol = S, pq_timeframe = tf, pq_start = start, pq_end = stop, pq_limit = limit\<rparr>"
  have "fetch_history env ?k ?rq s = (s', x)" using assms(1,2) by (simp add: history_def Let_def)
  then show ?thesis
  proof (cases rule: fetch_history_cases)
    case (1 e gs)
    then show ?thesis by auto
  next
    case (2 m r st y gs hs)
    note u = upsert_Inr [OF 2(2) assms(3)]
    have "sorted_wrt (<) (map ck_timestamp (vr_candles r))" "list_all (\<lambda>c. stored_under c (ms_store s')) (vr_candles r)"
      "\<forall>d. stored_under d (ms_store s) \<longrightarrow> ck_timestamp d \<notin> ck_timestamp ` set (vr_candles r) \<longrightarrow> stored_under d (ms_store s')"
      using 2(3) u fetched_series [OF 2(1)] series_distinct [OF fetched_series [OF 2(1)]] by (simp_all add: list_all_iff series_def)
    then show ?thesis using 2(4-6) unfolding Let_def by (elim disjE conjE) (simp_all, blast+)
  qed
qed


subsection \<open>Quarantine and recovery\<close>

lemma added_keys: "list_all (\<lambda>(k, v). ck_timestamp v = k) d
   \<Longrightarrow> list_all (\<lambda>(k, v). ck_timestamp v = k) (fold add_recovered cs d)"
proof (induction cs arbitrary: d)
  case (Cons c cs)
  then show ?case using same_data_time [OF same_data_score [of c]] by (simp add: add_recovered_def)
qed simp

lemma added_mono: "x \<in> set d \<Longrightarrow> x \<in> set (fold add_recovered cs d)"
  by (induction cs arbitrary: d) (auto simp: add_recovered_def)

lemma added_new: "t \<notin> fst ` set d \<Longrightarrow> c \<in> set cs \<Longrightarrow> ck_timestamp c = t
   \<Longrightarrow> \<exists>e \<in> set cs. ck_timestamp e = t \<and> (t, score_candle e [] True False False) \<in> set (fold add_recovered cs d)"
proof (induction cs arbitrary: d)
  case (Cons x cs)
  show ?case
  proof (cases "ck_timestamp x = t")
    case True
    then have "(t, score_candle x [] True False False) \<in> set (add_recovered x d)" using Cons.prems(1) by (simp add: add_recovered_def)
    then have "(t, score_candle x [] True False False) \<in> set (fold add_recovered (x # cs) d)" using added_mono by simp
    then show ?thesis using True by (intro bexI [of _ x]) simp_all
  next
    case False
    then have "t \<notin> fst ` set (add_recovered x d)" "c \<in> set cs" using Cons.prems by (auto simp: add_recovered_def)
    then show ?thesis using Cons.IH [OF _ _ Cons.prems(3)] by auto
  qed
qed simp

lemma keyed_keys: "fst ` set (fold (\<lambda>c. AList.update (ck_timestamp c) c) cs d) = ck_timestamp ` set cs \<union> fst ` set d"
  by (induction cs arbitrary: d) (auto simp: dom_update)

lemma merged_fills:
  assumes "t \<notin> ck_timestamp ` set cs" "c \<in> set alternate" "ck_timestamp c = t"
  shows "\<exists>e \<in> set alternate. ck_timestamp e = t \<and> score_candle e [] True False False \<in> set (merge_recovered cs alternate)"
proof -
  have "t \<notin> fst ` set (fold (\<lambda>c. AList.update (ck_timestamp c) c) cs [])" using assms(1) by (simp add: keyed_keys)
  from added_new [OF this assms(2,3)] show ?thesis unfolding merge_recovered_def by force
qed

lemma try_recover_find:
  assumes "find (\<lambda>n. Some n \<noteq> p) ns = Some a" "history_from (calls a) a m = (m', Inr alternate)"
  shows "try_recover calls p ns cs m = (m', merge_recovered cs alternate)"
  using assms by (induction ns) (auto split: if_split_asm)

lemma cross_quarantined:
  assumes "cross_validate cfg calls symbol tf r m = (m1, Inr (r1, xs))" "vr_candles r1 \<noteq> vr_candles r"
  obtains ns a alternate qs where "rankings m symbol tf False = Inr ns" "alternate_of m ns = Some a"
    "history_from (calls a) a m = (m1, Inr alternate)" "compare_sources cfg (vr_candles r) alternate None None = (xs, qs)"
    "vr_candles r1 = filter (\<lambda>c. ck_timestamp c \<notin> set qs) (vr_candles r)"
proof (cases "rankings m symbol tf False")
  case (Inl e)
  then show ?thesis using assms by (simp add: cross_validate_def split: if_split_asm)
next
  case ns: (Inr ns)
  show ?thesis
  proof (cases "alternate_of m ns")
    case None
    then show ?thesis using assms ns by (simp add: cross_validate_def split: if_split_asm)
  next
    case (Some a)
    obtain m' y where h: "history_from (calls a) a m = (m', y)" by fastforce
    show ?thesis
    proof (cases y)
      case (Inl e)
      then show ?thesis using assms ns Some h by (simp add: cross_validate_def split: if_split_asm)
    next
      case (Inr alternate)
      obtain xs' qs where c: "compare_sources cfg (vr_candles r) alternate None None = (xs', qs)" by fastforce
      have "m1 = m' \<and> xs = xs' \<and> r1 = trimmed_report r qs"
        using assms ns Some h Inr c by (simp add: cross_validate_def Let_def split: if_split_asm)
      then show ?thesis using that [OF ns Some] h Inr c by (simp add: trimmed_report_def)
    qed
  qed
qed

lemma find_Some_in: "find P xs = Some x \<Longrightarrow> x \<in> set xs \<and> P x"
  by (induction xs) (auto split: if_split_asm)

text \<open>A candle that cross-validation quarantines comes back from the source that contradicted it.
  When the ranking still names the same alternate first, gap recovery asks that source again
  and puts its candle, the one whose close deviates by more than the quarantine tolerance, at the
  quarantined time: no third source is consulted.\<close>

theorem quarantine_refilled_by_dissenter:
  assumes "cross_validate cfg calls symbol tf r m = (m1, Inr (r1, xs))"
    and "c \<in> set (vr_candles r)" "ck_timestamp c \<notin> ck_timestamp ` set (vr_candles r1)" "2 \<le> length (vr_candles r1)"
    and "rankings m symbol tf False = Inr ns" "rankings m1 symbol tf False = Inr ns1" "alternate_of m1 ns1 = alternate_of m ns"
    and "recover_gaps calls symbol tf (vr_candles r1) m1 = (m2, x)"
  shows "\<exists>a alternate d e p cs. alternate_of m ns = Some a \<and> pc_outcome (calls a) = Returned alternate
     \<and> d \<in> set (vr_candles r) \<and> ck_timestamp d = ck_timestamp c
     \<and> peer_of alternate d = Some p \<and> quarantine_limit cfg None < deviation d p
     \<and> x = Inr cs \<and> e \<in> set alternate \<and> ck_timestamp e = ck_timestamp c \<and> score_candle e [] True False False \<in> set cs"
proof -
  let ?t = "ck_timestamp c"
  have "vr_candles r1 \<noteq> vr_candles r" using assms(2,3) by auto
  from cross_quarantined [OF assms(1) this] obtain a alternate qs where q: "alternate_of m ns = Some a"
    "history_from (calls a) a m = (m1, Inr alternate)" "compare_sources cfg (vr_candles r) alternate None None = (xs, qs)"
    "vr_candles r1 = filter (\<lambda>c. ck_timestamp c \<notin> set qs) (vr_candles r)" using assms(5) by (metis sum.inject(2))
  have "?t \<in> set qs" using assms(2,3) q(4) by auto
  then obtain d p where d: "d \<in> set (vr_candles r)" "ck_timestamp d = ?t" "peer_of alternate d = Some p" "quarantine_limit cfg None < deviation d p"
    using quarantine_facts(1) [OF q(3)] by blast
  then have p: "p \<in> set alternate" "ck_timestamp p = ?t" using find_Some_in [of "\<lambda>q. ck_timestamp q = ck_timestamp d" "rev alternate" p] by (simp_all add: peer_of_def)
  have h: "pc_outcome (calls a) = Returned alternate" "a \<in> fst ` set (pm_registry m)"
    using q(2) by (auto simp: history_from_def split: if_split_asm call_outcome.split_asm)
  have m1: "pm_registry m1 = pm_registry m" "pm_current_provider m1 = pm_current_provider m"
    using q(2) h by (auto simp: history_from_def record_success_of_def update_statistics_def)
  have "\<exists>m'. history_from (calls a) a m1 = (m', Inr alternate)" using h m1 by (simp add: history_from_def)
  then obtain m' where "history_from (calls a) a m1 = (m', Inr alternate)" by blast
  moreover have "find (\<lambda>n. Some n \<noteq> pm_current_provider m1) ns1 = Some a" using assms(7) q(1) by (simp add: alternate_of_def)
  ultimately have "x = Inr (merge_recovered (vr_candles r1) alternate)"
    using assms(4,6,8) try_recover_find [of _ ns1 a calls m1 m' alternate "vr_candles r1"] by (simp add: recover_gaps_def)
  then show ?thesis using q(1) h(1) d merged_fills [OF assms(3) p] by blast
qed


subsection \<open>Witnesses\<close>

definition sample_market_service :: market_service where
  "sample_market_service = new_market_service default_market_data_config [] (sample_manager\<lparr>pm_current_provider := Some ''okx''\<rparr>)
     [(safe_name (key_text ''history'' ''XAUUSD'' Tf_M5 (Some 0) None (Some 500)), Cached (seconds_td 4000, sample_series))]"

definition sample_env :: market_env where
  "sample_env = \<lparr>me_now = seconds_td 1501, me_history = (\<lambda>n. sample_call (Returned sample_series)),
     me_cross = (\<lambda>n. sample_call (Returned [sample_candle 5 2500])), me_recover = (\<lambda>n. sample_call (Returned [sample_candle 5 2500])),
     me_latest = (\<lambda>n. \<lparr>pc_outcome = Returned (sample_candle 20 2002), pc_wrapper_latency = fint 120, pc_last_latency_ms = None,
       pc_last_total_latency_ms = None, pc_last_retry_count = 0, pc_quota = no_quota, pc_at = seconds_td 1501\<rparr>),
     me_backfill = (\<lambda>n. sample_call (Returned [])), me_delivery = (\<lambda>_ _. Delivered)\<rparr>"

lemma sample_symbol: "canonical_symbol ''XAU/USD'' = Inr ''XAUUSD''" by code_simp

lemma sample_store_ok: "store_ok (ms_store sample_market_service)" "memory_ok (ms_cache sample_market_service)" "mc_max_entries (ms_cache sample_market_service) = 256"
  "historical_ttl sample_market_service = 3600"
  by code_simp+

lemma sample_held: "entry_held (key_text ''history'' ''XAUUSD'' Tf_M5 (Some 0) None (Some 500)) (seconds_td 4000) sample_series (ms_cache sample_market_service)"
  by code_simp

theorem poll_keeps_windowed_history_witness:
  "snd (history (sample_env\<lparr>me_now := seconds_td 3000\<rparr>) ''XAU/USD'' Tf_M5 (Some 0) None 500 False
     (fst (latest_candle sample_env ''XAU/USD'' Tf_M5 True sample_market_service))) = Inr sample_series"
  using poll_keeps_windowed_history [OF sample_symbol _ sample_held, of "sample_env\<lparr>me_now := seconds_td 3000\<rparr>" sample_env]
  by (simp add: seconds_td_def)

lemma sample_fetched: "\<exists>s' cs. history sample_env ''XAU/USD'' Tf_M5 None None 500 True sample_market_service = (s', Inr cs)"
proof -
  have "\<not> isl (snd (history sample_env ''XAU/USD'' Tf_M5 None None 500 True sample_market_service))" by code_simp
  then show ?thesis
    by (cases "history sample_env ''XAU/USD'' Tf_M5 None None 500 True sample_market_service";
        cases "snd (history sample_env ''XAU/USD'' Tf_M5 None None 500 True sample_market_service)") auto
qed

theorem history_served_again_witness:
  "\<exists>s' cs c. history sample_env ''XAU/USD'' Tf_M5 None None 500 True sample_market_service = (s', Inr cs)
     \<and> history (sample_env\<lparr>me_now := seconds_td 5100\<rparr>) ''XAU/USD'' Tf_M5 None None 500 False s' = (s'\<lparr>ms_cache := c\<rparr>, Inr cs)"
proof -
  obtain s' cs where h: "history sample_env ''XAU/USD'' Tf_M5 None None 500 True sample_market_service = (s', Inr cs)" using sample_fetched by blast
  have "me_now (sample_env\<lparr>me_now := seconds_td 5100\<rparr>) < me_now sample_env + seconds_td (historical_ttl sample_market_service)"
    by (simp add: sample_store_ok sample_env_def seconds_td_def)
  then show ?thesis using h history_served_again [OF h] sample_store_ok by auto
qed

theorem history_is_stored_witness:
  "\<exists>s' cs. history sample_env ''XAU/USD'' Tf_M5 None None 500 True sample_market_service = (s', Inr cs)
     \<and> sorted_wrt (<) (map ck_timestamp cs) \<and> list_all (\<lambda>c. stored_under c (ms_store s')) cs"
proof -
  obtain s' cs where h: "history sample_env ''XAU/USD'' Tf_M5 None None 500 True sample_market_service = (s', Inr cs)" using sample_fetched by blast
  then show ?thesis using history_is_stored [OF h sample_symbol sample_store_ok(1)] by auto
qed

text \<open>The other half of the failures: a handler of the update raises. The status is failed and the caller gets
  the exception, yet the next request is answered with the candles of the failed one.\<close>

theorem announcement_failure_is_cached:
  "case history (sample_env\<lparr>me_delivery := (\<lambda>_ e. case e of Historical_Updated _ _ _ _ \<Rightarrow> Handler_Failed | _ \<Rightarrow> Delivered)\<rparr>)
      ''XAU/USD'' Tf_M5 None None 500 True sample_market_service of
     (s', x) \<Rightarrow> isl x \<and> ms_sync_status s' = Sync_Failed
       \<and> (case history sample_env ''XAU/USD'' Tf_M5 None None 500 False s' of
            (s'', y) \<Rightarrow> \<not> isl y \<and> ms_sync_status s'' = Sync_Failed \<and> ms_store s'' = ms_store s')"
  by code_simp

lemma sample_polled: "case snd (latest_candle sample_env ''XAU/USD'' Tf_M5 True sample_market_service) of
    Inr (Some c) \<Rightarrow> canonical_symbol (ck_symbol c) = Inr ''XAUUSD'' \<and> ck_timeframe c = Tf_M5 | _ \<Rightarrow> False"
  by code_simp

theorem poll_reads_back_witness:
  "\<exists>s' c. latest_candle sample_env ''XAU/USD'' Tf_M5 True sample_market_service = (s', Inr (Some c))
     \<and> candle_at ''XAUUSD'' Tf_M5 (ck_timestamp c) (ms_store s') = Inr (Some c)"
proof -
  obtain s' r where h: "latest_candle sample_env ''XAU/USD'' Tf_M5 True sample_market_service = (s', r)" by fastforce
  then obtain c where "r = Inr (Some c)" "canonical_symbol (ck_symbol c) = Inr ''XAUUSD''" "ck_timeframe c = Tf_M5"
    using sample_polled by (auto split: sum.split_asm option.split_asm)
  then show ?thesis using h poll_reads_back [OF h sample_store_ok(1) sample_symbol] by auto
qed

definition sample_cross :: "manager \<times> (manager_error + validation_report \<times> anomaly list)" where
  "sample_cross = cross_validate default_validation_config (me_cross sample_env) ''XAUUSD'' Tf_M5 sample_report (ms_manager sample_market_service)"

lemma sample_cross_trims: "case snd sample_cross of Inl e \<Rightarrow> False
    | Inr (r1, xs) \<Rightarrow> 2 \<le> length (vr_candles r1) \<and> seconds_td 300 \<notin> ck_timestamp ` set (vr_candles r1)"
  by code_simp

lemma sample_cross_ranks:
  "rankings (ms_manager sample_market_service) ''XAUUSD'' Tf_M5 False = Inr [''okx'', ''kraken'']"
  "case rankings (fst sample_cross) ''XAUUSD'' Tf_M5 False of Inl e \<Rightarrow> False
     | Inr ns \<Rightarrow> alternate_of (fst sample_cross) ns = alternate_of (ms_manager sample_market_service) [''okx'', ''kraken'']"
  by code_simp+

lemma sample_quarantined: "list_ex (\<lambda>c. ck_timestamp c = seconds_td 300) (vr_candles sample_report)" by code_simp

theorem quarantine_refilled_by_dissenter_witness:
  "\<exists>r1 m1 xs cs e. cross_validate default_validation_config (me_cross sample_env) ''XAUUSD'' Tf_M5 sample_report (ms_manager sample_market_service) = (m1, Inr (r1, xs))
     \<and> seconds_td 300 \<notin> ck_timestamp ` set (vr_candles r1)
     \<and> snd (recover_gaps (me_cross sample_env) ''XAUUSD'' Tf_M5 (vr_candles r1) m1) = Inr cs
     \<and> ck_timestamp e = seconds_td 300 \<and> score_candle e [] True False False \<in> set cs"
proof -
  obtain m1 r1 xs where v: "sample_cross = (m1, Inr (r1, xs))" "2 \<le> length (vr_candles r1)" "seconds_td 300 \<notin> ck_timestamp ` set (vr_candles r1)"
    using sample_cross_trims by (auto split: sum.split_asm) (metis prod.collapse)
  obtain c where c: "c \<in> set (vr_candles sample_report)" "ck_timestamp c = seconds_td 300" using sample_quarantined by (auto simp: list_ex_iff)
  obtain ns1 where ns1: "rankings m1 ''XAUUSD'' Tf_M5 False = Inr ns1"
    "alternate_of m1 ns1 = alternate_of (ms_manager sample_market_service) [''okx'', ''kraken'']"
    using sample_cross_ranks(2) unfolding v(1) fst_conv by (auto split: sum.split_asm)
  obtain m2 x where g: "recover_gaps (me_cross sample_env) ''XAUUSD'' Tf_M5 (vr_candles r1) m1 = (m2, x)" by fastforce
  show ?thesis
    using quarantine_refilled_by_dissenter [OF v(1) [unfolded sample_cross_def] c(1) _ v(2) sample_cross_ranks(1) ns1 g] c v g
    unfolding sample_cross_def by auto
qed

end
