(* ===== verification/Replay_Core.thy ===== *)
theory Replay_Core
  imports Registry "HOL-Library.Multiset"
begin

text \<open>
  The parts of the replay engine that need no repository: the lifecycle of a session
  (\<open>state_machine.py\<close>), the virtual clock (\<open>clock.py\<close>), historical events and their order
  (\<open>models.py\<close>, \<open>ordering.py\<close>) and the registry that orders the engines (\<open>registry.py\<close>), all under
  \<open>engines/replay_engine\<close>.

  A generator is the list of what it yields and the exception that ends it, if one does. The payload
  of an event is its canonical JSON text.
\<close>

subsection \<open>Errors\<close>

datatype replay_error = Replay_Configuration string | Replay_Validation string | Replay_Not_Found string
  | Replay_Transition string | Replay_Concurrency string | Replay_Point_In_Time string | Replay_Ordering string
  | Replay_Isolation string | Replay_Checkpoint string | Replay_Persistence string | Key_Missing string
  | Raised_Other string string

text \<open>\<open>type(exc).__name__\<close>.\<close>

definition error_class :: "replay_error \<Rightarrow> string" where
  "error_class e = (case e of Replay_Configuration _ \<Rightarrow> ''ReplayConfigurationError'' | Replay_Validation _ \<Rightarrow> ''ReplayValidationError''
     | Replay_Not_Found _ \<Rightarrow> ''ReplayNotFound'' | Replay_Transition _ \<Rightarrow> ''ReplayTransitionError''
     | Replay_Concurrency _ \<Rightarrow> ''ReplayConcurrencyError'' | Replay_Point_In_Time _ \<Rightarrow> ''ReplayPointInTimeError''
     | Replay_Ordering _ \<Rightarrow> ''ReplayOrderingError'' | Replay_Isolation _ \<Rightarrow> ''ReplayIsolationError''
     | Replay_Checkpoint _ \<Rightarrow> ''ReplayCheckpointError'' | Replay_Persistence _ \<Rightarrow> ''ReplayPersistenceError''
     | Key_Missing _ \<Rightarrow> ''KeyError'' | Raised_Other c _ \<Rightarrow> c)"

subsection \<open>The lifecycle of a session\<close>

datatype replay_status = Rs_Created | Rs_Validating | Rs_Ready | Rs_Running | Rs_Pausing | Rs_Paused | Rs_Resuming
  | Rs_Cancelling | Rs_Cancelled | Rs_Completed | Rs_Failed | Rs_Recovering

definition replay_status_value :: "replay_status \<Rightarrow> string" where
  [enum_values]: "replay_status_value s = (case s of Rs_Created \<Rightarrow> ''created'' | Rs_Validating \<Rightarrow> ''validating''
     | Rs_Ready \<Rightarrow> ''ready'' | Rs_Running \<Rightarrow> ''running'' | Rs_Pausing \<Rightarrow> ''pausing'' | Rs_Paused \<Rightarrow> ''paused''
     | Rs_Resuming \<Rightarrow> ''resuming'' | Rs_Cancelling \<Rightarrow> ''cancelling'' | Rs_Cancelled \<Rightarrow> ''cancelled''
     | Rs_Completed \<Rightarrow> ''completed'' | Rs_Failed \<Rightarrow> ''failed'' | Rs_Recovering \<Rightarrow> ''recovering'')"

definition transitions :: "replay_status \<Rightarrow> replay_status list" where
  "transitions s = (case s of
       Rs_Created \<Rightarrow> [Rs_Validating]
     | Rs_Validating \<Rightarrow> [Rs_Ready, Rs_Failed]
     | Rs_Ready \<Rightarrow> [Rs_Running, Rs_Cancelling]
     | Rs_Running \<Rightarrow> [Rs_Pausing, Rs_Cancelling, Rs_Completed, Rs_Failed]
     | Rs_Pausing \<Rightarrow> [Rs_Paused, Rs_Failed]
     | Rs_Paused \<Rightarrow> [Rs_Resuming, Rs_Cancelling]
     | Rs_Resuming \<Rightarrow> [Rs_Running, Rs_Failed]
     | Rs_Cancelling \<Rightarrow> [Rs_Cancelled, Rs_Failed]
     | Rs_Failed \<Rightarrow> [Rs_Recovering]
     | Rs_Recovering \<Rightarrow> [Rs_Ready, Rs_Failed]
     | Rs_Cancelled \<Rightarrow> []
     | Rs_Completed \<Rightarrow> [])"

definition validate_transition :: "replay_status \<Rightarrow> replay_status \<Rightarrow> replay_error + unit" where
  "validate_transition current target =
     (if target \<notin> set (transitions current)
      then Inl (Replay_Transition (''invalid replay transition: '' @ replay_status_value current @ '' -> '' @ replay_status_value target))
      else Inr ())"

subsection \<open>The virtual clock\<close>

record replay_clock =
  rk_start :: instant
  rk_end :: instant
  rk_now :: instant
  rk_frozen :: bool

definition new_clock :: "instant \<Rightarrow> instant \<Rightarrow> replay_error + replay_clock" where
  "new_clock start stop =
     (if stop \<le> start then Inl (Raised_Other ''ValueError'' ''replay clock requires a positive interval'')
      else Inr \<lparr>rk_start = start, rk_end = stop, rk_now = start, rk_frozen = False\<rparr>)"

definition advance_to :: "instant \<Rightarrow> replay_clock \<Rightarrow> replay_error + replay_clock" where
  "advance_to t c =
     (if rk_frozen c \<and> t \<noteq> rk_now c then Inl (Replay_Point_In_Time ''virtual clock is frozen'')
      else if t < rk_now c then Inl (Replay_Point_In_Time ''virtual clock cannot move backward'')
      else if rk_end c < t then Inl (Replay_Point_In_Time ''virtual clock cannot exceed replay end'')
      else Inr (c\<lparr>rk_now := t\<rparr>))"

definition restore_clock :: "instant \<Rightarrow> replay_clock \<Rightarrow> replay_error + replay_clock" where
  "restore_clock t c =
     (if rk_frozen c then Inl (Replay_Point_In_Time ''virtual clock is frozen'')
      else if \<not> (rk_start c \<le> t \<and> t \<le> rk_end c) then Inl (Replay_Point_In_Time ''checkpoint cursor is outside replay bounds'')
      else Inr (c\<lparr>rk_now := t\<rparr>))"

definition freeze_clock :: "replay_clock \<Rightarrow> replay_clock" where "freeze_clock c = c\<lparr>rk_frozen := True\<rparr>"

definition unfreeze_clock :: "replay_clock \<Rightarrow> replay_clock" where "unfreeze_clock c = c\<lparr>rk_frozen := False\<rparr>"

subsection \<open>Events\<close>

definition replay_namespace :: string where
  "replay_namespace = ''28ddcfd6-99c1-55c5-bcba-664b6d7172e8''"

record historical_event =
  he_replay_event_id :: uuid
  he_source_event_id :: "string option"
  he_event_type :: string
  he_schema_version :: string
  he_instrument :: "string option"
  he_timeframe :: "string option"
  he_occurred_at :: instant
  he_published_at :: instant
  he_available_at :: instant
  he_source_name :: string
  he_source_version :: string
  he_source_sequence :: "int option"
  he_priority :: int
  he_payload :: string
  he_payload_hash :: string
  he_dataset_id :: string
  he_dataset_version :: string
  he_ordering_version :: string

definition or_empty :: "string option \<Rightarrow> string" where
  "or_empty x = (case x of None \<Rightarrow> [] | Some s \<Rightarrow> s)"

definition event_integrity :: "runtime \<Rightarrow> historical_event \<Rightarrow> bool" where
  "event_integrity rt e \<longleftrightarrow> length (he_payload e) \<le> 65536
     \<and> he_occurred_at e \<le> he_published_at e \<and> he_published_at e \<le> he_available_at e
     \<and> rt_sha256 rt (he_payload e) = he_payload_hash e
     \<and> he_replay_event_id e = stable_id rt replay_namespace [he_dataset_id e, he_dataset_version e, he_source_name e,
         or_empty (he_source_event_id e), he_event_type e, isoformat (he_available_at e), or_empty (he_instrument e),
         or_empty (he_timeframe e), he_payload_hash e, he_ordering_version e]
     \<and> 0 \<le> he_priority e \<and> he_priority e \<le> 10000 \<and> opt_all (\<lambda>n. 0 \<le> n) (he_source_sequence e)"

type_synonym order_key = "instant \<times> int \<times> int \<times> string \<times> string \<times> string"

definition ordering_key :: "historical_event \<Rightarrow> order_key" where
  "ordering_key e = (he_available_at e, he_priority e,
     (case he_source_sequence e of Some n \<Rightarrow> n | None \<Rightarrow> 2 ^ 63 - 1),
     he_source_name e, or_empty (he_source_event_id e), he_payload_hash e)"

text \<open>\<open>json.dumps\<close> of a string and of the key.\<close>

definition hex_digit :: "nat \<Rightarrow> char" where
  "hex_digit n = ''0123456789abcdef'' ! n"

definition json_char :: "char \<Rightarrow> string" where
  "json_char c = (let n = of_char c :: nat in
     if n = 34 then [CHR 0x5C, CHR 0x22] else if n = 92 then [CHR 0x5C, CHR 0x5C]
     else if n = 10 then [CHR 0x5C, CHR ''n''] else if n = 13 then [CHR 0x5C, CHR ''r'']
     else if n = 9 then [CHR 0x5C, CHR ''t''] else if n = 12 then [CHR 0x5C, CHR ''f'']
     else if n = 8 then [CHR 0x5C, CHR ''b'']
     else if 32 \<le> n \<and> n \<le> 126 then [c]
     else [CHR 0x5C, CHR ''u'', CHR ''0'', CHR ''0'', hex_digit (n div 16), hex_digit (n mod 16)])"

definition json_string :: "string \<Rightarrow> string" where
  "json_string s = [CHR 0x22] @ concat (map json_char s) @ [CHR 0x22]"

definition json_array :: "string list \<Rightarrow> string" where
  "json_array xs = ''['' @ join '','' xs @ '']''"

definition ordering_key_text :: "historical_event \<Rightarrow> string" where
  "ordering_key_text e = (case ordering_key e of (t, p, n, source, i, h) \<Rightarrow>
     json_array [json_string (isoformat t), str_int p, str_int n, json_string source, json_string i, json_string h])"

subsection \<open>Merging the sources\<close>

text \<open>A generator: what it yields, and the exception that ends it.\<close>

type_synonym 'a generated = "'a list \<times> replay_error option"

definition emit :: "'a list \<Rightarrow> 'a generated \<Rightarrow> 'a generated" where
  "emit xs g = (xs @ fst g, snd g)"

type_synonym heap_entry = "order_key \<times> nat \<times> historical_event"

text \<open>\<open>heapq.heappop\<close> takes the least pair of key and source index; the indices in the heap are distinct.\<close>

definition heap_min :: "heap_entry list \<Rightarrow> heap_entry" where
  "heap_min h = hd (sort_key (\<lambda>(k, i, e). (k, i)) h)"

definition start_heap :: "historical_event list list \<Rightarrow> heap_entry list" where
  "start_heap sources = concat (map (\<lambda>(i, es). case es of [] \<Rightarrow> [] | e # _ \<Rightarrow> [(ordering_key e, i, e)]) (enumerate 0 sources))"

lemma heap_min_in:
  assumes "h \<noteq> []"
  shows "heap_min h \<in> set h"
proof -
  let ?s = "sort_key (\<lambda>(k, i, e). (k, i)) h"
  have s: "set ?s = set h" by (rule set_sort)
  have "?s \<noteq> []"
  proof
    assume "?s = []"
    then show False using s assms by simp
  qed
  then have "hd ?s \<in> set ?s" by (rule hd_in_set)
  then show ?thesis by (simp add: heap_min_def)
qed

definition pending :: "heap_entry list \<Rightarrow> historical_event list list \<Rightarrow> nat" where
  "pending h rest = length h + sum_list (map length rest)"

lemma sum_list_tl:
  "i < length rest \<Longrightarrow> rest ! i \<noteq> [] \<Longrightarrow> Suc (sum_list (map length (rest[i := tl (rest ! i)]))) = sum_list (map length rest)"
  by (induction rest arbitrary: i) (auto simp: nth_Cons split: nat.splits)

lemma pending_pop: "h \<noteq> [] \<Longrightarrow> pending (remove1 (heap_min h) h) rest < pending h rest"
  using heap_min_in [of h] length_pos_if_in_set [of "heap_min h" h] by (simp add: pending_def length_remove1)

lemma pending_push: "h \<noteq> [] \<Longrightarrow> i < length rest \<Longrightarrow> rest ! i \<noteq> []
   \<Longrightarrow> pending (x # remove1 (heap_min h) h) (rest[i := tl (rest ! i)]) < pending h rest"
  using heap_min_in [of h] sum_list_tl [of i rest] length_pos_if_in_set [of "heap_min h" h] by (simp add: pending_def length_remove1)

text \<open>One round: the heap is empty, the popped key is below the previous one, the source of the popped event is
  not ordered, or the heap goes on with the next event of that source. An index in the heap always
  names a source.\<close>

datatype merge_outcome = Drained | Regressed | Disordered historical_event
  | Taken order_key historical_event "heap_entry list" "historical_event list list"

definition merge_round :: "heap_entry list \<Rightarrow> historical_event list list \<Rightarrow> order_key option \<Rightarrow> merge_outcome" where
  "merge_round h rest previous_key =
     (if h = [] then Drained
      else let k = fst (heap_min h); i = fst (snd (heap_min h)); e = snd (snd (heap_min h)); h' = remove1 (heap_min h) h in
        if (case previous_key of None \<Rightarrow> False | Some p \<Rightarrow> k < p) then Regressed
        else if i < length rest \<and> rest ! i \<noteq> [] then
          (let f = hd (rest ! i) in
           if ordering_key f < k then Disordered e
           else Taken k e ((ordering_key f, i, f) # h') (rest[i := tl (rest ! i)]))
        else Taken k e h' rest)"

lemma merge_round_pending: "merge_round h rest pk = Taken k e h' rest' \<Longrightarrow> pending h' rest' < pending h rest"
  by (auto simp: merge_round_def Let_def pending_pop pending_push split: if_split_asm)

definition fresh_event :: "uuid option \<Rightarrow> historical_event \<Rightarrow> historical_event list" where
  "fresh_event previous_id e = (if Some (he_replay_event_id e) \<noteq> previous_id then [e] else [])"

function merge_loop :: "heap_entry list \<Rightarrow> historical_event list list \<Rightarrow> order_key option \<Rightarrow> uuid option
    \<Rightarrow> historical_event generated" where
  "merge_loop h rest previous_key previous_id =
     (case merge_round h rest previous_key of
        Drained \<Rightarrow> ([], None)
      | Regressed \<Rightarrow> ([], Some (Replay_Ordering ''historical source ordering regressed''))
      | Disordered e \<Rightarrow> (fresh_event previous_id e, Some (Replay_Ordering ''historical source is not internally ordered''))
      | Taken k e h' rest' \<Rightarrow> emit (fresh_event previous_id e) (merge_loop h' rest' (Some k) (Some (he_replay_event_id e))))"
  by auto
termination
  by (relation "measure (\<lambda>(h, rest, _). pending h rest)") (auto simp: merge_round_pending)

declare merge_loop.simps [simp del]

definition merge_event_sources :: "historical_event list list \<Rightarrow> historical_event generated" where
  "merge_event_sources sources = merge_loop (start_heap sources) (map tl sources) None None"

subsection \<open>Timestamp groups\<close>

fun groups_loop :: "nat \<Rightarrow> historical_event list \<Rightarrow> instant option \<Rightarrow> historical_event list \<Rightarrow> replay_error option
    \<Rightarrow> historical_event list generated" where
  "groups_loop limit g ts [] err = (if err = None then (if g = [] then [] else [g], None) else ([], err))"
| "groups_loop limit g ts (e # es) err =
     (let split = (case ts of None \<Rightarrow> False | Some t \<Rightarrow> he_available_at e \<noteq> t);
          g' = (if split then [] else g) @ [e]
      in emit (if split then [g] else [])
           (if limit < length g' then ([], Some (Replay_Ordering ''timestamp group exceeds configured limit''))
            else groups_loop limit g' (Some (he_available_at e)) es err))"

definition timestamp_groups :: "nat \<Rightarrow> historical_event generated \<Rightarrow> historical_event list generated" where
  "timestamp_groups limit events = groups_loop limit [] None (fst events) (snd events)"


subsection \<open>The merge is a stable sort\<close>

lemma pair_le: "(a :: 'a :: linorder, i :: nat) \<le> (b, j) \<Longrightarrow> a \<le> b" "(a, i) \<le> (b, j) \<Longrightarrow> j < i \<Longrightarrow> a < b"
  by (auto simp: less_eq_prod_def)

lemma sort_key_head:
  assumes "\<forall>a \<in> set A. f e < f a" "\<forall>b \<in> set B. f e \<le> f b"
  shows "sort_key f (A @ e # B) = e # sort_key f (A @ B)"
proof (rule properties_for_sort_key)
  show "mset (e # sort_key f (A @ B)) = mset (A @ e # B)" by simp
  show "filter (\<lambda>x. f k = f x) (e # sort_key f (A @ B)) = filter (\<lambda>x. f k = f x) (A @ e # B)" for k
  proof -
    have "filter (\<lambda>x. f k = f x) (sort_key f (A @ B)) = filter (\<lambda>x. f k = f x) (A @ B)"
      using sort_key_stable [of f "f k" "A @ B"] by (simp only: eq_commute [of "f k"])
    moreover have "filter (\<lambda>x. f k = f x) A = []" if "f k = f e" using assms(1) that by (auto simp: filter_empty_conv)
    ultimately show ?thesis by (cases "f k = f e") auto
  qed
  show "sorted (map f (e # sort_key f (A @ B)))" using assms by (auto simp: less_imp_le)
qed

text \<open>The reference: what each source still holds, its head being in the heap.\<close>

definition heap_of :: "heap_entry list \<Rightarrow> historical_event list list \<Rightarrow> bool" where
  "heap_of h L \<longleftrightarrow> distinct (map (\<lambda>(k, i, e). i) h)
     \<and> set h = {(ordering_key (hd (L ! i)), i, hd (L ! i)) | i. i < length L \<and> L ! i \<noteq> []}"

fun dedupe :: "uuid option \<Rightarrow> historical_event list \<Rightarrow> historical_event list" where
  "dedupe previous_id [] = []"
| "dedupe previous_id (e # es) = (if previous_id = Some (he_replay_event_id e) then [] else [e]) @ dedupe (Some (he_replay_event_id e)) es"

lemma dedupe_Cons: "dedupe previous_id (e # es) = fresh_event previous_id e @ dedupe (Some (he_replay_event_id e)) es"
  by (auto simp: fresh_event_def)

abbreviation by_key :: "historical_event list \<Rightarrow> bool" where
  "by_key es \<equiv> sorted (map ordering_key es)"

lemma heap_min_least:
  assumes "heap_of h L" "h \<noteq> []"
  obtains i e es where "heap_min h = (ordering_key e, i, e)" "i < length L" "L ! i = e # es"
    "\<And>j. j < length L \<Longrightarrow> L ! j \<noteq> [] \<Longrightarrow> (ordering_key e, i) \<le> (ordering_key (hd (L ! j)), j)"
proof -
  let ?f = "\<lambda>(k :: order_key, i :: nat, e :: historical_event). (k, i)"
  have "heap_min h \<in> set h" using heap_min_in [OF assms(2)] .
  then obtain i where i: "heap_min h = (ordering_key (hd (L ! i)), i, hd (L ! i))" "i < length L" "L ! i \<noteq> []"
    using assms(1) by (auto simp: heap_of_def)
  have least: "?f (heap_min h) \<le> ?f x" if "x \<in> set h" for x
  proof -
    have "sorted (map ?f (sort_key ?f h))" by (rule sorted_sort_key)
    moreover have "x \<in> set (sort_key ?f h)" using that by simp
    ultimately show ?thesis unfolding heap_min_def by (cases "sort_key ?f h") auto
  qed
  have "(ordering_key (hd (L ! i)), i) \<le> (ordering_key (hd (L ! j)), j)" if "j < length L" "L ! j \<noteq> []" for j
    using least [of "(ordering_key (hd (L ! j)), j, hd (L ! j))"] i(1) that assms(1) by (auto simp: heap_of_def)
  moreover obtain e es where "L ! i = e # es" using i(3) by (cases "L ! i") auto
  ultimately show thesis using that [of e i es] i by simp
qed

lemma heap_of_pop:
  assumes "heap_of h L" "heap_min h = (ordering_key e, i, e)" "h \<noteq> []" "i < length L" "L ! i = e # es"
  shows "heap_of ((if es = [] then [] else [(ordering_key (hd es), i, hd es)]) @ remove1 (heap_min h) h) (L[i := es])"
proof -
  let ?idx = "\<lambda>(k :: order_key, i :: nat, e :: historical_event). i"
  have d: "distinct (map ?idx h)" and s: "set h = {(ordering_key (hd (L ! i)), i, hd (L ! i)) | i. i < length L \<and> L ! i \<noteq> []}"
    using assms(1) by (simp_all add: heap_of_def)
  then have "distinct h" by (simp add: distinct_map)
  then have r: "set (remove1 (heap_min h) h) = {(ordering_key (hd (L ! j)), j, hd (L ! j)) | j. j < length L \<and> L ! j \<noteq> [] \<and> j \<noteq> i}"
    using s assms(2,4,5) by auto
  have "distinct (map ?idx (remove1 (heap_min h) h))" using d by (metis distinct_map distinct_remove1 inj_on_subset set_remove1_subset)
  moreover have "i \<notin> ?idx ` set (remove1 (heap_min h) h)" unfolding r by auto
  moreover have "set ((if es = [] then [] else [(ordering_key (hd es), i, hd es)]) @ remove1 (heap_min h) h)
      = {(ordering_key (hd (L[i := es] ! j)), j, hd (L[i := es] ! j)) | j. j < length (L[i := es]) \<and> L[i := es] ! j \<noteq> []}"
    using assms(4) by (auto simp: r nth_list_update)
  ultimately show ?thesis by (simp add: heap_of_def)
qed

lemma concat_split: "i < length L \<Longrightarrow> L ! i = xs \<Longrightarrow> concat L = concat (take i L) @ xs @ concat (drop (Suc i) L)"
  by (metis concat.simps(2) concat_append id_take_nth_drop)

lemma sort_concat_head:
  assumes "i < length L" "L ! i = e # es" "list_all by_key L"
    "\<And>j. j < length L \<Longrightarrow> L ! j \<noteq> [] \<Longrightarrow> (ordering_key e, i) \<le> (ordering_key (hd (L ! j)), j)"
  shows "sort_key ordering_key (concat L) = e # sort_key ordering_key (concat (L[i := es]))"
proof -
  have first: "ordering_key (hd (L ! j)) \<le> ordering_key x" if "j < length L" "x \<in> set (L ! j)" for j x
    using assms(3) that by (cases "L ! j") (auto simp: list_all_length)
  have "ordering_key e < ordering_key x" if x: "x \<in> set (concat (take i L))" for x
  proof -
    obtain xs where xs: "xs \<in> set (take i L)" "x \<in> set xs" using x by auto
    then obtain j where j: "j < i" "j < length L" "x \<in> set (L ! j)" using in_set_conv_nth [of xs "take i L"] by auto
    then have "(ordering_key e, i) \<le> (ordering_key (hd (L ! j)), j)" by (intro assms(4)) auto
    then have "ordering_key e < ordering_key (hd (L ! j))" using pair_le(2) j(1) by blast
    then show ?thesis using first [OF j(2,3)] by (rule less_le_trans)
  qed
  moreover have "ordering_key e \<le> ordering_key x" if x: "x \<in> set (es @ concat (drop (Suc i) L))" for x
  proof -
    obtain j where j: "j < length L" "x \<in> set (L ! j)"
    proof (cases "x \<in> set es")
      case True
      then show thesis using that [of i] assms(1,2) by simp
    next
      case False
      then have "x \<in> set (concat (drop (Suc i) L))" using x by simp
      then obtain xs where "xs \<in> set (drop (Suc i) L)" "x \<in> set xs" by auto
      then show thesis using that by (metis in_set_conv_nth in_set_dropD)
    qed
    then have "(ordering_key e, i) \<le> (ordering_key (hd (L ! j)), j)" by (intro assms(4)) auto
    then have "ordering_key e \<le> ordering_key (hd (L ! j))" by (rule pair_le(1))
    then show ?thesis using first [OF j] by (rule order_trans)
  qed
  moreover have "concat (L[i := es]) = concat (take i L) @ es @ concat (drop (Suc i) L)"
    using assms(1) by (simp add: upd_conv_take_nth_drop)
  ultimately show ?thesis
    using sort_key_head [of "concat (take i L)" ordering_key e "es @ concat (drop (Suc i) L)"] concat_split [OF assms(1,2)] by simp
qed


lemma heap_of_nil: "heap_of h L \<Longrightarrow> h = [] \<longleftrightarrow> concat L = []"
proof -
  assume "heap_of h L"
  then have "set h = (\<lambda>i. (ordering_key (hd (L ! i)), i, hd (L ! i))) ` {i. i < length L \<and> L ! i \<noteq> []}" by (auto simp: heap_of_def)
  then have "set h = {} \<longleftrightarrow> {i. i < length L \<and> L ! i \<noteq> []} = {}" by simp
  also have "\<dots> \<longleftrightarrow> concat L = []" by (auto simp: all_set_conv_all_nth)
  finally show "h = [] \<longleftrightarrow> concat L = []" by simp
qed

lemma merge_round_heap:
  assumes "heap_of h L" "heap_min h = (ordering_key e, i, e)" "h \<noteq> []" "i < length L" "L ! i = e # es"
    "opt_all (\<lambda>p. p \<le> ordering_key e) pk"
  shows "merge_round h (map tl L) pk = (if es \<noteq> [] \<and> ordering_key (hd es) < ordering_key e then Disordered e
     else Taken (ordering_key e) e ((if es = [] then [] else [(ordering_key (hd es), i, hd es)]) @ remove1 (heap_min h) h) (map tl (L[i := es])))"
proof -
  have "\<not> (case pk of None \<Rightarrow> False | Some p \<Rightarrow> ordering_key e < p)" using assms(6) by (auto simp: not_less split: option.split)
  moreover have "map tl L ! i = es" using assms(4,5) by simp
  moreover have "map tl (L[i := es]) = (map tl L)[i := tl es]" by (rule map_update)
  moreover have "(map tl L)[i := es] = map tl L" using assms(4,5) by (metis list.sel(3) list_update_id nth_map)
  ultimately show ?thesis using assms(2,3,4) by (auto simp: merge_round_def Let_def)
qed

lemma merge_loop_sorts:
  assumes "heap_of h L" "list_all by_key L" "opt_all (\<lambda>p. \<forall>x \<in> set (concat L). p \<le> ordering_key x) pk"
  shows "merge_loop h (map tl L) pk pid = (dedupe pid (sort_key ordering_key (concat L)), None)"
  using assms
proof (induction "length (concat L)" arbitrary: h L pk pid)
  case 0
  then have c: "concat L = []" by simp
  then have "h = []" using heap_of_nil [OF 0(2)] by blast
  then show ?case unfolding c by (subst merge_loop.simps) (simp add: merge_round_def)
next
  case (Suc n)
  then have "concat L \<noteq> []" by (metis Zero_not_Suc list.size(3))
  then have "h \<noteq> []" using heap_of_nil [OF Suc.prems(1)] by blast
  obtain i e es where m: "heap_min h = (ordering_key e, i, e)" "i < length L" "L ! i = e # es"
    "\<And>j. j < length L \<Longrightarrow> L ! j \<noteq> [] \<Longrightarrow> (ordering_key e, i) \<le> (ordering_key (hd (L ! j)), j)"
    by (rule heap_min_least [OF Suc.prems(1) \<open>h \<noteq> []\<close>]) (rule that, assumption+)
  let ?h = "(if es = [] then [] else [(ordering_key (hd es), i, hd es)]) @ remove1 (heap_min h) h"
  let ?L = "L[i := es]"
  have e: "e \<in> set (concat L)" using nth_mem [OF m(2)] m(3) by force
  have s: "sort_key ordering_key (concat L) = e # sort_key ordering_key (concat ?L)" using sort_concat_head [OF m(2,3) Suc.prems(2) m(4)] .
  have "by_key (L ! i)" using Suc.prems(2) m(2) by (simp add: list_all_length)
  then have es: "by_key es" "\<forall>x \<in> set es. ordering_key e \<le> ordering_key x" using m(3) by auto
  then have "\<not> (es \<noteq> [] \<and> ordering_key (hd es) < ordering_key e)" by (cases es) auto
  moreover have "opt_all (\<lambda>p. p \<le> ordering_key e) pk" using Suc.prems(3) e by (cases pk) auto
  ultimately have r: "merge_round h (map tl L) pk = Taken (ordering_key e) e ?h (map tl ?L)"
    using merge_round_heap [OF Suc.prems(1) m(1) \<open>h \<noteq> []\<close> m(2,3), of pk] by (simp only: if_False)
  have "merge_loop ?h (map tl ?L) (Some (ordering_key e)) (Some (he_replay_event_id e))
      = (dedupe (Some (he_replay_event_id e)) (sort_key ordering_key (concat ?L)), None)"
  proof (rule Suc.hyps(1))
    have "length (sort_key ordering_key (concat L)) = Suc (length (sort_key ordering_key (concat ?L)))" by (simp only: s list.size)
    then show "n = length (concat ?L)" using Suc.hyps(2) by simp
    show "heap_of ?h ?L" using heap_of_pop [OF Suc.prems(1) m(1) \<open>h \<noteq> []\<close> m(2,3)] .
    show "list_all by_key ?L" using Suc.prems(2) es(1) m(2) by (auto simp: list_all_length nth_list_update)
    have "sorted (map ordering_key (e # sort_key ordering_key (concat ?L)))" unfolding s [symmetric] by (rule sorted_sort_key)
    then show "opt_all (\<lambda>p. \<forall>x \<in> set (concat ?L). p \<le> ordering_key x) (Some (ordering_key e))" by simp
  qed
  then show ?case by (subst merge_loop.simps) (simp add: r s emit_def dedupe_Cons del: dedupe.simps(2))
qed

lemma concat_if: "concat (map (\<lambda>i. if p i then [] else [f i]) xs) = map f (filter (\<lambda>i. \<not> p i) xs)"
  by (induction xs) auto

lemma heap_of_start: "heap_of (start_heap S) S"
proof -
  have e: "start_heap S = map (\<lambda>i. (ordering_key (hd (S ! i)), i, hd (S ! i))) (filter (\<lambda>i. S ! i \<noteq> []) [0..<length S])"
  proof -
    have "start_heap S = concat (map (\<lambda>i. if S ! i = [] then [] else [(ordering_key (hd (S ! i)), i, hd (S ! i))]) [0..<length S])"
      by (auto simp: start_heap_def enumerate_eq_zip zip_map2 map_upt_eqI intro!: arg_cong [where f = concat] nth_equalityI split: list.split)
    also have "\<dots> = map (\<lambda>i. (ordering_key (hd (S ! i)), i, hd (S ! i))) (filter (\<lambda>i. S ! i \<noteq> []) [0..<length S])"
      using concat_if [of "\<lambda>i. S ! i = []" "\<lambda>i. (ordering_key (hd (S ! i)), i, hd (S ! i))"] by simp
    finally show ?thesis .
  qed
  show ?thesis unfolding e heap_of_def by (auto simp: comp_def)
qed


text \<open>Whatever the sources hold, the merge yields in order, and it stops with an error at a source that is
  not in order itself.\<close>

definition keyed :: "heap_entry list \<Rightarrow> bool" where
  "keyed h \<longleftrightarrow> list_all (\<lambda>(k, i, e). k = ordering_key e) h"

lemma merge_round_Taken:
  assumes "merge_round h rest pk = Taken k e h' rest'" "keyed h"
  shows "keyed h' \<and> k = ordering_key e \<and> opt_all (\<lambda>p. p \<le> k) pk"
proof -
  have h: "h \<noteq> []" using assms(1) by (auto simp: merge_round_def)
  then have m: "heap_min h \<in> set h" by (rule heap_min_in)
  have "keyed (remove1 (heap_min h) h)" using assms(2) set_remove1_subset [of "heap_min h" h] by (auto simp: keyed_def list_all_iff)
  moreover have "fst (heap_min h) = ordering_key (snd (snd (heap_min h)))" using m assms(2) by (auto simp: keyed_def list_all_iff split_beta)
  ultimately show ?thesis using assms(1) h
    by (auto simp: merge_round_def Let_def keyed_def not_less split: if_split_asm option.split_asm)
qed

lemma merge_round_Disordered:
  assumes "merge_round h rest pk = Disordered e" "keyed h"
  shows "opt_all (\<lambda>p. p \<le> ordering_key e) pk"
proof -
  have h: "h \<noteq> []" using assms(1) by (auto simp: merge_round_def)
  have "fst (heap_min h) = ordering_key (snd (snd (heap_min h)))" using heap_min_in [OF h] assms(2) by (auto simp: keyed_def list_all_iff split_beta)
  then show ?thesis using assms(1) h by (auto simp: merge_round_def Let_def not_less split: if_split_asm option.split_asm)
qed

lemma merge_loop_ordered:
  "keyed h \<Longrightarrow> by_key (fst (merge_loop h rest pk pid)) \<and> (\<forall>x \<in> set (fst (merge_loop h rest pk pid)). opt_all (\<lambda>p. p \<le> ordering_key x) pk)"
proof (induction h rest pk pid rule: merge_loop.induct)
  case (1 h rest pk pid)
  show ?case
  proof (cases "merge_round h rest pk")
    case (Disordered e)
    then show ?thesis using merge_round_Disordered [OF Disordered 1(2)] by (subst (1 2) merge_loop.simps) (auto simp: fresh_event_def)
  next
    case (Taken k e h' rest')
    note t = merge_round_Taken [OF Taken 1(2)]
    note IH = 1(1) [OF Taken] 
    show ?thesis using IH t Taken
      by (subst (1 2) merge_loop.simps) (auto simp: fresh_event_def emit_def intro: order_trans)
  qed (subst (1 2) merge_loop.simps, simp)+
qed


lemma merge_loop_succeeds:
  assumes "heap_of h L" "snd (merge_loop h (map tl L) pk pid) = None"
  shows "list_all by_key L"
  using assms
proof (induction "length (concat L)" arbitrary: h L pk pid)
  case 0
  then have "concat L = []" by simp
  then show ?case by (auto simp: list_all_iff)
next
  case (Suc n)
  then have "concat L \<noteq> []" by (metis Zero_not_Suc list.size(3))
  then have "h \<noteq> []" using heap_of_nil [OF Suc.prems(1)] by blast
  obtain i e es where m: "heap_min h = (ordering_key e, i, e)" "i < length L" "L ! i = e # es"
    by (rule heap_min_least [OF Suc.prems(1) \<open>h \<noteq> []\<close>]) (rule that, assumption+)
  let ?h = "(if es = [] then [] else [(ordering_key (hd es), i, hd es)]) @ remove1 (heap_min h) h"
  let ?L = "L[i := es]"
  have "\<not> (case pk of None \<Rightarrow> False | Some p \<Rightarrow> ordering_key e < p)"
    using Suc.prems(2) m(1) \<open>h \<noteq> []\<close> by (auto simp: merge_loop.simps [of h] merge_round_def Let_def)
  then have "opt_all (\<lambda>p. p \<le> ordering_key e) pk" by (auto simp: not_less split: option.split_asm)
  note r = merge_round_heap [OF Suc.prems(1) m(1) \<open>h \<noteq> []\<close> m(2,3) this]
  have o: "\<not> (es \<noteq> [] \<and> ordering_key (hd es) < ordering_key e)"
  proof
    assume "es \<noteq> [] \<and> ordering_key (hd es) < ordering_key e"
    then show False using Suc.prems(2) unfolding merge_loop.simps [of h] r by simp
  qed
  then have "snd (merge_loop ?h (map tl ?L) (Some (ordering_key e)) (Some (he_replay_event_id e))) = None"
    using Suc.prems(2) unfolding merge_loop.simps [of h] r if_not_P [OF o] by (simp only: merge_outcome.case emit_def snd_conv)
  moreover have "n = length (concat ?L)"
    using Suc.hyps(2) m(2,3) concat_split [OF m(2,3)] by (simp add: upd_conv_take_nth_drop)
  ultimately have l: "list_all by_key ?L" using Suc.hyps(1) [OF _ heap_of_pop [OF Suc.prems(1) m(1) \<open>h \<noteq> []\<close> m(2,3)]] by blast
  then have "by_key es" using m(2) by (auto simp: list_all_length)
  then have "by_key (e # es)" using o by (cases es) (auto simp: not_less intro: order_trans)
  then show ?case using l m by (auto simp: list_all_length nth_list_update split: if_split_asm)
qed

lemma start_keyed: "keyed (start_heap S)"
  using heap_of_start [of S] by (auto simp: keyed_def heap_of_def list_all_iff)

lemma merge_sorted_sources:
  "list_all by_key S \<Longrightarrow> merge_event_sources S = (dedupe None (sort_key ordering_key (concat S)), None)"
  unfolding merge_event_sources_def by (rule merge_loop_sorts [OF heap_of_start]) simp_all

lemma merge_ordered: "by_key (fst (merge_event_sources S))"
  unfolding merge_event_sources_def using merge_loop_ordered [OF start_keyed] by blast

text \<open>Claim C9: merging the sources with a heap is sorting them: when every source is in the order of the keys, the
  merge yields the stable sort of all events, without repeating an event that follows itself, and
  raises nothing. It raises exactly when a source is out of order, and what it has yielded by then is
  in order.\<close>

theorem merge_is_sort:
  "by_key (fst (merge_event_sources S)) \<and> (snd (merge_event_sources S) = None \<longleftrightarrow> list_all by_key S)
    \<and> (list_all by_key S \<longrightarrow> fst (merge_event_sources S) = dedupe None (sort_key ordering_key (concat S)))"
proof -
  have "by_key (fst (merge_event_sources S))" by (rule merge_ordered)
  moreover have "snd (merge_event_sources S) = None \<Longrightarrow> list_all by_key S"
    unfolding merge_event_sources_def by (rule merge_loop_succeeds [OF heap_of_start])
  moreover have "list_all by_key S \<Longrightarrow> merge_event_sources S = (dedupe None (sort_key ordering_key (concat S)), None)"
    by (rule merge_sorted_sources)
  ultimately show ?thesis by auto
qed


subsection \<open>Groups of one timestamp\<close>

definition group_ok :: "nat \<Rightarrow> historical_event list \<Rightarrow> bool" where
  "group_ok limit g \<longleftrightarrow> g \<noteq> [] \<and> length g \<le> limit \<and> list_all (\<lambda>e. he_available_at e = he_available_at (hd g)) g"

definition group_state :: "nat \<Rightarrow> historical_event list \<Rightarrow> instant option \<Rightarrow> bool" where
  "group_state limit g ts \<longleftrightarrow> (case ts of None \<Rightarrow> g = [] | Some t \<Rightarrow> group_ok limit g \<and> he_available_at (hd g) = t)"

lemma group_state_step:
  assumes "group_state limit g ts" "split = (case ts of None \<Rightarrow> False | Some t \<Rightarrow> he_available_at e \<noteq> t)"
    "length ((if split then [] else g) @ [e]) \<le> limit"
  shows "group_state limit ((if split then [] else g) @ [e]) (Some (he_available_at e))"
  using assms by (cases g) (auto simp: group_state_def group_ok_def split: option.split_asm)

lemma groups_loop_spec:
  "groups_loop limit g ts es None = (gs, None) \<Longrightarrow> group_state limit g ts
    \<Longrightarrow> concat gs = g @ es \<and> list_all (group_ok limit) gs \<and> (gs \<noteq> [] \<and> g \<noteq> [] \<longrightarrow> he_available_at (hd (hd gs)) = he_available_at (hd g))
      \<and> successively (\<lambda>x y. he_available_at (hd x) \<noteq> he_available_at (hd y)) gs"
proof (induction es arbitrary: g ts gs)
  case Nil
  then show ?case by (auto simp: group_state_def split: if_split_asm option.split_asm)
next
  case (Cons e es)
  define split where "split = (case ts of None \<Rightarrow> False | Some t \<Rightarrow> he_available_at e \<noteq> t)"
  let ?g = "(if split then [] else g) @ [e]"
  obtain gs' z where z: "groups_loop limit ?g (Some (he_available_at e)) es None = (gs', z)" by fastforce
  have l: "length ?g \<le> limit" using Cons.prems(1) by (simp add: split_def [symmetric] Let_def emit_def split: if_split_asm)
  then have gs': "groups_loop limit ?g (Some (he_available_at e)) es None = (gs', None)" "gs = (if split then [g] else []) @ gs'"
    using Cons.prems(1) z by (simp_all add: split_def [symmetric] Let_def emit_def split: if_split_asm)
  have s: "group_state limit ?g (Some (he_available_at e))" using group_state_step [OF Cons.prems(2) split_def l] .
  note IH = Cons.IH [OF gs'(1) s]
  have ne: "gs' \<noteq> []" using IH by auto
  show ?case
  proof (cases split)
    case False
    then show ?thesis using IH gs'(2) ne by (cases g) auto
  next
    case True
    then obtain t where t: "ts = Some t" "he_available_at e \<noteq> t" by (auto simp: split_def split: option.split_asm)
    then have g: "group_ok limit g" "he_available_at (hd g) = t" using Cons.prems(2) by (auto simp: group_state_def)
    show ?thesis using IH gs'(2) ne True g t(2) by (cases gs') (auto simp: group_ok_def)
  qed
qed

lemma groups_loop_error:
  "groups_loop limit g ts es None = (gs, Some err) \<Longrightarrow> group_state limit g ts
    \<Longrightarrow> \<exists>t. limit < length (filter (\<lambda>e. he_available_at e = t) (g @ es))"
proof (induction es arbitrary: g ts gs)
  case Nil
  then show ?case by simp
next
  case (Cons e es)
  define split where "split = (case ts of None \<Rightarrow> False | Some t \<Rightarrow> he_available_at e \<noteq> t)"
  let ?g = "(if split then [] else g) @ [e]"
  have alike: "\<forall>x \<in> set ?g. he_available_at x = he_available_at e"
    using Cons.prems(2) by (auto simp: group_state_def group_ok_def list_all_iff split_def split: option.split_asm)
  show ?case
  proof (cases "limit < length ?g")
    case True
    have "filter (\<lambda>x. he_available_at x = he_available_at e) ?g = ?g" using alike by (simp add: filter_id_conv)
    then have "length ?g \<le> length (filter (\<lambda>x. he_available_at x = he_available_at e) (g @ e # es))"
      by (cases split) auto
    then show ?thesis using True by (meson less_le_trans)
  next
    case False
    obtain gs' z where z: "groups_loop limit ?g (Some (he_available_at e)) es None = (gs', z)" by fastforce
    then have "groups_loop limit ?g (Some (he_available_at e)) es None = (gs', Some err)"
      using Cons.prems(1) False by (simp add: split_def [symmetric] Let_def emit_def split: if_split_asm)
    from Cons.IH [OF this group_state_step [OF Cons.prems(2) split_def]] False
    obtain t where "limit < length (filter (\<lambda>e. he_available_at e = t) (?g @ es))" by (auto simp: not_less)
    moreover have "length (filter (\<lambda>e. he_available_at e = t) (?g @ es)) \<le> length (filter (\<lambda>e. he_available_at e = t) (g @ e # es))" by simp
    ultimately show ?thesis by (meson less_le_trans)
  qed
qed

lemma group_times:
  assumes "by_key (concat gs)" "list_all (group_ok limit) gs" "successively (\<lambda>x y. he_available_at (hd x) \<noteq> he_available_at (hd y)) gs"
  shows "sorted_wrt (<) (map (\<lambda>g. he_available_at (hd g)) gs)"
proof -
  have t: "ordering_key x \<le> ordering_key y \<Longrightarrow> he_available_at x \<le> he_available_at y" for x y
    by (auto simp: ordering_key_def less_eq_prod_def)
  have "successively (\<lambda>x y. he_available_at (hd x) < he_available_at (hd y)) gs" using assms
  proof (induction gs)
    case (Cons g gs)
    show ?case
    proof (cases gs)
      case (Cons g' gs')
      then have "hd g \<in> set g" "hd g' \<in> set (concat gs)" using Cons.prems(2) by (auto simp: group_ok_def)
      then have "ordering_key (hd g) \<le> ordering_key (hd g')" using Cons.prems(1) by (auto simp: sorted_append)
      then show ?thesis using Cons Cons.IH Cons.prems t [of "hd g" "hd g'"] by (auto simp: sorted_append)
    qed simp
  qed simp
  then have "successively (<) (map (\<lambda>g. he_available_at (hd g)) gs)" by (simp add: successively_map)
  then show ?thesis by (simp add: successively_conv_sorted_wrt)
qed

text \<open>An ordered sequence whose times fit the limit is cut without an error.\<close>

lemma groups_of_ordered:
  assumes "by_key es" "\<And>t. length (filter (\<lambda>e. he_available_at e = t) es) \<le> limit"
  shows "\<exists>gs. timestamp_groups limit (es, None) = (gs, None) \<and> concat gs = es \<and> list_all (group_ok limit) gs
     \<and> sorted_wrt (<) (map (\<lambda>g. he_available_at (hd g)) gs)"
proof -
  obtain gs err where g: "timestamp_groups limit (es, None) = (gs, err)" by fastforce
  have "err = None" using groups_loop_error [of limit "[]" None es gs] g assms(2)
    by (cases err) (auto simp: timestamp_groups_def group_state_def not_less [symmetric])
  then have "concat gs = es" "list_all (group_ok limit) gs" "successively (\<lambda>x y. he_available_at (hd x) \<noteq> he_available_at (hd y)) gs"
    using groups_loop_spec [of limit "[]" None es gs] g by (simp_all add: timestamp_groups_def group_state_def)
  then show ?thesis using g \<open>err = None\<close> group_times [of gs limit] assms(1) by simp
qed

text \<open>The groups of a sequence of events are its cuts where the time changes: put together they are the
  sequence, each is non-empty, within the limit and of one time, and neighbours differ in time, so a
  sequence in order is cut into strictly increasing times. The only error is a group over the limit.\<close>

theorem timestamp_groups_spec:
  assumes "timestamp_groups limit (es, None) = (gs, err)"
  shows "case err of None \<Rightarrow> concat gs = es \<and> list_all (group_ok limit) gs
        \<and> (by_key es \<longrightarrow> sorted_wrt (<) (map (\<lambda>g. he_available_at (hd g)) gs))
      | Some _ \<Rightarrow> \<exists>t. limit < length (filter (\<lambda>e. he_available_at e = t) es)"
proof (cases err)
  case None
  have s: "concat gs = es" "list_all (group_ok limit) gs" "successively (\<lambda>x y. he_available_at (hd x) \<noteq> he_available_at (hd y)) gs"
    using groups_loop_spec [of limit "[]" None es gs] assms None by (simp_all add: timestamp_groups_def group_state_def)
  then have "by_key es \<longrightarrow> sorted_wrt (<) (map (\<lambda>g. he_available_at (hd g)) gs)" using group_times [of gs limit] by simp
  then show ?thesis using None s by simp
next
  case (Some x)
  then show ?thesis using groups_loop_error [of limit "[]" None es gs x] assms by (simp add: timestamp_groups_def group_state_def)
qed

subsection \<open>Keys as text\<close>

lemma less_list_append: "(p @ x :: string) < p @ y \<longleftrightarrow> x < y"
  by (induction p) (auto simp: less_list_code)

text \<open>The text of the key does not keep the order of the keys: for two events of one time, priority and
  source, the one with the greater sequence number comes first as text when its number starts with
  the smaller digit. A stream that resumes behind the text of the second yields the first again.\<close>

theorem key_text_order:
  assumes "he_available_at e = he_available_at f" "he_priority e = he_priority f" "0 \<le> n" "n < m"
    "he_source_sequence e = Some n" "he_source_sequence f = Some m" "hd (digits10 m) < hd (digits10 n)"
  shows "ordering_key e < ordering_key f \<and> ordering_key_text f < ordering_key_text e"
proof -
  have d: "digits10 k \<noteq> []" for k by (subst digits10.simps) simp
  let ?p = "''['' @ json_string (isoformat (he_available_at e)) @ '','' @ str_int (he_priority e) @ '',''"
  obtain x where x: "ordering_key_text e = ?p @ digits10 n @ x" using assms(3,5)
    by (auto simp: ordering_key_text_def ordering_key_def json_array_def str_int_def)
  obtain y where y: "ordering_key_text f = ?p @ digits10 m @ y" using assms
    by (auto simp: ordering_key_text_def ordering_key_def json_array_def str_int_def)
  have "digits10 m @ y < digits10 n @ x" using assms(7) d [of m] d [of n] by (cases "digits10 m"; cases "digits10 n") auto
  then have "ordering_key_text f < ordering_key_text e" unfolding x y by (simp only: less_list_append)
  then show ?thesis using assms by (auto simp: ordering_key_def less_prod_def)
qed


subsection \<open>The registry of engines\<close>

record engine_registration =
  eg_engine_name :: string
  eg_engine_version :: string
  eg_compatibility_version :: string
  eg_supports_replay :: bool
  eg_supports_point_in_time :: bool
  eg_supports_isolated_feature_store :: bool
  eg_supports_isolated_events :: bool
  eg_deterministic_under_fixed_input :: bool
  eg_required_sources :: "string list"
  eg_required_engine_dependencies :: "string list"

definition validate_safe :: "engine_registration \<Rightarrow> replay_error + unit" where
  "validate_safe r =
     (if \<not> list_all id [eg_supports_replay r, eg_supports_point_in_time r, eg_supports_isolated_feature_store r,
         eg_supports_isolated_events r, eg_deterministic_under_fixed_input r]
      then Inl (Replay_Configuration (''engine is not replay-safe: '' @ eg_engine_name r)) else Inr ())"

type_synonym engine_registry = "((string \<times> string) \<times> engine_registration) list"

definition engine_key :: "engine_registration \<Rightarrow> string \<times> string" where
  "engine_key r = (eg_engine_name r, eg_engine_version r)"

definition register_engine :: "engine_registry \<Rightarrow> engine_registration \<Rightarrow> replay_error + engine_registry" where
  "register_engine d r =
     (if map_of d (engine_key r) \<noteq> None
      then Inl (Replay_Configuration (''duplicate replay engine registration: '' @ eg_engine_name r @ ''@'' @ eg_engine_version r))
      else bindE (validate_safe r) (\<lambda>_. Inr (AList.update (engine_key r) r d)))"

fun register_engines :: "engine_registry \<Rightarrow> engine_registration list \<Rightarrow> replay_error + engine_registry" where
  "register_engines d [] = Inr d"
| "register_engines d (r # rs) = bindE (register_engine d r) (\<lambda>d'. register_engines d' rs)"

text \<open>\<open>str\<close> of a list of names.\<close>

definition names_repr :: "string list \<Rightarrow> string" where
  "names_repr ns = ''['' @ join '', '' (map (\<lambda>n. [CHR 0x27] @ n @ [CHR 0x27]) ns) @ '']''"

definition registrations_of :: "engine_registry \<Rightarrow> (string \<times> string) list \<Rightarrow> string list \<Rightarrow> replay_error + engine_registration list" where
  "registrations_of d versions selected = mapE (\<lambda>n.
     let v = or_empty (map_of versions n) in
     case map_of d (n, v) of
       None \<Rightarrow> Inl (Replay_Configuration (''unknown or incompatible replay engine: '' @ n @ ''@'' @ v))
     | Some r \<Rightarrow> Inr r) selected"

fun check_dependencies :: "string list \<Rightarrow> engine_registration list \<Rightarrow> replay_error + unit" where
  "check_dependencies names [] = Inr ()"
| "check_dependencies names (r # rs) =
     (let missing = filter (\<lambda>n. n \<notin> set names) (sort (remdups (eg_required_engine_dependencies r)))
      in if missing \<noteq> []
         then Inl (Replay_Configuration (''missing replay engine dependency for '' @ eg_engine_name r @ '': '' @ names_repr missing))
         else check_dependencies names rs)"

subsection \<open>The order of the engines\<close>

lemma bindE_cong [fundef_cong]:
  "m = m' \<Longrightarrow> (\<And>x. m' = Inr x \<Longrightarrow> f x = g x) \<Longrightarrow> bindE m f = bindE m' g"
  by (cases m') simp_all

type_synonym named_engines = "(string \<times> engine_registration) list"

definition by_name :: "engine_registration list \<Rightarrow> named_engines" where
  "by_name rs = fold (\<lambda>r. AList.update (eg_engine_name r) r) rs []"

definition needs :: "named_engines \<Rightarrow> engine_registration \<Rightarrow> string list" where
  "needs d r = filter (\<lambda>n. map_of d n \<noteq> None) (sort (eg_required_engine_dependencies r))"

definition unexplored :: "named_engines \<Rightarrow> string list \<Rightarrow> nat" where
  "unexplored d path = card (fst ` set d - set path)"

lemma unexplored_less: "map_of d n = Some r \<Longrightarrow> n \<notin> set path \<Longrightarrow> unexplored d (n # path) < unexplored d path"
  unfolding unexplored_def by (rule psubset_card_mono) (force dest: map_of_SomeD)+

text \<open>\<open>visit\<close>: \<open>path\<close> is the set \<open>visiting\<close>, which a call leaves as it found it; the state is \<open>visited\<close> and
  \<open>ordered\<close>.\<close>

function visit_engine :: "named_engines \<Rightarrow> string list \<Rightarrow> string list \<times> engine_registration list \<Rightarrow> string
      \<Rightarrow> replay_error + string list \<times> engine_registration list"
  and visit_engines :: "named_engines \<Rightarrow> string list \<Rightarrow> string list \<times> engine_registration list \<Rightarrow> string list
      \<Rightarrow> replay_error + string list \<times> engine_registration list" where
  "visit_engine d path st name =
     (if name \<in> set path then Inl (Replay_Configuration ''replay engine dependency cycle detected'')
      else if name \<in> set (fst st) then Inr st
      else case map_of d name of
          None \<Rightarrow> Inl (Key_Missing name)
        | Some r \<Rightarrow> bindE (visit_engines d (name # path) st (needs d r)) (\<lambda>st'. Inr (name # fst st', snd st' @ [r])))"
| "visit_engines d path st [] = Inr st"
| "visit_engines d path st (n # ns) = bindE (visit_engine d path st n) (\<lambda>st'. visit_engines d path st' ns)"
  by pat_completeness auto

termination
  by (relation "inv_image (less_than <*lex*> less_than)
      (\<lambda>x. case x of Inl (d, path, _, _) \<Rightarrow> (unexplored d path, 0) | Inr (d, path, _, ns) \<Rightarrow> (unexplored d path, Suc (length ns)))")
    (auto simp: unexplored_less)

definition topological :: "engine_registration list \<Rightarrow> replay_error + engine_registration list" where
  "topological rs = bindE (visit_engines (by_name rs) [] ([], []) (sort (map fst (by_name rs)))) (\<lambda>st. Inr (snd st))"

definition resolve_engines :: "engine_registry \<Rightarrow> string list \<Rightarrow> (string \<times> string) list \<Rightarrow> replay_error + engine_registration list" where
  "resolve_engines d selected versions =
     bindE (registrations_of d versions selected) (\<lambda>rs.
     bindE (check_dependencies (map eg_engine_name rs) rs) (\<lambda>_. topological rs))"

text \<open>\<open>registrations()\<close>: by name and version.\<close>

definition registrations :: "engine_registry \<Rightarrow> engine_registration list" where
  "registrations d = sort_key engine_key (map snd d)"

text \<open>\<open>production_replay_registry\<close>.\<close>

definition production_dependencies :: "(string \<times> string list) list" where
  "production_dependencies = [
     (''market_data'', []),
     (''smc'', [''market_data'']),
     (''liquidity'', [''market_data'', ''smc'']),
     (''volume_profile'', [''market_data'']),
     (''institutional_flow'', [''market_data'', ''smc'', ''liquidity'', ''volume_profile'']),
     (''market_regime'', [''market_data'', ''smc'', ''liquidity'', ''volume_profile'', ''institutional_flow'']),
     (''economic_calendar'', []),
     (''ai_scoring'', [''market_data'', ''smc'', ''liquidity'', ''volume_profile'', ''institutional_flow'', ''market_regime'', ''economic_calendar'']),
     (''signal_decision'', [''ai_scoring'', ''market_regime'', ''economic_calendar''])]"

definition production_registration :: "string \<times> string list \<Rightarrow> engine_registration" where
  "production_registration = (\<lambda>(name, required). \<lparr>eg_engine_name = name, eg_engine_version = ''1.0.0'', eg_compatibility_version = ''1.0'',
     eg_supports_replay = True, eg_supports_point_in_time = True, eg_supports_isolated_feature_store = True,
     eg_supports_isolated_events = True, eg_deterministic_under_fixed_input = True,
     eg_required_sources = (if name \<noteq> ''economic_calendar'' then [''historical_candles''] else [''economic_calendar'']),
     eg_required_engine_dependencies = required\<rparr>)"

definition production_registry :: "replay_error + engine_registry" where
  "production_registry = register_engines [] (map production_registration production_dependencies)"


text \<open>What a successful visit keeps: the visited names are those of the ordered engines, and every dependency of an
  engine stands before it.\<close>

definition before_deps :: "named_engines \<Rightarrow> engine_registration list \<Rightarrow> bool" where
  "before_deps d os \<longleftrightarrow> (\<forall>i < length os. set (needs d (os ! i)) \<subseteq> eg_engine_name ` set (take i os))"

definition sound_order :: "named_engines \<Rightarrow> string list \<times> engine_registration list \<Rightarrow> bool" where
  "sound_order d st \<longleftrightarrow> fst st = rev (map eg_engine_name (snd st)) \<and> distinct (fst st)
     \<and> (\<forall>r \<in> set (snd st). map_of d (eg_engine_name r) = Some r) \<and> before_deps d (snd st)"

definition names_ok :: "named_engines \<Rightarrow> bool" where
  "names_ok d \<longleftrightarrow> (\<forall>n r. map_of d n = Some r \<longrightarrow> eg_engine_name r = n)"

lemma before_deps_snoc: "before_deps d os \<Longrightarrow> set (needs d r) \<subseteq> eg_engine_name ` set os \<Longrightarrow> before_deps d (os @ [r])"
  by (auto simp: before_deps_def less_Suc_eq nth_append)

lemma visit_sound:
  "names_ok d \<Longrightarrow> visit_engine d path st n = Inr st' \<Longrightarrow> sound_order d st \<Longrightarrow> set path \<inter> set (fst st) = {}
    \<Longrightarrow> sound_order d st' \<and> set path \<inter> set (fst st') = {} \<and> insert n (set (fst st)) \<subseteq> set (fst st')"
  "names_ok d \<Longrightarrow> visit_engines d path st ns = Inr st' \<Longrightarrow> sound_order d st \<Longrightarrow> set path \<inter> set (fst st) = {}
    \<Longrightarrow> sound_order d st' \<and> set path \<inter> set (fst st') = {} \<and> set ns \<union> set (fst st) \<subseteq> set (fst st')"
proof (induction d path st n and d path st ns arbitrary: st' and st' rule: visit_engine_visit_engines.induct)
  case (1 d path st n)
  show ?case
  proof (cases "n \<in> set (fst st)")
    case True
    then show ?thesis using 1 by (auto split: if_split_asm)
  next
    case False
    have p: "n \<notin> set path" using 1(3) by (auto split: if_split_asm)
    obtain r st1 where r: "map_of d n = Some r" "visit_engines d (n # path) st (needs d r) = Inr st1" "st' = (n # fst st1, snd st1 @ [r])"
      using 1(3) False p by (auto simp: bindE_eq_Inr split: option.split_asm)
    have IH: "sound_order d st1" "set (n # path) \<inter> set (fst st1) = {}" "set (needs d r) \<union> set (fst st) \<subseteq> set (fst st1)"
      using 1(1) [OF p False r(1) 1(2) r(2) 1(4)] 1(5) False by auto
    have "eg_engine_name r = n" using 1(2) r(1) by (simp add: names_ok_def)
    moreover have "set (needs d r) \<subseteq> eg_engine_name ` set (snd st1)" using IH(1,3) by (simp add: sound_order_def)
    ultimately have "sound_order d st'"
      using IH(1,2) r by (auto simp: sound_order_def intro: before_deps_snoc)
    then show ?thesis using IH r(3) p by auto
  qed
next
  case (3 d path st n ns)
  from 3(4) obtain st1 where s: "visit_engine d path st n = Inr st1" "visit_engines d path st1 ns = Inr st'" by (auto simp: bindE_eq_Inr)
  show ?case using 3(1) [OF 3(3) s(1) 3(5,6)] 3(2) [OF s(1) 3(3) s(2)] by auto
qed simp

definition dependency :: "named_engines \<Rightarrow> (string \<times> string) set" where
  "dependency d = {(a, b). \<exists>r. map_of d a = Some r \<and> b \<in> set (needs d r)}"

abbreviation chain :: "named_engines \<Rightarrow> string list \<Rightarrow> bool" where
  "chain d \<equiv> successively (\<lambda>a b. (b, a) \<in> dependency d)"

lemma chain_reaches: "chain d (n # path) \<Longrightarrow> m \<in> set path \<Longrightarrow> (m, n) \<in> (dependency d)\<^sup>+"
proof (induction path arbitrary: n)
  case (Cons p path)
  then have "(p, n) \<in> dependency d" "chain d (p # path)" by (auto simp: successively_Cons)
  then show ?case using Cons by (cases "m = p") (auto intro: trancl_into_trancl)
qed simp

lemma visit_cycle:
  "visit_engine d path st n = Inl e \<Longrightarrow> chain d (n # path) \<Longrightarrow> map_of d n \<noteq> None \<Longrightarrow> \<not> acyclic (dependency d)"
  "visit_engines d path st ns = Inl e \<Longrightarrow> chain d path \<Longrightarrow> (\<forall>n \<in> set ns. map_of d n \<noteq> None \<and> (path \<noteq> [] \<longrightarrow> (hd path, n) \<in> dependency d))
    \<Longrightarrow> \<not> acyclic (dependency d)"
proof (induction d path st n and d path st ns rule: visit_engine_visit_engines.induct)
  case (1 d path st n)
  show ?case
  proof (cases "n \<in> set path")
    case True
    then have "(n, n) \<in> (dependency d)\<^sup>+" using chain_reaches 1(3) by blast
    then show ?thesis by (auto simp: acyclic_def)
  next
    case False
    then have "n \<notin> set (fst st)" using 1(2) by (auto split: if_split_asm)
    moreover obtain r where r: "map_of d n = Some r" using 1(4) by blast
    ultimately have "visit_engines d (n # path) st (needs d r) = Inl e"
      using 1(2) False by (auto simp: bindE_def split: sum.split_asm)
    moreover have "\<forall>m \<in> set (needs d r). map_of d m \<noteq> None \<and> (n # path \<noteq> [] \<longrightarrow> (hd (n # path), m) \<in> dependency d)"
      using r by (auto simp: dependency_def needs_def)
    ultimately show ?thesis using 1(1) [OF False \<open>n \<notin> set (fst st)\<close> r] 1(3) by blast
  qed
next
  case (3 d path st n ns)
  show ?case
  proof (cases "visit_engine d path st n")
    case (Inl e')
    have "chain d (n # path)" using 3(4,5) by (cases path) (auto simp: successively_Cons)
    then show ?thesis using 3(1) Inl 3(3,5) by auto
  next
    case (Inr st1)
    then show ?thesis using 3 by auto
  qed
qed simp

lemma by_name_ok: "names_ok (by_name rs)" "distinct (map fst (by_name rs))"
proof -
  have "names_ok (fold (\<lambda>r. AList.update (eg_engine_name r) r) rs d) \<and> distinct (map fst (fold (\<lambda>r. AList.update (eg_engine_name r) r) rs d))"
    if "names_ok d" "distinct (map fst d)" for d
    using that
  proof (induction rs arbitrary: d)
    case (Cons r rs)
    have "names_ok (AList.update (eg_engine_name r) r d)" using Cons.prems(1) by (simp add: names_ok_def update_conv')
    then show ?case using Cons.IH Cons.prems(2) by (simp add: distinct_update)
  qed simp
  note keep = this [of "[]"]
  have "names_ok []" by (simp add: names_ok_def)
  then show "names_ok (by_name rs)" "distinct (map fst (by_name rs))" using keep unfolding by_name_def by auto
qed

lemma position_nth:
  assumes "distinct xs" "i < length xs"
  shows "length (takeWhile (\<lambda>m. m \<noteq> xs ! i) xs) = i"
proof -
  have "xs ! i \<notin> set (take i xs)" using assms by (auto simp: in_set_conv_nth nth_eq_iff_index_eq)
  then have "takeWhile (\<lambda>m. m \<noteq> xs ! i) (take i xs) = take i xs" by (auto simp: takeWhile_eq_all_conv)
  moreover have "takeWhile (\<lambda>m. m \<noteq> xs ! i) (take i xs @ xs ! i # drop (Suc i) xs) = takeWhile (\<lambda>m. m \<noteq> xs ! i) (take i xs)"
    by (rule takeWhile_tail) simp
  ultimately have "takeWhile (\<lambda>m. m \<noteq> xs ! i) xs = take i xs" using assms(2) by (simp only: id_take_nth_drop [symmetric])
  then show ?thesis using assms(2) by simp
qed

lemma ordered_acyclic:
  assumes "sound_order d st" "fst ` set d \<subseteq> set (fst st)"
  shows "acyclic (dependency d)"
proof -
  let ?names = "map eg_engine_name (snd st)"
  define pos where "pos n = length (takeWhile (\<lambda>m. m \<noteq> n) ?names)" for n
  have "distinct ?names" using assms(1) unfolding sound_order_def by (metis distinct_rev)
  then have at_pos: "pos (?names ! i) = i" if "i < length ?names" for i
    using position_nth that unfolding pos_def by blast
  have "(dependency d)\<inverse> \<subseteq> measure pos"
  proof (clarsimp simp: dependency_def)
    fix a b r assume ab: "map_of d a = Some r" "b \<in> set (needs d r)"
    then have "a \<in> set ?names" using assms by (force simp: sound_order_def dest: map_of_SomeD)
    then obtain i where i: "i < length (snd st)" "?names ! i = a" by (auto simp: in_set_conv_nth)
    then have "map_of d a = Some (snd st ! i)" using assms(1) by (auto simp: sound_order_def)
    then have "b \<in> eg_engine_name ` set (take i (snd st))" using ab i(1) assms(1) by (auto simp: sound_order_def before_deps_def)
    then obtain j where j: "j < i" "eg_engine_name (snd st ! j) = b" using i(1) by (auto simp: in_set_conv_nth)
    then show "pos b < pos a" using at_pos [of i] at_pos [of j] i by auto
  qed
  then have "wf ((dependency d)\<inverse>)" by (rule wf_subset [OF wf_measure])
  then show ?thesis using wf_acyclic acyclic_converse by blast
qed

text \<open>Engines can be ordered exactly when their dependencies have no cycle. The order then holds every
  engine once, and every dependency that is among the engines stands before the engine that needs it.\<close>

theorem topological_spec:
  "case topological rs of
     Inl e \<Rightarrow> \<not> acyclic (dependency (by_name rs))
   | Inr os \<Rightarrow> acyclic (dependency (by_name rs)) \<and> distinct (map eg_engine_name os) \<and> set os = snd ` set (by_name rs)
       \<and> (\<forall>i < length os. set (needs (by_name rs) (os ! i)) \<subseteq> eg_engine_name ` set (take i os))"
proof -
  let ?d = "by_name rs"
  let ?v = "visit_engines ?d [] ([], []) (sort (map fst ?d))"
  have s0: "sound_order ?d ([], [])" by (simp add: sound_order_def before_deps_def)
  show ?thesis
  proof (cases ?v)
    case (Inl e)
    have "\<forall>n \<in> set (sort (map fst ?d)). map_of ?d n \<noteq> None" by (auto simp: map_of_eq_None_iff)
    then have "\<not> acyclic (dependency ?d)" using visit_cycle(2) [OF Inl] by simp
    then show ?thesis using Inl by (simp add: topological_def)
  next
    case (Inr st)
    have s: "sound_order ?d st" "set (sort (map fst ?d)) \<subseteq> set (fst st)"
      using visit_sound(2) [OF by_name_ok(1) Inr s0] by auto
    have names: "fst ` set ?d \<subseteq> set (fst st)" using s(2) by simp
    have "set (snd st) = snd ` set ?d"
    proof (intro equalityI subsetI)
      fix r assume "r \<in> set (snd st)"
      then have "map_of ?d (eg_engine_name r) = Some r" using s(1) by (simp add: sound_order_def)
      then show "r \<in> snd ` set ?d" by (force dest: map_of_SomeD)
    next
      fix r assume "r \<in> snd ` set ?d"
      then obtain n where n: "(n, r) \<in> set ?d" by auto
      then have "map_of ?d n = Some r" using by_name_ok(2) by simp
      moreover have "n \<in> set (fst st)" using n names by force
      then obtain r' where "r' \<in> set (snd st)" "eg_engine_name r' = n" using s(1) by (auto simp: sound_order_def)
      ultimately show "r \<in> set (snd st)" using s(1) by (auto simp: sound_order_def)
    qed
    moreover have "distinct (map eg_engine_name (snd st))" using s(1) unfolding sound_order_def by (metis distinct_rev)
    ultimately show ?thesis
      using Inr ordered_acyclic [OF s(1) names] s(1) by (simp add: topological_def sound_order_def before_deps_def)
  qed
qed

lemma check_dependencies_iff:
  "check_dependencies names rs = Inr u \<longleftrightarrow> (\<forall>r \<in> set rs. set (eg_required_engine_dependencies r) \<subseteq> set names)"
  by (induction rs) (auto simp: Let_def filter_empty_conv)

text \<open>Every engine of a registry is replay-safe and lies under its own name and version.\<close>

definition registry_ok :: "engine_registry \<Rightarrow> bool" where
  "registry_ok d \<longleftrightarrow> (\<forall>k r. map_of d k = Some r \<longrightarrow> engine_key r = k \<and> validate_safe r = Inr ())"

lemma register_engines_ok: "register_engines d rs = Inr d' \<Longrightarrow> registry_ok d \<Longrightarrow> registry_ok d'"
proof (induction rs arbitrary: d)
  case (Cons r rs)
  then obtain d1 where d1: "register_engine d r = Inr d1" "register_engines d1 rs = Inr d'" by (auto simp: bindE_eq_Inr)
  then have "validate_safe r = Inr ()" "d1 = AList.update (engine_key r) r d"
    by (auto simp: register_engine_def bindE_eq_Inr split: if_split_asm)
  then have "registry_ok d1" using Cons.prems(2) by (simp add: registry_ok_def update_conv')
  then show ?case using Cons.IH d1(2) by blast
qed simp

text \<open>The engine a name stands for in a request, and what it requires of the others.\<close>

definition engine_for :: "engine_registry \<Rightarrow> (string \<times> string) list \<Rightarrow> string \<Rightarrow> engine_registration option" where
  "engine_for d versions n = map_of d (n, or_empty (map_of versions n))"

definition requirement :: "engine_registry \<Rightarrow> (string \<times> string) list \<Rightarrow> string list \<Rightarrow> (string \<times> string) set" where
  "requirement d versions selected =
     {(a, b). a \<in> set selected \<and> (\<exists>r. engine_for d versions a = Some r \<and> b \<in> set (eg_required_engine_dependencies r))}"

lemma registrations_of_cases:
  "case registrations_of d versions selected of
     Inl e \<Rightarrow> \<exists>n \<in> set selected. engine_for d versions n = None
   | Inr rs \<Rightarrow> (\<forall>n \<in> set selected. engine_for d versions n \<noteq> None) \<and> rs = map (the \<circ> engine_for d versions) selected"
  unfolding registrations_of_def engine_for_def Let_def
  by (induction selected) (auto simp: bindE_def split: option.split sum.split sum.split_asm option.split_asm)

lemma by_name_map:
  assumes "\<forall>r \<in> set rs. f (eg_engine_name r) = r"
  shows "map_of (by_name rs) n = (if n \<in> eg_engine_name ` set rs then Some (f n) else None)"
proof -
  have "map_of (fold (\<lambda>r. AList.update (eg_engine_name r) r) rs d) n = (if n \<in> eg_engine_name ` set rs then Some (f n) else map_of d n)" for d
    using assms by (induction rs arbitrary: d) (auto simp: update_conv')
  from this [of "[]"] show ?thesis unfolding by_name_def by simp
qed

text \<open>The engines that a registry finds for a request, when it finds all of them.\<close>

lemma resolved_engines:
  assumes "registry_ok d" "\<forall>n \<in> set selected. engine_for d versions n \<noteq> None"
    and "rs = map (the \<circ> engine_for d versions) selected"
  shows "eg_engine_name ` set rs = set selected"
    "map_of (by_name rs) n = (if n \<in> set selected then engine_for d versions n else None)"
    "r \<in> set rs \<Longrightarrow> engine_for d versions (eg_engine_name r) = Some r \<and> validate_safe r = Inr ()"
proof -
  have found: "\<exists>r. engine_for d versions m = Some r \<and> eg_engine_name r = m \<and> validate_safe r = Inr ()" if "m \<in> set selected" for m
    using assms(1,2) that by (force simp: registry_ok_def engine_for_def engine_key_def)
  show names: "eg_engine_name ` set rs = set selected" using found by (force simp: assms(3))
  have "\<forall>r \<in> set rs. the (engine_for d versions (eg_engine_name r)) = r" using found by (force simp: assms(3))
  from by_name_map [OF this] show "map_of (by_name rs) n = (if n \<in> set selected then engine_for d versions n else None)"
    using found [of n] unfolding names by auto
  show "engine_for d versions (eg_engine_name r) = Some r \<and> validate_safe r = Inr ()" if "r \<in> set rs"
    using that found by (force simp: assms(3))
qed

lemma resolved_order:
  assumes "registry_ok d" "\<forall>n \<in> set selected. engine_for d versions n \<noteq> None"
    and "rs = map (the \<circ> engine_for d versions) selected"
    and "set os = snd ` set (by_name rs)"
  shows "set os \<subseteq> set rs \<and> eg_engine_name ` set os = set selected"
proof -
  note e = resolved_engines [OF assms(1-3)]
  have "r \<in> set os \<longleftrightarrow> (\<exists>n. map_of (by_name rs) n = Some r)" for r
    using by_name_ok(2) [of rs] by (force simp: assms(4))
  then have os: "r \<in> set os \<longleftrightarrow> (\<exists>n \<in> set selected. engine_for d versions n = Some r)" for r
    by (auto simp: e(2) split: if_split_asm)
  then have "set os \<subseteq> set rs" by (force simp: assms(3))
  moreover have "set rs \<subseteq> set os" using os assms(2) by (force simp: assms(3))
  ultimately show ?thesis using e(1) by blast
qed

lemma resolved_dependency:
  assumes "registry_ok d" "\<forall>n \<in> set selected. engine_for d versions n \<noteq> None"
    and "rs = map (the \<circ> engine_for d versions) selected"
    and "\<forall>r \<in> set rs. set (eg_required_engine_dependencies r) \<subseteq> set selected"
  shows "dependency (by_name rs) = requirement d versions selected"
    "r \<in> set rs \<Longrightarrow> set (needs (by_name rs) r) = set (eg_required_engine_dependencies r)"
proof -
  note e = resolved_engines [OF assms(1-3)]
  show n: "set (needs (by_name rs) r) = set (eg_required_engine_dependencies r)" if "r \<in> set rs" for r
    using that assms(2,4) by (auto simp: needs_def e(2))
  have mem: "r \<in> set rs" if "a \<in> set selected" "engine_for d versions a = Some r" for a r
    using that by (force simp: assms(3))
  show "dependency (by_name rs) = requirement d versions selected"
    unfolding dependency_def requirement_def e(2) using mem n by (auto split: if_split_asm)
qed

text \<open>Claim C21: resolving the engines of a replay against a registry built by registration fails exactly when a
  selected engine is unknown in the version asked for, when one requires an engine that is not selected, or when the
  requirements of the selected ones have a cycle. Otherwise it returns every selected engine once, each replay-safe
  and in the version asked for, and each after all engines it requires.\<close>

theorem resolve_spec:
  assumes "register_engines [] items = Inr d"
  shows "let known = (\<forall>n \<in> set selected. engine_for d versions n \<noteq> None);
             closed = (\<forall>n \<in> set selected. \<forall>r. engine_for d versions n = Some r \<longrightarrow> set (eg_required_engine_dependencies r) \<subseteq> set selected);
             cycle_free = acyclic (requirement d versions selected)
         in case resolve_engines d selected versions of
           Inl e \<Rightarrow> \<not> known \<or> \<not> closed \<or> \<not> cycle_free
         | Inr os \<Rightarrow> known \<and> closed \<and> cycle_free \<and> distinct (map eg_engine_name os) \<and> eg_engine_name ` set os = set selected
             \<and> (\<forall>r \<in> set os. engine_for d versions (eg_engine_name r) = Some r \<and> validate_safe r = Inr ())
             \<and> (\<forall>i < length os. set (eg_required_engine_dependencies (os ! i)) \<subseteq> eg_engine_name ` set (take i os))"
proof -
  have ok: "registry_ok d" using register_engines_ok [OF assms] by (simp add: registry_ok_def)
  show ?thesis
  proof (cases "registrations_of d versions selected")
    case (Inl e)
    then show ?thesis using registrations_of_cases [where d = d and versions = versions and selected = selected] by (auto simp: resolve_engines_def Let_def)
  next
    case found: (Inr rs)
    then have k: "\<forall>n \<in> set selected. engine_for d versions n \<noteq> None" "rs = map (the \<circ> engine_for d versions) selected"
      using registrations_of_cases [where d = d and versions = versions and selected = selected] by simp_all
    note e = resolved_engines [OF ok k]
    have names: "set (map eg_engine_name rs) = set selected" using e(1) by simp
    have "(\<forall>r \<in> set rs. set (eg_required_engine_dependencies r) \<subseteq> set selected)
        \<longleftrightarrow> (\<forall>n \<in> set selected. \<forall>r. engine_for d versions n = Some r \<longrightarrow> set (eg_required_engine_dependencies r) \<subseteq> set selected)"
      using k(1) unfolding k(2) by force
    note closed = this
    show ?thesis
    proof (cases "check_dependencies (map eg_engine_name rs) rs")
      case (Inl x)
      then have "\<not> (\<forall>r \<in> set rs. set (eg_required_engine_dependencies r) \<subseteq> set selected)"
        using check_dependencies_iff [of "map eg_engine_name rs" rs "()"] unfolding names by simp
      then show ?thesis using found Inl unfolding closed by (auto simp: resolve_engines_def Let_def)
    next
      case (Inr u)
      then have c: "\<forall>r \<in> set rs. set (eg_required_engine_dependencies r) \<subseteq> set selected"
        using check_dependencies_iff [of "map eg_engine_name rs" rs u] unfolding names by simp
      note dep = resolved_dependency [OF ok k c]
      have run: "resolve_engines d selected versions = topological rs" using found Inr by (simp add: resolve_engines_def)
      note topo = topological_spec [of rs, unfolded dep(1)]
      show ?thesis
      proof (cases "topological rs")
        case (Inl y)
        then show ?thesis using topo by (simp add: run)
      next
        case (Inr os)
        have mem: "set os \<subseteq> set rs \<and> eg_engine_name ` set os = set selected"
          using Inr topo resolved_order [OF ok k, of os] by simp
        have "set (eg_required_engine_dependencies (os ! i)) \<subseteq> eg_engine_name ` set (take i os)" if i: "i < length os" for i
        proof -
          have "os ! i \<in> set rs" using mem nth_mem [OF i] by blast
          moreover have "set (needs (by_name rs) (os ! i)) \<subseteq> eg_engine_name ` set (take i os)"
            using topo i unfolding Inr sum.case by blast
          ultimately show ?thesis using dep(2) by simp
        qed
        then show ?thesis using Inr topo mem c k(1) e(3) unfolding closed Let_def run by auto
      qed
    qed
  qed
qed


subsection \<open>Instances\<close>

definition sample_history :: "string \<Rightarrow> instant \<Rightarrow> int \<Rightarrow> historical_event" where
  "sample_history i t n = \<lparr>he_replay_event_id = i, he_source_event_id = None, he_event_type = ''candle'', he_schema_version = ''1'',
     he_instrument = Some ''XAUUSD'', he_timeframe = Some ''M5'', he_occurred_at = t, he_published_at = t, he_available_at = t,
     he_source_name = ''historical_candles'', he_source_version = ''1'', he_source_sequence = Some n, he_priority = 10, he_payload = ''{}'',
     he_payload_hash = ''h'', he_dataset_id = ''d'', he_dataset_version = ''1'', he_ordering_version = ''1.0''\<rparr>"

definition sample_streams :: "historical_event list list" where
  "sample_streams = [[sample_history ''a'' 10 1, sample_history ''b'' 30 3], [sample_history ''c'' 10 2, sample_history ''d'' 20 4]]"

lemma merge_is_sort_witness:
  "list_all by_key sample_streams \<and> fst (merge_event_sources sample_streams)
     = [sample_history ''a'' 10 1, sample_history ''c'' 10 2, sample_history ''d'' 20 4, sample_history ''b'' 30 3]"
proof -
  have o: "list_all by_key sample_streams" by code_simp
  moreover have "dedupe None (sort_key ordering_key (concat sample_streams))
      = [sample_history ''a'' 10 1, sample_history ''c'' 10 2, sample_history ''d'' 20 4, sample_history ''b'' 30 3]" by code_simp
  ultimately show ?thesis using merge_is_sort [of sample_streams] by simp
qed

lemma timestamp_groups_spec_witness:
  "sorted_wrt (<) (map (\<lambda>g. he_available_at (hd g))
     [[sample_history ''a'' 10 1, sample_history ''c'' 10 2], [sample_history ''d'' 20 4]])"
proof -
  have "timestamp_groups 5 ([sample_history ''a'' 10 1, sample_history ''c'' 10 2, sample_history ''d'' 20 4], None)
      = ([[sample_history ''a'' 10 1, sample_history ''c'' 10 2], [sample_history ''d'' 20 4]], None)" by code_simp
  from timestamp_groups_spec [OF this] have "by_key [sample_history ''a'' 10 1, sample_history ''c'' 10 2, sample_history ''d'' 20 4] \<longrightarrow>
     sorted_wrt (<) (map (\<lambda>g. he_available_at (hd g)) [[sample_history ''a'' 10 1, sample_history ''c'' 10 2], [sample_history ''d'' 20 4]])"
    by simp
  moreover have "by_key [sample_history ''a'' 10 1, sample_history ''c'' 10 2, sample_history ''d'' 20 4]" by code_simp
  ultimately show ?thesis by blast
qed

lemma key_text_order_witness:
  "ordering_key_text (sample_history ''b'' 10 10) < ordering_key_text (sample_history ''a'' 10 9)"
proof -
  have "hd (digits10 10) < hd (digits10 9)" by code_simp
  then show ?thesis using key_text_order [of "sample_history ''a'' 10 9" "sample_history ''b'' 10 10" 9 10] by (simp add: sample_history_def)
qed

text \<open>The order of the production engines for a score.\<close>

abbreviation score_request :: "string list" where
  "score_request \<equiv> [''smc'', ''liquidity'', ''market_data'', ''volume_profile'']"

abbreviation score_versions :: "(string \<times> string) list" where
  "score_versions \<equiv> map (\<lambda>n. (n, ''1.0.0'')) score_request"

theorem resolve_spec_witness:
  "\<exists>d os. production_registry = Inr d \<and> resolve_engines d score_request score_versions = Inr os
     \<and> map eg_engine_name os = [''market_data'', ''smc'', ''liquidity'', ''volume_profile'']
     \<and> acyclic (requirement d score_versions score_request)
     \<and> set (eg_required_engine_dependencies (os ! 2)) \<subseteq> eg_engine_name ` set (take 2 os)"
proof -
  have "\<not> isl production_registry" by code_simp
  then obtain d where d: "production_registry = Inr d" by (cases production_registry) (auto simp: isl_def)
  have "case production_registry of Inl _ \<Rightarrow> False | Inr d \<Rightarrow> (case resolve_engines d score_request score_versions of
      Inl _ \<Rightarrow> False | Inr os \<Rightarrow> map eg_engine_name os = [''market_data'', ''smc'', ''liquidity'', ''volume_profile''])"
    by code_simp
  then obtain os where os: "resolve_engines d score_request score_versions = Inr os"
    "map eg_engine_name os = [''market_data'', ''smc'', ''liquidity'', ''volume_profile'']"
    unfolding d by (auto split: sum.split_asm)
  have "length os = 4" using arg_cong [OF os(2), of length] by simp
  then have spec: "acyclic (requirement d score_versions score_request)
      \<and> set (eg_required_engine_dependencies (os ! 2)) \<subseteq> eg_engine_name ` set (take 2 os)"
    using resolve_spec [OF d [unfolded production_registry_def], of score_request score_versions] os(1) by (simp add: Let_def)
  show ?thesis by (rule exI [of _ d], rule exI [of _ os]) (use d os spec in simp)
qed

end
