(* ===== verification/Replay_Session.thy ===== *)
theory Replay_Session
  imports Replay_Core Market_Data
begin

text \<open>
  What a replay keeps: requests and sessions with their validators (\<open>models.py\<close>), the configuration
  (\<open>config.py\<close>), the in-memory repository with its versions and leases (\<open>repository.py\<close>), the
  in-memory sources and their registries (\<open>sources.py\<close>) and the isolated event bus and feature store
  (\<open>isolation.py\<close>), all under \<open>engines/replay_engine\<close>.

  \<open>progress_percent\<close> and the speed multiplier are decimals; the first is the float whose text it is
  built from. Metadata is kept as its JSON text and its \<open>str\<close>. Fields that no code reads (the name,
  the output options, the retention of failed sessions) are left out.
\<close>

subsection \<open>Datasets and requests\<close>

record dataset_reference =
  ds_dataset_id :: string
  ds_dataset_version :: string
  ds_source_name :: string
  ds_created_at :: instant
  ds_available_from :: instant
  ds_available_until :: instant
  ds_manifest_hash :: string
  ds_mutable :: bool
  ds_instruments :: "string list"
  ds_timeframes :: "string list"

definition replay_timeframes :: "string list" where
  "replay_timeframes = [''M1'', ''M5'', ''M15'', ''M30'', ''H1'', ''H4'', ''D1'']"

text \<open>The validators normalise: upper case, separators dropped, sorted, without duplicates.\<close>

definition normalize_instruments :: "string \<Rightarrow> nat option \<Rightarrow> string list \<Rightarrow> replay_error + string list" where
  "normalize_instruments msg limit vs =
     (let ns = sort (remdups (map (\<lambda>v. filter (\<lambda>c. c \<noteq> CHR ''/'' \<and> c \<noteq> CHR ''-'') (py_upper v)) vs))
      in if ns = [] \<or> (case limit of None \<Rightarrow> False | Some l \<Rightarrow> l < length ns) \<or> list_ex (\<lambda>n. n = [] \<or> \<not> list_all is_alnum n) ns
         then Inl (Raised_Other ''ValueError'' msg) else Inr ns)"

definition normalize_timeframes :: "string \<Rightarrow> string list \<Rightarrow> replay_error + string list" where
  "normalize_timeframes msg vs =
     (let ns = sort (remdups vs)
      in if ns = [] \<or> \<not> set ns \<subseteq> set replay_timeframes then Inl (Raised_Other ''ValueError'' msg) else Inr ns)"

definition dataset_ok :: "dataset_reference \<Rightarrow> bool" where
  "dataset_ok d \<longleftrightarrow> ds_available_from d < ds_available_until d \<and> ds_available_from d \<le> ds_created_at d
     \<and> normalize_instruments ''dataset instruments are invalid'' None (ds_instruments d) = Inr (ds_instruments d)
     \<and> normalize_timeframes ''dataset timeframes are invalid'' (ds_timeframes d) = Inr (ds_timeframes d) \<and> length (ds_manifest_hash d) = 64"

datatype replay_mode = Maximum_Speed | Accelerated | Real_Time | Step_Mode

record replay_request =
  rq_replay_id :: uuid
  rq_instruments :: "string list"
  rq_timeframes :: "string list"
  rq_start_at :: instant
  rq_end_at :: instant
  rq_mode :: replay_mode
  rq_speed_multiplier :: "rat option"
  rq_step_unit :: bool
  rq_dataset :: dataset_reference
  rq_engine_selection :: "string list"
  rq_engine_versions :: "(string \<times> string) list"
  rq_policy_versions :: "(string \<times> string) list"
  rq_source_names :: "string list"
  rq_every_events :: int
  rq_after_timestamp_group :: bool
  rq_metadata_json :: string
  rq_metadata_text :: string

definition request_ok :: "replay_request \<Rightarrow> bool" where
  "request_ok r \<longleftrightarrow> dataset_ok (rq_dataset r)
     \<and> normalize_instruments ''instruments are invalid'' (Some 100) (rq_instruments r) = Inr (rq_instruments r)
     \<and> normalize_timeframes ''unsupported timeframe'' (rq_timeframes r) = Inr (rq_timeframes r)
     \<and> rq_engine_selection r \<noteq> [] \<and> length (rq_engine_selection r) \<le> 32 \<and> distinct (rq_engine_selection r)
     \<and> rq_start_at r < rq_end_at r
     \<and> ds_available_from (rq_dataset r) \<le> rq_start_at r \<and> rq_end_at r \<le> ds_available_until (rq_dataset r)
     \<and> set (rq_instruments r) \<subseteq> set (ds_instruments (rq_dataset r)) \<and> set (rq_timeframes r) \<subseteq> set (ds_timeframes (rq_dataset r))
     \<and> set (rq_engine_selection r) = set (map fst (rq_engine_versions r))
     \<and> (rq_mode r = Accelerated \<longleftrightarrow> rq_speed_multiplier r \<noteq> None)
     \<and> opt_all (\<lambda>x. 0 < x \<and> x \<le> 100000) (rq_speed_multiplier r)
     \<and> (rq_mode r = Step_Mode \<longleftrightarrow> rq_step_unit r)
     \<and> 1 \<le> rq_every_events r \<and> rq_every_events r \<le> 10000000
     \<and> length (rq_metadata_json r) \<le> 65536
     \<and> rq_source_names r = sort (remdups (rq_source_names r)) \<and> length (rq_source_names r) \<le> 32
     \<and> list_all (\<lambda>n. length n \<le> 96) (rq_source_names r)"

subsection \<open>Sessions\<close>

datatype replay_failure_category = Invalid_Request | Dataset_Unavailable | Dataset_Incomplete | Source_Failure | Ordering_Violation
  | Point_In_Time_Violation | Engine_Incompatible | Engine_Failure | Event_Loop_Detected | Checkpoint_Failure
  | Persistence_Failure | Lease_Lost | Fc_Cancelled | Timeout | Resource_Limit | Internal_Invariant

record replay_failure =
  rf_category :: replay_failure_category
  rf_reason_code :: string
  rf_cursor_at :: instant
  rf_retryable :: bool
  rf_detail :: string

record replay_session =
  rs_replay_id :: uuid
  rs_request :: replay_request
  rs_request_fingerprint :: string
  rs_status :: replay_status
  rs_created_at :: instant
  rs_started_at :: "instant option"
  rs_paused_at :: "instant option"
  rs_completed_at :: "instant option"
  rs_failed_at :: "instant option"
  rs_cancelled_at :: "instant option"
  rs_virtual_cursor_at :: instant
  rs_engine_graph_version :: string
  rs_ordering_version :: string
  rs_replay_engine_version :: string
  rs_configuration_hash :: string
  rs_policy_manifest_hash :: string
  rs_engine_manifest_hash :: string
  rs_total_events_estimate :: "int option"
  rs_processed_events :: int
  rs_generated_events :: int
  rs_failed_events :: int
  rs_progress_percent :: "f64 option"
  rs_latest_checkpoint_id :: "uuid option"
  rs_last_ordering_key :: "string option"
  rs_semantic_output_hash :: string
  rs_worker_id :: "string option"
  rs_lease_expires_at :: "instant option"
  rs_heartbeat_at :: "instant option"
  rs_failure :: "replay_failure option"
  rs_row_version :: int

definition session_invariants :: "replay_session \<Rightarrow> bool" where
  "session_invariants s \<longleftrightarrow> rq_start_at (rs_request s) \<le> rs_virtual_cursor_at s \<and> rs_virtual_cursor_at s \<le> rq_end_at (rs_request s)
     \<and> (rs_status s = Rs_Completed \<longrightarrow> rs_progress_percent s = Some (fint 100))
     \<and> (rs_lease_expires_at s \<noteq> None \<longrightarrow> rs_worker_id s \<noteq> None)
     \<and> 0 \<le> rs_processed_events s \<and> 0 \<le> rs_generated_events s \<and> 0 \<le> rs_failed_events s \<and> 1 \<le> rs_row_version s
     \<and> opt_all (\<lambda>p. 0 \<le> p \<and> p \<le> fint 100) (rs_progress_percent s)"

record replay_checkpoint =
  cp_checkpoint_id :: uuid
  cp_replay_id :: uuid
  cp_sequence :: int
  cp_cursor_at :: instant
  cp_last_ordering_key :: "string option"
  cp_processed_events :: int
  cp_generated_events :: int
  cp_source_cursors :: "(string \<times> string) list"
  cp_semantic_output_hash :: string
  cp_state_hash :: string
  cp_created_at :: instant
  cp_reason :: string

record replay_transition =
  tr_transition_id :: uuid
  tr_replay_id :: uuid
  tr_from_status :: replay_status
  tr_to_status :: replay_status
  tr_reason_code :: string
  tr_occurred_at :: instant

record replay_trace =
  tc_replay_id :: uuid
  tc_sequence :: int
  tc_virtual_time :: instant
  tc_event_id :: uuid
  tc_event_type :: string
  tc_source :: string
  tc_processing_status :: string
  tc_generated_event_count :: int

record replay_output =
  ro_output_id :: uuid
  ro_replay_id :: uuid
  ro_output_type :: string
  ro_source_engine :: string
  ro_source_id :: string
  ro_fingerprint :: string
  ro_as_of :: instant
  ro_state :: "string option"

text \<open>The \<open>model_dump\<close> of a checkpoint without its state hash is a parameter.\<close>

definition calculated_state_hash :: "runtime \<Rightarrow> (replay_checkpoint \<Rightarrow> string) \<Rightarrow> replay_checkpoint \<Rightarrow> string" where
  "calculated_state_hash rt dump c = rt_sha256 rt (dump (c\<lparr>cp_state_hash := []\<rparr>))"


subsection \<open>Configuration\<close>

record replay_config =
  rg_engine_version :: string
  rg_ordering_version :: string
  rg_graph_version :: string
  rg_max_instruments :: int
  rg_max_timeframes :: int
  rg_max_duration_days :: int
  rg_max_concurrent_sessions :: int
  rg_max_step_units :: int
  rg_max_metadata_bytes :: int
  rg_source_batch_size :: int
  rg_timestamp_group_limit :: int
  rg_generated_event_limit :: int
  rg_max_chain_depth :: int
  rg_max_multiplier :: rat
  rg_checkpoint_enabled :: bool
  rg_worker_max_concurrency :: int
  rg_lease_seconds :: int
  rg_heartbeat_seconds :: int
  rg_fail_on_mutable_dataset :: bool
  rg_trace_enabled :: bool
  rg_max_trace_records :: int
  rg_completed_days :: int
  rg_cleanup_batch_size :: int
  rg_publish_lifecycle_events :: bool
  rg_approved_instruments :: "string list"
  rg_approved_timeframes :: "string list"
  rg_approved_sources :: "string list"

definition within_bounds :: "int \<Rightarrow> int \<Rightarrow> int \<Rightarrow> bool" where
  "within_bounds lo hi x \<longleftrightarrow> lo \<le> x \<and> x \<le> hi"

definition replay_config_ok :: "replay_config \<Rightarrow> bool" where
  "replay_config_ok c \<longleftrightarrow> within_bounds 1 100 (rg_max_instruments c) \<and> within_bounds 1 16 (rg_max_timeframes c)
     \<and> within_bounds 1 3650 (rg_max_duration_days c) \<and> within_bounds 1 64 (rg_max_concurrent_sessions c)
     \<and> within_bounds 1 1000 (rg_max_step_units c) \<and> within_bounds 64 65536 (rg_max_metadata_bytes c)
     \<and> within_bounds 1 100000 (rg_source_batch_size c) \<and> within_bounds 1 1000000 (rg_timestamp_group_limit c)
     \<and> within_bounds 1 100000 (rg_generated_event_limit c) \<and> within_bounds 1 256 (rg_max_chain_depth c)
     \<and> 0 < rg_max_multiplier c \<and> rg_max_multiplier c \<le> 100000
     \<and> within_bounds 1 32 (rg_worker_max_concurrency c) \<and> within_bounds 3 3600 (rg_lease_seconds c)
     \<and> within_bounds 1 1200 (rg_heartbeat_seconds c) \<and> rg_heartbeat_seconds c < rg_lease_seconds c
     \<and> within_bounds 1 1000000 (rg_max_trace_records c) \<and> within_bounds 1 3650 (rg_completed_days c)
     \<and> within_bounds 1 10000 (rg_cleanup_batch_size c)
     \<and> rg_worker_max_concurrency c \<le> rg_max_concurrent_sessions c
     \<and> rg_approved_instruments c \<noteq> [] \<and> rg_approved_timeframes c \<noteq> [] \<and> rg_approved_sources c \<noteq> []"

definition default_replay_config :: replay_config where
  "default_replay_config = \<lparr>rg_engine_version = ''1.0.0'', rg_ordering_version = ''1.0'', rg_graph_version = ''1.0'',
     rg_max_instruments = 10, rg_max_timeframes = 8, rg_max_duration_days = 90, rg_max_concurrent_sessions = 4,
     rg_max_step_units = 100, rg_max_metadata_bytes = 4096, rg_source_batch_size = 1000, rg_timestamp_group_limit = 50000,
     rg_generated_event_limit = 10000, rg_max_chain_depth = 32, rg_max_multiplier = 1000, rg_checkpoint_enabled = True,
     rg_worker_max_concurrency = 2, rg_lease_seconds = 30, rg_heartbeat_seconds = 10, rg_fail_on_mutable_dataset = True,
     rg_trace_enabled = False, rg_max_trace_records = 100000, rg_completed_days = 90, rg_cleanup_batch_size = 100,
     rg_publish_lifecycle_events = True, rg_approved_instruments = [''XAUUSD''],
     rg_approved_timeframes = [''M1'', ''M5'', ''M15'', ''M30'', ''H1'', ''H4'', ''D1''],
     rg_approved_sources = [''historical_candles'', ''economic_calendar'']\<rparr>"

subsection \<open>The repository\<close>

record replay_repository =
  rr_sessions :: "(uuid \<times> replay_session) list"
  rr_transitions :: "(uuid \<times> replay_transition list) list"
  rr_checkpoints :: "(uuid \<times> replay_checkpoint list) list"
  rr_trace :: "(uuid \<times> replay_trace list) list"
  rr_outputs :: "(uuid \<times> replay_output list) list"

definition new_replay_repository :: replay_repository where
  "new_replay_repository = \<lparr>rr_sessions = [], rr_transitions = [], rr_checkpoints = [], rr_trace = [], rr_outputs = []\<rparr>"

definition entries_of :: "('k \<times> 'v list) list \<Rightarrow> 'k \<Rightarrow> 'v list" where
  "entries_of m k = (case map_of m k of None \<Rightarrow> [] | Some vs \<Rightarrow> vs)"

definition create_session :: "replay_session \<Rightarrow> replay_repository \<Rightarrow> replay_repository \<times> (replay_error + replay_session)" where
  "create_session s r =
     (if map_of (rr_sessions r) (rs_replay_id s) \<noteq> None then (r, Inl (Replay_Concurrency ''replay session already exists''))
      else (r\<lparr>rr_sessions := AList.update (rs_replay_id s) s (rr_sessions r)\<rparr>, Inr s))"

definition get_session :: "uuid \<Rightarrow> replay_repository \<Rightarrow> replay_session option" where
  "get_session i r = map_of (rr_sessions r) i"

text \<open>\<open>xs[offset : offset + limit]\<close>.\<close>

definition page :: "nat \<Rightarrow> nat \<Rightarrow> 'a list \<Rightarrow> 'a list" where
  "page offset limit xs = take limit (drop offset xs)"

definition list_sessions :: "nat \<Rightarrow> nat \<Rightarrow> replay_status option \<Rightarrow> replay_repository \<Rightarrow> replay_session list" where
  "list_sessions offset limit status r =
     page offset limit (sort_desc (\<lambda>s. (rs_created_at s, rs_replay_id s))
       (filter (\<lambda>s. status = None \<or> status = Some (rs_status s)) (map snd (rr_sessions r))))"

definition save_session :: "replay_session \<Rightarrow> int \<Rightarrow> replay_repository \<Rightarrow> replay_repository \<times> (replay_error + replay_session)" where
  "save_session s expected r =
     (case map_of (rr_sessions r) (rs_replay_id s) of
        None \<Rightarrow> (r, Inl (Replay_Persistence ''replay session does not exist''))
      | Some current \<Rightarrow>
          if rs_row_version current \<noteq> expected then (r, Inl (Replay_Concurrency ''replay session version conflict''))
          else if rs_row_version s \<noteq> expected + 1
          then (r, Inl (Replay_Concurrency ''replay session version must increment exactly once''))
          else (r\<lparr>rr_sessions := AList.update (rs_replay_id s) s (rr_sessions r)\<rparr>, Inr s))"

definition save_transition :: "replay_transition \<Rightarrow> replay_repository \<Rightarrow> replay_repository" where
  "save_transition t r =
     (let vs = entries_of (rr_transitions r) (tr_replay_id t)
      in r\<lparr>rr_transitions := AList.update (tr_replay_id t)
             (if list_ex (\<lambda>x. tr_transition_id x = tr_transition_id t) vs then vs else vs @ [t]) (rr_transitions r)\<rparr>)"

definition list_transitions :: "uuid \<Rightarrow> nat \<Rightarrow> nat \<Rightarrow> replay_repository \<Rightarrow> replay_transition list" where
  "list_transitions i offset limit r =
     page offset limit (sort_key (\<lambda>t. (tr_occurred_at t, tr_transition_id t)) (entries_of (rr_transitions r) i))"

definition save_checkpoint :: "runtime \<Rightarrow> (replay_checkpoint \<Rightarrow> string) \<Rightarrow> replay_checkpoint \<Rightarrow> replay_repository
    \<Rightarrow> replay_repository \<times> (replay_error + replay_checkpoint)" where
  "save_checkpoint rt dump c r =
     (if calculated_state_hash rt dump c \<noteq> cp_state_hash c then (r, Inl (Replay_Checkpoint ''checkpoint state hash is invalid''))
      else let vs = entries_of (rr_checkpoints r) (cp_replay_id c);
               r' = r\<lparr>rr_checkpoints := AList.update (cp_replay_id c) vs (rr_checkpoints r)\<rparr>
           in if list_ex (\<lambda>x. cp_checkpoint_id x = cp_checkpoint_id c) vs then (r', Inr c)
              else if vs \<noteq> [] \<and> cp_sequence c \<noteq> cp_sequence (last vs) + 1
              then (r', Inl (Replay_Checkpoint ''checkpoint sequence must increase exactly once''))
              else (r\<lparr>rr_checkpoints := AList.update (cp_replay_id c) (vs @ [c]) (rr_checkpoints r)\<rparr>, Inr c))"

definition list_checkpoints :: "uuid \<Rightarrow> nat \<Rightarrow> nat \<Rightarrow> replay_repository \<Rightarrow> replay_checkpoint list" where
  "list_checkpoints i offset limit r = page offset limit (sort_key cp_sequence (entries_of (rr_checkpoints r) i))"

definition latest_checkpoint :: "uuid \<Rightarrow> replay_repository \<Rightarrow> replay_checkpoint option" where
  "latest_checkpoint i r = (let vs = list_checkpoints i 0 100 r in if vs = [] then None else Some (last vs))"

definition add_unless :: "('v \<Rightarrow> 'v \<Rightarrow> bool) \<Rightarrow> ('v \<Rightarrow> 'k) \<Rightarrow> 'v \<Rightarrow> ('k \<times> 'v list) list \<Rightarrow> ('k \<times> 'v list) list" where
  "add_unless same key v m =
     (let vs = entries_of m (key v) in AList.update (key v) (if list_ex (same v) vs then vs else vs @ [v]) m)"

definition save_trace :: "replay_trace list \<Rightarrow> replay_repository \<Rightarrow> replay_repository" where
  "save_trace ts r = r\<lparr>rr_trace := fold (add_unless (\<lambda>v x. tc_sequence x = tc_sequence v) tc_replay_id) ts (rr_trace r)\<rparr>"

definition list_trace :: "uuid \<Rightarrow> nat \<Rightarrow> nat \<Rightarrow> replay_repository \<Rightarrow> replay_trace list" where
  "list_trace i offset limit r = page offset limit (sort_key tc_sequence (entries_of (rr_trace r) i))"

definition save_outputs :: "replay_output list \<Rightarrow> replay_repository \<Rightarrow> replay_repository" where
  "save_outputs vs r = r\<lparr>rr_outputs := fold (add_unless (\<lambda>v x. ro_fingerprint x = ro_fingerprint v) ro_replay_id) vs (rr_outputs r)\<rparr>"

definition list_outputs :: "uuid \<Rightarrow> string option \<Rightarrow> nat \<Rightarrow> nat \<Rightarrow> replay_repository \<Rightarrow> replay_output list" where
  "list_outputs i kind offset limit r = page offset limit (sort_key (\<lambda>v. (ro_as_of v, ro_output_id v))
     (filter (\<lambda>v. kind = None \<or> kind = Some (ro_output_type v)) (entries_of (rr_outputs r) i)))"

definition acquire_lease :: "uuid \<Rightarrow> string \<Rightarrow> instant \<Rightarrow> int \<Rightarrow> int \<Rightarrow> replay_repository
    \<Rightarrow> replay_repository \<times> (replay_error + replay_session)" where
  "acquire_lease i worker now seconds expected r =
     (case map_of (rr_sessions r) i of
        None \<Rightarrow> (r, Inl (Replay_Persistence ''replay session does not exist''))
      | Some s \<Rightarrow>
          if rs_row_version s \<noteq> expected then (r, Inl (Replay_Concurrency ''replay session version conflict''))
          else if rs_worker_id s \<noteq> None \<and> rs_worker_id s \<noteq> Some worker
              \<and> (case rs_lease_expires_at s of None \<Rightarrow> False | Some t \<Rightarrow> now < t)
          then (r, Inl (Replay_Concurrency ''replay session has an active worker lease''))
          else (let s' = s\<lparr>rs_worker_id := Some worker, rs_heartbeat_at := Some now,
                      rs_lease_expires_at := Some (now + seconds_td seconds), rs_row_version := rs_row_version s + 1\<rparr>
                in (r\<lparr>rr_sessions := AList.update i s' (rr_sessions r)\<rparr>, Inr s')))"

definition renew_lease :: "uuid \<Rightarrow> string \<Rightarrow> instant \<Rightarrow> int \<Rightarrow> replay_repository
    \<Rightarrow> replay_repository \<times> (replay_error + replay_session)" where
  "renew_lease i worker now seconds r =
     (case get_session i r of
        None \<Rightarrow> (r, Inl (Replay_Concurrency ''replay worker lease is lost''))
      | Some s \<Rightarrow>
          if rs_worker_id s \<noteq> Some worker \<or> (case rs_lease_expires_at s of None \<Rightarrow> True | Some t \<Rightarrow> t \<le> now)
          then (r, Inl (Replay_Concurrency ''replay worker lease is lost''))
          else save_session (s\<lparr>rs_heartbeat_at := Some now, rs_lease_expires_at := Some (now + seconds_td seconds),
                 rs_row_version := rs_row_version s + 1\<rparr>) (rs_row_version s) r)"

definition release_lease :: "uuid \<Rightarrow> string \<Rightarrow> replay_repository \<Rightarrow> replay_repository \<times> (replay_error + replay_session)" where
  "release_lease i worker r =
     (case get_session i r of
        None \<Rightarrow> (r, Inl (Replay_Concurrency ''worker does not own replay lease''))
      | Some s \<Rightarrow>
          if rs_worker_id s \<noteq> Some worker then (r, Inl (Replay_Concurrency ''worker does not own replay lease''))
          else save_session (s\<lparr>rs_worker_id := None, rs_heartbeat_at := None, rs_lease_expires_at := None,
                 rs_row_version := rs_row_version s + 1\<rparr>) (rs_row_version s) r)"

definition terminal_statuses :: "replay_status list" where
  "terminal_statuses = [Rs_Completed, Rs_Cancelled, Rs_Failed]"

definition cleanup_sessions :: "instant \<Rightarrow> nat \<Rightarrow> replay_repository \<Rightarrow> replay_repository \<times> nat" where
  "cleanup_sessions before limit r =
     (let gone = take limit (map rs_replay_id (filter (\<lambda>s. rs_status s \<in> set terminal_statuses \<and> rs_created_at s < before)
            (sort_key rs_created_at (map snd (rr_sessions r)))))
      in (r\<lparr>rr_sessions := filter (\<lambda>(k, _). k \<notin> set gone) (rr_sessions r),
            rr_transitions := filter (\<lambda>(k, _). k \<notin> set gone) (rr_transitions r),
            rr_checkpoints := filter (\<lambda>(k, _). k \<notin> set gone) (rr_checkpoints r),
            rr_trace := filter (\<lambda>(k, _). k \<notin> set gone) (rr_trace r),
            rr_outputs := filter (\<lambda>(k, _). k \<notin> set gone) (rr_outputs r)\<rparr>, length gone))"

subsection \<open>Sources and datasets\<close>

record memory_source =
  sc_source_name :: string
  sc_source_version :: string
  sc_events :: "historical_event list"

definition new_memory_source :: "string \<Rightarrow> historical_event list \<Rightarrow> string \<Rightarrow> memory_source" where
  "new_memory_source name events version = \<lparr>sc_source_name = name, sc_source_version = version, sc_events = sort_key ordering_key events\<rparr>"

definition visible_events :: "replay_request \<Rightarrow> memory_source \<Rightarrow> historical_event list" where
  "visible_events q s = filter (\<lambda>e. he_dataset_id e = ds_dataset_id (rq_dataset q) \<and> he_dataset_version e = ds_dataset_version (rq_dataset q)
     \<and> rq_start_at q \<le> he_available_at e \<and> he_available_at e \<le> rq_end_at q
     \<and> opt_all (\<lambda>i. i \<in> set (rq_instruments q)) (he_instrument e) \<and> opt_all (\<lambda>t. t \<in> set (rq_timeframes q)) (he_timeframe e)) (sc_events s)"

record source_validation =
  sv_source_name :: string
  sv_source_version :: string
  sv_valid :: bool
  sv_event_estimate :: "int option"
  sv_warnings :: "string list"

definition validate_source :: "replay_request \<Rightarrow> memory_source \<Rightarrow> source_validation" where
  "validate_source q s = (let es = visible_events q s in
     \<lparr>sv_source_name = sc_source_name s, sv_source_version = sc_source_version s, sv_valid = (es \<noteq> []),
      sv_event_estimate = Some (int (length es)), sv_warnings = (if es = [] then [''source_range_empty''] else [])\<rparr>)"

definition stream_source :: "replay_request \<Rightarrow> string option \<Rightarrow> memory_source \<Rightarrow> historical_event list" where
  "stream_source q after_key s = filter (\<lambda>e. opt_all (\<lambda>k. k < ordering_key_text e) after_key) (visible_events q s)"

type_synonym source_registry = "(string \<times> memory_source) list"

definition register_source :: "source_registry \<Rightarrow> memory_source \<Rightarrow> replay_error + source_registry" where
  "register_source d s = dict_register (Replay_Configuration (''duplicate historical source: '' @ sc_source_name s)) d (sc_source_name s) s"

definition resolve_sources :: "source_registry \<Rightarrow> string list \<Rightarrow> replay_error + memory_source list" where
  "resolve_sources d names =
     (let unknown = sort (remdups (filter (\<lambda>n. map_of d n = None) names))
      in if unknown \<noteq> [] then Inl (Replay_Configuration (''unknown historical source: '' @ names_repr unknown))
         else Inr (map (\<lambda>n. the (map_of d n)) (sort names)))"

type_synonym dataset_registry = "((string \<times> string) \<times> dataset_reference) list"

definition register_dataset :: "dataset_registry \<Rightarrow> dataset_reference \<Rightarrow> replay_error + dataset_registry" where
  "register_dataset d x = dict_register (Replay_Configuration (''duplicate replay dataset: '' @ ds_dataset_id x @ ''@'' @ ds_dataset_version x))
     d (ds_dataset_id x, ds_dataset_version x) x"

definition resolve_dataset :: "dataset_registry \<Rightarrow> dataset_reference \<Rightarrow> replay_error + dataset_reference" where
  "resolve_dataset d q =
     (case map_of d (ds_dataset_id q, ds_dataset_version q) of
        None \<Rightarrow> Inl (Replay_Validation ''replay dataset is not registered'')
      | Some x \<Rightarrow> if ds_manifest_hash x \<noteq> ds_manifest_hash q
          then Inl (Replay_Validation ''replay dataset manifest does not match registered identity'') else Inr x)"

subsection \<open>The isolated bus and feature store\<close>

record generated_event =
  ge_event_id :: uuid
  ge_replay_id :: uuid
  ge_virtual_time :: instant
  ge_event_type :: string
  ge_source_engine :: string
  ge_source_engine_version :: string
  ge_input_fingerprint :: string
  ge_payload :: string
  ge_chain_depth :: int

definition generated_integrity :: "runtime \<Rightarrow> generated_event \<Rightarrow> bool" where
  "generated_integrity rt e \<longleftrightarrow> 0 \<le> ge_chain_depth e \<and> ge_chain_depth e \<le> 256
     \<and> ge_event_id e = stable_id rt replay_namespace [ge_replay_id e, isoformat (ge_virtual_time e), ge_event_type e,
         ge_source_engine e, ge_source_engine_version e, ge_input_fingerprint e, rt_sha256 rt (ge_payload e), str_int (ge_chain_depth e)]"

datatype replay_event = Historical historical_event | Generated generated_event

definition event_type_of :: "replay_event \<Rightarrow> string" where
  "event_type_of e = (case e of Historical h \<Rightarrow> he_event_type h | Generated g \<Rightarrow> ge_event_type g)"

text \<open>Handlers are names; what they do with an event is a parameter.\<close>

type_synonym replay_handler = string

record replay_bus =
  bs_replay_id :: uuid
  bs_dataset_id :: string
  bs_dataset_version :: string
  bs_handlers :: "(string \<times> replay_handler list) list"
  bs_history :: "replay_event list"
  bs_closed :: bool

definition new_replay_bus :: "uuid \<Rightarrow> string \<Rightarrow> string \<Rightarrow> replay_bus" where
  "new_replay_bus i dataset version = \<lparr>bs_replay_id = i, bs_dataset_id = dataset, bs_dataset_version = version,
     bs_handlers = [], bs_history = [], bs_closed = False\<rparr>"

definition bus_subscribe :: "string \<Rightarrow> replay_handler \<Rightarrow> replay_bus \<Rightarrow> replay_error + replay_bus" where
  "bus_subscribe kind h b =
     (if bs_closed b then Inl (Replay_Isolation ''replay event bus is closed'')
      else if h \<in> set (entries_of (bs_handlers b) kind) then Inl (Replay_Isolation ''duplicate replay event subscription'')
      else Inr (b\<lparr>bs_handlers := AList.update kind (entries_of (bs_handlers b) kind @ [h]) (bs_handlers b)\<rparr>))"

definition bus_unsubscribe :: "string \<Rightarrow> replay_handler \<Rightarrow> replay_bus \<Rightarrow> replay_bus" where
  "bus_unsubscribe kind h b =
     (if h \<in> set (entries_of (bs_handlers b) kind)
      then b\<lparr>bs_handlers := AList.update kind (remove1 h (entries_of (bs_handlers b) kind)) (bs_handlers b)\<rparr> else b)"

definition admit_event :: "instant \<Rightarrow> replay_event \<Rightarrow> replay_bus \<Rightarrow> replay_error + unit" where
  "admit_event now e b =
     (if bs_closed b then Inl (Replay_Isolation ''replay event bus is closed'')
      else case e of
        Historical h \<Rightarrow>
          if he_dataset_id h \<noteq> bs_dataset_id b \<or> he_dataset_version h \<noteq> bs_dataset_version b
          then Inl (Replay_Isolation ''event dataset does not match replay namespace'')
          else if now < he_available_at h then Inl (Replay_Point_In_Time ''future event publication is prohibited'') else Inr ()
      | Generated g \<Rightarrow>
          if ge_replay_id g \<noteq> bs_replay_id b then Inl (Replay_Isolation ''generated event crossed replay namespace'')
          else if now < ge_virtual_time g then Inl (Replay_Point_In_Time ''future event publication is prohibited'') else Inr ())"

text \<open>\<open>publish\<close>: an event that is refused leaves the bus as it was; one whose handler raises stays in the history.\<close>

definition publish_replay :: "(replay_handler \<Rightarrow> replay_event \<Rightarrow> replay_error + generated_event list) \<Rightarrow> instant \<Rightarrow> replay_event
    \<Rightarrow> replay_bus \<Rightarrow> replay_bus \<times> (replay_error + generated_event list)" where
  "publish_replay react now e b =
     (case admit_event now e b of
        Inl x \<Rightarrow> (b, Inl x)
      | Inr _ \<Rightarrow> (b\<lparr>bs_history := bs_history b @ [e]\<rparr>,
          bindE (mapE (\<lambda>h. react h e) (entries_of (bs_handlers b) (event_type_of e) @ entries_of (bs_handlers b) ''*''))
            (\<lambda>gs. Inr (concat gs))))"

definition close_replay_bus :: "replay_bus \<Rightarrow> replay_bus" where
  "close_replay_bus b = b\<lparr>bs_handlers := [], bs_closed := True\<rparr>"

record replay_feature =
  ft_replay_id :: uuid
  ft_instrument :: string
  ft_timeframe :: string
  ft_namespace :: string
  ft_as_of :: instant
  ft_engine_name :: string
  ft_engine_version :: string
  ft_values :: string

record replay_feature_store =
  fs_replay_id :: uuid
  fs_records :: "replay_feature list"
  fs_closed :: bool

definition new_feature_store_of :: "uuid \<Rightarrow> replay_feature_store" where
  "new_feature_store_of i = \<lparr>fs_replay_id = i, fs_records = [], fs_closed = False\<rparr>"

definition write_replay_feature :: "replay_feature \<Rightarrow> replay_feature_store \<Rightarrow> replay_error + replay_feature_store" where
  "write_replay_feature f s =
     (let prefix = ''replay:'' @ fs_replay_id s @ '':''
      in if fs_closed s then Inl (Replay_Isolation ''replay Feature Store is closed'')
         else if ft_replay_id f \<noteq> fs_replay_id s then Inl (Replay_Isolation ''feature crossed replay namespace'')
         else if take (length prefix) (ft_namespace f) \<noteq> prefix then Inl (Replay_Isolation ''live Feature Store namespace is prohibited'')
         else Inr (s\<lparr>fs_records := fs_records s @ [f]\<rparr>))"

definition replay_feature_snapshot :: "string \<Rightarrow> string \<Rightarrow> instant \<Rightarrow> replay_feature_store \<Rightarrow> (string \<times> replay_feature) list" where
  "replay_feature_snapshot instrument tf at_time s =
     fold (\<lambda>f. AList.update (ft_namespace f) f)
       (sort_key (\<lambda>f. (ft_as_of f, ft_namespace f, ft_engine_name f))
         (filter (\<lambda>f. ft_instrument f = instrument \<and> ft_timeframe f = tf \<and> ft_as_of f \<le> at_time) (fs_records s))) []"

definition close_feature_store :: "replay_feature_store \<Rightarrow> replay_feature_store" where
  "close_feature_store s = s\<lparr>fs_closed := True\<rparr>"

end
