(* ===== verification/Replay_Coordinator.thy ===== *)
theory Replay_Coordinator
  imports Replay_Session
begin

text \<open>
  The replay coordinator and the service in front of it (\<open>engines/replay_engine/coordinator.py\<close>,
  \<open>service.py\<close>) over the in-memory repository.

  The environment holds what the code takes from outside: the digests, the JSON dumps of pydantic, and
  the processors, each a function of the event and the virtual time. What other tasks do to the
  repository while the worker waits for a group is the argument \<open>meanwhile\<close> of a run; pauses of the speed
  modes themselves have no effect on the state. Processors do not touch the bus or the feature store of
  their context.
\<close>

subsection \<open>The environment\<close>

record processing_result =
  pr_generated_events :: "generated_event list"
  pr_outputs :: "replay_output list"

record replay_env =
  rv_runtime :: runtime
  rv_request_json :: "replay_request \<Rightarrow> string \<Rightarrow> string"
  rv_checkpoint_json :: "replay_checkpoint \<Rightarrow> string"
  rv_configuration_json :: string
  rv_processors :: "(string \<times> (replay_event \<Rightarrow> instant \<Rightarrow> replay_error + processing_result)) list"
  rv_datasets :: dataset_registry
  rv_sources :: source_registry
  rv_engines :: engine_registry

definition replay_id_of :: "replay_env \<Rightarrow> string list \<Rightarrow> uuid" where
  "replay_id_of env parts = stable_id (rv_runtime env) replay_namespace parts"

definition sha :: "replay_env \<Rightarrow> string \<Rightarrow> string" where
  "sha env s = rt_sha256 (rv_runtime env) s"

text \<open>\<open>canonical_json\<close> of a dict of strings.\<close>

definition json_object :: "(string \<times> string) list \<Rightarrow> string" where
  "json_object kvs = ''{'' @ join '','' (map (\<lambda>(k, v). json_string k @ '':'' @ json_string v) (sort_key fst kvs)) @ ''}''"

subsection \<open>Transitions\<close>

text \<open>The updates of \<open>transition\<close> besides the status and the version.\<close>

definition stamp_status :: "replay_status \<Rightarrow> instant \<Rightarrow> replay_session \<Rightarrow> replay_session" where
  "stamp_status target t s =
     (if target = Rs_Running \<and> rs_started_at s = None then s\<lparr>rs_started_at := Some t\<rparr>
      else if target = Rs_Paused then s\<lparr>rs_paused_at := Some t\<rparr>
      else if target = Rs_Completed
      then s\<lparr>rs_completed_at := Some t, rs_progress_percent := Some (fint 100), rs_virtual_cursor_at := rq_end_at (rs_request s)\<rparr>
      else if target = Rs_Failed then s\<lparr>rs_failed_at := Some t\<rparr>
      else if target = Rs_Cancelled then s\<lparr>rs_cancelled_at := Some t\<rparr>
      else s)"

definition moved :: "replay_status \<Rightarrow> instant \<Rightarrow> replay_session \<Rightarrow> replay_session" where
  "moved target t s = (stamp_status target t s)\<lparr>rs_status := target, rs_row_version := rs_row_version s + 1\<rparr>"

definition transition_record :: "replay_env \<Rightarrow> replay_session \<Rightarrow> replay_status \<Rightarrow> string \<Rightarrow> instant \<Rightarrow> replay_transition" where
  "transition_record env s target reason t =
     \<lparr>tr_transition_id = replay_id_of env [rs_replay_id s, str_int (rs_row_version s), replay_status_value (rs_status s),
        replay_status_value target, reason],
      tr_replay_id = rs_replay_id s, tr_from_status = rs_status s, tr_to_status = target, tr_reason_code = reason, tr_occurred_at = t\<rparr>"

definition transition_session :: "replay_env \<Rightarrow> replay_session \<Rightarrow> replay_status \<Rightarrow> string \<Rightarrow> instant \<Rightarrow> replay_repository
    \<Rightarrow> replay_repository \<times> (replay_error + replay_session)" where
  "transition_session env s target reason t r =
     (case validate_transition (rs_status s) target of
        Inl e \<Rightarrow> (r, Inl e)
      | Inr _ \<Rightarrow>
          (case save_session (moved target t s) (rs_row_version s) r of
             (r', Inl e) \<Rightarrow> (r', Inl e)
           | (r', Inr s') \<Rightarrow> (save_transition (transition_record env s target reason t) r', Inr s')))"

subsection \<open>Checkpoints\<close>

definition checkpoint_of :: "replay_env \<Rightarrow> replay_session \<Rightarrow> int \<Rightarrow> string \<Rightarrow> replay_checkpoint" where
  "checkpoint_of env s n reason =
     (let c = \<lparr>cp_checkpoint_id = replay_id_of env [rs_replay_id s, str_int n, isoformat (rs_virtual_cursor_at s),
                 or_empty (rs_last_ordering_key s), rs_semantic_output_hash s],
               cp_replay_id = rs_replay_id s, cp_sequence = n, cp_cursor_at = rs_virtual_cursor_at s,
               cp_last_ordering_key = rs_last_ordering_key s, cp_processed_events = rs_processed_events s,
               cp_generated_events = rs_generated_events s,
               cp_source_cursors = map (\<lambda>name. (name, or_empty (rs_last_ordering_key s))) (rq_source_names (rs_request s)),
               cp_semantic_output_hash = rs_semantic_output_hash s, cp_state_hash = replicate 64 (CHR ''0''),
               cp_created_at = rs_virtual_cursor_at s, cp_reason = reason\<rparr>
      in c\<lparr>cp_state_hash := calculated_state_hash (rv_runtime env) (rv_checkpoint_json env) c\<rparr>)"

definition next_sequence :: "uuid \<Rightarrow> replay_repository \<Rightarrow> int" where
  "next_sequence i r = (case latest_checkpoint i r of None \<Rightarrow> 1 | Some c \<Rightarrow> cp_sequence c + 1)"

definition take_checkpoint :: "replay_env \<Rightarrow> replay_session \<Rightarrow> string \<Rightarrow> replay_repository
    \<Rightarrow> replay_repository \<times> (replay_error + replay_session)" where
  "take_checkpoint env s reason r =
     (let c = checkpoint_of env s (next_sequence (rs_replay_id s) r) reason
      in case save_checkpoint (rv_runtime env) (rv_checkpoint_json env) c r of
           (r', Inl e) \<Rightarrow> (r', Inl e)
         | (r', Inr _) \<Rightarrow> save_session (s\<lparr>rs_latest_checkpoint_id := Some (cp_checkpoint_id c), rs_row_version := rs_row_version s + 1\<rparr>)
             (rs_row_version s) r')"

definition checkpoint_due :: "replay_config \<Rightarrow> replay_session \<Rightarrow> bool" where
  "checkpoint_due cfg s \<longleftrightarrow> rg_checkpoint_enabled cfg
     \<and> (rq_after_timestamp_group (rs_request s) \<or> rq_every_events (rs_request s) \<le> rs_processed_events s - 0)"

subsection \<open>Creating a session\<close>

definition validate_request :: "replay_config \<Rightarrow> replay_request \<Rightarrow> replay_error + unit" where
  "validate_request cfg q =
     (if rg_max_instruments cfg < int (length (rq_instruments q)) \<or> rg_max_timeframes cfg < int (length (rq_timeframes q))
      then Inl (Replay_Validation ''replay scope exceeds configured series limits'')
      else if rg_max_duration_days cfg < (rq_end_at q - rq_start_at q) div seconds_td 86400
      then Inl (Replay_Validation ''replay duration exceeds configured limit'')
      else if \<not> set (rq_instruments q) \<subseteq> set (rg_approved_instruments cfg) \<or> \<not> set (rq_timeframes q) \<subseteq> set (rg_approved_timeframes cfg)
      then Inl (Replay_Validation ''replay series is not approved'')
      else if \<not> set (rq_source_names q) \<subseteq> set (rg_approved_sources cfg)
      then Inl (Replay_Validation ''historical source is not approved'')
      else if (case rq_speed_multiplier q of None \<Rightarrow> False | Some x \<Rightarrow> rg_max_multiplier cfg < x)
      then Inl (Replay_Validation ''replay speed exceeds configured limit'')
      else if rg_max_metadata_bytes cfg < int (length (rq_metadata_text q))
      then Inl (Replay_Validation ''replay metadata exceeds configured limit'')
      else Inr ())"

definition engine_manifest :: "engine_registration list \<Rightarrow> string" where
  "engine_manifest graph = json_array (map (\<lambda>r. json_object [(''name'', eg_engine_name r), (''version'', eg_engine_version r),
     (''compatibility'', eg_compatibility_version r)]) graph)"

definition total_estimate :: "source_validation list \<Rightarrow> int option" where
  "total_estimate vs = (if list_all (\<lambda>v. sv_event_estimate v \<noteq> None) vs
     then Some (sum_list (map (\<lambda>v. the (sv_event_estimate v)) vs)) else None)"

definition new_session :: "replay_env \<Rightarrow> replay_config \<Rightarrow> replay_request \<Rightarrow> engine_registration list \<Rightarrow> source_validation list
    \<Rightarrow> instant \<Rightarrow> replay_session" where
  "new_session env cfg q graph vs now =
     \<lparr>rs_replay_id = rq_replay_id q, rs_request = q, rs_request_fingerprint = sha env (rv_request_json env q (rg_ordering_version cfg)),
      rs_status = Rs_Created, rs_created_at = now, rs_started_at = None, rs_paused_at = None, rs_completed_at = None,
      rs_failed_at = None, rs_cancelled_at = None, rs_virtual_cursor_at = rq_start_at q,
      rs_engine_graph_version = rg_graph_version cfg, rs_ordering_version = rg_ordering_version cfg,
      rs_replay_engine_version = rg_engine_version cfg, rs_configuration_hash = sha env (rv_configuration_json env),
      rs_policy_manifest_hash = sha env (json_object (rq_policy_versions q)), rs_engine_manifest_hash = sha env (engine_manifest graph),
      rs_total_events_estimate = total_estimate vs, rs_processed_events = 0, rs_generated_events = 0, rs_failed_events = 0,
      rs_progress_percent = Some 0, rs_latest_checkpoint_id = None, rs_last_ordering_key = None,
      rs_semantic_output_hash = replicate 64 (CHR ''0''), rs_worker_id = None, rs_lease_expires_at = None,
      rs_heartbeat_at = None, rs_failure = None, rs_row_version = 1\<rparr>"

text \<open>The checks before a session is written: dataset, engines, sources.\<close>

definition plan_session :: "replay_env \<Rightarrow> replay_config \<Rightarrow> replay_request \<Rightarrow> instant \<Rightarrow> replay_error + replay_session" where
  "plan_session env cfg q now =
     bindE (validate_request cfg q) (\<lambda>_.
     bindE (resolve_dataset (rv_datasets env) (rq_dataset q)) (\<lambda>ds.
     if ds_mutable ds \<and> rg_fail_on_mutable_dataset cfg then Inl (Replay_Validation ''mutable replay dataset is prohibited'')
     else bindE (resolve_engines (rv_engines env) (rq_engine_selection q) (rq_engine_versions q)) (\<lambda>graph.
     bindE (resolve_sources (rv_sources env) (rq_source_names q)) (\<lambda>sources.
       let missing = sort (remdups (filter (\<lambda>n. n \<notin> set (rq_source_names q)) (concat (map eg_required_sources graph))));
           vs = map (validate_source q) sources;
           invalid = map sv_source_name (filter (\<lambda>v. \<not> sv_valid v) vs)
       in if missing \<noteq> [] then Inl (Replay_Configuration (''missing historical sources: '' @ names_repr missing))
          else if invalid \<noteq> [] then Inl (Replay_Validation (''historical source validation failed: '' @ names_repr invalid))
          else Inr (new_session env cfg q graph vs now)))))"

definition create_replay :: "replay_env \<Rightarrow> replay_config \<Rightarrow> replay_request \<Rightarrow> instant \<Rightarrow> replay_repository
    \<Rightarrow> replay_repository \<times> (replay_error + replay_session)" where
  "create_replay env cfg q now r =
     (case plan_session env cfg q now of
        Inl e \<Rightarrow> (r, Inl e)
      | Inr s \<Rightarrow>
          (case create_session s r of
             (r1, Inl e) \<Rightarrow> (r1, Inl e)
           | (r1, Inr _) \<Rightarrow>
               (case transition_session env s Rs_Validating ''request_received'' now r1 of
                  (r2, Inl e) \<Rightarrow> (r2, Inl e)
                | (r2, Inr s2) \<Rightarrow> transition_session env s2 Rs_Ready ''validation_passed'' now r2)))"


subsection \<open>Processing a group\<close>

text \<open>The processors of the selected engines, in the order of the selection; an engine without one is skipped.\<close>

fun call_processors :: "replay_env \<Rightarrow> string list \<Rightarrow> replay_event \<Rightarrow> instant
    \<Rightarrow> replay_error + generated_event list \<times> replay_output list" where
  "call_processors env [] e now = Inr ([], [])"
| "call_processors env (n # ns) e now =
     (case map_of (rv_processors env) n of
        None \<Rightarrow> call_processors env ns e now
      | Some p \<Rightarrow> bindE (p e now) (\<lambda>x. bindE (call_processors env ns e now) (\<lambda>(gs, os).
          Inr (pr_generated_events x @ gs, pr_outputs x @ os))))"

text \<open>The bus of a run has no subscribers.\<close>

abbreviation publish_isolated :: "instant \<Rightarrow> replay_event \<Rightarrow> replay_bus \<Rightarrow> replay_bus \<times> (replay_error + generated_event list)" where
  "publish_isolated \<equiv> publish_replay (\<lambda>_ _. Inr [])"

function drain_generated :: "replay_env \<Rightarrow> replay_config \<Rightarrow> string list \<Rightarrow> instant \<Rightarrow> generated_event list \<Rightarrow> uuid list \<Rightarrow> int
    \<Rightarrow> replay_bus \<Rightarrow> replay_output list \<Rightarrow> replay_bus \<times> (replay_error + int \<times> replay_output list)" where
  "drain_generated env cfg engines now [] seen emitted b outputs = (b, Inr (emitted, outputs))"
| "drain_generated env cfg engines now (e # queue) seen emitted b outputs =
     (if ge_event_id e \<in> set seen then (b, Inl (Replay_Validation ''generated event cycle detected''))
      else if rg_max_chain_depth cfg < ge_chain_depth e \<or> rg_generated_event_limit cfg \<le> emitted
      then (b, Inl (Replay_Validation ''generated event chain exceeds configured bound''))
      else case publish_isolated now (Generated e) b of
        (b', Inl x) \<Rightarrow> (b', Inl x)
      | (b', Inr gs) \<Rightarrow>
          (case call_processors env engines (Generated e) now of
             Inl x \<Rightarrow> (b', Inl x)
           | Inr (gs', os) \<Rightarrow> drain_generated env cfg engines now (queue @ gs @ gs') (ge_event_id e # seen) (emitted + 1) b' (outputs @ os)))"
  by pat_completeness auto
termination
  by (relation "measure (\<lambda>(_, cfg, _, _, _, _, emitted, _). nat (rg_generated_event_limit cfg - emitted))") auto

record group_progress =
  gp_bus :: replay_bus
  gp_outputs :: "replay_output list"
  gp_generated :: int
  gp_hash :: string
  gp_last_key :: "string option"
  gp_sequence :: int
  gp_trace :: "replay_trace list"

definition hash_chain :: "replay_env \<Rightarrow> string \<Rightarrow> string \<Rightarrow> string" where
  "hash_chain env previous token = sha env (previous @ ''|'' @ token)"

definition process_event :: "replay_env \<Rightarrow> replay_config \<Rightarrow> replay_session \<Rightarrow> instant \<Rightarrow> historical_event \<Rightarrow> group_progress
    \<Rightarrow> group_progress \<times> (replay_error + unit)" where
  "process_event env cfg s now h g =
     (if now < he_available_at h then (g, Inl (Replay_Point_In_Time ''future historical event reached processor''))
      else case publish_isolated now (Historical h) (gp_bus g) of
        (b, Inl x) \<Rightarrow> (g\<lparr>gp_bus := b\<rparr>, Inl x)
      | (b, Inr gs) \<Rightarrow>
          (case call_processors env (rq_engine_selection (rs_request s)) (Historical h) now of
             Inl x \<Rightarrow> (g\<lparr>gp_bus := b\<rparr>, Inl x)
           | Inr (gs', os) \<Rightarrow>
               (case drain_generated env cfg (rq_engine_selection (rs_request s)) now (gs @ gs') [] 0 b (gp_outputs g @ os) of
                  (b', Inl x) \<Rightarrow> (g\<lparr>gp_bus := b'\<rparr>, Inl x)
                | (b', Inr (emitted, outputs)) \<Rightarrow>
                    (g\<lparr>gp_bus := b', gp_outputs := outputs, gp_generated := gp_generated g + emitted,
                       gp_sequence := gp_sequence g + 1, gp_last_key := Some (ordering_key_text h),
                       gp_hash := hash_chain env (gp_hash g) (''source:'' @ he_replay_event_id h),
                       gp_trace := gp_trace g @ [\<lparr>tc_replay_id = rs_replay_id s, tc_sequence = gp_sequence g + 1, tc_virtual_time = now,
                         tc_event_id = he_replay_event_id h, tc_event_type = he_event_type h, tc_source = he_source_name h,
                         tc_processing_status = ''processed'', tc_generated_event_count = emitted\<rparr>]\<rparr>, Inr ()))))"

fun process_events :: "replay_env \<Rightarrow> replay_config \<Rightarrow> replay_session \<Rightarrow> instant \<Rightarrow> historical_event list \<Rightarrow> group_progress
    \<Rightarrow> group_progress \<times> (replay_error + unit)" where
  "process_events env cfg s now [] g = (g, Inr ())"
| "process_events env cfg s now (h # hs) g =
     (case process_event env cfg s now h g of
        (g', Inl x) \<Rightarrow> (g', Inl x)
      | (g', Inr _) \<Rightarrow> process_events env cfg s now hs g')"

definition progress_percent :: "instant \<Rightarrow> instant \<Rightarrow> instant \<Rightarrow> f64" where
  "progress_percent start stop cursor =
     round_nd 4 (max 0 (min 1 (total_seconds (cursor - start) / total_seconds (stop - start))) * fint 100)"

definition advanced :: "replay_env \<Rightarrow> replay_session \<Rightarrow> historical_event list \<Rightarrow> instant \<Rightarrow> group_progress \<Rightarrow> replay_session" where
  "advanced env s evs now g =
     s\<lparr>rs_virtual_cursor_at := now, rs_last_ordering_key := gp_last_key g,
       rs_processed_events := rs_processed_events s + int (length evs),
       rs_generated_events := rs_generated_events s + gp_generated g,
       rs_progress_percent := Some (progress_percent (rq_start_at (rs_request s)) (rq_end_at (rs_request s)) now),
       rs_semantic_output_hash := fold (\<lambda>x h. hash_chain env h (''output:'' @ ro_output_type x @ '':'' @ ro_fingerprint x)) (gp_outputs g) (gp_hash g),
       rs_row_version := rs_row_version s + 1\<rparr>"

definition process_group :: "replay_env \<Rightarrow> replay_config \<Rightarrow> replay_session \<Rightarrow> historical_event list \<Rightarrow> instant \<Rightarrow> replay_bus
    \<Rightarrow> replay_repository \<Rightarrow> replay_bus \<times> replay_repository \<times> (replay_error + replay_session)" where
  "process_group env cfg s evs now b r =
     (case process_events env cfg s now evs \<lparr>gp_bus = b, gp_outputs = [], gp_generated = 0, gp_hash = rs_semantic_output_hash s,
          gp_last_key = rs_last_ordering_key s, gp_sequence = rs_processed_events s, gp_trace = []\<rparr> of
        (g, Inl x) \<Rightarrow> (gp_bus g, r, Inl x)
      | (g, Inr _) \<Rightarrow>
          (case save_session (advanced env s evs now g) (rs_row_version s) r of
             (r', Inl x) \<Rightarrow> (gp_bus g, r', Inl x)
           | (r', Inr s') \<Rightarrow> (gp_bus g,
               save_outputs (gp_outputs g)
                 (if rg_trace_enabled cfg then save_trace (take (nat (rg_max_trace_records cfg)) (gp_trace g)) r' else r'), Inr s')))"

subsection \<open>A run\<close>

record run_state =
  ru_repository :: replay_repository
  ru_clock :: replay_clock
  ru_bus :: replay_bus

definition require_session :: "uuid \<Rightarrow> replay_repository \<Rightarrow> replay_error + replay_session" where
  "require_session i r = (case get_session i r of None \<Rightarrow> Inl (Replay_Validation ''replay session does not exist'') | Some s \<Rightarrow> Inr s)"

text \<open>A checkpoint followed by a transition at the time of the clock.\<close>

definition settle :: "replay_env \<Rightarrow> replay_session \<Rightarrow> string \<Rightarrow> replay_status \<Rightarrow> string \<Rightarrow> run_state
    \<Rightarrow> run_state \<times> (replay_error + replay_session)" where
  "settle env s checkpoint_reason target reason u =
     (case take_checkpoint env s checkpoint_reason (ru_repository u) of
        (r, Inl x) \<Rightarrow> (u\<lparr>ru_repository := r\<rparr>, Inl x)
      | (r, Inr s') \<Rightarrow>
          (let (r', y) = transition_session env s' target reason (rk_now (ru_clock u)) r in (u\<lparr>ru_repository := r'\<rparr>, y)))"

text \<open>After a processed group: the policy checkpoint and the end of a step.\<close>

definition after_group :: "replay_env \<Rightarrow> replay_config \<Rightarrow> bool \<Rightarrow> replay_session \<Rightarrow> run_state
    \<Rightarrow> run_state \<times> (replay_error + replay_session option)" where
  "after_group env cfg step_done s u =
     (case (if checkpoint_due cfg s then take_checkpoint env s ''policy'' (ru_repository u) else (ru_repository u, Inr s)) of
        (r, Inl x) \<Rightarrow> (u\<lparr>ru_repository := r\<rparr>, Inl x)
      | (r, Inr s1) \<Rightarrow>
          if step_done then
            (case transition_session env s1 Rs_Pausing ''step_units_complete'' (rk_now (ru_clock u)) r of
               (r', Inl x) \<Rightarrow> (u\<lparr>ru_repository := r'\<rparr>, Inl x)
             | (r', Inr s2) \<Rightarrow> (let (u', y) = settle env s2 ''step'' Rs_Paused ''step_paused'' (u\<lparr>ru_repository := r'\<rparr>)
                 in (u', bindE y (\<lambda>s. Inr (Some s)))))
          else (u\<lparr>ru_repository := r\<rparr>, Inr None))"

text \<open>One group. While the worker waits for it, other tasks may change the repository.\<close>

definition run_group :: "replay_env \<Rightarrow> replay_config \<Rightarrow> uuid \<Rightarrow> string \<Rightarrow> (replay_repository \<Rightarrow> replay_repository) \<Rightarrow> bool
    \<Rightarrow> historical_event list \<Rightarrow> run_state \<Rightarrow> run_state \<times> (replay_error + replay_session option)" where
  "run_group env cfg i worker others step_done evs u =
     (case require_session i (ru_repository u) of
        Inl x \<Rightarrow> (u, Inl x)
      | Inr s \<Rightarrow>
          if rs_worker_id s \<noteq> Some worker then (u, Inl (Replay_Validation ''replay worker lease was lost''))
          else if rs_status s = Rs_Cancelling then
            (let (u', y) = settle env s ''cancel'' Rs_Cancelled ''cancelled_at_safe_boundary'' u in (u', bindE y (\<lambda>s. Inr (Some s))))
          else if rs_status s = Rs_Pausing then
            (let (u', y) = settle env s ''pause'' Rs_Paused ''paused_at_safe_boundary'' u in (u', bindE y (\<lambda>s. Inr (Some s))))
          else
            (let u1 = u\<lparr>ru_repository := others (ru_repository u)\<rparr>
             in case advance_to (he_available_at (hd evs)) (ru_clock u1) of
                  Inl x \<Rightarrow> (u1, Inl x)
                | Inr k \<Rightarrow>
                    (case process_group env cfg s evs (rk_now k) (ru_bus u1) (ru_repository u1) of
                       (b, r, Inl x) \<Rightarrow> (\<lparr>ru_repository = r, ru_clock = k, ru_bus = b\<rparr>, Inl x)
                     | (b, r, Inr s') \<Rightarrow> after_group env cfg step_done s' \<lparr>ru_repository = r, ru_clock = k, ru_bus = b\<rparr>)))"

fun run_groups :: "replay_env \<Rightarrow> replay_config \<Rightarrow> uuid \<Rightarrow> string \<Rightarrow> (nat \<Rightarrow> replay_repository \<Rightarrow> replay_repository) \<Rightarrow> nat option
    \<Rightarrow> nat \<Rightarrow> historical_event list list \<Rightarrow> run_state \<Rightarrow> run_state \<times> (replay_error + replay_session option)" where
  "run_groups env cfg i worker meanwhile max_groups n [] u = (u, Inr None)"
| "run_groups env cfg i worker meanwhile max_groups n (g # gs) u =
     (case run_group env cfg i worker (meanwhile n) (case max_groups of None \<Rightarrow> False | Some m \<Rightarrow> m \<le> Suc n) g u of
        (u', Inl x) \<Rightarrow> (u', Inl x)
      | (u', Inr (Some s)) \<Rightarrow> (u', Inr (Some s))
      | (u', Inr None) \<Rightarrow> run_groups env cfg i worker meanwhile max_groups (Suc n) gs u')"

text \<open>The body of the \<open>try\<close>: the groups, the error of the sources, and the end of the replay.\<close>

definition run_body :: "replay_env \<Rightarrow> replay_config \<Rightarrow> uuid \<Rightarrow> string \<Rightarrow> (nat \<Rightarrow> replay_repository \<Rightarrow> replay_repository) \<Rightarrow> nat option
    \<Rightarrow> historical_event list generated \<Rightarrow> run_state \<Rightarrow> run_state \<times> (replay_error + replay_session)" where
  "run_body env cfg i worker meanwhile max_groups groups u =
     (case run_groups env cfg i worker meanwhile max_groups 0 (fst groups) u of
        (u', Inl x) \<Rightarrow> (u', Inl x)
      | (u', Inr (Some s)) \<Rightarrow> (u', Inr s)
      | (u', Inr None) \<Rightarrow>
          (case snd groups of
             Some x \<Rightarrow> (u', Inl x)
           | None \<Rightarrow>
               (case require_session i (ru_repository u') of
                  Inl x \<Rightarrow> (u', Inl x)
                | Inr s \<Rightarrow> settle env s ''completed'' Rs_Completed ''source_exhausted'' u')))"

definition failure_category_of :: "replay_error \<Rightarrow> replay_failure_category" where
  "failure_category_of x = (case x of Replay_Point_In_Time _ \<Rightarrow> Point_In_Time_Violation | Replay_Configuration _ \<Rightarrow> Engine_Incompatible
     | Replay_Checkpoint _ \<Rightarrow> Checkpoint_Failure | _ \<Rightarrow> Engine_Failure)"

text \<open>The \<open>except\<close> block.\<close>

definition fail_run :: "replay_env \<Rightarrow> uuid \<Rightarrow> replay_error \<Rightarrow> run_state \<Rightarrow> run_state \<times> (replay_error + replay_session)" where
  "fail_run env i x u =
     (case require_session i (ru_repository u) of
        Inl y \<Rightarrow> (u, Inl y)
      | Inr s \<Rightarrow>
          (let f = \<lparr>rf_category = failure_category_of x, rf_reason_code = error_class x, rf_cursor_at = rk_now (ru_clock u),
                 rf_retryable = False, rf_detail = ''Replay processing failed safely''\<rparr>
           in case save_session (s\<lparr>rs_failure := Some f, rs_failed_events := rs_failed_events s + 1, rs_row_version := rs_row_version s + 1\<rparr>)
                    (rs_row_version s) (ru_repository u) of
                (r, Inl y) \<Rightarrow> (u\<lparr>ru_repository := r\<rparr>, Inl y)
              | (r, Inr s') \<Rightarrow>
                  if rs_status s' \<in> {Rs_Running, Rs_Pausing, Rs_Cancelling, Rs_Resuming, Rs_Recovering}
                  then (let (r', y) = transition_session env s' Rs_Failed ''processing_failed'' (rk_now (ru_clock u)) r
                        in (u\<lparr>ru_repository := r'\<rparr>, y))
                  else (u\<lparr>ru_repository := r\<rparr>, Inr s')))"

text \<open>The \<open>finally\<close> block: a lease that is still the worker's is given back, and an error of that replaces the result.\<close>

definition finish_run :: "uuid \<Rightarrow> string \<Rightarrow> run_state \<Rightarrow> (replay_error + replay_session) \<Rightarrow> replay_repository \<times> (replay_error + replay_session)" where
  "finish_run i worker u y =
     (case get_session i (ru_repository u) of
        None \<Rightarrow> (ru_repository u, y)
      | Some s \<Rightarrow>
          if rs_worker_id s = Some worker
          then (case release_lease i worker (ru_repository u) of (r, Inl x) \<Rightarrow> (r, Inl x) | (r, Inr _) \<Rightarrow> (r, y))
          else (ru_repository u, y))"

definition replay_groups :: "replay_env \<Rightarrow> replay_config \<Rightarrow> replay_session \<Rightarrow> memory_source list \<Rightarrow> historical_event list generated" where
  "replay_groups env cfg s sources = timestamp_groups (nat (rg_timestamp_group_limit cfg))
     (merge_event_sources (map (stream_source (rs_request s) (rs_last_ordering_key s)) sources))"

definition run_replay :: "replay_env \<Rightarrow> replay_config \<Rightarrow> uuid \<Rightarrow> string \<Rightarrow> instant \<Rightarrow> (nat \<Rightarrow> replay_repository \<Rightarrow> replay_repository)
    \<Rightarrow> nat option \<Rightarrow> replay_repository \<Rightarrow> replay_repository \<times> (replay_error + replay_session)" where
  "run_replay env cfg i worker now meanwhile max_groups r =
     (case require_session i r of
        Inl x \<Rightarrow> (r, Inl x)
      | Inr s0 \<Rightarrow>
          if rs_status s0 \<noteq> Rs_Running then (r, Inl (Replay_Validation ''replay must be running before worker execution''))
          else (case acquire_lease i worker now (rg_lease_seconds cfg) (rs_row_version s0) r of
              (r1, Inl x) \<Rightarrow> (r1, Inl x)
            | (r1, Inr s) \<Rightarrow>
                (case bindE (new_clock (rq_start_at (rs_request s)) (rq_end_at (rs_request s))) (restore_clock (rs_virtual_cursor_at s)) of
                   Inl x \<Rightarrow> (r1, Inl x)
                 | Inr k \<Rightarrow>
                     (case resolve_sources (rv_sources env) (rq_source_names (rs_request s)) of
                        Inl x \<Rightarrow> (r1, Inl x)
                      | Inr sources \<Rightarrow>
                          (let ds = rq_dataset (rs_request s);
                               u = \<lparr>ru_repository = r1, ru_clock = k,
                                    ru_bus = new_replay_bus (rs_replay_id s) (ds_dataset_id ds) (ds_dataset_version ds)\<rparr>
                           in case run_body env cfg i worker meanwhile max_groups (replay_groups env cfg s sources) u of
                                (u', Inr s') \<Rightarrow> finish_run i worker u' (Inr s')
                              | (u', Inl x) \<Rightarrow> (let (u2, y) = fail_run env i x u' in finish_run i worker u2 y))))))"

end
