(* ===== verification/Replay_Service.thy ===== *)
theory Replay_Service
  imports Replay_Coordinator
begin

text \<open>
  The service in front of the replay coordinator (\<open>engines/replay_engine/service.py\<close>): its commands, its
  metrics and the lifecycle events it publishes, and one round of the worker (\<open>worker.py\<close>).

  Published lifecycle events are a log; whether the bus takes one is the argument \<open>accepts\<close>.
\<close>

subsection \<open>State\<close>

record replay_metrics =
  rm_created :: int
  rm_started :: int
  rm_completed :: int
  rm_failed :: int
  rm_cancelled :: int
  rm_paused :: int
  rm_resumed :: int
  rm_events_processed :: int
  rm_generated_events :: int
  rm_publish_failures :: int
  rm_comparisons :: int
  rm_hash_mismatches :: int
  rm_failure_categories :: "(replay_failure_category \<times> int) list"

datatype lifecycle = Replay_Created | Replay_Started | Replay_Paused | Replay_Resumed | Replay_Cancelled | Replay_Completed | Replay_Failed

record replay_service =
  rw_repository :: replay_repository
  rw_metrics :: replay_metrics
  rw_events :: "(lifecycle \<times> replay_session) list"
  rw_initialized :: bool
  rw_closed :: bool

definition new_replay_service :: "replay_repository \<Rightarrow> replay_service" where
  "new_replay_service r = \<lparr>rw_repository = r, rw_metrics = \<lparr>rm_created = 0, rm_started = 0, rm_completed = 0, rm_failed = 0,
     rm_cancelled = 0, rm_paused = 0, rm_resumed = 0, rm_events_processed = 0, rm_generated_events = 0, rm_publish_failures = 0,
     rm_comparisons = 0, rm_hash_mismatches = 0, rm_failure_categories = []\<rparr>, rw_events = [], rw_initialized = False, rw_closed = False\<rparr>"

definition start_replays :: "replay_service \<Rightarrow> replay_service" where
  "start_replays w = w\<lparr>rw_initialized := True, rw_closed := False\<rparr>"

definition stop_replays :: "replay_service \<Rightarrow> replay_service" where
  "stop_replays w = w\<lparr>rw_closed := True\<rparr>"

definition measure_with :: "(replay_metrics \<Rightarrow> replay_metrics) \<Rightarrow> replay_service \<Rightarrow> replay_service" where
  "measure_with f w = w\<lparr>rw_metrics := f (rw_metrics w)\<rparr>"

definition publish_lifecycle :: "replay_config \<Rightarrow> (lifecycle \<Rightarrow> replay_session \<Rightarrow> bool) \<Rightarrow> lifecycle \<Rightarrow> replay_session \<Rightarrow> replay_service \<Rightarrow> replay_service" where
  "publish_lifecycle cfg accepts k s w =
     (if \<not> rg_publish_lifecycle_events cfg then w
      else if accepts k s then w\<lparr>rw_events := rw_events w @ [(k, s)]\<rparr>
      else measure_with (\<lambda>m. m\<lparr>rm_publish_failures := rm_publish_failures m + 1\<rparr>) w)"

definition find_replay :: "uuid \<Rightarrow> replay_service \<Rightarrow> replay_error + replay_session" where
  "find_replay i w = (case get_session i (rw_repository w) of
     None \<Rightarrow> Inl (Replay_Not_Found ''replay session not found'') | Some s \<Rightarrow> Inr s)"

text \<open>A call of the coordinator within a command: the state goes on with its repository.\<close>

definition with_repository :: "replay_service \<Rightarrow> replay_repository \<times> (replay_error + 'a)
    \<Rightarrow> ('a \<Rightarrow> replay_service \<Rightarrow> replay_service \<times> (replay_error + 'b)) \<Rightarrow> replay_service \<times> (replay_error + 'b)" where
  "with_repository w x f = (case snd x of
     Inl e \<Rightarrow> (w\<lparr>rw_repository := fst x\<rparr>, Inl e) | Inr y \<Rightarrow> f y (w\<lparr>rw_repository := fst x\<rparr>))"

subsection \<open>Commands\<close>

definition active_count :: "replay_session list \<Rightarrow> int" where
  "active_count ss = int (length (filter (\<lambda>s. rs_status s \<notin> set terminal_statuses) ss))"

definition service_create :: "replay_env \<Rightarrow> replay_config \<Rightarrow> (lifecycle \<Rightarrow> replay_session \<Rightarrow> bool) \<Rightarrow> replay_request \<Rightarrow> instant
    \<Rightarrow> replay_service \<Rightarrow> replay_service \<times> (replay_error + replay_session)" where
  "service_create env cfg accepts q now w =
     (if \<not> rw_initialized w \<or> rw_closed w then (w, Inl (Replay_Validation ''Replay Engine is unavailable''))
      else if rg_max_concurrent_sessions cfg
          \<le> active_count (list_sessions 0 (nat (rg_max_concurrent_sessions cfg + 1)) None (rw_repository w))
      then (w, Inl (Replay_Validation ''maximum concurrent replay sessions reached''))
      else with_repository w (create_replay env cfg q now (rw_repository w)) (\<lambda>s w.
        (publish_lifecycle cfg accepts Replay_Created s (measure_with (\<lambda>m. m\<lparr>rm_created := rm_created m + 1\<rparr>) w), Inr s)))"

definition service_start :: "replay_env \<Rightarrow> replay_config \<Rightarrow> (lifecycle \<Rightarrow> replay_session \<Rightarrow> bool) \<Rightarrow> uuid \<Rightarrow> instant
    \<Rightarrow> replay_service \<Rightarrow> replay_service \<times> (replay_error + replay_session)" where
  "service_start env cfg accepts i now w =
     (case find_replay i w of
        Inl e \<Rightarrow> (w, Inl e)
      | Inr s \<Rightarrow>
          if rs_status s = Rs_Running then (w, Inr s)
          else with_repository w (transition_session env s Rs_Running ''start_requested'' now (rw_repository w)) (\<lambda>s w.
            (publish_lifecycle cfg accepts Replay_Started s (measure_with (\<lambda>m. m\<lparr>rm_started := rm_started m + 1\<rparr>) w), Inr s)))"

definition service_pause :: "replay_env \<Rightarrow> replay_config \<Rightarrow> (lifecycle \<Rightarrow> replay_session \<Rightarrow> bool) \<Rightarrow> uuid \<Rightarrow> instant
    \<Rightarrow> replay_service \<Rightarrow> replay_service \<times> (replay_error + replay_session)" where
  "service_pause env cfg accepts i now w =
     (case find_replay i w of
        Inl e \<Rightarrow> (w, Inl e)
      | Inr s \<Rightarrow>
          if rs_status s \<in> {Rs_Pausing, Rs_Paused} then (w, Inr s)
          else with_repository w (transition_session env s Rs_Pausing ''pause_requested'' now (rw_repository w)) (\<lambda>s1 w.
            if rs_worker_id s1 = None then
              with_repository w (take_checkpoint env s1 ''pause'' (rw_repository w)) (\<lambda>s2 w.
              with_repository w (transition_session env s2 Rs_Paused ''paused_without_active_worker'' now (rw_repository w)) (\<lambda>s3 w.
                (publish_lifecycle cfg accepts Replay_Paused s3 (measure_with (\<lambda>m. m\<lparr>rm_paused := rm_paused m + 1\<rparr>) w), Inr s3)))
            else (w, Inr s1)))"

definition service_resume :: "replay_env \<Rightarrow> replay_config \<Rightarrow> (lifecycle \<Rightarrow> replay_session \<Rightarrow> bool) \<Rightarrow> uuid \<Rightarrow> instant
    \<Rightarrow> replay_service \<Rightarrow> replay_service \<times> (replay_error + replay_session)" where
  "service_resume env cfg accepts i now w =
     (case find_replay i w of
        Inl e \<Rightarrow> (w, Inl e)
      | Inr s \<Rightarrow>
          if rs_status s = Rs_Running then (w, Inr s)
          else with_repository w (transition_session env s Rs_Resuming ''resume_requested'' now (rw_repository w)) (\<lambda>s1 w.
            with_repository w (transition_session env s1 Rs_Running ''resume_validated'' now (rw_repository w)) (\<lambda>s2 w.
              (publish_lifecycle cfg accepts Replay_Resumed s2 (measure_with (\<lambda>m. m\<lparr>rm_resumed := rm_resumed m + 1\<rparr>) w), Inr s2))))"

definition service_cancel :: "replay_env \<Rightarrow> replay_config \<Rightarrow> (lifecycle \<Rightarrow> replay_session \<Rightarrow> bool) \<Rightarrow> uuid \<Rightarrow> instant
    \<Rightarrow> replay_service \<Rightarrow> replay_service \<times> (replay_error + replay_session)" where
  "service_cancel env cfg accepts i now w =
     (case find_replay i w of
        Inl e \<Rightarrow> (w, Inl e)
      | Inr s \<Rightarrow>
          if rs_status s = Rs_Cancelled then (w, Inr s)
          else if rs_status s \<in> {Rs_Completed, Rs_Failed} then (w, Inl (Replay_Transition ''terminal replay cannot be cancelled''))
          else with_repository w (transition_session env s Rs_Cancelling ''cancel_requested'' now (rw_repository w)) (\<lambda>s1 w.
            if rs_worker_id s1 = None then
              with_repository w (take_checkpoint env s1 ''cancel'' (rw_repository w)) (\<lambda>s2 w.
              with_repository w (transition_session env s2 Rs_Cancelled ''cancelled_without_active_worker'' now (rw_repository w)) (\<lambda>s3 w.
                (publish_lifecycle cfg accepts Replay_Cancelled s3 (measure_with (\<lambda>m. m\<lparr>rm_cancelled := rm_cancelled m + 1\<rparr>) w), Inr s3)))
            else (w, Inr s1)))"

definition record_result :: "replay_session \<Rightarrow> replay_metrics \<Rightarrow> replay_metrics" where
  "record_result s m0 =
     (let m = m0\<lparr>rm_events_processed := rm_events_processed m0 + rs_processed_events s,
                 rm_generated_events := rm_generated_events m0 + rs_generated_events s\<rparr>
      in if rs_status s = Rs_Completed then m\<lparr>rm_completed := rm_completed m + 1\<rparr>
         else if rs_status s = Rs_Cancelled then m\<lparr>rm_cancelled := rm_cancelled m + 1\<rparr>
         else if rs_status s = Rs_Failed then
           (let m' = m\<lparr>rm_failed := rm_failed m + 1\<rparr> in case rs_failure s of
              None \<Rightarrow> m'
            | Some f \<Rightarrow> m'\<lparr>rm_failure_categories := AList.update (rf_category f)
                ((case map_of (rm_failure_categories m') (rf_category f) of None \<Rightarrow> 0 | Some n \<Rightarrow> n) + 1) (rm_failure_categories m')\<rparr>)
         else m)"

definition with_lease_of :: "replay_session \<Rightarrow> replay_session \<Rightarrow> replay_session" where
  "with_lease_of final s = s\<lparr>rs_worker_id := rs_worker_id final, rs_lease_expires_at := rs_lease_expires_at final\<rparr>"

definition run_event :: "replay_session \<Rightarrow> lifecycle" where
  "run_event s = (if rs_status s = Rs_Completed then Replay_Completed else if rs_status s = Rs_Cancelled then Replay_Cancelled else Replay_Failed)"

definition service_run :: "replay_env \<Rightarrow> replay_config \<Rightarrow> (lifecycle \<Rightarrow> replay_session \<Rightarrow> bool) \<Rightarrow> uuid \<Rightarrow> string \<Rightarrow> instant
    \<Rightarrow> (nat \<Rightarrow> replay_repository \<Rightarrow> replay_repository) \<Rightarrow> replay_service \<Rightarrow> replay_service \<times> (replay_error + replay_session)" where
  "service_run env cfg accepts i worker now meanwhile w =
     with_repository w (run_replay env cfg i worker now meanwhile None (rw_repository w)) (\<lambda>s w.
       case find_replay i w of
         Inl e \<Rightarrow> (w, Inl e)
       | Inr final \<Rightarrow> (publish_lifecycle cfg accepts (run_event final) final (measure_with (record_result final) w), Inr (with_lease_of final s)))"

definition service_advance :: "replay_env \<Rightarrow> replay_config \<Rightarrow> (lifecycle \<Rightarrow> replay_session \<Rightarrow> bool) \<Rightarrow> uuid \<Rightarrow> int \<Rightarrow> string \<Rightarrow> instant
    \<Rightarrow> (nat \<Rightarrow> replay_repository \<Rightarrow> replay_repository) \<Rightarrow> replay_service \<Rightarrow> replay_service \<times> (replay_error + replay_session)" where
  "service_advance env cfg accepts i units worker now meanwhile w =
     (if \<not> (1 \<le> units \<and> units \<le> rg_max_step_units cfg) then (w, Inl (Replay_Validation ''step units exceed configured bound''))
      else case find_replay i w of
        Inl e \<Rightarrow> (w, Inl e)
      | Inr s \<Rightarrow>
          if rq_mode (rs_request s) \<noteq> Step_Mode then (w, Inl (Replay_Transition ''step is available only for step-mode replay''))
          else (case (if rs_status s = Rs_Ready then service_start env cfg accepts i now w
                      else if rs_status s = Rs_Paused then service_resume env cfg accepts i now w
                      else if rs_status s \<noteq> Rs_Running then (w, Inl (Replay_Transition ''step replay is not ready to advance''))
                      else (w, Inr s)) of
              (w1, Inl e) \<Rightarrow> (w1, Inl e)
            | (w1, Inr _) \<Rightarrow>
                with_repository w1 (run_replay env cfg i worker now meanwhile (Some (nat units)) (rw_repository w1)) (\<lambda>x w2.
                  case find_replay i w2 of
                    Inl e \<Rightarrow> (w2, Inl e)
                  | Inr final \<Rightarrow>
                      (let w3 = measure_with (record_result final) w2
                       in (if rs_status final = Rs_Paused
                           then publish_lifecycle cfg accepts Replay_Paused final (measure_with (\<lambda>m. m\<lparr>rm_paused := rm_paused m + 1\<rparr>) w3)
                           else w3, Inr (with_lease_of final x))))))"

definition service_cleanup :: "replay_config \<Rightarrow> instant \<Rightarrow> replay_service \<Rightarrow> replay_service \<times> nat" where
  "service_cleanup cfg now w =
     (let (r, n) = cleanup_sessions (now - seconds_td (86400 * rg_completed_days cfg)) (nat (rg_cleanup_batch_size cfg)) (rw_repository w)
      in (w\<lparr>rw_repository := r\<rparr>, n))"

subsection \<open>Comparison of two replays\<close>

record manifest_difference =
  md_field :: string
  md_left :: string
  md_right :: string

record replay_comparison =
  rc_comparable :: bool
  rc_manifest_differences :: "manifest_difference list"
  rc_semantic_hash_equal :: bool
  rc_first_divergence :: "string option"
  rc_score_difference_count :: int
  rc_decision_difference_count :: int
  rc_state_transition_difference_count :: int

definition manifest_fields :: "replay_session \<Rightarrow> (string \<times> string) list" where
  "manifest_fields s = [(''request_fingerprint'', rs_request_fingerprint s), (''engine_manifest_hash'', rs_engine_manifest_hash s),
     (''policy_manifest_hash'', rs_policy_manifest_hash s), (''configuration_hash'', rs_configuration_hash s), (''ordering_version'', rs_ordering_version s)]"

definition manifest_differences :: "replay_session \<Rightarrow> replay_session \<Rightarrow> manifest_difference list" where
  "manifest_differences a b = map (\<lambda>((f, x), (_, y)). \<lparr>md_field = f, md_left = x, md_right = y\<rparr>)
     (filter (\<lambda>((_, x), (_, y)). x \<noteq> y) (zip (manifest_fields a) (manifest_fields b)))"

definition difference_count :: "replay_output list \<Rightarrow> replay_output list \<Rightarrow> string \<Rightarrow> int" where
  "difference_count left right kind =
     (let xs = map ro_fingerprint (filter (\<lambda>x. ro_output_type x = kind) left);
          ys = map ro_fingerprint (filter (\<lambda>x. ro_output_type x = kind) right)
      in int (max (length xs) (length ys)) - int (length (filter (\<lambda>(x, y). x = y) (zip xs ys))))"

definition first_divergence :: "replay_output list \<Rightarrow> replay_output list \<Rightarrow> string option" where
  "first_divergence left right = map_option (\<lambda>n. ''output['' @ str_int (int n) @ '']'')
     (find (\<lambda>n. (ro_output_type (left ! n), ro_fingerprint (left ! n)) \<noteq> (ro_output_type (right ! n), ro_fingerprint (right ! n)))
       [0..<min (length left) (length right)])"

definition compare_replays :: "uuid \<Rightarrow> uuid \<Rightarrow> replay_service \<Rightarrow> replay_service \<times> (replay_error + replay_comparison)" where
  "compare_replays i j w =
     (case bindE (find_replay i w) (\<lambda>a. bindE (find_replay j w) (\<lambda>b. Inr (a, b))) of
        Inl e \<Rightarrow> (w, Inl e)
      | Inr (a, b) \<Rightarrow>
          (let r = rw_repository w; ls = list_outputs i None 0 1000 r; rs = list_outputs j None 0 1000 r; ds = manifest_differences a b;
               equal = (rs_semantic_output_hash a = rs_semantic_output_hash b)
           in (measure_with (\<lambda>m. m\<lparr>rm_comparisons := rm_comparisons m + 1, rm_hash_mismatches := rm_hash_mismatches m + (if equal then 0 else 1)\<rparr>) w,
               Inr \<lparr>rc_comparable = (ds = []), rc_manifest_differences = ds, rc_semantic_hash_equal = equal,
                    rc_first_divergence = first_divergence ls rs, rc_score_difference_count = difference_count ls rs ''ai_score'',
                    rc_decision_difference_count = difference_count ls rs ''signal_decision'',
                    rc_state_transition_difference_count = \<bar>int (length (list_transitions i 0 200 r)) - int (length (list_transitions j 0 200 r))\<bar>\<rparr>)))"

subsection \<open>Summary and health\<close>

record replay_summary =
  sy_replay_id :: uuid
  sy_status :: replay_status
  sy_start_at :: instant
  sy_end_at :: instant
  sy_final_cursor_at :: instant
  sy_processed_source_events :: int
  sy_generated_events :: int
  sy_ai_scores_generated :: int
  sy_signal_decisions_generated :: int
  sy_eligible_decisions :: int
  sy_observe_only_decisions :: int
  sy_blocked_decisions :: int
  sy_insufficient_decisions :: int
  sy_invalid_decisions :: int
  sy_warnings :: int
  sy_failures :: int
  sy_no_lookahead_violations :: int
  sy_semantic_output_hash :: string
  sy_completed_at :: "instant option"

definition occurrences :: "('a \<Rightarrow> bool) \<Rightarrow> 'a list \<Rightarrow> int" where
  "occurrences p xs = int (length (filter p xs))"

definition service_summary :: "uuid \<Rightarrow> replay_service \<Rightarrow> replay_error + replay_summary" where
  "service_summary i w = bindE (find_replay i w) (\<lambda>s.
     let outputs = list_outputs i None 0 1000 (rw_repository w);
         decisions = filter (\<lambda>x. ro_output_type x = ''signal_decision'') outputs;
         states = map ro_state decisions
     in Inr \<lparr>sy_replay_id = rs_replay_id s, sy_status = rs_status s, sy_start_at = rq_start_at (rs_request s),
          sy_end_at = rq_end_at (rs_request s), sy_final_cursor_at = rs_virtual_cursor_at s,
          sy_processed_source_events = rs_processed_events s, sy_generated_events = rs_generated_events s,
          sy_ai_scores_generated = occurrences (\<lambda>x. ro_output_type x = ''ai_score'') outputs,
          sy_signal_decisions_generated = int (length decisions),
          sy_eligible_decisions = occurrences (\<lambda>x. x = Some ''eligible'') states,
          sy_observe_only_decisions = occurrences (\<lambda>x. x = Some ''observe_only'') states,
          sy_blocked_decisions = occurrences (\<lambda>x. x = Some ''blocked'') states,
          sy_insufficient_decisions = occurrences (\<lambda>x. x = Some ''insufficient_evidence'') states,
          sy_invalid_decisions = occurrences (\<lambda>x. x = Some ''invalid'') states,
          sy_warnings = 0, sy_failures = rs_failed_events s,
          sy_no_lookahead_violations = (if map_option rf_category (rs_failure s) = Some Point_In_Time_Violation then 1 else 0),
          sy_semantic_output_hash = rs_semantic_output_hash s, sy_completed_at = rs_completed_at s\<rparr>)"

text \<open>The degradation reasons and the status of \<open>health\<close>.\<close>

definition health_reasons :: "string \<Rightarrow> source_registry \<Rightarrow> replay_service \<Rightarrow> string list" where
  "health_reasons mode d w =
     (if \<not> rw_initialized w \<or> rw_closed w then [''service_not_running''] else [])
     @ (if mode = ''memory'' then [''ephemeral_persistence''] else []) @ (if d = [] then [''historical_sources_unavailable''] else [])"

definition replay_health_status :: "string \<Rightarrow> source_registry \<Rightarrow> replay_service \<Rightarrow> string" where
  "replay_health_status mode d w =
     (if \<not> rw_initialized w \<or> rw_closed w then ''unavailable''
      else if health_reasons mode d w \<noteq> [] then ''degraded'' else ''healthy'')"

subsection \<open>The worker\<close>

text \<open>\<open>run_once\<close> without a stop request: the running sessions that the first page shows, one after another; an error goes
  on with the next.\<close>

fun run_listed :: "replay_env \<Rightarrow> replay_config \<Rightarrow> (lifecycle \<Rightarrow> replay_session \<Rightarrow> bool) \<Rightarrow> string \<Rightarrow> instant
    \<Rightarrow> (nat \<Rightarrow> replay_repository \<Rightarrow> replay_repository) \<Rightarrow> replay_session list \<Rightarrow> replay_service \<Rightarrow> replay_service \<times> nat" where
  "run_listed env cfg accepts worker now meanwhile [] w = (w, 0)"
| "run_listed env cfg accepts worker now meanwhile (s # ss) w =
     (let (w', y) = service_run env cfg accepts (rs_replay_id s) worker now meanwhile w;
          (w2, n) = run_listed env cfg accepts worker now meanwhile ss w'
      in (w2, (case y of Inl _ \<Rightarrow> n | Inr _ \<Rightarrow> Suc n)))"

definition run_once :: "replay_env \<Rightarrow> replay_config \<Rightarrow> (lifecycle \<Rightarrow> replay_session \<Rightarrow> bool) \<Rightarrow> string \<Rightarrow> instant
    \<Rightarrow> (nat \<Rightarrow> replay_repository \<Rightarrow> replay_repository) \<Rightarrow> replay_service \<Rightarrow> replay_service \<times> nat" where
  "run_once env cfg accepts worker now meanwhile w =
     run_listed env cfg accepts worker now meanwhile
       (list_sessions 0 (min (nat (rg_worker_max_concurrency cfg)) 200) (Some Rs_Running) (rw_repository w)) w"

end
