(* ===== verification/Replay_Proofs.thy ===== *)
theory Replay_Proofs
  imports Replay_Service
begin

text \<open>
  What the replay engine keeps and reaches: the sessions that the repository holds stay valid through
  every operation and every run.
\<close>

subsection \<open>Stored sessions are valid\<close>

definition sessions_ok :: "replay_repository \<Rightarrow> bool" where
  "sessions_ok r \<longleftrightarrow> list_all (\<lambda>(i, s). rs_replay_id s = i \<and> session_invariants s) (rr_sessions r)"

text \<open>An answer of the repository: the sessions stay valid, and so is the one that is returned.\<close>

definition answer_ok :: "replay_repository \<times> (replay_error + replay_session) \<Rightarrow> bool" where
  "answer_ok x \<longleftrightarrow> sessions_ok (fst x) \<and> (\<forall>s. snd x = Inr s \<longrightarrow> session_invariants s)"

lemma sessions_ok_get: "sessions_ok r \<Longrightarrow> get_session i r = Some s \<Longrightarrow> rs_replay_id s = i \<and> session_invariants s"
  by (auto simp: sessions_ok_def get_session_def list_all_iff dest!: map_of_SomeD)

lemma list_all_alist_update: "list_all P xs \<Longrightarrow> P (k, v) \<Longrightarrow> list_all P (AList.update k v xs)"
  by (induction xs) auto

lemma kept_sessions [simp]:
  "rr_sessions (save_transition t r) = rr_sessions r" "rr_sessions (save_trace ts r) = rr_sessions r"
  "rr_sessions (save_outputs os r) = rr_sessions r"
  by (simp_all add: save_transition_def save_trace_def save_outputs_def Let_def)

lemma sessions_ok_cong: "rr_sessions r' = rr_sessions r \<Longrightarrow> sessions_ok r' = sessions_ok r"
  by (simp add: sessions_ok_def)

lemma sessions_ok_fields [simp]:
  "sessions_ok (save_transition t r) = sessions_ok r" "sessions_ok (save_trace ts r) = sessions_ok r"
  "sessions_ok (save_outputs os r) = sessions_ok r"
  by (simp_all add: sessions_ok_def)

lemma save_session_answer: "sessions_ok r \<Longrightarrow> session_invariants s \<Longrightarrow> answer_ok (save_session s v r)"
  by (auto simp: answer_ok_def save_session_def sessions_ok_def intro: list_all_alist_update split: option.split)

lemma save_checkpoint_sessions: "rr_sessions (fst (save_checkpoint rt dump c r)) = rr_sessions r"
  by (simp add: save_checkpoint_def Let_def)

lemma moved_invariants:
  assumes "session_invariants s" "rs_status s \<noteq> Rs_Completed"
  shows "session_invariants (moved target t s)"
proof -
  have "0 \<le> fint 100" using percent_100 by (simp add: in_range_def)
  then show ?thesis using assms by (auto simp: session_invariants_def moved_def stamp_status_def)
qed

lemma transition_source: "validate_transition a b = Inr x \<Longrightarrow> a \<noteq> Rs_Completed \<and> a \<noteq> Rs_Cancelled"
  by (cases a) (auto simp: validate_transition_def transitions_def)

lemma transition_answer:
  assumes "sessions_ok r" "session_invariants s"
  shows "answer_ok (transition_session env s target reason t r)"
proof (cases "validate_transition (rs_status s) target")
  case (Inl e)
  then show ?thesis using assms(1) by (simp add: transition_session_def answer_ok_def)
next
  case (Inr x)
  have "session_invariants (moved target t s)" using moved_invariants assms(2) transition_source [OF Inr] by blast
  then have "answer_ok (save_session (moved target t s) (rs_row_version s) r)" using save_session_answer assms(1) by blast
  then show ?thesis using Inr by (auto simp: transition_session_def answer_ok_def split: prod.split sum.split)
qed

lemma checkpoint_answer:
  assumes "sessions_ok r" "session_invariants s"
  shows "answer_ok (take_checkpoint env s reason r)"
proof -
  let ?c = "checkpoint_of env s (next_sequence (rs_replay_id s) r) reason"
  let ?s = "s\<lparr>rs_latest_checkpoint_id := Some (cp_checkpoint_id ?c), rs_row_version := rs_row_version s + 1\<rparr>"
  obtain r' y where c: "save_checkpoint (rv_runtime env) (rv_checkpoint_json env) ?c r = (r', y)" by fastforce
  then have r': "sessions_ok r'" using save_checkpoint_sessions [of "rv_runtime env" "rv_checkpoint_json env" ?c r] assms(1)
    by (simp add: sessions_ok_def)
  have inv: "session_invariants ?s" using assms(2) by (simp add: session_invariants_def)
  show ?thesis
  proof (cases y)
    case (Inl e)
    then show ?thesis using c r' by (simp add: take_checkpoint_def Let_def answer_ok_def)
  next
    case (Inr x)
    then have "take_checkpoint env s reason r = save_session ?s (rs_row_version s) r'" using c by (simp add: take_checkpoint_def Let_def)
    then show ?thesis using save_session_answer [OF r' inv] by simp
  qed
qed

lemma lease_answer:
  assumes "sessions_ok r"
  shows "answer_ok (acquire_lease i w now n v r)"
proof (cases "map_of (rr_sessions r) i")
  case None
  then show ?thesis using assms by (simp add: acquire_lease_def answer_ok_def)
next
  case (Some s)
  let ?s = "s\<lparr>rs_worker_id := Some w, rs_heartbeat_at := Some now, rs_lease_expires_at := Some (now + seconds_td n), rs_row_version := rs_row_version s + 1\<rparr>"
  have s: "rs_replay_id s = i" "session_invariants s" using sessions_ok_get [OF assms, of i s] Some by (simp_all add: get_session_def)
  have inv: "session_invariants ?s" using s(2) by (simp add: session_invariants_def)
  have "sessions_ok (r\<lparr>rr_sessions := AList.update i ?s (rr_sessions r)\<rparr>)"
    using assms s(1) inv by (simp add: sessions_ok_def list_all_alist_update)
  then show ?thesis using Some assms inv by (cases "v = rs_row_version s") (simp_all add: acquire_lease_def answer_ok_def Let_def)
qed

lemma release_answer:
  assumes "sessions_ok r"
  shows "sessions_ok (fst (release_lease i w r))"
proof (cases "get_session i r")
  case (Some s)
  let ?s = "s\<lparr>rs_worker_id := None, rs_heartbeat_at := None, rs_lease_expires_at := None, rs_row_version := rs_row_version s + 1\<rparr>"
  have "session_invariants ?s" using sessions_ok_get [OF assms Some] by (simp add: session_invariants_def)
  then have "answer_ok (save_session ?s (rs_row_version s) r)" using save_session_answer assms by blast
  then show ?thesis using Some assms by (simp add: release_lease_def answer_ok_def)
qed (simp add: release_lease_def assms)

lemma percent_share:
  assumes "in_range 0 1 x"
  shows "in_range 0 (fint 100) (x * fint 100)"
proof -
  have "0 \<le> fint 100" using percent_100 by (simp add: in_range_def)
  then show ?thesis using assms f64_mult_nonneg f64_mult_le [of x "fint 100"] by (auto simp: in_range_def)
qed

lemma progress_range: "0 \<le> progress_percent a b c \<and> progress_percent a b c \<le> fint 100"
proof -
  have "in_range 0 1 (max 0 (min 1 (total_seconds (c - a) / total_seconds (b - a))))" by (auto simp: in_range_def)
  from round_nd_percent [OF percent_share [OF this]] show ?thesis by (simp add: progress_percent_def in_range_def)
qed


subsection \<open>What a successful write leaves behind\<close>

lemma save_session_done:
  assumes "save_session s v r = (r', Inr s')"
  shows "s' = s" "get_session (rs_replay_id s) r' = Some s" "rr_checkpoints r' = rr_checkpoints r"
    "\<exists>c. get_session (rs_replay_id s) r = Some c \<and> rs_row_version c = v" "rs_row_version s = v + 1"
  using assms by (auto simp: save_session_def get_session_def update_Some_unfold update_conv' split: option.split_asm if_split_asm)

lemma save_session_accepts:
  "get_session (rs_replay_id s) r = Some c \<Longrightarrow> rs_row_version c = v \<Longrightarrow> rs_row_version s = v + 1 \<Longrightarrow>
     save_session s v r = (r\<lparr>rr_sessions := AList.update (rs_replay_id s) s (rr_sessions r)\<rparr>, Inr s)"
  by (simp add: save_session_def get_session_def)

lemma get_session_updated: "get_session i (r\<lparr>rr_sessions := AList.update i s (rr_sessions r)\<rparr>) = Some s"
  by (simp add: get_session_def update_conv')

lemma get_session_kept [simp]:
  "get_session i (save_transition t r) = get_session i r" "get_session i (save_trace ts r) = get_session i r"
  "get_session i (save_outputs os r) = get_session i r"
  by (simp_all add: get_session_def)

lemma moved_fields [simp]:
  "rs_replay_id (moved target t s) = rs_replay_id s" "rs_row_version (moved target t s) = rs_row_version s + 1"
  "rs_status (moved target t s) = target" "rs_request (moved target t s) = rs_request s" "rs_worker_id (moved target t s) = rs_worker_id s"
  "rs_latest_checkpoint_id (moved target t s) = rs_latest_checkpoint_id s" "rs_failure (moved target t s) = rs_failure s"
  "rs_processed_events (moved target t s) = rs_processed_events s" "rs_last_ordering_key (moved target t s) = rs_last_ordering_key s"
  by (simp_all add: moved_def stamp_status_def)

lemma transition_done:
  assumes "transition_session env s target reason t r = (r', Inr s')"
  shows "s' = moved target t s" "get_session (rs_replay_id s) r' = Some s'" "target \<in> set (transitions (rs_status s))"
proof -
  obtain r1 where r1: "save_session (moved target t s) (rs_row_version s) r = (r1, Inr s')" "r' = save_transition (transition_record env s target reason t) r1"
    "target \<in> set (transitions (rs_status s))"
    using assms by (auto simp: transition_session_def validate_transition_def split: sum.split_asm prod.split_asm if_split_asm)
  show "s' = moved target t s" "get_session (rs_replay_id s) r' = Some s'" "target \<in> set (transitions (rs_status s))"
    using save_session_done [OF r1(1)] r1(2,3) by simp_all
qed

lemma transition_accepts:
  assumes "get_session (rs_replay_id s) r = Some s" "target \<in> set (transitions (rs_status s))"
  shows "\<exists>r'. transition_session env s target reason t r = (r', Inr (moved target t s))
     \<and> get_session (rs_replay_id s) r' = Some (moved target t s) \<and> rr_checkpoints r' = rr_checkpoints r"
proof -
  let ?m = "moved target t s" let ?r = "r\<lparr>rr_sessions := AList.update (rs_replay_id s) (moved target t s) (rr_sessions r)\<rparr>"
  have sv: "save_session ?m (rs_row_version s) r = (?r, Inr ?m)"
    using save_session_accepts [of ?m r s "rs_row_version s"] assms(1) by simp
  have "transition_session env s target reason t r = (save_transition (transition_record env s target reason t) ?r, Inr ?m)"
    using assms(2) sv by (simp add: transition_session_def validate_transition_def)
  moreover have "rr_checkpoints (save_transition (transition_record env s target reason t) ?r) = rr_checkpoints r"
    by (simp add: save_transition_def Let_def)
  ultimately show ?thesis using get_session_updated [of "rs_replay_id s" ?m r] by auto
qed

lemma checkpoint_done:
  assumes "take_checkpoint env s reason r = (r', Inr s')"
  shows "\<exists>c. s' = s\<lparr>rs_latest_checkpoint_id := Some c, rs_row_version := rs_row_version s + 1\<rparr>" "get_session (rs_replay_id s) r' = Some s'"
proof -
  obtain r1 c where "save_session (s\<lparr>rs_latest_checkpoint_id := Some c, rs_row_version := rs_row_version s + 1\<rparr>) (rs_row_version s) r1 = (r', Inr s')"
    using assms by (auto simp: take_checkpoint_def Let_def split: sum.split_asm prod.split_asm)
  note sv = save_session_done [OF this]
  show "\<exists>c. s' = s\<lparr>rs_latest_checkpoint_id := Some c, rs_row_version := rs_row_version s + 1\<rparr>" using sv(1) by blast
  show "get_session (rs_replay_id s) r' = Some s'" using sv(2) unfolding sv(1) by simp
qed

subsection \<open>What processing keeps\<close>

lemma drain_emitted:
  "drain_generated env cfg engines now queue seen emitted b outputs = (b', Inr (n, os)) \<Longrightarrow> emitted \<le> n"
proof (induction env cfg engines now queue seen emitted b outputs rule: drain_generated.induct)
  case (2 env cfg engines now e queue seen emitted b outputs)
  show ?case using "2.prems" by (auto split: if_split_asm prod.split_asm sum.split_asm dest!: "2.IH")
qed simp

lemma process_event_done:
  assumes "process_event env cfg s now h g = (g', Inr u)"
  shows "gp_generated g \<le> gp_generated g'" "gp_last_key g' = Some (ordering_key_text h)" "gp_sequence g' = gp_sequence g + 1"
    "he_available_at h \<le> now" "length (gp_trace g') = Suc (length (gp_trace g))"
  using assms by (auto simp: process_event_def split: if_split_asm prod.split_asm sum.split_asm dest!: drain_emitted)

lemma process_events_done:
  "process_events env cfg s now hs g = (g', Inr u) \<Longrightarrow> gp_generated g \<le> gp_generated g' \<and> gp_sequence g' = gp_sequence g + int (length hs)
     \<and> list_all (\<lambda>h. he_available_at h \<le> now) hs \<and> (hs \<noteq> [] \<longrightarrow> gp_last_key g' = Some (ordering_key_text (last hs)))"
proof (induction hs arbitrary: g)
  case (Cons h hs)
  obtain g1 where g1: "process_event env cfg s now h g = (g1, Inr ())" "process_events env cfg s now hs g1 = (g', Inr u)"
    using Cons.prems by (auto split: prod.split_asm sum.split_asm)
  show ?case using process_event_done [OF g1(1)] Cons.IH [OF g1(2)] g1(2) by (cases hs) auto
qed simp

lemma advanced_invariants:
  assumes "session_invariants s" "rs_status s \<noteq> Rs_Completed" "rq_start_at (rs_request s) \<le> now" "now \<le> rq_end_at (rs_request s)" "0 \<le> gp_generated g"
  shows "session_invariants (advanced env s evs now g)"
  using assms by (auto simp: session_invariants_def advanced_def progress_range)

lemma advanced_fields [simp]:
  "rs_replay_id (advanced env s evs now g) = rs_replay_id s" "rs_row_version (advanced env s evs now g) = rs_row_version s + 1"
  "rs_status (advanced env s evs now g) = rs_status s" "rs_request (advanced env s evs now g) = rs_request s"
  "rs_worker_id (advanced env s evs now g) = rs_worker_id s" "rs_processed_events (advanced env s evs now g) = rs_processed_events s + int (length evs)"
  "rs_virtual_cursor_at (advanced env s evs now g) = now" "rs_last_ordering_key (advanced env s evs now g) = gp_last_key g"
  by (simp_all add: advanced_def)


subsection \<open>A run keeps the sessions valid\<close>

text \<open>Between two groups the session is still running, and the clock is within its bounds.\<close>

definition head_ok :: "uuid \<Rightarrow> replay_request \<Rightarrow> run_state \<Rightarrow> bool" where
  "head_ok i q u \<longleftrightarrow> sessions_ok (ru_repository u)
     \<and> (\<exists>s. get_session i (ru_repository u) = Some s \<and> rs_status s = Rs_Running \<and> rs_request s = q)
     \<and> rk_end (ru_clock u) = rq_end_at q \<and> rq_start_at q \<le> rk_now (ru_clock u) \<and> rk_now (ru_clock u) \<le> rq_end_at q"

definition step_ok :: "uuid \<Rightarrow> replay_request \<Rightarrow> run_state \<times> (replay_error + replay_session option) \<Rightarrow> bool" where
  "step_ok i q x \<longleftrightarrow> sessions_ok (ru_repository (fst x)) \<and> (snd x = Inr None \<longrightarrow> head_ok i q (fst x))
     \<and> (\<forall>s. snd x = Inr (Some s) \<longrightarrow> session_invariants s)"

lemma advance_to_clock:
  "advance_to t k = Inr k' \<Longrightarrow> rk_now k' = t \<and> rk_end k' = rk_end k \<and> rk_now k \<le> t \<and> t \<le> rk_end k"
  by (auto simp: advance_to_def split: if_split_asm)

lemma settle_ok:
  assumes "sessions_ok (ru_repository u)" "session_invariants s"
  shows "sessions_ok (ru_repository (fst (settle env s c target reason u)))"
    "snd (settle env s c target reason u) = Inr s' \<Longrightarrow> session_invariants s'"
proof -
  obtain r y where c: "take_checkpoint env s c (ru_repository u) = (r, y)" by fastforce
  have a: "sessions_ok r" "\<And>s'. y = Inr s' \<Longrightarrow> session_invariants s'" using checkpoint_answer [OF assms, of env c] c by (simp_all add: answer_ok_def)
  have "answer_ok (transition_session env s' target reason (rk_now (ru_clock u)) r)" if "y = Inr s'" for s'
    using transition_answer [OF a(1) a(2) [OF that]] .
  then show "sessions_ok (ru_repository (fst (settle env s c target reason u)))"
    "snd (settle env s c target reason u) = Inr s' \<Longrightarrow> session_invariants s'"
    using c a(1) by (auto simp: settle_def Let_def answer_ok_def split: sum.split sum.split_asm prod.split prod.split_asm)
qed

lemma after_group_ok:
  assumes "head_ok i q u" "get_session i (ru_repository u) = Some s"
  shows "step_ok i q (after_group env cfg stop s u)"
proof -
  have ok: "sessions_ok (ru_repository u)" using assms(1) by (simp add: head_ok_def)
  have s: "rs_replay_id s = i" "session_invariants s" "rs_status s = Rs_Running" "rs_request s = q"
    using sessions_ok_get [OF ok assms(2)] assms by (auto simp: head_ok_def)
  obtain r y where y: "(if checkpoint_due cfg s then take_checkpoint env s ''policy'' (ru_repository u) else (ru_repository u, Inr s)) = (r, y)"
    by fastforce
  have r: "answer_ok (r, y)" using checkpoint_answer [OF ok s(2), of env "''policy''"] ok s(2) unfolding y [symmetric] by (simp add: answer_ok_def)
  have kept: "get_session i r = Some s1 \<and> rs_status s1 = Rs_Running \<and> rs_request s1 = q" if "y = Inr s1" for s1
  proof (cases "checkpoint_due cfg s")
    case True
    then have "take_checkpoint env s ''policy'' (ru_repository u) = (r, Inr s1)" using y that by simp
    note c = checkpoint_done [OF this]
    show ?thesis using c(1) c(2) s by auto
  qed (use y that s assms(2) in auto)
  show ?thesis
  proof (cases y)
    case (Inl x)
    then show ?thesis using r y by (simp add: after_group_def step_ok_def answer_ok_def)
  next
    case (Inr s1)
    have s1: "sessions_ok r" "session_invariants s1" using r Inr by (simp_all add: answer_ok_def)
    have go: "step_ok i q (u\<lparr>ru_repository := r\<rparr>, Inr None)"
      using kept [OF Inr] s1(1) assms(1) by (simp add: step_ok_def head_ok_def)
    obtain r' z where z: "transition_session env s1 Rs_Pausing ''step_units_complete'' (rk_now (ru_clock u)) r = (r', z)" by fastforce
    have z_ok: "sessions_ok r'" "\<And>s2. z = Inr s2 \<Longrightarrow> session_invariants s2" using transition_answer [OF s1, of env Rs_Pausing "''step_units_complete''" "rk_now (ru_clock u)"] z
      by (simp_all add: answer_ok_def)
    show ?thesis
    proof (cases "stop \<and> z \<noteq> Inl (projl z)")
      case False
      then show ?thesis using y Inr z go z_ok(1) by (cases z) (auto simp: after_group_def step_ok_def)
    next
      case True
      then obtain s2 where s2: "z = Inr s2" by (cases z) auto
      obtain u' w where w: "settle env s2 ''step'' Rs_Paused ''step_paused'' (u\<lparr>ru_repository := r'\<rparr>) = (u', w)" by fastforce
      have "sessions_ok (ru_repository u') \<and> (\<forall>s. w = Inr s \<longrightarrow> session_invariants s)"
        using settle_ok [where u = "u\<lparr>ru_repository := r'\<rparr>" and env = env and c = "''step''" and target = Rs_Paused and reason = "''step_paused''",
          OF _ z_ok(2) [OF s2]] z_ok(1) unfolding w by simp
      moreover have "after_group env cfg stop s u = (u', bindE w (\<lambda>s. Inr (Some s)))"
        using y Inr z s2 w True by (simp add: after_group_def)
      ultimately show ?thesis by (cases w) (simp_all add: step_ok_def)
    qed
  qed
qed


lemma process_group_done:
  assumes "process_group env cfg s evs now b r = (b', r', Inr s')"
  shows "get_session (rs_replay_id s) r' = Some s'"
    "\<exists>g. s' = advanced env s evs now g \<and> 0 \<le> gp_generated g \<and> list_all (\<lambda>h. he_available_at h \<le> now) evs
       \<and> (evs \<noteq> [] \<longrightarrow> gp_last_key g = Some (ordering_key_text (last evs)))"
proof -
  define g0 where "g0 = \<lparr>gp_bus = b, gp_outputs = [], gp_generated = 0, gp_hash = rs_semantic_output_hash s,
    gp_last_key = rs_last_ordering_key s, gp_sequence = rs_processed_events s, gp_trace = []\<rparr>"
  obtain g r1 where g: "process_events env cfg s now evs g0 = (g, Inr ())" and r1: "save_session (advanced env s evs now g) (rs_row_version s) r = (r1, Inr s')"
      "r' = save_outputs (gp_outputs g) (if rg_trace_enabled cfg then save_trace (take (nat (rg_max_trace_records cfg)) (gp_trace g)) r1 else r1)"
    using assms unfolding process_group_def g0_def [symmetric] by (auto split: prod.split_asm sum.split_asm)
  note sv = save_session_done [OF r1(1)]
  show "get_session (rs_replay_id s) r' = Some s'" using sv(2) unfolding r1(2) sv(1) by simp
  show "\<exists>g. s' = advanced env s evs now g \<and> 0 \<le> gp_generated g \<and> list_all (\<lambda>h. he_available_at h \<le> now) evs
       \<and> (evs \<noteq> [] \<longrightarrow> gp_last_key g = Some (ordering_key_text (last evs)))"
    using sv(1) process_events_done [OF g] by (intro exI [of _ g]) (simp add: g0_def)
qed

lemma process_group_ok:
  assumes "sessions_ok r" "session_invariants s" "rs_status s \<noteq> Rs_Completed" "rq_start_at (rs_request s) \<le> now" "now \<le> rq_end_at (rs_request s)"
  shows "sessions_ok (fst (snd (process_group env cfg s evs now b r)))"
proof -
  define g0 where "g0 = \<lparr>gp_bus = b, gp_outputs = [], gp_generated = 0, gp_hash = rs_semantic_output_hash s,
    gp_last_key = rs_last_ordering_key s, gp_sequence = rs_processed_events s, gp_trace = []\<rparr>"
  obtain g y where g: "process_events env cfg s now evs g0 = (g, y)" by fastforce
  show ?thesis
  proof (cases y)
    case (Inl x)
    then show ?thesis using g assms(1) unfolding process_group_def g0_def [symmetric] by simp
  next
    case (Inr x)
    have "0 \<le> gp_generated g" using process_events_done [of env cfg s now evs g0 g x] g Inr by (simp add: g0_def)
    then have "answer_ok (save_session (advanced env s evs now g) (rs_row_version s) r)"
      using save_session_answer [OF assms(1)] advanced_invariants [OF assms(2-5)] by blast
    then show ?thesis using g Inr unfolding process_group_def g0_def [symmetric]
      by (auto simp: answer_ok_def split: prod.split sum.split)
  qed
qed

lemma run_group_ok:
  assumes "head_ok i q u" "\<And>r. sessions_ok r \<Longrightarrow> sessions_ok (others r)"
  shows "step_ok i q (run_group env cfg i worker others stop evs u)"
proof -
  obtain s where ok: "sessions_ok (ru_repository u)" and g: "get_session i (ru_repository u) = Some s" "rs_status s = Rs_Running" "rs_request s = q"
    and k: "rk_end (ru_clock u) = rq_end_at q" "rq_start_at q \<le> rk_now (ru_clock u)" "rk_now (ru_clock u) \<le> rq_end_at q"
    using assms(1) by (auto simp: head_ok_def)
  have s: "rs_replay_id s = i" "session_invariants s" using sessions_ok_get [OF ok g(1)] by simp_all
  let ?u = "u\<lparr>ru_repository := others (ru_repository u)\<rparr>"
  have o: "sessions_ok (others (ru_repository u))" using assms(2) ok .
  show ?thesis
  proof (cases "rs_worker_id s \<noteq> Some worker")
    case True
    then show ?thesis using g ok by (simp add: run_group_def require_session_def step_ok_def)
  next
    case False
    show ?thesis
    proof (cases "advance_to (he_available_at (hd evs)) (ru_clock ?u)")
      case (Inl x)
      then show ?thesis using False g o by (simp add: run_group_def require_session_def step_ok_def)
    next
      case (Inr k')
      have k': "rk_end k' = rq_end_at q" "rq_start_at q \<le> rk_now k'" "rk_now k' \<le> rq_end_at q"
        using advance_to_clock [OF Inr] k by auto
      obtain b r y where p: "process_group env cfg s evs (rk_now k') (ru_bus ?u) (ru_repository ?u) = (b, r, y)" by (metis prod.collapse)
      have r: "sessions_ok r"
        using process_group_ok [OF o s(2), of "rk_now k'" env cfg evs "ru_bus ?u"] g k' p by simp
      show ?thesis
      proof (cases y)
        case (Inl x)
        then show ?thesis using False g \<open>advance_to _ _ = Inr k'\<close> p r by (simp add: run_group_def require_session_def step_ok_def)
      next
        case (Inr s')
        note d = process_group_done [OF p [unfolded Inr]]
        have "head_ok i q \<lparr>ru_repository = r, ru_clock = k', ru_bus = b\<rparr>" using r d g s(1) k' by (auto simp: head_ok_def)
        moreover have "get_session i (ru_repository \<lparr>ru_repository = r, ru_clock = k', ru_bus = b\<rparr>) = Some s'" using d(1) s(1) by simp
        ultimately show ?thesis using after_group_ok False g \<open>advance_to _ _ = Inr k'\<close> p Inr by (simp add: run_group_def require_session_def)
      qed
    qed
  qed
qed

lemma run_groups_ok:
  assumes "\<And>n r. sessions_ok r \<Longrightarrow> sessions_ok (meanwhile n r)"
  shows "head_ok i q u \<Longrightarrow> step_ok i q (run_groups env cfg i worker meanwhile m n groups u)"
proof (induction groups arbitrary: n u)
  case Nil
  then show ?case by (simp add: step_ok_def head_ok_def)
next
  case (Cons g gs)
  obtain u' y where r: "run_group env cfg i worker (meanwhile n) (case m of None \<Rightarrow> False | Some m \<Rightarrow> m \<le> Suc n) g u = (u', y)" by fastforce
  have ok: "step_ok i q (u', y)" using run_group_ok [where others = "meanwhile n", OF Cons.prems assms] unfolding r [symmetric] .
  show ?case
  proof (cases y)
    case (Inl x)
    then show ?thesis using r ok by (simp add: step_ok_def)
  next
    case (Inr x)
    show ?thesis
    proof (cases x)
      case None
      then have "head_ok i q u'" using ok Inr by (simp add: step_ok_def)
      then show ?thesis using r Inr None Cons.IH by simp
    next
      case (Some s)
      then show ?thesis using r Inr ok by simp
    qed
  qed
qed

lemma require_session_Inr: "require_session i r = Inr s \<longleftrightarrow> get_session i r = Some s"
  by (simp add: require_session_def split: option.split)

lemma run_body_ok:
  assumes "\<And>n r. sessions_ok r \<Longrightarrow> sessions_ok (meanwhile n r)" "head_ok i q u"
    and "run_body env cfg i worker meanwhile m groups u = (u', y)"
  shows "sessions_ok (ru_repository u')"
proof -
  obtain v z where v: "run_groups env cfg i worker meanwhile m 0 (fst groups) u = (v, z)" by fastforce
  have ok: "step_ok i q (v, z)" using run_groups_ok [where meanwhile = meanwhile, OF assms(1,2)] unfolding v [symmetric] .
  then have r: "sessions_ok (ru_repository v)" by (simp add: step_ok_def)
  have fin: "sessions_ok (ru_repository (fst (settle env s c t reason v)))" if "require_session i (ru_repository v) = Inr s" for s c t reason
    using settle_ok(1) [OF r] sessions_ok_get [OF r] that by (simp add: require_session_Inr)
  show ?thesis using assms(3) v r
    by (auto simp: run_body_def split: sum.split_asm option.split_asm dest!: fin [of _ "''completed''" Rs_Completed "''source_exhausted''"])
qed

lemma fail_run_ok:
  assumes "sessions_ok (ru_repository u)"
  shows "sessions_ok (ru_repository (fst (fail_run env i x u)))"
proof (cases "require_session i (ru_repository u)")
  case (Inl y)
  then show ?thesis using assms by (simp add: fail_run_def)
next
  case (Inr s)
  let ?f = "\<lparr>rf_category = failure_category_of x, rf_reason_code = error_class x, rf_cursor_at = rk_now (ru_clock u),
      rf_retryable = False, rf_detail = ''Replay processing failed safely''\<rparr>"
  let ?s = "s\<lparr>rs_failure := Some ?f, rs_failed_events := rs_failed_events s + 1, rs_row_version := rs_row_version s + 1\<rparr>"
  have "session_invariants s" using sessions_ok_get [OF assms] Inr by (simp add: require_session_Inr)
  then have "session_invariants ?s" by (simp add: session_invariants_def)
  then have a: "answer_ok (save_session ?s (rs_row_version s) (ru_repository u))" using save_session_answer [OF assms] by blast
  obtain r y where y: "save_session ?s (rs_row_version s) (ru_repository u) = (r, y)" by fastforce
  show ?thesis
  proof (cases y)
    case (Inl e)
    then show ?thesis using Inr y a by (simp add: fail_run_def Let_def answer_ok_def)
  next
    case (Inr s')
    have "sessions_ok r" "session_invariants s'" using a y Inr by (simp_all add: answer_ok_def)
    then have t: "sessions_ok (fst (transition_session env s' Rs_Failed ''processing_failed'' (rk_now (ru_clock u)) r))"
      using transition_answer by (simp add: answer_ok_def)
    obtain r2 z where z: "transition_session env s' Rs_Failed ''processing_failed'' (rk_now (ru_clock u)) r = (r2, z)" by fastforce
    show ?thesis using \<open>require_session i (ru_repository u) = Inr s\<close> y Inr t \<open>sessions_ok r\<close> z by (simp add: fail_run_def Let_def)
  qed
qed

lemma finish_run_ok: "sessions_ok (ru_repository u) \<Longrightarrow> sessions_ok (fst (finish_run i worker u y))"
  using release_answer [of "ru_repository u" i worker]
  by (auto simp: finish_run_def split: option.split prod.split sum.split)

text \<open>The clock of a valid session.\<close>

lemma session_clock:
  assumes "bindE (new_clock (rq_start_at q) (rq_end_at q)) (restore_clock t) = Inr k"
  shows "rk_end k = rq_end_at q \<and> rk_now k = t \<and> rk_start k = rq_start_at q \<and> \<not> rk_frozen k
     \<and> rq_start_at q \<le> t \<and> t \<le> rq_end_at q"
  using assms by (auto simp: new_clock_def restore_clock_def bindE_eq_Inr split: if_split_asm)


lemma lease_done:
  assumes "acquire_lease i w now n v r = (r', Inr s')"
  shows "\<exists>s. get_session i r = Some s \<and> rs_row_version s = v
      \<and> s' = s\<lparr>rs_worker_id := Some w, rs_heartbeat_at := Some now, rs_lease_expires_at := Some (now + seconds_td n), rs_row_version := v + 1\<rparr>"
    "get_session i r' = Some s'" "rr_checkpoints r' = rr_checkpoints r"
  using assms by (auto simp: acquire_lease_def get_session_def Let_def update_conv' split: option.split_asm if_split_asm)

text \<open>The state in which the body of a run starts.\<close>

definition start_state :: "replay_session \<Rightarrow> replay_clock \<Rightarrow> replay_repository \<Rightarrow> run_state" where
  "start_state s k r = \<lparr>ru_repository = r, ru_clock = k,
     ru_bus = new_replay_bus (rs_replay_id s) (ds_dataset_id (rq_dataset (rs_request s))) (ds_dataset_version (rq_dataset (rs_request s)))\<rparr>"

lemma run_replay_cases:
  obtains (refused) e where "run_replay env cfg i worker now meanwhile m r = (r, Inl e)"
  | (unleased) s e where "get_session i r = Some s" "run_replay env cfg i worker now meanwhile m r
        = (fst (acquire_lease i worker now (rg_lease_seconds cfg) (rs_row_version s) r), Inl e)"
  | (body) s0 r1 s k sources u' y where "get_session i r = Some s0" "rs_status s0 = Rs_Running"
      "acquire_lease i worker now (rg_lease_seconds cfg) (rs_row_version s0) r = (r1, Inr s)"
      "bindE (new_clock (rq_start_at (rs_request s)) (rq_end_at (rs_request s))) (restore_clock (rs_virtual_cursor_at s)) = Inr k"
      "resolve_sources (rv_sources env) (rq_source_names (rs_request s)) = Inr sources"
      "run_body env cfg i worker meanwhile m (replay_groups env cfg s sources) (start_state s k r1) = (u', y)"
      "run_replay env cfg i worker now meanwhile m r = (case y of Inr s' \<Rightarrow> finish_run i worker u' y
         | Inl x \<Rightarrow> finish_run i worker (fst (fail_run env i x u')) (snd (fail_run env i x u')))"
proof (cases "get_session i r")
  case None
  then show ?thesis using refused by (simp add: run_replay_def require_session_def)
next
  case (Some s0)
  show ?thesis
  proof (cases "rs_status s0 = Rs_Running")
    case False
    then show ?thesis using Some refused by (simp add: run_replay_def require_session_def)
  next
    case run: True
    obtain r1 z where z: "acquire_lease i worker now (rg_lease_seconds cfg) (rs_row_version s0) r = (r1, z)" by fastforce
    show ?thesis
    proof (cases z)
      case (Inl e)
      then show ?thesis using z Some run unleased by (simp add: run_replay_def require_session_def)
    next
      case s: (Inr s)
      show ?thesis
      proof (cases "bindE (new_clock (rq_start_at (rs_request s)) (rq_end_at (rs_request s))) (restore_clock (rs_virtual_cursor_at s))")
        case (Inl e)
        then show ?thesis using z s Some run unleased by (simp add: run_replay_def require_session_def)
      next
        case k: (Inr k)
        show ?thesis
        proof (cases "resolve_sources (rv_sources env) (rq_source_names (rs_request s))")
          case (Inl e)
          then show ?thesis using z s Some run k unleased by (simp add: run_replay_def require_session_def)
        next
          case src: (Inr sources)
          obtain u' y where b: "run_body env cfg i worker meanwhile m (replay_groups env cfg s sources) (start_state s k r1) = (u', y)" by fastforce
          have "run_replay env cfg i worker now meanwhile m r = (case y of Inr s' \<Rightarrow> finish_run i worker u' y
             | Inl x \<Rightarrow> finish_run i worker (fst (fail_run env i x u')) (snd (fail_run env i x u')))"
            using z s Some run k src b by (simp add: run_replay_def require_session_def start_state_def Let_def split: sum.split prod.split)
          then show ?thesis by (rule body [OF Some run z [unfolded s] k src b])
        qed
      qed
    qed
  qed
qed

lemma start_head:
  assumes "sessions_ok r" "get_session i r = Some s0" "rs_status s0 = Rs_Running" "acquire_lease i worker now n (rs_row_version s0) r = (r1, Inr s)"
    "bindE (new_clock (rq_start_at (rs_request s)) (rq_end_at (rs_request s))) (restore_clock (rs_virtual_cursor_at s)) = Inr k"
  shows "head_ok i (rs_request s) (start_state s k r1)" "rs_replay_id s = i" "rs_worker_id s = Some worker"
proof -
  have a: "sessions_ok r1" using lease_answer [OF assms(1), of i worker now n "rs_row_version s0"] assms(4) by (simp add: answer_ok_def)
  note d = lease_done [OF assms(4)]
  have run: "rs_status s = Rs_Running" "rs_worker_id s = Some worker" using d(1) assms(2,3) by auto
  show "head_ok i (rs_request s) (start_state s k r1)" using a d(2) run(1) session_clock [OF assms(5)] by (simp add: head_ok_def start_state_def)
  show "rs_replay_id s = i" using sessions_ok_get [OF a d(2)] by simp
  show "rs_worker_id s = Some worker" by (rule run(2))
qed

lemma run_replay_ok:
  assumes "sessions_ok r" "\<And>n r. sessions_ok r \<Longrightarrow> sessions_ok (meanwhile n r)"
  shows "sessions_ok (fst (run_replay env cfg i worker now meanwhile m r))"
proof (cases rule: run_replay_cases [where env = env and cfg = cfg and i = i and worker = worker and now = now and meanwhile = meanwhile and m = m and r = r])
  case (unleased s e)
  then show ?thesis using lease_answer [OF assms(1)] by (simp add: answer_ok_def)
next
  case (body s0 r1 s k sources u' y)
  have u': "sessions_ok (ru_repository u')"
    by (rule run_body_ok [OF assms(2) start_head(1) [OF assms(1) body(1-4)] body(6)])
  show ?thesis unfolding body(7) using finish_run_ok [OF u'] finish_run_ok [OF fail_run_ok [OF u']] by (simp split: sum.split)
qed (use assms(1) in simp)

text \<open>Claim C17: a run of a replay keeps every stored session valid: its identity, its cursor within the requested
  interval, a progress between 0 and 100 that is 100 once it is completed, counters that are not negative, a version
  of at least one and no lease without a worker, whatever the processors answer and whichever way the run ends, as
  long as what other tasks do between the groups keeps the sessions valid too. So does a run of the service.\<close>

theorem run_keeps_sessions_valid:
  assumes "sessions_ok (rw_repository w)" "\<And>n r. sessions_ok r \<Longrightarrow> sessions_ok (meanwhile n r)"
  shows "sessions_ok (fst (run_replay env cfg i worker now meanwhile m (rw_repository w)))
     \<and> sessions_ok (rw_repository (fst (service_run env cfg accepts i worker now meanwhile w)))"
proof -
  have run: "sessions_ok (fst (run_replay env cfg i worker now meanwhile m' (rw_repository w)))" for m'
    using run_replay_ok [where meanwhile = meanwhile, OF assms] .
  have published: "rw_repository (publish_lifecycle cfg accepts k s w') = rw_repository w'" for k s w'
    by (simp add: publish_lifecycle_def measure_with_def)
  have "rw_repository (fst (service_run env cfg accepts i worker now meanwhile w)) = fst (run_replay env cfg i worker now meanwhile None (rw_repository w))"
    by (auto simp: service_run_def with_repository_def published measure_with_def split: sum.split)
  then show ?thesis using run by simp
qed


subsection \<open>Commands while a group is processed\<close>

definition working :: "replay_status \<Rightarrow> bool" where
  "working s \<longleftrightarrow> s \<in> {Rs_Running, Rs_Pausing, Rs_Cancelling, Rs_Resuming, Rs_Recovering}"

text \<open>The \<open>except\<close> block marks the session failed.\<close>

lemma fail_run_marks:
  assumes "get_session i (ru_repository u) = Some s" "rs_replay_id s = i" "working (rs_status s)"
  shows "\<exists>u' s'. fail_run env i x u = (u', Inr s') \<and> rs_status s' = Rs_Failed \<and> get_session i (ru_repository u') = Some s'
     \<and> rs_worker_id s' = rs_worker_id s \<and> rs_replay_id s' = i \<and> rs_processed_events s' = rs_processed_events s \<and> map_option rf_category (rs_failure s') = Some (failure_category_of x)"
proof -
  let ?f = "\<lparr>rf_category = failure_category_of x, rf_reason_code = error_class x, rf_cursor_at = rk_now (ru_clock u),
      rf_retryable = False, rf_detail = ''Replay processing failed safely''\<rparr>"
  let ?s = "s\<lparr>rs_failure := Some ?f, rs_failed_events := rs_failed_events s + 1, rs_row_version := rs_row_version s + 1\<rparr>"
  let ?r = "(ru_repository u)\<lparr>rr_sessions := AList.update i ?s (rr_sessions (ru_repository u))\<rparr>"
  have save: "save_session ?s (rs_row_version s) (ru_repository u) = (?r, Inr ?s)"
    using save_session_accepts [of ?s "ru_repository u" s "rs_row_version s"] assms(1,2) by simp
  have "get_session (rs_replay_id ?s) ?r = Some ?s" using get_session_updated [of i ?s "ru_repository u"] assms(2) by simp
  moreover have "Rs_Failed \<in> set (transitions (rs_status ?s))" using assms(3) by (auto simp: working_def transitions_def)
  ultimately obtain r' where t: "transition_session env ?s Rs_Failed ''processing_failed'' (rk_now (ru_clock u)) ?r = (r', Inr (moved Rs_Failed (rk_now (ru_clock u)) ?s))"
    "get_session (rs_replay_id ?s) r' = Some (moved Rs_Failed (rk_now (ru_clock u)) ?s)"
    using transition_accepts [of ?s ?r Rs_Failed env "''processing_failed''" "rk_now (ru_clock u)"] by blast
  have "require_session i (ru_repository u) = Inr s" using assms(1) by (simp add: require_session_Inr)
  then have "fail_run env i x u = (u\<lparr>ru_repository := r'\<rparr>, Inr (moved Rs_Failed (rk_now (ru_clock u)) ?s))"
    using save t(1) assms(3) by (simp add: fail_run_def Let_def working_def)
  then show ?thesis using t(2) assms(2) by simp
qed

text \<open>The \<open>finally\<close> block gives the lease back and keeps the result.\<close>

lemma finish_run_keeps:
  assumes "get_session i (ru_repository u) = Some s" "rs_replay_id s = i" "rs_worker_id s = Some worker"
  shows "\<exists>r' s'. finish_run i worker u y = (r', y) \<and> get_session i r' = Some s' \<and> rs_status s' = rs_status s \<and> rs_worker_id s' = None
     \<and> rs_processed_events s' = rs_processed_events s \<and> rs_failure s' = rs_failure s"
proof -
  let ?s = "s\<lparr>rs_worker_id := None, rs_heartbeat_at := None, rs_lease_expires_at := None, rs_row_version := rs_row_version s + 1\<rparr>"
  have "save_session ?s (rs_row_version s) (ru_repository u)
      = ((ru_repository u)\<lparr>rr_sessions := AList.update i ?s (rr_sessions (ru_repository u))\<rparr>, Inr ?s)"
    using save_session_accepts [of ?s "ru_repository u" s "rs_row_version s"] assms(1,2) by simp
  then show ?thesis using assms get_session_updated [of i ?s "ru_repository u"] by (simp add: finish_run_def release_lease_def)
qed

text \<open>A group whose session has another version when it is written.\<close>

lemma process_group_conflict:
  assumes "get_session (rs_replay_id s) r = Some c" "rs_row_version c \<noteq> rs_row_version s"
  shows "\<exists>b' x. process_group env cfg s evs now b r = (b', r, Inl x)"
proof -
  have "save_session (advanced env s evs now g) (rs_row_version s) r = (r, Inl (Replay_Concurrency ''replay session version conflict''))" for g
    using assms by (simp add: save_session_def get_session_def)
  then show ?thesis by (auto simp: process_group_def split: prod.split sum.split)
qed

lemma run_group_conflict:
  assumes "get_session i (ru_repository u) = Some s" "rs_replay_id s = i" "rs_status s = Rs_Running" "rs_worker_id s = Some worker"
    and "get_session i (others (ru_repository u)) = Some c" "rs_row_version c \<noteq> rs_row_version s"
  shows "\<exists>u' x. run_group env cfg i worker others stop evs u = (u', Inl x) \<and> ru_repository u' = others (ru_repository u)"
proof -
  have s: "require_session i (ru_repository u) = Inr s" using assms(1) by (simp add: require_session_Inr)
  show ?thesis
  proof (cases "advance_to (he_available_at (hd evs)) (ru_clock u)")
    case (Inl x)
    then show ?thesis using s assms(3,4) by (simp add: run_group_def)
  next
    case (Inr k)
    obtain b x where "process_group env cfg s evs (rk_now k) (ru_bus u) (others (ru_repository u)) = (b, others (ru_repository u), Inl x)"
      using process_group_conflict [of s "others (ru_repository u)" c env cfg evs "rk_now k" "ru_bus u"] assms(2,5,6) by blast
    then show ?thesis using s Inr assms(3,4) by (simp add: run_group_def)
  qed
qed

lemma pause_while_leased:
  assumes "get_session i r = Some s" "rs_replay_id s = i" "rs_status s = Rs_Running" "rs_worker_id s \<noteq> None"
    and "command = service_pause env cfg accepts \<or> command = service_cancel env cfg accepts"
  shows "\<exists>c. get_session i (rw_repository (fst (command i t (w\<lparr>rw_repository := r\<rparr>)))) = Some c \<and> rs_row_version c = rs_row_version s + 1
     \<and> rs_replay_id c = i \<and> rs_worker_id c = rs_worker_id s \<and> rs_processed_events c = rs_processed_events s \<and> rs_status c \<in> {Rs_Pausing, Rs_Cancelling}"
proof -
  have tr: "target \<in> {Rs_Pausing, Rs_Cancelling} \<Longrightarrow> target \<in> set (transitions (rs_status s))" for target
    using assms(3) by (auto simp: transitions_def)
  obtain p where p: "transition_session env s Rs_Pausing ''pause_requested'' t r = (p, Inr (moved Rs_Pausing t s))"
      "get_session i p = Some (moved Rs_Pausing t s)"
    using transition_accepts [of s r Rs_Pausing env "''pause_requested''" t] tr assms(1,2) by auto
  obtain q where q: "transition_session env s Rs_Cancelling ''cancel_requested'' t r = (q, Inr (moved Rs_Cancelling t s))"
      "get_session i q = Some (moved Rs_Cancelling t s)"
    using transition_accepts [of s r Rs_Cancelling env "''cancel_requested''" t] tr assms(1,2) by auto
  have "find_replay i (w\<lparr>rw_repository := r\<rparr>) = Inr s" using assms(1) by (simp add: find_replay_def)
  then show ?thesis using assms p q by (auto simp: service_pause_def service_cancel_def with_repository_def)
qed

text \<open>The session as the worker has it once it holds the lease, and the repository then.\<close>

abbreviation leased :: "replay_config \<Rightarrow> string \<Rightarrow> instant \<Rightarrow> replay_session \<Rightarrow> replay_session" where
  "leased cfg worker now s \<equiv> s\<lparr>rs_worker_id := Some worker, rs_heartbeat_at := Some now,
     rs_lease_expires_at := Some (now + seconds_td (rg_lease_seconds cfg)), rs_row_version := rs_row_version s + 1\<rparr>"

abbreviation holding :: "uuid \<Rightarrow> replay_session \<Rightarrow> replay_repository \<Rightarrow> replay_repository" where
  "holding i s r \<equiv> r\<lparr>rr_sessions := AList.update i s (rr_sessions r)\<rparr>"

text \<open>A run that can start: the session is running and without a worker, its clock and its sources are in order, and
  there is a first group.\<close>

definition run_starts :: "replay_env \<Rightarrow> replay_config \<Rightarrow> uuid \<Rightarrow> replay_session \<Rightarrow> replay_repository \<Rightarrow> bool" where
  "run_starts env cfg i s r \<longleftrightarrow> get_session i r = Some s \<and> rs_replay_id s = i \<and> rs_status s = Rs_Running \<and> rs_worker_id s = None
     \<and> rq_start_at (rs_request s) < rq_end_at (rs_request s)
     \<and> rq_start_at (rs_request s) \<le> rs_virtual_cursor_at s \<and> rs_virtual_cursor_at s \<le> rq_end_at (rs_request s)
     \<and> (case resolve_sources (rv_sources env) (rq_source_names (rs_request s)) of
          Inl _ \<Rightarrow> False | Inr sources \<Rightarrow> fst (replay_groups env cfg s sources) \<noteq> [])"

lemma conflict_run:
  assumes "run_starts env cfg i s0 r0" "get_session i (meanwhile 0 (holding i (leased cfg worker now s0) r0)) = Some c"
    and "rs_row_version c \<noteq> rs_row_version s0 + 1" "rs_replay_id c = i" "working (rs_status c)"
  shows "\<exists>u x. run_replay env cfg i worker now meanwhile m r0 = finish_run i worker u (Inr x) \<and> get_session i (ru_repository u) = Some x
     \<and> rs_replay_id x = i \<and> rs_status x = Rs_Failed \<and> rs_failure x \<noteq> None \<and> rs_worker_id x = rs_worker_id c
     \<and> rs_processed_events x = rs_processed_events c"
proof -
  have s0: "get_session i r0 = Some s0" "rs_replay_id s0 = i" "rs_status s0 = Rs_Running" "rs_worker_id s0 = None" using assms(1) by (auto simp: run_starts_def)
  obtain sources evs later where src: "resolve_sources (rv_sources env) (rq_source_names (rs_request s0)) = Inr sources"
      "fst (replay_groups env cfg s0 sources) = evs # later"
    using assms(1) by (auto simp: run_starts_def neq_Nil_conv split: sum.split_asm)
  obtain k where k: "bindE (new_clock (rq_start_at (rs_request s0)) (rq_end_at (rs_request s0))) (restore_clock (rs_virtual_cursor_at s0)) = Inr k"
    using assms(1) by (auto simp: run_starts_def new_clock_def restore_clock_def)
  define s1 where "s1 = leased cfg worker now s0"
  define r where "r = holding i s1 r0"
  have lease: "acquire_lease i worker now (rg_lease_seconds cfg) (rs_row_version s0) r0 = (r, Inr s1)"
    using s0 by (simp add: acquire_lease_def get_session_def Let_def r_def s1_def)
  have here: "get_session i r = Some s1" unfolding r_def by (rule get_session_updated)
  have s1: "rs_replay_id s1 = i" "rs_status s1 = Rs_Running" "rs_worker_id s1 = Some worker"
    "rs_request s1 = rs_request s0" "rs_virtual_cursor_at s1 = rs_virtual_cursor_at s0" "rs_last_ordering_key s1 = rs_last_ordering_key s0"
    using s0 by (simp_all add: s1_def)
  have c: "get_session i (meanwhile 0 r) = Some c" "rs_row_version c \<noteq> rs_row_version s1"
    using assms(2,3) unfolding r_def s1_def by simp_all
  let ?u = "start_state s1 k r"
  have u: "ru_repository ?u = r" by (simp add: start_state_def)
  obtain u' e where g: "run_group env cfg i worker (meanwhile 0) (case m of None \<Rightarrow> False | Some m \<Rightarrow> m \<le> Suc 0) evs ?u = (u', Inl e)"
      "ru_repository u' = meanwhile 0 r"
    using run_group_conflict [where u = ?u and others = "meanwhile 0", unfolded u, OF here s1(1-3) c] by blast
  have groups: "fst (replay_groups env cfg s1 sources) = evs # later" using src(2) by (simp add: replay_groups_def s1)
  have body: "run_body env cfg i worker meanwhile m (replay_groups env cfg s1 sources) ?u = (u', Inl e)"
    unfolding run_body_def groups using g(1) by simp
  have there: "get_session i (ru_repository u') = Some c" using c(1) unfolding g(2) .
  obtain u2 x where f: "fail_run env i e u' = (u2, Inr x)" "rs_status x = Rs_Failed" "get_session i (ru_repository u2) = Some x"
      "rs_worker_id x = rs_worker_id c" "rs_replay_id x = i" "rs_processed_events x = rs_processed_events c" "rs_failure x \<noteq> None"
    using fail_run_marks [OF there assms(4,5), of env e] by (metis option.map_disc_iff option.distinct(1))
  have "run_replay env cfg i worker now meanwhile m r0 = finish_run i worker u2 (Inr x)"
    using s0 src(1) k lease body [unfolded start_state_def] f(1) by (simp add: run_replay_def require_session_def Let_def s1)
  then show ?thesis using f by blast
qed

text \<open>Claim C18: a pause or a cancellation that arrives while a worker is processing the first group of a replay makes the
  run fail: the group is written against the version that was read before it, so the write conflicts, and the
  session ends failed instead of pausing or being cancelled at a safe boundary.\<close>

theorem command_during_group_fails_run:
  assumes "run_starts env cfg i s0 (rw_repository w)" "command = service_pause env cfg accepts \<or> command = service_cancel env cfg accepts"
    and "\<And>q. meanwhile 0 q = rw_repository (fst (command i t (w\<lparr>rw_repository := q\<rparr>)))"
  shows "\<exists>r' x s. run_replay env cfg i worker now meanwhile m (rw_repository w) = (r', Inr x) \<and> rs_status x = Rs_Failed
     \<and> get_session i r' = Some s \<and> rs_status s = Rs_Failed \<and> rs_failure s \<noteq> None \<and> rs_worker_id s = None
     \<and> rs_processed_events s = rs_processed_events s0"
proof -
  let ?s = "leased cfg worker now s0" and ?r = "holding i (leased cfg worker now s0) (rw_repository w)"
  have s0: "rs_replay_id s0 = i" "rs_status s0 = Rs_Running" using assms(1) by (auto simp: run_starts_def)
  obtain c where c: "get_session i (meanwhile 0 ?r) = Some c" "rs_row_version c = rs_row_version s0 + 1 + 1" "rs_replay_id c = i"
      "rs_worker_id c = Some worker" "rs_processed_events c = rs_processed_events s0" "working (rs_status c)"
    using pause_while_leased [OF get_session_updated [of i ?s "rw_repository w"] _ _ _ assms(2), of t w] s0 unfolding assms(3) by (auto simp: working_def)
  have "rs_row_version c \<noteq> rs_row_version s0 + 1" using c(2) by simp
  then obtain u x where x: "run_replay env cfg i worker now meanwhile m (rw_repository w) = finish_run i worker u (Inr x)"
      "get_session i (ru_repository u) = Some x" "rs_replay_id x = i" "rs_status x = Rs_Failed" "rs_failure x \<noteq> None" "rs_worker_id x = rs_worker_id c"
      "rs_processed_events x = rs_processed_events c"
    using conflict_run [where meanwhile = meanwhile, OF assms(1) c(1) _ c(3,6)] by blast
  show ?thesis using finish_run_keeps [OF x(2,3), of worker "Inr x"] x c(4,5) by auto
qed

text \<open>Claim C19: a worker takes the lease of a session once, at the start of its run, and never renews it. Another worker that
  asks for the lease during the first group of that run is refused while it has not expired; one that takes
  the expired lease during the first group makes the first worker fail, and that worker then marks the session
  failed although the other one holds it.\<close>

theorem expired_lease_fails_session:
  assumes "run_starts env cfg i s0 r" "other \<noteq> worker"
    and "meanwhile 0 = (\<lambda>q. fst (acquire_lease i other t (rg_lease_seconds cfg) (rs_row_version s0 + 1) q))"
  shows "if t < now + seconds_td (rg_lease_seconds cfg)
    then acquire_lease i other t (rg_lease_seconds cfg) (rs_row_version s0 + 1) (holding i (leased cfg worker now s0) r)
       = (holding i (leased cfg worker now s0) r, Inl (Replay_Concurrency ''replay session has an active worker lease''))
    else \<exists>r' x. run_replay env cfg i worker now meanwhile m r = (r', Inr x) \<and> get_session i r' = Some x
       \<and> rs_status x = Rs_Failed \<and> rs_worker_id x = Some other"
proof (cases "t < now + seconds_td (rg_lease_seconds cfg)")
  case True
  then show ?thesis using assms(2) get_session_updated [of i "leased cfg worker now s0" r] by (simp add: acquire_lease_def get_session_def)
next
  case False
  let ?r = "holding i (leased cfg worker now s0) r"
  define c where "c = (leased cfg worker now s0)\<lparr>rs_worker_id := Some other, rs_heartbeat_at := Some t,
     rs_lease_expires_at := Some (t + seconds_td (rg_lease_seconds cfg)), rs_row_version := rs_row_version s0 + 1 + 1\<rparr>"
  have "fst (acquire_lease i other t (rg_lease_seconds cfg) (rs_row_version s0 + 1) ?r) = holding i c ?r"
    using False get_session_updated [of i "leased cfg worker now s0" r] by (simp add: acquire_lease_def get_session_def Let_def c_def)
  then have got: "get_session i (meanwhile 0 ?r) = Some c" unfolding assms(3) using get_session_updated by metis
  have c: "rs_row_version c \<noteq> rs_row_version s0 + 1" "rs_replay_id c = i" "working (rs_status c)" "rs_worker_id c = Some other"
    using assms(1) by (simp_all add: c_def run_starts_def working_def)
  from conflict_run [where meanwhile = meanwhile and m = m, OF assms(1) got c(1-3)]
  obtain u x where x: "run_replay env cfg i worker now meanwhile m r = finish_run i worker u (Inr x)" "get_session i (ru_repository u) = Some x"
      "rs_status x = Rs_Failed" "rs_worker_id x = rs_worker_id c" by blast
  have "finish_run i worker u (Inr x) = (ru_repository u, Inr x)" using x(2,4) c(4) assms(2) by (simp add: finish_run_def)
  then show ?thesis using False x c(4) by auto
qed

subsection \<open>Checkpoints are numbered only as far as the first page\<close>

definition checkpoints_upto :: "uuid \<Rightarrow> nat \<Rightarrow> replay_repository \<Rightarrow> bool" where
  "checkpoints_upto i n r \<longleftrightarrow> map cp_sequence (entries_of (rr_checkpoints r) i) = map int [1..<Suc n]"

lemma next_sequence_upto:
  assumes "checkpoints_upto i n r"
  shows "next_sequence i r = int (min n 100) + 1"
proof -
  let ?vs = "entries_of (rr_checkpoints r) i"
  have vs: "map cp_sequence ?vs = map int [1..<Suc n]" using assms by (simp add: checkpoints_upto_def)
  have "sorted (map cp_sequence ?vs)" unfolding vs by (simp add: sorted_map del: upt_Suc)
  then have sorted: "sort_key cp_sequence ?vs = ?vs" by (rule sort_key_id_if_sorted)
  have len: "length ?vs = n" using arg_cong [OF vs, of length] by simp
  show ?thesis
  proof (cases "n = 0")
    case True
    then show ?thesis using len by (simp add: next_sequence_def latest_checkpoint_def list_checkpoints_def page_def sorted)
  next
    case False
    let ?m = "min n 100"
    have ne: "take 100 ?vs \<noteq> []" "0 < ?m" using len False by (auto simp: min_def)
    have "last (take 100 ?vs) = ?vs ! (?m - 1)" using ne len by (simp add: last_conv_nth min.commute)
    moreover have "map cp_sequence ?vs ! (?m - 1) = int ?m" unfolding vs using ne(2) by (simp add: nth_append of_nat_diff del: upt_Suc)
    then have "cp_sequence (?vs ! (?m - 1)) = int ?m" using ne(2) len by simp
    ultimately show ?thesis using ne(1) by (simp add: next_sequence_def latest_checkpoint_def list_checkpoints_def page_def sorted)
  qed
qed

lemma checkpoint_hash: "calculated_state_hash (rv_runtime env) (rv_checkpoint_json env) (checkpoint_of env s n reason) = cp_state_hash (checkpoint_of env s n reason)"
  by (simp add: checkpoint_of_def calculated_state_hash_def Let_def)

lemma checkpoint_of_fields [simp]:
  "cp_replay_id (checkpoint_of env s n reason) = rs_replay_id s" "cp_sequence (checkpoint_of env s n reason) = n"
  by (simp_all add: checkpoint_of_def Let_def)

text \<open>The checkpoint that \<open>take_checkpoint\<close> would write next.\<close>

abbreviation next_checkpoint :: "replay_env \<Rightarrow> replay_session \<Rightarrow> string \<Rightarrow> replay_repository \<Rightarrow> replay_checkpoint" where
  "next_checkpoint env s reason r \<equiv> checkpoint_of env s (next_sequence (rs_replay_id s) r) reason"

lemma checkpoints_upto_last:
  assumes "checkpoints_upto i n r" "0 < n"
  shows "entries_of (rr_checkpoints r) i \<noteq> [] \<and> cp_sequence (last (entries_of (rr_checkpoints r) i)) = int n"
proof -
  let ?vs = "entries_of (rr_checkpoints r) i"
  have vs: "map cp_sequence ?vs = map int [1..<Suc n]" using assms(1) by (simp add: checkpoints_upto_def)
  then have "?vs \<noteq> []" using assms(2) by auto
  moreover have "last (map cp_sequence ?vs) = int n" unfolding vs using assms(2) by simp
  ultimately show ?thesis by (simp add: last_map)
qed

lemma take_checkpoint_within:
  assumes "get_session (rs_replay_id s) r = Some s" "checkpoints_upto (rs_replay_id s) n r" "n \<le> 100"
    and "cp_checkpoint_id (next_checkpoint env s reason r) \<notin> cp_checkpoint_id ` set (entries_of (rr_checkpoints r) (rs_replay_id s))"
    and "s' = s\<lparr>rs_latest_checkpoint_id := Some (cp_checkpoint_id (next_checkpoint env s reason r)), rs_row_version := rs_row_version s + 1\<rparr>"
  shows "\<exists>r'. take_checkpoint env s reason r = (r', Inr s') \<and> checkpoints_upto (rs_replay_id s) (Suc n) r' \<and> get_session (rs_replay_id s) r' = Some s'"
proof -
  let ?i = "rs_replay_id s" and ?c = "next_checkpoint env s reason r"
  let ?vs = "entries_of (rr_checkpoints r) ?i"
  define r1 where "r1 = r\<lparr>rr_checkpoints := AList.update ?i (?vs @ [?c]) (rr_checkpoints r)\<rparr>"
  have seq: "cp_sequence ?c = int n + 1" using next_sequence_upto [OF assms(2)] assms(3) by simp
  have new: "\<not> list_ex (\<lambda>x. cp_checkpoint_id x = cp_checkpoint_id ?c) ?vs" using assms(4) by (fastforce simp: list_ex_iff image_iff)
  have fits: "\<not> (?vs \<noteq> [] \<and> cp_sequence ?c \<noteq> cp_sequence (last ?vs) + 1)"
    using checkpoints_upto_last [OF assms(2)] assms(2) seq by (cases "n = 0") (auto simp: checkpoints_upto_def)
  have save: "save_checkpoint (rv_runtime env) (rv_checkpoint_json env) ?c r = (r1, Inr ?c)"
    using new fits checkpoint_hash [of env s "next_sequence ?i r" reason] unfolding save_checkpoint_def r1_def Let_def by simp
  have got: "get_session ?i r1 = Some s" using assms(1) by (simp add: r1_def get_session_def)
  have "take_checkpoint env s reason r = save_session s' (rs_row_version s) r1" using save unfolding assms(5) by (simp add: take_checkpoint_def Let_def)
  also have "\<dots> = (r1\<lparr>rr_sessions := AList.update ?i s' (rr_sessions r1)\<rparr>, Inr s')"
    using save_session_accepts [of s' r1 s "rs_row_version s"] got unfolding assms(5) by simp
  finally have t: "take_checkpoint env s reason r = (r1\<lparr>rr_sessions := AList.update ?i s' (rr_sessions r1)\<rparr>, Inr s')" .
  have "entries_of (rr_checkpoints r1) ?i = ?vs @ [?c]" by (simp add: r1_def entries_of_def update_conv')
  then have "checkpoints_upto ?i (Suc n) (r1\<lparr>rr_sessions := AList.update ?i s' (rr_sessions r1)\<rparr>)"
    using assms(2) seq by (simp add: checkpoints_upto_def)
  then show ?thesis using t get_session_updated [of ?i s' r1] by simp
qed

lemma take_checkpoint_beyond:
  assumes "checkpoints_upto (rs_replay_id s) n r" "100 < n"
    and "cp_checkpoint_id (next_checkpoint env s reason r) \<notin> cp_checkpoint_id ` set (entries_of (rr_checkpoints r) (rs_replay_id s))"
  shows "snd (take_checkpoint env s reason r) = Inl (Replay_Checkpoint ''checkpoint sequence must increase exactly once'')"
proof -
  let ?i = "rs_replay_id s" and ?c = "next_checkpoint env s reason r"
  let ?vs = "entries_of (rr_checkpoints r) ?i"
  have seq: "cp_sequence ?c = 101" using next_sequence_upto [OF assms(1)] assms(2) by simp
  have new: "\<not> list_ex (\<lambda>x. cp_checkpoint_id x = cp_checkpoint_id ?c) ?vs" using assms(3) by (fastforce simp: list_ex_iff image_iff)
  have "?vs \<noteq> [] \<and> cp_sequence ?c \<noteq> cp_sequence (last ?vs) + 1" using checkpoints_upto_last [OF assms(1)] assms(2) seq by simp
  then have "\<exists>r'. save_checkpoint (rv_runtime env) (rv_checkpoint_json env) ?c r
      = (r', Inl (Replay_Checkpoint ''checkpoint sequence must increase exactly once''))"
    using new checkpoint_hash [of env s "next_sequence ?i r" reason] unfolding save_checkpoint_def Let_def by simp
  then show ?thesis by (auto simp: take_checkpoint_def Let_def)
qed

text \<open>Claim C20: the in-memory repository numbers a checkpoint after the last of its first hundred. When a policy checkpoint
  with an identifier of its own is due after a group and the session holds the checkpoints 1 to n, it is stored as
  number n + 1 if n is at most 100; with n above 100 it is refused for its number, and the group ends in that
  error. (A checkpoint whose identifier is stored already is not stored again and raises nothing: so ends a replay
  that has checkpointed each of exactly 101 groups, whose final checkpoint repeats the identifier of number 101.)\<close>

theorem checkpoint_capacity:
  assumes "get_session (rs_replay_id s) (ru_repository u) = Some s" "checkpoints_upto (rs_replay_id s) n (ru_repository u)"
    and "cp_checkpoint_id (next_checkpoint env s ''policy'' (ru_repository u))
       \<notin> cp_checkpoint_id ` set (entries_of (rr_checkpoints (ru_repository u)) (rs_replay_id s))"
    and "checkpoint_due cfg s"
  shows "if n \<le> 100
    then \<exists>r s'. take_checkpoint env s ''policy'' (ru_repository u) = (r, Inr s') \<and> checkpoints_upto (rs_replay_id s) (n + 1) r
      \<and> after_group env cfg False s u = (u\<lparr>ru_repository := r\<rparr>, Inr None)
    else snd (after_group env cfg stop s u) = Inl (Replay_Checkpoint ''checkpoint sequence must increase exactly once'')"
proof (cases "n \<le> 100")
  case True
  then show ?thesis using take_checkpoint_within [OF assms(1,2) True assms(3) refl] assms(4) by (auto simp: after_group_def)
next
  case False
  then have "snd (take_checkpoint env s ''policy'' (ru_repository u)) = Inl (Replay_Checkpoint ''checkpoint sequence must increase exactly once'')"
    using take_checkpoint_beyond [OF assms(2) _ assms(3)] by simp
  then show ?thesis using False assms(4) by (auto simp: after_group_def split: prod.split)
qed


subsection \<open>A quiet replay completes\<close>

text \<open>Processors that answer nothing.\<close>

definition quiet_env :: "replay_env \<Rightarrow> string list \<Rightarrow> bool" where
  "quiet_env env names \<longleftrightarrow> (\<forall>n \<in> set names. \<forall>p. map_of (rv_processors env) n = Some p
     \<longrightarrow> (\<forall>e t. p e t = Inr \<lparr>pr_generated_events = [], pr_outputs = []\<rparr>))"

definition bus_serves :: "replay_request \<Rightarrow> replay_bus \<Rightarrow> bool" where
  "bus_serves q b \<longleftrightarrow> \<not> bs_closed b \<and> bs_handlers b = [] \<and> bs_dataset_id b = ds_dataset_id (rq_dataset q)
     \<and> bs_dataset_version b = ds_dataset_version (rq_dataset q)"

definition of_dataset :: "replay_request \<Rightarrow> historical_event \<Rightarrow> bool" where
  "of_dataset q h \<longleftrightarrow> he_dataset_id h = ds_dataset_id (rq_dataset q) \<and> he_dataset_version h = ds_dataset_version (rq_dataset q)"

lemma call_quiet: "quiet_env env names \<Longrightarrow> call_processors env names e now = Inr ([], [])"
  by (induction names) (auto simp: quiet_env_def split: option.split)

lemma process_event_quiet:
  assumes "quiet_env env (rq_engine_selection (rs_request s))" "bus_serves q (gp_bus g)" "of_dataset q h" "he_available_at h \<le> now"
  shows "\<exists>g'. process_event env cfg s now h g = (g', Inr ()) \<and> bus_serves q (gp_bus g')"
proof -
  have "publish_isolated now (Historical h) (gp_bus g) = ((gp_bus g)\<lparr>bs_history := bs_history (gp_bus g) @ [Historical h]\<rparr>, Inr [])"
    using assms(2-4) by (simp add: publish_replay_def admit_event_def bus_serves_def of_dataset_def entries_of_def)
  then show ?thesis using assms(2,4) call_quiet [OF assms(1)] by (simp add: process_event_def bus_serves_def)
qed

lemma process_events_quiet:
  "quiet_env env (rq_engine_selection (rs_request s)) \<Longrightarrow> bus_serves q (gp_bus g)
     \<Longrightarrow> list_all (\<lambda>h. of_dataset q h \<and> he_available_at h \<le> now) hs
     \<Longrightarrow> \<exists>g'. process_events env cfg s now hs g = (g', Inr ()) \<and> bus_serves q (gp_bus g')"
proof (induction hs arbitrary: g)
  case (Cons h hs)
  obtain g1 where g1: "process_event env cfg s now h g = (g1, Inr ())" "bus_serves q (gp_bus g1)"
    using process_event_quiet [OF Cons.prems(1,2), of h now cfg] Cons.prems(3) by auto
  obtain g2 where "process_events env cfg s now hs g1 = (g2, Inr ())" "bus_serves q (gp_bus g2)"
    using Cons.IH [OF Cons.prems(1) g1(2)] Cons.prems(3) by auto
  then show ?case using g1(1) by simp
qed simp

lemma process_group_quiet:
  assumes "quiet_env env (rq_engine_selection (rs_request s))" "bus_serves q b" "list_all (\<lambda>h. of_dataset q h \<and> he_available_at h \<le> now) evs"
    and "get_session (rs_replay_id s) r = Some s"
  shows "\<exists>b' r' s'. process_group env cfg s evs now b r = (b', r', Inr s') \<and> bus_serves q b' \<and> rr_checkpoints r' = rr_checkpoints r"
proof -
  define g0 where "g0 = \<lparr>gp_bus = b, gp_outputs = [], gp_generated = 0, gp_hash = rs_semantic_output_hash s,
    gp_last_key = rs_last_ordering_key s, gp_sequence = rs_processed_events s, gp_trace = []\<rparr>"
  obtain g where g: "process_events env cfg s now evs g0 = (g, Inr ())" "bus_serves q (gp_bus g)"
    using process_events_quiet [OF assms(1) _ assms(3), of g0 cfg] assms(2) by (auto simp: g0_def)
  have "save_session (advanced env s evs now g) (rs_row_version s) r
      = (r\<lparr>rr_sessions := AList.update (rs_replay_id s) (advanced env s evs now g) (rr_sessions r)\<rparr>, Inr (advanced env s evs now g))"
    using save_session_accepts [of "advanced env s evs now g" r s] assms(4) by simp
  then show ?thesis using g unfolding process_group_def g0_def [symmetric] by (simp add: save_outputs_def save_trace_def)
qed

text \<open>The state between two groups, with the number of events processed.\<close>

definition quiet_head :: "uuid \<Rightarrow> string \<Rightarrow> replay_request \<Rightarrow> int \<Rightarrow> run_state \<Rightarrow> bool" where
  "quiet_head i worker q p u \<longleftrightarrow> (\<exists>s. get_session i (ru_repository u) = Some s \<and> rs_replay_id s = i \<and> rs_status s = Rs_Running
       \<and> rs_request s = q \<and> rs_worker_id s = Some worker \<and> rs_processed_events s = p)
     \<and> \<not> rk_frozen (ru_clock u) \<and> rk_end (ru_clock u) = rq_end_at q \<and> bus_serves q (ru_bus u)"

lemma run_group_quiet:
  assumes "quiet_env env (rq_engine_selection q)" "quiet_head i worker q p u" "evs \<noteq> []"
    and "list_all (\<lambda>h. of_dataset q h \<and> he_available_at h = he_available_at (hd evs)) evs"
    and "rk_now (ru_clock u) \<le> he_available_at (hd evs)" "he_available_at (hd evs) \<le> rq_end_at q"
    and "\<not> rg_checkpoint_enabled cfg \<or> \<not> rq_after_timestamp_group q \<and> p + int (length evs) < rq_every_events q"
  shows "\<exists>u'. run_group env cfg i worker (\<lambda>r. r) False evs u = (u', Inr None) \<and> quiet_head i worker q (p + int (length evs)) u'
     \<and> rk_now (ru_clock u') = he_available_at (hd evs) \<and> rr_checkpoints (ru_repository u') = rr_checkpoints (ru_repository u)"
proof -
  obtain s where s: "get_session i (ru_repository u) = Some s" "rs_replay_id s = i" "rs_status s = Rs_Running" "rs_request s = q"
      "rs_worker_id s = Some worker" "rs_processed_events s = p" and c: "\<not> rk_frozen (ru_clock u)" "rk_end (ru_clock u) = rq_end_at q" "bus_serves q (ru_bus u)"
    using assms(2) by (auto simp: quiet_head_def)
  let ?k = "(ru_clock u)\<lparr>rk_now := he_available_at (hd evs)\<rparr>"
  have k: "advance_to (he_available_at (hd evs)) (ru_clock u) = Inr ?k" using c assms(5,6) by (simp add: advance_to_def)
  have evs: "list_all (\<lambda>h. of_dataset q h \<and> he_available_at h \<le> rk_now ?k) evs" using assms(4) by (auto simp: list_all_iff)
  obtain b r s' where g: "process_group env cfg s evs (rk_now ?k) (ru_bus u) (ru_repository u) = (b, r, Inr s')" "bus_serves q b"
      "rr_checkpoints r = rr_checkpoints (ru_repository u)"
    using process_group_quiet [of env s q "ru_bus u" "rk_now ?k" evs "ru_repository u" cfg] assms(1) c(3) evs s by auto
  note d = process_group_done [OF g(1)]
  obtain g' where s': "s' = advanced env s evs (rk_now ?k) g'" using d(2) by blast
  have due: "\<not> checkpoint_due cfg s'" using assms(7) s unfolding s' by (auto simp: checkpoint_due_def)
  have "run_group env cfg i worker (\<lambda>r. r) False evs u = (\<lparr>ru_repository = r, ru_clock = ?k, ru_bus = b\<rparr>, Inr None)"
    using s k g(1) due by (simp add: run_group_def require_session_def after_group_def)
  moreover have "quiet_head i worker q (p + int (length evs)) \<lparr>ru_repository = r, ru_clock = ?k, ru_bus = b\<rparr>"
    using d(1) s c g(2) unfolding s' by (simp add: quiet_head_def)
  ultimately show ?thesis using g(3) by simp
qed


lemma run_groups_quiet:
  assumes "quiet_env env (rq_engine_selection q)"
  shows "quiet_head i worker q p u \<Longrightarrow> list_all (group_ok limit) gs \<Longrightarrow> sorted_wrt (<) (map (\<lambda>g. he_available_at (hd g)) gs)
     \<Longrightarrow> list_all (\<lambda>h. of_dataset q h \<and> rk_now (ru_clock u) \<le> he_available_at h \<and> he_available_at h \<le> rq_end_at q) (concat gs)
     \<Longrightarrow> \<not> rg_checkpoint_enabled cfg \<or> \<not> rq_after_timestamp_group q \<and> p + int (length (concat gs)) < rq_every_events q
     \<Longrightarrow> \<exists>u'. run_groups env cfg i worker (\<lambda>_ r. r) None n gs u = (u', Inr None) \<and> quiet_head i worker q (p + int (length (concat gs))) u'
       \<and> rr_checkpoints (ru_repository u') = rr_checkpoints (ru_repository u)"
proof (induction gs arbitrary: n p u)
  case Nil
  then show ?case by simp
next
  case (Cons g gs)
  have g: "g \<noteq> []" "list_all (\<lambda>e. he_available_at e = he_available_at (hd g)) g" using Cons.prems(2) by (auto simp: group_ok_def)
  have hd: "hd g \<in> set g" using g(1) by simp
  obtain u1 where u1: "run_group env cfg i worker (\<lambda>r. r) False g u = (u1, Inr None)" "quiet_head i worker q (p + int (length g)) u1"
      "rk_now (ru_clock u1) = he_available_at (hd g)" "rr_checkpoints (ru_repository u1) = rr_checkpoints (ru_repository u)"
  proof -
    have all: "of_dataset q h \<and> rk_now (ru_clock u) \<le> he_available_at h \<and> he_available_at h \<le> rq_end_at q" if "h \<in> set g" for h
      using Cons.prems(4) that by (simp add: list_all_iff)
    have "list_all (\<lambda>h. of_dataset q h \<and> he_available_at h = he_available_at (hd g)) g"
      using g(2) all unfolding list_all_iff by blast
    moreover have "rk_now (ru_clock u) \<le> he_available_at (hd g)" "he_available_at (hd g) \<le> rq_end_at q" using all [OF hd] by simp_all
    moreover have "\<not> rg_checkpoint_enabled cfg \<or> \<not> rq_after_timestamp_group q \<and> p + int (length g) < rq_every_events q"
      using Cons.prems(5) by auto
    ultimately show ?thesis using run_group_quiet [OF assms Cons.prems(1) g(1)] that by blast
  qed
  have times: "he_available_at (hd g) \<le> he_available_at h" if "h \<in> set (concat gs)" for h
  proof -
    have "\<exists>g' \<in> set gs. h \<in> set g'" using that by auto
    then obtain g' where g': "g' \<in> set gs" "h \<in> set g'" by blast
    have "group_ok limit g'" using Cons.prems(2) g'(1) unfolding list_all_iff by auto
    then have "he_available_at h = he_available_at (hd g')" using g'(2) unfolding group_ok_def list_all_iff by blast
    then show ?thesis using Cons.prems(3) g'(1) by (auto intro: less_imp_le)
  qed
  have rest: "list_all (\<lambda>h. of_dataset q h \<and> rk_now (ru_clock u1) \<le> he_available_at h \<and> he_available_at h \<le> rq_end_at q) (concat gs)"
    using Cons.prems(4) times unfolding u1(3) by (auto simp: list_all_iff)
  have due: "\<not> rg_checkpoint_enabled cfg \<or> \<not> rq_after_timestamp_group q \<and> (p + int (length g)) + int (length (concat gs)) < rq_every_events q"
    using Cons.prems(5) by auto
  obtain u2 where "run_groups env cfg i worker (\<lambda>_ r. r) None (Suc n) gs u1 = (u2, Inr None)"
      "quiet_head i worker q (p + int (length g) + int (length (concat gs))) u2" "rr_checkpoints (ru_repository u2) = rr_checkpoints (ru_repository u1)"
    using Cons.IH [OF u1(2) _ _ rest due, of "Suc n"] Cons.prems(2,3) by auto
  then show ?case using u1(1,4) by (simp add: add.assoc)
qed

lemma settle_completes:
  assumes "get_session i (ru_repository u) = Some s" "rs_replay_id s = i" "rs_status s = Rs_Running" "entries_of (rr_checkpoints (ru_repository u)) i = []"
  shows "\<exists>u' s'. settle env s reason Rs_Completed why u = (u', Inr s') \<and> get_session i (ru_repository u') = Some s' \<and> rs_replay_id s' = i
     \<and> rs_status s' = Rs_Completed \<and> rs_progress_percent s' = Some (fint 100) \<and> rs_processed_events s' = rs_processed_events s
     \<and> rs_worker_id s' = rs_worker_id s \<and> rs_virtual_cursor_at s' = rq_end_at (rs_request s)"
proof -
  define s1 where "s1 = s\<lparr>rs_latest_checkpoint_id := Some (cp_checkpoint_id (next_checkpoint env s reason (ru_repository u))), rs_row_version := rs_row_version s + 1\<rparr>"
  obtain r where r: "take_checkpoint env s reason (ru_repository u) = (r, Inr s1)" "get_session i r = Some s1"
  proof -
    have "checkpoints_upto (rs_replay_id s) 0 (ru_repository u)" using assms(2,4) by (simp add: checkpoints_upto_def)
    moreover have "cp_checkpoint_id (next_checkpoint env s reason (ru_repository u))
        \<notin> cp_checkpoint_id ` set (entries_of (rr_checkpoints (ru_repository u)) (rs_replay_id s))" using assms(2,4) by simp
    ultimately show ?thesis using take_checkpoint_within [OF _ _ _ _ s1_def] assms(1,2) that by (metis zero_le)
  qed
  have s1: "rs_replay_id s1 = i" "rs_status s1 = Rs_Running" using assms(2,3) by (simp_all add: s1_def)
  obtain r' where t: "transition_session env s1 Rs_Completed why (rk_now (ru_clock u)) r = (r', Inr (moved Rs_Completed (rk_now (ru_clock u)) s1))"
      "get_session i r' = Some (moved Rs_Completed (rk_now (ru_clock u)) s1)"
    using transition_accepts [of s1 r Rs_Completed env why "rk_now (ru_clock u)"] r(2) s1 by (auto simp: transitions_def)
  have "settle env s reason Rs_Completed why u = (u\<lparr>ru_repository := r'\<rparr>, Inr (moved Rs_Completed (rk_now (ru_clock u)) s1))"
    using r(1) t(1) by (simp add: settle_def)
  then show ?thesis using t(2) s1(1) by (simp add: moved_def stamp_status_def s1_def)
qed

text \<open>The events that a run of a new session goes through.\<close>

definition replay_events :: "replay_request \<Rightarrow> memory_source list \<Rightarrow> historical_event list" where
  "replay_events q sources = dedupe None (sort_key ordering_key (concat (map (visible_events q) sources)))"

lemma dedupe_subset: "set (dedupe pid es) \<subseteq> set es"
  by (induction pid es rule: dedupe.induct) (auto simp: fresh_event_def)

lemma by_key_filter: "by_key es \<Longrightarrow> by_key (filter p es)"
  by (induction es) auto

lemma replay_events_within:
  "h \<in> set (replay_events q sources) \<Longrightarrow> of_dataset q h \<and> rq_start_at q \<le> he_available_at h \<and> he_available_at h \<le> rq_end_at q"
  using dedupe_subset [of None "sort_key ordering_key (concat (map (visible_events q) sources))"]
  by (auto simp: replay_events_def visible_events_def of_dataset_def)

lemma replay_groups_new:
  assumes "rs_last_ordering_key s = None" "list_all (\<lambda>x. by_key (sc_events x)) sources"
    and "\<And>t. length (filter (\<lambda>e. he_available_at e = t) (replay_events (rs_request s) sources)) \<le> nat (rg_timestamp_group_limit cfg)"
  shows "\<exists>gs. replay_groups env cfg s sources = (gs, None) \<and> concat gs = replay_events (rs_request s) sources
     \<and> list_all (group_ok (nat (rg_timestamp_group_limit cfg))) gs \<and> sorted_wrt (<) (map (\<lambda>g. he_available_at (hd g)) gs)"
proof -
  let ?q = "rs_request s"
  have streams: "map (stream_source ?q None) sources = map (visible_events ?q) sources" by (simp add: stream_source_def)
  have ordered: "list_all by_key (map (visible_events ?q) sources)" using assms(2) by (auto simp: list_all_iff visible_events_def by_key_filter)
  note m = merge_sorted_sources [OF ordered]
  have "by_key (replay_events ?q sources)" using merge_ordered [of "map (visible_events ?q) sources"] unfolding m replay_events_def by simp
  from groups_of_ordered [OF this assms(3)] show ?thesis unfolding replay_groups_def assms(1) streams m replay_events_def .
qed

text \<open>Claim C8: a replay with quiet processors completes: when the session is running, fresh and without a worker, its sources
  are registered and in order, no time has more events than a group may hold and no checkpoint falls due before the
  end, a run with no other task returns the completed session: at 100 percent, its cursor at the end, every event that
  the sources show counted, and the lease given back.\<close>

theorem quiet_replay_completes:
  assumes "get_session i r = Some s" "rs_replay_id s = i" "rs_status s = Rs_Running" "rs_worker_id s = None" "rs_last_ordering_key s = None"
    and "rs_virtual_cursor_at s = rq_start_at (rs_request s)" "rq_start_at (rs_request s) < rq_end_at (rs_request s)"
    and "entries_of (rr_checkpoints r) i = []" "quiet_env env (rq_engine_selection (rs_request s))"
    and "resolve_sources (rv_sources env) (rq_source_names (rs_request s)) = Inr sources" "list_all (\<lambda>x. by_key (sc_events x)) sources"
    and "events = replay_events (rs_request s) sources"
    and "\<And>t. length (filter (\<lambda>e. he_available_at e = t) events) \<le> nat (rg_timestamp_group_limit cfg)"
    and "\<not> rg_checkpoint_enabled cfg \<or> \<not> rq_after_timestamp_group (rs_request s)
      \<and> rs_processed_events s + int (length events) < rq_every_events (rs_request s)"
  shows "\<exists>r' x s'. run_replay env cfg i worker now (\<lambda>_ q. q) None r = (r', Inr x) \<and> rs_status x = Rs_Completed
     \<and> get_session i r' = Some s' \<and> rs_status s' = Rs_Completed \<and> rs_worker_id s' = None
     \<and> rs_processed_events s' = rs_processed_events s + int (length events)
     \<and> rs_progress_percent x = Some (fint 100) \<and> rs_virtual_cursor_at x = rq_end_at (rs_request s)"
proof -
  let ?q = "rs_request s"
  define s1 where "s1 = s\<lparr>rs_worker_id := Some worker, rs_heartbeat_at := Some now,
      rs_lease_expires_at := Some (now + seconds_td (rg_lease_seconds cfg)), rs_row_version := rs_row_version s + 1\<rparr>"
  define r1 where "r1 = r\<lparr>rr_sessions := AList.update i s1 (rr_sessions r)\<rparr>"
  define k where "k = \<lparr>rk_start = rq_start_at ?q, rk_end = rq_end_at ?q, rk_now = rq_start_at ?q, rk_frozen = False\<rparr>"
  have lease: "acquire_lease i worker now (rg_lease_seconds cfg) (rs_row_version s) r = (r1, Inr s1)"
    using assms(1,4) by (simp add: acquire_lease_def get_session_def Let_def r1_def s1_def)
  have s1: "rs_replay_id s1 = i" "rs_status s1 = Rs_Running" "rs_worker_id s1 = Some worker" "rs_processed_events s1 = rs_processed_events s"
    "rs_request s1 = ?q" "rs_virtual_cursor_at s1 = rq_start_at ?q" "rs_last_ordering_key s1 = None"
    using assms(2-6) by (simp_all add: s1_def)
  have clock: "bindE (new_clock (rq_start_at ?q) (rq_end_at ?q)) (restore_clock (rq_start_at ?q)) = Inr k"
    using assms(7) by (simp add: new_clock_def restore_clock_def k_def)
  obtain gs where gs: "replay_groups env cfg s1 sources = (gs, None)" "concat gs = events" "list_all (group_ok (nat (rg_timestamp_group_limit cfg))) gs"
      "sorted_wrt (<) (map (\<lambda>g. he_available_at (hd g)) gs)"
    using replay_groups_new [OF s1(7) assms(11), of cfg env] assms(13) unfolding s1(5) assms(12) [symmetric] by blast
  let ?u = "start_state s1 k r1"
  have here: "get_session i r1 = Some s1" unfolding r1_def by (rule get_session_updated)
  have head: "quiet_head i worker ?q (rs_processed_events s) ?u"
    using here s1 by (simp add: quiet_head_def start_state_def bus_serves_def new_replay_bus_def k_def)
  have events: "list_all (\<lambda>h. of_dataset ?q h \<and> rk_now (ru_clock ?u) \<le> he_available_at h \<and> he_available_at h \<le> rq_end_at ?q) (concat gs)"
    unfolding gs(2) assms(12) using replay_events_within by (auto simp: list_all_iff start_state_def k_def)
  obtain u' where u': "run_groups env cfg i worker (\<lambda>_ q. q) None 0 gs ?u = (u', Inr None)"
      "quiet_head i worker ?q (rs_processed_events s + int (length events)) u'" "rr_checkpoints (ru_repository u') = rr_checkpoints r1"
    using run_groups_quiet [OF assms(9) head gs(3,4) events, of cfg 0] assms(14) unfolding gs(2) by (auto simp: start_state_def)
  obtain s2 where s2: "get_session i (ru_repository u') = Some s2" "rs_replay_id s2 = i" "rs_status s2 = Rs_Running" "rs_request s2 = ?q"
      "rs_worker_id s2 = Some worker" "rs_processed_events s2 = rs_processed_events s + int (length events)"
    using u'(2) by (auto simp: quiet_head_def)
  have "entries_of (rr_checkpoints (ru_repository u')) i = []" unfolding u'(3) r1_def using assms(8) by simp
  from settle_completes [OF s2(1-3) this, of env "''completed''" "''source_exhausted''"]
  obtain u2 x where x: "settle env s2 ''completed'' Rs_Completed ''source_exhausted'' u' = (u2, Inr x)" "get_session i (ru_repository u2) = Some x"
      "rs_replay_id x = i" "rs_status x = Rs_Completed" "rs_progress_percent x = Some (fint 100)"
      "rs_processed_events x = rs_processed_events s + int (length events)" "rs_worker_id x = Some worker" "rs_virtual_cursor_at x = rq_end_at ?q"
    unfolding s2(4-6) by blast
  have body: "run_body env cfg i worker (\<lambda>_ q. q) None (gs, None) ?u = (u2, Inr x)"
    using u'(1) s2(1) x(1) by (simp add: run_body_def require_session_def)
  obtain r' s' where fin: "finish_run i worker u2 (Inr x) = (r', Inr x)" "get_session i r' = Some s'" "rs_status s' = Rs_Completed" "rs_worker_id s' = None"
      "rs_processed_events s' = rs_processed_events s + int (length events)"
    using finish_run_keeps [OF x(2,3,7), of "Inr x"] x(4,6) by auto
  have "run_replay env cfg i worker now (\<lambda>_ q. q) None r = (r', Inr x)"
    using assms(1,3,10) lease clock body [unfolded start_state_def] fin(1) gs(1) by (simp add: run_replay_def require_session_def Let_def s1)
  then show ?thesis using fin x(4,5,8) by blast
qed


subsection \<open>Instances\<close>

definition replay_sample_env :: replay_env where
  "replay_sample_env = \<lparr>rv_runtime = \<lparr>rt_uuid5 = (\<lambda>_ n. n), rt_sha256 = (\<lambda>_. replicate 64 (CHR ''0'')), rt_float_repr = (\<lambda>_. [])\<rparr>,
     rv_request_json = (\<lambda>_ v. v), rv_checkpoint_json = cp_reason, rv_configuration_json = [], rv_processors = [], rv_datasets = [],
     rv_sources = [(''historical_candles'', new_memory_source ''historical_candles''
       [sample_history ''b'' 30 3, sample_history ''a'' 10 1, sample_history ''c'' 10 2] ''1'')],
     rv_engines = []\<rparr>"

definition replay_sample_config :: replay_config where
  "replay_sample_config = default_replay_config\<lparr>rg_timestamp_group_limit := 5\<rparr>"

definition replay_sample_request :: replay_request where
  "replay_sample_request = \<lparr>rq_replay_id = ''r'', rq_instruments = [''XAUUSD''], rq_timeframes = [''M5''], rq_start_at = 0, rq_end_at = 40,
     rq_mode = Maximum_Speed, rq_speed_multiplier = None, rq_step_unit = False,
     rq_dataset = \<lparr>ds_dataset_id = ''d'', ds_dataset_version = ''1'', ds_source_name = ''historical_candles'', ds_created_at = 0,
       ds_available_from = 0, ds_available_until = 100, ds_manifest_hash = [], ds_mutable = False, ds_instruments = [''XAUUSD''],
       ds_timeframes = [''M5'']\<rparr>,
     rq_engine_selection = [''technical''], rq_engine_versions = [], rq_policy_versions = [], rq_source_names = [''historical_candles''],
     rq_every_events = 10, rq_after_timestamp_group = False, rq_metadata_json = [], rq_metadata_text = []\<rparr>"

definition replay_sample_session :: replay_session where
  "replay_sample_session = (moved Rs_Running 5 (new_session replay_sample_env replay_sample_config replay_sample_request [] [] 5))"

definition replay_sample_service :: replay_service where
  "replay_sample_service = new_replay_service (new_replay_repository\<lparr>rr_sessions := [(''r'', replay_sample_session)]\<rparr>)"

lemmas replay_samples = replay_sample_env_def replay_sample_config_def replay_sample_request_def replay_sample_session_def
  replay_sample_service_def new_replay_service_def new_replay_repository_def

lemma replay_sample_ok: "sessions_ok (rw_repository replay_sample_service)"
  by (simp add: replay_samples sessions_ok_def session_invariants_def moved_def stamp_status_def new_session_def percent_100(2) [unfolded in_range_def])

lemma replay_sample_starts:
  "run_starts replay_sample_env replay_sample_config ''r'' replay_sample_session (rw_repository replay_sample_service)"
proof -
  have "fst (replay_groups replay_sample_env replay_sample_config replay_sample_session
     [new_memory_source ''historical_candles'' [sample_history ''b'' 30 3, sample_history ''a'' 10 1, sample_history ''c'' 10 2] ''1'']) \<noteq> []"
    by code_simp
  then show ?thesis by (simp add: run_starts_def replay_samples get_session_def moved_def stamp_status_def new_session_def resolve_sources_def)
qed

lemma run_keeps_sessions_valid_witness:
  "sessions_ok (fst (run_replay replay_sample_env replay_sample_config ''r'' ''w'' 5 (\<lambda>_ r. r) None (rw_repository replay_sample_service)))"
  using run_keeps_sessions_valid [of replay_sample_service "\<lambda>_ r. r" replay_sample_env replay_sample_config "''r''" "''w''" 5 None] replay_sample_ok by simp

lemma command_during_group_fails_run_witness:
  "\<exists>r' x. run_replay replay_sample_env replay_sample_config ''r'' ''w'' 5
      (\<lambda>_ q. rw_repository (fst (service_pause replay_sample_env replay_sample_config (\<lambda>_ _. True) ''r'' 7 (replay_sample_service\<lparr>rw_repository := q\<rparr>))))
      None (rw_repository replay_sample_service) = (r', Inr x) \<and> rs_status x = Rs_Failed"
  using command_during_group_fails_run [where meanwhile = "\<lambda>_ q. rw_repository (fst (service_pause replay_sample_env replay_sample_config (\<lambda>_ _. True) ''r'' 7
      (replay_sample_service\<lparr>rw_repository := q\<rparr>)))" and worker = "''w''" and now = 5 and m = None, OF replay_sample_starts disjI1 [OF refl] refl]
  by blast

lemma expired_lease_fails_session_witness:
  "\<exists>r' x. run_replay replay_sample_env replay_sample_config ''r'' ''w'' 5
      (\<lambda>_ q. fst (acquire_lease ''r'' ''v'' 30000005 (rg_lease_seconds replay_sample_config) (rs_row_version replay_sample_session + 1) q))
      None (rw_repository replay_sample_service) = (r', Inr x) \<and> rs_status x = Rs_Failed \<and> rs_worker_id x = Some ''v''"
proof -
  have "\<not> (30000005 :: int) < 5 + seconds_td (rg_lease_seconds replay_sample_config)" by code_simp
  then show ?thesis
    using expired_lease_fails_session [where meanwhile = "\<lambda>_ q. fst (acquire_lease ''r'' ''v'' 30000005 (rg_lease_seconds replay_sample_config)
      (rs_row_version replay_sample_session + 1) q)" and worker = "''w''" and other = "''v''" and now = 5 and t = 30000005 and m = None, OF replay_sample_starts _ refl]
    unfolding if_not_P [OF \<open>\<not> (30000005 :: int) < 5 + seconds_td (rg_lease_seconds replay_sample_config)\<close>] by fastforce
qed


text \<open>A running session that has the checkpoints 1 to 101 and asks for one after every group.\<close>

definition full_session :: replay_session where
  "full_session = replay_sample_session\<lparr>rs_request := replay_sample_request\<lparr>rq_after_timestamp_group := True\<rparr>\<rparr>"

definition full_state :: run_state where
  "full_state = \<lparr>ru_repository = (rw_repository replay_sample_service)\<lparr>rr_sessions := [(''r'', full_session)],
       rr_checkpoints := [(''r'', map (\<lambda>n. (checkpoint_of replay_sample_env full_session (int n) ''policy'')\<lparr>cp_checkpoint_id := ''c''\<rparr>) [1..<102])]\<rparr>,
     ru_clock = \<lparr>rk_start = 0, rk_end = 40, rk_now = 0, rk_frozen = False\<rparr>, ru_bus = new_replay_bus ''r'' ''d'' ''1''\<rparr>"

lemma stable_id_of_sample: "cp_checkpoint_id (checkpoint_of replay_sample_env s n reason)
   = join ''|'' [rs_replay_id s, str_int n, isoformat (rs_virtual_cursor_at s), or_empty (rs_last_ordering_key s), rs_semantic_output_hash s]"
  by (simp add: checkpoint_of_def Let_def replay_id_of_def stable_id_def replay_sample_env_def)

lemma checkpoint_capacity_witness:
  "snd (after_group replay_sample_env replay_sample_config False full_session full_state)
     = Inl (Replay_Checkpoint ''checkpoint sequence must increase exactly once'')"
proof -
  have i: "rs_replay_id full_session = ''r''" by (simp add: full_session_def replay_sample_session_def new_session_def replay_sample_request_def)
  have got: "get_session (rs_replay_id full_session) (ru_repository full_state) = Some full_session"
    by (simp add: i full_state_def get_session_def)
  have upto: "checkpoints_upto (rs_replay_id full_session) 101 (ru_repository full_state)"
    unfolding checkpoints_upto_def i by (simp add: full_state_def entries_of_def o_def del: upt_Suc)
  have "cp_checkpoint_id (next_checkpoint replay_sample_env full_session ''policy'' (ru_repository full_state)) \<noteq> ''c''"
    unfolding stable_id_of_sample i by simp
  then have fresh: "cp_checkpoint_id (next_checkpoint replay_sample_env full_session ''policy'' (ru_repository full_state))
      \<notin> cp_checkpoint_id ` set (entries_of (rr_checkpoints (ru_repository full_state)) (rs_replay_id full_session))"
    by (auto simp: i full_state_def entries_of_def)
  have due: "checkpoint_due replay_sample_config full_session"
    by (simp add: checkpoint_due_def replay_sample_config_def default_replay_config_def full_session_def)
  show ?thesis using checkpoint_capacity [OF got upto fresh due, of False] by simp
qed

lemma quiet_replay_completes_witness:
  "\<exists>r' x s. run_replay replay_sample_env replay_sample_config ''r'' ''w'' 5 (\<lambda>_ q. q) None (rw_repository replay_sample_service) = (r', Inr x)
     \<and> rs_status x = Rs_Completed \<and> get_session ''r'' r' = Some s \<and> rs_processed_events s = 3"
proof -
  let ?src = "new_memory_source ''historical_candles'' [sample_history ''b'' 30 3, sample_history ''a'' 10 1, sample_history ''c'' 10 2] ''1''"
  have s: "get_session ''r'' (rw_repository replay_sample_service) = Some replay_sample_session" "rs_replay_id replay_sample_session = ''r''"
    "rs_status replay_sample_session = Rs_Running" "rs_worker_id replay_sample_session = None" "rs_last_ordering_key replay_sample_session = None"
    "rs_virtual_cursor_at replay_sample_session = rq_start_at (rs_request replay_sample_session)"
    "rq_start_at (rs_request replay_sample_session) < rq_end_at (rs_request replay_sample_session)"
    "entries_of (rr_checkpoints (rw_repository replay_sample_service)) ''r'' = []" "rs_request replay_sample_session = replay_sample_request"
    "rs_processed_events replay_sample_session = 0"
    by (simp_all add: replay_samples get_session_def moved_def stamp_status_def new_session_def entries_of_def)
  have quiet: "quiet_env replay_sample_env (rq_engine_selection (rs_request replay_sample_session))" by (simp add: quiet_env_def replay_sample_env_def)
  have src: "resolve_sources (rv_sources replay_sample_env) (rq_source_names (rs_request replay_sample_session)) = Inr [?src]"
    unfolding s(9) by (simp add: replay_sample_env_def replay_sample_request_def resolve_sources_def)
  have ordered: "list_all (\<lambda>x. by_key (sc_events x)) [?src]" by code_simp
  have count: "length (replay_events replay_sample_request [?src]) = 3" by code_simp
  have limit: "length (filter (\<lambda>e. he_available_at e = t) (replay_events (rs_request replay_sample_session) [?src])) \<le> nat (rg_timestamp_group_limit replay_sample_config)" for t
    using length_filter_le [of "\<lambda>e. he_available_at e = t" "replay_events replay_sample_request [?src]"] unfolding s(9) count
    by (simp add: replay_sample_config_def)
  have early: "\<not> rg_checkpoint_enabled replay_sample_config \<or> \<not> rq_after_timestamp_group (rs_request replay_sample_session)
      \<and> rs_processed_events replay_sample_session + int (length (replay_events (rs_request replay_sample_session) [?src]))
        < rq_every_events (rs_request replay_sample_session)"
    unfolding s(9,10) count by (simp add: replay_sample_request_def)
  show ?thesis
    using quiet_replay_completes [OF s(1-8) quiet src ordered refl limit early, of "''w''" 5] unfolding s(9,10) count by auto
qed

end
