(* ===== verification/Spec2Isabelle.thy ===== *)
theory Spec2Isabelle
  imports AI_Normalization Signal_Outcomes SMC_Zones Infrastructure Signal_Decision_Safety Signal_Decision_Service Scenario_Engine Stage_Tracker Circuit_Breaker Market_Data_Service Replay_Proofs
begin

text \<open>
  Verification library for the backend of TEN, an analytical platform for XAU/USD
  (\<open>src/backend/app\<close>, Python 3.12). The platform fetches candles from redundant providers, analyses them,
  scores the evidence, decides whether a signal may be published, forecasts scenarios, evaluates what became
  of them, and replays history through the same code.

  \<^bold>\<open>How the parts interact.\<close> The market data service obtains candles through the provider manager, validates
  and stores them, and announces them on the event bus. Analytical engines read candles and write features;
  the analysis of the smart money concepts engine is one of them. Normalization turns features into
  evidence, the scoring engine turns evidence into a score snapshot, and the signal decision service combines the snapshot
  with the unified market state and a selected scenario into a decision that its repository keeps. The scenario
  engine builds the scenarios from quantitative forecasts; the outcome evaluators close the loop. The
  stage tracker records how far a cycle of this pipeline got. The replay engine drives processors with historical events
  on an isolated bus and feature store.

  \<^bold>\<open>Theories and sources.\<close> Within a theory the definitions follow the order of the code: data, configuration and
  validators, operations, then lemmas. Records keep the fields of the code under a short prefix; a field that no
  modelled operation reads may be left out, and the comment of the theory says so.

    \<^item> \<open>PyFloat\<close>: Python floats as a type of their own. Every operation is the exact rational result rounded to 53 bits,
      ties to even; \<open>round\<close>, \<open>int\<close>, \<open>math.fsum\<close>, \<open>statistics.fmean\<close> and the compensated builtin \<open>sum\<close> are built on it.
      Lemmas: rounding is monotone, exact where it should be, keeps signs and bounds. The exponent is not bounded above, so overflow
      is outside the model; infinities and NaN, which the validators of the code exclude, are no values of the type.
    \<^item> \<open>Prelude\<close>: instants and durations in microseconds, errors as sums with \<open>bindE\<close> and \<open>mapE\<close>, decimal text, ISO timestamps,
      identifiers. Digests, \<open>uuid5\<close> and the shortest decimal text of a float are fields of a \<open>runtime\<close> parameter.
    \<^item> \<open>Registry\<close>: the contract of the catalogues that refuse a second registration, as a locale.
    \<^item> \<open>AI_Scoring\<close>, \<open>AI_Normalization\<close> (\<open>engines/ai_scoring_engine\<close>): the policy fails only on a source that is not approved, its scores stay
      in their bounds and under the confidence ceilings, and the direction label is monotone; normalized features are valid evidence.
    \<^item> \<open>Signal_Decision_Models\<close>, \<open>Signal_Decision_Config\<close>, \<open>Signal_Decision\<close>, \<open>Signal_Decision_Proofs\<close>, \<open>Signal_Decision_Safety\<close>
      (\<open>engines/signal_decision_engine\<close>: \<open>models.py\<close>, \<open>config.py\<close>, \<open>rules.py\<close>, \<open>policies.py\<close>, \<open>engine.py\<close>): on validated
      input the policy produces a decision that passes its own validators, or raises for one of three named gaps in its tables;
      a decision is blocked exactly when a hard gate is shut; what is published is safe.
    \<^item> \<open>Signal_Decision_Repository\<close>, \<open>Signal_Decision_Service\<close> (\<open>repository.py\<close>, \<open>service.py\<close>): the two indexes stay
      consistent, the first write of a fingerprint wins, a persisted decision is returned again for as long as it is
      retained, requests are counted, a failure leaves no trace.
    \<^item> \<open>Market_State\<close> (\<open>market_state/models.py\<close>, \<open>ai_reasoning/cadence.py\<close>), \<open>Forecast_Models\<close> (\<open>quant_forecasting/models.py\<close>,
      \<open>signal_synthesis/models.py\<close>): contracts that the engines exchange.
    \<^item> \<open>Scenario_Models\<close>, \<open>Scenario_Geometry\<close>, \<open>Scenario_Engine\<close> (\<open>scenario_forecasting\<close>): geometry that is accepted is executable,
      forecasts are total and sound, and the combination of two timeframes succeeds exactly under stated conditions.
    \<^item> \<open>Signal_Outcomes\<close> (\<open>ai_reasoning/signal_outcomes.py\<close>, \<open>scenario_forecasting/outcome_evaluation.py\<close> and
      \<open>calibration.py\<close>, \<open>final_decision/outcomes.py\<close>): outcomes are coherent, and the
      result of a published signal is characterised by what its candles did.
    \<^item> \<open>SMC_Structure\<close> (\<open>engines/smc_engine\<close>): the analysis of a prefix agrees with the analysis of the whole series, events are
      runs of the transition function, published objects are valid, and the internal structure freezes after a change of character.
    \<^item> \<open>SMC_Zones\<close> (\<open>engines/smc_engine/advanced.py\<close>): displacements, and the zones as a board of slots with the dict of active ones;
      zones stay valid through every step, a zone that has ended never changes again, and displacements are regrouped one candle later.
    \<^item> \<open>Market_Data\<close>, \<open>Provider_Manager\<close>, \<open>Market_Data_Store\<close>, \<open>Market_Data_Service\<close> (\<open>engines/market_data_engine\<close>): validation
      with exact gap accounting; failover in rank order with consistent statistics; the two-layer cache refines a map with expiry
      on keys that their file names tell apart; histories are stored and polls read back, and what a failing event bus leaves behind.
    \<^item> \<open>Infrastructure\<close> (\<open>events/bus.py\<close>, \<open>features/store.py\<close>): a bounded log, as a locale, and its two instances.
    \<^item> \<open>Circuit_Breaker\<close> (\<open>public_sources/circuit_breaker.py\<close>), \<open>Stage_Tracker\<close> (\<open>integration/stage_tracker.py\<close>): whole classes.
    \<^item> \<open>Replay_Core\<close>, \<open>Replay_Session\<close>, \<open>Replay_Coordinator\<close>, \<open>Replay_Service\<close>, \<open>Replay_Proofs\<close> (\<open>engines/replay_engine\<close>): the merge
      of the sources is a stable sort; engines are resolved and ordered by their dependencies; sessions stay valid through every run; a quiet
      replay completes; and what pauses, expired leases and many checkpoints do to a run.

  \<^bold>\<open>Conventions.\<close> State is passed explicitly and returned updated; a raise is \<open>Inl\<close> of an error, a return \<open>Inr\<close>. Where an
  operation raises after it changed state, the model returns the changed state with the error. The clock, random
  identifiers, the answers of providers, processors and callbacks, and what the subscribers of the bus do with an event are parameters. A dict whose order the code
  observes is an association list in insertion order; otherwise it is a map. Texts are ASCII. What asyncio may interleave at an
  \<open>await\<close> is an explicit parameter (what other tasks did meanwhile) or an \<open>inductive\<close> step relation with its reachable states.

  \<^bold>\<open>Locales.\<close> \<open>catalog\<close>, \<open>bounded_store\<close>, \<open>expiring_store\<close> and \<open>decision_store\<close> state what a client may rely on; each is interpreted
  on the model of the component that provides it, and the properties use the facts of the interpretations.

  \<^bold>\<open>Loops.\<close> No definition carries fuel: loops over data are structural recursions, and the others have termination proofs. The walk
  over the days of a gap ends with the day of its end; the k-way merge consumes a pending event in every round; draining generated
  events counts towards the configured limit; the depth first search of the engine registry lengthens a path
  without repetitions. That the eviction loop of the cache is the \<open>while\<close> loop of the code is a theorem.

  \<^bold>\<open>Defects.\<close> Some theorems state what the code does where that is not what it means to do; their texts say so. Among them: a windowed history survives
  in the cache after a new candle, a paused replay fails, the 102nd checkpoint is refused, a pullback carries
  the geometry of the opposite direction, a scenario counts as target reached although it was invalidated before, a fetch that fails while it is announced leaves its candles
  cached, keys with different offsets share a file of the cache,
  an order block vanishes when the next candle carries its displacement on.

  \<^bold>\<open>Not modelled.\<close> The HTTP adapters, streaming, web routes, SQL repositories, migrations, notifications and prompt providers are input
  and output over third-party libraries; the quantitative models, the training code and the language model
  wrappers rest on numpy, pandas, scikit-learn and services; the liquidity, volume profile, institutional flow and
  regime engines, the scenario simulation and the assembly of the market state are analytical
  code that further theories could take up with the same conventions. Time zones and trading sessions depend on the time zone database.
  Logging, metrics for display and asyncio task handling are left out of the classes that are modelled.
\<close>

end
